(* ===== verification/Prelude.thy ===== *)
theory Prelude
  imports "HOL-Library.Word" "HOL-Library.Multiset"
begin

text \<open>
  Shared vocabulary of the development.  Bytes and buffers are lists of 8-bit words; memory
  behind a pointer is a total map from addresses to bytes, so a theorem that only assumes
  what some bytes hold also says that nothing else is read.  Words are stored least
  significant byte first, as on the x86-64 and AArch64 builds of the extension.  A routine
  of the source that can raise an error returns an element of a sum type, the error on the
  left, and its calls are chained by \<open>sum_bind\<close>.
\<close>

named_theorems mem_simps \<open>reads of memory that holds known bytes\<close>
named_theorems bits_simps \<open>tests on the tag bits of an entry word\<close>

unbundle bit_operations_syntax

subsection \<open>Results that may be an error\<close>

primrec sum_bind :: "'e + 'a \<Rightarrow> ('a \<Rightarrow> 'e + 'b) \<Rightarrow> 'e + 'b" where
  "sum_bind (Inl e) f = Inl e"
| "sum_bind (Inr x) f = f x"

lemma sum_bind_cong [fundef_cong]:
  assumes "m = m'" and "\<And>x. m' = Inr x \<Longrightarrow> f x = g x"
  shows "sum_bind m f = sum_bind m' g"
  using assms by (cases m') simp_all

lemma sum_bind_eq_Inr [simp]:
  "sum_bind m f = Inr y \<longleftrightarrow> (\<exists>x. m = Inr x \<and> f x = Inr y)"
  by (cases m) simp_all

lemma sum_bind_eq_Inl:
  "sum_bind m f = Inl e \<longleftrightarrow> m = Inl e \<or> (\<exists>x. m = Inr x \<and> f x = Inl e)"
  by (cases m) simp_all

lemma sum_bind_assoc: "sum_bind (sum_bind m f) g = sum_bind m (\<lambda>x. sum_bind (f x) g)"
  by (cases m) simp_all

text \<open>\<open>ereport(ERROR)\<close> under a condition, then the rest of the function.\<close>

definition check :: "bool \<Rightarrow> 'e \<Rightarrow> 'e + unit" where
  "check ok e = (if ok then Inr () else Inl e)"

lemma check_eq_Inr [simp]: "check ok e = Inr u \<longleftrightarrow> ok"
  by (simp add: check_def)

lemma check_True [simp]: "check True e = Inr ()"
  by (simp add: check_def)

lemma check_False [simp]: "check False e = Inl e"
  by (simp add: check_def)

subsection \<open>Bytes, buffers and memory\<close>

type_synonym byte = "8 word"
type_synonym bytes = "byte list"
type_synonym memory = "nat \<Rightarrow> byte"

text \<open>The memory at \<open>a\<close> holds the bytes \<open>bs\<close>.\<close>

definition holds :: "memory \<Rightarrow> nat \<Rightarrow> bytes \<Rightarrow> bool" where
  "holds mem a bs \<longleftrightarrow> (\<forall>i < length bs. mem (a + i) = bs ! i)"

lemma holds_Nil [simp]: "holds mem a []"
  by (simp add: holds_def)

lemma holds_Cons: "holds mem a (b # bs) \<longleftrightarrow> mem a = b \<and> holds mem (Suc a) bs"
  by (auto simp: holds_def less_Suc_eq_0_disj)

lemma holds_append: "holds mem a (xs @ ys) \<longleftrightarrow> holds mem a xs \<and> holds mem (a + length xs) ys"
proof (induction xs arbitrary: a)
  case (Cons x xs)
  then show ?case by (simp add: holds_Cons)
qed simp

text \<open>\<open>memcpy\<close> of \<open>n\<close> bytes out of memory.\<close>

definition load_bytes :: "memory \<Rightarrow> nat \<Rightarrow> nat \<Rightarrow> bytes" where
  "load_bytes mem a n = map (\<lambda>i. mem (a + i)) [0..<n]"

lemma length_load_bytes [simp]: "length (load_bytes mem a n) = n"
  by (simp add: load_bytes_def)

lemma load_bytes_holds [mem_simps]: "holds mem a bs \<Longrightarrow> load_bytes mem a (length bs) = bs"
  by (auto simp: holds_def load_bytes_def intro: nth_equalityI)

lemma holds_load_bytes: "holds mem a (load_bytes mem a n)"
  by (simp add: holds_def load_bytes_def)

lemma load_bytes_0 [simp]: "load_bytes mem a 0 = []"
  by (simp add: load_bytes_def)

lemma load_bytes_add: "load_bytes mem a (m + n) = load_bytes mem a m @ load_bytes mem (a + m) n"
  by (rule nth_equalityI) (auto simp: load_bytes_def nth_append)

lemma drop_load_bytes: "drop m (load_bytes mem a n) = load_bytes mem (a + m) (n - m)"
  by (rule nth_equalityI) (auto simp: load_bytes_def add.assoc)

text \<open>The memory that a byte list at address 0 gives; used to evaluate.\<close>

definition mem_of :: "bytes \<Rightarrow> memory" where
  "mem_of bs a = (if a < length bs then bs ! a else 0)"

lemma holds_mem_of [simp]: "holds (mem_of bs) 0 bs"
  by (simp add: holds_def mem_of_def)

lemma holds_mem_of_append: "holds (mem_of (xs @ bs)) (length xs) bs"
  by (simp add: holds_def mem_of_def nth_append)

text \<open>Overwriting bytes that are already there (\<open>memcpy\<close> into a buffer).\<close>

definition poke :: "bytes \<Rightarrow> nat \<Rightarrow> bytes \<Rightarrow> bytes" where
  "poke buf off bs = take off buf @ bs @ drop (off + length bs) buf"

lemma length_poke: "off + length bs \<le> length buf \<Longrightarrow> length (poke buf off bs) = length buf"
  by (simp add: poke_def)

lemma poke_append: "length ys = length bs \<Longrightarrow> poke (xs @ ys @ zs) (length xs) bs = xs @ bs @ zs"
  by (simp add: poke_def)

subsection \<open>Words in memory\<close>

primrec le_bytes :: "nat \<Rightarrow> 'a::len word \<Rightarrow> bytes" where
  "le_bytes 0 w = []"
| "le_bytes (Suc n) w = ucast w # le_bytes n (drop_bit 8 w)"

primrec le_word :: "bytes \<Rightarrow> 'a::len word" where
  "le_word [] = 0"
| "le_word (b # bs) = ucast b OR push_bit 8 (le_word bs)"

lemma le_bytes_numeral [simp]:
  "le_bytes (numeral k) w = ucast w # le_bytes (pred_numeral k) (drop_bit 8 w)"
  by (simp add: numeral_eq_Suc)

lemma length_le_bytes [simp]: "length (le_bytes n w) = n"
  by (induction n arbitrary: w) simp_all

lemma low_byte_join:
  "ucast (ucast w :: byte) OR push_bit 8 (take_bit k (drop_bit 8 w)) = take_bit (8 + k) (w :: 'a::len word)"
  by (rule bit_word_eqI) (auto simp: bit_simps)

lemma le_word_le_bytes: "le_word (le_bytes n w) = take_bit (8 * n) (w :: 'a::len word)"
  by (induction n arbitrary: w) (simp_all add: low_byte_join)

definition le32 :: "32 word \<Rightarrow> bytes" where
  "le32 w = le_bytes 4 w"

definition le64 :: "64 word \<Rightarrow> bytes" where
  "le64 w = le_bytes 8 w"

definition ld32 :: "memory \<Rightarrow> nat \<Rightarrow> 32 word" where
  "ld32 mem a = le_word (load_bytes mem a 4)"

definition ld64 :: "memory \<Rightarrow> nat \<Rightarrow> 64 word" where
  "ld64 mem a = le_word (load_bytes mem a 8)"

lemma length_le32 [simp]: "length (le32 w) = 4"
  unfolding le32_def by (rule length_le_bytes)

lemma length_le64 [simp]: "length (le64 w) = 8"
  unfolding le64_def by (rule length_le_bytes)

lemma ld32_holds [mem_simps]: "holds mem a (le32 w) \<Longrightarrow> ld32 mem a = w"
  using load_bytes_holds [of mem a "le32 w"]
  unfolding ld32_def length_le32 by (simp only: le32_def le_word_le_bytes) (simp add: take_bit_word_eq_self)

lemma ld64_holds [mem_simps]: "holds mem a (le64 w) \<Longrightarrow> ld64 mem a = w"
  using load_bytes_holds [of mem a "le64 w"]
  unfolding ld64_def length_le64 by (simp only: le64_def le_word_le_bytes) (simp add: take_bit_word_eq_self)

subsection \<open>Alignment\<close>

text \<open>\<open>INTALIGN\<close> and \<open>MAXALIGN\<close> of PostgreSQL's \<open>c.h\<close>: rounding up to 4 and to 8 bytes.\<close>

definition intalign :: "nat \<Rightarrow> nat" where
  "intalign n = (n + 3) div 4 * 4"

definition maxalign :: "nat \<Rightarrow> nat" where
  "maxalign n = (n + 7) div 8 * 8"

lemma intalign_ge: "n \<le> intalign n"
  unfolding intalign_def by presburger

lemma intalign_lt: "intalign n < n + 4"
  unfolding intalign_def by presburger

lemma intalign_mod [simp]: "intalign n mod 4 = 0"
  by (simp add: intalign_def)

lemma intalign_idem [simp]: "n mod 4 = 0 \<Longrightarrow> intalign n = n"
  unfolding intalign_def by presburger

lemma intalign_add: "b mod 4 = 0 \<Longrightarrow> intalign (b + n) = b + intalign n"
  unfolding intalign_def by presburger

lemma maxalign_ge: "n \<le> maxalign n"
  unfolding maxalign_def by presburger

lemma maxalign_lt: "maxalign n < n + 8"
  unfolding maxalign_def by presburger

lemma maxalign_mod [simp]: "maxalign n mod 8 = 0"
  by (simp add: maxalign_def)

lemma maxalign_mono: "m \<le> n \<Longrightarrow> maxalign m \<le> maxalign n"
  unfolding maxalign_def by (intro mult_le_mono div_le_mono) simp_all

end
