(* ===== verification/Np_Visibility.thy ===== *)
theory Np_Visibility
  imports Prelude
begin

text \<open>
  Visibility of record versions: \<open>FullXidRelativeTo\<close> and \<open>np_record_satisfies_snapshot\<close>
  (\<open>src/src/backend/access/np_linked_list.c\<close>), its copy for array lists (\<open>np_arraylist.c\<close>), and
  \<open>np_entity_tuple_is_live\<close> and \<open>np_entity_tuple_xmax_other\<close> (\<open>np_entity_store.c\<close>).  A full
  transaction id is a 64-bit word whose lower half is the 32-bit id; the tests on them are the
  macros of PostgreSQL's \<open>transam.h\<close>.  What PostgreSQL knows of transactions is a parameter: which
  ids are the backend's own, which are in progress, which committed, and the next id.
\<close>

type_synonym xid = "32 word"
type_synonym full_xid = "64 word"
type_synonym command_id = "32 word"

definition XidFromFullTransactionId :: "full_xid \<Rightarrow> xid" where
  "XidFromFullTransactionId f = ucast f"

definition FullTransactionIdIsValid :: "full_xid \<Rightarrow> bool" where
  "FullTransactionIdIsValid f \<longleftrightarrow> XidFromFullTransactionId f \<noteq> 0"

definition InvalidFullTransactionId :: full_xid where
  "InvalidFullTransactionId = 0"

definition InvalidCommandId :: command_id where
  "InvalidCommandId = 0xFFFFFFFF"

record xact_env =
  xe_current :: "xid \<Rightarrow> bool"
  xe_in_progress :: "xid \<Rightarrow> bool"
  xe_did_commit :: "xid \<Rightarrow> bool"
  xe_next :: full_xid

text \<open>Of a snapshot: its lower bound, the current command, and \<open>XidInMVCCSnapshot\<close>.\<close>

record snapshot =
  sn_xmin :: xid
  sn_curcid :: command_id
  sn_in :: "xid \<Rightarrow> bool"

text \<open>The header that every record version starts with.\<close>

record mvcc =
  mv_xmin :: full_xid
  mv_xmax :: full_xid
  mv_cmin :: command_id
  mv_cmax :: command_id

subsection \<open>The code\<close>

text \<open>\<open>U64FromFullTransactionId(rel) + (int32) (xid - rel_xid)\<close>: the difference wraps at 32 bits and
  is then sign extended.\<close>

definition FullXidRelativeTo :: "full_xid \<Rightarrow> xid \<Rightarrow> full_xid" where
  "FullXidRelativeTo rel xid = rel + scast (xid - XidFromFullTransactionId rel)"

definition freeze_horizon :: "xact_env \<Rightarrow> snapshot \<Rightarrow> full_xid" where
  "freeze_horizon env snapshot = FullXidRelativeTo (xe_next env) (sn_xmin snapshot)"

definition np_record_satisfies_snapshot :: "xact_env \<Rightarrow> snapshot \<Rightarrow> 'a mvcc_scheme \<Rightarrow> bool" where
  "np_record_satisfies_snapshot env snapshot rec =
     (let f_xmin = mv_xmin rec; f_xmax = mv_xmax rec;
          xmin_32 = XidFromFullTransactionId f_xmin; xmax_32 = XidFromFullTransactionId f_xmax;
          horizon = freeze_horizon env snapshot
      in if \<not> FullTransactionIdIsValid f_xmin then False
         else if (if f_xmin < horizon then False
                  else if xe_current env xmin_32 then mv_cmin rec \<ge> sn_curcid snapshot
                  else if sn_in snapshot xmin_32 then True
                  else \<not> xe_did_commit env xmin_32) then False
         else if FullTransactionIdIsValid f_xmax then
           (if f_xmax < horizon then False
            else if xe_current env xmax_32 then mv_cmax rec \<ge> sn_curcid snapshot
            else if \<not> sn_in snapshot xmax_32 \<and> xe_did_commit env xmax_32 then False
            else True)
         else True)"

definition np_arraylist_record_satisfies_snapshot :: "xact_env \<Rightarrow> snapshot \<Rightarrow> 'a mvcc_scheme \<Rightarrow> bool" where
  "np_arraylist_record_satisfies_snapshot env snapshot rec =
     (let f_xmin = mv_xmin rec; f_xmax = mv_xmax rec;
          xmin_32 = XidFromFullTransactionId f_xmin; xmax_32 = XidFromFullTransactionId f_xmax;
          horizon = freeze_horizon env snapshot
      in if \<not> FullTransactionIdIsValid f_xmin then False
         else if \<not> f_xmin < horizon \<and> xe_current env xmin_32 \<and> mv_cmin rec \<ge> sn_curcid snapshot
         then False
         else if \<not> f_xmin < horizon \<and> \<not> xe_current env xmin_32 \<and> sn_in snapshot xmin_32 then False
         else if \<not> f_xmin < horizon \<and> \<not> xe_current env xmin_32 \<and> \<not> sn_in snapshot xmin_32
              \<and> \<not> xe_did_commit env xmin_32 then False
         else if FullTransactionIdIsValid f_xmax then
           (if f_xmax < horizon then False
            else if xe_current env xmax_32 then (if mv_cmax rec \<ge> sn_curcid snapshot then True else False)
            else if \<not> sn_in snapshot xmax_32 \<and> xe_did_commit env xmax_32 then False
            else True)
         else True)"

definition np_entity_tuple_is_live :: "xact_env \<Rightarrow> 'a mvcc_scheme \<Rightarrow> bool" where
  "np_entity_tuple_is_live env hdr =
     (let fxmin = mv_xmin hdr; fxmax = mv_xmax hdr;
          xmin = XidFromFullTransactionId fxmin; xmax = XidFromFullTransactionId fxmax
      in if \<not> FullTransactionIdIsValid fxmin then False
         else if xe_current env xmin then
           (if FullTransactionIdIsValid fxmax \<and> xe_current env xmax then False else True)
         else if xe_in_progress env xmin \<or> \<not> xe_did_commit env xmin then False
         else if \<not> FullTransactionIdIsValid fxmax then True
         else if xe_current env xmax then False
         else if xe_in_progress env xmax \<or> \<not> xe_did_commit env xmax then True
         else False)"

definition np_entity_tuple_xmax_other :: "xact_env \<Rightarrow> 'a mvcc_scheme \<Rightarrow> bool" where
  "np_entity_tuple_xmax_other env hdr =
     (let fxmax = mv_xmax hdr; xmax = XidFromFullTransactionId fxmax
      in if \<not> FullTransactionIdIsValid fxmax then False
         else if xe_current env xmax then False
         else xe_in_progress env xmax)"

lemmas visibility_defs = np_record_satisfies_snapshot_def np_entity_tuple_is_live_def Let_def

subsection \<open>Full transaction ids from 32-bit ids\<close>

lemma ucast_diff:
  fixes f rel :: full_xid
  shows "(ucast f :: xid) - ucast rel = ucast (f - rel)"
proof -
  have diff: "take_bit 32 (a - b) = take_bit 32 (take_bit 64 a - take_bit 64 b)" for a b :: int
    using take_bit_diff[of 32 "take_bit 64 a" "take_bit 64 b"] take_bit_diff[of 32 a b] by simp
  have "ucast (f - rel) = (word_of_int (uint f - uint rel) :: xid)"
    by (transfer, simp) (rule diff)
  also have "\<dots> = ucast f - ucast rel" unfolding ucast_eq wi_hom_syms ..
  finally show ?thesis ..
qed

lemma scast_ucast_small:
  fixes d :: full_xid
  assumes "- (2 ^ 31) \<le> sint d" "sint d < 2 ^ 31"
  shows "scast (ucast d :: xid) = d"
proof -
  have "sint (ucast d :: xid) = signed_take_bit 31 (sint d)"
    by transfer (simp add: signed_take_bit_take_bit)
  also have "\<dots> = sint d" using assms by (simp add: signed_take_bit_int_eq_self)
  finally show ?thesis by (simp add: scast_eq)
qed

text \<open>C39. A full transaction id is recovered from its lower half and any other
  full id less than \<open>2 ^ 31\<close> transactions away, in either direction, across a wrap-around of the
  lower half.\<close>
theorem full_xid_recovered:
  assumes "- (2 ^ 31) \<le> sint (f - rel)" "sint (f - rel) < 2 ^ 31"
  shows "FullXidRelativeTo rel (XidFromFullTransactionId f) = f"
  by (simp add: FullXidRelativeTo_def XidFromFullTransactionId_def ucast_diff
      scast_ucast_small[OF assms])

lemma full_xid_recovered_witness:
  "FullXidRelativeTo 0x300000005 (XidFromFullTransactionId 0x2FFFFFFF0) = 0x2FFFFFFF0"
  by (rule full_xid_recovered) simp_all

subsection \<open>What the snapshot promises\<close>

text \<open>The specification speaks of full transaction ids: which are the backend's own, which the
  snapshot takes as still running, and which committed.\<close>

record history =
  h_own :: "full_xid \<Rightarrow> bool"
  h_running :: "full_xid \<Rightarrow> bool"
  h_committed :: "full_xid \<Rightarrow> bool"

definition took_effect :: "history \<Rightarrow> command_id \<Rightarrow> full_xid \<Rightarrow> command_id \<Rightarrow> bool" where
  "took_effect h curcid f cid \<longleftrightarrow> FullTransactionIdIsValid f
     \<and> (if h_own h f then cid < curcid else \<not> h_running h f \<and> h_committed h f)"

definition mvcc_visible :: "history \<Rightarrow> command_id \<Rightarrow> 'a mvcc_scheme \<Rightarrow> bool" where
  "mvcc_visible h curcid r \<longleftrightarrow>
     took_effect h curcid (mv_xmin r) (mv_cmin r) \<and> \<not> took_effect h curcid (mv_xmax r) (mv_cmax r)"

text \<open>The snapshot was taken at the full id \<open>lo\<close>, fewer than \<open>2 ^ 31\<close> transactions ago, and from
  there on the 32-bit tests of PostgreSQL answer for the full ids; below, no transaction is running
  or the backend's own.\<close>

definition snapshot_at :: "xact_env \<Rightarrow> snapshot \<Rightarrow> history \<Rightarrow> full_xid \<Rightarrow> bool" where
  "snapshot_at env snapshot h lo \<longleftrightarrow>
     sn_xmin snapshot = XidFromFullTransactionId lo
     \<and> - (2 ^ 31) \<le> sint (lo - xe_next env) \<and> sint (lo - xe_next env) < 2 ^ 31
     \<and> (\<forall>f. lo \<le> f \<longrightarrow> f < xe_next env \<longrightarrow>
          xe_current env (XidFromFullTransactionId f) = h_own h f
          \<and> sn_in snapshot (XidFromFullTransactionId f) = h_running h f
          \<and> xe_did_commit env (XidFromFullTransactionId f) = h_committed h f)
     \<and> (\<forall>f < lo. \<not> h_own h f \<and> \<not> h_running h f)"

definition written_before :: "full_xid \<Rightarrow> 'a mvcc_scheme \<Rightarrow> bool" where
  "written_before next_fxid r \<longleftrightarrow> mv_xmin r < next_fxid \<and> mv_xmax r < next_fxid"

definition old_writers_committed :: "history \<Rightarrow> full_xid \<Rightarrow> 'a mvcc_scheme \<Rightarrow> bool" where
  "old_writers_committed h lo r \<longleftrightarrow>
     (mv_xmin r < lo \<longrightarrow> FullTransactionIdIsValid (mv_xmin r) \<longrightarrow> h_committed h (mv_xmin r))
     \<and> (mv_xmax r < lo \<longrightarrow> FullTransactionIdIsValid (mv_xmax r) \<longrightarrow> h_committed h (mv_xmax r))"

lemma snapshot_at_horizon:
  "snapshot_at env snapshot h lo \<Longrightarrow> freeze_horizon env snapshot = lo"
  by (simp add: snapshot_at_def freeze_horizon_def FullXidRelativeTo_def
      XidFromFullTransactionId_def ucast_diff scast_ucast_small)

text \<open>The two questions the code asks about a writer, as one.\<close>

definition code_took_effect :: "xact_env \<Rightarrow> snapshot \<Rightarrow> full_xid \<Rightarrow> command_id \<Rightarrow> bool" where
  "code_took_effect env snapshot f cid \<longleftrightarrow> FullTransactionIdIsValid f
     \<and> (f < freeze_horizon env snapshot
        \<or> (if xe_current env (XidFromFullTransactionId f) then cid < sn_curcid snapshot
           else \<not> sn_in snapshot (XidFromFullTransactionId f)
             \<and> xe_did_commit env (XidFromFullTransactionId f)))"

lemma satisfies_snapshot_effects:
  "np_record_satisfies_snapshot env snapshot r \<longleftrightarrow>
     code_took_effect env snapshot (mv_xmin r) (mv_cmin r)
     \<and> \<not> code_took_effect env snapshot (mv_xmax r) (mv_cmax r)"
  unfolding np_record_satisfies_snapshot_def code_took_effect_def Let_def
  by (auto simp: not_le not_less)

lemma code_took_effect_history:
  assumes "snapshot_at env snapshot h lo" "f < xe_next env"
    "f < lo \<longrightarrow> FullTransactionIdIsValid f \<longrightarrow> h_committed h f"
  shows "code_took_effect env snapshot f cid = took_effect h (sn_curcid snapshot) f cid"
proof (cases "f < lo")
  case True
  then show ?thesis using assms snapshot_at_horizon[OF assms(1)]
    by (auto simp: code_took_effect_def took_effect_def snapshot_at_def)
next
  case False
  with assms have "xe_current env (XidFromFullTransactionId f) = h_own h f"
    "sn_in snapshot (XidFromFullTransactionId f) = h_running h f"
    "xe_did_commit env (XidFromFullTransactionId f) = h_committed h f"
    by (auto simp: snapshot_at_def not_less)
  with False show ?thesis using snapshot_at_horizon[OF assms(1)]
    by (simp add: code_took_effect_def took_effect_def)
qed

text \<open>C21. The test on a record version is multi-version visibility: its
  insertion took effect for the snapshot and its deletion did not, provided no transaction that
  wrote it and is older than the snapshot was aborted.\<close>
theorem visibility_matches_mvcc:
  assumes "snapshot_at env snapshot h lo" "written_before (xe_next env) r"
    "old_writers_committed h lo r"
  shows "np_record_satisfies_snapshot env snapshot r = mvcc_visible h (sn_curcid snapshot) r"
  using assms
  by (simp add: satisfies_snapshot_effects mvcc_visible_def code_took_effect_history
      written_before_def old_writers_committed_def)

text \<open>A backend running transaction 1005, a snapshot taken at 1000 with 1003 running; 994 and
  1004 were aborted.\<close>

definition example_history :: history where
  "example_history = \<lparr> h_own = (\<lambda>f. f = 1005), h_running = (\<lambda>f. 1000 \<le> f \<and> ucast f = (1003 :: xid)),
     h_committed = (\<lambda>f. ucast f \<noteq> (1004 :: xid) \<and> f \<noteq> 994) \<rparr>"

definition example_env :: xact_env where
  "example_env = \<lparr> xe_current = (\<lambda>x. x = 1005), xe_in_progress = (\<lambda>x. x = 1003 \<or> x = 1005),
     xe_did_commit = (\<lambda>x. x \<noteq> 1004), xe_next = 1010 \<rparr>"

definition example_snapshot :: snapshot where
  "example_snapshot = \<lparr> sn_xmin = 1000, sn_curcid = 2, sn_in = (\<lambda>x. x = 1003) \<rparr>"

definition example_version :: mvcc where
  "example_version = \<lparr> mv_xmin = 995, mv_xmax = 1005, mv_cmin = 0, mv_cmax = 1 \<rparr>"

lemma ucast_1005:
  fixes f :: full_xid
  assumes "f < 1010"
  shows "(ucast f = (1005 :: xid)) = (f = 1005)"
proof -
  have "uint f < 1010" using assms by (simp add: word_less_def)
  then have "take_bit 32 (uint f) = uint f" by (simp add: take_bit_int_eq_self)
  then have "uint (ucast f :: xid) = uint f" by (simp add: unsigned_ucast_eq)
  then show ?thesis by (simp add: word_uint_eq_iff)
qed

lemma example_snapshot_at: "snapshot_at example_env example_snapshot example_history 1000"
  by (auto simp: snapshot_at_def example_env_def example_snapshot_def example_history_def
      XidFromFullTransactionId_def ucast_1005)

lemma visibility_matches_mvcc_witness:
  "np_record_satisfies_snapshot example_env example_snapshot example_version
    = mvcc_visible example_history 2 example_version
   \<and> \<not> mvcc_visible example_history 2 example_version"
  using visibility_matches_mvcc[OF example_snapshot_at, of example_version]
  by (simp_all add: written_before_def old_writers_committed_def example_version_def
      example_env_def example_history_def mvcc_visible_def took_effect_def
      FullTransactionIdIsValid_def XidFromFullTransactionId_def example_snapshot_def)

text \<open>C34. Without that proviso the test errs: a version written by a
  transaction that was aborted before the snapshot was taken is visible, and a version that such a
  transaction deleted is invisible.\<close>
theorem aborted_writer_committed:
  assumes "snapshot_at env snapshot h lo" "f < lo" "FullTransactionIdIsValid f"
    "\<not> h_committed h f"
  shows "np_record_satisfies_snapshot env snapshot
           \<lparr> mv_xmin = f, mv_xmax = 0, mv_cmin = c, mv_cmax = InvalidCommandId \<rparr>
       \<and> \<not> mvcc_visible h (sn_curcid snapshot)
           \<lparr> mv_xmin = f, mv_xmax = 0, mv_cmin = c, mv_cmax = InvalidCommandId \<rparr>
       \<and> \<not> np_record_satisfies_snapshot env snapshot
           \<lparr> mv_xmin = g, mv_xmax = f, mv_cmin = c', mv_cmax = c \<rparr>"
  using assms snapshot_at_horizon[OF assms(1)]
  by (simp add: satisfies_snapshot_effects code_took_effect_def mvcc_visible_def took_effect_def
      snapshot_at_def FullTransactionIdIsValid_def XidFromFullTransactionId_def)

lemma aborted_writer_committed_witness:
  "np_record_satisfies_snapshot example_env example_snapshot
     \<lparr> mv_xmin = 994, mv_xmax = 0, mv_cmin = 0, mv_cmax = InvalidCommandId \<rparr>"
  using aborted_writer_committed[OF example_snapshot_at, of 994 0]
  by (simp add: FullTransactionIdIsValid_def XidFromFullTransactionId_def example_history_def)

text \<open>The copy of the test for array lists decides as the test for
  linked lists does.\<close>
theorem arraylist_visibility_agrees:
  "np_arraylist_record_satisfies_snapshot = np_record_satisfies_snapshot"
  by (intro ext) (auto simp: np_arraylist_record_satisfies_snapshot_def
      np_record_satisfies_snapshot_def Let_def)

text \<open>C37. An update ends the old version of an entity and starts the new one
  with the same transaction: whatever becomes of that transaction, exactly one of the two versions
  is live, when the old one was and nobody else updates a version its creator has not committed.\<close>
theorem update_switches_versions:
  fixes old :: mvcc
  assumes "np_entity_tuple_is_live env (old \<lparr> mv_xmax := InvalidFullTransactionId \<rparr>)"
    "FullTransactionIdIsValid f"
    "xe_current env (XidFromFullTransactionId (mv_xmin old)) \<longrightarrow>
       xe_current env (XidFromFullTransactionId f)"
  shows "np_entity_tuple_is_live env (old \<lparr> mv_xmax := f, mv_cmax := cid \<rparr>) \<noteq>
         np_entity_tuple_is_live env \<lparr> mv_xmin = f, mv_xmax = InvalidFullTransactionId,
           mv_cmin = cid, mv_cmax = InvalidCommandId \<rparr>"
  using assms
  by (auto simp: np_entity_tuple_is_live_def Let_def FullTransactionIdIsValid_def
      InvalidFullTransactionId_def XidFromFullTransactionId_def split: if_splits)

lemma update_switches_versions_witness:
  "np_entity_tuple_is_live example_env (example_version \<lparr> mv_xmax := 1003, mv_cmax := 4 \<rparr>) \<noteq>
   np_entity_tuple_is_live example_env \<lparr> mv_xmin = 1003, mv_xmax = InvalidFullTransactionId,
     mv_cmin = 4, mv_cmax = InvalidCommandId \<rparr>"
  by (rule update_switches_versions)
    (simp_all add: np_entity_tuple_is_live_def Let_def FullTransactionIdIsValid_def
      InvalidFullTransactionId_def XidFromFullTransactionId_def example_env_def example_version_def)

end
