(* ===== verification/Np_Page.thy ===== *)
theory Np_Page
  imports Np_Visibility
begin

text \<open>
  Relations as the storage layer sees them: the records of the headers under
  \<open>src/src/include/access\<close>, item pointers, and a relation as its sequence of pages.  The page
  routines of PostgreSQL (\<open>bufpage.h\<close>) are a parameter, a record of functions on an abstract type
  of pages; \<open>page_laws\<close> states what their documentation promises.  Reading an item from a page
  reads the record that was put there: the overlay of a C struct on the page is not modelled, and a
  cast to another struct is the error \<open>WrongRecord\<close>.  Locks, buffers and the write-ahead log leave
  no trace: a routine that holds a page lock is one step.
\<close>

subsection \<open>Item pointers\<close>

type_synonym oid = "32 word"

definition InvalidOid :: oid where
  "InvalidOid = 0"

definition OidIsValid :: "oid \<Rightarrow> bool" where
  "OidIsValid i \<longleftrightarrow> i \<noteq> InvalidOid"

record item_pointer =
  ip_blkid :: "32 word"
  ip_posid :: "16 word"

definition ItemPointerIsValid :: "item_pointer \<Rightarrow> bool" where
  "ItemPointerIsValid tid \<longleftrightarrow> ip_posid tid \<noteq> 0"

definition InvalidItemPointer :: item_pointer where
  "InvalidItemPointer = \<lparr> ip_blkid = 0xFFFFFFFF, ip_posid = 0 \<rparr>"

text \<open>What \<open>memset(_, 0, _)\<close> leaves in an item pointer.\<close>

definition ZeroItemPointer :: item_pointer where
  "ZeroItemPointer = \<lparr> ip_blkid = 0, ip_posid = 0 \<rparr>"

lemma invalid_not_valid [simp]:
  "\<not> ItemPointerIsValid InvalidItemPointer" "\<not> ItemPointerIsValid ZeroItemPointer"
  "\<not> OidIsValid InvalidOid"
  by (simp_all add: ItemPointerIsValid_def InvalidItemPointer_def ZeroItemPointer_def OidIsValid_def)

subsection \<open>Records\<close>

record NeoLinkedListRecord = mvcc +
  ll_id :: "64 word"
  ll_edge_lid :: "32 word"
  ll_dir :: byte
  ll_owner_id :: "64 word"
  ll_other_id :: "64 word"
  ll_other_lid :: "32 word"
  ll_next_tbl :: oid
  ll_next_itemptr :: item_pointer
  ll_prev_tbl :: oid
  ll_prev_itemptr :: item_pointer

record AdjListMember = mvcc +
  am_edge_id :: "64 word"
  am_edge_lid :: "32 word"
  am_other_id :: "64 word"
  am_other_lid :: "32 word"
  am_dir :: byte
  am_flags :: byte

text \<open>The members up to \<open>nitems\<close>; the slots behind them, allocated up to \<open>maxitems\<close>, are not written
  to disk.\<close>

record AdjList =
  al_maxitems :: "32 word"
  al_data :: "AdjListMember list"

record NeoArrayListRecord = mvcc +
  ar_flags :: "16 word"
  ar_owner_id :: "64 word"
  ar_prev_tbl :: oid
  ar_prev_itemptr :: item_pointer
  ar_next_itemptr :: item_pointer
  ar_adj_list :: AdjList

record NPEntityTupleHeaderData = mvcc +
  en_prev_itemptr :: item_pointer
  en_flags :: "16 word"
  en_id :: "64 word"
  en_serialized_entity :: bytes

record NeoPhysMapRecord =
  pm_v_itemptr :: item_pointer
  pm_e_tbl_id :: oid
  pm_e_itemptr :: item_pointer
  pm_a_itemptr :: item_pointer

record NeoEdgePhysMapRecord =
  ep_e_itemptr :: item_pointer
  ep_a_itemptr :: item_pointer

text \<open>PostgreSQL's \<open>HeapTupleHeader\<close>: three words, the address of the next version, and what follows,
  which the access method copies: the flags, the null bitmap and the columns.  Of the 23 bytes of the
  header 18 come before \<open>ht_rest\<close>.\<close>

record heap_tuple =
  ht_xmin :: "32 word"
  ht_xmax :: "32 word"
  ht_cid :: "32 word"
  ht_ctid :: item_pointer
  ht_rest :: bytes

record NPCatalogItemHeaderData = mvcc +
  ct_prev_itemptr :: item_pointer
  ct_flags :: "16 word"
  ct_heap_tuple :: heap_tuple

datatype item =
    Entity NPEntityTupleHeaderData
  | Linked NeoLinkedListRecord
  | ArrayBlock NeoArrayListRecord
  | PhysMap NeoPhysMapRecord
  | EdgePhysMap NeoEdgePhysMapRecord
  | CatalogItem NPCatalogItemHeaderData

text \<open>The sizes of the structs: packed ones are the sum of their fields.\<close>

definition SizeOfNPEntityTupleHeader :: nat where
  "SizeOfNPEntityTupleHeader = 40"

definition SizeOfNPCatalogItemHeader :: nat where
  "SizeOfNPCatalogItemHeader = 32"

definition t_len :: "heap_tuple \<Rightarrow> nat" where
  "t_len tuple = 18 + length (ht_rest tuple)"

definition SizeOfNeoArrayListRecord :: nat where
  "SizeOfNeoArrayListRecord = 56"

definition SizeOfAdjListMember :: nat where
  "SizeOfAdjListMember = 52"

definition SizeOfNeoPhysMapRecord :: nat where
  "SizeOfNeoPhysMapRecord = 22"

definition SizeOfNeoEdgePhysMapRecord :: nat where
  "SizeOfNeoEdgePhysMapRecord = 12"

text \<open>\<open>nitems\<close> and \<open>maxitems\<close> come before the members of an adjacency list; its length word is not
  stored.\<close>

fun item_size :: "item \<Rightarrow> nat" where
  "item_size (Entity e) = SizeOfNPEntityTupleHeader + length (en_serialized_entity e)"
| "item_size (Linked r) = 77"
| "item_size (ArrayBlock r) =
     SizeOfNeoArrayListRecord + 8 + SizeOfAdjListMember * length (al_data (ar_adj_list r))"
| "item_size (PhysMap r) = SizeOfNeoPhysMapRecord"
| "item_size (EdgePhysMap r) = SizeOfNeoEdgePhysMapRecord"
| "item_size (CatalogItem c) = SizeOfNPCatalogItemHeader + t_len (ct_heap_tuple c)"

lemma maxalign_pos: "0 < n \<Longrightarrow> 8 \<le> maxalign n"
  by (simp add: maxalign_def)

lemma item_size_pos: "0 < item_size x"
  by (cases x) (simp_all add: SizeOfNPEntityTupleHeader_def SizeOfNeoArrayListRecord_def
      SizeOfNeoPhysMapRecord_def SizeOfNeoEdgePhysMapRecord_def SizeOfNPCatalogItemHeader_def)

subsection \<open>Pages\<close>

record 'p page_api =
  pg_new :: 'p
  pg_init :: 'p
  PageIsNew :: "'p \<Rightarrow> bool"
  PageGetMaxOffsetNumber :: "'p \<Rightarrow> nat"
  PageGetFreeSpace :: "'p \<Rightarrow> nat"
  pg_item :: "'p \<Rightarrow> nat \<Rightarrow> item option"
  PageAddItem :: "'p \<Rightarrow> item \<Rightarrow> ('p \<times> nat) option"
  pg_reclaim :: "'p \<Rightarrow> nat \<Rightarrow> item \<Rightarrow> 'p"
  pg_put :: "'p \<Rightarrow> nat \<Rightarrow> item \<Rightarrow> 'p"

text \<open>\<open>pg_new\<close> is the page of zeros that extending a file gives, \<open>pg_init\<close> what \<open>PageInit\<close> makes of it;
  \<open>pg_item\<close> is \<open>PageGetItemId\<close>, \<open>ItemIdIsNormal\<close> and \<open>PageGetItem\<close>; \<open>PageAddItem\<close> is called with
  \<open>InvalidOffsetNumber\<close>, \<open>pg_reclaim\<close> with an offset and \<open>PAI_OVERWRITE\<close>; \<open>pg_put\<close> is \<open>memcpy\<close> over an item.

  A page without dead items is dense.  A page of 8192 bytes has a header of 24 bytes and a line
  pointer of 4 bytes for every item, and \<open>PageGetFreeSpace\<close> leaves out one more line pointer.\<close>

definition dense :: "'p page_api \<Rightarrow> 'p \<Rightarrow> bool" where
  "dense api p \<longleftrightarrow> (\<forall>k. (pg_item api p k = None) = (k = 0 \<or> PageGetMaxOffsetNumber api p < k))"

definition fresh_pages :: "'p page_api \<Rightarrow> bool" where
  "fresh_pages api \<longleftrightarrow>
     PageIsNew api (pg_new api) \<and> PageGetMaxOffsetNumber api (pg_new api) = 0
     \<and> dense api (pg_new api)
     \<and> \<not> PageIsNew api (pg_init api) \<and> PageGetMaxOffsetNumber api (pg_init api) = 0
     \<and> dense api (pg_init api) \<and> PageGetFreeSpace api (pg_init api) = 8164"

definition adds_at_end :: "'p page_api \<Rightarrow> bool" where
  "adds_at_end api \<longleftrightarrow> (\<forall>p x. \<not> PageIsNew api p \<longrightarrow> dense api p \<longrightarrow>
     (case PageAddItem api p x of
        None \<Rightarrow> PageGetFreeSpace api p < maxalign (item_size x)
      | Some (p', k) \<Rightarrow> maxalign (item_size x) \<le> PageGetFreeSpace api p
          \<and> \<not> PageIsNew api p' \<and> k = Suc (PageGetMaxOffsetNumber api p)
          \<and> PageGetMaxOffsetNumber api p' = k \<and> pg_item api p' = (pg_item api p)(k \<mapsto> x)
          \<and> PageGetFreeSpace api p' = PageGetFreeSpace api p - (maxalign (item_size x) + 4)))"

definition puts_in_place :: "'p page_api \<Rightarrow> bool" where
  "puts_in_place api \<longleftrightarrow> (\<forall>p k x y. \<not> PageIsNew api p \<longrightarrow> pg_item api p k = Some y \<longrightarrow>
     item_size x = item_size y \<longrightarrow>
          \<not> PageIsNew api (pg_put api p k x)
          \<and> PageGetMaxOffsetNumber api (pg_put api p k x) = PageGetMaxOffsetNumber api p
          \<and> pg_item api (pg_put api p k x) = (pg_item api p)(k \<mapsto> x)
          \<and> PageGetFreeSpace api (pg_put api p k x) = PageGetFreeSpace api p)"

definition page_laws :: "'p page_api \<Rightarrow> bool" where
  "page_laws api \<longleftrightarrow> fresh_pages api \<and> adds_at_end api \<and> puts_in_place api"

subsection \<open>Relations\<close>

datatype store_error =
    BlockMissing  \<comment> \<open>\<open>ReadBuffer\<close> of a block behind the end of the file\<close>
  | FileFull
  | AddFailed
  | NotNormal  \<comment> \<open>a line pointer that is not in use, where the code tests it\<close>
  | WildItem  \<comment> \<open>the same, where the code does not test it\<close>
  | WrongRecord
  | WildWrite  \<comment> \<open>a write behind the end of an allocation\<close>
  | NullPointer  \<comment> \<open>a null pointer handed to code that reads what is behind it\<close>
  | SelfDeadlock  \<comment> \<open>a wait for a lock that the same backend holds: the call never returns\<close>
  | Raised string

type_synonym 'p db = "oid \<Rightarrow> 'p list"

definition RelationGetNumberOfBlocks :: "'p db \<Rightarrow> oid \<Rightarrow> nat" where
  "RelationGetNumberOfBlocks db rel = length (db rel)"

definition ReadBuffer :: "'p db \<Rightarrow> oid \<Rightarrow> 32 word \<Rightarrow> store_error + 'p" where
  "ReadBuffer db rel blk =
     (if unat blk < length (db rel) then Inr (db rel ! unat blk) else Inl BlockMissing)"

text \<open>\<open>ReadBuffer(rel, P_NEW)\<close>: block numbers end at \<open>0xFFFFFFFE\<close>.\<close>

definition extend_relation :: "'p page_api \<Rightarrow> 'p db \<Rightarrow> oid \<Rightarrow> store_error + 'p db" where
  "extend_relation api db rel =
     (if length (db rel) < 0xFFFFFFFF then Inr (db(rel := db rel @ [pg_new api])) else Inl FileFull)"

definition put_page :: "'p db \<Rightarrow> oid \<Rightarrow> 32 word \<Rightarrow> 'p \<Rightarrow> 'p db" where
  "put_page db rel blk p = db(rel := (db rel)[unat blk := p])"

text \<open>Where an item pointer leads, as a partial map: the abstraction of the store.\<close>

definition fetch_item :: "'p page_api \<Rightarrow> 'p db \<Rightarrow> oid \<times> item_pointer \<Rightarrow> item option" where
  "fetch_item api db a =
     (if unat (ip_blkid (snd a)) < length (db (fst a))
      then pg_item api (db (fst a) ! unat (ip_blkid (snd a))) (unat (ip_posid (snd a))) else None)"

text \<open>An item takes at least 8 bytes and a line pointer, so a page holds at most 680 items and their
  offsets fit in 16 bits.\<close>

definition page_ok :: "'p page_api \<Rightarrow> 'p \<Rightarrow> bool" where
  "page_ok api p \<longleftrightarrow> dense api p
     \<and> (if PageIsNew api p then PageGetMaxOffsetNumber api p = 0
        else 12 * PageGetMaxOffsetNumber api p \<le> 8168
          \<and> (0 < PageGetFreeSpace api p \<longrightarrow>
               12 * PageGetMaxOffsetNumber api p + PageGetFreeSpace api p \<le> 8164))"

definition db_ok :: "'p page_api \<Rightarrow> 'p db \<Rightarrow> bool" where
  "db_ok api db \<longleftrightarrow> (\<forall>rel. length (db rel) \<le> 0xFFFFFFFF \<and> (\<forall>p \<in> set (db rel). page_ok api p))"

subsection \<open>The shared steps of the routines\<close>

text \<open>Read, test the line pointer, change the record in place, or raise the routine's error.\<close>

definition modify_item ::
  "'p page_api \<Rightarrow> (item \<Rightarrow> item option) \<Rightarrow> 'p db \<Rightarrow> oid \<Rightarrow> item_pointer \<Rightarrow> store_error + 'p db" where
  "modify_item api f db rel tid =
     sum_bind (ReadBuffer db rel (ip_blkid tid)) (\<lambda>page.
       case pg_item api page (unat (ip_posid tid)) of
         None \<Rightarrow> Inl NotNormal
       | Some x \<Rightarrow>
           (case f x of None \<Rightarrow> Inl WrongRecord
            | Some y \<Rightarrow> Inr (put_page db rel (ip_blkid tid)
                (pg_put api page (unat (ip_posid tid)) y))))"

definition read_item ::
  "'p page_api \<Rightarrow> 'p db \<Rightarrow> oid \<Rightarrow> item_pointer \<Rightarrow> store_error + item option" where
  "read_item api db rel tid =
     sum_bind (ReadBuffer db rel (ip_blkid tid)) (\<lambda>page.
       Inr (pg_item api page (unat (ip_posid tid))))"

end
