(* ===== verification/Np_Store.thy ===== *)
theory Np_Store
  imports Np_Page
begin

text \<open>
  Writing, overwriting and scanning records: \<open>np_write_record_to_page\<close>
  (\<open>src/src/backend/access/np_entity_store.c\<close>), which every table access method inserts with, the
  in-place update of linked-list records (\<open>np_linked_list.c\<close>), and the inserts and sequential scans
  of linked lists and array lists (\<open>np_arraylist.c\<close>).  The locale \<open>record_store\<close> is the contract the
  rest of the development uses: a store is a partial map from addresses to records.
\<close>

subsection \<open>Writing a record\<close>

definition add_to_last_block ::
  "'p page_api \<Rightarrow> 'p db \<Rightarrow> oid \<Rightarrow> item \<Rightarrow> store_error + (item_pointer \<times> 'p db)" where
  "add_to_last_block api db rel x =
     (let blk = RelationGetNumberOfBlocks db rel - 1;
          page = db rel ! blk;
          page = (if PageIsNew api page then pg_init api else page)
      in case PageAddItem api page x of
           None \<Rightarrow> Inl AddFailed
         | Some (page', offnum) \<Rightarrow>
             Inr (\<lparr> ip_blkid = of_nat blk, ip_posid = of_nat offnum \<rparr>,
                  put_page db rel (of_nat blk) page'))"

definition np_write_record_to_page ::
  "'p page_api \<Rightarrow> 'p db \<Rightarrow> oid \<Rightarrow> item \<Rightarrow> store_error + (item_pointer \<times> 'p db)" where
  "np_write_record_to_page api db rel x =
     sum_bind (if RelationGetNumberOfBlocks db rel = 0 then extend_relation api db rel else Inr db)
       (\<lambda>db. let page = last (db rel); space_needed = maxalign (item_size x) + 4
         in sum_bind (if \<not> PageIsNew api page \<and> PageGetFreeSpace api page < space_needed
                      then extend_relation api db rel else Inr db)
           (\<lambda>db. add_to_last_block api db rel x))"

text \<open>An item that fits on an empty page.\<close>

definition item_fits :: "item \<Rightarrow> bool" where
  "item_fits x \<longleftrightarrow> maxalign (item_size x) + 4 \<le> 8164"

text \<open>Room for one more block.\<close>

definition has_room :: "'p db \<Rightarrow> oid \<Rightarrow> bool" where
  "has_room db rel \<longleftrightarrow> length (db rel) < 0xFFFFFFFF"

subsection \<open>Pages\<close>

lemma page_new_laws:
  assumes "page_laws api"
  shows "PageIsNew api (pg_new api)" "page_ok api (pg_new api)"
    "\<not> PageIsNew api (pg_init api)" "page_ok api (pg_init api)"
    "PageGetMaxOffsetNumber api (pg_init api) = 0" "PageGetFreeSpace api (pg_init api) = 8164"
    "pg_item api (pg_init api) = Map.empty" "pg_item api (pg_new api) = Map.empty"
  using assms by (simp_all add: page_laws_def fresh_pages_def page_ok_def dense_def fun_eq_iff neq0_conv[symmetric] del: neq0_conv)

lemma page_new_items:
  assumes "page_ok api p" "PageIsNew api p"
  shows "pg_item api p = Map.empty"
  using assms by (simp add: page_ok_def dense_def fun_eq_iff neq0_conv[symmetric] del: neq0_conv)

lemma page_add_None:
  "\<lbrakk>page_laws api; \<not> PageIsNew api p; page_ok api p; PageAddItem api p x = None\<rbrakk> \<Longrightarrow>
    PageGetFreeSpace api p < maxalign (item_size x)"
  unfolding page_laws_def adds_at_end_def page_ok_def
  by (drule conjunct2, drule conjunct1, elim allE[of _ p], drule spec[of _ x]) simp

lemma page_add_Some:
  assumes "page_laws api" "\<not> PageIsNew api p" "page_ok api p" "PageAddItem api p x = Some (p', k)"
  shows "\<not> PageIsNew api p'" "k = Suc (PageGetMaxOffsetNumber api p)"
    "PageGetMaxOffsetNumber api p' = k" "pg_item api p' = (pg_item api p)(k \<mapsto> x)"
    "PageGetFreeSpace api p' = PageGetFreeSpace api p - (maxalign (item_size x) + 4)"
    "maxalign (item_size x) \<le> PageGetFreeSpace api p"
proof -
  have "adds_at_end api" using assms(1) by (simp add: page_laws_def)
  from this[unfolded adds_at_end_def, rule_format, of p x] assms(2-4)
  show "\<not> PageIsNew api p'" "k = Suc (PageGetMaxOffsetNumber api p)"
    "PageGetMaxOffsetNumber api p' = k" "pg_item api p' = (pg_item api p)(k \<mapsto> x)"
    "PageGetFreeSpace api p' = PageGetFreeSpace api p - (maxalign (item_size x) + 4)"
    "maxalign (item_size x) \<le> PageGetFreeSpace api p"
    by (simp_all add: page_ok_def)
qed

lemma page_space:
  fixes m f s :: nat
  assumes "12 * m + f \<le> 8164" "s \<le> f" "8 \<le> s"
  shows "12 * Suc m \<le> 8168"
    and "0 < f - (s + 4) \<Longrightarrow> 12 * Suc m + (f - (s + 4)) \<le> 8164"
proof -
  show "12 * Suc m \<le> 8168" using assms by simp
  assume "0 < f - (s + 4)"
  moreover define d where "d = f - (s + 4)"
  ultimately have "f = d + s + 4" by simp
  with assms show "12 * Suc m + (f - (s + 4)) \<le> 8164" by simp
qed

lemma page_add_ok:
  assumes "page_laws api" "\<not> PageIsNew api p" "page_ok api p" "PageAddItem api p x = Some (p', k)"
  shows "page_ok api p'" "0 < k" "k \<le> 680" "pg_item api p k = None"
proof -
  note add = page_add_Some[OF assms]
  note free = add(6)
  have size: "8 \<le> maxalign (item_size x)" by (simp add: maxalign_pos item_size_pos)
  have d: "\<And>j. (pg_item api p j = None) = (j = 0 \<or> PageGetMaxOffsetNumber api p < j)"
    using assms(3) by (simp add: page_ok_def dense_def)
  have bound: "12 * PageGetMaxOffsetNumber api p + PageGetFreeSpace api p \<le> 8164"
    using assms(2,3) free size by (simp add: page_ok_def)
  have "dense api p'"
    unfolding dense_def add(3,4) by (auto simp: d add(2))
  moreover have k: "12 * k \<le> 8168" unfolding add(2) by (rule page_space(1)[OF bound free size])
  moreover have "0 < PageGetFreeSpace api p' \<longrightarrow> 12 * k + PageGetFreeSpace api p' \<le> 8164"
    unfolding add(2,5) using page_space(2)[OF bound free size] by blast
  ultimately show "page_ok api p'" using add(1) by (simp add: page_ok_def add(3))
  show "0 < k" by (simp add: add(2))
  show "k \<le> 680" using k by linarith
  show "pg_item api p k = None" by (simp add: d add(2))
qed

lemma page_put_Some:
  assumes "page_laws api" "page_ok api p" "pg_item api p k = Some y" "item_size x = item_size y"
  shows "page_ok api (pg_put api p k x)" "pg_item api (pg_put api p k x) = (pg_item api p)(k \<mapsto> x)"
proof -
  have n: "\<not> PageIsNew api p" using page_new_items[OF assms(2)] assms(3) by auto
  have "puts_in_place api" using assms(1) by (simp add: page_laws_def)
  from this[unfolded puts_in_place_def, rule_format, OF n assms(3,4)]
  have put: "\<not> PageIsNew api (pg_put api p k x)
          \<and> PageGetMaxOffsetNumber api (pg_put api p k x) = PageGetMaxOffsetNumber api p
          \<and> pg_item api (pg_put api p k x) = (pg_item api p)(k \<mapsto> x)
          \<and> PageGetFreeSpace api (pg_put api p k x) = PageGetFreeSpace api p" .
  then show "pg_item api (pg_put api p k x) = (pg_item api p)(k \<mapsto> x)" by simp
  have d: "\<And>j. (pg_item api p j = None) = (j = 0 \<or> PageGetMaxOffsetNumber api p < j)"
    using assms(2) by (simp add: page_ok_def dense_def)
  have "\<not> (k = 0 \<or> PageGetMaxOffsetNumber api p < k)" using d[of k] assms(3) by simp
  then have "dense api (pg_put api p k x)" using put by (auto simp: dense_def d)
  then show "page_ok api (pg_put api p k x)" using assms(2) n put by (simp add: page_ok_def)
qed

lemma page_max_le:
  assumes "page_ok api p"
  shows "PageGetMaxOffsetNumber api p \<le> 680"
  using assms by (simp add: page_ok_def split: if_splits)

subsection \<open>The store as a map\<close>

lemma fetch_put_page:
  assumes "unat blk < length (db rel)"
  shows "fetch_item api (put_page db rel blk p) (rel', tid) =
    (if rel' = rel \<and> ip_blkid tid = blk then pg_item api p (unat (ip_posid tid))
     else fetch_item api db (rel', tid))"
proof (cases "rel' = rel \<and> ip_blkid tid = blk")
  case True
  then show ?thesis using assms by (simp add: fetch_item_def put_page_def)
next
  case False
  then have "rel' \<noteq> rel \<or> unat blk \<noteq> unat (ip_blkid tid)" by (auto simp: word_unat_eq_iff)
  then show ?thesis using False by (auto simp: fetch_item_def put_page_def)
qed

lemma put_page_same_item:
  assumes "unat blk < length (db rel)" "k < 2 ^ 16"
    "pg_item api p = (pg_item api (db rel ! unat blk))(k \<mapsto> x)"
  shows "fetch_item api (put_page db rel blk p) =
    (fetch_item api db)((rel, \<lparr> ip_blkid = blk, ip_posid = of_nat k \<rparr>) \<mapsto> x)"
proof (rule ext, rule prod.induct)
  fix rel' and tid :: item_pointer
  have k: "unat (of_nat k :: 16 word) = k" using assms(2) by (simp add: unat_of_nat)
  then have pos: "unat (ip_posid tid) = k \<longleftrightarrow> ip_posid tid = of_nat k" by auto
  have tid: "tid = \<lparr> ip_blkid = blk, ip_posid = of_nat k \<rparr> \<longleftrightarrow>
      ip_blkid tid = blk \<and> ip_posid tid = of_nat k"
    by (cases tid) auto
  show "fetch_item api (put_page db rel blk p) (rel', tid) =
    ((fetch_item api db)((rel, \<lparr> ip_blkid = blk, ip_posid = of_nat k \<rparr>) \<mapsto> x)) (rel', tid)"
  proof (cases "rel' = rel \<and> ip_blkid tid = blk")
    case True
    then show ?thesis using assms(1)
      by (simp add: fetch_put_page assms(3) pos tid) (simp add: fetch_item_def)
  next
    case False
    then show ?thesis using assms(1) by (auto simp: fetch_put_page tid)
  qed
qed

lemma extend_relation_Inr:
  assumes "page_laws api" "db_ok api db" "extend_relation api db rel = Inr db'"
  shows "db' = db(rel := db rel @ [pg_new api])" "db_ok api db'"
    "fetch_item api db' = fetch_item api db" "db' rel \<noteq> []"
proof -
  show d: "db' = db(rel := db rel @ [pg_new api])"
    using assms(3) by (simp add: extend_relation_def split: if_splits)
  show "db' rel \<noteq> []" by (simp add: d)
  show "db_ok api db'"
    using assms(2,3) page_new_laws(2)[OF assms(1)]
    by (simp add: d db_ok_def extend_relation_def split: if_splits)
  show "fetch_item api db' = fetch_item api db"
    by (rule ext) (simp add: d fetch_item_def nth_append page_new_laws(8)[OF assms(1)] less_Suc_eq)
qed

lemma db_ok_put_page:
  assumes "db_ok api db" "page_ok api p"
  shows "db_ok api (put_page db rel blk p)"
  using assms set_update_subset_insert[of "db rel" "unat blk" p]
  by (auto simp: db_ok_def put_page_def)

lemma db_ok_page: "db_ok api db \<Longrightarrow> n < length (db rel) \<Longrightarrow> page_ok api (db rel ! n)"
  by (meson db_ok_def nth_mem)

subsection \<open>What the shared steps do to the map\<close>

lemma add_to_last_block_Inr:
  assumes "page_laws api" "db_ok api db" "db rel \<noteq> []"
    "add_to_last_block api db rel x = Inr (tid, db')"
  shows "db_ok api db'" "ItemPointerIsValid tid" "fetch_item api db (rel, tid) = None"
    "fetch_item api db' = (fetch_item api db)((rel, tid) \<mapsto> x)"
proof -
  define blk where "blk = length (db rel) - 1"
  define page where "page = (if PageIsNew api (db rel ! blk) then pg_init api else db rel ! blk)"
  have blk: "blk < length (db rel)" using assms(3) by (simp add: blk_def)
  have "length (db rel) \<le> 0xFFFFFFFF" using assms(2) by (simp add: db_ok_def)
  then have un: "unat (of_nat blk :: 32 word) = blk" using blk by (simp add: unat_of_nat)
  have old: "page_ok api (db rel ! blk)" using assms(2) blk by (rule db_ok_page)
  have page: "\<not> PageIsNew api page" "page_ok api page"
    using page_new_laws[OF assms(1)] old by (simp_all add: page_def)
  have items: "pg_item api page = pg_item api (db rel ! blk)"
    using page_new_laws[OF assms(1)] page_new_items[OF old] by (simp add: page_def)
  obtain page' k where add: "PageAddItem api page x = Some (page', k)"
    and tid: "tid = \<lparr> ip_blkid = of_nat blk, ip_posid = of_nat k \<rparr>"
    and db': "db' = put_page db rel (of_nat blk) page'"
    using assms(4)
    unfolding add_to_last_block_def RelationGetNumberOfBlocks_def Let_def
      blk_def[symmetric] page_def[symmetric]
    by (auto split: option.splits)
  note ok = page_add_ok[OF assms(1) page add]
  have k: "unat (of_nat k :: 16 word) = k" "k < 2 ^ 16" using ok(3) by (simp_all add: unat_of_nat)
  show "db_ok api db'" using assms(2) ok(1) by (simp add: db' db_ok_put_page)
  have "(of_nat k :: 16 word) \<noteq> 0" using k(1) ok(2) by (metis unat_0 less_irrefl)
  then show "ItemPointerIsValid tid" by (simp add: tid ItemPointerIsValid_def)
  show "fetch_item api db (rel, tid) = None"
    using blk ok(4) by (simp add: fetch_item_def tid un k items)
  show "fetch_item api db' = (fetch_item api db)((rel, tid) \<mapsto> x)"
    unfolding db' tid
  proof (rule put_page_same_item)
    show "pg_item api page' = (pg_item api (db rel ! unat (of_nat blk :: 32 word)))(k \<mapsto> x)"
      using page_add_Some(4)[OF assms(1) page add] by (simp add: un items)
  qed (use blk k in \<open>simp_all add: un\<close>)
qed

lemma np_write_record_to_page_Inr:
  assumes "page_laws api" "db_ok api db" "np_write_record_to_page api db rel x = Inr (tid, db')"
  shows "db_ok api db' \<and> ItemPointerIsValid tid \<and> fetch_item api db (rel, tid) = None
    \<and> fetch_item api db' = (fetch_item api db)((rel, tid) \<mapsto> x)"
proof -
  obtain db1 db2 where
    db1: "(if RelationGetNumberOfBlocks db rel = 0 then extend_relation api db rel else Inr db) = Inr db1"
    and db2: "db2 = db1 \<or> extend_relation api db1 rel = Inr db2"
    and add: "add_to_last_block api db2 rel x = Inr (tid, db')"
    using assms(3) by (auto simp: np_write_record_to_page_def Let_def split: if_splits)
  have 1: "db_ok api db1" "fetch_item api db1 = fetch_item api db" "db1 rel \<noteq> []"
    using db1 assms(2) extend_relation_Inr(2-4)[OF assms(1,2), of rel db1]
    by (simp_all add: RelationGetNumberOfBlocks_def split: if_splits)
  have 2: "db_ok api db2" "fetch_item api db2 = fetch_item api db" "db2 rel \<noteq> []"
    using db2 1 extend_relation_Inr(2-4)[OF assms(1) 1(1), of rel db2] by auto
  show ?thesis using add_to_last_block_Inr[OF assms(1) 2(1,3) add] by (simp add: 2(2))
qed

lemma add_to_last_block_total:
  assumes "page_laws api" "db_ok api db" "db rel \<noteq> []" "item_fits x"
    "\<not> PageIsNew api (last (db rel)) \<longrightarrow>
       maxalign (item_size x) \<le> PageGetFreeSpace api (last (db rel))"
  shows "\<exists>r. add_to_last_block api db rel x = Inr r"
proof -
  define page where "page = (if PageIsNew api (last (db rel)) then pg_init api else last (db rel))"
  have "page_ok api (last (db rel))"
    using assms(2,3) db_ok_page[of api db "length (db rel) - 1" rel] by (simp add: last_conv_nth)
  then have page: "\<not> PageIsNew api page" "page_ok api page"
    using page_new_laws[OF assms(1)] by (simp_all add: page_def)
  have "maxalign (item_size x) \<le> PageGetFreeSpace api page"
    using assms(4,5) page_new_laws(6)[OF assms(1)] by (simp add: page_def item_fits_def)
  then have "PageAddItem api page x \<noteq> None"
    using page_add_None[OF assms(1) page, of x] by linarith
  then show ?thesis using assms(3)
    by (auto simp: add_to_last_block_def RelationGetNumberOfBlocks_def Let_def last_conv_nth
        page_def)
qed

lemma np_write_record_to_page_total:
  assumes "page_laws api" "db_ok api db" "item_fits x" "has_room db rel"
  shows "\<exists>r. np_write_record_to_page api db rel x = Inr r"
proof (cases "db rel = []")
  case True
  have ext: "extend_relation api db rel = Inr (db(rel := [pg_new api]))"
    using True by (simp add: extend_relation_def)
  have "\<exists>r. add_to_last_block api (db(rel := [pg_new api])) rel x = Inr r"
    using extend_relation_Inr(2)[OF assms(1,2) ext] assms(3) page_new_laws[OF assms(1)]
    by (intro add_to_last_block_total[OF assms(1)]) simp_all
  then show ?thesis using True ext page_new_laws(1)[OF assms(1)]
    by (simp add: np_write_record_to_page_def RelationGetNumberOfBlocks_def Let_def)
next
  case False
  show ?thesis
  proof (cases "\<not> PageIsNew api (last (db rel))
      \<and> PageGetFreeSpace api (last (db rel)) < maxalign (item_size x) + 4")
    case True
    have ext: "extend_relation api db rel = Inr (db(rel := db rel @ [pg_new api]))"
      using assms(4) by (simp add: extend_relation_def has_room_def)
    have "\<exists>r. add_to_last_block api (db(rel := db rel @ [pg_new api])) rel x = Inr r"
      using extend_relation_Inr(2)[OF assms(1,2) ext] assms(3) page_new_laws[OF assms(1)]
      by (intro add_to_last_block_total[OF assms(1)]) simp_all
    then show ?thesis using True False ext
      by (simp add: np_write_record_to_page_def RelationGetNumberOfBlocks_def Let_def)
  next
    case fits: False
    then have "\<exists>r. add_to_last_block api db rel x = Inr r"
      using False assms by (intro add_to_last_block_total) auto
    then show ?thesis using False fits
      by (auto simp: np_write_record_to_page_def RelationGetNumberOfBlocks_def Let_def)
  qed
qed

lemma modify_item_Inr:
  assumes "page_laws api" "db_ok api db" "modify_item api f db rel tid = Inr db'"
    "\<And>x y. f x = Some y \<Longrightarrow> item_size y = item_size x"
  shows "db_ok api db' \<and> (\<exists>x y. fetch_item api db (rel, tid) = Some x \<and> f x = Some y
    \<and> fetch_item api db' = (fetch_item api db)((rel, tid) \<mapsto> y))"
proof -
  define page where "page = db rel ! unat (ip_blkid tid)"
  obtain x y where blk: "unat (ip_blkid tid) < length (db rel)"
    and x: "pg_item api page (unat (ip_posid tid)) = Some x" and y: "f x = Some y"
    and db': "db' = put_page db rel (ip_blkid tid) (pg_put api page (unat (ip_posid tid)) y)"
    using assms(3) by (auto simp: modify_item_def ReadBuffer_def page_def
        split: if_splits option.splits)
  have page: "page_ok api page" using assms(2) blk unfolding page_def by (rule db_ok_page)
  note put = page_put_Some[OF assms(1) page x assms(4)[OF y]]
  have "fetch_item api db' =
      (fetch_item api db)((rel, \<lparr> ip_blkid = ip_blkid tid, ip_posid = of_nat (unat (ip_posid tid)) \<rparr>) \<mapsto> y)"
    unfolding db' using blk put(2) unsigned_less[of "ip_posid tid", where 'a = nat]
    by (intro put_page_same_item) (simp_all add: page_def)
  moreover have "fetch_item api db (rel, tid) = Some x" using blk x by (simp add: fetch_item_def page_def)
  ultimately show ?thesis using y db_ok_put_page[OF assms(2) put(1)] by (auto simp: db')
qed

lemma modify_item_Some:
  assumes "fetch_item api db (rel, tid) = Some x" "f x = Some y"
  shows "\<exists>db'. modify_item api f db rel tid = Inr db'"
  using assms by (auto simp: modify_item_def ReadBuffer_def fetch_item_def split: if_splits)

lemma read_item_fetch:
  "fetch_item api db (rel, tid) = Some x \<Longrightarrow> read_item api db rel tid = Inr (Some x)"
  by (auto simp: read_item_def ReadBuffer_def fetch_item_def split: if_splits)

subsection \<open>The contract of the store\<close>

text \<open>What the callers rely on: a record that is written can be read at the address the write
  returns and was not there before, changing a record changes that record only, and every other
  address keeps its record.  \<open>room\<close> and \<open>fits\<close> are the limits of the file and of a page.\<close>

locale record_store =
  fixes ok :: "'db \<Rightarrow> bool"
    and fetch :: "'db \<Rightarrow> oid \<times> item_pointer \<Rightarrow> item option"
    and room :: "'db \<Rightarrow> oid \<Rightarrow> bool"
    and fits :: "item \<Rightarrow> bool"
    and store :: "'db \<Rightarrow> oid \<Rightarrow> item \<Rightarrow> store_error + (item_pointer \<times> 'db)"
    and modify :: "(item \<Rightarrow> item option) \<Rightarrow> 'db \<Rightarrow> oid \<Rightarrow> item_pointer \<Rightarrow> store_error + 'db"
  assumes store_ok: "\<lbrakk>ok db; store db rel x = Inr (tid, db')\<rbrakk> \<Longrightarrow> ok db'"
    and store_valid: "\<lbrakk>ok db; store db rel x = Inr (tid, db')\<rbrakk> \<Longrightarrow> ItemPointerIsValid tid"
    and store_fresh: "\<lbrakk>ok db; store db rel x = Inr (tid, db')\<rbrakk> \<Longrightarrow> fetch db (rel, tid) = None"
    and store_fetch: "\<lbrakk>ok db; store db rel x = Inr (tid, db')\<rbrakk> \<Longrightarrow>
      fetch db' = (fetch db)((rel, tid) \<mapsto> x)"
    and store_total: "\<lbrakk>ok db; fits x; room db rel\<rbrakk> \<Longrightarrow> \<exists>r. store db rel x = Inr r"
    and modify_ok: "\<lbrakk>ok db; modify f db rel tid = Inr db';
      \<And>x y. f x = Some y \<Longrightarrow> item_size y = item_size x\<rbrakk> \<Longrightarrow> ok db'"
    and modify_fetch: "\<lbrakk>ok db; modify f db rel tid = Inr db';
      \<And>x y. f x = Some y \<Longrightarrow> item_size y = item_size x\<rbrakk> \<Longrightarrow>
      \<exists>x y. fetch db (rel, tid) = Some x \<and> f x = Some y
        \<and> fetch db' = (fetch db)((rel, tid) \<mapsto> y)"
    and modify_total: "\<lbrakk>fetch db (rel, tid) = Some x; f x = Some y\<rbrakk> \<Longrightarrow>
      \<exists>db'. modify f db rel tid = Inr db'"

text \<open>The state of the store is kept, with the promises of PostgreSQL's page routines.\<close>

definition store_ok :: "'p page_api \<Rightarrow> 'p db \<Rightarrow> bool" where
  "store_ok api db \<longleftrightarrow> page_laws api \<and> db_ok api db"

interpretation np: record_store "store_ok api" "fetch_item api" has_room item_fits
  "np_write_record_to_page api" "modify_item api" for api
proof (unfold_locales, goal_cases)
  case (5 db x rel)
  then show ?case using np_write_record_to_page_total[of api db x rel] by (simp add: store_ok_def)
next
  case (6 db f rel tid db')
  then show ?case using modify_item_Inr[of api db f rel tid db'] by (simp add: store_ok_def)
next
  case (7 db f rel tid db')
  then show ?case using modify_item_Inr[of api db f rel tid db'] by (simp add: store_ok_def)
next
  case (8 db rel tid x f y)
  then show ?case by (rule modify_item_Some)
qed (use np_write_record_to_page_Inr[of api] in \<open>auto simp: store_ok_def\<close>)

subsection \<open>Pages as lists\<close>

text \<open>An instance of the page routines, on which the theorems below are applied: a page is its list of
  items, or new.\<close>

type_synonym list_page = "item list option"

definition used_space :: "item list \<Rightarrow> nat" where
  "used_space xs = (\<Sum>x\<leftarrow>xs. maxalign (item_size x) + 4)"

definition list_page_api :: "list_page page_api" where
  "list_page_api = \<lparr>
     pg_new = None,
     pg_init = Some [],
     PageIsNew = (\<lambda>p. p = None),
     PageGetMaxOffsetNumber = (\<lambda>p. case p of None \<Rightarrow> 0 | Some xs \<Rightarrow> length xs),
     PageGetFreeSpace = (\<lambda>p. case p of None \<Rightarrow> 0 | Some xs \<Rightarrow> 8164 - used_space xs),
     pg_item = (\<lambda>p k. case p of None \<Rightarrow> None
       | Some xs \<Rightarrow> if 0 < k \<and> k \<le> length xs then Some (xs ! (k - 1)) else None),
     PageAddItem = (\<lambda>p x. case p of None \<Rightarrow> None
       | Some xs \<Rightarrow> if maxalign (item_size x) \<le> 8164 - used_space xs
           then Some (Some (xs @ [x]), Suc (length xs)) else None),
     pg_reclaim = (\<lambda>p k x. p),
     pg_put = (\<lambda>p k x. map_option (\<lambda>xs. xs[k - 1 := x]) p) \<rparr>"

lemma used_space_update:
  assumes "k < length xs" "item_size x = item_size (xs ! k)"
  shows "used_space (xs[k := x]) = used_space xs"
  using assms by (simp add: used_space_def map_update list_update_same_conv[THEN iffD2])

lemma list_page_laws [simp]: "page_laws list_page_api"
proof -
  have "fresh_pages list_page_api"
    by (auto simp: fresh_pages_def dense_def list_page_api_def used_space_def)
  moreover have "adds_at_end list_page_api"
    by (auto simp: adds_at_end_def list_page_api_def used_space_def nth_append fun_eq_iff
        split: option.splits)
  moreover have "puts_in_place list_page_api"
    by (auto simp: puts_in_place_def list_page_api_def used_space_update fun_eq_iff nth_list_update
        split: option.splits if_splits)
  ultimately show ?thesis by (simp add: page_laws_def)
qed

lemma empty_db_ok: "page_laws api \<Longrightarrow> store_ok api (\<lambda>_. [])"
  by (simp add: store_ok_def db_ok_def)

end
