(* ===== verification/Np_Access.thy ===== *)
theory Np_Access
  imports Np_Store
begin

text \<open>
  The table access methods over the store: insert, in-place update, fetch and sequential scan of
  linked-list records (\<open>src/src/backend/access/np_linked_list.c\<close>), insert and scan of array-list
  records (\<open>np_arraylist.c\<close>) and of the physical map (\<open>np_phys_map.c\<close>), and the scan of an entity store
  (\<open>np_entity_store.c\<close>).  A tuple slot is a record of its columns.  A scan descriptor keeps the number of blocks
  that the relation had when the scan began and the position it has reached; the theorems say that
  calling the scan until it answers no gives exactly the visible records in physical order.
\<close>

subsection \<open>Linked lists\<close>

record linked_row =
  lr_id :: "64 word"
  lr_edge_lid :: "32 word"
  lr_dir :: byte
  lr_owner_id :: "64 word"
  lr_other_id :: "64 word"
  lr_other_lid :: "32 word"
  lr_next_tbl :: oid
  lr_next_itemptr :: item_pointer
  lr_prev_tbl :: oid
  lr_prev_itemptr :: item_pointer

definition linked_of_row :: "mvcc \<Rightarrow> linked_row \<Rightarrow> NeoLinkedListRecord" where
  "linked_of_row h row = \<lparr> mv_xmin = mv_xmin h, mv_xmax = mv_xmax h, mv_cmin = mv_cmin h,
     mv_cmax = mv_cmax h, ll_id = lr_id row, ll_edge_lid = lr_edge_lid row, ll_dir = lr_dir row,
     ll_owner_id = lr_owner_id row, ll_other_id = lr_other_id row,
     ll_other_lid = lr_other_lid row, ll_next_tbl = lr_next_tbl row,
     ll_next_itemptr = lr_next_itemptr row, ll_prev_tbl = lr_prev_tbl row,
     ll_prev_itemptr = lr_prev_itemptr row \<rparr>"

definition row_of_linked :: "NeoLinkedListRecord \<Rightarrow> linked_row" where
  "row_of_linked r = \<lparr> lr_id = ll_id r, lr_edge_lid = ll_edge_lid r, lr_dir = ll_dir r,
     lr_owner_id = ll_owner_id r, lr_other_id = ll_other_id r, lr_other_lid = ll_other_lid r,
     lr_next_tbl = ll_next_tbl r, lr_next_itemptr = ll_next_itemptr r,
     lr_prev_tbl = ll_prev_tbl r, lr_prev_itemptr = ll_prev_itemptr r \<rparr>"

text \<open>The header of a new version.\<close>

definition new_version :: "full_xid \<Rightarrow> command_id \<Rightarrow> mvcc" where
  "new_version fxid cid = \<lparr> mv_xmin = fxid, mv_xmax = InvalidFullTransactionId, mv_cmin = cid,
     mv_cmax = InvalidCommandId \<rparr>"

definition np_linked_list_tableam_tuple_insert ::
  "'p page_api \<Rightarrow> full_xid \<Rightarrow> 'p db \<Rightarrow> oid \<Rightarrow> linked_row \<Rightarrow> command_id
    \<Rightarrow> store_error + (item_pointer \<times> 'p db)" where
  "np_linked_list_tableam_tuple_insert api fxid db rel row cid =
     np_write_record_to_page api db rel (Linked (linked_of_row (new_version fxid cid) row))"

text \<open>The header of the record on the page is kept.\<close>

fun overwrite_linked :: "NeoLinkedListRecord \<Rightarrow> item \<Rightarrow> item option" where
  "overwrite_linked new_data (Linked disk_rec) = Some (Linked (new_data
     \<lparr> mv_xmin := mv_xmin disk_rec, mv_cmin := mv_cmin disk_rec,
       mv_xmax := mv_xmax disk_rec, mv_cmax := mv_cmax disk_rec \<rparr>))"
| "overwrite_linked new_data _ = None"

definition np_overwrite_record_in_page ::
  "'p page_api \<Rightarrow> 'p db \<Rightarrow> oid \<Rightarrow> item_pointer \<Rightarrow> NeoLinkedListRecord \<Rightarrow> store_error + 'p db" where
  "np_overwrite_record_in_page api db rel tid new_data =
     modify_item api (overwrite_linked new_data) db rel tid"

text \<open>The header of the local record is never set before the overwrite replaces it; \<open>junk\<close> is what
  the stack held.\<close>

definition np_linked_list_tableam_tuple_update ::
  "'p page_api \<Rightarrow> mvcc \<Rightarrow> 'p db \<Rightarrow> oid \<Rightarrow> item_pointer \<Rightarrow> linked_row \<Rightarrow> store_error + 'p db" where
  "np_linked_list_tableam_tuple_update api junk db rel otid row =
     np_overwrite_record_in_page api db rel otid (linked_of_row junk row)"

definition np_linked_list_tuple_fetch_row_version ::
  "'p page_api \<Rightarrow> 'p db \<Rightarrow> oid \<Rightarrow> item_pointer \<Rightarrow> store_error + item option" where
  "np_linked_list_tuple_fetch_row_version api db rel tid = read_item api db rel tid"

text \<open>Only the number of blocks is checked, against the one the scan began with.\<close>

definition np_linked_list_heapam_tuple_tid_valid :: "nat \<Rightarrow> item_pointer \<Rightarrow> bool" where
  "np_linked_list_heapam_tuple_tid_valid rs_nblocks tid \<longleftrightarrow>
     ItemPointerIsValid tid \<and> unat (ip_blkid tid) < rs_nblocks"

subsection \<open>Array lists\<close>

text \<open>A null item pointer is a null column.\<close>

record array_row =
  rr_owner_id :: "64 word"
  rr_prev_tbl :: oid
  rr_prev_itemptr :: "item_pointer option"
  rr_adj_list :: AdjList
  rr_next_itemptr :: "item_pointer option"

definition itemptr_or_invalid :: "item_pointer option \<Rightarrow> item_pointer" where
  "itemptr_or_invalid p = (case p of None \<Rightarrow> InvalidItemPointer | Some t \<Rightarrow> t)"

definition nullable_itemptr :: "item_pointer \<Rightarrow> item_pointer option" where
  "nullable_itemptr t = (if ItemPointerIsValid t then Some t else None)"

definition nparraylist_tableam_tuple_insert ::
  "'p page_api \<Rightarrow> full_xid \<Rightarrow> 'p db \<Rightarrow> oid \<Rightarrow> array_row \<Rightarrow> command_id
    \<Rightarrow> store_error + (item_pointer \<times> 'p db)" where
  "nparraylist_tableam_tuple_insert api fxid db rel row cid =
     np_write_record_to_page api db rel (ArrayBlock
       \<lparr> mv_xmin = fxid, mv_xmax = InvalidFullTransactionId, mv_cmin = cid,
         mv_cmax = InvalidCommandId, ar_flags = 0, ar_owner_id = rr_owner_id row,
         ar_prev_tbl = rr_prev_tbl row,
         ar_prev_itemptr = itemptr_or_invalid (rr_prev_itemptr row),
         ar_next_itemptr = itemptr_or_invalid (rr_next_itemptr row),
         ar_adj_list = rr_adj_list row \<rparr>)"

definition row_of_array :: "NeoArrayListRecord \<Rightarrow> array_row" where
  "row_of_array r = \<lparr> rr_owner_id = ar_owner_id r, rr_prev_tbl = ar_prev_tbl r,
     rr_prev_itemptr = nullable_itemptr (ar_prev_itemptr r), rr_adj_list = ar_adj_list r,
     rr_next_itemptr = nullable_itemptr (ar_next_itemptr r) \<rparr>"

subsection \<open>Sequential scans\<close>

record scan_desc =
  rs_nblocks :: nat
  curr_block :: nat
  curr_offset :: nat

text \<open>What a scan makes of an item: an error when the record is of another kind, nothing when it is
  not visible, otherwise the row.\<close>

type_synonym 'r view = "item \<Rightarrow> store_error + 'r option"

fun linked_view :: "xact_env \<Rightarrow> snapshot \<Rightarrow> linked_row view" where
  "linked_view env snapshot (Linked r) =
     Inr (if np_record_satisfies_snapshot env snapshot r then Some (row_of_linked r) else None)"
| "linked_view env snapshot _ = Inl WrongRecord"

fun array_view :: "xact_env \<Rightarrow> snapshot \<Rightarrow> array_row view" where
  "array_view env snapshot (ArrayBlock r) =
     Inr (if np_arraylist_record_satisfies_snapshot env snapshot r then Some (row_of_array r) else None)"
| "array_view env snapshot _ = Inl WrongRecord"

definition np_physmap_satisfies_snapshot :: "NeoPhysMapRecord \<Rightarrow> bool" where
  "np_physmap_satisfies_snapshot rec = True"

fun physmap_view :: "NeoPhysMapRecord view" where
  "physmap_view (PhysMap r) = Inr (if np_physmap_satisfies_snapshot r then Some r else None)"
| "physmap_view _ = Inl WrongRecord"

definition beginscan :: "'p db \<Rightarrow> oid \<Rightarrow> scan_desc" where
  "beginscan db rel =
     \<lparr> rs_nblocks = RelationGetNumberOfBlocks db rel, curr_block = 0, curr_offset = 1 \<rparr>"

definition scan_rescan :: "scan_desc \<Rightarrow> scan_desc" where
  "scan_rescan scan = scan \<lparr> curr_block := 0, curr_offset := 1 \<rparr>"

text \<open>The loop over the line pointers of a page, from an offset on: the offset and the row of the
  first visible record.\<close>

function scan_page ::
  "'p page_api \<Rightarrow> 'r view \<Rightarrow> 'p \<Rightarrow> nat \<Rightarrow> store_error + (nat \<times> 'r) option" where
  "scan_page api view page off =
     (if PageGetMaxOffsetNumber api page < off then Inr None
      else case pg_item api page off of
             None \<Rightarrow> scan_page api view page (off + 1)
           | Some x \<Rightarrow> sum_bind (view x) (\<lambda>row.
               case row of
                 None \<Rightarrow> scan_page api view page (off + 1)
               | Some r \<Rightarrow> Inr (Some (off, r))))"
  by pat_completeness auto
termination
  by (relation "measure (\<lambda>(api, view, page, off). Suc (PageGetMaxOffsetNumber api page) - off)") auto

declare scan_page.simps [simp del]

text \<open>The loop over the blocks, which the linked list, the array list and the physical map each have a
  copy of.\<close>

function scan_getnextslot ::
  "'p page_api \<Rightarrow> 'r view \<Rightarrow> 'p db \<Rightarrow> oid \<Rightarrow> scan_desc
    \<Rightarrow> store_error + ((item_pointer \<times> 'r) option \<times> scan_desc)" where
  "scan_getnextslot api view db rel scan =
     (if rs_nblocks scan \<le> curr_block scan then Inr (None, scan)
      else sum_bind (ReadBuffer db rel (of_nat (curr_block scan))) (\<lambda>page.
        sum_bind (scan_page api view page (curr_offset scan)) (\<lambda>found.
          case found of
            None \<Rightarrow> scan_getnextslot api view db rel
              (scan \<lparr> curr_block := curr_block scan + 1, curr_offset := 1 \<rparr>)
          | Some (off, r) \<Rightarrow>
              Inr (Some (\<lparr> ip_blkid = of_nat (curr_block scan), ip_posid = of_nat off \<rparr>, r),
                   scan \<lparr> curr_offset := off + 1 \<rparr>))))"
  by pat_completeness auto
termination
  by (relation "measure (\<lambda>(api, view, db, rel, scan). rs_nblocks scan - curr_block scan)") auto

declare scan_getnextslot.simps [simp del]

definition np_linked_list_scan_getnextslot where
  "np_linked_list_scan_getnextslot api env snapshot = scan_getnextslot api (linked_view env snapshot)"

definition nparraylist_scan_getnextslot where
  "nparraylist_scan_getnextslot api env snapshot = scan_getnextslot api (array_view env snapshot)"

definition np_physmap_scan_getnextslot where
  "np_physmap_scan_getnextslot api = scan_getnextslot api physmap_view"

text \<open>A caller that asks for \<open>n\<close> rows at most.\<close>

fun scan_take :: "nat \<Rightarrow> ('s \<Rightarrow> store_error + ('r option \<times> 's)) \<Rightarrow> 's \<Rightarrow> store_error + 'r list" where
  "scan_take 0 step scan = Inr []"
| "scan_take (Suc n) step scan = sum_bind (step scan) (\<lambda>(row, scan).
     case row of
       None \<Rightarrow> Inr []
     | Some r \<Rightarrow> sum_bind (scan_take n step scan) (\<lambda>rows. Inr (r # rows)))"

subsection \<open>The rows a scan has to find\<close>

definition row_at :: "'p page_api \<Rightarrow> 'r view \<Rightarrow> 'p \<Rightarrow> nat \<Rightarrow> 'r option" where
  "row_at api view page off = (case pg_item api page off of None \<Rightarrow> None
     | Some x \<Rightarrow> (case view x of Inr (Some r) \<Rightarrow> Some r | _ \<Rightarrow> None))"

definition page_rows :: "'p page_api \<Rightarrow> 'r view \<Rightarrow> 'p \<Rightarrow> nat \<Rightarrow> (nat \<times> 'r) list" where
  "page_rows api view page off =
     List.map_filter (\<lambda>k. map_option (Pair k) (row_at api view page k))
       [off..<Suc (PageGetMaxOffsetNumber api page)]"

definition tid_rows :: "nat \<Rightarrow> (nat \<times> 'r) list \<Rightarrow> (item_pointer \<times> 'r) list" where
  "tid_rows blk rows = map (\<lambda>(k, r). (\<lparr> ip_blkid = of_nat blk, ip_posid = of_nat k \<rparr>, r)) rows"

definition block_rows ::
  "'p page_api \<Rightarrow> 'r view \<Rightarrow> 'p db \<Rightarrow> oid \<Rightarrow> nat \<Rightarrow> (item_pointer \<times> 'r) list" where
  "block_rows api view db rel blk = tid_rows blk (page_rows api view (db rel ! blk) 1)"

definition relation_rows ::
  "'p page_api \<Rightarrow> 'r view \<Rightarrow> 'p db \<Rightarrow> oid \<Rightarrow> (item_pointer \<times> 'r) list" where
  "relation_rows api view db rel = concat (map (block_rows api view db rel) [0..<length (db rel)])"

text \<open>Every item of the relation is of the kind that the view reads.\<close>

definition view_total :: "'p page_api \<Rightarrow> 'r view \<Rightarrow> 'p db \<Rightarrow> oid \<Rightarrow> bool" where
  "view_total api view db rel \<longleftrightarrow>
     (\<forall>page \<in> set (db rel). \<forall>k x. pg_item api page k = Some x \<longrightarrow> (\<exists>r. view x = Inr r))"

lemma page_rows_step:
  "page_rows api view page off =
     (if PageGetMaxOffsetNumber api page < off then []
      else case row_at api view page off of
             None \<Rightarrow> page_rows api view page (off + 1)
           | Some r \<Rightarrow> (off, r) # page_rows api view page (off + 1))"
  by (simp add: page_rows_def upt_conv_Cons del: upt_Suc split: option.splits)

definition view_total_page :: "'p page_api \<Rightarrow> 'r view \<Rightarrow> 'p \<Rightarrow> bool" where
  "view_total_page api view page \<longleftrightarrow>
     (\<forall>k x. pg_item api page k = Some x \<longrightarrow> (\<exists>r. view x = Inr r))"

lemma scan_page_rows:
  assumes "view_total_page api view page"
  shows "scan_page api view page off =
    Inr (case page_rows api view page off of [] \<Rightarrow> None | r # _ \<Rightarrow> Some r)"
proof (induction "Suc (PageGetMaxOffsetNumber api page) - off" arbitrary: off)
  case 0
  then show ?case by (subst scan_page.simps, subst page_rows_step) simp
next
  case (Suc n)
  then have le: "\<not> PageGetMaxOffsetNumber api page < off" by simp
  have IH: "scan_page api view page (off + 1) =
      Inr (case page_rows api view page (off + 1) of [] \<Rightarrow> None | r # _ \<Rightarrow> Some r)"
    using Suc by simp
  show ?case
  proof (cases "pg_item api page off")
    case None
    then show ?thesis using le IH
      by (subst scan_page.simps, subst page_rows_step) (simp add: row_at_def)
  next
    case (Some x)
    with assms obtain r where "view x = Inr r" by (auto simp: view_total_page_def)
    then show ?thesis using le IH Some
      by (subst scan_page.simps, subst page_rows_step) (simp add: row_at_def split: option.split)
  qed
qed

lemma page_rows_tail:
  "page_rows api view page off = (k, r) # rest \<Longrightarrow> rest = page_rows api view page (k + 1)"
proof (induction "Suc (PageGetMaxOffsetNumber api page) - off" arbitrary: off)
  case 0
  then show ?case by (subst (asm) page_rows_step) simp
next
  case (Suc n)
  then have n: "n = Suc (PageGetMaxOffsetNumber api page) - (off + 1)" by simp
  show ?case
  proof (cases "PageGetMaxOffsetNumber api page < off \<or> row_at api view page off \<noteq> None")
    case True
    then show ?thesis using Suc.prems
      by (subst (asm) page_rows_step) (auto split: if_splits)
  next
    case False
    then have "page_rows api view page (off + 1) = (k, r) # rest"
      using Suc.prems by (subst (asm) page_rows_step) simp
    then show ?thesis by (rule Suc.hyps(1)[OF n])
  qed
qed

text \<open>The rows still to come at a position of the scan.\<close>

definition rows_ahead ::
  "'p page_api \<Rightarrow> 'r view \<Rightarrow> 'p db \<Rightarrow> oid \<Rightarrow> scan_desc \<Rightarrow> (item_pointer \<times> 'r) list" where
  "rows_ahead api view db rel scan =
     (if rs_nblocks scan \<le> curr_block scan then []
      else tid_rows (curr_block scan)
             (page_rows api view (db rel ! curr_block scan) (curr_offset scan))
           @ concat (map (block_rows api view db rel) [Suc (curr_block scan)..<rs_nblocks scan]))"

lemma rows_ahead_next_block:
  "curr_block scan < rs_nblocks scan \<Longrightarrow>
   rows_ahead api view db rel (scan \<lparr> curr_block := curr_block scan + 1, curr_offset := 1 \<rparr>) =
     concat (map (block_rows api view db rel) [Suc (curr_block scan)..<rs_nblocks scan])"
  by (simp add: rows_ahead_def block_rows_def upt_conv_Cons[of "Suc (curr_block scan)"])

text \<open>The bounds on which the scan relies, for as long as it runs.\<close>

definition scan_fits :: "'p page_api \<Rightarrow> 'r view \<Rightarrow> 'p db \<Rightarrow> oid \<Rightarrow> nat \<Rightarrow> bool" where
  "scan_fits api view db rel nblocks \<longleftrightarrow>
     nblocks \<le> length (db rel) \<and> nblocks \<le> 0xFFFFFFFF \<and> view_total api view db rel"

lemma ReadBuffer_of_nat:
  assumes "scan_fits api view db rel nblocks" "n < nblocks"
  shows "ReadBuffer db rel (of_nat n) = Inr (db rel ! n)" "view_total_page api view (db rel ! n)"
proof -
  have "unat (of_nat n :: 32 word) = n" using assms by (simp add: scan_fits_def unat_of_nat)
  then show "ReadBuffer db rel (of_nat n) = Inr (db rel ! n)"
    using assms by (simp add: ReadBuffer_def scan_fits_def)
  have "db rel ! n \<in> set (db rel)" using assms by (simp add: scan_fits_def)
  then show "view_total_page api view (db rel ! n)"
    using assms(1) by (simp add: scan_fits_def view_total_def view_total_page_def)
qed

lemma scan_getnextslot_rows:
  assumes "scan_fits api view db rel (rs_nblocks scan)"
  shows "\<exists>scan'. scan_getnextslot api view db rel scan =
      Inr (case rows_ahead api view db rel scan of [] \<Rightarrow> None | r # _ \<Rightarrow> Some r, scan')
    \<and> rs_nblocks scan' = rs_nblocks scan
    \<and> rows_ahead api view db rel scan' = tl (rows_ahead api view db rel scan)"
  using assms
proof (induction "rs_nblocks scan - curr_block scan" arbitrary: scan)
  case 0
  then show ?case by (subst scan_getnextslot.simps) (simp add: rows_ahead_def)
next
  case (Suc n)
  define page where "page = db rel ! curr_block scan"
  have le: "curr_block scan < rs_nblocks scan" using Suc.hyps(2) by simp
  note read = ReadBuffer_of_nat[OF Suc.prems le, folded page_def]
  show ?case
  proof (cases "page_rows api view page (curr_offset scan)")
    case Nil
    let ?scan = "scan \<lparr> curr_block := curr_block scan + 1, curr_offset := 1 \<rparr>"
    have "rows_ahead api view db rel scan = rows_ahead api view db rel ?scan"
      using le Nil rows_ahead_next_block[OF le, of api view db rel]
      by (simp add: rows_ahead_def tid_rows_def flip: page_def)
    moreover have "scan_getnextslot api view db rel scan = scan_getnextslot api view db rel ?scan"
      using le Nil by (subst scan_getnextslot.simps) (simp add: read scan_page_rows)
    ultimately show ?thesis using Suc.hyps(1)[of ?scan] Suc.hyps(2) Suc.prems by simp
  next
    case (Cons kr rest)
    obtain k r where kr: "kr = (k, r)" by (cases kr)
    have rest: "rest = page_rows api view page (k + 1)" using Cons unfolding kr by (rule page_rows_tail)
    show ?thesis using le Cons
      by (subst scan_getnextslot.simps)
        (simp add: read scan_page_rows rows_ahead_def tid_rows_def kr rest flip: page_def)
  qed
qed

lemma scan_take_rows:
  assumes "scan_fits api view db rel (rs_nblocks scan)"
  shows "scan_take n (scan_getnextslot api view db rel) scan =
    Inr (take n (rows_ahead api view db rel scan))"
  using assms
proof (induction n arbitrary: scan)
  case (Suc n)
  obtain scan' where next': "scan_getnextslot api view db rel scan =
      Inr (case rows_ahead api view db rel scan of [] \<Rightarrow> None | r # _ \<Rightarrow> Some r, scan')"
    "rs_nblocks scan' = rs_nblocks scan"
    "rows_ahead api view db rel scan' = tl (rows_ahead api view db rel scan)"
    using scan_getnextslot_rows[OF Suc.prems] by blast
  show ?case using Suc.IH[of scan'] Suc.prems
    by (simp add: next' split: list.split)
qed simp

lemma rows_ahead_begin:
  "rows_ahead api view db rel (beginscan db rel) = relation_rows api view db rel"
proof (cases "db rel = []")
  case False
  then have "[0..<length (db rel)] = 0 # [Suc 0..<length (db rel)]"
    by (simp add: upt_conv_Cons)
  with False show ?thesis
    by (simp add: rows_ahead_def beginscan_def RelationGetNumberOfBlocks_def relation_rows_def
        block_rows_def)
qed (simp add: rows_ahead_def beginscan_def RelationGetNumberOfBlocks_def relation_rows_def)

lemma scan_begin_take:
  assumes "db_ok api db" "view_total api view db rel"
  shows "scan_take n (scan_getnextslot api view db rel) (beginscan db rel) =
    Inr (take n (relation_rows api view db rel))"
proof -
  have "scan_fits api view db rel (rs_nblocks (beginscan db rel))"
    using assms by (simp add: scan_fits_def beginscan_def RelationGetNumberOfBlocks_def db_ok_def)
  from scan_take_rows[OF this] show ?thesis by (simp add: rows_ahead_begin)
qed

text \<open>C35. Asking the scan of a linked list for \<open>n\<close> rows gives the first \<open>n\<close> of the
  rows the snapshot sees, in physical order, each with its address; asking for more than there are
  gives them all.\<close>
theorem linked_scan_complete:
  assumes "db_ok api db" "view_total api (linked_view env snapshot) db rel"
  shows "scan_take n (np_linked_list_scan_getnextslot api env snapshot db rel) (beginscan db rel) =
    Inr (take n (relation_rows api (linked_view env snapshot) db rel))"
  unfolding np_linked_list_scan_getnextslot_def by (rule scan_begin_take[OF assms])

text \<open>Two pages of records, of which the third was not written by a committed transaction.\<close>

definition example_linked :: "full_xid \<Rightarrow> 64 word \<Rightarrow> NeoLinkedListRecord" where
  "example_linked fxid i = linked_of_row (new_version fxid 0)
     \<lparr> lr_id = i, lr_edge_lid = 1, lr_dir = 0, lr_owner_id = 7, lr_other_id = 8, lr_other_lid = 2,
       lr_next_tbl = 0, lr_next_itemptr = InvalidItemPointer, lr_prev_tbl = 0,
       lr_prev_itemptr = InvalidItemPointer \<rparr>"

definition example_pages :: "list_page db" where
  "example_pages = (\<lambda>_. [])(1 :=
     [Some [Linked (example_linked 900 11), Linked (example_linked 1003 12)],
      Some [Linked (example_linked 900 13)]])"

lemma example_pages_ok:
  "db_ok list_page_api example_pages"
  "view_total list_page_api (linked_view env snapshot) example_pages 1"
  by (auto simp: db_ok_def page_ok_def dense_def example_pages_def list_page_api_def view_total_def
      used_space_def maxalign_def nth_Cons' split: if_splits)

lemma linked_scan_complete_witness:
  "scan_take 5 (np_linked_list_scan_getnextslot list_page_api example_env example_snapshot
      example_pages 1) (beginscan example_pages 1) =
   Inr [(\<lparr> ip_blkid = 0, ip_posid = 1 \<rparr>, row_of_linked (example_linked 900 11)),
        (\<lparr> ip_blkid = 1, ip_posid = 1 \<rparr>, row_of_linked (example_linked 900 13))]"
  unfolding linked_scan_complete[OF example_pages_ok]
  by (simp add: relation_rows_def block_rows_def tid_rows_def page_rows_def row_at_def
      example_pages_def list_page_api_def np_record_satisfies_snapshot_def example_linked_def
      linked_of_row_def new_version_def freeze_horizon_def FullXidRelativeTo_def
      XidFromFullTransactionId_def FullTransactionIdIsValid_def InvalidFullTransactionId_def
      example_env_def example_snapshot_def upt_rec)

subsection \<open>The in-place update of a linked-list record\<close>

text \<open>C38. The in-place update replaces all columns of one record, keeps the
  transaction ids of its header whatever the stack held, and changes no other record; on an unused
  line pointer it is an error and changes nothing.\<close>
theorem linked_update_keeps_versions:
  assumes "store_ok api db" "fetch_item api db (rel, tid) = Some (Linked r)"
  shows "\<exists>db'. np_linked_list_tableam_tuple_update api junk db rel tid row = Inr db'
    \<and> fetch_item api db' = (fetch_item api db)((rel, tid) \<mapsto> Linked (linked_of_row (mvcc.truncate r) row))
    \<and> store_ok api db'"
proof -
  have size: "overwrite_linked d x = Some y \<Longrightarrow> item_size y = item_size x" for d x y
    by (cases x) auto
  let ?f = "overwrite_linked (linked_of_row junk row)"
  have y: "?f (Linked r) = Some (Linked (linked_of_row (mvcc.truncate r) row))"
    by (simp add: linked_of_row_def mvcc.truncate_def)
  obtain db' where m: "modify_item api ?f db rel tid = Inr db'"
    using np.modify_total[where f = ?f, OF assms(2) y] by blast
  show ?thesis
    using m y assms(2) np.modify_fetch[OF assms(1) m] np.modify_ok[OF assms(1) m] size
    by (auto simp: np_linked_list_tableam_tuple_update_def np_overwrite_record_in_page_def)
qed

lemma example_record_13:
  "fetch_item list_page_api example_pages (1, \<lparr> ip_blkid = 1, ip_posid = 1 \<rparr>) =
    Some (Linked (example_linked 900 13))"
  by (simp add: fetch_item_def example_pages_def list_page_api_def)

lemma linked_update_keeps_versions_witness:
  "\<exists>db'. np_linked_list_tableam_tuple_update list_page_api example_version example_pages 1
      \<lparr> ip_blkid = 1, ip_posid = 1 \<rparr> (row_of_linked (example_linked 0 77)) = Inr db'
    \<and> fetch_item list_page_api db' (1, \<lparr> ip_blkid = 1, ip_posid = 1 \<rparr>) =
        Some (Linked (example_linked 900 77))"
proof -
  have "linked_of_row (mvcc.truncate (example_linked 900 13)) (row_of_linked (example_linked 0 77)) =
      example_linked 900 77"
    by (simp add: row_of_linked_def example_linked_def linked_of_row_def new_version_def
        mvcc.truncate_def)
  moreover have "store_ok list_page_api example_pages" by (simp add: store_ok_def example_pages_ok)
  ultimately show ?thesis
    using linked_update_keeps_versions[OF _ example_record_13, where junk = example_version
        and row = "row_of_linked (example_linked 0 77)"] by auto
qed

end
