(* ===== verification/Np_Phys_Map.thy ===== *)
theory Np_Phys_Map
  imports Np_Access
begin

text \<open>
  The physical map (\<open>src/src/backend/access/np_phys_map.c\<close>): for every vertex of a label, and every
  edge, where its current version and the head of its adjacency list are.  An id determines a block
  and an offset, so the map is an array spread over pages: a record is placed by extending the file
  and padding the page with empty records up to its slot.  The theorems say that this works as an
  array as long as the slot fits on the page, and what happens beyond: the routines assume more
  slots per page than fit, and two of them assume a different number than the others.
\<close>

subsection \<open>From ids to slots\<close>

definition SizeofHeapTupleHeader :: nat where
  "SizeofHeapTupleHeader = 23"

text \<open>\<open>BLCKSZ - SizeOfPageHeaderData\<close> over the aligned tuple with its line pointer.\<close>

definition np_calculate_tuples_per_page :: "nat \<Rightarrow> 32 word" where
  "np_calculate_tuples_per_page payload_size =
     (let tuple_size = maxalign (SizeofHeapTupleHeader + payload_size);
          space_per_item = tuple_size + 4;
          available_space = 8192 - 24
      in of_nat (available_space div space_per_item))"

text \<open>What the other routines compute instead:
  \<open>(BLCKSZ - SizeOfPageHeaderData) / (sizeof(_) + sizeof(ItemIdData))\<close>.\<close>

definition pmap_tuples_per_page :: "nat \<Rightarrow> 32 word" where
  "pmap_tuples_per_page record_size = of_nat ((8192 - 24) div (record_size + 4))"

definition np_id_to_tid :: "64 word \<Rightarrow> 32 word \<Rightarrow> item_pointer" where
  "np_id_to_tid i tuples_per_page =
     (let zero_based_id = i - 1
      in \<lparr> ip_blkid = ucast (zero_based_id div ucast tuples_per_page),
           ip_posid = ucast (zero_based_id mod ucast tuples_per_page + 1) \<rparr>)"

subsection \<open>Placing a record\<close>

function extend_to :: "'p page_api \<Rightarrow> 'p db \<Rightarrow> oid \<Rightarrow> nat \<Rightarrow> store_error + 'p db" where
  "extend_to api db rel target_block =
     (if target_block < RelationGetNumberOfBlocks db rel then Inr db
      else if RelationGetNumberOfBlocks db rel < 0xFFFFFFFF
      then extend_to api (db(rel := db rel @ [pg_init api])) rel target_block
      else Inl FileFull)"
  by pat_completeness auto
termination
  by (relation "measure (\<lambda>(api, db, rel, target). Suc target - length (db rel))")
    (auto simp: RelationGetNumberOfBlocks_def)

declare extend_to.simps [simp del]

text \<open>\<open>PageAddItemExtended\<close> with its result ignored.\<close>

definition add_ignored :: "'p page_api \<Rightarrow> item \<Rightarrow> 'p \<Rightarrow> 'p" where
  "add_ignored api x page = (case PageAddItem api page x of None \<Rightarrow> page | Some (page', _) \<Rightarrow> page')"

text \<open>\<open>while (maxoff < target_offset - 1) PageAddItemExtended(...), maxoff++\<close>.\<close>

function pad_page :: "'p page_api \<Rightarrow> item \<Rightarrow> nat \<Rightarrow> nat \<Rightarrow> 'p \<Rightarrow> 'p" where
  "pad_page api pad maxoff target_offset page =
     (if maxoff < target_offset - 1
      then pad_page api pad (maxoff + 1) target_offset (add_ignored api pad page) else page)"
  by pat_completeness auto
termination
  by (relation "measure (\<lambda>(api, pad, maxoff, target, page). target - 1 - maxoff)") auto

declare pad_page.simps [simp del]

definition place_on_page :: "'p page_api \<Rightarrow> item \<Rightarrow> item \<Rightarrow> nat \<Rightarrow> 'p \<Rightarrow> 'p" where
  "place_on_page api pad x target_offset page =
     (let maxoff = PageGetMaxOffsetNumber api page
      in if maxoff < target_offset
         then add_ignored api x (pad_page api pad maxoff target_offset page)
         else case pg_item api page target_offset of
                Some _ \<Rightarrow> pg_put api page target_offset x
              | None \<Rightarrow> pg_reclaim api page target_offset x)"

definition place_record ::
  "'p page_api \<Rightarrow> item \<Rightarrow> 'p db \<Rightarrow> oid \<Rightarrow> item_pointer \<Rightarrow> item \<Rightarrow> store_error + 'p db" where
  "place_record api pad db rel tid x =
     sum_bind (extend_to api db rel (unat (ip_blkid tid))) (\<lambda>db.
       sum_bind (ReadBuffer db rel (ip_blkid tid)) (\<lambda>page.
         Inr (put_page db rel (ip_blkid tid)
           (place_on_page api pad x (unat (ip_posid tid)) page))))"

definition empty_pad :: NeoPhysMapRecord where
  "empty_pad = \<lparr> pm_v_itemptr = InvalidItemPointer, pm_e_tbl_id = InvalidOid,
     pm_e_itemptr = InvalidItemPointer, pm_a_itemptr = InvalidItemPointer \<rparr>"

definition np_place_physmap_record ::
  "'p page_api \<Rightarrow> 'p db \<Rightarrow> oid \<Rightarrow> item_pointer \<Rightarrow> NeoPhysMapRecord \<Rightarrow> store_error + 'p db" where
  "np_place_physmap_record api db rel tid new_data =
     place_record api (PhysMap empty_pad) db rel tid (PhysMap new_data)"

text \<open>Only the first pointer of the padding is marked invalid; the zeros of the other also are.\<close>

definition empty_edge_pad :: NeoEdgePhysMapRecord where
  "empty_edge_pad = \<lparr> ep_e_itemptr = InvalidItemPointer, ep_a_itemptr = ZeroItemPointer \<rparr>"

definition np_set_edge_physmap_record ::
  "'p page_api \<Rightarrow> 'p db \<Rightarrow> oid \<Rightarrow> item_pointer \<Rightarrow> NeoEdgePhysMapRecord \<Rightarrow> store_error + 'p db" where
  "np_set_edge_physmap_record api db rel tid new_data =
     place_record api (EdgePhysMap empty_edge_pad) db rel tid (EdgePhysMap new_data)"

subsection \<open>Overwriting and reading a record\<close>

definition overwrite_physmap :: "NeoPhysMapRecord \<Rightarrow> item \<Rightarrow> item option" where
  "overwrite_physmap new_data x = (case x of PhysMap _ \<Rightarrow> Some (PhysMap new_data) | _ \<Rightarrow> None)"

definition np_overwrite_physmap_in_page ::
  "'p page_api \<Rightarrow> 'p db \<Rightarrow> oid \<Rightarrow> item_pointer \<Rightarrow> NeoPhysMapRecord \<Rightarrow> store_error + 'p db" where
  "np_overwrite_physmap_in_page api db rel tid new_data =
     modify_item api (overwrite_physmap new_data) db rel tid"

definition overwrite_edge_physmap :: "NeoEdgePhysMapRecord \<Rightarrow> item \<Rightarrow> item option" where
  "overwrite_edge_physmap new_data x =
     (case x of EdgePhysMap _ \<Rightarrow> Some (EdgePhysMap new_data) | _ \<Rightarrow> None)"

definition np_overwrite_edge_physmap_in_page ::
  "'p page_api \<Rightarrow> 'p db \<Rightarrow> oid \<Rightarrow> item_pointer \<Rightarrow> NeoEdgePhysMapRecord \<Rightarrow> store_error + 'p db" where
  "np_overwrite_edge_physmap_in_page api db rel tid new_data =
     modify_item api (overwrite_edge_physmap new_data) db rel tid"

text \<open>The line pointer is not tested.\<close>

definition get_phys_map_vpointer ::
  "'p page_api \<Rightarrow> 'p db \<Rightarrow> oid \<Rightarrow> item_pointer \<Rightarrow> store_error + item_pointer" where
  "get_phys_map_vpointer api db rel tid =
     sum_bind (read_item api db rel tid) (\<lambda>found.
       case found of
         Some (PhysMap rec) \<Rightarrow> Inr (pm_v_itemptr rec)
       | Some _ \<Rightarrow> Inl WrongRecord
       | None \<Rightarrow> Inl WildItem)"

definition np_physmap_tableam_tuple_insert ::
  "'p page_api \<Rightarrow> 'p db \<Rightarrow> oid \<Rightarrow> NeoPhysMapRecord \<Rightarrow> store_error + (item_pointer \<times> 'p db)" where
  "np_physmap_tableam_tuple_insert api db rel row = np_write_record_to_page api db rel (PhysMap row)"

definition np_physmap_tableam_tuple_update ::
  "'p page_api \<Rightarrow> 'p db \<Rightarrow> oid \<Rightarrow> item_pointer \<Rightarrow> NeoPhysMapRecord \<Rightarrow> store_error + 'p db" where
  "np_physmap_tableam_tuple_update api db rel otid row =
     np_overwrite_physmap_in_page api db rel otid row"

definition np_physmap_tuple_fetch_row_version ::
  "'p page_api \<Rightarrow> 'p db \<Rightarrow> oid \<Rightarrow> item_pointer \<Rightarrow> store_error + item option" where
  "np_physmap_tuple_fetch_row_version api db rel tid = read_item api db rel tid"

subsection \<open>The head of an adjacency list\<close>

definition set_head :: "oid \<Rightarrow> item_pointer \<Rightarrow> item \<Rightarrow> item option" where
  "set_head tbl tid x = (case x of
     PhysMap rec \<Rightarrow> Some (PhysMap (rec \<lparr> pm_e_tbl_id := tbl, pm_e_itemptr := tid \<rparr>)) | _ \<Rightarrow> None)"

definition update_vertex_phys_map ::
  "'p page_api \<Rightarrow> 'p db \<Rightarrow> oid \<Rightarrow> 64 word \<Rightarrow> oid \<Rightarrow> item_pointer \<Rightarrow> store_error + 'p db" where
  "update_vertex_phys_map api db pmap_rel vertex_id new_edge_table_oid new_edge_tid =
     (let tuples_per_page = np_calculate_tuples_per_page SizeOfNeoPhysMapRecord;
          target_tid = np_id_to_tid vertex_id tuples_per_page
      in modify_item api (set_head new_edge_table_oid new_edge_tid) db pmap_rel target_tid)"

text \<open>No head when the block does not exist yet or the slot is not in use.\<close>

definition get_current_head_tid ::
  "'p page_api \<Rightarrow> 'p db \<Rightarrow> oid \<Rightarrow> 64 word \<Rightarrow> store_error + (oid \<times> item_pointer)" where
  "get_current_head_tid api db pmap_rel vertex_id =
     (let tuples_per_page = np_calculate_tuples_per_page SizeOfNeoPhysMapRecord;
          target_tid = np_id_to_tid vertex_id tuples_per_page
      in if RelationGetNumberOfBlocks db pmap_rel \<le> unat (ip_blkid target_tid)
         then Inr (InvalidOid, InvalidItemPointer)
         else sum_bind (read_item api db pmap_rel target_tid) (\<lambda>found.
           case found of
             None \<Rightarrow> Inr (InvalidOid, InvalidItemPointer)
           | Some (PhysMap rec) \<Rightarrow> Inr (pm_e_tbl_id rec, pm_e_itemptr rec)
           | Some _ \<Rightarrow> Inl WrongRecord))"

subsection \<open>Slots of ids\<close>

lemma tuples_per_page_numbers:
  "np_calculate_tuples_per_page SizeOfNeoPhysMapRecord = 157"
  "pmap_tuples_per_page SizeOfNeoPhysMapRecord = 314"
  "pmap_tuples_per_page SizeOfNeoEdgePhysMapRecord = 510"
  by (simp_all add: np_calculate_tuples_per_page_def pmap_tuples_per_page_def SizeofHeapTupleHeader_def
      SizeOfNeoPhysMapRecord_def SizeOfNeoEdgePhysMapRecord_def maxalign_def)

lemma unat_ucast_mod: "unat (ucast w :: 'a::len word) = unat (w :: 'b::len word) mod 2 ^ LENGTH('a)"
  by (simp add: unsigned_ucast_eq take_bit_eq_mod)

lemma unat_id_minus_1: "0 < i \<Longrightarrow> unat (i - 1) = unat (i :: 64 word) - 1"
  by (simp add: unat_minus_one word_neq_0_conv)

lemma np_id_to_tid_nat:
  assumes "0 < i" "0 < t" "t < 2 ^ 16" "unat i \<le> unat t * 2 ^ 32"
  shows "unat (ip_blkid (np_id_to_tid i t)) = (unat i - 1) div unat t"
    "unat (ip_posid (np_id_to_tid i t)) = (unat i - 1) mod unat t + 1"
proof -
  have tpos: "0 < unat t" "unat t < 2 ^ 16"
    using assms(2,3) by (simp_all add: word_less_nat_alt)
  then have t: "unat t mod 18446744073709551616 = unat t" by simp
  have ipos: "0 < unat i" using assms(1) by (simp add: word_less_nat_alt)
  have blk: "(unat i - 1) div unat t < 2 ^ 32"
    using assms(4) tpos ipos by (simp add: div_less_iff_less_mult mult.commute)
  have pos: "(unat i - 1) mod unat t + 1 < 2 ^ 16"
    using mod_less_divisor[OF tpos(1), of "unat i - 1"] tpos(2) by linarith
  show "unat (ip_blkid (np_id_to_tid i t)) = (unat i - 1) div unat t"
    using blk by (simp add: np_id_to_tid_def Let_def unat_ucast_mod unat_div t unat_id_minus_1 assms(1))
  have "unat ((i - 1) mod ucast t + 1) = (unat i - 1) mod unat t + 1"
    using pos by (simp add: unat_word_ariths(1) unat_mod unat_ucast_mod t unat_id_minus_1 assms(1))
  with pos show "unat (ip_posid (np_id_to_tid i t)) = (unat i - 1) mod unat t + 1"
    by (simp add: np_id_to_tid_def Let_def unat_ucast_mod)
qed

lemma id_of_slot:
  assumes "0 < i" "0 < t" "t < 2 ^ 16" "unat i \<le> unat t * 2 ^ 32"
  shows "unat (ip_blkid (np_id_to_tid i t)) * unat t + unat (ip_posid (np_id_to_tid i t)) = unat i"
  using assms(1) by (simp add: np_id_to_tid_nat[OF assms] word_less_nat_alt)

text \<open>The slot of an id is an offset of the page between 1 and the number of
  slots, and block and offset give the id back, as long as the block number fits in 32 bits; so no
  two ids have the same slot.\<close>
theorem id_slot_roundtrip:
  assumes "0 < i" "0 < t" "t < 2 ^ 16" "unat i \<le> unat t * 2 ^ 32"
  shows "0 < unat (ip_posid (np_id_to_tid i t)) \<and> unat (ip_posid (np_id_to_tid i t)) \<le> unat t
    \<and> unat (ip_blkid (np_id_to_tid i t)) * unat t + unat (ip_posid (np_id_to_tid i t)) = unat i"
proof -
  have "0 < unat t" "0 < unat i" using assms(1,2) by (simp_all add: word_less_nat_alt)
  then show ?thesis
    unfolding id_of_slot[OF assms] by (simp add: np_id_to_tid_nat[OF assms] Suc_leI)
qed

lemma id_slot_roundtrip_witness:
  "unat (ip_blkid (np_id_to_tid 1000 314)) * 314 + unat (ip_posid (np_id_to_tid 1000 314)) = 1000"
  using id_slot_roundtrip[of 1000 314] by simp

lemma item_pointer_unatI:
  fixes p q :: item_pointer
  shows "unat (ip_blkid p) = unat (ip_blkid q) \<Longrightarrow> unat (ip_posid p) = unat (ip_posid q) \<Longrightarrow> p = q"
  by (simp add: word_unat_eq_iff)

lemma small_id_slots:
  assumes "0 < i" "i \<le> (157 :: 64 word)"
  shows "np_id_to_tid i 157 = np_id_to_tid i 314"
  using assms
  by (intro item_pointer_unatI) (simp_all add: np_id_to_tid_nat word_less_nat_alt word_le_nat_alt)

text \<open>C32. The routines that read and write the head of a vertex's adjacency list count
  157 slots to a page, the one that places the vertex 314: they agree on the first 157 vertices
  only, and the head of each of the next 157 vertices is kept in the slot of the vertex 157 ids
  later.\<close>
theorem head_slot_mismatch:
  assumes "0 < i" "i \<le> 157"
  shows "np_id_to_tid i (np_calculate_tuples_per_page SizeOfNeoPhysMapRecord) =
         np_id_to_tid i (pmap_tuples_per_page SizeOfNeoPhysMapRecord)
    \<and> np_id_to_tid (i + 157) (np_calculate_tuples_per_page SizeOfNeoPhysMapRecord) =
         np_id_to_tid (i + 314) (pmap_tuples_per_page SizeOfNeoPhysMapRecord)"
proof -
  have u: "0 < unat i" "unat i \<le> 157"
    using assms by (simp_all add: word_less_nat_alt word_le_nat_alt)
  have plus: "unat (i + 157) = unat i + 157" "unat (i + 314) = unat i + 314"
    using u by (simp_all add: unat_word_ariths)
  have pos: "0 < i + 157" "0 < i + 314" using plus by (simp_all add: word_less_nat_alt)
  have "np_id_to_tid (i + 157) 157 = np_id_to_tid (i + 314) 314"
    using u by (intro item_pointer_unatI) (simp_all add: np_id_to_tid_nat pos plus div_if mod_if)
  then show ?thesis using small_id_slots[OF assms] by (simp add: tuples_per_page_numbers)
qed

lemma head_slot_mismatch_witness:
  "np_id_to_tid 158 (np_calculate_tuples_per_page SizeOfNeoPhysMapRecord) =
   np_id_to_tid 315 (pmap_tuples_per_page SizeOfNeoPhysMapRecord)"
  using head_slot_mismatch[of 1] by simp

subsection \<open>The map as an array\<close>

text \<open>A page of records of one aligned size \<open>s\<close>: the slots in use are the first ones, and the free
  space is what they leave.\<close>

definition slot_page :: "'p page_api \<Rightarrow> nat \<Rightarrow> 'p \<Rightarrow> bool" where
  "slot_page api s p \<longleftrightarrow> page_ok api p \<and> \<not> PageIsNew api p
     \<and> PageGetFreeSpace api p = 8164 - PageGetMaxOffsetNumber api p * (s + 4)
     \<and> PageGetMaxOffsetNumber api p * (s + 4) \<le> 8168"

definition slot_relation :: "'p page_api \<Rightarrow> nat \<Rightarrow> 'p db \<Rightarrow> oid \<Rightarrow> bool" where
  "slot_relation api s db rel \<longleftrightarrow> (\<forall>p \<in> set (db rel). slot_page api s p)"

lemma slot_page_item:
  "slot_page api s p \<Longrightarrow> (pg_item api p k = None) = (k = 0 \<or> PageGetMaxOffsetNumber api p < k)"
  by (simp add: slot_page_def page_ok_def dense_def)

lemma slot_page_init:
  "page_laws api \<Longrightarrow> slot_page api s (pg_init api)"
  by (simp add: slot_page_def page_new_laws)

lemma add_ignored_room:
  assumes "page_laws api" "slot_page api s p" "maxalign (item_size x) = s"
    "Suc (PageGetMaxOffsetNumber api p) * (s + 4) \<le> 8168"
  shows "slot_page api s (add_ignored api x p)"
    "PageGetMaxOffsetNumber api (add_ignored api x p) = Suc (PageGetMaxOffsetNumber api p)"
    "pg_item api (add_ignored api x p) = (pg_item api p)(Suc (PageGetMaxOffsetNumber api p) \<mapsto> x)"
proof -
  have p: "\<not> PageIsNew api p" "page_ok api p"
    and free: "PageGetFreeSpace api p = 8164 - PageGetMaxOffsetNumber api p * (s + 4)"
    using assms(2) by (simp_all add: slot_page_def)
  have "0 < s" using maxalign_pos[OF item_size_pos, of x] assms(3) by simp
  then have "s \<le> PageGetFreeSpace api p" using assms(4) by (simp add: free)
  then have "PageAddItem api p x \<noteq> None"
    using page_add_None[OF assms(1) p, of x] assms(3) by (metis leD)
  then obtain p' k where add: "PageAddItem api p x = Some (p', k)"
    by (cases "PageAddItem api p x") auto
  note new = page_add_Some[OF assms(1) p add] page_add_ok[OF assms(1) p add]
  have "add_ignored api x p = p'" by (simp add: add_ignored_def add)
  with new assms(3,4) free show "slot_page api s (add_ignored api x p)"
    "PageGetMaxOffsetNumber api (add_ignored api x p) = Suc (PageGetMaxOffsetNumber api p)"
    "pg_item api (add_ignored api x p) = (pg_item api p)(Suc (PageGetMaxOffsetNumber api p) \<mapsto> x)"
    by (simp_all add: slot_page_def)
qed

lemma add_ignored_full:
  assumes "page_laws api" "slot_page api s p" "maxalign (item_size x) = s"
    "8168 < Suc (PageGetMaxOffsetNumber api p) * (s + 4)"
  shows "add_ignored api x p = p"
proof (cases "PageAddItem api p x")
  case (Some r)
  obtain p' k where add: "PageAddItem api p x = Some (p', k)" using Some by (cases r) auto
  have p: "\<not> PageIsNew api p" "page_ok api p" using assms(2) by (simp_all add: slot_page_def)
  have "s \<le> PageGetFreeSpace api p" using page_add_Some(6)[OF assms(1) p add] assms(3) by simp
  moreover have "0 < s" using maxalign_pos[OF item_size_pos, of x] assms(3) by simp
  ultimately show ?thesis using assms(2,4) by (simp add: slot_page_def)
qed (simp add: add_ignored_def)

lemma pad_page_room:
  assumes "page_laws api" "slot_page api s p" "maxalign (item_size pad) = s"
    "PageGetMaxOffsetNumber api p < off" "off * (s + 4) \<le> 8168"
  shows "slot_page api s (pad_page api pad (PageGetMaxOffsetNumber api p) off p)
    \<and> PageGetMaxOffsetNumber api (pad_page api pad (PageGetMaxOffsetNumber api p) off p) = off - 1
    \<and> pg_item api (pad_page api pad (PageGetMaxOffsetNumber api p) off p) =
        (\<lambda>k. if PageGetMaxOffsetNumber api p < k \<and> k < off then Some pad else pg_item api p k)"
  using assms(2,4)
proof (induction "off - 1 - PageGetMaxOffsetNumber api p" arbitrary: p)
  case 0
  then show ?case by (subst (1 2 3) pad_page.simps) (auto simp: fun_eq_iff)
next
  case (Suc n)
  let ?m = "PageGetMaxOffsetNumber api p" and ?p = "add_ignored api pad p"
  have "Suc ?m * (s + 4) \<le> off * (s + 4)" using Suc.prems(2) by (intro mult_le_mono) simp_all
  then have "Suc ?m * (s + 4) \<le> 8168" using assms(5) by simp
  note add = add_ignored_room[OF assms(1) Suc.prems(1) assms(3) this]
  have lt: "?m < off - 1" using Suc.hyps(2) by simp
  have step: "pad_page api pad ?m off p = pad_page api pad (PageGetMaxOffsetNumber api ?p) off ?p"
    using lt by (subst pad_page.simps) (simp add: add(2))
  have IH: "slot_page api s (pad_page api pad (PageGetMaxOffsetNumber api ?p) off ?p)
    \<and> PageGetMaxOffsetNumber api (pad_page api pad (PageGetMaxOffsetNumber api ?p) off ?p) = off - 1
    \<and> pg_item api (pad_page api pad (PageGetMaxOffsetNumber api ?p) off ?p) =
        (\<lambda>k. if PageGetMaxOffsetNumber api ?p < k \<and> k < off then Some pad else pg_item api ?p k)"
    using Suc.hyps(2) lt by (intro Suc.hyps(1) add(1)) (simp_all add: add(2))
  show ?case unfolding step using IH lt by (auto simp: add(2,3) fun_eq_iff)
qed

lemma pad_page_full:
  assumes "page_laws api" "slot_page api s p" "maxalign (item_size pad) = s"
  shows "slot_page api s (pad_page api pad m off p)"
  using assms(2)
proof (induction "off - 1 - m" arbitrary: m p)
  case 0
  then have "\<not> m < off - 1" by linarith
  with 0 show ?case by (subst pad_page.simps) simp
next
  case (Suc n)
  have "slot_page api s (add_ignored api pad p)"
  proof (cases "Suc (PageGetMaxOffsetNumber api p) * (s + 4) \<le> 8168")
    case True
    then show ?thesis by (rule add_ignored_room(1)[OF assms(1) Suc.prems assms(3)])
  next
    case False
    then show ?thesis using add_ignored_full[OF assms(1) Suc.prems assms(3)] Suc.prems by simp
  qed
  moreover have "m < off - 1" using Suc.hyps(2) by linarith
  ultimately show ?case using Suc.hyps(1)[of "m + 1" "add_ignored api pad p"] Suc.hyps(2)
    by (subst pad_page.simps) simp
qed

lemma place_on_page_room:
  assumes "page_laws api" "slot_page api s p" "maxalign (item_size pad) = s"
    "item_size x = item_size pad" "0 < off" "off * (s + 4) \<le> 8168"
    "\<And>y. pg_item api p off = Some y \<Longrightarrow> item_size y = item_size x"
  shows "slot_page api s (place_on_page api pad x off p)"
    "pg_item api (place_on_page api pad x off p) =
      (\<lambda>k. if k = off then Some x
           else if PageGetMaxOffsetNumber api p < k \<and> k < off then Some pad else pg_item api p k)"
proof -
  let ?m = "PageGetMaxOffsetNumber api p"
  have "slot_page api s (place_on_page api pad x off p) \<and>
    pg_item api (place_on_page api pad x off p) =
      (\<lambda>k. if k = off then Some x
           else if ?m < k \<and> k < off then Some pad else pg_item api p k)"
  proof (cases "?m < off")
    case True
    let ?p = "pad_page api pad ?m off p"
    note pad = pad_page_room[OF assms(1,2,3) True assms(6)]
    have off: "Suc (off - 1) = off" using assms(5) by simp
    have "Suc (PageGetMaxOffsetNumber api ?p) * (s + 4) \<le> 8168" using pad assms(6) off by simp
    from add_ignored_room[OF assms(1) conjunct1[OF pad] _ this, of x] assms(3,4)
    show ?thesis using True pad off by (auto simp: place_on_page_def fun_eq_iff)
  next
    case False
    then obtain y where y: "pg_item api p off = Some y"
      using slot_page_item[OF assms(2), of off] assms(5) by (cases "pg_item api p off") auto
    have p: "page_ok api p" "\<not> PageIsNew api p" using assms(2) by (simp_all add: slot_page_def)
    have "puts_in_place api" using assms(1) by (simp add: page_laws_def)
    from this[unfolded puts_in_place_def, rule_format, OF p(2) y] assms(7)[OF y]
    have put: "\<not> PageIsNew api (pg_put api p off x)
          \<and> PageGetMaxOffsetNumber api (pg_put api p off x) = ?m
          \<and> pg_item api (pg_put api p off x) = (pg_item api p)(off \<mapsto> x)
          \<and> PageGetFreeSpace api (pg_put api p off x) = PageGetFreeSpace api p" by simp
    then have "slot_page api s (pg_put api p off x)"
      using assms(2) page_put_Some(1)[OF assms(1) p(1) y] assms(7)[OF y] by (simp add: slot_page_def)
    then show ?thesis using False y put by (auto simp: place_on_page_def fun_eq_iff)
  qed
  then show "slot_page api s (place_on_page api pad x off p)"
    "pg_item api (place_on_page api pad x off p) =
      (\<lambda>k. if k = off then Some x
           else if ?m < k \<and> k < off then Some pad else pg_item api p k)" by blast+
qed

lemma place_on_page_full:
  assumes "page_laws api" "slot_page api s p" "maxalign (item_size pad) = s"
    "item_size x = item_size pad" "8168 < off * (s + 4)"
  shows "slot_page api s (place_on_page api pad x off p)"
    "pg_item api (place_on_page api pad x off p) off = None"
proof -
  have max: "PageGetMaxOffsetNumber api q < off" if "slot_page api s q" for q
  proof -
    have "PageGetMaxOffsetNumber api q * (s + 4) < off * (s + 4)"
      using that assms(5) unfolding slot_page_def by linarith
    then show ?thesis unfolding mult_less_cancel2 by blast
  qed
  let ?p = "pad_page api pad (PageGetMaxOffsetNumber api p) off p"
  have pad: "slot_page api s ?p" using pad_page_full[OF assms(1-3)] .
  have "slot_page api s (add_ignored api x ?p)"
  proof (cases "Suc (PageGetMaxOffsetNumber api ?p) * (s + 4) \<le> 8168")
    case True
    then show ?thesis using add_ignored_room(1)[OF assms(1) pad] assms(3,4) by simp
  next
    case False
    then show ?thesis using add_ignored_full[OF assms(1) pad, of x] assms(3,4) pad by simp
  qed
  moreover have "place_on_page api pad x off p = add_ignored api x ?p"
    using max[OF assms(2)] by (simp add: place_on_page_def)
  ultimately show "slot_page api s (place_on_page api pad x off p)" by simp
  then show "pg_item api (place_on_page api pad x off p) off = None"
    using max[of "place_on_page api pad x off p"] slot_page_item[of api s _ off] by blast
qed

lemma extend_to_Inr:
  assumes "target < 0xFFFFFFFF"
  shows "extend_to api db rel target =
    Inr (db(rel := db rel @ replicate (Suc target - length (db rel)) (pg_init api)))"
proof (induction "Suc target - length (db rel)" arbitrary: db)
  case 0
  then show ?case by (subst extend_to.simps) (simp add: RelationGetNumberOfBlocks_def)
next
  case (Suc n)
  let ?db = "db(rel := db rel @ [pg_init api])"
  have "n = Suc target - length (?db rel)" using Suc.hyps(2) by simp
  from Suc.hyps(1)[of ?db, OF this]
  have "extend_to api ?db rel target =
      Inr (?db(rel := ?db rel @ replicate n (pg_init api)))"
    using \<open>n = _\<close> by simp
  moreover have "extend_to api db rel target = extend_to api ?db rel target"
  proof -
    have "\<not> target < length (db rel)" using Suc.hyps(2) by linarith
    then show ?thesis using assms by (subst extend_to.simps) (simp add: RelationGetNumberOfBlocks_def)
  qed
  moreover have "replicate (Suc target - length (db rel)) (pg_init api) =
      pg_init api # replicate n (pg_init api)"
    by (simp flip: Suc.hyps(2))
  ultimately show ?case by simp
qed

lemma extend_to_store:
  assumes "page_laws api" "db_ok api db" "slot_relation api s db rel" "target < 0xFFFFFFFF"
    "extend_to api db rel target = Inr db'"
  shows "target < length (db' rel)" "db_ok api db'" "slot_relation api s db' rel"
    "fetch_item api db' = fetch_item api db"
proof -
  have db': "db' = db(rel := db rel @ replicate (Suc target - length (db rel)) (pg_init api))"
    using assms(5) extend_to_Inr[OF assms(4), of api db rel] by simp
  show "target < length (db' rel)" by (simp add: db')
  have "length (db rel) \<le> 0xFFFFFFFF" using assms(2) by (simp add: db_ok_def)
  then have "length (db' rel) \<le> 0xFFFFFFFF" using assms(4) by (simp add: db' not_less)
  then show "db_ok api db'"
    using assms(2) page_new_laws(4)[OF assms(1)] by (auto simp: db' db_ok_def)
  show "slot_relation api s db' rel"
    using assms(3) slot_page_init[OF assms(1)] by (auto simp: db' slot_relation_def)
  show "fetch_item api db' = fetch_item api db"
    by (rule ext) (simp add: db' fetch_item_def nth_append page_new_laws(7)[OF assms(1)])
qed

lemma slot_relation_put_page:
  "slot_relation api s db rel \<Longrightarrow> slot_page api s p \<Longrightarrow> slot_relation api s (put_page db rel blk p) rel"
  using set_update_subset_insert[of "db rel" "unat blk" p]
  by (auto simp: slot_relation_def put_page_def)

text \<open>The items of a map all have the size of its record.\<close>

definition map_relation :: "'p page_api \<Rightarrow> nat \<Rightarrow> 'p db \<Rightarrow> oid \<Rightarrow> bool" where
  "map_relation api sz db rel \<longleftrightarrow> slot_relation api (maxalign sz) db rel
     \<and> (\<forall>tid y. fetch_item api db (rel, tid) = Some y \<longrightarrow> item_size y = sz)"

definition slot_fits :: "nat \<Rightarrow> item_pointer \<Rightarrow> bool" where
  "slot_fits sz tid \<longleftrightarrow> unat (ip_posid tid) * (maxalign sz + 4) \<le> 8168"

definition block_fits :: "item_pointer \<Rightarrow> bool" where
  "block_fits tid \<longleftrightarrow> unat (ip_blkid tid) < 0xFFFFFFFF"

definition padded :: "'p page_api \<Rightarrow> item \<Rightarrow> 'p db \<Rightarrow> oid \<Rightarrow> item_pointer \<Rightarrow> item
    \<Rightarrow> oid \<times> item_pointer \<Rightarrow> item option" where
  "padded api pad db rel tid x a =
     (if a = (rel, tid) then Some x
      else if fst a = rel \<and> ip_blkid (snd a) = ip_blkid tid \<and> ip_posid (snd a) \<noteq> 0
        \<and> ip_posid (snd a) < ip_posid tid \<and> fetch_item api db a = None then Some pad
      else fetch_item api db a)"

lemma place_record_room:
  assumes "store_ok api db" "map_relation api (item_size x) db rel" "item_size pad = item_size x"
    "ItemPointerIsValid tid" "slot_fits (item_size x) tid" "block_fits tid"
  shows "\<exists>db'. place_record api pad db rel tid x = Inr db' \<and> store_ok api db'
    \<and> map_relation api (item_size x) db' rel \<and> fetch_item api db' = padded api pad db rel tid x"
proof -
  let ?s = "maxalign (item_size x)" and ?blk = "unat (ip_blkid tid)" and ?off = "unat (ip_posid tid)"
  have laws: "page_laws api" "db_ok api db" using assms(1) by (simp_all add: store_ok_def)
  have slots: "slot_relation api ?s db rel" using assms(2) by (simp add: map_relation_def)
  have blk: "?blk < 0xFFFFFFFF" using assms(6) by (simp add: block_fits_def)
  obtain db1 where db1: "extend_to api db rel ?blk = Inr db1"
    using extend_to_Inr[OF blk, of api db rel] by blast
  note grown = extend_to_store[OF laws slots blk db1]
  define p where "p = db1 rel ! ?blk"
  have p: "slot_page api ?s p" using grown(1,3) by (simp add: p_def slot_relation_def)
  have off: "0 < ?off" "?off * (?s + 4) \<le> 8168"
    using assms(4,5) by (simp_all add: ItemPointerIsValid_def slot_fits_def unat_gt_0)
  have at: "fetch_item api db (rel, a) = pg_item api p (unat (ip_posid a))"
    if "ip_blkid a = ip_blkid tid" for a
    using that grown(1) by (simp add: fetch_item_def p_def flip: grown(4))
  have sizes: "pg_item api p ?off = Some y \<Longrightarrow> item_size y = item_size x" for y
    using assms(2) at[of tid] by (simp add: map_relation_def)
  have "maxalign (item_size pad) = ?s" by (simp add: assms(3))
  note place = place_on_page_room[OF laws(1) p this assms(3)[symmetric] off sizes]
  define db' where "db' = put_page db1 rel (ip_blkid tid) (place_on_page api pad x ?off p)"
  have run: "place_record api pad db rel tid x = Inr db'"
    using grown(1) by (simp add: place_record_def db1 ReadBuffer_def db'_def p_def)
  have fetch: "fetch_item api db' = padded api pad db rel tid x"
  proof (rule ext, rule prod.induct)
    fix rel' and a :: item_pointer
    have tid: "a = tid \<longleftrightarrow> ip_blkid a = ip_blkid tid \<and> unat (ip_posid a) = ?off"
      by (auto simp: word_unat_eq_iff)
    show "fetch_item api db' (rel', a) = padded api pad db rel tid x (rel', a)"
      using grown(1) at[of a] slot_page_item[OF p, of "unat (ip_posid a)"] off(1)
      by (auto simp: db'_def fetch_put_page place(2) padded_def tid grown(4) word_less_nat_alt
          unat_gt_0 unat_eq_0)
  qed
  have "page_ok api (place_on_page api pad x ?off p)" using place(1) by (simp add: slot_page_def)
  then have "store_ok api db'" using grown(2) laws(1) by (simp add: store_ok_def db'_def db_ok_put_page)
  moreover have "map_relation api (item_size x) db' rel"
    using assms(2,3) slot_relation_put_page[OF grown(3) place(1), of "ip_blkid tid", folded db'_def]
    by (auto simp: map_relation_def fetch padded_def split: if_splits)
  ultimately show ?thesis using run fetch by blast
qed

lemma place_record_full:
  assumes "store_ok api db" "map_relation api (item_size x) db rel" "item_size pad = item_size x"
    "\<not> slot_fits (item_size x) tid" "block_fits tid"
  shows "\<exists>db'. place_record api pad db rel tid x = Inr db' \<and> fetch_item api db' (rel, tid) = None"
proof -
  let ?s = "maxalign (item_size x)" and ?blk = "unat (ip_blkid tid)" and ?off = "unat (ip_posid tid)"
  have laws: "page_laws api" "db_ok api db" using assms(1) by (simp_all add: store_ok_def)
  have slots: "slot_relation api ?s db rel" using assms(2) by (simp add: map_relation_def)
  have blk: "?blk < 0xFFFFFFFF" using assms(5) by (simp add: block_fits_def)
  obtain db1 where db1: "extend_to api db rel ?blk = Inr db1"
    using extend_to_Inr[OF blk, of api db rel] by blast
  note grown = extend_to_store[OF laws slots blk db1]
  define p where "p = db1 rel ! ?blk"
  have p: "slot_page api ?s p" using grown(1,3) by (simp add: p_def slot_relation_def)
  have "maxalign (item_size pad) = ?s" "8168 < ?off * (?s + 4)"
    using assms(3,4) by (simp_all add: slot_fits_def)
  note place = place_on_page_full[OF laws(1) p this(1) assms(3)[symmetric] this(2)]
  show ?thesis using grown(1) place(2)
    by (simp add: place_record_def db1 ReadBuffer_def fetch_put_page p_def)
qed

text \<open>The abstraction: the entry of a vertex, padding being no entry.\<close>

definition vertex_slot :: "64 word \<Rightarrow> item_pointer" where
  "vertex_slot i = np_id_to_tid i (pmap_tuples_per_page SizeOfNeoPhysMapRecord)"

definition vertex_entry :: "'p page_api \<Rightarrow> 'p db \<Rightarrow> oid \<Rightarrow> 64 word \<Rightarrow> NeoPhysMapRecord option" where
  "vertex_entry api db rel i = (case fetch_item api db (rel, vertex_slot i) of
     Some (PhysMap r) \<Rightarrow> if r = empty_pad then None else Some r | _ \<Rightarrow> None)"

definition id_ok :: "64 word \<Rightarrow> bool" where
  "id_ok i \<longleftrightarrow> 0 < i \<and> unat i \<le> 314 * 0xFFFFFFFF"

text \<open>291 records of 24 bytes and their line pointers fill a page.\<close>

definition slot_on_page :: "64 word \<Rightarrow> bool" where
  "slot_on_page i \<longleftrightarrow> (unat i - 1) mod 314 < 291"

lemma vertex_slot_nat:
  assumes "id_ok i"
  shows "unat (ip_blkid (vertex_slot i)) = (unat i - 1) div 314"
    "unat (ip_posid (vertex_slot i)) = (unat i - 1) mod 314 + 1"
  using assms np_id_to_tid_nat[of i 314] by (simp_all add: id_ok_def vertex_slot_def tuples_per_page_numbers)

lemma vertex_slot_inj:
  assumes "id_ok i" "id_ok j" "vertex_slot i = vertex_slot j"
  shows "i = j"
proof -
  have "unat i = unat j"
    using assms id_of_slot[of i 314] id_of_slot[of j 314]
    by (simp add: id_ok_def vertex_slot_def tuples_per_page_numbers)
  then show ?thesis by (simp add: word_unat_eq_iff)
qed

lemma vertex_slot_fits:
  assumes "id_ok i"
  shows "ItemPointerIsValid (vertex_slot i)" "block_fits (vertex_slot i)"
    "slot_fits SizeOfNeoPhysMapRecord (vertex_slot i) = slot_on_page i"
proof -
  have "unat (ip_posid (vertex_slot i)) \<noteq> 0" using vertex_slot_nat[OF assms] by simp
  then show "ItemPointerIsValid (vertex_slot i)"
    unfolding ItemPointerIsValid_def by (metis unat_0)
  have "0 < unat i" "unat i \<le> 314 * 0xFFFFFFFF"
    using assms by (simp_all add: id_ok_def word_less_nat_alt)
  then have "(unat i - 1) div 314 < 0xFFFFFFFF" by (simp add: div_less_iff_less_mult)
  then show "block_fits (vertex_slot i)" by (simp add: block_fits_def vertex_slot_nat[OF assms])
  show "slot_fits SizeOfNeoPhysMapRecord (vertex_slot i) = slot_on_page i"
    unfolding slot_fits_def slot_on_page_def vertex_slot_nat[OF assms]
    by (simp add: SizeOfNeoPhysMapRecord_def maxalign_def) arith
qed

text \<open>C23. Placing the record of a vertex whose slot is on the page makes the map give
  that record for that vertex and what it gave before for every other, in whatever order the ids
  come; the file is extended and padded as needed.\<close>
theorem physmap_place_get:
  assumes "store_ok api db" "map_relation api SizeOfNeoPhysMapRecord db rel" "id_ok i" "slot_on_page i"
  shows "\<exists>db'. np_place_physmap_record api db rel (vertex_slot i) rec = Inr db'
    \<and> store_ok api db' \<and> map_relation api SizeOfNeoPhysMapRecord db' rel
    \<and> (\<forall>j. id_ok j \<longrightarrow> vertex_entry api db' rel j =
          (if j = i then (if rec = empty_pad then None else Some rec) else vertex_entry api db rel j))"
proof -
  have size: "item_size (PhysMap rec) = SizeOfNeoPhysMapRecord"
    "item_size (PhysMap empty_pad) = item_size (PhysMap rec)" by simp_all
  obtain db' where db': "place_record api (PhysMap empty_pad) db rel (vertex_slot i) (PhysMap rec) = Inr db'"
    "store_ok api db'" "map_relation api SizeOfNeoPhysMapRecord db' rel"
    "fetch_item api db' = padded api (PhysMap empty_pad) db rel (vertex_slot i) (PhysMap rec)"
    using place_record_room[OF assms(1) assms(2)[folded size(1)] size(2)] vertex_slot_fits[OF assms(3)]
      assms(4) by auto
  have "vertex_entry api db' rel j =
      (if j = i then (if rec = empty_pad then None else Some rec) else vertex_entry api db rel j)"
    if "id_ok j" for j
    using vertex_slot_inj[OF that assms(3)]
    by (auto simp: vertex_entry_def db'(4) padded_def split: option.splits item.splits)
  with db' show ?thesis by (auto simp: np_place_physmap_record_def)
qed

lemma empty_map_relation: "db rel = [] \<Longrightarrow> map_relation api sz db rel"
  by (simp add: map_relation_def slot_relation_def fetch_item_def)

lemma physmap_place_get_witness:
  "\<exists>db. np_place_physmap_record list_page_api (\<lambda>_. []) 1 (vertex_slot 600)
      (empty_pad \<lparr> pm_e_tbl_id := 9 \<rparr>) = Inr db
    \<and> vertex_entry list_page_api db 1 600 = Some (empty_pad \<lparr> pm_e_tbl_id := 9 \<rparr>)
    \<and> vertex_entry list_page_api db 1 599 = None"
proof -
  have "id_ok 600" "id_ok 599" "slot_on_page 600" by (simp_all add: id_ok_def slot_on_page_def)
  moreover have "vertex_entry list_page_api (\<lambda>_. []) 1 599 = None"
    by (simp add: vertex_entry_def fetch_item_def)
  moreover have "empty_pad \<lparr> pm_e_tbl_id := 9 \<rparr> \<noteq> empty_pad"
    by (simp add: empty_pad_def InvalidOid_def)
  ultimately show ?thesis
    using physmap_place_get[of list_page_api "\<lambda>_. []" 1 600 "empty_pad \<lparr> pm_e_tbl_id := 9 \<rparr>"]
    by (auto simp: empty_db_ok empty_map_relation)
qed

text \<open>C33. The record of a vertex whose slot is the 292nd to the 314th of its page is
  dropped: no error is raised and the map has no entry for the vertex afterwards.\<close>
theorem physmap_overflow:
  assumes "store_ok api db" "map_relation api SizeOfNeoPhysMapRecord db rel" "id_ok i" "\<not> slot_on_page i"
  shows "\<exists>db'. np_place_physmap_record api db rel (vertex_slot i) rec = Inr db'
    \<and> vertex_entry api db' rel i = None"
proof -
  have size: "item_size (PhysMap rec) = SizeOfNeoPhysMapRecord"
    "item_size (PhysMap empty_pad) = item_size (PhysMap rec)" by simp_all
  show ?thesis
    using place_record_full[OF assms(1) assms(2)[folded size(1)] size(2), of "vertex_slot i"]
      vertex_slot_fits[OF assms(3)] assms(4)
    by (auto simp: vertex_entry_def np_place_physmap_record_def)
qed

lemma physmap_overflow_witness:
  "\<exists>db. np_place_physmap_record list_page_api (\<lambda>_. []) 1 (vertex_slot 300)
      (empty_pad \<lparr> pm_e_tbl_id := 9 \<rparr>) = Inr db \<and> vertex_entry list_page_api db 1 300 = None"
  by (rule physmap_overflow)
    (simp_all add: empty_db_ok empty_map_relation id_ok_def slot_on_page_def)

lemma small_id_slot:
  "0 < i \<Longrightarrow> i \<le> 157 \<Longrightarrow>
    np_id_to_tid i (np_calculate_tuples_per_page SizeOfNeoPhysMapRecord) = vertex_slot i"
  using small_id_slots[of i] by (simp add: vertex_slot_def tuples_per_page_numbers)

lemma get_current_head_fetch:
  assumes "0 < i" "i \<le> 157" "fetch_item api db (rel, vertex_slot i) = Some (PhysMap r)"
  shows "get_current_head_tid api db rel i = Inr (pm_e_tbl_id r, pm_e_itemptr r)"
proof -
  have "unat (ip_blkid (vertex_slot i)) < length (db rel)"
    using assms(3) by (simp add: fetch_item_def split: if_splits)
  then show ?thesis using read_item_fetch[OF assms(3)]
    by (simp add: get_current_head_tid_def Let_def small_id_slot[OF assms(1,2)]
        RelationGetNumberOfBlocks_def)
qed

lemma set_head_size: "set_head tbl tid x = Some y \<Longrightarrow> item_size y = item_size x"
  by (cases x) (auto simp: set_head_def)

lemma update_vertex_phys_map_fetch:
  assumes "store_ok api db" "0 < i" "i \<le> 157"
    "fetch_item api db (rel, vertex_slot i) = Some (PhysMap r)"
  shows "\<exists>db'. update_vertex_phys_map api db rel i tbl tid = Inr db' \<and> store_ok api db'
    \<and> fetch_item api db' = (fetch_item api db)
        ((rel, vertex_slot i) \<mapsto> PhysMap (r \<lparr> pm_e_tbl_id := tbl, pm_e_itemptr := tid \<rparr>))"
proof -
  let ?r = "PhysMap (r \<lparr> pm_e_tbl_id := tbl, pm_e_itemptr := tid \<rparr>)"
  have y: "set_head tbl tid (PhysMap r) = Some ?r" by (simp add: set_head_def)
  obtain db' where m: "modify_item api (set_head tbl tid) db rel (vertex_slot i) = Inr db'"
    using np.modify_total[where f = "set_head tbl tid", OF assms(4) y] by blast
  have "fetch_item api db' = (fetch_item api db)((rel, vertex_slot i) \<mapsto> ?r)"
    using np.modify_fetch[OF assms(1) m] set_head_size y assms(4) by force
  moreover have "store_ok api db'" using np.modify_ok[OF assms(1) m] set_head_size by blast
  ultimately show ?thesis
    using m by (simp add: update_vertex_phys_map_def small_id_slot[OF assms(2,3)])
qed

text \<open>Writing the head of the adjacency list of one of the first 157 vertices, whose
  entry is in place, makes reading it give that head, keeps the rest of the entry, and leaves every
  other entry alone.\<close>
theorem head_update_get:
  assumes "store_ok api db" "0 < i" "i \<le> 157"
    "fetch_item api db (rel, vertex_slot i) = Some (PhysMap r)"
  shows "\<exists>db'. update_vertex_phys_map api db rel i tbl tid = Inr db'
    \<and> store_ok api db' \<and> get_current_head_tid api db' rel i = Inr (tbl, tid)
    \<and> fetch_item api db' = (fetch_item api db)
        ((rel, vertex_slot i) \<mapsto> PhysMap (r \<lparr> pm_e_tbl_id := tbl, pm_e_itemptr := tid \<rparr>))"
proof -
  obtain db' where db': "update_vertex_phys_map api db rel i tbl tid = Inr db'" "store_ok api db'"
    "fetch_item api db' = (fetch_item api db)
        ((rel, vertex_slot i) \<mapsto> PhysMap (r \<lparr> pm_e_tbl_id := tbl, pm_e_itemptr := tid \<rparr>))"
    using update_vertex_phys_map_fetch[OF assms] by blast
  then have "get_current_head_tid api db' rel i = Inr (tbl, tid)"
    using get_current_head_fetch[OF assms(2,3), of api db' rel] by simp
  with db' show ?thesis by blast
qed

definition example_map :: "list_page db" where
  "example_map = (\<lambda>_. [])(1 := [Some [PhysMap empty_pad, PhysMap empty_pad]])"

lemma example_map_ok: "store_ok list_page_api example_map"
proof -
  have "db_ok list_page_api example_map"
    by (auto simp: db_ok_def page_ok_def dense_def example_map_def list_page_api_def
        used_space_def maxalign_def SizeOfNeoPhysMapRecord_def split: if_splits)
  then show ?thesis by (simp add: store_ok_def)
qed

lemma vertex_slot_2: "vertex_slot 2 = \<lparr> ip_blkid = 0, ip_posid = 2 \<rparr>"
  by (simp add: vertex_slot_def tuples_per_page_numbers np_id_to_tid_def)

lemma head_update_get_witness:
  "\<exists>db. update_vertex_phys_map list_page_api example_map 1 2 9 (vertex_slot 5) = Inr db
    \<and> get_current_head_tid list_page_api db 1 2 = Inr (9, vertex_slot 5)"
proof -
  have "fetch_item list_page_api example_map (1, vertex_slot 2) = Some (PhysMap empty_pad)"
    by (simp add: vertex_slot_2 fetch_item_def example_map_def list_page_api_def)
  from head_update_get[OF example_map_ok _ _ this, of 9 "vertex_slot 5"] show ?thesis by auto
qed

end
