(* ===== verification/GType_Bits.thy ===== *)
theory GType_Bits
  imports Prelude
begin

text \<open>
  The entry words and container headers of a serialised \<open>gtype\<close>
  (\<open>src/src/include/utils/gtype.h\<close>).  Every child of a container has a 32-bit entry: a
  4-bit tag and a 28-bit field that is the length of the child's data, or, when the flag
  \<open>GTENTRY_HAS_OFF\<close> is set, the offset of its end.  The header of a container holds the
  number of children and the flags for scalar, object and array.
\<close>

type_synonym gtentry = "32 word"

definition GTENTRY_OFFLENMASK :: gtentry where "GTENTRY_OFFLENMASK = 0x0FFFFFFF"
definition GTENTRY_TYPEMASK :: gtentry where "GTENTRY_TYPEMASK = 0x70000000"
definition GTENTRY_HAS_OFF :: gtentry where "GTENTRY_HAS_OFF = 0x80000000"

definition GTENTRY_IS_STRING :: gtentry where "GTENTRY_IS_STRING = 0x00000000"
definition GTENTRY_IS_NUMERIC :: gtentry where "GTENTRY_IS_NUMERIC = 0x10000000"
definition GTENTRY_IS_BOOL_FALSE :: gtentry where "GTENTRY_IS_BOOL_FALSE = 0x20000000"
definition GTENTRY_IS_BOOL_TRUE :: gtentry where "GTENTRY_IS_BOOL_TRUE = 0x30000000"
definition GTENTRY_IS_NULL :: gtentry where "GTENTRY_IS_NULL = 0x40000000"
definition GTENTRY_IS_CONTAINER :: gtentry where "GTENTRY_IS_CONTAINER = 0x50000000"
definition GTENTRY_IS_GTYPE :: gtentry where "GTENTRY_IS_GTYPE = 0x60000000"

definition GTE_OFFLENFLD :: "gtentry \<Rightarrow> 32 word" where
  "GTE_OFFLENFLD e = e AND GTENTRY_OFFLENMASK"

definition GTE_HAS_OFF :: "gtentry \<Rightarrow> bool" where
  "GTE_HAS_OFF e \<longleftrightarrow> e AND GTENTRY_HAS_OFF \<noteq> 0"

definition GTE_IS_STRING :: "gtentry \<Rightarrow> bool" where
  "GTE_IS_STRING e \<longleftrightarrow> e AND GTENTRY_TYPEMASK = GTENTRY_IS_STRING"
definition GTE_IS_NUMERIC :: "gtentry \<Rightarrow> bool" where
  "GTE_IS_NUMERIC e \<longleftrightarrow> e AND GTENTRY_TYPEMASK = GTENTRY_IS_NUMERIC"
definition GTE_IS_CONTAINER :: "gtentry \<Rightarrow> bool" where
  "GTE_IS_CONTAINER e \<longleftrightarrow> e AND GTENTRY_TYPEMASK = GTENTRY_IS_CONTAINER"
definition GTE_IS_NULL :: "gtentry \<Rightarrow> bool" where
  "GTE_IS_NULL e \<longleftrightarrow> e AND GTENTRY_TYPEMASK = GTENTRY_IS_NULL"
definition GTE_IS_BOOL_TRUE :: "gtentry \<Rightarrow> bool" where
  "GTE_IS_BOOL_TRUE e \<longleftrightarrow> e AND GTENTRY_TYPEMASK = GTENTRY_IS_BOOL_TRUE"
definition GTE_IS_BOOL_FALSE :: "gtentry \<Rightarrow> bool" where
  "GTE_IS_BOOL_FALSE e \<longleftrightarrow> e AND GTENTRY_TYPEMASK = GTENTRY_IS_BOOL_FALSE"
definition GTE_IS_BOOL :: "gtentry \<Rightarrow> bool" where
  "GTE_IS_BOOL e \<longleftrightarrow> GTE_IS_BOOL_TRUE e \<or> GTE_IS_BOOL_FALSE e"
definition GTE_IS_GTYPE :: "gtentry \<Rightarrow> bool" where
  "GTE_IS_GTYPE e \<longleftrightarrow> e AND GTENTRY_TYPEMASK = GTENTRY_IS_GTYPE"

definition GTE_ADVANCE_OFFSET :: "32 word \<Rightarrow> gtentry \<Rightarrow> 32 word" where
  "GTE_ADVANCE_OFFSET offset e =
     (if GTE_HAS_OFF e then GTE_OFFLENFLD e else offset + GTE_OFFLENFLD e)"

definition GT_OFFSET_STRIDE :: nat where "GT_OFFSET_STRIDE = 32"

definition GT_CMASK :: "32 word" where "GT_CMASK = 0x07FFFFFF"
definition GT_FSCALAR :: "32 word" where "GT_FSCALAR = 0x10000000"
definition GT_FOBJECT :: "32 word" where "GT_FOBJECT = 0x20000000"
definition GT_FARRAY :: "32 word" where "GT_FARRAY = 0x40000000"
definition GT_FBINARY :: "32 word" where "GT_FBINARY = 0x80000000"

text \<open>The container macros, on the container's header word.\<close>

definition GTYPE_CONTAINER_SIZE :: "32 word \<Rightarrow> nat" where
  "GTYPE_CONTAINER_SIZE header = unat (header AND GT_CMASK)"
definition GTYPE_CONTAINER_IS_SCALAR :: "32 word \<Rightarrow> bool" where
  "GTYPE_CONTAINER_IS_SCALAR header \<longleftrightarrow> header AND GT_FSCALAR \<noteq> 0"
definition GTYPE_CONTAINER_IS_OBJECT :: "32 word \<Rightarrow> bool" where
  "GTYPE_CONTAINER_IS_OBJECT header \<longleftrightarrow> header AND GT_FOBJECT \<noteq> 0"
definition GTYPE_CONTAINER_IS_ARRAY :: "32 word \<Rightarrow> bool" where
  "GTYPE_CONTAINER_IS_ARRAY header \<longleftrightarrow> header AND GT_FARRAY \<noteq> 0"

definition GT_HEADER_INTEGER :: "32 word" where "GT_HEADER_INTEGER = 0"
definition GT_HEADER_FLOAT :: "32 word" where "GT_HEADER_FLOAT = 1"
definition GT_HEADER_TIMESTAMP :: "32 word" where "GT_HEADER_TIMESTAMP = 2"
definition GT_HEADER_TIMESTAMPTZ :: "32 word" where "GT_HEADER_TIMESTAMPTZ = 3"
definition GT_HEADER_DATE :: "32 word" where "GT_HEADER_DATE = 4"
definition GT_HEADER_TIME :: "32 word" where "GT_HEADER_TIME = 5"
definition GT_HEADER_TIMETZ :: "32 word" where "GT_HEADER_TIMETZ = 6"
definition GT_HEADER_INTERVAL :: "32 word" where "GT_HEADER_INTERVAL = 7"
definition GT_HEADER_INET :: "32 word" where "GT_HEADER_INET = 9"
definition GT_HEADER_CIDR :: "32 word" where "GT_HEADER_CIDR = 0xA"
definition GT_HEADER_MAC :: "32 word" where "GT_HEADER_MAC = 0xB"
definition GT_HEADER_MAC8 :: "32 word" where "GT_HEADER_MAC8 = 0xC"
definition GT_HEADER_SIZE :: nat where "GT_HEADER_SIZE = 4"

lemmas gtentry_tags =
  GTENTRY_IS_STRING_def GTENTRY_IS_NUMERIC_def GTENTRY_IS_BOOL_FALSE_def GTENTRY_IS_BOOL_TRUE_def
  GTENTRY_IS_NULL_def GTENTRY_IS_CONTAINER_def GTENTRY_IS_GTYPE_def
lemmas gtentry_masks = GTENTRY_OFFLENMASK_def GTENTRY_TYPEMASK_def GTENTRY_HAS_OFF_def
lemmas gte_tests = GTE_IS_STRING_def GTE_IS_NUMERIC_def GTE_IS_CONTAINER_def GTE_IS_NULL_def
  GTE_IS_BOOL_TRUE_def GTE_IS_BOOL_FALSE_def GTE_IS_BOOL_def GTE_IS_GTYPE_def
lemmas gt_flags = GT_CMASK_def GT_FSCALAR_def GT_FOBJECT_def GT_FARRAY_def GT_FBINARY_def
lemmas gt_headers = GT_HEADER_INTEGER_def GT_HEADER_FLOAT_def GT_HEADER_TIMESTAMP_def
  GT_HEADER_TIMESTAMPTZ_def GT_HEADER_DATE_def GT_HEADER_TIME_def GT_HEADER_TIMETZ_def
  GT_HEADER_INTERVAL_def GT_HEADER_INET_def GT_HEADER_CIDR_def GT_HEADER_MAC_def
  GT_HEADER_MAC8_def

subsection \<open>Small numbers and masks\<close>

lemma bit_of_nat_less:
  assumes "n < 2 ^ k" and "bit (of_nat n :: 'a::len word) i"
  shows "i < k"
proof -
  have "take_bit k n = n" using assms(1) by (simp add: take_bit_nat_eq_self)
  moreover have "bit n i" using assms(2) by (simp add: bit_simps)
  ultimately have "bit (take_bit k n) i" by simp
  then show ?thesis by (simp add: bit_take_bit_iff)
qed

lemma small_and_zero:
  assumes "n < 2 ^ k" and "(C :: 'a::len word) AND mask k = 0"
  shows "of_nat n AND C = 0"
proof (rule bit_word_eqI)
  fix i assume "i < LENGTH('a)"
  with assms(2) have "bit C i \<Longrightarrow> \<not> i < k"
    by (metis bit_0_eq bit_and_iff bit_mask_iff bot_apply bot_bool_def possible_bit_word)
  with bit_of_nat_less [OF assms(1)] show "bit (of_nat n AND C) i = bit (0 :: 'a word) i"
    by (auto simp: bit_simps)
qed

lemma small_and_id:
  assumes "n < 2 ^ k" and "(C :: 'a::len word) AND mask k = mask k"
  shows "of_nat n AND C = of_nat n"
proof (rule bit_word_eqI)
  fix i assume "i < LENGTH('a)"
  with assms(2) have "i < k \<Longrightarrow> bit C i"
    by (metis bit_and_iff bit_mask_iff possible_bit_word)
  with bit_of_nat_less [OF assms(1)] show "bit (of_nat n AND C) i = bit (of_nat n :: 'a word) i"
    by (auto simp: bit_simps)
qed

lemma unat_small28: "n \<le> 0x0FFFFFFF \<Longrightarrow> unat (of_nat n :: 32 word) = n"
  by (simp add: unat_of_nat take_bit_nat_eq_self)

subsection \<open>The entry of a child that stores a length\<close>

lemma small28:
  assumes "n \<le> 0x0FFFFFFF"
  shows "(of_nat n :: 32 word) AND GTENTRY_OFFLENMASK = of_nat n"
    and "(of_nat n :: 32 word) AND GTENTRY_TYPEMASK = 0"
    and "(of_nat n :: 32 word) AND GTENTRY_HAS_OFF = 0"
proof -
  have n: "n < 2 ^ 28" using assms by simp
  show "(of_nat n :: 32 word) AND GTENTRY_OFFLENMASK = of_nat n"
    by (rule small_and_id [OF n]) (simp add: gtentry_masks mask_eq_exp_minus_1)
  show "(of_nat n :: 32 word) AND GTENTRY_TYPEMASK = 0"
    by (rule small_and_zero [OF n]) (simp add: gtentry_masks mask_eq_exp_minus_1)
  show "(of_nat n :: 32 word) AND GTENTRY_HAS_OFF = 0"
    by (rule small_and_zero [OF n]) (simp add: gtentry_masks mask_eq_exp_minus_1)
qed

text \<open>The tags: the seven words that fit \<open>GTENTRY_TYPEMASK\<close>.\<close>

definition gtentry_tag :: "gtentry \<Rightarrow> bool" where
  "gtentry_tag t \<longleftrightarrow> t AND GTENTRY_TYPEMASK = t"

lemma gtentry_tagD:
  assumes "gtentry_tag t"
  shows "t AND GTENTRY_OFFLENMASK = 0" "t AND GTENTRY_HAS_OFF = 0" "t AND GTENTRY_TYPEMASK = t"
proof -
  have "t AND GTENTRY_OFFLENMASK = t AND (GTENTRY_TYPEMASK AND GTENTRY_OFFLENMASK)"
    using assms by (simp add: gtentry_tag_def flip: and.assoc)
  then show "t AND GTENTRY_OFFLENMASK = 0" by (simp add: gtentry_masks)
  have "t AND GTENTRY_HAS_OFF = t AND (GTENTRY_TYPEMASK AND GTENTRY_HAS_OFF)"
    using assms by (simp add: gtentry_tag_def flip: and.assoc)
  then show "t AND GTENTRY_HAS_OFF = 0" by (simp add: gtentry_masks)
qed (use assms in \<open>simp add: gtentry_tag_def\<close>)

lemma gtentry_tag_simps [simp]:
  "gtentry_tag GTENTRY_IS_STRING" "gtentry_tag GTENTRY_IS_NUMERIC"
  "gtentry_tag GTENTRY_IS_BOOL_FALSE" "gtentry_tag GTENTRY_IS_BOOL_TRUE"
  "gtentry_tag GTENTRY_IS_NULL" "gtentry_tag GTENTRY_IS_CONTAINER" "gtentry_tag GTENTRY_IS_GTYPE"
  by (simp_all add: gtentry_tag_def gtentry_tags gtentry_masks)

lemma length_entry [bits_simps]:
  assumes "gtentry_tag t" "n \<le> 0x0FFFFFFF"
  shows "GTE_OFFLENFLD (t OR of_nat n) = of_nat n"
    and "(t OR of_nat n) AND GTENTRY_TYPEMASK = t"
    and "\<not> GTE_HAS_OFF (t OR of_nat n)"
  using small28 [OF assms(2)] gtentry_tagD [OF assms(1)]
  by (simp_all add: GTE_OFFLENFLD_def GTE_HAS_OFF_def bit.conj_disj_distrib2)

text \<open>The entry of every stride-th child, which stores the end offset instead.\<close>

lemma offset_entry [bits_simps]:
  assumes "n \<le> 0x0FFFFFFF"
  shows "GTE_OFFLENFLD ((m AND GTENTRY_TYPEMASK) OR of_nat n OR GTENTRY_HAS_OFF) = of_nat n"
    and "((m AND GTENTRY_TYPEMASK) OR of_nat n OR GTENTRY_HAS_OFF) AND GTENTRY_TYPEMASK
         = m AND GTENTRY_TYPEMASK"
    and "GTE_HAS_OFF ((m AND GTENTRY_TYPEMASK) OR of_nat n OR GTENTRY_HAS_OFF)"
proof -
  have t: "gtentry_tag (m AND GTENTRY_TYPEMASK)" by (simp add: gtentry_tag_def and.assoc)
  have H: "GTENTRY_HAS_OFF AND GTENTRY_OFFLENMASK = 0" "GTENTRY_HAS_OFF AND GTENTRY_TYPEMASK = 0"
    by (simp_all add: gtentry_masks)
  show "GTE_OFFLENFLD ((m AND GTENTRY_TYPEMASK) OR of_nat n OR GTENTRY_HAS_OFF) = of_nat n"
    using small28 [OF assms] gtentry_tagD [OF t] H
    by (simp add: GTE_OFFLENFLD_def bit.conj_disj_distrib2)
  show "((m AND GTENTRY_TYPEMASK) OR of_nat n OR GTENTRY_HAS_OFF) AND GTENTRY_TYPEMASK
         = m AND GTENTRY_TYPEMASK"
    using small28 [OF assms] gtentry_tagD [OF t] H by (simp add: bit.conj_disj_distrib2)
  show "GTE_HAS_OFF ((m AND GTENTRY_TYPEMASK) OR of_nat n OR GTENTRY_HAS_OFF)"
    using small28 [OF assms] gtentry_tagD [OF t]
    by (simp add: GTE_HAS_OFF_def bit.conj_disj_distrib2) (simp add: gtentry_masks)
qed

subsection \<open>Container headers\<close>

lemma small27:
  assumes "n \<le> 0x07FFFFFF"
  shows "(of_nat n :: 32 word) AND GT_CMASK = of_nat n"
    and "(of_nat n :: 32 word) AND GT_FSCALAR = 0"
    and "(of_nat n :: 32 word) AND GT_FOBJECT = 0"
    and "(of_nat n :: 32 word) AND GT_FARRAY = 0"
    and "unat (of_nat n :: 32 word) = n"
proof -
  have n: "n < 2 ^ 27" using assms by simp
  show "(of_nat n :: 32 word) AND GT_CMASK = of_nat n"
    by (rule small_and_id [OF n]) (simp add: gt_flags mask_eq_exp_minus_1)
  show "(of_nat n :: 32 word) AND GT_FSCALAR = 0"
    by (rule small_and_zero [OF n]) (simp add: gt_flags mask_eq_exp_minus_1)
  show "(of_nat n :: 32 word) AND GT_FOBJECT = 0"
    by (rule small_and_zero [OF n]) (simp add: gt_flags mask_eq_exp_minus_1)
  show "(of_nat n :: 32 word) AND GT_FARRAY = 0"
    by (rule small_and_zero [OF n]) (simp add: gt_flags mask_eq_exp_minus_1)
qed (use assms unat_small28 in simp)

end
