(* ===== verification/GType_Value.thy ===== *)
theory GType_Value
  imports GType_Bits
begin

text \<open>
  The in-memory form of a \<open>gtype\<close>: the tagged union \<open>gtype_value\<close> and \<open>gtype_pair\<close> of
  \<open>src/src/include/utils/gtype.h\<close>, and the growing byte buffer that the serialiser writes
  (\<open>src/src/backend/utils/adt/gtype_util.c\<close>).  A C string is the list of its bytes, a
  numeric the bytes of its varlena, network addresses the bytes of their structs, 64-bit and
  32-bit scalars words (a float is its bit pattern), and a pointer to a serialised container
  an address.  The bytes of a reserved but not yet written area are those of \<open>junk\<close>, an
  arbitrary memory: no theorem depends on it.
\<close>

datatype 'v gtype_pair = GPair (pair_key: 'v) (pair_value: 'v) (pair_order: nat)

datatype gtype_value =
    GTV_NULL
  | GTV_STRING bytes
  | GTV_NUMERIC bytes
  | GTV_INTEGER "64 word"
  | GTV_FLOAT "64 word"
  | GTV_BOOL bool
  | GTV_TIMESTAMP "64 word"
  | GTV_TIMESTAMPTZ "64 word"
  | GTV_DATE "32 word"
  | GTV_TIME "64 word"
  | GTV_TIMETZ "64 word" "32 word"
  | GTV_INTERVAL "64 word" "32 word" "32 word"
  | GTV_INET bytes
  | GTV_CIDR bytes
  | GTV_MAC bytes
  | GTV_MAC8 bytes
  | GTV_ARRAY bool "gtype_value list"
  | GTV_OBJECT "gtype_value gtype_pair list"
  | GTV_BINARY nat nat

fun IS_A_GTYPE_SCALAR :: "gtype_value \<Rightarrow> bool" where
  "IS_A_GTYPE_SCALAR (GTV_ARRAY _ _) = False"
| "IS_A_GTYPE_SCALAR (GTV_OBJECT _) = False"
| "IS_A_GTYPE_SCALAR (GTV_BINARY _ _) = False"
| "IS_A_GTYPE_SCALAR _ = True"

fun is_string :: "gtype_value \<Rightarrow> bool" where
  "is_string (GTV_STRING _) = True"
| "is_string _ = False"

lemma is_stringE:
  assumes "is_string v"
  obtains s where "v = GTV_STRING s"
  using assms by (cases v) simp_all

text \<open>What the \<open>gtype\<close> routines report through \<open>ereport\<close> and \<open>elog\<close>.\<close>

datatype gtype_error =
    ArrayTooBig | ObjectTooBig
  | InvalidScalarType | UnknownTypeToConvert
  | TooManyPairs | TooManyElems
  | UnknownContainerType | KeyNotString | InvalidExtendedHeader
  | UnrecognizedToken | InvalidContainerType
  | InvalidIteratorState | ContractViolation

subsection \<open>The output buffer\<close>

definition reserve_from_buffer :: "memory \<Rightarrow> bytes \<Rightarrow> nat \<Rightarrow> bytes \<times> nat" where
  "reserve_from_buffer junk buffer len =
     (let offset = length buffer in (buffer @ load_bytes junk offset len, offset))"

definition copy_to_buffer :: "bytes \<Rightarrow> nat \<Rightarrow> bytes \<Rightarrow> bytes" where
  "copy_to_buffer buffer offset data = poke buffer offset data"

definition append_to_buffer :: "memory \<Rightarrow> bytes \<Rightarrow> bytes \<Rightarrow> bytes" where
  "append_to_buffer junk buffer data =
     (let (buffer, offset) = reserve_from_buffer junk buffer (length data)
      in copy_to_buffer buffer offset data)"

definition pad_buffer_to_int :: "memory \<Rightarrow> bytes \<Rightarrow> bytes \<times> nat" where
  "pad_buffer_to_int junk buffer =
     (let padlen = intalign (length buffer) - length buffer;
          (buffer, offset) = reserve_from_buffer junk buffer padlen
      in (fold (\<lambda>p b. b[offset + p := 0]) [0..<padlen] buffer, padlen))"

text \<open>The number of bytes from a position to the next multiple of four.\<close>

definition padlen :: "nat \<Rightarrow> nat" where
  "padlen p = intalign p - p"

definition zeros :: "nat \<Rightarrow> bytes" where
  "zeros n = replicate n 0"

lemma length_zeros [simp]: "length (zeros n) = n"
  by (simp add: zeros_def)

lemma padlen_less: "padlen p < 4"
  using intalign_lt [of p] intalign_ge [of p] by (simp add: padlen_def)

lemma padlen_align: "p + padlen p = intalign p"
  using intalign_ge [of p] by (simp add: padlen_def)

lemma padlen_mod: "(p + padlen p) mod 4 = 0"
  by (simp add: padlen_align)

lemma padlen_aligned [simp]: "p mod 4 = 0 \<Longrightarrow> padlen p = 0"
  by (simp add: padlen_def)

lemma padlen_add: "b mod 4 = 0 \<Longrightarrow> padlen (b + n) = padlen n"
  by (simp add: padlen_def intalign_add)

lemma append_to_buffer [simp]: "append_to_buffer junk buffer data = buffer @ data"
  by (simp add: append_to_buffer_def reserve_from_buffer_def Let_def copy_to_buffer_def
      poke_append [of "load_bytes junk (length buffer) (length data)" data buffer "[]", simplified])

lemma fold_zero_fill:
  "n \<le> length ys \<Longrightarrow>
     fold (\<lambda>p b. b[length xs + p := 0]) [0..<n] (xs @ ys) = xs @ zeros n @ drop n ys"
proof (induction n)
  case (Suc n)
  then obtain y ys' where y: "drop n ys = y # ys'" and "drop (Suc n) ys = ys'"
    by (metis Cons_nth_drop_Suc Suc_le_lessD)
  with Suc show ?case
    by (simp add: zeros_def list_update_append replicate_append_same [symmetric])
qed (simp add: zeros_def)

lemma pad_buffer_to_int [simp]:
  "pad_buffer_to_int junk buffer = (buffer @ zeros (padlen (length buffer)), padlen (length buffer))"
  using fold_zero_fill [of "padlen (length buffer)"
      "load_bytes junk (length buffer) (padlen (length buffer))" buffer]
  by (simp add: pad_buffer_to_int_def reserve_from_buffer_def padlen_def [symmetric] Let_def)

end
