(* ===== verification/GType_Ext.thy ===== *)
theory GType_Ext
  imports GType_Value
begin

text \<open>
  The scalars that PostgreSQL's JSON has no form for: integers, floats, date and time values
  and network addresses (\<open>src/src/backend/utils/adt/gtype_ext.c\<close>).  They are stored as a
  4-byte aligned header word, which names the type, and the bytes of the value.
\<close>

definition np_serialize_header :: "memory \<Rightarrow> bytes \<Rightarrow> 32 word \<Rightarrow> bytes \<times> nat" where
  "np_serialize_header junk buffer type =
     (let (buffer, padlen) = pad_buffer_to_int junk buffer;
          (buffer, offset) = reserve_from_buffer junk buffer GT_HEADER_SIZE
      in (poke buffer offset (le32 type), padlen))"

text \<open>
  \<open>None\<close> is the result \<open>false\<close>; otherwise the extended buffer and the entry of the value.
  A \<open>TimeTzADT\<close> occupies 16 bytes, of which 12 are written.
\<close>

fun np_serialize_extended_type :: "memory \<Rightarrow> bytes \<Rightarrow> gtype_value \<Rightarrow> (bytes \<times> gtentry) option" where
  "np_serialize_extended_type junk buffer (GTV_INTEGER int_value) =
     (let (buffer, padlen) = np_serialize_header junk buffer GT_HEADER_INTEGER;
          numlen = 8;
          (buffer, offset) = reserve_from_buffer junk buffer numlen
      in Some (poke buffer offset (le64 int_value),
               GTENTRY_IS_GTYPE OR of_nat (padlen + numlen + GT_HEADER_SIZE)))"
| "np_serialize_extended_type junk buffer (GTV_FLOAT float_value) =
     (let (buffer, padlen) = np_serialize_header junk buffer GT_HEADER_FLOAT;
          numlen = 8;
          (buffer, offset) = reserve_from_buffer junk buffer numlen
      in Some (poke buffer offset (le64 float_value),
               GTENTRY_IS_GTYPE OR of_nat (padlen + numlen + GT_HEADER_SIZE)))"
| "np_serialize_extended_type junk buffer (GTV_TIMESTAMP int_value) =
     (let (buffer, padlen) = np_serialize_header junk buffer GT_HEADER_TIMESTAMP;
          (buffer, offset) = reserve_from_buffer junk buffer 8
      in Some (poke buffer offset (le64 int_value),
               GTENTRY_IS_GTYPE OR of_nat (8 + GT_HEADER_SIZE)))"
| "np_serialize_extended_type junk buffer (GTV_TIMESTAMPTZ int_value) =
     (let (buffer, padlen) = np_serialize_header junk buffer GT_HEADER_TIMESTAMPTZ;
          numlen = 8;
          (buffer, offset) = reserve_from_buffer junk buffer numlen
      in Some (poke buffer offset (le64 int_value),
               GTENTRY_IS_GTYPE OR of_nat (padlen + numlen + GT_HEADER_SIZE)))"
| "np_serialize_extended_type junk buffer (GTV_DATE date) =
     (let (buffer, padlen) = np_serialize_header junk buffer GT_HEADER_DATE;
          numlen = 4;
          (buffer, offset) = reserve_from_buffer junk buffer numlen
      in Some (poke buffer offset (le32 date),
               GTENTRY_IS_GTYPE OR of_nat (padlen + numlen + GT_HEADER_SIZE)))"
| "np_serialize_extended_type junk buffer (GTV_TIME int_value) =
     (let (buffer, padlen) = np_serialize_header junk buffer GT_HEADER_TIME;
          numlen = 8;
          (buffer, offset) = reserve_from_buffer junk buffer numlen
      in Some (poke buffer offset (le64 int_value),
               GTENTRY_IS_GTYPE OR of_nat (padlen + numlen + GT_HEADER_SIZE)))"
| "np_serialize_extended_type junk buffer (GTV_TIMETZ time zone) =
     (let (buffer, padlen) = np_serialize_header junk buffer GT_HEADER_TIMETZ;
          numlen = 16;
          (buffer, offset) = reserve_from_buffer junk buffer numlen;
          buffer = poke buffer offset (le64 time)
      in Some (poke buffer (offset + 8) (le32 zone),
               GTENTRY_IS_GTYPE OR of_nat (padlen + numlen + GT_HEADER_SIZE)))"
| "np_serialize_extended_type junk buffer (GTV_INTERVAL time day month) =
     (let (buffer, padlen) = np_serialize_header junk buffer GT_HEADER_INTERVAL;
          numlen = 8 + 2 * 4;
          (buffer, offset) = reserve_from_buffer junk buffer numlen;
          buffer = poke buffer offset (le64 time);
          buffer = poke buffer (offset + 8) (le32 day)
      in Some (poke buffer (offset + 8 + 4) (le32 month),
               GTENTRY_IS_GTYPE OR of_nat (padlen + numlen + GT_HEADER_SIZE)))"
| "np_serialize_extended_type junk buffer (GTV_INET inet) =
     (let (buffer, padlen) = np_serialize_header junk buffer GT_HEADER_INET;
          numlen = 22;
          (buffer, offset) = reserve_from_buffer junk buffer numlen
      in Some (poke buffer offset (take numlen inet),
               GTENTRY_IS_GTYPE OR of_nat (padlen + numlen + GT_HEADER_SIZE)))"
| "np_serialize_extended_type junk buffer (GTV_CIDR inet) =
     (let (buffer, padlen) = np_serialize_header junk buffer GT_HEADER_CIDR;
          numlen = 22;
          (buffer, offset) = reserve_from_buffer junk buffer numlen
      in Some (poke buffer offset (take numlen inet),
               GTENTRY_IS_GTYPE OR of_nat (padlen + numlen + GT_HEADER_SIZE)))"
| "np_serialize_extended_type junk buffer (GTV_MAC mac) =
     (let (buffer, padlen) = np_serialize_header junk buffer GT_HEADER_MAC;
          numlen = 6;
          (buffer, offset) = reserve_from_buffer junk buffer numlen
      in Some (poke buffer offset (take numlen mac),
               GTENTRY_IS_GTYPE OR of_nat (padlen + numlen + GT_HEADER_SIZE)))"
| "np_serialize_extended_type junk buffer (GTV_MAC8 mac) =
     (let (buffer, padlen) = np_serialize_header junk buffer GT_HEADER_MAC8;
          numlen = 8;
          (buffer, offset) = reserve_from_buffer junk buffer numlen
      in Some (poke buffer offset (take numlen mac),
               GTENTRY_IS_GTYPE OR of_nat (padlen + numlen + GT_HEADER_SIZE)))"
| "np_serialize_extended_type junk buffer _ = None"

definition np_deserialize_extended_type ::
    "memory \<Rightarrow> nat \<Rightarrow> 32 word \<Rightarrow> gtype_error + gtype_value" where
  "np_deserialize_extended_type mem base_addr offset =
     (let base = base_addr + intalign (unat offset);
          agt_header = ld32 mem base;
          data = base + GT_HEADER_SIZE
      in if agt_header = GT_HEADER_INTEGER then Inr (GTV_INTEGER (ld64 mem data))
         else if agt_header = GT_HEADER_FLOAT then Inr (GTV_FLOAT (ld64 mem data))
         else if agt_header = GT_HEADER_TIMESTAMP then Inr (GTV_TIMESTAMP (ld64 mem data))
         else if agt_header = GT_HEADER_TIMESTAMPTZ then Inr (GTV_TIMESTAMPTZ (ld64 mem data))
         else if agt_header = GT_HEADER_DATE then Inr (GTV_DATE (ld32 mem data))
         else if agt_header = GT_HEADER_TIME then Inr (GTV_TIME (ld64 mem data))
         else if agt_header = GT_HEADER_TIMETZ
           then Inr (GTV_TIMETZ (ld64 mem data) (ld32 mem (data + 8)))
         else if agt_header = GT_HEADER_INTERVAL
           then Inr (GTV_INTERVAL (ld64 mem data) (ld32 mem (data + 8)) (ld32 mem (data + 8 + 4)))
         else if agt_header = GT_HEADER_INET then Inr (GTV_INET (load_bytes mem data 22))
         else if agt_header = GT_HEADER_CIDR then Inr (GTV_CIDR (load_bytes mem data 22))
         else if agt_header = GT_HEADER_MAC then Inr (GTV_MAC (load_bytes mem data 6))
         else if agt_header = GT_HEADER_MAC8 then Inr (GTV_MAC8 (load_bytes mem data 8))
         else Inl InvalidExtendedHeader)"

subsection \<open>What is written\<close>

text \<open>The header word and the value bytes of an extended scalar placed at position \<open>p\<close>.\<close>

fun ext_parts :: "memory \<Rightarrow> nat \<Rightarrow> gtype_value \<Rightarrow> (32 word \<times> bytes) option" where
  "ext_parts junk p (GTV_INTEGER i) = Some (GT_HEADER_INTEGER, le64 i)"
| "ext_parts junk p (GTV_FLOAT f) = Some (GT_HEADER_FLOAT, le64 f)"
| "ext_parts junk p (GTV_TIMESTAMP i) = Some (GT_HEADER_TIMESTAMP, le64 i)"
| "ext_parts junk p (GTV_TIMESTAMPTZ i) = Some (GT_HEADER_TIMESTAMPTZ, le64 i)"
| "ext_parts junk p (GTV_DATE d) = Some (GT_HEADER_DATE, le32 d)"
| "ext_parts junk p (GTV_TIME i) = Some (GT_HEADER_TIME, le64 i)"
| "ext_parts junk p (GTV_TIMETZ t z) =
     Some (GT_HEADER_TIMETZ, le64 t @ le32 z @ load_bytes junk (intalign p + 16) 4)"
| "ext_parts junk p (GTV_INTERVAL t d m) = Some (GT_HEADER_INTERVAL, le64 t @ le32 d @ le32 m)"
| "ext_parts junk p (GTV_INET b) = Some (GT_HEADER_INET, b)"
| "ext_parts junk p (GTV_CIDR b) = Some (GT_HEADER_CIDR, b)"
| "ext_parts junk p (GTV_MAC b) = Some (GT_HEADER_MAC, b)"
| "ext_parts junk p (GTV_MAC8 b) = Some (GT_HEADER_MAC8, b)"
| "ext_parts junk p _ = None"

text \<open>The fixed sizes of the network address structs.\<close>

fun addr_ok :: "gtype_value \<Rightarrow> bool" where
  "addr_ok (GTV_INET b) \<longleftrightarrow> length b = 22"
| "addr_ok (GTV_CIDR b) \<longleftrightarrow> length b = 22"
| "addr_ok (GTV_MAC b) \<longleftrightarrow> length b = 6"
| "addr_ok (GTV_MAC8 b) \<longleftrightarrow> length b = 8"
| "addr_ok _ \<longleftrightarrow> True"

definition ext_bytes :: "memory \<Rightarrow> nat \<Rightarrow> 32 word \<Rightarrow> bytes \<Rightarrow> bytes" where
  "ext_bytes junk p h data = zeros (padlen p) @ le32 h @ data"

lemma np_serialize_header [simp]:
  "np_serialize_header junk buffer type =
     (buffer @ zeros (padlen (length buffer)) @ le32 type, padlen (length buffer))"
  by (simp add: np_serialize_header_def reserve_from_buffer_def GT_HEADER_SIZE_def Let_def)
    (simp add: poke_def)

lemma padlen_add8: "p + (padlen p + k) = intalign p + k"
  using padlen_align [of p] by simp

text \<open>The serialiser appends these bytes, and its entry is the tag with the length of what it
  appended, except for a timestamp, whose entry leaves the padding out.\<close>

definition ext_entry_len :: "nat \<Rightarrow> gtype_value \<Rightarrow> bytes \<Rightarrow> nat" where
  "ext_entry_len p v data =
     (case v of GTV_TIMESTAMP _ \<Rightarrow> 12 | _ \<Rightarrow> padlen p + length data + 4)"

lemma np_serialize_extended_closed:
  assumes "addr_ok v"
  shows "np_serialize_extended_type junk buffer v =
     (case ext_parts junk (length buffer) v of None \<Rightarrow> None
      | Some (h, data) \<Rightarrow>
          Some (buffer @ ext_bytes junk (length buffer) h data,
                GTENTRY_IS_GTYPE OR of_nat (ext_entry_len (length buffer) v data)))"
  using assms
  by (cases v)
    (auto simp: ext_bytes_def reserve_from_buffer_def Let_def poke_def ext_entry_len_def
      GT_HEADER_SIZE_def drop_load_bytes padlen_add8 add.assoc add.left_commute
      simp del: of_nat_add)

subsection \<open>Reading back what was written\<close>

lemma np_deserialize_extended:
  assumes "ext_parts junk p v = Some (h, data)" and "addr_ok v"
    and "holds mem (base_addr + intalign (unat offset)) (le32 h @ data)"
  shows "np_deserialize_extended_type mem base_addr offset = Inr v"
proof -
  let ?b = "base_addr + intalign (unat offset)"
  have h: "ld32 mem ?b = h" and d: "holds mem (?b + 4) data"
    using assms(3) by (simp_all add: holds_append mem_simps)
  show ?thesis
    using assms(1,2) d
    by (cases v)
      (auto simp: np_deserialize_extended_type_def GT_HEADER_SIZE_def h gt_headers Let_def
        holds_append mem_simps add.assoc dest: load_bytes_holds)
qed

end
