(* ===== verification/GType_Convert.thy ===== *)
theory GType_Convert
  imports GType_Ext
begin

text \<open>
  The serialiser of \<open>gtype\<close> values (\<open>convert_to_gtype\<close> and its subroutines in
  \<open>src/src/backend/utils/adt/gtype_util.c\<close>), first as the code has it, with a buffer in which
  the entries of a container are reserved and overwritten while its children are appended,
  and then the layout it produces, written down as a function of the value alone.
\<close>

fun convert_gtype_scalar :: "memory \<Rightarrow> bytes \<Rightarrow> gtype_value \<Rightarrow> gtype_error + bytes \<times> gtentry" where
  "convert_gtype_scalar junk buffer GTV_NULL = Inr (buffer, GTENTRY_IS_NULL)"
| "convert_gtype_scalar junk buffer (GTV_STRING str) =
     Inr (append_to_buffer junk buffer str, of_nat (length str))"
| "convert_gtype_scalar junk buffer (GTV_NUMERIC numeric) =
     (let numlen = length numeric;
          (buffer, padlen) = pad_buffer_to_int junk buffer
      in Inr (append_to_buffer junk buffer numeric,
              GTENTRY_IS_NUMERIC OR of_nat (padlen + numlen)))"
| "convert_gtype_scalar junk buffer (GTV_BOOL boolean) =
     Inr (buffer, if boolean then GTENTRY_IS_BOOL_TRUE else GTENTRY_IS_BOOL_FALSE)"
| "convert_gtype_scalar junk buffer scalar_val =
     (case np_serialize_extended_type junk buffer scalar_val of
        None \<Rightarrow> Inl InvalidScalarType
      | Some (buffer, entry) \<Rightarrow> Inr (buffer, entry))"

text \<open>The step shared by the three loops: the running total, its limit, and the entry that is
  written over the reserved slot, every stride-th one as an end offset.\<close>

definition store_entry ::
    "gtype_error \<Rightarrow> nat \<Rightarrow> nat \<Rightarrow> nat \<Rightarrow> bytes \<Rightarrow> gtentry \<Rightarrow> gtype_error + nat \<times> bytes" where
  "store_entry too_big i totallen gtentry_offset buffer meta =
     (let len = unat (GTE_OFFLENFLD meta);
          totallen = totallen + len
      in sum_bind (check (\<not> totallen > unat GTENTRY_OFFLENMASK) too_big) (\<lambda>_.
           let meta = (if i mod GT_OFFSET_STRIDE = 0
                       then (meta AND GTENTRY_TYPEMASK) OR of_nat totallen OR GTENTRY_HAS_OFF
                       else meta)
           in Inr (totallen, copy_to_buffer buffer gtentry_offset (le32 meta))))"

fun convert_keys ::
    "memory \<Rightarrow> nat \<Rightarrow> nat \<Rightarrow> nat \<Rightarrow> bytes \<Rightarrow> gtype_value list \<Rightarrow> gtype_error + nat \<times> nat \<times> bytes" where
  "convert_keys junk i totallen gtentry_offset buffer [] = Inr (totallen, gtentry_offset, buffer)"
| "convert_keys junk i totallen gtentry_offset buffer (k # ks) =
     sum_bind (convert_gtype_scalar junk buffer k) (\<lambda>(buffer, meta).
     sum_bind (store_entry ObjectTooBig i totallen gtentry_offset buffer meta) (\<lambda>(totallen, buffer).
     convert_keys junk (Suc i) totallen (gtentry_offset + 4) buffer ks))"

lemma size_pair_value [termination_simp]:
  "p \<in> set ps \<Longrightarrow> size (pair_value p) < Suc (size_list (size_gtype_pair size) ps)"
  by (induction ps) (auto, (case_tac p; simp)+)

lemma size_pair_key [termination_simp]:
  "p \<in> set ps \<Longrightarrow> size (pair_key p) < Suc (size_list (size_gtype_pair size) ps)"
  by (induction ps) (auto, (case_tac p; simp)+)

lemma size_pair_values [termination_simp]:
  "size_list size (map pair_key ps) + size_list size (map pair_value ps)
     \<le> size_list (size_gtype_pair size) ps"
proof (induction ps)
  case (Cons p ps)
  then show ?case by (cases p) simp
qed simp

function (sequential)
  convert_gtype_value :: "memory \<Rightarrow> bytes \<Rightarrow> gtype_value \<Rightarrow> gtype_error + bytes \<times> gtentry" and
  convert_gtype_array :: "memory \<Rightarrow> bytes \<Rightarrow> bool \<Rightarrow> gtype_value list \<Rightarrow> gtype_error + bytes \<times> gtentry" and
  convert_gtype_object ::
    "memory \<Rightarrow> bytes \<Rightarrow> gtype_value gtype_pair list \<Rightarrow> gtype_error + bytes \<times> gtentry" and
  convert_elems ::
    "memory \<Rightarrow> gtype_error \<Rightarrow> nat \<Rightarrow> nat \<Rightarrow> nat \<Rightarrow> bytes \<Rightarrow> gtype_value list \<Rightarrow> gtype_error + bytes"
where
  "convert_gtype_value junk buffer (GTV_ARRAY raw_scalar elems) =
     convert_gtype_array junk buffer raw_scalar elems"
| "convert_gtype_value junk buffer (GTV_OBJECT pairs) = convert_gtype_object junk buffer pairs"
| "convert_gtype_value junk buffer (GTV_BINARY _ _) = Inl UnknownTypeToConvert"
| "convert_gtype_value junk buffer val = convert_gtype_scalar junk buffer val"
| "convert_gtype_array junk buffer raw_scalar elems =
     (let base_offset = length buffer;
          num_elems = length elems;
          (buffer, _) = pad_buffer_to_int junk buffer;
          header = of_nat num_elems OR GT_FARRAY;
          header = (if raw_scalar then header OR GT_FSCALAR else header);
          buffer = append_to_buffer junk buffer (le32 header);
          (buffer, gtentry_offset) = reserve_from_buffer junk buffer (4 * num_elems)
      in sum_bind (convert_elems junk ArrayTooBig 0 0 gtentry_offset buffer elems) (\<lambda>buffer.
         let totallen = length buffer - base_offset
         in sum_bind (check (\<not> totallen > unat GTENTRY_OFFLENMASK) ArrayTooBig) (\<lambda>_.
            Inr (buffer, GTENTRY_IS_CONTAINER OR of_nat totallen))))"
| "convert_gtype_object junk buffer pairs =
     (let base_offset = length buffer;
          num_pairs = length pairs;
          (buffer, _) = pad_buffer_to_int junk buffer;
          header = of_nat num_pairs OR GT_FOBJECT;
          buffer = append_to_buffer junk buffer (le32 header);
          (buffer, gtentry_offset) = reserve_from_buffer junk buffer (4 * num_pairs * 2)
      in sum_bind (convert_keys junk 0 0 gtentry_offset buffer (map pair_key pairs))
           (\<lambda>(totallen, gtentry_offset, buffer).
         sum_bind (convert_elems junk ObjectTooBig num_pairs totallen gtentry_offset buffer
                     (map pair_value pairs)) (\<lambda>buffer.
         let totallen = length buffer - base_offset
         in sum_bind (check (\<not> totallen > unat GTENTRY_OFFLENMASK) ObjectTooBig) (\<lambda>_.
            Inr (buffer, GTENTRY_IS_CONTAINER OR of_nat totallen)))))"
| "convert_elems junk too_big i totallen gtentry_offset buffer [] = Inr buffer"
| "convert_elems junk too_big i totallen gtentry_offset buffer (v # vs) =
     sum_bind (convert_gtype_value junk buffer v) (\<lambda>(buffer, meta).
     sum_bind (store_entry too_big i totallen gtentry_offset buffer meta) (\<lambda>(totallen, buffer).
     convert_elems junk too_big (Suc i) totallen (gtentry_offset + 4) buffer vs))"
  by pat_completeness auto
termination
proof (relation "measure (\<lambda>x. case x of
      Inl (Inl (_, _, v)) \<Rightarrow> 2 * size v
    | Inl (Inr (_, _, _, es)) \<Rightarrow> 2 * size_list size es + 1
    | Inr (Inl (_, _, ps)) \<Rightarrow> 2 * size_list (size_gtype_pair size) ps + 1
    | Inr (Inr (_, _, _, _, _, _, vs)) \<Rightarrow> 2 * size_list size vs)", goal_cases)
  case (5 junk buffer pairs)
  then show ?case using size_pair_values [of pairs] by auto
qed auto

text \<open>The outermost call: room for the varlena header, the value, and the size in the header.
  \<open>set_varsize\<close> is PostgreSQL's \<open>SET_VARSIZE\<close> on the whole datum.\<close>

definition convert_to_gtype ::
    "(bytes \<Rightarrow> nat \<Rightarrow> bytes) \<Rightarrow> memory \<Rightarrow> gtype_value \<Rightarrow> gtype_error + bytes" where
  "convert_to_gtype set_varsize junk val =
     (let (buffer, _) = reserve_from_buffer junk [] 4
      in sum_bind (convert_gtype_value junk buffer val) (\<lambda>(buffer, _).
         Inr (set_varsize buffer (length buffer))))"

end
