(* ===== verification/GType_Layout.thy ===== *)
theory GType_Layout
  imports GType_Convert
begin

text \<open>
  The layout of a serialised \<open>gtype\<close> value, as a function of the value and of the position it
  is placed at: its bytes, padding included, and its entry.  A container is its padding, its
  header, the entries of its children (keys before values in an object), and the bytes of
  the children one after the other.  The main lemma is that the serialiser, which reserves and
  overwrites, produces exactly this.
\<close>

definition scalar_repr :: "memory \<Rightarrow> nat \<Rightarrow> gtype_value \<Rightarrow> bytes \<times> gtentry" where
  "scalar_repr junk p v =
     (case v of
        GTV_NULL \<Rightarrow> ([], GTENTRY_IS_NULL)
      | GTV_STRING str \<Rightarrow> (str, GTENTRY_IS_STRING OR of_nat (length str))
      | GTV_NUMERIC n \<Rightarrow> (zeros (padlen p) @ n, GTENTRY_IS_NUMERIC OR of_nat (padlen p + length n))
      | GTV_BOOL b \<Rightarrow> ([], if b then GTENTRY_IS_BOOL_TRUE else GTENTRY_IS_BOOL_FALSE)
      | _ \<Rightarrow> (case ext_parts junk p v of
               Some (h, data) \<Rightarrow> (ext_bytes junk p h data,
                                  GTENTRY_IS_GTYPE OR of_nat (ext_entry_len p v data))
             | None \<Rightarrow> ([], GTENTRY_IS_NULL)))"

fun stride_entries :: "nat \<Rightarrow> nat \<Rightarrow> gtentry list \<Rightarrow> gtentry list" where
  "stride_entries i tot [] = []"
| "stride_entries i tot (m # ms) =
     (let tot = tot + unat (GTE_OFFLENFLD m)
      in (if i mod GT_OFFSET_STRIDE = 0
          then (m AND GTENTRY_TYPEMASK) OR of_nat tot OR GTENTRY_HAS_OFF else m)
         # stride_entries (Suc i) tot ms)"

definition lensum :: "gtentry list \<Rightarrow> nat" where
  "lensum ms = sum_list (map (\<lambda>m. unat (GTE_OFFLENFLD m)) ms)"

definition container_bytes :: "nat \<Rightarrow> 32 word \<Rightarrow> (bytes \<times> gtentry) list \<Rightarrow> bytes" where
  "container_bytes p header rs =
     zeros (padlen p) @ le32 header @ concat (map le32 (stride_entries 0 0 (map snd rs)))
       @ concat (map fst rs)"

definition array_header :: "bool \<Rightarrow> nat \<Rightarrow> 32 word" where
  "array_header raw n =
     (let header = of_nat n OR GT_FARRAY in if raw then header OR GT_FSCALAR else header)"

definition object_header :: "nat \<Rightarrow> 32 word" where
  "object_header n = of_nat n OR GT_FOBJECT"

lemma size_object_children:
  "size_list size (map pair_key ps @ map pair_value ps) < Suc (size_list (size_gtype_pair size) ps)"
  using size_pair_values [of ps] by simp

function (sequential) value_repr :: "memory \<Rightarrow> nat \<Rightarrow> gtype_value \<Rightarrow> bytes \<times> gtentry"
  and values_repr :: "memory \<Rightarrow> nat \<Rightarrow> gtype_value list \<Rightarrow> (bytes \<times> gtentry) list" where
  "value_repr junk p (GTV_ARRAY raw es) =
     (let bs = container_bytes p (array_header raw (length es))
                 (values_repr junk (intalign p + 4 + 4 * length es) es)
      in (bs, GTENTRY_IS_CONTAINER OR of_nat (length bs)))"
| "value_repr junk p (GTV_OBJECT ps) =
     (let bs = container_bytes p (object_header (length ps))
                 (values_repr junk (intalign p + 4 + 8 * length ps)
                    (map pair_key ps @ map pair_value ps))
      in (bs, GTENTRY_IS_CONTAINER OR of_nat (length bs)))"
| "value_repr junk p v = scalar_repr junk p v"
| "values_repr junk p [] = []"
| "values_repr junk p (v # vs) =
     (let r = value_repr junk p v in r # values_repr junk (p + length (fst r)) vs)"
  by pat_completeness auto
termination
  by (relation "measure (case_sum (\<lambda>(_, _, v). size v) (\<lambda>(_, _, vs). size_list size vs))")
    (use size_object_children in \<open>auto simp: o_def\<close>)

text \<open>The values that have a serialised form: struct sizes as in C, object keys strings, no
  serialised container inside, and strings and numerics within the 28-bit length field (the
  lexer and the input functions check that of strings).\<close>

fun gtv_ok :: "gtype_value \<Rightarrow> bool" where
  "gtv_ok (GTV_STRING s) \<longleftrightarrow> length s \<le> 0x0FFFFFFF"
| "gtv_ok (GTV_NUMERIC n) \<longleftrightarrow> length n + 3 \<le> 0x0FFFFFFF"
| "gtv_ok (GTV_ARRAY raw es) \<longleftrightarrow> length es \<le> 0x07FFFFFF \<and> (\<forall>e \<in> set es. gtv_ok e)"
| "gtv_ok (GTV_OBJECT ps) \<longleftrightarrow> length ps \<le> 0x07FFFFFF \<and>
     (\<forall>p \<in> set ps. is_string (pair_key p) \<and> gtv_ok (pair_key p) \<and> gtv_ok (pair_value p))"
| "gtv_ok (GTV_BINARY _ _) \<longleftrightarrow> False"
| "gtv_ok v \<longleftrightarrow> addr_ok v"

text \<open>Whether every container of the value stays within the 28-bit length field.\<close>

function (sequential) fits :: "memory \<Rightarrow> nat \<Rightarrow> gtype_value \<Rightarrow> bool"
  and all_fit :: "memory \<Rightarrow> nat \<Rightarrow> gtype_value list \<Rightarrow> bool" where
  "fits junk p (GTV_ARRAY raw es) \<longleftrightarrow>
     (let q = intalign p + 4 + 4 * length es; rs = values_repr junk q es
      in all_fit junk q es \<and> lensum (map snd rs) \<le> 0x0FFFFFFF
         \<and> length (fst (value_repr junk p (GTV_ARRAY raw es))) \<le> 0x0FFFFFFF)"
| "fits junk p (GTV_OBJECT ps) \<longleftrightarrow>
     (let q = intalign p + 4 + 8 * length ps; vs = map pair_key ps @ map pair_value ps
      in all_fit junk q vs \<and> lensum (map snd (values_repr junk q vs)) \<le> 0x0FFFFFFF
         \<and> length (fst (value_repr junk p (GTV_OBJECT ps))) \<le> 0x0FFFFFFF)"
| "fits junk p v \<longleftrightarrow> True"
| "all_fit junk p [] \<longleftrightarrow> True"
| "all_fit junk p (v # vs) \<longleftrightarrow>
     fits junk p v \<and> all_fit junk (p + length (fst (value_repr junk p v))) vs"
  by pat_completeness auto
termination
  by (relation "measure (case_sum (\<lambda>(_, _, v). size v) (\<lambda>(_, _, vs). size_list size vs))")
    (use size_object_children in \<open>auto simp: o_def\<close>)

subsection \<open>Lengths\<close>

lemma length_stride_entries [simp]: "length (stride_entries i tot ms) = length ms"
  by (induction ms arbitrary: i tot) (simp_all add: Let_def)

lemma length_values_repr [simp]: "length (values_repr junk p vs) = length vs"
  by (induction vs arbitrary: p) (simp_all add: Let_def)

lemma lensum_simps [simp]:
  "lensum [] = 0" "lensum (m # ms) = unat (GTE_OFFLENFLD m) + lensum ms"
  "lensum (ms @ ms') = lensum ms + lensum ms'"
  by (simp_all add: lensum_def)

lemma length_concat_le32 [simp]: "length (concat (map le32 ws)) = 4 * length ws"
  by (induction ws) simp_all

lemma length_container_bytes:
  "length (container_bytes p h rs) = padlen p + 4 + 4 * length rs + length (concat (map fst rs))"
  by (simp add: container_bytes_def)

lemma values_repr_append:
  "values_repr junk p (vs @ ws) =
     values_repr junk p vs
       @ values_repr junk (p + length (concat (map fst (values_repr junk p vs)))) ws"
  by (induction vs arbitrary: p) (simp_all add: Let_def add.assoc)

lemma all_fit_append:
  "all_fit junk p (vs @ ws) \<longleftrightarrow>
     all_fit junk p vs
       \<and> all_fit junk (p + length (concat (map fst (values_repr junk p vs)))) ws"
  by (induction vs arbitrary: p) (simp_all add: Let_def add.assoc)

lemma stride_entries_append:
  "stride_entries i tot (ms @ ms') =
     stride_entries i tot ms @ stride_entries (i + length ms) (tot + lensum ms) ms'"
  by (induction ms arbitrary: i tot) (simp_all add: Let_def add.assoc)

subsection \<open>The serialiser produces the layout\<close>

lemma convert_gtype_scalar_repr:
  assumes "IS_A_GTYPE_SCALAR v" "addr_ok v"
  shows "convert_gtype_scalar junk buffer v =
     Inr (buffer @ fst (scalar_repr junk (length buffer) v), snd (scalar_repr junk (length buffer) v))"
  using assms
  by (cases v) (simp_all add: scalar_repr_def np_serialize_extended_closed GTENTRY_IS_STRING_def
      del: np_serialize_extended_type.simps)

lemma store_entry_slot:
  assumes "length slot = 4"
  shows "store_entry e i tot (length pre) (pre @ slot @ post) m =
     (if tot + unat (GTE_OFFLENFLD m) \<le> 0x0FFFFFFF
      then Inr (tot + unat (GTE_OFFLENFLD m),
                pre @ le32 (hd (stride_entries i tot [m])) @ post)
      else Inl e)"
  using assms
  by (simp add: store_entry_def Let_def copy_to_buffer_def poke_append GTENTRY_OFFLENMASK_def)

lemma value_repr_scalar:
  "IS_A_GTYPE_SCALAR v \<Longrightarrow> value_repr junk p v = scalar_repr junk p v"
  by (cases v) simp_all

lemma fits_scalar: "IS_A_GTYPE_SCALAR v \<Longrightarrow> fits junk p v"
  by (cases v) simp_all

lemma all_fit_scalars: "\<forall>v \<in> set vs. IS_A_GTYPE_SCALAR v \<Longrightarrow> all_fit junk p vs"
  by (induction vs arbitrary: p) (simp_all add: fits_scalar)

text \<open>One round of a loop consumes one slot.\<close>

lemma store_entry_step:
  assumes "length slots = 4 * Suc n" and "tot' = tot + unat (GTE_OFFLENFLD m)"
  shows "\<exists>e ss. length ss = 4 * n
    \<and> (\<forall>ms. stride_entries i tot (m # ms) = e # stride_entries (Suc i) tot' ms)
    \<and> (\<forall>err dat. store_entry err i tot (length pre) (pre @ slots @ dat) m =
         (if tot' \<le> 0x0FFFFFFF then Inr (tot', (pre @ le32 e) @ ss @ dat) else Inl err))"
proof (intro exI conjI allI)
  let ?e = "hd (stride_entries i tot [m])"
  fix err dat
  show "store_entry err i tot (length pre) (pre @ slots @ dat) m =
       (if tot' \<le> 0x0FFFFFFF then Inr (tot', (pre @ le32 ?e) @ drop 4 slots @ dat) else Inl err)"
    using store_entry_slot [of "take 4 slots" err i tot pre "drop 4 slots @ dat" m] assms
    by (simp add: append.assoc [of "take 4 slots", symmetric])
qed (use assms in \<open>simp_all add: Let_def\<close>)

lemma convert_keys_repr:
  assumes "\<forall>k \<in> set ks. IS_A_GTYPE_SCALAR k \<and> addr_ok k" and "length slots = 4 * length ks"
    and "tot \<le> 0x0FFFFFFF"
  shows "convert_keys junk i tot (length pre) (pre @ slots @ dat) ks =
     (let rs = values_repr junk (length (pre @ slots @ dat)) ks; ms = map snd rs
      in if tot + lensum ms \<le> 0x0FFFFFFF
         then Inr (tot + lensum ms, length pre + 4 * length ks,
                   pre @ concat (map le32 (stride_entries i tot ms)) @ dat @ concat (map fst rs))
         else Inl ObjectTooBig)"
  using assms
proof (induction ks arbitrary: i tot pre slots dat)
  case (Cons k ks)
  define p where "p = length (pre @ slots @ dat)"
  obtain b m where bm: "scalar_repr junk p k = (b, m)" by fastforce
  define tot' where "tot' = tot + unat (GTE_OFFLENFLD m)"
  have "length slots = 4 * Suc (length ks)" using Cons.prems(2) by simp
  then obtain e ss where ss: "length ss = 4 * length ks"
    and e: "\<forall>ms. stride_entries i tot (m # ms) = e # stride_entries (Suc i) tot' ms"
    and st: "\<forall>err dat. store_entry err i tot (length pre) (pre @ slots @ dat) m =
       (if tot' \<le> 0x0FFFFFFF then Inr (tot', (pre @ le32 e) @ ss @ dat) else Inl err)"
    using store_entry_step [OF _ tot'_def] by blast
  have k: "convert_gtype_scalar junk (pre @ slots @ dat) k = Inr (pre @ slots @ dat @ b, m)"
    using Cons.prems(1) bm by (simp add: convert_gtype_scalar_repr p_def)
  have rs: "values_repr junk p (k # ks) = (b, m) # values_repr junk (p + length b) ks"
    using Cons.prems(1) bm by (simp add: value_repr_scalar)
  have p: "length ((pre @ le32 e) @ ss @ (dat @ b)) = p + length b"
    using ss Cons.prems(2) by (simp add: p_def)
  show ?case
  proof (cases "tot' \<le> 0x0FFFFFFF")
    case True
    then show ?thesis
      using Cons.IH [of ss tot' "Suc i" "pre @ le32 e" "dat @ b"] Cons.prems(1) ss
      unfolding p_def [symmetric] rs p
      by (simp add: k st e tot'_def Let_def add_ac del: stride_entries.simps)
  next
    case False
    then show ?thesis
      unfolding p_def [symmetric] rs
      by (simp add: k st tot'_def Let_def add_ac del: stride_entries.simps)
  qed
qed simp


text \<open>A serialisation that returns the given buffer and entry, or raises an error.\<close>

definition produces :: "'e + 'a \<Rightarrow> bool \<Rightarrow> 'a \<Rightarrow> bool" where
  "produces r ok x \<longleftrightarrow> (if ok then r = Inr x else isl r)"

lemma produces_Inr: "produces r ok x \<Longrightarrow> r = Inr y \<longleftrightarrow> ok \<and> y = x"
  by (auto simp: produces_def isl_def split: if_splits)

lemma produces_bind:
  assumes "produces r ok x" and "ok \<Longrightarrow> produces (f x) ok' y"
  shows "produces (sum_bind r f) (ok \<and> ok') y"
  using assms by (cases r) (auto simp: produces_def split: if_splits)

lemma produces_check: "produces (sum_bind (check ok e) (\<lambda>_. Inr x)) ok x"
  by (simp add: produces_def check_def)

definition value_produced :: "memory \<Rightarrow> bytes \<Rightarrow> gtype_value \<Rightarrow> bytes \<times> gtentry" where
  "value_produced junk buffer v =
     (buffer @ fst (value_repr junk (length buffer) v), snd (value_repr junk (length buffer) v))"

lemma convert_elems_step:
  assumes val: "produces (convert_gtype_value junk (pre @ slots @ dat) v)
       (fits junk p v) (value_produced junk (pre @ slots @ dat) v)"
    and IH: "\<And>b m tot' pre' slots' dat'.
       convert_gtype_value junk (pre @ slots @ dat) v = Inr (b, m) \<Longrightarrow>
       store_entry err i tot (length pre) b m = Inr (tot', pre' @ slots' @ dat') \<Longrightarrow>
       length pre' = length pre + 4 \<Longrightarrow> length slots' = 4 * length vs \<Longrightarrow> tot' \<le> 0x0FFFFFFF \<Longrightarrow>
       produces (convert_elems junk err (Suc i) tot' (length pre') (pre' @ slots' @ dat') vs)
        (all_fit junk (length (pre' @ slots' @ dat')) vs
          \<and> tot' + lensum (map snd (values_repr junk (length (pre' @ slots' @ dat')) vs)) \<le> 0x0FFFFFFF)
        (pre' @ concat (map le32 (stride_entries (Suc i) tot'
             (map snd (values_repr junk (length (pre' @ slots' @ dat')) vs)))) @ dat'
           @ concat (map fst (values_repr junk (length (pre' @ slots' @ dat')) vs)))"
    and slots: "length slots = 4 * Suc (length vs)" and p: "p = length (pre @ slots @ dat)"
  shows "produces (convert_elems junk err i tot (length pre) (pre @ slots @ dat) (v # vs))
     (all_fit junk p (v # vs) \<and> tot + lensum (map snd (values_repr junk p (v # vs))) \<le> 0x0FFFFFFF)
     (pre @ concat (map le32 (stride_entries i tot (map snd (values_repr junk p (v # vs))))) @ dat
        @ concat (map fst (values_repr junk p (v # vs))))"
proof -
  obtain b m where bm: "value_repr junk p v = (b, m)" by fastforce
  define tot' where "tot' = tot + unat (GTE_OFFLENFLD m)"
  obtain e ss where ss: "length ss = 4 * length vs"
    and e: "\<forall>ms. stride_entries i tot (m # ms) = e # stride_entries (Suc i) tot' ms"
    and st: "\<forall>err dat. store_entry err i tot (length pre) (pre @ slots @ dat) m =
       (if tot' \<le> 0x0FFFFFFF then Inr (tot', (pre @ le32 e) @ ss @ dat) else Inl err)"
    using store_entry_step [OF slots tot'_def] by blast
  have rs: "values_repr junk p (v # vs) = (b, m) # values_repr junk (p + length b) vs"
    by (simp add: bm)
  have vp: "value_produced junk (pre @ slots @ dat) v = (pre @ slots @ dat @ b, m)"
    using bm by (simp add: value_produced_def p)
  have p': "length ((pre @ le32 e) @ ss @ (dat @ b)) = p + length b"
    using ss slots by (simp add: p)
  show ?thesis
  proof (cases "fits junk p v \<and> tot' \<le> 0x0FFFFFFF")
    case True
    then have "convert_gtype_value junk (pre @ slots @ dat) v = Inr (pre @ slots @ dat @ b, m)"
      using val vp by (simp add: produces_def)
    with True show ?thesis
      using IH [of "pre @ slots @ dat @ b" m tot' "pre @ le32 e" ss "dat @ b"] ss unfolding rs p'
      by (simp add: st e bm tot'_def add_ac del: stride_entries.simps)
  next
    case False
    then show ?thesis
      using val vp unfolding rs
      by (cases "fits junk p v") (auto simp: produces_def bm st tot'_def sum_bind_eq_Inl
          isl_def split: if_splits)
  qed
qed


lemma produces_container:
  assumes "produces r (A \<and> tot \<le> 0x0FFFFFFF) (buffer @ bs)"
  shows "produces (sum_bind r (\<lambda>b.
            let totallen = length b - length buffer
            in sum_bind (check (\<not> totallen > unat GTENTRY_OFFLENMASK) err)
                 (\<lambda>_. Inr (b, GTENTRY_IS_CONTAINER OR of_nat totallen))))
     (A \<and> tot \<le> 0x0FFFFFFF \<and> length bs \<le> 0x0FFFFFFF)
     (buffer @ bs, GTENTRY_IS_CONTAINER OR of_nat (length bs))"
  using assms
  by (cases r) (auto simp: produces_def GTENTRY_OFFLENMASK_def check_def split: if_splits)

lemma produces_convert_array:
  assumes "produces (convert_elems junk ArrayTooBig 0 0 (length pre) (pre @ slots) es)
       (all_fit junk q es \<and> lensum (map snd (values_repr junk q es)) \<le> 0x0FFFFFFF)
       (pre @ concat (map le32 (stride_entries 0 0 (map snd (values_repr junk q es))))
           @ concat (map fst (values_repr junk q es)))"
    and "pre = buffer @ zeros (padlen (length buffer)) @ le32 (array_header raw (length es))"
    and "slots = load_bytes junk (length pre) (4 * length es)" and "q = length (pre @ slots)"
  shows "produces (convert_gtype_array junk buffer raw es)
     (fits junk (length buffer) (GTV_ARRAY raw es)) (value_produced junk buffer (GTV_ARRAY raw es))"
proof -
  have q: "q = intalign (length buffer) + 4 + 4 * length es"
    using assms(2-4) padlen_align [of "length buffer"] by simp
  let ?bs = "container_bytes (length buffer) (array_header raw (length es)) (values_repr junk q es)"
  have "produces (convert_elems junk ArrayTooBig 0 0 (length pre) (pre @ slots) es)
     (all_fit junk q es \<and> lensum (map snd (values_repr junk q es)) \<le> 0x0FFFFFFF) (buffer @ ?bs)"
    using assms(1,2) by (simp add: container_bytes_def)
  from produces_container [OF this, of ArrayTooBig] show ?thesis
    using assms(2,3)
    by (simp add: value_produced_def reserve_from_buffer_def Let_def array_header_def q add.assoc)
qed


lemma produces_convert_object:
  fixes ps :: "gtype_value gtype_pair list"
  defines "n \<equiv> length ps" and "ks \<equiv> map pair_key ps" and "vs \<equiv> map pair_value ps"
  assumes "\<And>tot off b. convert_keys junk 0 0 (length pre) (pre @ slots) ks = Inr (tot, off, b) \<Longrightarrow>
       tot = lensum (map snd (values_repr junk q ks)) \<Longrightarrow> tot \<le> 0x0FFFFFFF \<Longrightarrow>
       off = length pre + 4 * n \<Longrightarrow>
       b = (pre @ concat (map le32 (stride_entries 0 0 (map snd (values_repr junk q ks)))))
           @ drop (4 * n) slots @ concat (map fst (values_repr junk q ks)) \<Longrightarrow>
       produces (convert_elems junk ObjectTooBig n tot off b vs)
       (all_fit junk (length b) vs \<and> tot + lensum (map snd (values_repr junk (length b) vs)) \<le> 0x0FFFFFFF)
       ((pre @ concat (map le32 (stride_entries 0 0 (map snd (values_repr junk q ks)))))
          @ concat (map le32 (stride_entries n tot (map snd (values_repr junk (length b) vs))))
          @ concat (map fst (values_repr junk q ks))
          @ concat (map fst (values_repr junk (length b) vs)))"
    and keys: "\<forall>k \<in> set ks. IS_A_GTYPE_SCALAR k \<and> addr_ok k"
    and pre: "pre = buffer @ zeros (padlen (length buffer)) @ le32 (object_header n)"
    and slots: "slots = load_bytes junk (length pre) (4 * n * 2)" and q: "q = length (pre @ slots)"
  shows "produces (convert_gtype_object junk buffer ps)
     (fits junk (length buffer) (GTV_OBJECT ps)) (value_produced junk buffer (GTV_OBJECT ps))"
proof -
  have q': "q = intalign (length buffer) + 4 + 8 * n"
    using pre slots q padlen_align [of "length buffer"] by simp
  define krs where "krs = values_repr junk q ks"
  define kb where "kb = concat (map fst krs)"
  define vrs where "vrs = values_repr junk (q + length kb) vs"
  define tot where "tot = lensum (map snd krs)"
  have all: "values_repr junk q (ks @ vs) = krs @ vrs"
    by (simp add: values_repr_append krs_def vrs_def kb_def)
  have fit: "all_fit junk q (ks @ vs) \<longleftrightarrow> all_fit junk (q + length kb) vs"
    using keys by (simp add: all_fit_append all_fit_scalars krs_def kb_def)
  let ?bs = "container_bytes (length buffer) (object_header n) (krs @ vrs)"
  have split: "pre @ slots = pre @ take (4 * n) slots @ drop (4 * n) slots" by simp
  have keys': "convert_keys junk 0 0 (length pre) (pre @ slots) ks =
      (if tot \<le> 0x0FFFFFFF then Inr (tot, length pre + 4 * n,
         pre @ concat (map le32 (stride_entries 0 0 (map snd krs))) @ drop (4 * n) slots @ kb)
       else Inl ObjectTooBig)"
    unfolding split
    using convert_keys_repr [OF keys, of "take (4 * n) slots" 0 junk 0 pre "drop (4 * n) slots"]
    by (simp add: slots n_def ks_def krs_def kb_def tot_def q Let_def)
  have len: "length (pre @ concat (map le32 (stride_entries 0 0 (map snd krs)))
      @ drop (4 * n) slots @ kb) = q + length kb"
    using slots q by (simp add: krs_def ks_def n_def)
  have main: "produces
     (sum_bind (convert_keys junk 0 0 (length pre) (pre @ slots) ks) (\<lambda>(tot, off, b).
        convert_elems junk ObjectTooBig n tot off b vs))
     (all_fit junk q (ks @ vs) \<and> lensum (map snd (krs @ vrs)) \<le> 0x0FFFFFFF) (buffer @ ?bs)"
  proof (cases "tot \<le> 0x0FFFFFFF")
    case True
    let ?b = "pre @ concat (map le32 (stride_entries 0 0 (map snd krs))) @ drop (4 * n) slots @ kb"
    have b: "length ?b = q + length kb" by (rule len)
    have "produces (convert_elems junk ObjectTooBig n tot (length pre + 4 * n) ?b vs)
       (all_fit junk (q + length kb) vs \<and> tot + lensum (map snd vrs) \<le> 0x0FFFFFFF)
       ((pre @ concat (map le32 (stride_entries 0 0 (map snd krs))))
          @ concat (map le32 (stride_entries n tot (map snd vrs))) @ kb @ concat (map fst vrs))"
    proof (rule assms(4) [of tot "length pre + 4 * n" ?b, unfolded b, folded krs_def,
          folded kb_def, folded vrs_def tot_def])
      show "convert_keys junk 0 0 (length pre) (pre @ slots) ks = Inr (tot, length pre + 4 * n, ?b)"
        using keys' True by (simp only: if_True)
    qed (simp_all add: True)
    moreover have "buffer @ ?bs = (pre @ concat (map le32 (stride_entries 0 0 (map snd krs))))
          @ concat (map le32 (stride_entries n tot (map snd vrs))) @ kb @ concat (map fst vrs)"
      unfolding container_bytes_def pre map_append stride_entries_append
      by (simp add: tot_def kb_def) (simp add: krs_def ks_def n_def)
    ultimately show ?thesis using keys' True fit by (simp add: tot_def)
  next
    case False
    then show ?thesis using keys' by (auto simp: produces_def tot_def)
  qed
  have "convert_gtype_object junk buffer ps =
     sum_bind (sum_bind (convert_keys junk 0 0 (length pre) (pre @ slots) ks) (\<lambda>(tot, off, b).
        convert_elems junk ObjectTooBig n tot off b vs)) (\<lambda>b.
            let totallen = length b - length buffer
            in sum_bind (check (\<not> totallen > unat GTENTRY_OFFLENMASK) ObjectTooBig)
                 (\<lambda>_. Inr (b, GTENTRY_IS_CONTAINER OR of_nat totallen)))"
    using pre slots
    by (simp add: reserve_from_buffer_def Let_def object_header_def n_def ks_def vs_def
        sum_bind_assoc split_def add.assoc)
  with produces_container [OF main, of ObjectTooBig] show ?thesis
    by (simp add: value_produced_def Let_def n_def [symmetric] ks_def [symmetric]
        vs_def [symmetric] q' [symmetric] all)
qed


lemma gtv_ok_scalar: "IS_A_GTYPE_SCALAR v \<Longrightarrow> gtv_ok v \<Longrightarrow> addr_ok v"
  by (cases v) simp_all

lemma is_string_scalar: "is_string v \<Longrightarrow> IS_A_GTYPE_SCALAR v \<and> addr_ok v"
  by (cases v) simp_all

lemma gtv_ok_keys:
  "gtv_ok (GTV_OBJECT ps) \<Longrightarrow> \<forall>k \<in> set (map pair_key ps). IS_A_GTYPE_SCALAR k \<and> addr_ok k"
  by (auto simp: is_string_scalar)

lemma convert_gtype_value_scalar:
  assumes "IS_A_GTYPE_SCALAR v" "gtv_ok v"
  shows "convert_gtype_value junk buffer v = Inr (value_produced junk buffer v)"
proof -
  have "convert_gtype_value junk buffer v = convert_gtype_scalar junk buffer v"
    using assms(1) by (cases v) simp_all
  then show ?thesis
    using assms by (simp add: convert_gtype_scalar_repr gtv_ok_scalar value_produced_def
        value_repr_scalar)
qed

lemma convert_produces:
  "gtv_ok v \<Longrightarrow>
     produces (convert_gtype_value junk buffer v) (fits junk (length buffer) v)
       (value_produced junk buffer v)"
  "gtv_ok (GTV_ARRAY raw es) \<Longrightarrow>
     produces (convert_gtype_array junk buffer raw es)
       (fits junk (length buffer) (GTV_ARRAY raw es)) (value_produced junk buffer (GTV_ARRAY raw es))"
  "gtv_ok (GTV_OBJECT ps) \<Longrightarrow>
     produces (convert_gtype_object junk buffer ps)
       (fits junk (length buffer) (GTV_OBJECT ps)) (value_produced junk buffer (GTV_OBJECT ps))"
  "\<lbrakk>\<forall>v \<in> set vs. gtv_ok v; buffer = pre @ slots @ dat; length slots = 4 * length vs;
     off = length pre; tot \<le> 0x0FFFFFFF\<rbrakk> \<Longrightarrow>
     produces (convert_elems junk err i tot off buffer vs)
       (all_fit junk (length buffer) vs
          \<and> tot + lensum (map snd (values_repr junk (length buffer) vs)) \<le> 0x0FFFFFFF)
       (pre @ concat (map le32 (stride_entries i tot (map snd (values_repr junk (length buffer) vs))))
          @ dat @ concat (map fst (values_repr junk (length buffer) vs)))"
proof (induction junk buffer v and junk buffer raw es and junk buffer ps
    and junk err i tot off buffer vs arbitrary: and and and pre slots dat
    rule: convert_gtype_value_convert_gtype_array_convert_gtype_object_convert_elems.induct)
  case (1 junk buffer raw es)
  show ?case unfolding convert_gtype_value.simps by (rule "1.IH" [OF "1.prems"])
next
  case (2 junk buffer ps)
  show ?case unfolding convert_gtype_value.simps by (rule "2.IH" [OF "2.prems"])
next
  case (5 junk buffer raw es)
  let ?pre = "buffer @ zeros (padlen (length buffer)) @ le32 (array_header raw (length es))"
  let ?slots = "load_bytes junk (length ?pre) (4 * length es)"
  have r: "(?pre @ ?slots, length ?pre) = reserve_from_buffer junk
      (append_to_buffer junk (buffer @ zeros (padlen (length buffer)))
        (le32 (if raw then (of_nat (length es) OR GT_FARRAY) OR GT_FSCALAR
               else of_nat (length es) OR GT_FARRAY))) (4 * length es)"
    by (simp add: reserve_from_buffer_def array_header_def Let_def add.assoc)
  have es: "\<forall>e \<in> set es. gtv_ok e" using "5.prems" by simp
  have "produces (convert_elems junk ArrayTooBig 0 0 (length ?pre) (?pre @ ?slots) es)
     (all_fit junk (length (?pre @ ?slots)) es
        \<and> 0 + lensum (map snd (values_repr junk (length (?pre @ ?slots)) es)) \<le> 0x0FFFFFFF)
     (?pre @ concat (map le32 (stride_entries 0 0
         (map snd (values_repr junk (length (?pre @ ?slots)) es))))
        @ [] @ concat (map fst (values_repr junk (length (?pre @ ?slots)) es)))"
    by (rule "5.IH" [where slots = ?slots and dat = "[]", OF refl refl refl pad_buffer_to_int [symmetric] refl refl refl refl r es])
      (simp_all add: array_header_def)
  then show ?case
    by (intro produces_convert_array [OF _ refl refl refl]) simp
next
  case (6 junk buffer ps)
  let ?n = "length ps" and ?ks = "map pair_key ps" and ?vs = "map pair_value ps"
  let ?pre = "buffer @ zeros (padlen (length buffer)) @ le32 (object_header (length ps))"
  let ?slots = "load_bytes junk (length ?pre) (4 * ?n * 2)"
  let ?q = "length (?pre @ ?slots)"
  let ?krs = "values_repr junk ?q ?ks"
  let ?done = "?pre @ concat (map le32 (stride_entries 0 0 (map snd ?krs)))"
  have r: "(?pre @ ?slots, length ?pre) = reserve_from_buffer junk
      (append_to_buffer junk (buffer @ zeros (padlen (length buffer)))
        (le32 (of_nat (length ps) OR GT_FOBJECT))) (4 * length ps * 2)"
    by (simp add: reserve_from_buffer_def object_header_def Let_def add.assoc)
  have vs: "\<forall>v \<in> set ?vs. gtv_ok v" using "6.prems" by auto
  show ?case
  proof (rule produces_convert_object [OF _ gtv_ok_keys [OF "6.prems"] refl refl refl], goal_cases)
    case (1 tot off b)
    show ?case
      by (rule "6.IH" [where pre = ?done and slots = "drop (4 * ?n) ?slots" and
            dat = "concat (map fst ?krs)",
            OF refl refl refl pad_buffer_to_int [symmetric] refl refl refl r 1(1) refl refl vs 1(5)])
        (use 1 in simp_all)
  qed
next
  case (7 junk err i tot off buffer)
  then show ?case by (simp add: produces_def)
next
  case (8 junk err i tot off buffer v vs)
  have slots: "length slots = 4 * Suc (length vs)" using "8.prems" by simp
  show ?case
    unfolding "8.prems"(2,4)
  proof (rule convert_elems_step [OF _ _ slots refl], goal_cases)
    case 1
    then show ?case using "8.IH"(1) "8.prems" by simp
  next
    case (2 b m tot' pre' slots' dat')
    then show ?case
      unfolding 2(3)
      by (intro "8.IH"(2) [unfolded "8.prems"(2,4), OF 2(1) refl 2(2) refl _ refl])
        (use 2(3) "8.prems" in simp_all)
  qed
qed (simp_all add: convert_gtype_value_scalar produces_def fits_scalar
      del: convert_gtype_value.simps)


text \<open>So the serialiser succeeds exactly on the values that fit, and then appends their layout.\<close>

lemma convert_gtype_value_eq:
  assumes "gtv_ok v"
  shows "convert_gtype_value junk buffer v = Inr (buffer', e) \<longleftrightarrow>
     fits junk (length buffer) v
       \<and> buffer' = buffer @ fst (value_repr junk (length buffer) v)
       \<and> e = snd (value_repr junk (length buffer) v)"
  using produces_Inr [OF convert_produces(1) [OF assms]] by (auto simp: value_produced_def)

end
