(* ===== verification/GType_Offsets.thy ===== *)
theory GType_Offsets
  imports GType_Layout
begin

text \<open>
  Random access to the children of a serialised container (\<open>get_gtype_offset\<close>,
  \<open>get_gtype_length\<close> and \<open>fill_gtype_value\<close> of \<open>src/src/backend/utils/adt/gtype_util.c\<close>).  An
  entry holds a length, except every 32nd, which holds an end offset; the lemmas show that the
  backward walk nevertheless finds the sum of the lengths of the children before.
\<close>

text \<open>\<open>agtc->header\<close> and \<open>agtc->children[i]\<close> of the container at an address.\<close>

definition container_header :: "memory \<Rightarrow> nat \<Rightarrow> 32 word" where
  "container_header mem agtc = ld32 mem agtc"

definition child :: "memory \<Rightarrow> nat \<Rightarrow> nat \<Rightarrow> gtentry" where
  "child mem agtc i = ld32 mem (agtc + 4 + 4 * i)"

text \<open>The loop runs over \<open>i = index - 1, \<dots>, 0\<close>; the argument is \<open>i + 1\<close>.\<close>

fun get_gtype_offset_loop :: "memory \<Rightarrow> nat \<Rightarrow> 32 word \<Rightarrow> nat \<Rightarrow> 32 word" where
  "get_gtype_offset_loop mem agtc offset 0 = offset"
| "get_gtype_offset_loop mem agtc offset (Suc i) =
     (let offset = offset + GTE_OFFLENFLD (child mem agtc i)
      in if GTE_HAS_OFF (child mem agtc i) then offset
         else get_gtype_offset_loop mem agtc offset i)"

definition get_gtype_offset :: "memory \<Rightarrow> nat \<Rightarrow> nat \<Rightarrow> 32 word" where
  "get_gtype_offset mem agtc index = get_gtype_offset_loop mem agtc 0 index"

definition get_gtype_length :: "memory \<Rightarrow> nat \<Rightarrow> nat \<Rightarrow> 32 word" where
  "get_gtype_length mem agtc index =
     (if GTE_HAS_OFF (child mem agtc index)
      then let off = get_gtype_offset mem agtc index
           in GTE_OFFLENFLD (child mem agtc index) - off
      else GTE_OFFLENFLD (child mem agtc index))"

text \<open>PostgreSQL's \<open>pnstrdup\<close>: the bytes up to a length or the first zero byte.\<close>

definition pnstrdup :: "memory \<Rightarrow> nat \<Rightarrow> nat \<Rightarrow> bytes" where
  "pnstrdup mem a n = takeWhile (\<lambda>b. b \<noteq> 0) (load_bytes mem a n)"

text \<open>\<open>varsize\<close> is PostgreSQL's \<open>VARSIZE\<close>: the length of the varlena at an address.\<close>

definition fill_gtype_value ::
    "(memory \<Rightarrow> nat \<Rightarrow> nat) \<Rightarrow> memory \<Rightarrow> nat \<Rightarrow> nat \<Rightarrow> nat \<Rightarrow> 32 word \<Rightarrow> gtype_error + gtype_value"
where
  "fill_gtype_value varsize mem container index base_addr offset =
     (let entry = child mem container index
      in if GTE_IS_NULL entry then Inr GTV_NULL
         else if GTE_IS_STRING entry then
           let string_val = base_addr + unat offset;
               string_len = get_gtype_length mem container index
           in Inr (GTV_STRING (pnstrdup mem string_val (unat string_len)))
         else if GTE_IS_NUMERIC entry then
           let numeric = base_addr + intalign (unat offset)
           in Inr (GTV_NUMERIC (load_bytes mem numeric (varsize mem numeric)))
         else if GTE_IS_GTYPE entry then np_deserialize_extended_type mem base_addr offset
         else if GTE_IS_BOOL_TRUE entry then Inr (GTV_BOOL True)
         else if GTE_IS_BOOL_FALSE entry then Inr (GTV_BOOL False)
         else Inr (GTV_BINARY (base_addr + intalign (unat offset))
                (unat (get_gtype_length mem container index)
                   - (intalign (unat offset) - unat offset))))"

subsection \<open>The entries of a container with lengths and offsets mixed\<close>

definition len_entry :: "gtentry \<Rightarrow> bool" where
  "len_entry m \<longleftrightarrow> (\<exists>t n. gtentry_tag t \<and> n \<le> 0x0FFFFFFF \<and> m = t OR of_nat n)"

lemma len_entryI [intro]: "gtentry_tag t \<Longrightarrow> n \<le> 0x0FFFFFFF \<Longrightarrow> len_entry (t OR of_nat n)"
  by (auto simp: len_entry_def)

lemma len_entry_tag [simp]: "gtentry_tag t \<Longrightarrow> len_entry t"
  using len_entryI [of t 0] by simp

lemma len_entry_not_off: "len_entry m \<Longrightarrow> \<not> GTE_HAS_OFF m"
  by (auto simp: len_entry_def length_entry(3))

lemma nth_stride_entries:
  "k < length ms \<Longrightarrow>
     stride_entries i tot ms ! k =
       (if (i + k) mod GT_OFFSET_STRIDE = 0
        then (ms ! k AND GTENTRY_TYPEMASK) OR of_nat (tot + lensum (take (Suc k) ms)) OR GTENTRY_HAS_OFF
        else ms ! k)"
proof (induction ms arbitrary: i tot k)
  case (Cons m ms)
  then show ?case by (cases k) (simp_all add: Let_def add.assoc del: of_nat_add)
qed simp

lemma lensum_take_mono: "j \<le> k \<Longrightarrow> lensum (take j ms) \<le> lensum (take k ms)"
  using take_add [of j "k - j" ms] by simp

lemma lensum_take_le: "lensum (take k ms) \<le> lensum ms"
  using lensum_simps(3) [of "take k ms" "drop k ms"] by simp

lemma lensum_take_Suc:
  "k < length ms \<Longrightarrow> lensum (take (Suc k) ms) = lensum (take k ms) + unat (GTE_OFFLENFLD (ms ! k))"
  by (simp add: take_Suc_conv_app_nth)

text \<open>A container whose entry array is the one the serialiser writes for the entries \<open>ms\<close>.\<close>

definition holds_entries :: "memory \<Rightarrow> nat \<Rightarrow> gtentry list \<Rightarrow> bool" where
  "holds_entries mem agtc ms \<longleftrightarrow>
     holds mem (agtc + 4) (concat (map le32 (stride_entries 0 0 ms)))
       \<and> lensum ms \<le> 0x0FFFFFFF \<and> (\<forall>m \<in> set ms. len_entry m)"

lemma holds_nth_le32:
  "holds mem a (concat (map le32 ws)) \<Longrightarrow> i < length ws \<Longrightarrow> ld32 mem (a + 4 * i) = ws ! i"
proof (induction ws arbitrary: a i)
  case (Cons w ws)
  then show ?case
    using Cons.IH [of "a + 4" "i - 1"]
    by (cases i) (auto simp: holds_append mem_simps add.assoc)
qed simp

lemma child_entry:
  assumes "holds_entries mem agtc ms" "k < length ms"
  shows "child mem agtc k = (if k mod GT_OFFSET_STRIDE = 0
        then (ms ! k AND GTENTRY_TYPEMASK) OR of_nat (lensum (take (Suc k) ms)) OR GTENTRY_HAS_OFF
        else ms ! k)"
  using holds_nth_le32 [of mem "agtc + 4" "stride_entries 0 0 ms" k] assms
  by (simp add: holds_entries_def child_def nth_stride_entries del: of_nat_add)

lemma child_type:
  assumes "holds_entries mem agtc ms" "k < length ms"
  shows "child mem agtc k AND GTENTRY_TYPEMASK = ms ! k AND GTENTRY_TYPEMASK"
  using assms lensum_take_le [of "Suc k" ms]
  by (simp add: child_entry offset_entry holds_entries_def)

lemma child_off:
  assumes "holds_entries mem agtc ms" "k < length ms"
  shows "GTE_HAS_OFF (child mem agtc k) \<longleftrightarrow> k mod GT_OFFSET_STRIDE = 0"
    and "GTE_OFFLENFLD (child mem agtc k) =
      (if k mod GT_OFFSET_STRIDE = 0 then of_nat (lensum (take (Suc k) ms)) else GTE_OFFLENFLD (ms ! k))"
  using assms lensum_take_le [of "Suc k" ms] len_entry_not_off [of "ms ! k"]
  by (simp_all add: child_entry offset_entry holds_entries_def)

lemma offset_loop_entries:
  assumes "holds_entries mem agtc ms" "k \<le> length ms"
  shows "get_gtype_offset_loop mem agtc off k = off + of_nat (lensum (take k ms))"
  using assms(2)
proof (induction k arbitrary: off)
  case (Suc k)
  then have k: "k < length ms" by simp
  show ?case
    using Suc k lensum_take_Suc [OF k]
    by (simp add: child_off [OF assms(1)] Let_def)
qed simp

text \<open>The offset of a child is the sum of the lengths of the ones before it.\<close>

lemma get_gtype_offset_entries:
  assumes "holds_entries mem agtc ms" "k \<le> length ms"
  shows "get_gtype_offset mem agtc k = of_nat (lensum (take k ms))"
  using offset_loop_entries [OF assms] by (simp add: get_gtype_offset_def)

lemma get_gtype_length_entries:
  assumes "holds_entries mem agtc ms" "k < length ms"
  shows "get_gtype_length mem agtc k = GTE_OFFLENFLD (ms ! k)"
  using assms lensum_take_Suc [OF assms(2)]
  by (simp add: get_gtype_length_def child_off [OF assms] get_gtype_offset_entries Let_def)

lemma advance_entries:
  assumes "holds_entries mem agtc ms" "k < length ms"
  shows "GTE_ADVANCE_OFFSET (of_nat (lensum (take k ms))) (child mem agtc k)
     = of_nat (lensum (take (Suc k) ms))"
  using assms lensum_take_Suc [OF assms(2)]
  by (simp add: GTE_ADVANCE_OFFSET_def child_off [OF assms])

lemma unat_lensum_take:
  assumes "holds_entries mem agtc ms"
  shows "unat (of_nat (lensum (take k ms)) :: 32 word) = lensum (take k ms)"
  using assms lensum_take_le [of k ms] by (simp add: holds_entries_def unat_small28)

end
