(* ===== verification/GType_Iterator.thy ===== *)
theory GType_Iterator
  imports GType_Offsets
begin

text \<open>
  The iterator over a serialised \<open>gtype\<close> (\<open>gtype_iterator_init\<close>, \<open>gtype_iterator_next\<close>, in
  \<open>src/src/backend/utils/adt/gtype_util.c\<close>) and the round trip with the serialiser.  The chain of
  \<open>parent\<close> pointers is a list with the current iterator first.  Every call returns a token, what
  it left in \<open>val\<close>, and the chain.
\<close>

datatype gtype_iterator_token =
    WGT_DONE | WGT_KEY | WGT_VALUE | WGT_ELEM
  | WGT_BEGIN_ARRAY | WGT_END_ARRAY | WGT_BEGIN_OBJECT | WGT_END_OBJECT

datatype gt_iterator_state =
  GTI_ARRAY_START | GTI_ARRAY_ELEM | GTI_OBJECT_START | GTI_OBJECT_KEY | GTI_OBJECT_VALUE

record gtype_iterator =
  it_container :: nat
  it_num_elems :: nat
  it_is_scalar :: bool
  it_data_proper :: nat
  it_curr_index :: nat
  it_curr_data_offset :: "32 word"
  it_curr_value_offset :: "32 word"
  it_state :: gt_iterator_state

text \<open>What a call leaves in \<open>val\<close>: the number of children when a container begins, nothing when
  it ends.\<close>

datatype iter_val = IterArray nat bool | IterObject nat | IterVal gtype_value | IterUnset

type_synonym iter_event = "gtype_iterator_token \<times> iter_val"

definition iterator_from_container :: "memory \<Rightarrow> nat \<Rightarrow> gtype_error + gtype_iterator" where
  "iterator_from_container mem c =
     (let header = container_header mem c;
          n = GTYPE_CONTAINER_SIZE header;
          children = c + 4;
          it = \<lparr>it_container = c, it_num_elems = n, it_is_scalar = False, it_data_proper = 0,
                it_curr_index = 0, it_curr_data_offset = 0, it_curr_value_offset = 0,
                it_state = GTI_ARRAY_START\<rparr>
      in if header AND (GT_FARRAY OR GT_FOBJECT) = GT_FARRAY
         then Inr (it \<lparr>it_data_proper := children + n * 4,
                       it_is_scalar := GTYPE_CONTAINER_IS_SCALAR header\<rparr>)
         else if header AND (GT_FARRAY OR GT_FOBJECT) = GT_FOBJECT
         then Inr (it \<lparr>it_data_proper := children + n * 4 * 2, it_state := GTI_OBJECT_START\<rparr>)
         else Inl UnknownContainerType)"

text \<open>The \<open>START\<close> cases of the switch, where a call begins on a new container and where the
  jump to \<open>recurse\<close> ends up after stepping into a child.\<close>

definition iterator_start ::
    "memory \<Rightarrow> gtype_iterator \<Rightarrow> gtype_error + gtype_iterator_token \<times> iter_val \<times> gtype_iterator" where
  "iterator_start mem it =
     (case it_state it of
        GTI_ARRAY_START \<Rightarrow>
          Inr (WGT_BEGIN_ARRAY, IterArray (it_num_elems it) (it_is_scalar it),
               it \<lparr>it_curr_index := 0, it_curr_data_offset := 0, it_curr_value_offset := 0,
                   it_state := GTI_ARRAY_ELEM\<rparr>)
      | GTI_OBJECT_START \<Rightarrow>
          Inr (WGT_BEGIN_OBJECT, IterObject (it_num_elems it),
               it \<lparr>it_curr_index := 0, it_curr_data_offset := 0,
                   it_curr_value_offset := get_gtype_offset mem (it_container it) (it_num_elems it),
                   it_state := GTI_OBJECT_KEY\<rparr>)
      | _ \<Rightarrow> Inl InvalidIteratorState)"

text \<open>A child was read: step into it if it is a container, or return it.\<close>

definition iterator_child ::
    "memory \<Rightarrow> bool \<Rightarrow> gtype_iterator_token \<Rightarrow> gtype_value \<Rightarrow> gtype_iterator list
       \<Rightarrow> gtype_error + gtype_iterator_token \<times> iter_val \<times> gtype_iterator list" where
  "iterator_child mem skip_nested tok val its =
     (case val of
        GTV_BINARY data len \<Rightarrow>
          if skip_nested then Inr (tok, IterVal val, its)
          else sum_bind (iterator_from_container mem data) (\<lambda>it.
               sum_bind (iterator_start mem it) (\<lambda>(tok, val, it). Inr (tok, val, it # its)))
      | _ \<Rightarrow> Inr (tok, IterVal val, its))"

fun gtype_iterator_next ::
    "(memory \<Rightarrow> nat \<Rightarrow> nat) \<Rightarrow> memory \<Rightarrow> gtype_iterator list \<Rightarrow> bool
       \<Rightarrow> gtype_error + gtype_iterator_token \<times> iter_val \<times> gtype_iterator list" where
  "gtype_iterator_next varsize mem [] skip_nested = Inr (WGT_DONE, IterUnset, [])"
| "gtype_iterator_next varsize mem (it # parents) skip_nested =
     (case it_state it of
        GTI_ARRAY_START \<Rightarrow>
          sum_bind (iterator_start mem it) (\<lambda>(tok, val, it). Inr (tok, val, it # parents))
      | GTI_ARRAY_ELEM \<Rightarrow>
          if it_curr_index it \<ge> it_num_elems it then Inr (WGT_END_ARRAY, IterUnset, parents)
          else sum_bind (fill_gtype_value varsize mem (it_container it) (it_curr_index it)
                 (it_data_proper it) (it_curr_data_offset it)) (\<lambda>val.
            let it = it \<lparr>it_curr_data_offset := GTE_ADVANCE_OFFSET (it_curr_data_offset it)
                            (child mem (it_container it) (it_curr_index it)),
                         it_curr_index := it_curr_index it + 1\<rparr>
            in iterator_child mem skip_nested WGT_ELEM val (it # parents))
      | GTI_OBJECT_START \<Rightarrow>
          sum_bind (iterator_start mem it) (\<lambda>(tok, val, it). Inr (tok, val, it # parents))
      | GTI_OBJECT_KEY \<Rightarrow>
          if it_curr_index it \<ge> it_num_elems it then Inr (WGT_END_OBJECT, IterUnset, parents)
          else sum_bind (fill_gtype_value varsize mem (it_container it) (it_curr_index it)
                 (it_data_proper it) (it_curr_data_offset it)) (\<lambda>val.
            if \<not> is_string val then Inl KeyNotString
            else Inr (WGT_KEY, IterVal val, it \<lparr>it_state := GTI_OBJECT_VALUE\<rparr> # parents))
      | GTI_OBJECT_VALUE \<Rightarrow>
          sum_bind (fill_gtype_value varsize mem (it_container it)
                 (it_curr_index it + it_num_elems it)
                 (it_data_proper it) (it_curr_value_offset it)) (\<lambda>val.
            let it = it \<lparr>it_state := GTI_OBJECT_KEY,
                         it_curr_data_offset := GTE_ADVANCE_OFFSET (it_curr_data_offset it)
                            (child mem (it_container it) (it_curr_index it)),
                         it_curr_value_offset := GTE_ADVANCE_OFFSET (it_curr_value_offset it)
                            (child mem (it_container it) (it_curr_index it + it_num_elems it)),
                         it_curr_index := it_curr_index it + 1\<rparr>
            in iterator_child mem skip_nested WGT_VALUE val (it # parents)))"

definition gtype_iterator_init :: "memory \<Rightarrow> nat \<Rightarrow> gtype_error + gtype_iterator list" where
  "gtype_iterator_init mem c = sum_bind (iterator_from_container mem c) (\<lambda>it. Inr [it])"

text \<open>The callers' loop \<open>while ((tok = gtype_iterator_next(&it, &v, false)) != WGT_DONE)\<close>, with the
  tokens it sees, for at most \<open>n\<close> calls.\<close>

fun iterate :: "(memory \<Rightarrow> nat \<Rightarrow> nat) \<Rightarrow> memory \<Rightarrow> nat \<Rightarrow> gtype_iterator list
    \<Rightarrow> (gtype_error + iter_event list) option" where
  "iterate varsize mem 0 its = None"
| "iterate varsize mem (Suc n) its =
     (case gtype_iterator_next varsize mem its False of
        Inl e \<Rightarrow> Some (Inl e)
      | Inr (tok, val, its) \<Rightarrow>
          if tok = WGT_DONE then Some (Inr [])
          else map_option (map_sum id (Cons (tok, val))) (iterate varsize mem n its))"

subsection \<open>The tokens of a value\<close>

function (sequential) value_events :: "gtype_iterator_token \<Rightarrow> gtype_value \<Rightarrow> iter_event list" where
  "value_events tok (GTV_ARRAY raw es) =
     (WGT_BEGIN_ARRAY, IterArray (length es) raw)
       # concat (map (value_events WGT_ELEM) es) @ [(WGT_END_ARRAY, IterUnset)]"
| "value_events tok (GTV_OBJECT ps) =
     (WGT_BEGIN_OBJECT, IterObject (length ps))
       # concat (map (\<lambda>p. (WGT_KEY, IterVal (pair_key p)) # value_events WGT_VALUE (pair_value p)) ps)
       @ [(WGT_END_OBJECT, IterUnset)]"
| "value_events tok v = [(tok, IterVal v)]"
  by pat_completeness auto
termination
  by (relation "measure (\<lambda>(_, v). size v)")
    (auto simp: size_pair_value less_Suc_eq_le [symmetric] dest: size_list_estimation' [OF _ order_refl])

lemma value_events_scalar: "IS_A_GTYPE_SCALAR v \<Longrightarrow> value_events tok v = [(tok, IterVal v)]"
  by (cases v) simp_all

subsection \<open>Values that can be read back\<close>

text \<open>Strings without a zero byte and numerics whose varlena header gives their length: the
  values that PostgreSQL's text and numeric types have.\<close>

fun readable :: "(memory \<Rightarrow> nat \<Rightarrow> nat) \<Rightarrow> gtype_value \<Rightarrow> bool" where
  "readable varsize (GTV_STRING s) \<longleftrightarrow> 0 \<notin> set s"
| "readable varsize (GTV_NUMERIC n) \<longleftrightarrow> (\<forall>mem a. holds mem a n \<longrightarrow> varsize mem a = length n)"
| "readable varsize (GTV_ARRAY raw es) \<longleftrightarrow> (\<forall>e \<in> set es. readable varsize e)"
| "readable varsize (GTV_OBJECT ps) \<longleftrightarrow>
     (\<forall>p \<in> set ps. readable varsize (pair_key p) \<and> readable varsize (pair_value p))"
| "readable varsize v \<longleftrightarrow> True"

text \<open>Timestamps stand at a multiple of four, where their entry has the right length.\<close>

function (sequential) stamps_aligned :: "memory \<Rightarrow> nat \<Rightarrow> gtype_value \<Rightarrow> bool"
  and stamps_aligned_list :: "memory \<Rightarrow> nat \<Rightarrow> gtype_value list \<Rightarrow> bool" where
  "stamps_aligned junk p (GTV_TIMESTAMP _) \<longleftrightarrow> p mod 4 = 0"
| "stamps_aligned junk p (GTV_ARRAY raw es) \<longleftrightarrow>
     stamps_aligned_list junk (intalign p + 4 + 4 * length es) es"
| "stamps_aligned junk p (GTV_OBJECT ps) \<longleftrightarrow>
     stamps_aligned_list junk (intalign p + 4 + 8 * length ps)
       (map pair_key ps @ map pair_value ps)"
| "stamps_aligned junk p v \<longleftrightarrow> True"
| "stamps_aligned_list junk p [] \<longleftrightarrow> True"
| "stamps_aligned_list junk p (v # vs) \<longleftrightarrow>
     stamps_aligned junk p v \<and> stamps_aligned_list junk (p + length (fst (value_repr junk p v))) vs"
  by pat_completeness auto
termination
  by (relation "measure (case_sum (\<lambda>(_, _, v). size v) (\<lambda>(_, _, vs). size_list size vs))")
    (use size_object_children in \<open>auto simp: o_def\<close>)

subsection \<open>Layout facts that reading relies on\<close>

text \<open>An entry that gives the true length of its bytes.\<close>

definition tight :: "bytes \<times> gtentry \<Rightarrow> bool" where
  "tight r \<longleftrightarrow> (\<exists>t. gtentry_tag t \<and> snd r = t OR of_nat (length (fst r)) \<and> length (fst r) \<le> 0x0FFFFFFF)"

lemma tightI:
  "gtentry_tag t \<Longrightarrow> e = t OR of_nat (length b) \<Longrightarrow> length b \<le> 0x0FFFFFFF \<Longrightarrow> tight (b, e)"
  by (auto simp: tight_def)

lemma tight_len: "tight r \<Longrightarrow> unat (GTE_OFFLENFLD (snd r)) = length (fst r)"
  by (auto simp: tight_def length_entry unat_small28)

lemma tight_len_entry: "tight r \<Longrightarrow> len_entry (snd r)"
  by (auto simp: tight_def)

lemma length_ext_bytes [simp]: "length (ext_bytes junk p h data) = padlen p + 4 + length data"
  by (simp add: ext_bytes_def)

lemma scalar_repr_tight:
  assumes "IS_A_GTYPE_SCALAR v" "gtv_ok v" "stamps_aligned junk p v"
  shows "tight (scalar_repr junk p v)"
proof (cases "ext_parts junk p v")
  case None
  then show ?thesis
    using assms padlen_less [of p]
    by (cases v) (auto simp: scalar_repr_def intro!: tightI)
next
  case (Some hd)
  then obtain h data where hd: "ext_parts junk p v = Some (h, data)" by (cases hd) simp
  have "length data \<le> 22" using hd assms by (cases v) auto
  moreover have "ext_entry_len p v data = padlen p + 4 + length data"
    using hd assms by (cases v) (auto simp: ext_entry_len_def)
  moreover have "scalar_repr junk p v
      = (ext_bytes junk p h data, GTENTRY_IS_GTYPE OR of_nat (ext_entry_len p v data))"
    using hd by (cases v) (auto simp: scalar_repr_def)
  ultimately show ?thesis
    using padlen_less [of p] by (auto intro!: tightI [of GTENTRY_IS_GTYPE])
qed

lemma value_repr_tight:
  assumes "gtv_ok v" "fits junk p v" "stamps_aligned junk p v"
  shows "tight (value_repr junk p v)"
proof (cases "IS_A_GTYPE_SCALAR v")
  case True
  then show ?thesis using assms by (simp add: value_repr_scalar scalar_repr_tight)
next
  case False
  then show ?thesis
    using assms by (cases v) (auto simp: Let_def intro!: tightI [of GTENTRY_IS_CONTAINER])
qed

text \<open>Where the \<open>k\<close>-th of a list of values that are placed one after the other stands.\<close>

definition child_pos :: "memory \<Rightarrow> nat \<Rightarrow> gtype_value list \<Rightarrow> nat \<Rightarrow> nat" where
  "child_pos junk q vs k = q + length (concat (map fst (values_repr junk q (take k vs))))"

lemma child_pos_0 [simp]: "child_pos junk q vs 0 = q"
  by (simp add: child_pos_def)

lemma child_pos_Cons_Suc:
  "child_pos junk q (v # vs) (Suc k) = child_pos junk (q + length (fst (value_repr junk q v))) vs k"
  by (simp add: child_pos_def Let_def)

lemma nth_values_repr:
  "k < length vs \<Longrightarrow> values_repr junk q vs ! k = value_repr junk (child_pos junk q vs k) (vs ! k)"
proof (induction vs arbitrary: q k)
  case (Cons v vs)
  then show ?case by (cases k) (simp_all add: Let_def child_pos_Cons_Suc)
qed simp

lemma all_fit_nth: "all_fit junk q vs \<Longrightarrow> k < length vs \<Longrightarrow> fits junk (child_pos junk q vs k) (vs ! k)"
proof (induction vs arbitrary: q k)
  case (Cons v vs)
  then show ?case by (cases k) (simp_all add: child_pos_Cons_Suc)
qed simp

lemma stamps_aligned_nth:
  "stamps_aligned_list junk q vs \<Longrightarrow> k < length vs \<Longrightarrow>
     stamps_aligned junk (child_pos junk q vs k) (vs ! k)"
proof (induction vs arbitrary: q k)
  case (Cons v vs)
  then show ?case by (cases k) (simp_all add: child_pos_Cons_Suc)
qed simp

lemma holds_child:
  "holds mem (D + q) (concat (map fst (values_repr junk q vs))) \<Longrightarrow> k < length vs \<Longrightarrow>
     holds mem (D + child_pos junk q vs k) (fst (value_repr junk (child_pos junk q vs k) (vs ! k)))"
proof (induction vs arbitrary: q k)
  case (Cons v vs)
  then show ?case
    by (cases k) (simp_all add: Let_def holds_append child_pos_Cons_Suc add.assoc)
qed simp

text \<open>The children of a container, as they stand in memory at \<open>D + q\<close>, their entries at \<open>c\<close>.\<close>

definition children_at :: "memory \<Rightarrow> memory \<Rightarrow> nat \<Rightarrow> nat \<Rightarrow> nat \<Rightarrow> gtype_value list \<Rightarrow> bool" where
  "children_at junk mem D c q vs \<longleftrightarrow>
     q mod 4 = 0 \<and> (\<forall>v \<in> set vs. gtv_ok v) \<and> all_fit junk q vs \<and> stamps_aligned_list junk q vs
     \<and> lensum (map snd (values_repr junk q vs)) \<le> 0x0FFFFFFF
     \<and> holds mem (c + 4) (concat (map le32 (stride_entries 0 0 (map snd (values_repr junk q vs)))))
     \<and> holds mem (D + q) (concat (map fst (values_repr junk q vs)))"

lemma children_tight:
  assumes "\<forall>v \<in> set vs. gtv_ok v" "all_fit junk q vs" "stamps_aligned_list junk q vs"
  shows "\<forall>r \<in> set (values_repr junk q vs). tight r"
proof
  fix r assume "r \<in> set (values_repr junk q vs)"
  then obtain k where "k < length vs" and "r = values_repr junk q vs ! k"
    by (metis in_set_conv_nth length_values_repr)
  with assms show "tight r"
    by (simp add: nth_values_repr value_repr_tight all_fit_nth stamps_aligned_nth)
qed

lemma lensum_tight: "\<forall>r \<in> set rs. tight r \<Longrightarrow> lensum (map snd rs) = length (concat (map fst rs))"
  by (induction rs) (simp_all add: tight_len)

lemma take_values_repr: "take k (values_repr junk q vs) = values_repr junk q (take k vs)"
proof (cases "k \<le> length vs")
  case True
  then show ?thesis
    using values_repr_append [of junk q "take k vs" "drop k vs"] by (simp add: append_eq_conv_conj)
qed simp

lemma children_entries:
  assumes "children_at junk mem D c q vs"
  shows "holds_entries mem c (map snd (values_repr junk q vs))"
  using assms children_tight [of vs junk q]
  by (auto simp: children_at_def holds_entries_def tight_len_entry)

lemma children_offset:
  assumes "children_at junk mem D c q vs"
  shows "lensum (take k (map snd (values_repr junk q vs))) = child_pos junk q vs k - q"
proof -
  have "\<forall>r \<in> set (take k (values_repr junk q vs)). tight r"
    using assms children_tight [of vs junk q] by (auto simp: children_at_def dest: in_set_takeD)
  then show ?thesis by (simp add: take_map lensum_tight take_values_repr child_pos_def)
qed

lemma child_pos_ge: "q \<le> child_pos junk q vs k"
  by (simp add: child_pos_def)


subsection \<open>Reading a child\<close>

lemma tag_tests [bits_simps]:
  "e AND GTENTRY_TYPEMASK = GTENTRY_IS_STRING \<Longrightarrow> GTE_IS_STRING e \<and> \<not> GTE_IS_NULL e"
  "e AND GTENTRY_TYPEMASK = GTENTRY_IS_NULL \<Longrightarrow> GTE_IS_NULL e"
  "e AND GTENTRY_TYPEMASK = GTENTRY_IS_NUMERIC \<Longrightarrow>
     GTE_IS_NUMERIC e \<and> \<not> GTE_IS_NULL e \<and> \<not> GTE_IS_STRING e"
  "e AND GTENTRY_TYPEMASK = GTENTRY_IS_GTYPE \<Longrightarrow>
     GTE_IS_GTYPE e \<and> \<not> GTE_IS_NULL e \<and> \<not> GTE_IS_STRING e \<and> \<not> GTE_IS_NUMERIC e"
  "e AND GTENTRY_TYPEMASK = GTENTRY_IS_BOOL_TRUE \<Longrightarrow>
     GTE_IS_BOOL_TRUE e \<and> \<not> GTE_IS_NULL e \<and> \<not> GTE_IS_STRING e \<and> \<not> GTE_IS_NUMERIC e \<and> \<not> GTE_IS_GTYPE e"
  "e AND GTENTRY_TYPEMASK = GTENTRY_IS_BOOL_FALSE \<Longrightarrow>
     GTE_IS_BOOL_FALSE e \<and> \<not> GTE_IS_NULL e \<and> \<not> GTE_IS_STRING e \<and> \<not> GTE_IS_NUMERIC e
       \<and> \<not> GTE_IS_GTYPE e \<and> \<not> GTE_IS_BOOL_TRUE e"
  "e AND GTENTRY_TYPEMASK = GTENTRY_IS_CONTAINER \<Longrightarrow>
     GTE_IS_CONTAINER e \<and> \<not> GTE_IS_NULL e \<and> \<not> GTE_IS_STRING e \<and> \<not> GTE_IS_NUMERIC e
       \<and> \<not> GTE_IS_GTYPE e \<and> \<not> GTE_IS_BOOL_TRUE e \<and> \<not> GTE_IS_BOOL_FALSE e"
  by (simp_all add: gte_tests gtentry_tags)

lemma pnstrdup_holds: "holds mem a s \<Longrightarrow> 0 \<notin> set s \<Longrightarrow> pnstrdup mem a (length s) = s"
  by (auto simp: pnstrdup_def mem_simps)

lemma holds_padded:
  assumes "holds mem (D + (q + k)) (zeros (padlen (q + k)) @ bs)" "q mod 4 = 0"
  shows "holds mem (D + q + intalign k) bs"
  using assms padlen_align [of k] by (simp add: holds_append padlen_add add.assoc)

lemma fill_scalar_value:
  assumes t: "child mem c i AND GTENTRY_TYPEMASK = snd (scalar_repr junk p v) AND GTENTRY_TYPEMASK"
    and l: "unat (get_gtype_length mem c i) = length (fst (scalar_repr junk p v))"
    and p: "p = q + unat off" "q mod 4 = 0"
    and h: "holds mem (D + p) (fst (scalar_repr junk p v))"
    and v: "IS_A_GTYPE_SCALAR v" "gtv_ok v" "readable varsize v"
  shows "fill_gtype_value varsize mem c i (D + q) off = Inr v"
proof (cases "ext_parts junk p v")
  case (Some hd)
  then obtain hw data where hd: "ext_parts junk p v = Some (hw, data)" by (cases hd) simp
  have n: "ext_entry_len p v data \<le> 0x0FFFFFFF"
    using hd v padlen_less [of p] by (cases v) (auto simp: ext_entry_len_def)
  have r: "scalar_repr junk p v
      = (ext_bytes junk p hw data, GTENTRY_IS_GTYPE OR of_nat (ext_entry_len p v data))"
    using hd by (cases v) (auto simp: scalar_repr_def)
  have "holds mem (D + q + intalign (unat off)) (le32 hw @ data)"
    using h r p(2) by (intro holds_padded) (simp_all add: ext_bytes_def p(1))
  then have "np_deserialize_extended_type mem (D + q) off = Inr v"
    by (rule np_deserialize_extended [OF hd gtv_ok_scalar [OF v(1,2)]])
  moreover have "child mem c i AND GTENTRY_TYPEMASK = GTENTRY_IS_GTYPE"
    using t n by (simp add: r length_entry)
  ultimately show ?thesis by (simp add: fill_gtype_value_def tag_tests)
next
  case None
  have bool: "(if b then GTENTRY_IS_BOOL_TRUE else GTENTRY_IS_BOOL_FALSE) AND GTENTRY_TYPEMASK
      = (if b then GTENTRY_IS_BOOL_TRUE else GTENTRY_IS_BOOL_FALSE)" for b
    by (simp add: gtentry_tags gtentry_masks)
  show ?thesis
  proof (cases v)
    case (GTV_STRING s)
    then show ?thesis
      using t l h v by (simp add: scalar_repr_def length_entry fill_gtype_value_def tag_tests
          pnstrdup_holds p add.assoc)
  next
    case (GTV_NUMERIC n)
    then have "holds mem (D + q + intalign (unat off)) n"
      using h p(2) by (intro holds_padded) (simp_all add: scalar_repr_def p(1))
    moreover have "padlen p + length n \<le> 0x0FFFFFFF"
      using GTV_NUMERIC v padlen_less [of p] by simp
    ultimately show ?thesis
      using t v GTV_NUMERIC length_entry(2) [of GTENTRY_IS_NUMERIC "padlen p + length n"]
      by (simp add: scalar_repr_def fill_gtype_value_def tag_tests mem_simps del: of_nat_add)
  next
    case GTV_NULL
    then show ?thesis
      using t by (simp add: scalar_repr_def fill_gtype_value_def gte_tests)
        (simp add: gtentry_tags gtentry_masks)
  next
    case (GTV_BOOL b)
    then show ?thesis
      using t by (cases b) (simp_all add: scalar_repr_def fill_gtype_value_def bool tag_tests
          gtentry_tag_def [symmetric] gtentry_tagD(3))
  qed (use None v in simp_all)
qed

lemma fill_container:
  assumes "child mem c i AND GTENTRY_TYPEMASK = GTENTRY_IS_CONTAINER" "q mod 4 = 0"
  shows "\<exists>len. fill_gtype_value varsize mem c i (D + q) off
     = Inr (GTV_BINARY (D + intalign (q + unat off)) len)"
  using assms by (simp add: fill_gtype_value_def tag_tests intalign_add add.assoc)

text \<open>Reading the child number \<open>k\<close> with the offset that the walk over the entries gives.\<close>

definition child_off :: "memory \<Rightarrow> nat \<Rightarrow> gtype_value list \<Rightarrow> nat \<Rightarrow> 32 word" where
  "child_off junk q vs k = of_nat (child_pos junk q vs k - q)"

lemma children_unat_off:
  assumes "children_at junk mem D c q vs"
  shows "unat (child_off junk q vs k) = child_pos junk q vs k - q"
  using unat_lensum_take [OF children_entries [OF assms], of k]
  by (simp add: child_off_def children_offset [OF assms])

lemma children_advance:
  assumes "children_at junk mem D c q vs" "k < length vs"
  shows "GTE_ADVANCE_OFFSET (child_off junk q vs k) (child mem c k) = child_off junk q vs (Suc k)"
  using advance_entries [OF children_entries [OF assms(1)], of k] assms
  by (simp add: child_off_def children_offset)

lemma children_get_offset:
  assumes "children_at junk mem D c q vs" "k \<le> length vs"
  shows "get_gtype_offset mem c k = child_off junk q vs k"
  using get_gtype_offset_entries [OF children_entries [OF assms(1)], of k] assms
  by (simp add: child_off_def children_offset)

lemma children_child:
  assumes ch: "children_at junk mem D c q vs" and k: "k < length vs"
  defines "p \<equiv> child_pos junk q vs k"
  shows "gtv_ok (vs ! k)" "fits junk p (vs ! k)" "stamps_aligned junk p (vs ! k)"
    "holds mem (D + p) (fst (value_repr junk p (vs ! k)))"
    "child mem c k AND GTENTRY_TYPEMASK = snd (value_repr junk p (vs ! k)) AND GTENTRY_TYPEMASK"
    "unat (get_gtype_length mem c k) = length (fst (value_repr junk p (vs ! k)))"
    "p = q + unat (child_off junk q vs k)"
proof -
  show g: "gtv_ok (vs ! k)" and f: "fits junk p (vs ! k)" and s: "stamps_aligned junk p (vs ! k)"
    and "holds mem (D + p) (fst (value_repr junk p (vs ! k)))"
    using ch k by (auto simp: children_at_def p_def all_fit_nth stamps_aligned_nth holds_child)
  show "child mem c k AND GTENTRY_TYPEMASK = snd (value_repr junk p (vs ! k)) AND GTENTRY_TYPEMASK"
    using child_type [OF children_entries [OF ch], of k] k by (simp add: nth_values_repr p_def)
  show "unat (get_gtype_length mem c k) = length (fst (value_repr junk p (vs ! k)))"
    using get_gtype_length_entries [OF children_entries [OF ch], of k] k
      tight_len [OF value_repr_tight [OF g f s]]
    by (simp add: nth_values_repr p_def)
  show "p = q + unat (child_off junk q vs k)"
    using children_unat_off [OF ch, of k] child_pos_ge [of q junk vs k] by (simp add: p_def)
qed

lemma fill_child_scalar:
  assumes ch: "children_at junk mem D c q vs" and k: "k < length vs"
    and "IS_A_GTYPE_SCALAR (vs ! k)" "readable varsize (vs ! k)"
  shows "fill_gtype_value varsize mem c k (D + q) (child_off junk q vs k) = Inr (vs ! k)"
  using children_child [OF ch k] assms(3,4) ch
  by (intro fill_scalar_value [where junk = junk and p = "child_pos junk q vs k"])
    (simp_all add: value_repr_scalar children_at_def)

lemma fill_child_container:
  assumes ch: "children_at junk mem D c q vs" and k: "k < length vs"
    and "\<not> IS_A_GTYPE_SCALAR (vs ! k)"
  shows "\<exists>len. fill_gtype_value varsize mem c k (D + q) (child_off junk q vs k)
      = Inr (GTV_BINARY (D + intalign (child_pos junk q vs k)) len)"
proof -
  let ?p = "child_pos junk q vs k"
  have "snd (value_repr junk ?p (vs ! k)) AND GTENTRY_TYPEMASK = GTENTRY_IS_CONTAINER"
    using children_child(1,2) [OF ch k] assms(3)
    by (cases "vs ! k") (auto simp: Let_def length_entry)
  then show ?thesis
    using fill_container [of mem c k q varsize D "child_off junk q vs k"] children_child(5,7) [OF ch k] ch
    by (simp add: children_at_def)
qed

subsection \<open>Runs of the iterator\<close>

inductive iter_run ::
    "(memory \<Rightarrow> nat \<Rightarrow> nat) \<Rightarrow> memory \<Rightarrow> gtype_iterator list \<Rightarrow> iter_event list \<Rightarrow> gtype_iterator list \<Rightarrow> bool"
  for varsize mem where
  stop: "iter_run varsize mem its [] its"
| step: "\<lbrakk>gtype_iterator_next varsize mem its False = Inr (tok, val, its'); tok \<noteq> WGT_DONE;
          iter_run varsize mem its' evs its''\<rbrakk>
    \<Longrightarrow> iter_run varsize mem its ((tok, val) # evs) its''"

lemma iter_run_append:
  "iter_run varsize mem its evs its' \<Longrightarrow> iter_run varsize mem its' evs' its'' \<Longrightarrow>
     iter_run varsize mem its (evs @ evs') its''"
  by (induction rule: iter_run.induct) (auto intro: iter_run.intros)

text \<open>Enough fuel gives the tokens of a run that exhausts the iterator.\<close>

lemma iterate_run:
  "iter_run varsize mem its evs its' \<Longrightarrow> its' = [] \<Longrightarrow> length evs < n \<Longrightarrow>
     iterate varsize mem n its = Some (Inr evs)"
proof (induction arbitrary: n rule: iter_run.induct)
  case (stop its)
  then show ?case by (cases n) simp_all
next
  case (step its tok val its' evs its'')
  then show ?case by (cases n) simp_all
qed

text \<open>A container at address \<open>a\<close> whose iterator yields the tokens of \<open>v\<close> and returns to its
  parent.\<close>

definition container_reads ::
    "(memory \<Rightarrow> nat \<Rightarrow> nat) \<Rightarrow> memory \<Rightarrow> nat \<Rightarrow> gtype_value \<Rightarrow> bool" where
  "container_reads varsize mem a v \<longleftrightarrow>
     (\<exists>it0 tok0 val0 it1 evs. iterator_from_container mem a = Inr it0
        \<and> iterator_start mem it0 = Inr (tok0, val0, it1) \<and> tok0 \<noteq> WGT_DONE
        \<and> it_state it0 \<in> {GTI_ARRAY_START, GTI_OBJECT_START}
        \<and> (\<forall>tok. value_events tok v = (tok0, val0) # evs)
        \<and> (\<forall>parents. iter_run varsize mem (it1 # parents) evs parents))"

lemma container_reads_init:
  assumes "container_reads varsize mem a v"
  obtains its where "gtype_iterator_init mem a = Inr its"
    "iter_run varsize mem its (value_events tok v) []"
proof -
  obtain it0 tok0 val0 it1 evs where r: "iterator_from_container mem a = Inr it0"
    "iterator_start mem it0 = Inr (tok0, val0, it1)" "tok0 \<noteq> WGT_DONE"
    "it_state it0 \<in> {GTI_ARRAY_START, GTI_OBJECT_START}"
    "\<forall>tok. value_events tok v = (tok0, val0) # evs"
    "\<forall>parents. iter_run varsize mem (it1 # parents) evs parents"
    using assms unfolding container_reads_def by blast
  have "iter_run varsize mem [it0] (value_events tok v) []"
    using r by (auto intro!: iter_run.step)
  then show thesis using that r(1) by (simp add: gtype_iterator_init_def)
qed

lemma run_child:
  assumes nxt: "gtype_iterator_next varsize mem its False = iterator_child mem False tok val (it # parents)"
    and tok: "tok \<noteq> WGT_DONE"
    and val: "IS_A_GTYPE_SCALAR v \<and> val = v
       \<or> \<not> IS_A_GTYPE_SCALAR v \<and> (\<exists>a len. val = GTV_BINARY a len \<and> container_reads varsize mem a v)"
  shows "iter_run varsize mem its (value_events tok v) (it # parents)"
  using val
proof
  assume v: "IS_A_GTYPE_SCALAR v \<and> val = v"
  then have "iterator_child mem False tok val (it # parents) = Inr (tok, IterVal v, it # parents)"
    by (cases v) (simp_all add: iterator_child_def)
  with v tok nxt show ?thesis
    by (auto simp: value_events_scalar intro: iter_run.intros)
next
  assume "\<not> IS_A_GTYPE_SCALAR v \<and> (\<exists>a len. val = GTV_BINARY a len \<and> container_reads varsize mem a v)"
  then obtain a len it0 tok0 val0 it1 evs where r: "val = GTV_BINARY a len"
    "iterator_from_container mem a = Inr it0"
    "iterator_start mem it0 = Inr (tok0, val0, it1)" "tok0 \<noteq> WGT_DONE"
    "\<forall>tok. value_events tok v = (tok0, val0) # evs"
    "\<forall>parents. iter_run varsize mem (it1 # parents) evs parents"
    unfolding container_reads_def by blast
  then show ?thesis
    using nxt by (auto simp: iterator_child_def intro!: iter_run.step)
qed

text \<open>Every child of a container reads as itself: a scalar directly, a container through its
  own iterator.\<close>

definition child_reads ::
    "(memory \<Rightarrow> nat \<Rightarrow> nat) \<Rightarrow> memory \<Rightarrow> nat \<Rightarrow> nat \<Rightarrow> 32 word \<Rightarrow> nat \<Rightarrow> gtype_value \<Rightarrow> bool" where
  "child_reads varsize mem c dp off k v \<longleftrightarrow>
     (\<exists>val. fill_gtype_value varsize mem c k dp off = Inr val
        \<and> (IS_A_GTYPE_SCALAR v \<and> val = v
           \<or> \<not> IS_A_GTYPE_SCALAR v
              \<and> (\<exists>a len. val = GTV_BINARY a len \<and> container_reads varsize mem a v)))"

lemma array_run:
  assumes reads: "\<And>k. k < length es \<Longrightarrow> child_reads varsize mem c dp (off k) k (es ! k)"
    and adv: "\<And>k. k < length es \<Longrightarrow> GTE_ADVANCE_OFFSET (off k) (child mem c k) = off (Suc k)"
    and "k \<le> length es"
    and it: "it_container it = c" "it_num_elems it = length es" "it_data_proper it = dp"
      "it_state it = GTI_ARRAY_ELEM" "it_curr_index it = k" "it_curr_data_offset it = off k"
  shows "iter_run varsize mem (it # parents)
     (concat (map (value_events WGT_ELEM) (drop k es)) @ [(WGT_END_ARRAY, IterUnset)]) parents"
  using assms(3) it
proof (induction "length es - k" arbitrary: k it)
  case 0
  then show ?case by (auto intro!: iter_run.intros)
next
  case (Suc n)
  then have k: "k < length es" by simp
  obtain val where val: "fill_gtype_value varsize mem c k dp (off k) = Inr val"
    and v: "IS_A_GTYPE_SCALAR (es ! k) \<and> val = es ! k \<or> \<not> IS_A_GTYPE_SCALAR (es ! k)
       \<and> (\<exists>a len. val = GTV_BINARY a len \<and> container_reads varsize mem a (es ! k))"
    using reads [OF k] unfolding child_reads_def by blast
  let ?it = "it \<lparr>it_curr_data_offset := off (Suc k), it_curr_index := Suc k\<rparr>"
  have "iter_run varsize mem (it # parents) (value_events WGT_ELEM (es ! k)) (?it # parents)"
    by (rule run_child [OF _ _ v]) (use k val adv [OF k] Suc.prems in \<open>simp_all add: Let_def\<close>)
  moreover have "iter_run varsize mem (?it # parents)
     (concat (map (value_events WGT_ELEM) (drop (Suc k) es)) @ [(WGT_END_ARRAY, IterUnset)]) parents"
    using Suc k by (intro Suc.hyps(1)) simp_all
  ultimately show ?case
    using iter_run_append k by (fastforce simp: Cons_nth_drop_Suc [symmetric])
qed

lemma object_run:
  assumes keys: "\<And>k. k < length ps \<Longrightarrow> is_string (pair_key (ps ! k)) \<and>
       fill_gtype_value varsize mem c k dp (off k) = Inr (pair_key (ps ! k))"
    and reads: "\<And>k. k < length ps \<Longrightarrow>
       child_reads varsize mem c dp (off (k + length ps)) (k + length ps) (pair_value (ps ! k))"
    and adv: "\<And>k. k < length ps + length ps \<Longrightarrow>
       GTE_ADVANCE_OFFSET (off k) (child mem c k) = off (Suc k)"
    and "k \<le> length ps"
    and it: "it_container it = c" "it_num_elems it = length ps" "it_data_proper it = dp"
      "it_state it = GTI_OBJECT_KEY" "it_curr_index it = k" "it_curr_data_offset it = off k"
      "it_curr_value_offset it = off (k + length ps)"
  shows "iter_run varsize mem (it # parents)
     (concat (map (\<lambda>p. (WGT_KEY, IterVal (pair_key p)) # value_events WGT_VALUE (pair_value p)) (drop k ps))
       @ [(WGT_END_OBJECT, IterUnset)]) parents"
  using assms(4) it
proof (induction "length ps - k" arbitrary: k it)
  case 0
  then show ?case by (auto intro!: iter_run.intros)
next
  case (Suc n)
  then have k: "k < length ps" by simp
  obtain val where val: "fill_gtype_value varsize mem c (k + length ps) dp (off (k + length ps)) = Inr val"
    and v: "IS_A_GTYPE_SCALAR (pair_value (ps ! k)) \<and> val = pair_value (ps ! k)
       \<or> \<not> IS_A_GTYPE_SCALAR (pair_value (ps ! k))
       \<and> (\<exists>a len. val = GTV_BINARY a len \<and> container_reads varsize mem a (pair_value (ps ! k)))"
    using reads [OF k] unfolding child_reads_def by blast
  let ?it1 = "it \<lparr>it_state := GTI_OBJECT_VALUE\<rparr>"
  let ?it2 = "it \<lparr>it_state := GTI_OBJECT_KEY, it_curr_data_offset := off (Suc k),
      it_curr_value_offset := off (Suc (k + length ps)), it_curr_index := Suc k\<rparr>"
  have "iter_run varsize mem (?it1 # parents) (value_events WGT_VALUE (pair_value (ps ! k)))
      (?it2 # parents)"
    by (rule run_child [OF _ _ v])
      (use k val adv [of k] adv [of "k + length ps"] Suc.prems in \<open>simp_all add: Let_def\<close>)
  moreover have "iter_run varsize mem (?it2 # parents)
     (concat (map (\<lambda>p. (WGT_KEY, IterVal (pair_key p)) # value_events WGT_VALUE (pair_value p))
       (drop (Suc k) ps)) @ [(WGT_END_OBJECT, IterUnset)]) parents"
    using Suc k by (intro Suc.hyps(1)) simp_all
  ultimately have "iter_run varsize mem (?it1 # parents)
     (value_events WGT_VALUE (pair_value (ps ! k)) @
      concat (map (\<lambda>p. (WGT_KEY, IterVal (pair_key p)) # value_events WGT_VALUE (pair_value p))
       (drop (Suc k) ps)) @ [(WGT_END_OBJECT, IterUnset)]) parents"
    by (rule iter_run_append)
  then have "iter_run varsize mem (it # parents)
     ((WGT_KEY, IterVal (pair_key (ps ! k))) # value_events WGT_VALUE (pair_value (ps ! k)) @
      concat (map (\<lambda>p. (WGT_KEY, IterVal (pair_key p)) # value_events WGT_VALUE (pair_value p))
       (drop (Suc k) ps)) @ [(WGT_END_OBJECT, IterUnset)]) parents"
    by (rule iter_run.step [rotated 2]) (use k keys [OF k] Suc.prems in simp_all)
  then show ?case
    using k by (simp add: Cons_nth_drop_Suc [symmetric])
qed


subsection \<open>The round trip\<close>

lemma array_header:
  assumes "n \<le> 0x07FFFFFF"
  shows "GTYPE_CONTAINER_SIZE (array_header raw n) = n"
    "array_header raw n AND (GT_FARRAY OR GT_FOBJECT) = GT_FARRAY"
    "GTYPE_CONTAINER_IS_SCALAR (array_header raw n) = raw"
  using small27 [OF assms]
  by (simp_all add: array_header_def Let_def GTYPE_CONTAINER_SIZE_def GTYPE_CONTAINER_IS_SCALAR_def
      bit.conj_disj_distrib bit.conj_disj_distrib2)
    (simp_all add: gt_flags)

lemma object_header:
  assumes "n \<le> 0x07FFFFFF"
  shows "GTYPE_CONTAINER_SIZE (object_header n) = n"
    "object_header n AND (GT_FARRAY OR GT_FOBJECT) = GT_FOBJECT"
  using small27 [OF assms]
  by (simp_all add: object_header_def GTYPE_CONTAINER_SIZE_def
      bit.conj_disj_distrib bit.conj_disj_distrib2)
    (simp_all add: gt_flags)

lemma flags_distinct: "GT_FOBJECT \<noteq> GT_FARRAY"
  by (simp add: gt_flags)

lemma holds_container:
  assumes "holds mem (D + p) (container_bytes p h rs)"
  shows "container_header mem (D + intalign p) = h"
    and "holds mem (D + intalign p + 4) (concat (map le32 (stride_entries 0 0 (map snd rs))))"
    and "holds mem (D + intalign p + 4 + 4 * length rs) (concat (map fst rs))"
  using assms padlen_align [of p]
  by (simp_all add: container_bytes_def holds_append container_header_def mem_simps add.assoc
      add.left_commute)

lemma intalign_plus_mod: "(intalign p + (4 + 4 * n)) mod 4 = 0" "(intalign p + (4 + 8 * n)) mod 4 = 0"
  unfolding intalign_def by presburger+

definition reads_back :: "(memory \<Rightarrow> nat \<Rightarrow> nat) \<Rightarrow> memory \<Rightarrow> memory \<Rightarrow> nat \<Rightarrow> nat \<Rightarrow> gtype_value \<Rightarrow> bool" where
  "reads_back varsize junk mem D p v \<longleftrightarrow>
     gtv_ok v \<and> readable varsize v \<and> fits junk p v \<and> stamps_aligned junk p v
       \<and> holds mem (D + p) (fst (value_repr junk p v)) \<and> \<not> IS_A_GTYPE_SCALAR v
     \<longrightarrow> container_reads varsize mem (D + intalign p) v"

lemma children_read:
  assumes ch: "children_at junk mem D c q vs" and k: "k < length vs"
    and IH: "\<And>p. reads_back varsize junk mem D p (vs ! k)"
    and "readable varsize (vs ! k)"
  shows "child_reads varsize mem c (D + q) (child_off junk q vs k) k (vs ! k)"
proof (cases "IS_A_GTYPE_SCALAR (vs ! k)")
  case True
  then show ?thesis
    using fill_child_scalar [OF ch k True assms(4)] by (auto simp: child_reads_def)
next
  case False
  then have "container_reads varsize mem (D + intalign (child_pos junk q vs k)) (vs ! k)"
    using IH [of "child_pos junk q vs k"] children_child(1-4) [OF ch k] assms(4)
    by (auto simp: reads_back_def)
  then show ?thesis
    using False fill_child_container [OF ch k False, of varsize] by (auto simp: child_reads_def)
qed

lemma array_reads:
  assumes IH: "\<And>e p. e \<in> set es \<Longrightarrow> reads_back varsize junk mem D p e"
  shows "reads_back varsize junk mem D p (GTV_ARRAY raw es)"
  unfolding reads_back_def
proof (intro impI, elim conjE)
  assume v: "gtv_ok (GTV_ARRAY raw es)" "readable varsize (GTV_ARRAY raw es)"
    "fits junk p (GTV_ARRAY raw es)" "stamps_aligned junk p (GTV_ARRAY raw es)"
    and h: "holds mem (D + p) (fst (value_repr junk p (GTV_ARRAY raw es)))"
  let ?c = "D + intalign p" and ?q = "intalign p + 4 + 4 * length es"
  note hc = holds_container [OF h [unfolded value_repr.simps Let_def fst_conv]]
  have ch: "children_at junk mem D ?c ?q es"
    using v hc(2,3) by (simp add: children_at_def Let_def intalign_plus_mod add.assoc)
  have n: "length es \<le> 0x07FFFFFF" using v by simp
  define it where "it = \<lparr>it_container = ?c, it_num_elems = length es, it_is_scalar = raw,
      it_data_proper = D + ?q, it_curr_index = 0, it_curr_data_offset = 0,
      it_curr_value_offset = 0, it_state = GTI_ARRAY_START\<rparr>"
  have init: "iterator_from_container mem ?c = Inr it"
    using hc(1) array_header [OF n] by (simp add: iterator_from_container_def Let_def it_def)
  have run: "iter_run varsize mem (it \<lparr>it_state := GTI_ARRAY_ELEM\<rparr> # parents)
     (concat (map (value_events WGT_ELEM) (drop 0 es)) @ [(WGT_END_ARRAY, IterUnset)]) parents"
    for parents
  proof (rule array_run)
    show "child_reads varsize mem ?c (D + ?q) (child_off junk ?q es k) k (es ! k)"
      if "k < length es" for k
      using children_read [OF ch that IH] v that by simp
    show "GTE_ADVANCE_OFFSET (child_off junk ?q es k) (child mem ?c k) = child_off junk ?q es (Suc k)"
      if "k < length es" for k
      using children_advance [OF ch that] .
  qed (simp_all add: it_def child_off_def)
  show "container_reads varsize mem ?c (GTV_ARRAY raw es)"
    unfolding container_reads_def
    using init run by (auto simp: iterator_start_def it_def)
qed

lemma object_reads:
  assumes IH: "\<And>pr p. pr \<in> set ps \<Longrightarrow> reads_back varsize junk mem D p (pair_value pr)"
  shows "reads_back varsize junk mem D p (GTV_OBJECT ps)"
  unfolding reads_back_def
proof (intro impI, elim conjE)
  assume v: "gtv_ok (GTV_OBJECT ps)" "readable varsize (GTV_OBJECT ps)"
    "fits junk p (GTV_OBJECT ps)" "stamps_aligned junk p (GTV_OBJECT ps)"
    and h: "holds mem (D + p) (fst (value_repr junk p (GTV_OBJECT ps)))"
  let ?c = "D + intalign p" and ?q = "intalign p + 4 + 8 * length ps"
  let ?n = "length ps" and ?vs = "map pair_key ps @ map pair_value ps"
  note hc = holds_container [OF h [unfolded value_repr.simps Let_def fst_conv]]
  have ch: "children_at junk mem D ?c ?q ?vs"
    using v hc(2,3) by (auto simp: children_at_def Let_def intalign_plus_mod add.assoc)
  have n: "?n \<le> 0x07FFFFFF" using v by simp
  define it where "it = \<lparr>it_container = ?c, it_num_elems = ?n, it_is_scalar = False,
      it_data_proper = D + ?q, it_curr_index = 0, it_curr_data_offset = 0,
      it_curr_value_offset = 0, it_state = GTI_OBJECT_START\<rparr>"
  have init: "iterator_from_container mem ?c = Inr it"
    using hc(1) object_header [OF n] flags_distinct
    by (simp add: iterator_from_container_def Let_def it_def)
  let ?it = "it \<lparr>it_state := GTI_OBJECT_KEY, it_curr_value_offset := child_off junk ?q ?vs ?n\<rparr>"
  have run: "iter_run varsize mem (?it # parents)
     (concat (map (\<lambda>p. (WGT_KEY, IterVal (pair_key p)) # value_events WGT_VALUE (pair_value p))
        (drop 0 ps)) @ [(WGT_END_OBJECT, IterUnset)]) parents" for parents
  proof (rule object_run)
    fix k assume k: "k < ?n"
    then have pk: "ps ! k \<in> set ps" by simp
    then have key: "is_string (pair_key (ps ! k))" "readable varsize (pair_key (ps ! k))"
      and val: "readable varsize (pair_value (ps ! k))" using v by auto
    show "is_string (pair_key (ps ! k)) \<and> fill_gtype_value varsize mem ?c k (D + ?q)
        (child_off junk ?q ?vs k) = Inr (pair_key (ps ! k))"
      using fill_child_scalar [OF ch, of k varsize] k key is_string_scalar [OF key(1)]
      by (simp add: nth_append)
    show "child_reads varsize mem ?c (D + ?q) (child_off junk ?q ?vs (k + ?n)) (k + ?n)
        (pair_value (ps ! k))"
      using children_read [OF ch, of "k + ?n" varsize] IH [OF pk] k val by (simp add: nth_append)
  next
    fix k assume "k < ?n + ?n"
    then show "GTE_ADVANCE_OFFSET (child_off junk ?q ?vs k) (child mem ?c k)
        = child_off junk ?q ?vs (Suc k)"
      using children_advance [OF ch, of k] by simp
  qed (simp_all add: it_def child_off_def)
  have "iterator_start mem it = Inr (WGT_BEGIN_OBJECT, IterObject ?n, ?it)"
    using children_get_offset [OF ch, of ?n] by (simp add: iterator_start_def it_def)
  then show "container_reads varsize mem ?c (GTV_OBJECT ps)"
    unfolding container_reads_def
    using init run by (auto simp: it_def)
qed

lemma value_reads: "reads_back varsize junk mem D p v"
proof (induction v arbitrary: p rule: measure_induct_rule [of size])
  case (less v)
  show ?case
  proof (cases v)
    case (GTV_ARRAY raw es)
    then have "size e < size v" if "e \<in> set es" for e
      using that size_list_estimation' [OF that order_refl, of size] by simp
    with less show ?thesis unfolding GTV_ARRAY by (intro array_reads) simp
  next
    case (GTV_OBJECT ps)
    then have "size (pair_value pr) < size v" if "pr \<in> set ps" for pr
      using that size_pair_value [OF that] by simp
    with less show ?thesis unfolding GTV_OBJECT by (intro object_reads) simp
  qed (simp_all add: reads_back_def)
qed

end
