(* ===== verification/GType_Object.thy ===== *)
theory GType_Object
  imports GType_Value "HOL-Library.List_Lexorder"
begin

text \<open>
  The pairs of an object: their order, and the routine that sorts them and removes duplicate
  keys (\<open>uniqueify_gtype_object\<close> in \<open>src/src/backend/utils/adt/gtype_util.c\<close>).  The sort itself is
  PostgreSQL's \<open>qsort_arg\<close>, a parameter: it gets a comparator and an array, and returns the
  array and whether the comparator, which also reports equal keys, ever reported some.
\<close>

subsection \<open>Comparators\<close>

text \<open>\<open>memcmp\<close> on two areas of the same length; only the sign of the result is used.\<close>

fun memcmp :: "bytes \<Rightarrow> bytes \<Rightarrow> int" where
  "memcmp (a # as) (b # bs) = (if a < b then -1 else if b < a then 1 else memcmp as bs)"
| "memcmp _ _ = 0"

fun string_bytes :: "gtype_value \<Rightarrow> bytes" where
  "string_bytes (GTV_STRING s) = s"
| "string_bytes _ = []"

definition length_compare_gtype_string_value :: "gtype_value \<Rightarrow> gtype_value \<Rightarrow> int" where
  "length_compare_gtype_string_value va vb =
     (let a = string_bytes va; b = string_bytes vb
      in if length a = length b then memcmp a b else if length a > length b then 1 else -1)"

definition length_compare_gtype_pair ::
    "gtype_value gtype_pair \<Rightarrow> gtype_value gtype_pair \<Rightarrow> int \<times> bool" where
  "length_compare_gtype_pair pa pb =
     (let res = length_compare_gtype_string_value (pair_key pa) (pair_key pb);
          binequal = (res = 0);
          res = (if res = 0 then (if pair_order pa > pair_order pb then -1 else 1) else res)
      in (res, binequal))"

type_synonym 'a qsort = "('a \<Rightarrow> 'a \<Rightarrow> int \<times> bool) \<Rightarrow> 'a list \<Rightarrow> 'a list \<times> bool"

subsection \<open>Removing duplicates in place\<close>

text \<open>The loop over \<open>ptr\<close>, with \<open>res\<close> the last kept element; both index the array of pairs.\<close>

function uniq_loop ::
    "gtype_value gtype_pair list \<Rightarrow> nat \<Rightarrow> nat \<Rightarrow> gtype_value gtype_pair list \<times> nat" where
  "uniq_loop pairs res ptr =
     (if ptr < length pairs
      then if length_compare_gtype_string_value (pair_key (pairs ! ptr)) (pair_key (pairs ! res)) \<noteq> 0
           then let res = res + 1
                in uniq_loop (if ptr \<noteq> res then pairs[res := pairs ! ptr] else pairs) res (ptr + 1)
           else uniq_loop pairs res (ptr + 1)
      else (pairs, res))"
  by pat_completeness auto
termination
  by (relation "measure (\<lambda>(pairs, res, ptr). length pairs - ptr)") auto

declare uniq_loop.simps [simp del]

definition uniqueify_gtype_object ::
    "gtype_value gtype_pair qsort \<Rightarrow> gtype_value gtype_pair list \<Rightarrow> gtype_value gtype_pair list" where
  "uniqueify_gtype_object qsort_arg pairs =
     (let (pairs, has_non_uniq) =
            (if length pairs > 1 then qsort_arg length_compare_gtype_pair pairs else (pairs, False))
      in if has_non_uniq
         then let (pairs, res) = uniq_loop pairs 0 1 in take (res + 1) pairs
         else pairs)"

subsection \<open>The order of keys\<close>

text \<open>Shorter keys first, keys of one length bytewise.\<close>

definition key_less :: "gtype_value \<Rightarrow> gtype_value \<Rightarrow> bool" where
  "key_less a b \<longleftrightarrow> length (string_bytes a) < length (string_bytes b)
     \<or> length (string_bytes a) = length (string_bytes b) \<and> string_bytes a < string_bytes b"

definition same_key :: "gtype_value \<Rightarrow> gtype_value \<Rightarrow> bool" where
  "same_key a b \<longleftrightarrow> string_bytes a = string_bytes b"

lemma memcmp_sign:
  "length a = length b \<Longrightarrow> (memcmp a b < 0 \<longleftrightarrow> a < b) \<and> (memcmp a b = 0 \<longleftrightarrow> a = b)"
  by (induction a b rule: memcmp.induct) auto

lemma compare_string_sign:
  "length_compare_gtype_string_value a b < 0 \<longleftrightarrow> key_less a b"
  "length_compare_gtype_string_value a b = 0 \<longleftrightarrow> same_key a b"
  using memcmp_sign [of "string_bytes a" "string_bytes b"]
  by (auto simp: length_compare_gtype_string_value_def Let_def key_less_def same_key_def)

lemma key_less_irrefl [simp]: "\<not> key_less a a"
  by (simp add: key_less_def)

lemma key_less_trans: "key_less a b \<Longrightarrow> key_less b c \<Longrightarrow> key_less a c"
  by (auto simp: key_less_def)

lemma key_less_total: "same_key a b \<or> key_less a b \<or> key_less b a"
  by (auto simp: key_less_def same_key_def)

lemma key_less_same: "key_less a b \<Longrightarrow> same_key b c \<Longrightarrow> key_less a c"
  "same_key a b \<Longrightarrow> key_less b c \<Longrightarrow> key_less a c"
  by (auto simp: key_less_def same_key_def)

lemma key_less_not_same: "key_less a b \<Longrightarrow> \<not> same_key a b"
  by (auto simp: key_less_def same_key_def)

definition pair_less :: "gtype_value gtype_pair \<Rightarrow> gtype_value gtype_pair \<Rightarrow> bool" where
  "pair_less p q \<longleftrightarrow> key_less (pair_key p) (pair_key q)
     \<or> same_key (pair_key p) (pair_key q) \<and> pair_order p > pair_order q"

lemma compare_pair_less: "fst (length_compare_gtype_pair p q) < 0 \<longleftrightarrow> pair_less p q"
  using compare_string_sign [of "pair_key p" "pair_key q"]
  by (auto simp: length_compare_gtype_pair_def Let_def pair_less_def dest: key_less_not_same)

lemma compare_pair_binequal:
  "snd (length_compare_gtype_pair p q) \<longleftrightarrow> same_key (pair_key p) (pair_key q)"
  using compare_string_sign [of "pair_key p" "pair_key q"]
  by (simp add: length_compare_gtype_pair_def Let_def)

lemma pair_less_trans: "pair_less p q \<Longrightarrow> pair_less q r \<Longrightarrow> pair_less p r"
  by (auto simp: pair_less_def same_key_def dest: key_less_trans key_less_same)
    (auto simp: key_less_def)

lemma pair_less_total: "pair_order p \<noteq> pair_order q \<Longrightarrow> pair_less p q \<or> pair_less q p"
  using key_less_total [of "pair_key p" "pair_key q"]
  by (auto simp: pair_less_def same_key_def)

text \<open>What \<open>qsort_arg\<close> promises on elements that the comparator orders strictly: it sorts them, and
  since every sort must compare the elements that end up next to each other, it has asked the
  comparator about them.\<close>

definition qsort_arg_ok :: "'a qsort \<Rightarrow> bool" where
  "qsort_arg_ok q \<longleftrightarrow> (\<forall>cmp xs.
     distinct xs
     \<and> (\<forall>x \<in> set xs. \<forall>y \<in> set xs. x \<noteq> y \<longrightarrow> (fst (cmp x y) < 0 \<longleftrightarrow> \<not> fst (cmp y x) < 0))
     \<and> (\<forall>x \<in> set xs. \<forall>y \<in> set xs. \<forall>z \<in> set xs.
          fst (cmp x y) < 0 \<longrightarrow> fst (cmp y z) < 0 \<longrightarrow> fst (cmp x z) < 0)
     \<longrightarrow> mset (fst (q cmp xs)) = mset xs
       \<and> sorted_wrt (\<lambda>x y. fst (cmp x y) < 0) (fst (q cmp xs))
       \<and> (\<forall>i. Suc i < length xs \<longrightarrow>
            snd (cmp (fst (q cmp xs) ! i) (fst (q cmp xs) ! Suc i)) \<longrightarrow> snd (q cmp xs)))"

subsection \<open>The in-place loop as a function on lists\<close>

fun keep_adj :: "gtype_value gtype_pair \<Rightarrow> gtype_value gtype_pair list \<Rightarrow> gtype_value gtype_pair list" where
  "keep_adj p [] = []"
| "keep_adj p (q # qs) =
     (if same_key (pair_key q) (pair_key p) then keep_adj p qs else q # keep_adj q qs)"

fun dedupe :: "gtype_value gtype_pair list \<Rightarrow> gtype_value gtype_pair list" where
  "dedupe [] = []"
| "dedupe (p # ps) = p # keep_adj p ps"

lemma uniq_loop_keep_adj:
  "uniq_loop pairs res ptr = (pairs', res') \<Longrightarrow> res < ptr \<Longrightarrow> ptr \<le> length pairs \<Longrightarrow>
     take (res' + 1) pairs' = take (res + 1) pairs @ keep_adj (pairs ! res) (drop ptr pairs)"
proof (induction pairs res ptr rule: uniq_loop.induct)
  case (1 pairs res ptr)
  show ?case
  proof (cases "ptr < length pairs")
    case False
    then show ?thesis using "1.prems" by (simp add: uniq_loop.simps [of pairs])
  next
    case True
    then have d: "drop ptr pairs = pairs ! ptr # drop (Suc ptr) pairs"
      by (simp add: Cons_nth_drop_Suc)
    show ?thesis
    proof (cases "same_key (pair_key (pairs ! ptr)) (pair_key (pairs ! res))")
      case same: True
      then show ?thesis
        using "1.prems" "1.IH"(2) True d
        by (simp add: uniq_loop.simps [of pairs] compare_string_sign)
    next
      case False
      let ?pairs = "if ptr \<noteq> Suc res then pairs[Suc res := pairs ! ptr] else pairs"
      have u: "uniq_loop ?pairs (Suc res) (Suc ptr) = (pairs', res')"
        using "1.prems" True False
        by (simp add: uniq_loop.simps [of pairs] compare_string_sign)
      have nth: "?pairs ! Suc res = pairs ! ptr" and drp: "drop (Suc ptr) ?pairs = drop (Suc ptr) pairs"
        and tk: "take (Suc (Suc res)) ?pairs = take (Suc res) pairs @ [pairs ! ptr]"
        using "1.prems" True by (auto simp: take_Suc_conv_app_nth)
      have "take (res' + 1) pairs' = take (Suc res + 1) ?pairs
          @ keep_adj (?pairs ! Suc res) (drop (Suc ptr) ?pairs)"
        using "1.IH"(1) [OF True _ refl] u "1.prems" True False
        by (simp add: compare_string_sign split: if_splits)
      then show ?thesis using False by (simp only: nth drp d) (simp add: tk)
    qed
  qed
qed

lemma keep_adj_id:
  "(\<And>i. Suc i < length (p # ps) \<Longrightarrow>
      \<not> same_key (pair_key ((p # ps) ! i)) (pair_key ((p # ps) ! Suc i))) \<Longrightarrow> keep_adj p ps = ps"
proof (induction ps arbitrary: p)
  case (Cons q ps)
  have "\<not> same_key (pair_key q) (pair_key p)" using Cons.prems [of 0] by (simp add: same_key_def)
  moreover have "keep_adj q ps = ps" using Cons.prems [of "Suc _"] by (intro Cons.IH) fastforce
  ultimately show ?case by simp
qed simp

lemma pair_less_irrefl: "\<not> pair_less p p"
  by (simp add: pair_less_def)

lemma pair_compare_conditions:
  assumes "distinct (map pair_order ps)"
  shows "distinct ps"
    "\<forall>x \<in> set ps. \<forall>y \<in> set ps. x \<noteq> y \<longrightarrow> (pair_less x y \<longleftrightarrow> \<not> pair_less y x)"
    "\<forall>x \<in> set ps. \<forall>y \<in> set ps. \<forall>z \<in> set ps. pair_less x y \<longrightarrow> pair_less y z \<longrightarrow> pair_less x z"
proof -
  show "distinct ps" using assms by (simp add: distinct_map)
  show "\<forall>x \<in> set ps. \<forall>y \<in> set ps. x \<noteq> y \<longrightarrow> (pair_less x y \<longleftrightarrow> \<not> pair_less y x)"
    using assms pair_less_total pair_less_trans pair_less_irrefl
    by (auto simp: distinct_map inj_on_def) blast+
qed (auto intro: pair_less_trans)

text \<open>The routine sorts the pairs and keeps the first of every run of equal keys.\<close>

lemma uniqueify_dedupe:
  assumes q: "qsort_arg_ok q" and d: "distinct (map pair_order ps)"
  shows "\<exists>ys. mset ys = mset ps \<and> sorted_wrt pair_less ys \<and> uniqueify_gtype_object q ps = dedupe ys"
proof (cases "length ps > 1")
  case False
  then have "ps = [] \<or> (\<exists>p. ps = [p])" by (cases ps) auto
  then show ?thesis by (intro exI [of _ ps]) (auto simp: uniqueify_gtype_object_def)
next
  case True
  obtain ys flag where ys: "q length_compare_gtype_pair ps = (ys, flag)" by fastforce
  have ok: "mset ys = mset ps \<and> sorted_wrt pair_less ys \<and> (\<forall>i. Suc i < length ps \<longrightarrow>
      same_key (pair_key (ys ! i)) (pair_key (ys ! Suc i)) \<longrightarrow> flag)"
    using q [unfolded qsort_arg_ok_def, THEN spec [of _ length_compare_gtype_pair],
        THEN spec [of _ ps], unfolded compare_pair_less compare_pair_binequal ys fst_conv snd_conv]
      pair_compare_conditions [OF d]
    by blast
  then have len: "length ys = length ps" by (metis size_mset)
  then obtain p zs where pz: "ys = p # zs" using True by (cases ys) auto
  have "uniqueify_gtype_object q ps = dedupe ys"
  proof (cases flag)
    case True
    obtain ys' r where u: "uniq_loop ys 0 1 = (ys', r)" by fastforce
    then have "take (r + 1) ys' = take (0 + 1) ys @ keep_adj (ys ! 0) (drop 1 ys)"
      by (intro uniq_loop_keep_adj) (simp_all add: pz)
    then show ?thesis
      using True u ys \<open>length ps > 1\<close> by (simp add: uniqueify_gtype_object_def pz)
  next
    case False
    then have "keep_adj p zs = zs" using ok len by (intro keep_adj_id) (auto simp: pz)
    then show ?thesis
      using False ys \<open>length ps > 1\<close> by (simp add: uniqueify_gtype_object_def pz)
  qed
  with ok show ?thesis by blast
qed


subsection \<open>What is kept\<close>

lemma set_keep_adj: "set (keep_adj p qs) \<subseteq> set qs"
  by (induction p qs rule: keep_adj.induct) auto

lemma set_dedupe: "set (dedupe ps) \<subseteq> set ps"
  using set_keep_adj by (cases ps) auto

lemma same_key_sym: "same_key a b \<Longrightarrow> same_key b a"
  by (simp add: same_key_def)

lemma same_key_trans: "same_key a b \<Longrightarrow> same_key b c \<Longrightarrow> same_key a c"
  by (simp add: same_key_def)

lemma keep_adj_sorted:
  assumes "sorted_wrt pair_less (p # qs)"
  shows "sorted_wrt key_less (map pair_key (p # keep_adj p qs))"
  using assms
proof (induction qs arbitrary: p)
  case (Cons q qs)
  show ?case
  proof (cases "same_key (pair_key q) (pair_key p)")
    case True
    have "sorted_wrt pair_less (p # qs)" using Cons.prems by auto
    from Cons.IH [OF this] True show ?thesis by simp
  next
    case False
    then have pq: "key_less (pair_key p) (pair_key q)"
      using Cons.prems by (auto simp: pair_less_def same_key_def)
    have "sorted_wrt key_less (map pair_key (q # keep_adj q qs))"
      using Cons.prems by (intro Cons.IH) simp
    then show ?thesis using False pq by (auto intro: key_less_trans)
  qed
qed simp

lemma dedupe_sorted: "sorted_wrt pair_less ys \<Longrightarrow> sorted_wrt key_less (map pair_key (dedupe ys))"
  using keep_adj_sorted by (cases ys) (simp, metis dedupe.simps(2))

lemma keep_adj_covers:
  "x \<in> set (p # qs) \<Longrightarrow> sorted_wrt pair_less (p # qs) \<Longrightarrow>
     \<exists>r \<in> set (p # keep_adj p qs). same_key (pair_key r) (pair_key x) \<and> pair_order x \<le> pair_order r"
proof (induction p qs rule: keep_adj.induct)
  case (1 p)
  then show ?case by (simp add: same_key_def)
next
  case (2 p q qs)
  show ?case
  proof (cases "same_key (pair_key q) (pair_key p)")
    case True
    then have "pair_order q \<le> pair_order p"
      using "2.prems"(2) by (auto simp: pair_less_def same_key_def key_less_def)
    moreover have "x \<in> set (p # qs) \<Longrightarrow> \<exists>r \<in> set (p # keep_adj p qs).
        same_key (pair_key r) (pair_key x) \<and> pair_order x \<le> pair_order r"
      using "2.IH"(1) [OF True] "2.prems"(2) by auto
    ultimately show ?thesis using True "2.prems"(1) by (auto dest: same_key_sym)
  next
    case False
    have "x \<in> set (q # qs) \<Longrightarrow> \<exists>r \<in> set (q # keep_adj q qs).
        same_key (pair_key r) (pair_key x) \<and> pair_order x \<le> pair_order r"
      using "2.IH"(2) [OF False] "2.prems"(2) by auto
    then show ?thesis using False "2.prems"(1) by (auto simp: same_key_def)
  qed
qed

lemma dedupe_covers:
  "x \<in> set ys \<Longrightarrow> sorted_wrt pair_less ys \<Longrightarrow>
     \<exists>r \<in> set (dedupe ys). same_key (pair_key r) (pair_key x) \<and> pair_order x \<le> pair_order r"
  using keep_adj_covers by (cases ys) (auto simp del: keep_adj.simps)

text \<open>The value that an object has for a key: in the source only distinct keys remain, in the
  sequence of pairs as they were pushed the last one counts.\<close>

definition pair_bindings :: "gtype_value gtype_pair list \<Rightarrow> (bytes \<times> gtype_value) list" where
  "pair_bindings ps = map (\<lambda>p. (string_bytes (pair_key p), pair_value p)) ps"

lemma map_of_bindings_rev:
  assumes "sorted_wrt (<) (map pair_order ps)" "r \<in> set ps"
    and "\<And>x. x \<in> set ps \<Longrightarrow> same_key (pair_key r) (pair_key x) \<Longrightarrow> pair_order x \<le> pair_order r"
  shows "map_of (rev (pair_bindings ps)) (string_bytes (pair_key r)) = Some (pair_value r)"
  using assms
proof (induction ps rule: rev_induct)
  case (snoc x ps)
  show ?case
  proof (cases "r = x")
    case True
    then show ?thesis by (simp add: pair_bindings_def)
  next
    case False
    then have r: "r \<in> set ps" using snoc.prems(2) by simp
    then have "pair_order r < pair_order x" using snoc.prems(1) by (auto simp: sorted_wrt_append)
    then have "\<not> same_key (pair_key r) (pair_key x)" using snoc.prems(3) [of x] by fastforce
    moreover have "map_of (rev (pair_bindings ps)) (string_bytes (pair_key r)) = Some (pair_value r)"
      using snoc r by (intro snoc.IH) (auto simp: sorted_wrt_append)
    ultimately show ?thesis by (simp add: pair_bindings_def same_key_def)
  qed
qed simp

lemma map_of_bindings_sorted:
  assumes "sorted_wrt key_less (map pair_key rs)" "r \<in> set rs"
  shows "map_of (pair_bindings rs) (string_bytes (pair_key r)) = Some (pair_value r)"
  using assms
proof (induction rs)
  case (Cons x rs)
  then have "r \<noteq> x \<Longrightarrow> string_bytes (pair_key x) \<noteq> string_bytes (pair_key r)"
    using key_less_not_same [of "pair_key x" "pair_key r"] by (auto simp: same_key_def)
  with Cons show ?case by (cases "r = x") (auto simp: pair_bindings_def)
qed simp

lemma sorted_keys_unique:
  "sorted_wrt key_less (map pair_key rs) \<Longrightarrow> r \<in> set rs \<Longrightarrow> r' \<in> set rs \<Longrightarrow>
     same_key (pair_key r) (pair_key r') \<Longrightarrow> r = r'"
  by (induction rs) (auto dest: key_less_not_same same_key_sym)

lemma map_of_bindings_None:
  "map_of (pair_bindings ps) k = None \<longleftrightarrow> (\<forall>p \<in> set ps. string_bytes (pair_key p) \<noteq> k)"
  by (force simp: pair_bindings_def map_of_eq_None_iff image_iff)

lemma uniqueify_facts:
  assumes "qsort_arg_ok q" "sorted_wrt (<) (map pair_order ps)"
  defines "rs \<equiv> uniqueify_gtype_object q ps"
  shows "sorted_wrt key_less (map pair_key rs)" "set rs \<subseteq> set ps"
    "map_of (pair_bindings rs) = map_of (rev (pair_bindings ps))"
proof -
  have "distinct (map pair_order ps)"
    using assms(2) by (auto simp: strict_sorted_iff)
  then obtain ys where ys: "mset ys = mset ps" "sorted_wrt pair_less ys" and rs: "rs = dedupe ys"
    using uniqueify_dedupe [OF assms(1)] unfolding rs_def by blast
  have set: "set ys = set ps" using ys(1) by (rule mset_eq_setD)
  show s: "sorted_wrt key_less (map pair_key rs)" unfolding rs by (rule dedupe_sorted [OF ys(2)])
  show sub: "set rs \<subseteq> set ps" using set_dedupe [of ys] set rs by simp
  show "map_of (pair_bindings rs) = map_of (rev (pair_bindings ps))"
  proof
    fix k
    show "map_of (pair_bindings rs) k = map_of (rev (pair_bindings ps)) k"
    proof (cases "\<exists>p \<in> set ps. string_bytes (pair_key p) = k")
      case False
      then have "map_of (pair_bindings rs) k = None" "map_of (rev (pair_bindings ps)) k = None"
        using sub by (force simp: map_of_bindings_None map_of_eq_None_iff pair_bindings_def)+
      then show ?thesis by simp
    next
      case True
      then obtain x where x: "x \<in> set ps" "string_bytes (pair_key x) = k" by blast
      then obtain r where r: "r \<in> set rs" "same_key (pair_key r) (pair_key x)"
        using dedupe_covers [OF _ ys(2)] set rs by auto
      have max: "pair_order y \<le> pair_order r" if y: "y \<in> set ps" "same_key (pair_key r) (pair_key y)" for y
      proof -
        obtain r' where r': "r' \<in> set rs" "same_key (pair_key r') (pair_key y)"
          "pair_order y \<le> pair_order r'"
          using dedupe_covers [OF _ ys(2)] set rs y by auto
        have "r' = r"
          by (rule sorted_keys_unique [OF s r'(1) r(1)]) (use r'(2) y(2) in \<open>simp add: same_key_def\<close>)
        with r'(3) show ?thesis by simp
      qed
      have "k = string_bytes (pair_key r)" using r x by (simp add: same_key_def)
      then show ?thesis
        using map_of_bindings_sorted [OF s r(1)] map_of_bindings_rev [OF assms(2), of r] r sub max
        by (metis subsetD)
    qed
  qed
qed

subsection \<open>Objects that are already in order\<close>

lemma strict_sorted_unique:
  assumes "sorted_wrt R xs" "sorted_wrt R ys" "set xs = set ys" and "\<And>x y. R x y \<Longrightarrow> \<not> R y x"
  shows "xs = ys"
  using assms(1-3)
proof (induction xs arbitrary: ys)
  case (Cons x xs)
  then obtain y ys' where ys: "ys = y # ys'" by (cases ys) auto
  have xy: "x = y"
  proof (rule ccontr)
    assume "x \<noteq> y"
    then have "R y x" "R x y" using Cons.prems ys by auto
    then show False using assms(4) by blast
  qed
  have "\<not> R x x" "\<not> R y y" using assms(4) by blast+
  then have "x \<notin> set xs" "y \<notin> set ys'" using Cons.prems ys by auto
  then have "set xs = set ys'" using Cons.prems(3) ys xy by auto
  then show ?case using Cons ys xy by auto
qed simp

lemma pair_less_asym: "pair_less p q \<Longrightarrow> \<not> pair_less q p"
  using pair_less_trans pair_less_irrefl by blast

lemma dedupe_distinct_keys:
  assumes "sorted_wrt key_less (map pair_key ps)"
  shows "dedupe ps = ps"
proof (cases ps)
  case (Cons p qs)
  have "keep_adj p qs = qs"
  proof (rule keep_adj_id)
    fix i assume "Suc i < length (p # qs)"
    then have "key_less (pair_key ((p # qs) ! i)) (pair_key ((p # qs) ! Suc i))"
      using sorted_wrt_nth_less [of _ "p # qs" i "Suc i"] assms unfolding Cons sorted_wrt_map by blast
    then show "\<not> same_key (pair_key ((p # qs) ! i)) (pair_key ((p # qs) ! Suc i))"
      by (rule key_less_not_same)
  qed
  then show ?thesis by (simp add: Cons)
qed simp

lemma uniqueify_sorted:
  assumes "qsort_arg_ok q" "distinct (map pair_order ps)" "sorted_wrt key_less (map pair_key ps)"
  shows "uniqueify_gtype_object q ps = ps"
proof -
  obtain ys where ys: "mset ys = mset ps" "sorted_wrt pair_less ys"
    and u: "uniqueify_gtype_object q ps = dedupe ys"
    using uniqueify_dedupe [OF assms(1,2)] by blast
  have "sorted_wrt pair_less ps"
    using assms(3) unfolding sorted_wrt_map
    by (rule sorted_wrt_mono_rel [rotated]) (simp add: pair_less_def)
  then have "ys = ps"
    by (rule strict_sorted_unique [OF ys(2) _ mset_eq_setD [OF ys(1)] pair_less_asym])
  then show ?thesis using u dedupe_distinct_keys [OF assms(3)] by simp
qed

subsection \<open>A sort that meets the contract\<close>

text \<open>Insertion sort, which then asks the comparator about the neighbours in its result; it shows
  that the contract of \<open>qsort_arg\<close> can be met, and evaluates.\<close>

fun insert_cmp :: "('a \<Rightarrow> 'a \<Rightarrow> int \<times> bool) \<Rightarrow> 'a \<Rightarrow> 'a list \<Rightarrow> 'a list" where
  "insert_cmp cmp x [] = [x]"
| "insert_cmp cmp x (y # ys) = (if fst (cmp x y) < 0 then x # y # ys else y # insert_cmp cmp x ys)"

fun neighbours_flag :: "('a \<Rightarrow> 'a \<Rightarrow> int \<times> bool) \<Rightarrow> 'a list \<Rightarrow> bool" where
  "neighbours_flag cmp (x # y # zs) \<longleftrightarrow> snd (cmp x y) \<or> neighbours_flag cmp (y # zs)"
| "neighbours_flag cmp _ \<longleftrightarrow> False"

definition insertion_qsort :: "'a qsort" where
  "insertion_qsort cmp xs = (let ys = foldr (insert_cmp cmp) xs [] in (ys, neighbours_flag cmp ys))"

lemma mset_insert_cmp: "mset (insert_cmp cmp x ys) = add_mset x (mset ys)"
  by (induction ys) auto

lemma set_insert_cmp: "set (insert_cmp cmp x ys) = insert x (set ys)"
  using mset_insert_cmp [of cmp x ys] by (metis set_mset_add_mset_insert set_mset_mset)

lemma mset_foldr_insert: "mset (foldr (insert_cmp cmp) xs []) = mset xs"
  by (induction xs) (simp_all add: mset_insert_cmp)

lemma neighbours_flag_nth:
  "Suc i < length ys \<Longrightarrow> snd (cmp (ys ! i) (ys ! Suc i)) \<Longrightarrow> neighbours_flag cmp ys"
proof (induction cmp ys arbitrary: i rule: neighbours_flag.induct)
  case (1 cmp x y zs)
  then show ?case by (cases i) auto
qed auto

lemma insert_cmp_sorted:
  assumes "sorted_wrt R ys" and R: "\<And>a b. R a b \<longleftrightarrow> fst (cmp a b) < 0" and "x \<notin> set ys"
    and "\<And>a. a \<in> set ys \<Longrightarrow> \<not> R x a \<Longrightarrow> R a x"
    and "\<And>a b. a \<in> set ys \<Longrightarrow> b \<in> set ys \<Longrightarrow> R x a \<Longrightarrow> R a b \<Longrightarrow> R x b"
  shows "sorted_wrt R (insert_cmp cmp x ys)"
  using assms(1,3-5)
proof (induction ys)
  case (Cons y ys)
  show ?case
  proof (cases "R x y")
    case True
    then have "\<forall>b \<in> set ys. R x b" using Cons.prems(1) Cons.prems(4) [of y] by simp
    then show ?thesis using True Cons.prems(1) by (simp add: R [symmetric])
  next
    case False
    then have "R y x" using Cons.prems(3) by simp
    moreover have "sorted_wrt R (insert_cmp cmp x ys)"
      using Cons.prems(1,2) by (intro Cons.IH) (auto intro: Cons.prems(3) Cons.prems(4))
    ultimately show ?thesis using False Cons.prems(1) by (simp add: R [symmetric] set_insert_cmp)
  qed
qed simp

lemma insertion_qsort_ok: "qsort_arg_ok insertion_qsort"
  unfolding qsort_arg_ok_def
proof (intro allI impI, elim conjE, intro conjI)
  fix cmp :: "'a \<Rightarrow> 'a \<Rightarrow> int \<times> bool" and xs :: "'a list"
  assume d: "distinct xs"
    and t: "\<forall>x \<in> set xs. \<forall>y \<in> set xs. x \<noteq> y \<longrightarrow> (fst (cmp x y) < 0 \<longleftrightarrow> \<not> fst (cmp y x) < 0)"
    and tr: "\<forall>x \<in> set xs. \<forall>y \<in> set xs. \<forall>z \<in> set xs.
          fst (cmp x y) < 0 \<longrightarrow> fst (cmp y z) < 0 \<longrightarrow> fst (cmp x z) < 0"
  show m: "mset (fst (insertion_qsort cmp xs)) = mset xs"
    by (simp add: insertion_qsort_def Let_def mset_foldr_insert)
  then have len: "length (fst (insertion_qsort cmp xs)) = length xs" by (metis size_mset)
  then show "\<forall>i. Suc i < length xs \<longrightarrow>
            snd (cmp (fst (insertion_qsort cmp xs) ! i) (fst (insertion_qsort cmp xs) ! Suc i)) \<longrightarrow>
            snd (insertion_qsort cmp xs)"
    by (auto simp: insertion_qsort_def Let_def intro: neighbours_flag_nth)
  have "sorted_wrt (\<lambda>x y. fst (cmp x y) < 0) (foldr (insert_cmp cmp) xs [])"
    using d t tr
  proof (induction xs)
    case Nil
    show ?case by simp
  next
    case (Cons x xs)
    have set: "set (foldr (insert_cmp cmp) xs []) = set xs" by (rule mset_eq_setD [OF mset_foldr_insert])
    have x: "x \<notin> set xs" "distinct xs" using Cons.prems(1) by simp_all
    have t': "fst (cmp a b) < 0 \<longleftrightarrow> \<not> fst (cmp b a) < 0"
      if "a \<in> insert x (set xs)" "b \<in> insert x (set xs)" "a \<noteq> b" for a b
      using Cons.prems(2) that unfolding list.set by blast
    have tr': "fst (cmp a c) < 0"
      if "a \<in> insert x (set xs)" "b \<in> insert x (set xs)" "c \<in> insert x (set xs)"
        "fst (cmp a b) < 0" "fst (cmp b c) < 0" for a b c
      using Cons.prems(3) that unfolding list.set by blast
    have IH: "sorted_wrt (\<lambda>x y. fst (cmp x y) < 0) (foldr (insert_cmp cmp) xs [])"
      by (rule Cons.IH [OF x(2)]) (use Cons.prems(2,3) in \<open>unfold list.set; blast\<close>)+
    have "sorted_wrt (\<lambda>x y. fst (cmp x y) < 0) (insert_cmp cmp x (foldr (insert_cmp cmp) xs []))"
    proof (rule insert_cmp_sorted [OF IH refl], unfold set)
      show "fst (cmp a x) < 0" if "a \<in> set xs" "\<not> fst (cmp x a) < 0" for a
        using t' [of a x] x(1) that by blast
      show "fst (cmp x b) < 0" if "a \<in> set xs" "b \<in> set xs" "fst (cmp x a) < 0" "fst (cmp a b) < 0"
        for a b
        using tr' [of x a b] that by blast
    qed (rule x(1))
    then show ?case by simp
  qed
  then show "sorted_wrt (\<lambda>x y. fst (cmp x y) < 0) (fst (insertion_qsort cmp xs))"
    by (simp add: insertion_qsort_def Let_def)
qed

end
