(* ===== verification/GType_Push.thy ===== *)
theory GType_Push
  imports GType_Iterator GType_Object
begin

text \<open>
  Building a \<open>gtype\<close> value from tokens: \<open>push_gtype_value\<close> and its subroutines, and
  \<open>gtype_value_to_gtype\<close>, in \<open>src/src/backend/utils/adt/gtype_util.c\<close>.  The chain of parse states is
  a list with the innermost open container first; of each the model keeps the container built
  so far, the number of slots allocated for its children, and the key that has been written
  into the next slot but has no value yet.  A call that would fail one of the source's
  assertions, or read through a null pointer, is \<open>ContractViolation\<close>.
\<close>

record gtype_parse_state =
  ps_size :: nat
  ps_cont :: gtype_value
  ps_key :: "(gtype_value \<times> nat) option"

text \<open>The limits, with PostgreSQL's \<open>MaxAllocSize\<close> and the 32 and 72 bytes that a \<open>gtype_value\<close> and a
  \<open>gtype_pair\<close> take on a 64-bit build.\<close>

definition GTYPE_MAX_ELEMS :: nat where
  "GTYPE_MAX_ELEMS = min (0x3FFFFFFF div 32) (unat GT_CMASK)"

definition GTYPE_MAX_PAIRS :: nat where
  "GTYPE_MAX_PAIRS = min (0x3FFFFFFF div 72) (unat GT_CMASK)"

definition append_key :: "gtype_parse_state \<Rightarrow> gtype_value \<Rightarrow> gtype_error + gtype_parse_state" where
  "append_key pstate string =
     (case ps_cont pstate of
        GTV_OBJECT pairs \<Rightarrow>
          if \<not> is_string string then Inl ContractViolation
          else sum_bind (check (\<not> length pairs \<ge> GTYPE_MAX_PAIRS) TooManyPairs) (\<lambda>_.
            let pstate = (if length pairs \<ge> ps_size pstate
                          then pstate \<lparr>ps_size := ps_size pstate * 2\<rparr> else pstate)
            in Inr (pstate \<lparr>ps_key := Some (string, length pairs)\<rparr>))
      | _ \<Rightarrow> Inl ContractViolation)"

definition append_value :: "gtype_parse_state \<Rightarrow> gtype_value \<Rightarrow> gtype_error + gtype_parse_state" where
  "append_value pstate scalar_val =
     (case (ps_cont pstate, ps_key pstate) of
        (GTV_OBJECT pairs, Some (key, order)) \<Rightarrow>
          Inr (pstate \<lparr>ps_cont := GTV_OBJECT (pairs @ [GPair key scalar_val order]), ps_key := None\<rparr>)
      | _ \<Rightarrow> Inl ContractViolation)"

definition append_element :: "gtype_parse_state \<Rightarrow> gtype_value \<Rightarrow> gtype_error + gtype_parse_state" where
  "append_element pstate scalar_val =
     (case ps_cont pstate of
        GTV_ARRAY raw_scalar elems \<Rightarrow>
          sum_bind (check (\<not> length elems \<ge> GTYPE_MAX_ELEMS) TooManyElems) (\<lambda>_.
            let pstate = (if length elems \<ge> ps_size pstate
                          then pstate \<lparr>ps_size := ps_size pstate * 2\<rparr> else pstate)
            in Inr (pstate \<lparr>ps_cont := GTV_ARRAY raw_scalar (elems @ [scalar_val])\<rparr>))
      | _ \<Rightarrow> Inl ContractViolation)"

text \<open>Closing a container: it becomes an element or a value of the one around it, if any.\<close>

definition pop_into_parent ::
    "gtype_value \<Rightarrow> gtype_parse_state list \<Rightarrow> gtype_error + gtype_value option \<times> gtype_parse_state list" where
  "pop_into_parent result next =
     (case next of
        [] \<Rightarrow> Inr (Some result, [])
      | parent # rest \<Rightarrow>
          (case ps_cont parent of
             GTV_ARRAY _ _ \<Rightarrow>
               sum_bind (append_element parent result) (\<lambda>parent. Inr (Some result, parent # rest))
           | GTV_OBJECT _ \<Rightarrow>
               sum_bind (append_value parent result) (\<lambda>parent. Inr (Some result, parent # rest))
           | _ \<Rightarrow> Inl InvalidContainerType))"

text \<open>One token.  The argument is \<open>IterUnset\<close> for the null pointer and \<open>IterArray\<close> for the
  pseudo-array that announces a raw scalar; the first result is the pointer returned, \<open>None\<close> for
  null.\<close>

fun push_gtype_value_scalar ::
    "gtype_value gtype_pair qsort \<Rightarrow> gtype_parse_state list \<Rightarrow> gtype_iterator_token \<Rightarrow> iter_val
       \<Rightarrow> gtype_error + gtype_value option \<times> gtype_parse_state list" where
  "push_gtype_value_scalar qsort_arg pstate WGT_BEGIN_ARRAY scalar_val =
     (case scalar_val of
        IterUnset \<Rightarrow>
          let ns = \<lparr>ps_size = 4, ps_cont = GTV_ARRAY False [], ps_key = None\<rparr>
          in Inr (Some (ps_cont ns), ns # pstate)
      | IterArray num_elems raw_scalar \<Rightarrow>
          if \<not> raw_scalar then Inl ContractViolation
          else let ns = \<lparr>ps_size = (if num_elems > 0 then num_elems else 4),
                         ps_cont = GTV_ARRAY raw_scalar [], ps_key = None\<rparr>
               in Inr (Some (ps_cont ns), ns # pstate)
      | _ \<Rightarrow> Inl ContractViolation)"
| "push_gtype_value_scalar qsort_arg pstate WGT_BEGIN_OBJECT scalar_val =
     (if scalar_val \<noteq> IterUnset then Inl ContractViolation
      else let ns = \<lparr>ps_size = 4, ps_cont = GTV_OBJECT [], ps_key = None\<rparr>
           in Inr (Some (ps_cont ns), ns # pstate))"
| "push_gtype_value_scalar qsort_arg (cur # rest) WGT_KEY (IterVal scalar_val) =
     sum_bind (append_key cur scalar_val) (\<lambda>cur. Inr (None, cur # rest))"
| "push_gtype_value_scalar qsort_arg (cur # rest) WGT_VALUE (IterVal scalar_val) =
     (if \<not> IS_A_GTYPE_SCALAR scalar_val then Inl ContractViolation
      else sum_bind (append_value cur scalar_val) (\<lambda>cur. Inr (None, cur # rest)))"
| "push_gtype_value_scalar qsort_arg (cur # rest) WGT_ELEM (IterVal scalar_val) =
     (if \<not> IS_A_GTYPE_SCALAR scalar_val then Inl ContractViolation
      else sum_bind (append_element cur scalar_val) (\<lambda>cur. Inr (None, cur # rest)))"
| "push_gtype_value_scalar qsort_arg (cur # rest) WGT_END_OBJECT IterUnset =
     (case ps_cont cur of
        GTV_OBJECT pairs \<Rightarrow>
          pop_into_parent (GTV_OBJECT (uniqueify_gtype_object qsort_arg pairs)) rest
      | _ \<Rightarrow> Inl ContractViolation)"
| "push_gtype_value_scalar qsort_arg (cur # rest) WGT_END_ARRAY IterUnset =
     pop_into_parent (ps_cont cur) rest"
| "push_gtype_value_scalar qsort_arg pstate WGT_DONE scalar_val = Inl UnrecognizedToken"
| "push_gtype_value_scalar qsort_arg pstate seq scalar_val = Inl ContractViolation"

text \<open>The argument that the unpacking loop passes on: \<open>tok < WGT_BEGIN_ARRAY ? &v : NULL\<close>.\<close>

definition token_arg :: "gtype_iterator_token \<Rightarrow> iter_val \<Rightarrow> iter_val" where
  "token_arg tok v = (if tok \<in> {WGT_DONE, WGT_KEY, WGT_VALUE, WGT_ELEM} then v else IterUnset)"

text \<open>Unpacking a serialised container, for at most \<open>n\<close> calls of the iterator.\<close>

fun push_binary ::
    "(memory \<Rightarrow> nat \<Rightarrow> nat) \<Rightarrow> memory \<Rightarrow> gtype_value gtype_pair qsort \<Rightarrow> nat \<Rightarrow> gtype_iterator list
       \<Rightarrow> gtype_value option \<Rightarrow> gtype_parse_state list
       \<Rightarrow> (gtype_error + gtype_value option \<times> gtype_parse_state list) option" where
  "push_binary varsize mem qsort_arg 0 it res pstate = None"
| "push_binary varsize mem qsort_arg (Suc n) it res pstate =
     (case gtype_iterator_next varsize mem it False of
        Inl e \<Rightarrow> Some (Inl e)
      | Inr (tok, v, it) \<Rightarrow>
          if tok = WGT_DONE then Some (Inr (res, pstate))
          else (case push_gtype_value_scalar qsort_arg pstate tok (token_arg tok v) of
                  Inl e \<Rightarrow> Some (Inl e)
                | Inr (res, pstate) \<Rightarrow> push_binary varsize mem qsort_arg n it res pstate))"

definition push_gtype_value ::
    "(memory \<Rightarrow> nat \<Rightarrow> nat) \<Rightarrow> memory \<Rightarrow> gtype_value gtype_pair qsort \<Rightarrow> nat \<Rightarrow> gtype_parse_state list
       \<Rightarrow> gtype_iterator_token \<Rightarrow> iter_val
       \<Rightarrow> (gtype_error + gtype_value option \<times> gtype_parse_state list) option" where
  "push_gtype_value varsize mem qsort_arg n pstate seq agtval =
     (case agtval of
        IterVal (GTV_BINARY data len) \<Rightarrow>
          if seq \<noteq> WGT_ELEM \<and> seq \<noteq> WGT_VALUE
          then Some (push_gtype_value_scalar qsort_arg pstate seq agtval)
          else (case gtype_iterator_init mem data of
                  Inl e \<Rightarrow> Some (Inl e)
                | Inr it \<Rightarrow> push_binary varsize mem qsort_arg n it None pstate)
      | _ \<Rightarrow> Some (push_gtype_value_scalar qsort_arg pstate seq agtval))"

text \<open>Serialising any value: a scalar is wrapped into a raw scalar array, a serialised container is
  copied.  \<open>varhdr\<close> is the 4-byte varlena header for a length.\<close>

definition gtype_value_to_gtype ::
    "(bytes \<Rightarrow> nat \<Rightarrow> bytes) \<Rightarrow> memory \<Rightarrow> memory \<Rightarrow> gtype_value gtype_pair qsort \<Rightarrow> gtype_value
       \<Rightarrow> gtype_error + bytes" where
  "gtype_value_to_gtype set_varsize junk mem qsort_arg val =
     (if IS_A_GTYPE_SCALAR val then
        sum_bind (push_gtype_value_scalar qsort_arg [] WGT_BEGIN_ARRAY (IterArray 1 True)) (\<lambda>(_, pstate).
        sum_bind (push_gtype_value_scalar qsort_arg pstate WGT_ELEM (IterVal val)) (\<lambda>(_, pstate).
        sum_bind (push_gtype_value_scalar qsort_arg pstate WGT_END_ARRAY IterUnset) (\<lambda>(res, _).
          case res of Some v \<Rightarrow> convert_to_gtype set_varsize junk v | None \<Rightarrow> Inl ContractViolation)))
      else case val of
        GTV_BINARY data len \<Rightarrow>
          let (out, _) = reserve_from_buffer junk [] (4 + len);
              out = set_varsize out (4 + len)
          in Inr (poke out 4 (load_bytes mem data len))
      | _ \<Rightarrow> convert_to_gtype set_varsize junk val)"

subsection \<open>Slots are allocated before they are written\<close>

text \<open>Every child, and the slot of a pending key, lies within the allocated ones.\<close>

definition frame_ok :: "gtype_parse_state \<Rightarrow> bool" where
  "frame_ok f \<longleftrightarrow> 0 < ps_size f
     \<and> (case ps_cont f of
           GTV_ARRAY _ es \<Rightarrow> length es \<le> ps_size f \<and> ps_key f = None
         | GTV_OBJECT ps \<Rightarrow> length ps \<le> ps_size f \<and> (ps_key f \<noteq> None \<longrightarrow> length ps < ps_size f)
         | _ \<Rightarrow> False)"

lemma append_key_ok: "frame_ok f \<Longrightarrow> append_key f s = Inr f' \<Longrightarrow> frame_ok f'"
  by (auto simp: append_key_def frame_ok_def Let_def split: gtype_value.splits if_splits)

lemma append_value_ok: "frame_ok f \<Longrightarrow> append_value f v = Inr f' \<Longrightarrow> frame_ok f'"
  by (auto simp: append_value_def frame_ok_def Suc_le_eq split: gtype_value.splits option.splits)

lemma append_element_ok: "frame_ok f \<Longrightarrow> append_element f v = Inr f' \<Longrightarrow> frame_ok f'"
  by (auto simp: append_element_def frame_ok_def Let_def Suc_le_eq split: gtype_value.splits if_splits)

lemma pop_into_parent_ok:
  "\<forall>f \<in> set fs. frame_ok f \<Longrightarrow> pop_into_parent v fs = Inr (r, fs') \<Longrightarrow> \<forall>f \<in> set fs'. frame_ok f"
  by (cases fs) (auto simp: pop_into_parent_def split: gtype_value.splits
      intro: append_value_ok append_element_ok)

lemma push_scalar_ok:
  "push_gtype_value_scalar q fs tok arg = Inr (r, fs') \<Longrightarrow> \<forall>f \<in> set fs. frame_ok f \<Longrightarrow>
     \<forall>f \<in> set fs'. frame_ok f"
  by (induction q fs tok arg rule: push_gtype_value_scalar.induct)
    (auto split: iter_val.splits if_splits gtype_value.splits
      intro: append_value_ok append_element_ok append_key_ok
      dest: pop_into_parent_ok simp: Let_def,
     auto simp: frame_ok_def)

subsection \<open>Pushing the tokens of a value rebuilds it\<close>

fun push_events ::
    "gtype_value gtype_pair qsort \<Rightarrow> gtype_parse_state list \<Rightarrow> gtype_value option \<Rightarrow> iter_event list
       \<Rightarrow> gtype_error + gtype_value option \<times> gtype_parse_state list" where
  "push_events q fs r [] = Inr (r, fs)"
| "push_events q fs r ((tok, v) # evs) =
     sum_bind (push_gtype_value_scalar q fs tok (token_arg tok v)) (\<lambda>(r, fs). push_events q fs r evs)"

lemma push_events_append:
  "push_events q fs r (xs @ ys) = sum_bind (push_events q fs r xs) (\<lambda>(r, fs). push_events q fs r ys)"
proof (induction xs arbitrary: fs r)
  case (Cons x xs)
  then show ?case
    by (cases x; cases "push_gtype_value_scalar q fs (fst x) (token_arg (fst x) (snd x))") auto
qed simp

text \<open>Unpacking a serialised container pushes exactly the tokens of a run over it.\<close>

lemma push_binary_run:
  "iter_run varsize mem its evs its' \<Longrightarrow> its' = [] \<Longrightarrow> length evs < n \<Longrightarrow>
     push_binary varsize mem q n its r fs = Some (push_events q fs r evs)"
proof (induction arbitrary: n r fs rule: iter_run.induct)
  case (stop its)
  then show ?case by (cases n) simp_all
next
  case (step its tok val its' evs its'')
  then show ?case
    by (cases n; cases "push_gtype_value_scalar q fs tok (token_arg tok val)") auto
qed

text \<open>The value that comes out: pairs are numbered in the order in which they stand, and the raw
  scalar mark, which the unpacking loop does not pass on, is gone.\<close>

function (sequential) rebuilt :: "gtype_value \<Rightarrow> gtype_value"
  and rebuilt_pairs :: "nat \<Rightarrow> gtype_value gtype_pair list \<Rightarrow> gtype_value gtype_pair list" where
  "rebuilt (GTV_ARRAY raw es) = GTV_ARRAY False (map rebuilt es)"
| "rebuilt (GTV_OBJECT ps) = GTV_OBJECT (rebuilt_pairs 0 ps)"
| "rebuilt v = v"
| "rebuilt_pairs i [] = []"
| "rebuilt_pairs i (p # ps) =
     GPair (pair_key p) (rebuilt (pair_value p)) i # rebuilt_pairs (Suc i) ps"
  by pat_completeness auto
termination
proof (relation "measure (case_sum size (\<lambda>(_, ps). size_list (size_gtype_pair size) ps))", goal_cases)
  case (2 raw es x)
  then show ?case using size_list_estimation' [OF 2 order_refl, of size] by simp
next
  case (4 i p ps)
  then show ?case by (cases p) simp
next
  case (5 i p ps)
  then show ?case by (cases p) simp
qed simp_all

text \<open>Objects with strictly sorted keys, containers within the limits, no serialised container.\<close>

fun normal :: "gtype_value \<Rightarrow> bool" where
  "normal (GTV_ARRAY raw es) \<longleftrightarrow> length es \<le> GTYPE_MAX_ELEMS \<and> (\<forall>e \<in> set es. normal e)"
| "normal (GTV_OBJECT ps) \<longleftrightarrow> length ps \<le> GTYPE_MAX_PAIRS
     \<and> sorted_wrt key_less (map pair_key ps)
     \<and> (\<forall>p \<in> set ps. is_string (pair_key p) \<and> normal (pair_value p))"
| "normal (GTV_BINARY _ _) \<longleftrightarrow> False"
| "normal v \<longleftrightarrow> True"

definition container_pushes :: "gtype_value gtype_pair qsort \<Rightarrow> gtype_value \<Rightarrow> bool" where
  "container_pushes q v \<longleftrightarrow>
     (\<forall>fs r tok. push_events q fs r (value_events tok v) = pop_into_parent (rebuilt v) fs)"

lemma rebuilt_scalar: "IS_A_GTYPE_SCALAR v \<Longrightarrow> rebuilt v = v"
  by (cases v) simp_all

lemma push_elem:
  assumes "IS_A_GTYPE_SCALAR v \<or> container_pushes q v"
    and "ps_cont f = GTV_ARRAY raw es" "length es < GTYPE_MAX_ELEMS"
  shows "\<exists>r' f'. push_events q (f # fs) r (value_events WGT_ELEM v) = Inr (r', f' # fs)
     \<and> ps_cont f' = GTV_ARRAY raw (es @ [rebuilt v])"
  using assms
  by (auto simp: container_pushes_def value_events_scalar rebuilt_scalar token_arg_def
      append_element_def pop_into_parent_def Let_def)

lemma push_value:
  assumes "IS_A_GTYPE_SCALAR v \<or> container_pushes q v"
    and "ps_cont f = GTV_OBJECT ps" "ps_key f = Some (k, i)"
  shows "\<exists>r' f'. push_events q (f # fs) r (value_events WGT_VALUE v) = Inr (r', f' # fs)
     \<and> ps_cont f' = GTV_OBJECT (ps @ [GPair k (rebuilt v) i])"
  using assms
  by (auto simp: container_pushes_def value_events_scalar rebuilt_scalar token_arg_def
      append_value_def pop_into_parent_def Let_def)

lemma push_elems:
  assumes "\<forall>v \<in> set vs. IS_A_GTYPE_SCALAR v \<or> container_pushes q v"
    and "ps_cont f = GTV_ARRAY raw es" "length es + length vs \<le> GTYPE_MAX_ELEMS"
  shows "\<exists>r' f'. push_events q (f # fs) r (concat (map (value_events WGT_ELEM) vs)) = Inr (r', f' # fs)
     \<and> ps_cont f' = GTV_ARRAY raw (es @ map rebuilt vs)"
  using assms
proof (induction vs arbitrary: f r es)
  case (Cons v vs)
  obtain r1 f1 where 1: "push_events q (f # fs) r (value_events WGT_ELEM v) = Inr (r1, f1 # fs)"
    "ps_cont f1 = GTV_ARRAY raw (es @ [rebuilt v])"
    using push_elem [of v q f raw es fs r] Cons.prems by auto
  obtain r2 f2 where "push_events q (f1 # fs) r1 (concat (map (value_events WGT_ELEM) vs)) = Inr (r2, f2 # fs)"
    "ps_cont f2 = GTV_ARRAY raw ((es @ [rebuilt v]) @ map rebuilt vs)"
    using Cons.IH [of f1 "es @ [rebuilt v]" r1] Cons.prems 1(2) by auto
  with 1 show ?case by (simp add: push_events_append)
qed simp

lemma push_pair:
  assumes "IS_A_GTYPE_SCALAR v \<or> container_pushes q v" "is_string k"
    and "ps_cont f = GTV_OBJECT ps" "length ps < GTYPE_MAX_PAIRS"
  shows "\<exists>r' f'. push_events q (f # fs) r ((WGT_KEY, IterVal k) # value_events WGT_VALUE v)
       = Inr (r', f' # fs)
     \<and> ps_cont f' = GTV_OBJECT (ps @ [GPair k (rebuilt v) (length ps)])"
proof -
  define f1 where "f1 = (if length ps \<ge> ps_size f then f \<lparr>ps_size := ps_size f * 2\<rparr> else f)
      \<lparr>ps_key := Some (k, length ps)\<rparr>"
  have "push_gtype_value_scalar q (f # fs) WGT_KEY (IterVal k) = Inr (None, f1 # fs)"
    using assms by (simp add: append_key_def f1_def Let_def)
  moreover have "ps_cont f1 = GTV_OBJECT ps" "ps_key f1 = Some (k, length ps)"
    using assms(3) by (simp_all add: f1_def)
  ultimately show ?thesis
    using push_value [OF assms(1), of f1 ps k "length ps" fs None] by (auto simp: token_arg_def)
qed

lemma push_pairs:
  assumes "\<forall>p \<in> set ps. is_string (pair_key p)
       \<and> (IS_A_GTYPE_SCALAR (pair_value p) \<or> container_pushes q (pair_value p))"
    and "ps_cont f = GTV_OBJECT ps0" "length ps0 + length ps \<le> GTYPE_MAX_PAIRS"
  shows "\<exists>r' f'. push_events q (f # fs) r (concat (map (\<lambda>p. (WGT_KEY, IterVal (pair_key p))
         # value_events WGT_VALUE (pair_value p)) ps)) = Inr (r', f' # fs)
     \<and> ps_cont f' = GTV_OBJECT (ps0 @ rebuilt_pairs (length ps0) ps)"
  using assms
proof (induction ps arbitrary: f r ps0)
  case (Cons p ps)
  obtain r1 f1 where 1: "push_events q (f # fs) r ((WGT_KEY, IterVal (pair_key p))
        # value_events WGT_VALUE (pair_value p)) = Inr (r1, f1 # fs)"
    "ps_cont f1 = GTV_OBJECT (ps0 @ [GPair (pair_key p) (rebuilt (pair_value p)) (length ps0)])"
    using push_pair [of "pair_value p" q "pair_key p" f ps0 fs r] Cons.prems by auto
  obtain r2 f2 where "push_events q (f1 # fs) r1 (concat (map (\<lambda>p. (WGT_KEY, IterVal (pair_key p))
         # value_events WGT_VALUE (pair_value p)) ps)) = Inr (r2, f2 # fs)"
    "ps_cont f2 = GTV_OBJECT (ps0 @ rebuilt_pairs (length ps0) (p # ps))"
    using Cons.IH [OF _ 1(2), of r1] Cons.prems by auto
  with 1(1) show ?case
    using push_events_append [of q "f # fs" r "(WGT_KEY, IterVal (pair_key p))
        # value_events WGT_VALUE (pair_value p)"] by (simp del: push_events.simps)
qed simp

lemma rebuilt_pairs_keys: "map pair_key (rebuilt_pairs i ps) = map pair_key ps"
  by (induction ps arbitrary: i) simp_all

lemma rebuilt_pairs_orders: "map pair_order (rebuilt_pairs i ps) = [i..<i + length ps]"
  by (induction ps arbitrary: i) (simp_all add: upt_rec)

lemma normal_pushes:
  assumes q: "qsort_arg_ok q" and "normal v" "\<not> IS_A_GTYPE_SCALAR v"
  shows "container_pushes q v"
  using assms(2,3)
proof (induction v rule: measure_induct_rule [of size])
  case (less v)
  show ?case
  proof (cases v)
    case (GTV_ARRAY raw es)
    have "size e < size v" if "e \<in> set es" for e
      using that size_list_estimation' [OF that order_refl, of size] GTV_ARRAY by simp
    then have es: "\<forall>e \<in> set es. IS_A_GTYPE_SCALAR e \<or> container_pushes q e"
      using less GTV_ARRAY by auto
    show ?thesis
      unfolding container_pushes_def
    proof (intro allI)
      fix fs r tok
      let ?f = "\<lparr>ps_size = 4, ps_cont = GTV_ARRAY False [], ps_key = None\<rparr>"
      obtain r' f' where "push_events q (?f # fs) (Some (GTV_ARRAY False []))
          (concat (map (value_events WGT_ELEM) es)) = Inr (r', f' # fs)"
        "ps_cont f' = GTV_ARRAY False (map rebuilt es)"
        using push_elems [OF es, of ?f False "[]" fs] less.prems GTV_ARRAY by fastforce
      then show "push_events q fs r (value_events tok v) = pop_into_parent (rebuilt v) fs"
        by (cases "pop_into_parent (GTV_ARRAY False (map rebuilt es)) fs")
          (auto simp: GTV_ARRAY token_arg_def push_events_append Let_def)
    qed
  next
    case (GTV_OBJECT ps)
    have "size (pair_value p) < size v" if "p \<in> set ps" for p
      using size_pair_value [OF that] GTV_OBJECT by simp
    then have ps: "\<forall>p \<in> set ps. is_string (pair_key p)
        \<and> (IS_A_GTYPE_SCALAR (pair_value p) \<or> container_pushes q (pair_value p))"
      using less GTV_OBJECT by auto
    have u: "uniqueify_gtype_object q (rebuilt_pairs 0 ps) = rebuilt_pairs 0 ps"
      using less.prems GTV_OBJECT
      by (intro uniqueify_sorted [OF q]) (simp_all add: rebuilt_pairs_keys rebuilt_pairs_orders)
    show ?thesis
      unfolding container_pushes_def
    proof (intro allI)
      fix fs r tok
      let ?f = "\<lparr>ps_size = 4, ps_cont = GTV_OBJECT [], ps_key = None\<rparr>"
      obtain r' f' where "push_events q (?f # fs) (Some (GTV_OBJECT []))
          (concat (map (\<lambda>p. (WGT_KEY, IterVal (pair_key p))
            # value_events WGT_VALUE (pair_value p)) ps)) = Inr (r', f' # fs)"
        "ps_cont f' = GTV_OBJECT (rebuilt_pairs 0 ps)"
        using push_pairs [OF ps, of ?f "[]" fs] less.prems GTV_OBJECT by fastforce
      then show "push_events q fs r (value_events tok v) = pop_into_parent (rebuilt v) fs"
        by (cases "pop_into_parent (GTV_OBJECT (rebuilt_pairs 0 ps)) fs")
          (auto simp: GTV_OBJECT token_arg_def push_events_append Let_def u)
    qed
  qed (use less.prems in simp_all)
qed

end
