(* ===== verification/GType_Roundtrip.thy ===== *)
theory GType_Roundtrip
  imports GType_Push
begin

text \<open>
  The properties of the \<open>gtype\<close> representation that span the serialiser, the iterator and the
  token interface.
\<close>

text \<open>PostgreSQL's \<open>SET_VARSIZE\<close> changes the 4-byte varlena header only.\<close>

definition set_varsize_ok :: "(bytes \<Rightarrow> nat \<Rightarrow> bytes) \<Rightarrow> bool" where
  "set_varsize_ok sv \<longleftrightarrow> (\<forall>b n. 4 \<le> length b \<longrightarrow> length (sv b n) = length b \<and> drop 4 (sv b n) = drop 4 b)"

text \<open>What is serialised: a scalar as the only element of a raw scalar array.\<close>

definition serialised :: "gtype_value \<Rightarrow> gtype_value" where
  "serialised v = (if IS_A_GTYPE_SCALAR v then GTV_ARRAY True [v] else v)"

lemma gtype_value_to_gtype_serialised:
  assumes "gtv_ok v"
  shows "gtype_value_to_gtype sv junk m q v = convert_to_gtype sv junk (serialised v)"
  using assms
  by (cases v) (simp_all add: gtype_value_to_gtype_def serialised_def append_element_def
      pop_into_parent_def Let_def GTYPE_MAX_ELEMS_def gt_flags)

lemma serialised_container: "\<not> IS_A_GTYPE_SCALAR (serialised v)"
  by (simp add: serialised_def)

lemma gtv_ok_serialised: "gtv_ok v \<Longrightarrow> gtv_ok (serialised v)"
  by (simp add: serialised_def)

lemma readable_serialised: "readable varsize v \<Longrightarrow> readable varsize (serialised v)"
  by (simp add: serialised_def)

text \<open>The datum: the varlena header and the layout of the value at position 4.\<close>

lemma convert_to_gtype_datum:
  assumes "set_varsize_ok sv" "gtv_ok v" "convert_to_gtype sv junk v = Inr datum"
  shows "fits junk 4 v" "drop 4 datum = fst (value_repr junk 4 v)" "4 \<le> length datum"
proof -
  obtain b e where b: "convert_gtype_value junk (load_bytes junk 0 4) v = Inr (b, e)"
    and d: "datum = sv b (length b)"
    using assms(3) by (auto simp: convert_to_gtype_def reserve_from_buffer_def Let_def)
  have c: "fits junk 4 v \<and> b = load_bytes junk 0 4 @ fst (value_repr junk 4 v)"
    using b convert_gtype_value_eq [OF assms(2)] by auto
  then show "fits junk 4 v" ..
  show "drop 4 datum = fst (value_repr junk 4 v)" "4 \<le> length datum"
    using c d assms(1) by (auto simp: set_varsize_ok_def)
qed

lemma datum_reads:
  assumes "set_varsize_ok sv" "gtv_ok v" "readable varsize v" "\<not> IS_A_GTYPE_SCALAR v"
    and "stamps_aligned junk 4 v" "convert_to_gtype sv junk v = Inr datum" "holds mem D datum"
  shows "container_reads varsize mem (D + 4) v"
proof -
  note c = convert_to_gtype_datum [OF assms(1,2,6)]
  have "datum = take 4 datum @ fst (value_repr junk 4 v)"
    using c(2) by (metis append_take_drop_id)
  then have "holds mem (D + 4) (fst (value_repr junk 4 v))"
    using assms(7) c(3) by (metis holds_append length_take min.absorb2)
  then show ?thesis
    using value_reads [of varsize junk mem D 4 v] assms c(1) by (simp add: reads_back_def)
qed

text \<open>The definitions that evaluate a concrete serialisation.\<close>

lemmas gtype_eval = gtype_value_to_gtype_def convert_to_gtype_def reserve_from_buffer_def Let_def
  store_entry_def copy_to_buffer_def poke_def load_bytes_def gtentry_masks gtentry_tags
  GTE_OFFLENFLD_def GT_OFFSET_STRIDE_def gt_flags le32_def le64_def GT_HEADER_SIZE_def gt_headers
  padlen_def intalign_def zeros_def check_def

text \<open>C1. Serialising a value and iterating over the datum, wherever it lies in memory, gives
  back the tokens of the value: its scalars, keys and nesting, whatever the depth.  The timestamps
  of the value must stand at a multiple of four (see C40).\<close>

theorem serialise_then_iterate:
  assumes "set_varsize_ok sv" "gtv_ok v" "readable varsize v" "stamps_aligned junk 4 (serialised v)"
    and "gtype_value_to_gtype sv junk m q v = Inr datum" "holds mem D datum"
    and "length (value_events WGT_ELEM (serialised v)) < n"
  shows "\<exists>its. gtype_iterator_init mem (D + 4) = Inr its
     \<and> iterate varsize mem n its = Some (Inr (value_events WGT_ELEM (serialised v)))"
proof -
  have "container_reads varsize mem (D + 4) (serialised v)"
    using assms by (intro datum_reads [where sv = sv and junk = junk and datum = datum])
      (simp_all add: gtype_value_to_gtype_serialised gtv_ok_serialised readable_serialised
        serialised_container)
  then show ?thesis using assms(7) by (auto elim!: container_reads_init dest: iterate_run)
qed

text \<open>C27. Serialising an array or an object and pushing the datum as one serialised value
  rebuilds the value, provided its objects have sorted keys, as every pushed object has, and its
  timestamps stand at a multiple of four (see C40).\<close>

theorem serialise_then_unpack:
  assumes "set_varsize_ok sv" "qsort_arg_ok q" "gtv_ok v" "readable varsize v" "normal v"
    and "\<not> IS_A_GTYPE_SCALAR v" "stamps_aligned junk 4 v"
    and "gtype_value_to_gtype sv junk m q v = Inr datum" "holds mem D datum"
    and "length (value_events WGT_ELEM v) < n"
  shows "push_gtype_value varsize mem q n [] WGT_ELEM (IterVal (GTV_BINARY (D + 4) len))
     = Some (Inr (Some (rebuilt v), []))"
proof -
  have "container_reads varsize mem (D + 4) v"
    using assms by (intro datum_reads [where sv = sv and junk = junk and datum = datum])
      (simp_all add: gtype_value_to_gtype_serialised serialised_def)
  then obtain its where its: "gtype_iterator_init mem (D + 4) = Inr its"
    "iter_run varsize mem its (value_events WGT_ELEM v) []"
    by (rule container_reads_init)
  have "push_binary varsize mem q n its None [] = Some (push_events q [] None (value_events WGT_ELEM v))"
    by (rule push_binary_run [OF its(2) refl assms(10)])
  also have "push_events q [] None (value_events WGT_ELEM v) = Inr (Some (rebuilt v), [])"
    using normal_pushes [OF assms(2,5,6)] by (simp add: container_pushes_def pop_into_parent_def)
  finally show ?thesis by (simp add: push_gtype_value_def its(1))
qed

theorem serialise_then_iterate_witness:
  "\<exists>datum its. gtype_value_to_gtype (\<lambda>b n. b) (\<lambda>_. 0) (\<lambda>_. 0) insertion_qsort
       (GTV_ARRAY False [GTV_STRING [97], GTV_NULL]) = Inr datum
     \<and> gtype_iterator_init (mem_of datum) (0 + 4) = Inr its
     \<and> iterate (\<lambda>_ _. 0) (mem_of datum) 6 its
        = Some (Inr (value_events WGT_ELEM (serialised (GTV_ARRAY False [GTV_STRING [97], GTV_NULL]))))"
proof -
  obtain datum where d: "gtype_value_to_gtype (\<lambda>b n. b) (\<lambda>_. 0) (\<lambda>_. 0) insertion_qsort
       (GTV_ARRAY False [GTV_STRING [97], GTV_NULL]) = Inr datum"
    by (simp add: gtype_eval)
  show ?thesis
    using serialise_then_iterate [OF _ _ _ _ d holds_mem_of, where varsize = "\<lambda>_ _. 0" and n = 6] d
    by (simp add: set_varsize_ok_def serialised_def)
qed

theorem serialise_then_unpack_witness:
  "\<exists>datum. gtype_value_to_gtype (\<lambda>b n. b) (\<lambda>_. 0) (\<lambda>_. 0) insertion_qsort
       (GTV_OBJECT [GPair (GTV_STRING [97]) (GTV_BOOL True) 7]) = Inr datum
     \<and> push_gtype_value (\<lambda>_ _. 0) (mem_of datum) insertion_qsort 6 [] WGT_ELEM
         (IterVal (GTV_BINARY (0 + 4) 0))
       = Some (Inr (Some (GTV_OBJECT [GPair (GTV_STRING [97]) (GTV_BOOL True) 0]), []))"
proof -
  let ?v = "GTV_OBJECT [GPair (GTV_STRING [97]) (GTV_BOOL True) 7]"
  obtain datum where d: "gtype_value_to_gtype (\<lambda>b n. b) (\<lambda>_. 0) (\<lambda>_. 0) insertion_qsort ?v = Inr datum"
    by (simp add: gtype_eval)
  show ?thesis
    using serialise_then_unpack [OF _ insertion_qsort_ok _ _ _ _ _ d holds_mem_of,
        where varsize = "\<lambda>_ _. 0" and n = 6 and len = 0] d
    by (simp add: set_varsize_ok_def GTYPE_MAX_PAIRS_def gt_flags)
qed

text \<open>C28. The serialiser, which reserves the entries of a container and overwrites
  them while it appends the children, succeeds exactly on the values whose containers stay within
  the 28-bit length field, and then appends the layout of the value and returns its entry.\<close>

theorem serialiser_layout:
  assumes "gtv_ok v"
  shows "case convert_gtype_value junk buffer v of
       Inl _ \<Rightarrow> \<not> fits junk (length buffer) v
     | Inr (buffer', e) \<Rightarrow> fits junk (length buffer) v
         \<and> buffer' = buffer @ fst (value_repr junk (length buffer) v)
         \<and> e = snd (value_repr junk (length buffer) v)"
  using convert_produces(1) [OF assms, of junk buffer]
  by (auto simp: produces_def value_produced_def split: if_splits sum.splits)

theorem serialiser_layout_witness:
  "convert_gtype_value (\<lambda>_. 0) [0, 0, 0, 0, 0] (GTV_ARRAY False [GTV_NULL, GTV_STRING [97]])
     = Inr (value_produced (\<lambda>_. 0) [0, 0, 0, 0, 0] (GTV_ARRAY False [GTV_NULL, GTV_STRING [97]]))"
proof -
  let ?v = "GTV_ARRAY False [GTV_NULL, GTV_STRING [97]]"
  have "fits (\<lambda>_. 0) (length ([0, 0, 0, 0, 0] :: bytes)) ?v"
    by (simp add: scalar_repr_def Let_def lensum_def length_container_bytes gtentry_tags
        gtentry_masks GTE_OFFLENFLD_def padlen_def intalign_def)
  moreover have "gtv_ok ?v" by simp
  ultimately show ?thesis
    using serialiser_layout [of ?v "\<lambda>_. 0" "[0, 0, 0, 0, 0]"]
    by (auto simp: value_produced_def split: sum.splits simp del: value_repr.simps fits.simps list.size)
qed

lemma array_children:
  assumes "gtv_ok (GTV_ARRAY raw es)" "fits junk p (GTV_ARRAY raw es)"
    "stamps_aligned junk p (GTV_ARRAY raw es)"
    "holds mem (D + p) (fst (value_repr junk p (GTV_ARRAY raw es)))"
  shows "children_at junk mem D (D + intalign p) (intalign p + 4 + 4 * length es) es"
  using assms holds_container [OF assms(4) [unfolded value_repr.simps Let_def fst_conv]]
  by (simp add: children_at_def Let_def intalign_plus_mod add.assoc)

text \<open>The children of a container in the order of their entries: those of an object are its keys and then
  its values.\<close>

definition child_values :: "gtype_value \<Rightarrow> gtype_value list" where
  "child_values v = (case v of
     GTV_ARRAY raw es \<Rightarrow> es
   | GTV_OBJECT ps \<Rightarrow> map pair_key ps @ map pair_value ps
   | _ \<Rightarrow> [])"

lemma object_children:
  assumes "gtv_ok (GTV_OBJECT ps)" "fits junk p (GTV_OBJECT ps)"
    "stamps_aligned junk p (GTV_OBJECT ps)"
    "holds mem (D + p) (fst (value_repr junk p (GTV_OBJECT ps)))"
  shows "children_at junk mem D (D + intalign p) (intalign p + 4 + 8 * length ps)
    (map pair_key ps @ map pair_value ps)"
  using assms holds_container [OF assms(4) [unfolded value_repr.simps Let_def fst_conv]]
  by (auto simp: children_at_def Let_def intalign_plus_mod add.assoc)

lemma datum_children:
  assumes "set_varsize_ok sv" "gtv_ok v" "stamps_aligned junk 4 v"
    and "convert_to_gtype sv junk v = Inr datum" "holds mem D datum" "k < length (child_values v)"
  shows "children_at junk mem D (D + 4) (8 + 4 * length (child_values v)) (child_values v)"
proof -
  note c = convert_to_gtype_datum [OF assms(1,2,4)]
  have "datum = take 4 datum @ fst (value_repr junk 4 v)"
    using c(2) by (metis append_take_drop_id)
  then have h: "holds mem (D + 4) (fst (value_repr junk 4 v))"
    using assms(5) c(3) by (metis holds_append length_take min.absorb2)
  show ?thesis
  proof (cases v)
    case (GTV_ARRAY raw es)
    then show ?thesis using array_children [of raw es junk 4 mem D] assms(2,3) c(1) h
      by (simp add: child_values_def add.commute)
  next
    case (GTV_OBJECT ps)
    then show ?thesis using object_children [of ps junk 4 mem D] assms(2,3) c(1) h
      by (simp add: child_values_def add.commute)
  qed (use assms(6) in \<open>simp_all add: child_values_def\<close>)
qed

text \<open>C26. The offset that the backward walk over the entries finds for a child of a
  serialised array or object -- an element, a key or a value -- although only every 32nd entry stores
  an offset, is the one where the child lies.  Reading it there gives the child itself if it is a
  scalar, and otherwise the address of a container whose iterator gives the tokens of the child.  The
  timestamps of the value must stand at a multiple of four: without that the offset is wrong (see
  C40).\<close>

theorem child_random_access:
  assumes "set_varsize_ok sv" "gtv_ok v" "stamps_aligned junk 4 v"
    and "convert_to_gtype sv junk v = Inr datum" "holds mem D datum"
    and "k < length (child_values v)" "readable varsize (child_values v ! k)"
  shows "if IS_A_GTYPE_SCALAR (child_values v ! k)
    then fill_gtype_value varsize mem (D + 4) k (D + (8 + 4 * length (child_values v)))
        (get_gtype_offset mem (D + 4) k) = Inr (child_values v ! k)
    else \<exists>a len its. fill_gtype_value varsize mem (D + 4) k (D + (8 + 4 * length (child_values v)))
        (get_gtype_offset mem (D + 4) k) = Inr (GTV_BINARY a len)
      \<and> gtype_iterator_init mem a = Inr its
      \<and> (\<forall>n > length (value_events WGT_ELEM (child_values v ! k)).
           iterate varsize mem n its = Some (Inr (value_events WGT_ELEM (child_values v ! k))))"
proof -
  let ?es = "child_values v"
  have ch: "children_at junk mem D (D + 4) (8 + 4 * length ?es) ?es"
    by (rule datum_children [OF assms(1-6)])
  have off: "get_gtype_offset mem (D + 4) k = child_off junk (8 + 4 * length ?es) ?es k"
    using children_get_offset [OF ch, of k] assms(6) by simp
  show ?thesis
  proof (cases "IS_A_GTYPE_SCALAR (?es ! k)")
    case True
    then show ?thesis using fill_child_scalar [OF ch assms(6) True assms(7)] off by simp
  next
    case False
    from children_read [OF ch assms(6) value_reads assms(7)] False obtain a len where
      a: "fill_gtype_value varsize mem (D + 4) k (D + (8 + 4 * length ?es))
        (child_off junk (8 + 4 * length ?es) ?es k) = Inr (GTV_BINARY a len)"
      "container_reads varsize mem a (?es ! k)" by (auto simp: child_reads_def)
    obtain its where "gtype_iterator_init mem a = Inr its"
      "iter_run varsize mem its (value_events WGT_ELEM (?es ! k)) []"
      by (rule container_reads_init [OF a(2)])
    then show ?thesis using False a(1) off by (auto dest: iterate_run)
  qed
qed

theorem child_random_access_witness:
  "\<exists>datum its a len. convert_to_gtype (\<lambda>b n. b) (\<lambda>_. 0)
       (GTV_OBJECT [GPair (GTV_STRING [97]) (GTV_ARRAY False [GTV_STRING [98], GTV_NULL]) 0]) = Inr datum
     \<and> fill_gtype_value (\<lambda>_ _. 0) (mem_of datum) (0 + 4) 0 (0 + (8 + 4 * 2))
         (get_gtype_offset (mem_of datum) (0 + 4) 0) = Inr (GTV_STRING [97])
     \<and> fill_gtype_value (\<lambda>_ _. 0) (mem_of datum) (0 + 4) 1 (0 + (8 + 4 * 2))
         (get_gtype_offset (mem_of datum) (0 + 4) 1) = Inr (GTV_BINARY a len)
     \<and> gtype_iterator_init (mem_of datum) a = Inr its
     \<and> iterate (\<lambda>_ _. 0) (mem_of datum) 5 its =
         Some (Inr (value_events WGT_ELEM (GTV_ARRAY False [GTV_STRING [98], GTV_NULL])))"
proof -
  let ?v = "GTV_OBJECT [GPair (GTV_STRING [97]) (GTV_ARRAY False [GTV_STRING [98], GTV_NULL]) 0]"
  obtain datum where d: "convert_to_gtype (\<lambda>b n. b) (\<lambda>_. 0) ?v = Inr datum"
    by (simp add: gtype_eval)
  have cv: "child_values ?v = [GTV_STRING [97], GTV_ARRAY False [GTV_STRING [98], GTV_NULL]]"
    by (simp add: child_values_def)
  have ok: "set_varsize_ok (\<lambda>b n. b)" "gtv_ok ?v" "stamps_aligned (\<lambda>_. 0) 4 ?v"
    by (simp_all add: set_varsize_ok_def)
  show ?thesis
    using child_random_access [OF ok d holds_mem_of, of 0 "\<lambda>_ _. 0"]
      child_random_access [OF ok d holds_mem_of, of 1 "\<lambda>_ _. 0"] d
    unfolding cv by fastforce
qed

text \<open>C25. Closing an object sorts its pairs strictly by key length and bytes,
  keeps only pairs that were pushed, and binds every key to the value that was pushed for it
  last.\<close>

theorem object_last_key_wins:
  assumes "qsort_arg_ok q" "sorted_wrt (<) (map pair_order ps)"
  shows "sorted_wrt key_less (map pair_key (uniqueify_gtype_object q ps))
     \<and> set (uniqueify_gtype_object q ps) \<subseteq> set ps
     \<and> map_of (pair_bindings (uniqueify_gtype_object q ps)) = map_of (rev (pair_bindings ps))"
  using uniqueify_facts [OF assms] by blast

theorem object_last_key_wins_witness:
  "map_of (pair_bindings (uniqueify_gtype_object insertion_qsort
      [GPair (GTV_STRING [98]) GTV_NULL 0, GPair (GTV_STRING [97]) (GTV_BOOL True) 1,
       GPair (GTV_STRING [98]) (GTV_BOOL False) 2])) [98] = Some (GTV_BOOL False)"
  using object_last_key_wins [OF insertion_qsort_ok, of "[GPair (GTV_STRING [98]) GTV_NULL 0,
      GPair (GTV_STRING [97]) (GTV_BOOL True) 1, GPair (GTV_STRING [98]) (GTV_BOOL False) 2]"]
  by (simp add: pair_bindings_def)



lemma value_repr_len_entry:
  assumes "gtv_ok v" "fits junk p v"
  shows "len_entry (snd (value_repr junk p v))"
proof (cases "\<exists>t. v = GTV_TIMESTAMP t")
  case True
  then show ?thesis
    using len_entryI [of GTENTRY_IS_GTYPE 12] by (auto simp: scalar_repr_def ext_entry_len_def)
next
  case False
  then have "stamps_aligned junk p v \<or> \<not> IS_A_GTYPE_SCALAR v" by (cases v) auto
  then show ?thesis
  proof
    assume "stamps_aligned junk p v"
    then show ?thesis by (intro tight_len_entry value_repr_tight assms)
  next
    assume "\<not> IS_A_GTYPE_SCALAR v"
    then show ?thesis using assms by (cases v) (auto simp: Let_def)
  qed
qed

text \<open>C40. The entry of a timestamp leaves out the padding in front of it.  In
  an array of a string, a timestamp and any value, where the length of the string is not a
  multiple of four, the offset that is found for the third child is 12 behind the end of the
  string, but the child lies 12 behind the next multiple of four.\<close>

theorem timestamp_entry_short:
  assumes "set_varsize_ok sv" "gtv_ok v" "gtv_ok (GTV_STRING s)" "length s mod 4 \<noteq> 0"
    and "convert_to_gtype sv junk (GTV_ARRAY raw [GTV_STRING s, GTV_TIMESTAMP t, v]) = Inr datum"
    and "holds mem D datum"
  shows "unat (get_gtype_offset mem (D + 4) 2) = length s + 12
     \<and> length s + 12 < intalign (length s) + 12
     \<and> holds mem (D + 20 + (intalign (length s) + 12))
         (fst (value_repr junk (20 + (intalign (length s) + 12)) v))"
proof -
  let ?es = "[GTV_STRING s, GTV_TIMESTAMP t, v]"
  have ok: "gtv_ok (GTV_ARRAY raw ?es)" using assms(2,3) by simp
  note c = convert_to_gtype_datum [OF assms(1) ok assms(5)]
  have "datum = take 4 datum @ fst (value_repr junk 4 (GTV_ARRAY raw ?es))"
    using c(2) by (metis append_take_drop_id)
  then have h: "holds mem (D + 4) (fst (value_repr junk 4 (GTV_ARRAY raw ?es)))"
    using assms(6) c(3) by (metis holds_append length_take min.absorb2)
  note hc = holds_container [OF h [unfolded value_repr.simps Let_def fst_conv]]
  have q: "intalign 4 + 4 + 4 * length ?es = 20" by simp
  let ?p = "20 + (intalign (length s) + 12)"
  have pad: "20 + length s + padlen (20 + length s) = 20 + intalign (length s)"
    using padlen_add [of 20 "length s"] padlen_align [of "length s"] by simp
  define R where "R = values_repr junk 20 ?es"
  have rs: "R = [(s, GTENTRY_IS_STRING OR of_nat (length s)),
      (ext_bytes junk (20 + length s) GT_HEADER_TIMESTAMP (le64 t), GTENTRY_IS_GTYPE OR of_nat 12),
      value_repr junk ?p v]"
    using pad by (simp add: R_def Let_def scalar_repr_def ext_entry_len_def add.assoc
        add.left_commute [of 12])
  have fit: "all_fit junk 20 ?es" "lensum (map snd R) \<le> 0x0FFFFFFF"
    using c(1) by (simp_all add: Let_def R_def)
  have "fits junk ?p v"
    using all_fit_nth [OF fit(1), of 2] pad
    by (simp add: child_pos_def scalar_repr_def add.assoc Let_def numeral_2_eq_2
        add.left_commute [of 12])
  then have "len_entry (snd (value_repr junk ?p v))" by (rule value_repr_len_entry [OF assms(2)])
  moreover have "len_entry (GTENTRY_IS_STRING OR of_nat (length s))" using assms(3) by auto
  moreover have "len_entry (GTENTRY_IS_GTYPE OR of_nat 12)" by (rule len_entryI) simp_all
  ultimately have "\<forall>m \<in> set (map snd R). len_entry m" unfolding rs by simp
  then have E: "holds_entries mem (D + 4) (map snd R)"
    using hc(2) fit(2) q by (simp add: holds_entries_def R_def)
  have len: "unat (GTE_OFFLENFLD (GTENTRY_IS_STRING OR of_nat (length s))) = length s"
    "unat (GTE_OFFLENFLD (GTENTRY_IS_GTYPE OR of_nat 12)) = 12"
    using assms(3) length_entry(1) [of GTENTRY_IS_GTYPE 12]
    by (simp_all add: length_entry unat_small28 del: of_nat_numeral)
  have "lensum (take 2 (map snd R)) = length s + 12"
    by (simp add: rs numeral_2_eq_2 len del: of_nat_numeral)
  then have "get_gtype_offset mem (D + 4) 2 = of_nat (length s + 12)"
    using get_gtype_offset_entries [OF E, of 2] by (simp add: rs del: of_nat_add)
  moreover have "length s + 12 \<le> 0x0FFFFFFF"
    using fit(2) by (simp add: rs len del: of_nat_numeral)
  moreover have "holds mem (D + 20 + (intalign (length s) + 12)) (fst (value_repr junk ?p v))"
  proof -
    have "holds mem (D + 20) (concat (map fst R))" using hc(3) unfolding q length_values_repr R_def [symmetric] by (simp add: rs add.commute)
    then show ?thesis using pad by (simp add: rs holds_append add.assoc)
  qed
  moreover have "length s < intalign (length s)"
    using intalign_ge [of "length s"] intalign_mod [of "length s"] assms(4)
    by (cases "length s = intalign (length s)") auto
  ultimately show ?thesis by (simp add: unat_small28 del: of_nat_add)
qed

theorem timestamp_entry_short_witness:
  "\<exists>datum. convert_to_gtype (\<lambda>b n. b) (\<lambda>_. 0)
       (GTV_ARRAY False [GTV_STRING [97], GTV_TIMESTAMP 7, GTV_NULL]) = Inr datum
     \<and> unat (get_gtype_offset (mem_of datum) (0 + 4) 2) = 13 \<and> intalign 1 + 12 = 16"
proof -
  let ?v = "GTV_ARRAY False [GTV_STRING [97], GTV_TIMESTAMP 7, GTV_NULL]"
  have "fits (\<lambda>_. 0) 4 ?v"
    by (simp add: scalar_repr_def ext_entry_len_def Let_def lensum_def
        length_container_bytes gtentry_tags gtentry_masks GTE_OFFLENFLD_def padlen_def intalign_def)
  then obtain datum where d: "convert_to_gtype (\<lambda>b n. b) (\<lambda>_. 0) ?v = Inr datum"
    using convert_gtype_value_eq [of ?v "\<lambda>_. 0" "load_bytes (\<lambda>_. 0) 0 4"]
    by (auto simp: convert_to_gtype_def reserve_from_buffer_def Let_def
        simp del: convert_gtype_value.simps fits.simps value_repr.simps)
  show ?thesis
    using timestamp_entry_short [OF _ _ _ _ d holds_mem_of] d
    by (simp add: set_varsize_ok_def intalign_def)
qed

end
