(* ===== verification/GType_Out.thy ===== *)
theory GType_Out
  imports GType_Roundtrip
begin

text \<open>
  The textual form of a serialised \<open>gtype\<close> (\<open>gtype_to_cstring\<close> and its subroutines in
  \<open>src/src/backend/utils/adt/gtype.c\<close>).  PostgreSQL's output functions are a record of parameters.
  The loop over the iterator is bounded by \<open>n\<close>; a run of the iterator bounds it.
\<close>

record scalar_out =
  numeric_out :: "bytes \<Rightarrow> bytes"
  int8out :: "64 word \<Rightarrow> bytes"
  float8out :: "64 word \<Rightarrow> bytes"
  timestamp_out :: "64 word \<Rightarrow> bytes"
  timestamptz_out :: "64 word \<Rightarrow> bytes"
  date_out :: "32 word \<Rightarrow> bytes"
  time_out :: "64 word \<Rightarrow> bytes"
  timetz_out :: "64 word \<Rightarrow> 32 word \<Rightarrow> bytes"
  interval_out :: "64 word \<Rightarrow> 32 word \<Rightarrow> 32 word \<Rightarrow> bytes"
  inet_out :: "bytes \<Rightarrow> bytes"
  cidr_out :: "bytes \<Rightarrow> bytes"
  macaddr_out :: "bytes \<Rightarrow> bytes"
  macaddr8_out :: "bytes \<Rightarrow> bytes"

text \<open>ASCII text, and one \<open>%04x\<close> of a byte.\<close>

definition ascii :: "string \<Rightarrow> bytes" where
  "ascii s = map of_char s"

definition hex_digit :: "nat \<Rightarrow> byte" where
  "hex_digit d = (if d < 10 then of_nat (48 + d) else of_nat (87 + d))"

definition hex04 :: "byte \<Rightarrow> bytes" where
  "hex04 b = [hex_digit 0, hex_digit 0, hex_digit (unat b div 16), hex_digit (unat b mod 16)]"

text \<open>The loop of \<open>escape_gtype\<close> ends at the zero byte of the C string.\<close>

definition escape_char :: "byte \<Rightarrow> bytes" where
  "escape_char c =
     (if c = 8 then [0x5C, 0x62]
      else if c = 12 then [0x5C, 0x66]
      else if c = 10 then [0x5C, 0x6E]
      else if c = 13 then [0x5C, 0x72]
      else if c = 9 then [0x5C, 0x74]
      else if c = 0x22 then [0x5C, 0x22]
      else if c = 0x5C then [0x5C, 0x5C]
      else if c < 32 then [0x5C, 0x75] @ hex04 c
      else [c])"

definition escape_gtype :: "bytes \<Rightarrow> bytes \<Rightarrow> bytes" where
  "escape_gtype buf str =
     (buf @ [0x22]) @ concat (map escape_char (takeWhile (\<lambda>c. c \<noteq> 0) str)) @ [0x22]"

definition gtype_put_escaped_value :: "scalar_out \<Rightarrow> bytes \<Rightarrow> gtype_value \<Rightarrow> gtype_error + bytes" where
  "gtype_put_escaped_value outs buf scalar_val =
     (case scalar_val of
        GTV_NULL \<Rightarrow> Inr (buf @ ascii ''null'')
      | GTV_STRING s \<Rightarrow> Inr (escape_gtype buf s)
      | GTV_NUMERIC n \<Rightarrow> Inr (buf @ numeric_out outs n)
      | GTV_INTEGER i \<Rightarrow> Inr (buf @ int8out outs i)
      | GTV_FLOAT f \<Rightarrow> Inr (buf @ float8out outs f)
      | GTV_TIMESTAMP t \<Rightarrow> Inr (buf @ timestamp_out outs t)
      | GTV_TIMESTAMPTZ t \<Rightarrow> Inr (buf @ timestamptz_out outs t)
      | GTV_DATE d \<Rightarrow> Inr (buf @ date_out outs d)
      | GTV_TIME t \<Rightarrow> Inr (buf @ time_out outs t)
      | GTV_TIMETZ t z \<Rightarrow> Inr (buf @ timetz_out outs t z)
      | GTV_INTERVAL t d m \<Rightarrow> Inr (buf @ interval_out outs t d m)
      | GTV_INET i \<Rightarrow> Inr (buf @ inet_out outs i)
      | GTV_CIDR i \<Rightarrow> Inr (buf @ cidr_out outs i)
      | GTV_MAC m \<Rightarrow> Inr (buf @ macaddr_out outs m)
      | GTV_MAC8 m \<Rightarrow> Inr (buf @ macaddr8_out outs m)
      | GTV_BOOL b \<Rightarrow> Inr (buf @ (if b then ascii ''true'' else ascii ''false''))
      | _ \<Rightarrow> Inl InvalidScalarType)"

definition add_indent :: "bytes \<Rightarrow> bool \<Rightarrow> int \<Rightarrow> bytes" where
  "add_indent buf indent level =
     (if indent then buf @ [10] @ concat (replicate (nat level) (ascii ''    '')) else buf)"

text \<open>The local variables of the worker.\<close>

record out_state =
  os_out :: bytes
  os_first :: bool
  os_level :: int
  os_use_indent :: bool
  os_raw_scalar :: bool
  os_last_was_key :: bool

text \<open>\<open>if (!first) appendBinaryStringInfo(out, ", ", ispaces)\<close>\<close>

definition put_comma :: "bool \<Rightarrow> out_state \<Rightarrow> out_state" where
  "put_comma indent st =
     (if os_first st then st
      else st \<lparr>os_out := os_out st @ take (if indent then 1 else 2) (ascii '', '')\<rparr>)"

definition put_indent :: "bool \<Rightarrow> out_state \<Rightarrow> out_state" where
  "put_indent b st = st \<lparr>os_out := add_indent (os_out st) (os_use_indent st \<and> b) (os_level st)\<rparr>"

definition put_text :: "string \<Rightarrow> out_state \<Rightarrow> out_state" where
  "put_text s st = st \<lparr>os_out := os_out st @ ascii s\<rparr>"

definition put_scalar :: "scalar_out \<Rightarrow> iter_val \<Rightarrow> out_state \<Rightarrow> gtype_error + out_state" where
  "put_scalar outs v st =
     (case v of
        IterVal w \<Rightarrow> sum_bind (gtype_put_escaped_value outs (os_out st) w) (\<lambda>buf. Inr (st \<lparr>os_out := buf\<rparr>))
      | _ \<Rightarrow> Inl ContractViolation)"

text \<open>The switch on the token, up to where the \<open>WGT_KEY\<close> case calls the iterator.  A failed
  assertion is \<open>ContractViolation\<close>.\<close>

fun put_token :: "scalar_out \<Rightarrow> bool \<Rightarrow> gtype_iterator_token \<Rightarrow> iter_val \<Rightarrow> out_state
    \<Rightarrow> gtype_error + out_state" where
  "put_token outs indent WGT_BEGIN_ARRAY v st =
     (case v of
        IterArray _ raw \<Rightarrow>
          let st = put_comma indent st;
              st = (if \<not> raw then put_text ''['' (put_indent (\<not> os_last_was_key st) st)
                    else st \<lparr>os_raw_scalar := True\<rparr>)
          in Inr (st \<lparr>os_first := True, os_level := os_level st + 1\<rparr>)
      | _ \<Rightarrow> Inl ContractViolation)"
| "put_token outs indent WGT_BEGIN_OBJECT v st =
     (let st = put_text ''{'' (put_indent (\<not> os_last_was_key st) (put_comma indent st))
      in Inr (st \<lparr>os_first := True, os_level := os_level st + 1\<rparr>))"
| "put_token outs indent WGT_KEY v st =
     (let st = put_indent True (put_comma indent st \<lparr>os_first := True\<rparr>)
      in sum_bind (put_scalar outs v st) (\<lambda>st. Inr (put_text '': '' st)))"
| "put_token outs indent WGT_ELEM v st =
     (let st = put_comma indent st \<lparr>os_first := False\<rparr>;
          st = (if \<not> os_raw_scalar st then put_indent True st else st)
      in put_scalar outs v st)"
| "put_token outs indent WGT_END_ARRAY v st =
     (let st = st \<lparr>os_level := os_level st - 1\<rparr>;
          st = (if \<not> os_raw_scalar st then put_text '']'' (put_indent True st) else st)
      in Inr (st \<lparr>os_first := False\<rparr>))"
| "put_token outs indent WGT_END_OBJECT v st =
     (let st = st \<lparr>os_level := os_level st - 1\<rparr>
      in Inr (put_text ''}'' (put_indent True st) \<lparr>os_first := False\<rparr>))"
| "put_token outs indent _ v st = Inl UnrecognizedToken"

text \<open>\<open>use_indent = indent; last_was_key = redo_switch;\<close>\<close>

definition end_round :: "bool \<Rightarrow> bool \<Rightarrow> out_state \<Rightarrow> out_state" where
  "end_round indent redo st = st \<lparr>os_use_indent := indent, os_last_was_key := redo\<rparr>"

text \<open>The rest of the \<open>WGT_KEY\<close> case: the next token is a scalar value, or one to redo the switch
  with.\<close>

definition put_key_value ::
    "scalar_out \<Rightarrow> gtype_iterator_token \<Rightarrow> iter_val \<Rightarrow> out_state
       \<Rightarrow> gtype_error + (gtype_iterator_token \<times> iter_val) option \<times> out_state" where
  "put_key_value outs type v st =
     (if type = WGT_VALUE then
        sum_bind (put_scalar outs v (st \<lparr>os_first := False\<rparr>)) (\<lambda>st. Inr (None, st))
      else if type = WGT_BEGIN_OBJECT \<or> type = WGT_BEGIN_ARRAY then Inr (Some (type, v), st)
      else Inl ContractViolation)"

text \<open>One round of the loop; \<open>redo\<close> is the token that the \<open>WGT_KEY\<close> case read ahead, when
  \<open>redo_switch\<close> is set.  The result \<open>None\<close> ends the loop.\<close>

definition cstring_round ::
    "(memory \<Rightarrow> nat \<Rightarrow> nat) \<Rightarrow> memory \<Rightarrow> scalar_out \<Rightarrow> bool
       \<Rightarrow> (gtype_iterator_token \<times> iter_val) option \<Rightarrow> gtype_iterator list \<Rightarrow> out_state
       \<Rightarrow> gtype_error + ((gtype_iterator_token \<times> iter_val) option \<times> gtype_iterator list \<times> out_state) option" where
  "cstring_round varsize mem outs indent redo it st =
     sum_bind (case redo of
                 Some (type, v) \<Rightarrow> Inr (type, v, it)
               | None \<Rightarrow> gtype_iterator_next varsize mem it False) (\<lambda>(type, v, it).
       if type = WGT_DONE then Inr None
       else sum_bind (put_token outs indent type v st) (\<lambda>st.
         if type \<noteq> WGT_KEY then Inr (Some (None, it, end_round indent False st))
         else sum_bind (gtype_iterator_next varsize mem it False) (\<lambda>(type, v, it).
              sum_bind (put_key_value outs type v st) (\<lambda>(redo, st).
              Inr (Some (redo, it, end_round indent (redo \<noteq> None) st))))))"

fun cstring_loop ::
    "(memory \<Rightarrow> nat \<Rightarrow> nat) \<Rightarrow> memory \<Rightarrow> scalar_out \<Rightarrow> bool \<Rightarrow> nat
       \<Rightarrow> (gtype_iterator_token \<times> iter_val) option \<Rightarrow> gtype_iterator list \<Rightarrow> out_state
       \<Rightarrow> (gtype_error + out_state) option" where
  "cstring_loop varsize mem outs indent 0 redo it st = None"
| "cstring_loop varsize mem outs indent (Suc n) redo it st =
     (case cstring_round varsize mem outs indent redo it st of
        Inl e \<Rightarrow> Some (Inl e)
      | Inr None \<Rightarrow> Some (Inr st)
      | Inr (Some (redo, it, st)) \<Rightarrow> cstring_loop varsize mem outs indent n redo it st)"

definition gtype_to_cstring_worker ::
    "(memory \<Rightarrow> nat \<Rightarrow> nat) \<Rightarrow> memory \<Rightarrow> scalar_out \<Rightarrow> nat \<Rightarrow> bytes \<Rightarrow> nat \<Rightarrow> bool
       \<Rightarrow> (gtype_error + bytes) option" where
  "gtype_to_cstring_worker varsize mem outs n buf c indent =
     (case gtype_iterator_init mem c of
        Inl e \<Rightarrow> Some (Inl e)
      | Inr it \<Rightarrow>
          map_option (\<lambda>r. sum_bind r (\<lambda>st. if os_level st = 0 then Inr (os_out st) else Inl ContractViolation))
            (cstring_loop varsize mem outs indent n None it
              \<lparr>os_out = buf, os_first = True, os_level = 0, os_use_indent = False,
               os_raw_scalar = False, os_last_was_key = False\<rparr>))"

definition gtype_to_cstring ::
    "(memory \<Rightarrow> nat \<Rightarrow> nat) \<Rightarrow> memory \<Rightarrow> scalar_out \<Rightarrow> nat \<Rightarrow> bytes \<Rightarrow> nat \<Rightarrow> (gtype_error + bytes) option" where
  "gtype_to_cstring varsize mem outs n buf c = gtype_to_cstring_worker varsize mem outs n buf c False"

subsection \<open>The text of a value\<close>

definition scalar_text :: "scalar_out \<Rightarrow> gtype_value \<Rightarrow> bytes" where
  "scalar_text outs v = (case gtype_put_escaped_value outs [] v of Inl _ \<Rightarrow> [] | Inr t \<Rightarrow> t)"

lemma put_escaped_scalar:
  "IS_A_GTYPE_SCALAR v \<Longrightarrow> gtype_put_escaped_value outs buf v = Inr (buf @ scalar_text outs v)"
  by (cases v) (simp_all add: gtype_put_escaped_value_def scalar_text_def escape_gtype_def)

fun joined :: "bool \<Rightarrow> bytes list \<Rightarrow> bytes" where
  "joined first [] = []"
| "joined first (x # xs) = (if first then [] else ascii '', '') @ x @ joined False xs"

function (sequential) gtype_text :: "scalar_out \<Rightarrow> gtype_value \<Rightarrow> bytes" where
  "gtype_text outs (GTV_ARRAY raw es) = ascii ''['' @ joined True (map (gtype_text outs) es) @ ascii '']''"
| "gtype_text outs (GTV_OBJECT ps) = ascii ''{'' @ joined True
     (map (\<lambda>p. scalar_text outs (pair_key p) @ ascii '': '' @ gtype_text outs (pair_value p)) ps) @ ascii ''}''"
| "gtype_text outs v = scalar_text outs v"
  by pat_completeness auto
termination
  by (relation "measure (\<lambda>(_, v). size v)")
    (auto simp: size_pair_value less_Suc_eq_le [symmetric] dest: size_list_estimation' [OF _ order_refl])

text \<open>Values without raw scalar arrays: what users write.\<close>

fun unmarked :: "gtype_value \<Rightarrow> bool" where
  "unmarked (GTV_ARRAY raw es) \<longleftrightarrow> \<not> raw \<and> (\<forall>e \<in> set es. unmarked e)"
| "unmarked (GTV_OBJECT ps) \<longleftrightarrow> (\<forall>p \<in> set ps. is_string (pair_key p) \<and> unmarked (pair_value p))"
| "unmarked (GTV_BINARY _ _) \<longleftrightarrow> False"
| "unmarked _ \<longleftrightarrow> True"

lemma gtype_text_scalar: "IS_A_GTYPE_SCALAR v \<Longrightarrow> gtype_text outs v = scalar_text outs v"
  by (cases v) simp_all

text \<open>The loop as a function of the tokens alone.\<close>

fun print_events :: "scalar_out \<Rightarrow> out_state \<Rightarrow> iter_event list \<Rightarrow> gtype_error + out_state" where
  "print_events outs st [] = Inr st"
| "print_events outs st ((WGT_KEY, k) # (tok, v) # evs) =
     sum_bind (put_token outs False WGT_KEY k st) (\<lambda>st.
     sum_bind (put_key_value outs tok v st) (\<lambda>(redo, st).
     if redo = None then print_events outs (end_round False False st) evs
     else print_events outs (end_round False True st) ((tok, v) # evs)))"
| "print_events outs st ((tok, v) # evs) =
     (if tok = WGT_KEY then Inl ContractViolation
      else sum_bind (put_token outs False tok v st) (\<lambda>st. print_events outs (end_round False False st) evs))"

inductive_cases iter_run_ConsE: "iter_run varsize mem its ((tok, v) # evs) its'"
inductive_cases iter_run_NilE: "iter_run varsize mem its [] its'"

lemma print_events_other:
  "tok \<noteq> WGT_KEY \<Longrightarrow> print_events outs st ((tok, v) # evs)
     = sum_bind (put_token outs False tok v st) (\<lambda>st. print_events outs (end_round False False st) evs)"
  by (cases tok) simp_all

lemma put_key_value_redo:
  "put_key_value outs tok v st = Inr (redo, st') \<Longrightarrow> redo = None \<or> redo = Some (tok, v)"
  by (auto simp: put_key_value_def split: if_splits)

text \<open>The key case may find no further token only when the run ends with a key.\<close>

lemma cstring_loop_events:
  "iter_run varsize mem its evs [] \<Longrightarrow> length evs + length (case redo of None \<Rightarrow> [] | Some e \<Rightarrow> [e]) < n \<Longrightarrow>
     (\<forall>e. redo = Some e \<longrightarrow> fst e \<noteq> WGT_DONE \<and> fst e \<noteq> WGT_KEY) \<Longrightarrow>
     print_events outs st ((case redo of None \<Rightarrow> [] | Some e \<Rightarrow> [e]) @ evs) = Inr st' \<Longrightarrow>
     cstring_loop varsize mem outs False n redo its st = Some (Inr st')"
proof (induction n arbitrary: its evs redo st)
  case (Suc n)
  show ?case
  proof (cases redo)
    case (Some e)
    obtain tok v where e: "e = (tok, v)" by (cases e)
    with Some Suc.prems have tok: "tok \<noteq> WGT_DONE" "tok \<noteq> WGT_KEY" by auto
    obtain st1 where st1: "put_token outs False tok v st = Inr st1"
      and rest: "print_events outs (end_round False False st1) evs = Inr st'"
      using Suc.prems(4) Some e tok by (auto simp: print_events_other)
    have "cstring_loop varsize mem outs False n None its (end_round False False st1) = Some (Inr st')"
      by (rule Suc.IH [OF Suc.prems(1)]) (use Suc.prems Some rest in auto)
    with Some e tok st1 show ?thesis by (simp add: cstring_round_def)
  next
    case None
    show ?thesis
    proof (cases evs)
      case Nil
      then have "its = []" using Suc.prems(1) by (auto elim: iter_run_NilE)
      with None Nil Suc.prems show ?thesis by (simp add: cstring_round_def)
    next
      case (Cons e evs1)
      obtain tok v where e: "e = (tok, v)" by (cases e)
      obtain its1 where nxt: "gtype_iterator_next varsize mem its False = Inr (tok, v, its1)"
        "tok \<noteq> WGT_DONE" and run: "iter_run varsize mem its1 evs1 []"
        using Suc.prems(1) Cons e by (auto elim: iter_run_ConsE)
      show ?thesis
      proof (cases "tok = WGT_KEY")
        case False
        obtain st1 where st1: "put_token outs False tok v st = Inr st1"
          and rest: "print_events outs (end_round False False st1) evs1 = Inr st'"
          using Suc.prems(4) None Cons e False by (auto simp: print_events_other)
        have "cstring_loop varsize mem outs False n None its1 (end_round False False st1) = Some (Inr st')"
          by (rule Suc.IH [OF run]) (use Suc.prems None Cons rest in auto)
        with None e nxt False st1 show ?thesis by (simp add: cstring_round_def)
      next
        case True
        obtain tok2 v2 evs2 where evs1: "evs1 = (tok2, v2) # evs2"
          using Suc.prems(4) None Cons e True by (cases evs1) auto
        obtain its2 where nxt2: "gtype_iterator_next varsize mem its1 False = Inr (tok2, v2, its2)"
          and run2: "iter_run varsize mem its2 evs2 []"
          using run evs1 by (auto elim: iter_run_ConsE)
        obtain st1 redo2 st2 where st1: "put_token outs False WGT_KEY v st = Inr st1"
          and st2: "put_key_value outs tok2 v2 st1 = Inr (redo2, st2)"
          and p: "(if redo2 = None then print_events outs (end_round False False st2) evs2
             else print_events outs (end_round False True st2) ((tok2, v2) # evs2)) = Inr st'"
          using Suc.prems(4) None Cons e True evs1 by (auto simp del: put_token.simps)
        have rest: "print_events outs (end_round False (redo2 \<noteq> None) st2)
             ((case redo2 of None \<Rightarrow> [] | Some e \<Rightarrow> [e]) @ evs2) = Inr st'"
          using p put_key_value_redo [OF st2] by (cases "redo2 = None") auto
        have "redo2 = None \<or> redo2 = Some (tok2, v2) \<and> tok2 \<noteq> WGT_DONE \<and> tok2 \<noteq> WGT_KEY"
          using st2 by (auto simp: put_key_value_def split: if_splits)
        then have "cstring_loop varsize mem outs False n redo2 its2 (end_round False (redo2 \<noteq> None) st2)
            = Some (Inr st')"
          by (intro Suc.IH [OF run2]) (use Suc.prems None Cons evs1 rest in auto)
        with None e nxt True nxt2 st1 st2 show ?thesis
          by (simp add: cstring_round_def del: put_token.simps)
      qed
    qed
  qed
qed simp

text \<open>The state after an item has been printed.\<close>

definition shown :: "bytes \<Rightarrow> out_state \<Rightarrow> out_state" where
  "shown t st = st \<lparr>os_out := os_out st @ (if os_first st then [] else ascii '', '') @ t,
     os_first := False, os_use_indent := False, os_last_was_key := False\<rparr>"

text \<open>The state after a key, which prints like an item that the next one is glued to.\<close>

definition plain :: "out_state \<Rightarrow> bool" where
  "plain st \<longleftrightarrow> \<not> os_use_indent st \<and> \<not> os_raw_scalar st"

definition prints :: "scalar_out \<Rightarrow> gtype_value \<Rightarrow> bool" where
  "prints outs v \<longleftrightarrow> (\<forall>st tok evs. plain st \<longrightarrow> (tok = WGT_ELEM \<or> \<not> IS_A_GTYPE_SCALAR v) \<longrightarrow>
     print_events outs st (value_events tok v @ evs) = print_events outs (shown (gtype_text outs v) st) evs)"

lemmas put_defs = put_comma_def put_indent_def put_text_def put_scalar_def add_indent_def end_round_def
  shown_def plain_def Let_def

lemma take_comma [simp]: "take 2 (ascii '', '') = ascii '', ''"
  by (simp add: ascii_def)

lemma prints_scalar: "IS_A_GTYPE_SCALAR v \<Longrightarrow> prints outs v"
  unfolding prints_def
  by (intro allI, case_tac st)
    (simp add: value_events_scalar gtype_text_scalar put_defs put_escaped_scalar)

lemma print_elems:
  "\<forall>e \<in> set es. prints outs e \<Longrightarrow> plain st \<Longrightarrow>
     print_events outs st (concat (map (value_events WGT_ELEM) es) @ evs)
   = print_events outs (if es = [] then st else shown (joined True (map (gtype_text outs) es)) st) evs"
proof (induction es arbitrary: st)
  case (Cons e es)
  have "plain (shown (gtype_text outs e) st)" using Cons.prems by (simp add: put_defs)
  with Cons show ?case
    by (cases es) (simp_all add: prints_def, simp add: shown_def)
qed simp

definition after_key :: "scalar_out \<Rightarrow> gtype_value \<Rightarrow> out_state \<Rightarrow> out_state" where
  "after_key outs k st = st \<lparr>os_out := os_out st @ (if os_first st then [] else ascii '', '')
     @ scalar_text outs k @ ascii '': '', os_first := True\<rparr>"

lemma put_key:
  assumes "is_string k" "plain st"
  shows "put_token outs False WGT_KEY (IterVal k) st = Inr (after_key outs k st)"
  using assms
  by (cases st) (auto simp: put_defs after_key_def put_escaped_scalar elim!: is_stringE)

lemma print_key:
  assumes "is_string k" "plain st" "tok = WGT_BEGIN_ARRAY \<or> tok = WGT_BEGIN_OBJECT"
  shows "print_events outs st ((WGT_KEY, IterVal k) # (tok, v) # evs)
     = print_events outs (end_round False True (after_key outs k st)) ((tok, v) # evs)"
proof -
  have "put_key_value outs tok v (after_key outs k st) = Inr (Some (tok, v), after_key outs k st)"
    using assms(3) by (auto simp: put_key_value_def)
  then show ?thesis unfolding print_events.simps(2) put_key [OF assms(1,2)] by simp
qed

lemma container_events:
  assumes "\<not> IS_A_GTYPE_SCALAR v" "unmarked v"
  obtains tok0 v0 evs0 where "tok0 = WGT_BEGIN_ARRAY \<or> tok0 = WGT_BEGIN_OBJECT"
    "\<And>tok. value_events tok v = (tok0, v0) # evs0"
  using assms by (cases v) auto

lemma plain_key: "plain st \<Longrightarrow> plain (end_round False True (after_key outs k st))"
  by (simp add: put_defs after_key_def)

lemma print_pair:
  assumes "is_string k" "prints outs v" "unmarked v" "plain st"
  shows "print_events outs st ((WGT_KEY, IterVal k) # value_events WGT_VALUE v @ evs)
     = print_events outs (shown (scalar_text outs k @ ascii '': '' @ gtype_text outs v) st) evs"
proof (cases "IS_A_GTYPE_SCALAR v")
  case True
  then show ?thesis
    using assms
    by (cases st) (auto simp: value_events_scalar gtype_text_scalar put_defs put_key_value_def
        put_escaped_scalar elim!: is_stringE)
next
  case False
  let ?st = "end_round False True (after_key outs k st)"
  obtain tok0 v0 evs0 where e: "tok0 = WGT_BEGIN_ARRAY \<or> tok0 = WGT_BEGIN_OBJECT"
    "\<And>tok. value_events tok v = (tok0, v0) # evs0"
    using container_events [OF False assms(3)] by blast
  have "print_events outs ?st (value_events WGT_VALUE v @ evs)
      = print_events outs (shown (gtype_text outs v) ?st) evs"
    using assms(2) False plain_key [OF assms(4)] unfolding prints_def by blast
  also have "shown (gtype_text outs v) ?st = shown (scalar_text outs k @ ascii '': '' @ gtype_text outs v) st"
    by (cases st) (simp add: put_defs after_key_def)
  finally have "print_events outs ?st ((tok0, v0) # evs0 @ evs)
      = print_events outs (shown (scalar_text outs k @ ascii '': '' @ gtype_text outs v) st) evs"
    by (simp add: e(2))
  then show ?thesis using print_key [OF assms(1,4) e(1), of outs v0 "evs0 @ evs"] by (simp only: e(2) append_Cons)
qed

lemma print_pairs:
  "\<forall>p \<in> set ps. is_string (pair_key p) \<and> prints outs (pair_value p) \<and> unmarked (pair_value p) \<Longrightarrow> plain st \<Longrightarrow>
     print_events outs st
       (concat (map (\<lambda>p. (WGT_KEY, IterVal (pair_key p)) # value_events WGT_VALUE (pair_value p)) ps) @ evs)
   = print_events outs (if ps = [] then st else shown (joined True
       (map (\<lambda>p. scalar_text outs (pair_key p) @ ascii '': '' @ gtype_text outs (pair_value p)) ps)) st) evs"
proof (induction ps arbitrary: st)
  case (Cons p ps)
  let ?t = "scalar_text outs (pair_key p) @ ascii '': '' @ gtype_text outs (pair_value p)"
  have "plain (shown ?t st)" using Cons.prems by (simp add: put_defs)
  with Cons show ?case
    by (cases ps) (simp_all add: print_pair, simp add: shown_def)
qed simp

lemma prints_unmarked: "unmarked v \<Longrightarrow> prints outs v"
proof (induction v rule: unmarked.induct)
  case (1 raw es)
  then have es: "\<forall>e \<in> set es. prints outs e" and raw: "\<not> raw" by auto
  show ?case
    unfolding prints_def
  proof (intro allI impI)
    fix st tok and evs :: "iter_event list"
    assume "plain st"
    let ?st = "end_round False False (st \<lparr>os_out := os_out st
       @ (if os_first st then [] else ascii '', '') @ ascii ''['', os_first := True, os_level := os_level st + 1\<rparr>)"
    have "plain ?st" using \<open>plain st\<close> by (simp add: put_defs)
    have "print_events outs st (value_events tok (GTV_ARRAY raw es) @ evs)
       = print_events outs ?st (concat (map (value_events WGT_ELEM) es) @ (WGT_END_ARRAY, IterUnset) # evs)"
      using \<open>plain st\<close> raw by (cases st) (simp add: put_defs)
    also have "\<dots> = print_events outs (shown (gtype_text outs (GTV_ARRAY raw es)) st) evs"
      unfolding print_elems [OF es \<open>plain ?st\<close>] using \<open>plain st\<close> by (cases st) (simp add: put_defs)
    finally show "print_events outs st (value_events tok (GTV_ARRAY raw es) @ evs)
       = print_events outs (shown (gtype_text outs (GTV_ARRAY raw es)) st) evs" .
  qed
next
  case (2 ps)
  then have ps: "\<forall>p \<in> set ps. is_string (pair_key p) \<and> prints outs (pair_value p) \<and> unmarked (pair_value p)"
    by auto
  show ?case
    unfolding prints_def
  proof (intro allI impI)
    fix st tok and evs :: "iter_event list"
    assume "plain st"
    let ?st = "end_round False False (st \<lparr>os_out := os_out st
       @ (if os_first st then [] else ascii '', '') @ ascii ''{'', os_first := True, os_level := os_level st + 1\<rparr>)"
    have "plain ?st" using \<open>plain st\<close> by (simp add: put_defs)
    have "print_events outs st (value_events tok (GTV_OBJECT ps) @ evs)
       = print_events outs ?st (concat (map (\<lambda>p. (WGT_KEY, IterVal (pair_key p))
            # value_events WGT_VALUE (pair_value p)) ps) @ (WGT_END_OBJECT, IterUnset) # evs)"
      using \<open>plain st\<close> by (cases st) (simp add: put_defs)
    also have "\<dots> = print_events outs (shown (gtype_text outs (GTV_OBJECT ps)) st) evs"
      unfolding print_pairs [OF ps \<open>plain ?st\<close>] using \<open>plain st\<close> by (cases st) (simp add: put_defs)
    finally show "print_events outs st (value_events tok (GTV_OBJECT ps) @ evs)
       = print_events outs (shown (gtype_text outs (GTV_OBJECT ps)) st) evs" .
  qed
qed (auto intro: prints_scalar)

lemma print_serialised:
  fixes buf :: bytes
  assumes "unmarked v"
  defines "st0 \<equiv> \<lparr>os_out = buf, os_first = True, os_level = 0, os_use_indent = False,
      os_raw_scalar = False, os_last_was_key = False\<rparr>"
  shows "\<exists>st. print_events outs st0 (value_events WGT_ELEM (serialised v)) = Inr st
      \<and> os_out st = buf @ gtype_text outs v \<and> os_level st = 0"
proof (cases "IS_A_GTYPE_SCALAR v")
  case True
  then show ?thesis
    by (simp add: st0_def serialised_def value_events_scalar gtype_text_scalar put_defs put_escaped_scalar)
next
  case False
  have "plain st0" by (simp add: st0_def plain_def)
  then have "print_events outs st0 (value_events WGT_ELEM v @ []) = print_events outs (shown (gtype_text outs v) st0) []"
    using prints_unmarked [OF assms(1), of outs] unfolding prints_def by blast
  then show ?thesis using False by (simp add: serialised_def, simp add: shown_def st0_def)
qed

text \<open>C2. Printing a serialised value gives the text of the value: a bare scalar
  without brackets, arrays and objects with their children separated by a comma and a blank,
  each key followed by a colon, strings escaped.  The timestamps of the value must stand at a multiple
  of four (see C40).\<close>

theorem serialise_then_print:
  assumes "set_varsize_ok sv" "gtv_ok v" "readable varsize v" "stamps_aligned junk 4 (serialised v)"
    and "unmarked v"
    and "gtype_value_to_gtype sv junk m q v = Inr datum" "holds mem D datum"
    and "length (value_events WGT_ELEM (serialised v)) < n"
  shows "gtype_to_cstring varsize mem outs n buf (D + 4) = Some (Inr (buf @ gtype_text outs v))"
proof -
  have "container_reads varsize mem (D + 4) (serialised v)"
    using assms by (intro datum_reads [where sv = sv and junk = junk and datum = datum])
      (simp_all add: gtype_value_to_gtype_serialised gtv_ok_serialised readable_serialised
        serialised_container)
  then obtain its where its: "gtype_iterator_init mem (D + 4) = Inr its"
    "iter_run varsize mem its (value_events WGT_ELEM (serialised v)) []"
    by (rule container_reads_init)
  obtain st where st: "print_events outs \<lparr>os_out = buf, os_first = True, os_level = 0,
      os_use_indent = False, os_raw_scalar = False, os_last_was_key = False\<rparr>
      (value_events WGT_ELEM (serialised v)) = Inr st"
    "os_out st = buf @ gtype_text outs v" "os_level st = 0"
    using print_serialised [OF assms(5)] by blast
  from cstring_loop_events [OF its(2), of None] assms(8) its(1) st show ?thesis
    by (simp add: gtype_to_cstring_def gtype_to_cstring_worker_def)
qed

definition sample_out :: scalar_out where
  "sample_out = \<lparr>numeric_out = \<lambda>n. n, int8out = \<lambda>i. if i = 7 then [55] else [63], float8out = \<lambda>_. [],
     timestamp_out = \<lambda>_. [], timestamptz_out = \<lambda>_. [], date_out = \<lambda>_. [], time_out = \<lambda>_. [],
     timetz_out = \<lambda>_ _. [], interval_out = \<lambda>_ _ _. [], inet_out = \<lambda>i. i, cidr_out = \<lambda>i. i,
     macaddr_out = \<lambda>i. i, macaddr8_out = \<lambda>i. i\<rparr>"

theorem serialise_then_print_witness:
  "\<exists>datum. gtype_value_to_gtype (\<lambda>b n. b) (\<lambda>_. 0) (\<lambda>_. 0) insertion_qsort
       (GTV_ARRAY False [GTV_STRING [97, 34], GTV_NULL, GTV_ARRAY False []]) = Inr datum
     \<and> gtype_to_cstring (\<lambda>_ _. 0) (mem_of datum) sample_out 9 [] (0 + 4)
       = Some (Inr (ascii ''['' @ [0x22, 97, 0x5C, 0x22, 0x22] @ ascii '', null, []]''))"
proof -
  let ?v = "GTV_ARRAY False [GTV_STRING [97, 34], GTV_NULL, GTV_ARRAY False []]"
  obtain datum where d: "gtype_value_to_gtype (\<lambda>b n. b) (\<lambda>_. 0) (\<lambda>_. 0) insertion_qsort ?v = Inr datum"
    by (simp add: gtype_eval)
  show ?thesis
    using serialise_then_print [OF _ _ _ _ _ d holds_mem_of, where varsize = "\<lambda>_ _. 0" and n = 9] d
    by (simp add: set_varsize_ok_def serialised_def scalar_text_def gtype_put_escaped_value_def
        escape_gtype_def escape_char_def ascii_def)
qed

end
