(* ===== verification/GType_Lex.thy ===== *)
theory GType_Lex
  imports GType_Value
begin

text \<open>
  The lexer of the textual form of \<open>gtype\<close> (\<open>src/src/backend/utils/adt/gtype_parser.c\<close>).  The input
  is the list of its bytes and the pointers into it are positions; the source's \<open>s\<close> and \<open>len\<close>
  always move together and are one position here.  Error messages are reduced to their kind.
  PostgreSQL's encoding routines are a parameter: whether the database encoding is UTF-8, and
  the bytes \<open>unicode_to_utf8\<close> gives for a code point.
\<close>

datatype gtype_token_type =
    GTYPE_TOKEN_INVALID | GTYPE_TOKEN_STRING | GTYPE_TOKEN_INTEGER | GTYPE_TOKEN_FLOAT
  | GTYPE_TOKEN_NUMERIC | GTYPE_TOKEN_TIMESTAMP | GTYPE_TOKEN_TIMESTAMPTZ | GTYPE_TOKEN_DATE
  | GTYPE_TOKEN_TIME | GTYPE_TOKEN_TIMETZ | GTYPE_TOKEN_INTERVAL | GTYPE_TOKEN_INET
  | GTYPE_TOKEN_CIDR | GTYPE_TOKEN_MACADDR | GTYPE_TOKEN_MACADDR8 | GTYPE_TOKEN_OBJECT_START
  | GTYPE_TOKEN_OBJECT_END | GTYPE_TOKEN_ARRAY_START | GTYPE_TOKEN_ARRAY_END | GTYPE_TOKEN_COMMA
  | GTYPE_TOKEN_COLON | GTYPE_TOKEN_ANNOTATION | GTYPE_TOKEN_IDENTIFIER | GTYPE_TOKEN_TRUE
  | GTYPE_TOKEN_FALSE | GTYPE_TOKEN_NULL | GTYPE_TOKEN_END

datatype gtype_parse_context =
    GTYPE_PARSE_VALUE | GTYPE_PARSE_STRING | GTYPE_PARSE_ARRAY_START | GTYPE_PARSE_ARRAY_NEXT
  | GTYPE_PARSE_OBJECT_START | GTYPE_PARSE_OBJECT_LABEL | GTYPE_PARSE_OBJECT_NEXT
  | GTYPE_PARSE_OBJECT_COMMA | GTYPE_PARSE_END

text \<open>The errors of lexer and parser; the last wraps those of building the value.\<close>

datatype gtype_parse_error =
    InvalidToken | MustEscape | BadHexDigits | HighAfterHigh | LowWithoutHigh | ZeroEscape
  | NotUtf8 | BadEscape
  | UnexpectedEnd | UnexpectedToken gtype_parse_context
  | InvalidAnnotation | StringTooLong | InputFunctionError | BuildError gtype_error

record lex_env =
  env_utf8 :: bool
  env_unicode_to_utf8 :: "nat \<Rightarrow> bytes"

record gtype_lex_context =
  lx_input :: bytes
  lx_token_start :: "nat option"
  lx_token_terminator :: nat
  lx_prev_token_terminator :: nat
  lx_token_type :: gtype_token_type
  lx_lex_level :: nat
  lx_line_number :: nat
  lx_strval :: "bytes option"

definition make_gtype_lex_context_cstring_len :: "bytes \<Rightarrow> bool \<Rightarrow> gtype_lex_context" where
  "make_gtype_lex_context_cstring_len str need_escapes =
     \<lparr>lx_input = str, lx_token_start = None, lx_token_terminator = 0, lx_prev_token_terminator = 0,
      lx_token_type = GTYPE_TOKEN_INVALID, lx_lex_level = 0, lx_line_number = 1,
      lx_strval = (if need_escapes then Some [] else None)\<rparr>"

text \<open>The byte at a position; behind the end stands the zero that terminates a C string.\<close>

definition chr_at :: "bytes \<Rightarrow> nat \<Rightarrow> byte" where
  "chr_at input i = (if i < length input then input ! i else 0)"

text \<open>Characters as bytes.\<close>

definition ch :: "char \<Rightarrow> byte" where
  "ch c = of_char c"

definition is_digit :: "byte \<Rightarrow> bool" where
  "is_digit c \<longleftrightarrow> ch CHR ''0'' \<le> c \<and> c \<le> ch CHR ''9''"

definition is_alpha :: "byte \<Rightarrow> bool" where
  "is_alpha c \<longleftrightarrow> ch CHR ''a'' \<le> c \<and> c \<le> ch CHR ''z'' \<or> ch CHR ''A'' \<le> c \<and> c \<le> ch CHR ''Z''"

definition GTYPE_ALPHANUMERIC_CHAR :: "byte \<Rightarrow> bool" where
  "GTYPE_ALPHANUMERIC_CHAR c \<longleftrightarrow> is_alpha c \<or> is_digit c \<or> c = ch CHR ''_'' \<or> 128 \<le> c"

text \<open>The end of the longest run of characters of a class from a position: the scanning loops.\<close>

definition scan :: "(byte \<Rightarrow> bool) \<Rightarrow> bytes \<Rightarrow> nat \<Rightarrow> nat" where
  "scan P input i = i + length (takeWhile P (drop i input))"

text \<open>\<open>pg_strncasecmp\<close> with ASCII words.\<close>

definition lower :: "byte \<Rightarrow> byte" where
  "lower c = (if ch CHR ''A'' \<le> c \<and> c \<le> ch CHR ''Z'' then c + 32 else c)"

definition same_nocase :: "bytes \<Rightarrow> string \<Rightarrow> bool" where
  "same_nocase s w \<longleftrightarrow> map lower s = map (lower \<circ> ch) w"

definition same_word :: "bytes \<Rightarrow> string \<Rightarrow> bool" where
  "same_word s w \<longleftrightarrow> s = map ch w"

subsection \<open>Strings\<close>

definition hex_value :: "byte \<Rightarrow> nat option" where
  "hex_value c =
     (if ch CHR ''0'' \<le> c \<and> c \<le> ch CHR ''9'' then Some (unat (c - ch CHR ''0''))
      else if ch CHR ''a'' \<le> c \<and> c \<le> ch CHR ''f'' then Some (unat (c - ch CHR ''a'') + 10)
      else if ch CHR ''A'' \<le> c \<and> c \<le> ch CHR ''F'' then Some (unat (c - ch CHR ''A'') + 10)
      else None)"

text \<open>The loop over the four hexadecimal digits, which moves \<open>s\<close> four places on.\<close>

fun lex_hex :: "bytes \<Rightarrow> nat \<Rightarrow> nat \<Rightarrow> nat \<Rightarrow> gtype_parse_error + nat" where
  "lex_hex input 0 s c = Inr c"
| "lex_hex input (Suc i) s c =
     (let s = s + 1
      in if s \<ge> length input then Inl InvalidToken
         else case hex_value (input ! s) of
                Some d \<Rightarrow> lex_hex input i s (c * 16 + d)
              | None \<Rightarrow> Inl BadHexDigits)"

text \<open>A \<open>\\u\<close> escape with the code unit \<open>c\<close>: a surrogate half, or bytes to append.\<close>

definition lex_unicode ::
    "lex_env \<Rightarrow> nat option \<Rightarrow> bytes \<Rightarrow> nat \<Rightarrow> gtype_parse_error + nat option \<times> bytes" where
  "lex_unicode env hi_surrogate strval c =
     (if 0xd800 \<le> c \<and> c \<le> 0xdbff then
        (if hi_surrogate \<noteq> None then Inl HighAfterHigh
         else Inr (Some (c mod 0x400 * 0x400), strval))
      else
        let append = (\<lambda>c.
              if c = 0 then Inl ZeroEscape
              else if env_utf8 env then Inr (None, strval @ env_unicode_to_utf8 env c)
              else if c \<le> 0x7f then Inr (None, strval @ [of_nat c])
              else Inl NotUtf8)
        in if 0xdc00 \<le> c \<and> c \<le> 0xdfff then
             (case hi_surrogate of None \<Rightarrow> Inl LowWithoutHigh
              | Some hi \<Rightarrow> append (0x10000 + hi + c mod 0x400))
           else if hi_surrogate \<noteq> None then Inl LowWithoutHigh
           else append c)"

text \<open>The bytes a one-character escape stands for.\<close>

definition simple_escape :: "byte \<Rightarrow> bytes option" where
  "simple_escape c =
     (if c = ch CHR ''\"'' \<or> c = ch CHR 0x5C \<or> c = ch CHR ''/'' then Some [c]
      else if c = ch CHR ''b'' then Some [8]
      else if c = ch CHR ''f'' then Some [12]
      else if c = ch CHR ''n'' then Some [10]
      else if c = ch CHR ''r'' then Some [13]
      else if c = ch CHR ''t'' then Some [9]
      else if c = ch CHR ''x'' then Some [ch CHR 0x5C, ch CHR ''x'']
      else if is_digit c then Some [ch CHR 0x5C, c]
      else None)"

text \<open>The loop of \<open>gtype_lex_string\<close>; \<open>s\<close> is the position before the next character.  The result is
  the position of the closing quote and the de-escaped string.\<close>

function lex_string_loop ::
    "lex_env \<Rightarrow> bytes \<Rightarrow> nat \<Rightarrow> nat option \<Rightarrow> bytes option \<Rightarrow> gtype_parse_error + nat \<times> bytes option" where
  "lex_string_loop env input s hi_surrogate strval =
     (if s + 1 \<ge> length input then Inl InvalidToken
      else let c = input ! (s + 1)
      in if c = ch CHR ''\"'' then
           (if hi_surrogate \<noteq> None then Inl LowWithoutHigh else Inr (s + 1, strval))
         else if c < 32 then Inl MustEscape
         else if c = ch CHR 0x5C then
           (if s + 2 \<ge> length input then Inl InvalidToken
            else let e = input ! (s + 2)
            in if e = ch CHR ''u'' then
                 sum_bind (lex_hex input 4 (s + 2) 0) (\<lambda>c.
                   case strval of
                     None \<Rightarrow> lex_string_loop env input (s + 6) hi_surrogate None
                   | Some buf \<Rightarrow> sum_bind (lex_unicode env hi_surrogate buf c) (\<lambda>(hi_surrogate, buf).
                       lex_string_loop env input (s + 6) hi_surrogate (Some buf)))
               else case strval of
                 Some buf \<Rightarrow>
                   (if hi_surrogate \<noteq> None then Inl LowWithoutHigh
                    else case simple_escape e of
                      Some bs \<Rightarrow> lex_string_loop env input (s + 2) hi_surrogate (Some (buf @ bs))
                    | None \<Rightarrow> Inl BadEscape)
               | None \<Rightarrow>
                   (if e \<in> ch ` {CHR ''\"'', CHR 0x5C, CHR ''/'', CHR ''b'', CHR ''f'', CHR ''n'', CHR ''r'',
                                 CHR ''t''}
                    then lex_string_loop env input (s + 2) hi_surrogate None else Inl BadEscape))
         else case strval of
           Some buf \<Rightarrow> (if hi_surrogate \<noteq> None then Inl LowWithoutHigh
                        else lex_string_loop env input (s + 1) hi_surrogate (Some (buf @ [c])))
         | None \<Rightarrow> lex_string_loop env input (s + 1) hi_surrogate None)"
  by pat_completeness auto
termination
  by (relation "measure (\<lambda>(env, input, s, hi, strval). length input - s)") auto

declare lex_string_loop.simps [simp del]

definition gtype_lex_string ::
    "lex_env \<Rightarrow> gtype_lex_context \<Rightarrow> nat \<Rightarrow> gtype_parse_error + gtype_lex_context" where
  "gtype_lex_string env lx token_start =
     (let strval = map_option (\<lambda>_. []) (lx_strval lx)
      in sum_bind (lex_string_loop env (lx_input lx) token_start None strval) (\<lambda>(s, strval).
         Inr (lx \<lparr>lx_strval := strval, lx_prev_token_terminator := lx_token_terminator lx,
                 lx_token_terminator := s + 1\<rparr>)))"

subsection \<open>Numbers\<close>

text \<open>The parts of a number: every one takes the position and the error flag so far.  The result of
  the whole is the position behind the token, its type and whether it is malformed.\<close>

definition lex_digits :: "bytes \<Rightarrow> nat \<times> bool \<Rightarrow> nat \<times> bool" where
  "lex_digits input = (\<lambda>(s, error).
     if s \<ge> length input \<or> \<not> is_digit (input ! s) then (s, True)
     else (scan is_digit input s, error))"

definition lex_main_digits :: "bytes \<Rightarrow> nat \<Rightarrow> nat \<times> bool" where
  "lex_main_digits input s =
     (if s < length input \<and> input ! s = ch CHR ''0'' then (s + 1, False)
      else if s < length input \<and> is_digit (input ! s) then (scan is_digit input s, False)
      else (s, True))"

definition lex_inet :: "bytes \<Rightarrow> nat \<times> bool \<Rightarrow> nat \<times> bool" where
  "lex_inet input = (\<lambda>(s, error).
     let (s, error) =
           (if s \<ge> length input \<or> \<not> is_digit (input ! s) then (s, True)
            else (scan (\<lambda>c. is_digit c \<or> c = ch CHR ''.'') input s, error))
     in if s < length input \<and> input ! s = ch CHR ''/'' then lex_digits input (s + 1, error)
        else (s, error))"

definition lex_exponent :: "bytes \<Rightarrow> nat \<times> bool \<Rightarrow> nat \<times> bool" where
  "lex_exponent input = (\<lambda>(s, error).
     let s = (if s < length input \<and> (input ! s = ch CHR ''+'' \<or> input ! s = ch CHR ''-'')
              then s + 1 else s)
     in lex_digits input (s, error))"

definition lex_fraction :: "bytes \<Rightarrow> nat \<times> bool \<Rightarrow> gtype_token_type \<times> nat \<times> bool" where
  "lex_fraction input = (\<lambda>(s, error).
     if s < length input \<and> input ! s = ch CHR ''.''
     then (GTYPE_TOKEN_FLOAT, lex_digits input (s + 1, error))
     else (GTYPE_TOKEN_INTEGER, s, error))"

definition lex_tail :: "bytes \<Rightarrow> gtype_token_type \<times> nat \<times> bool \<Rightarrow> gtype_token_type \<times> nat \<times> bool" where
  "lex_tail input = (\<lambda>(tok, s, error).
     if s < length input \<and> input ! s = ch CHR ''.''
     then (GTYPE_TOKEN_INET, lex_inet input (s + 1, error))
     else if s < length input \<and> (input ! s = ch CHR ''e'' \<or> input ! s = ch CHR ''E'')
     then (GTYPE_TOKEN_FLOAT, lex_exponent input (s + 1, error))
     else (tok, s, error))"

definition scan_number :: "bytes \<Rightarrow> nat \<Rightarrow> nat \<times> gtype_token_type \<times> bool" where
  "scan_number input s =
     (let (tok, s, error) = lex_tail input (lex_fraction input (lex_main_digits input s));
          s' = scan GTYPE_ALPHANUMERIC_CHAR input s
      in (s', tok, error \<or> s < s'))"

definition gtype_lex_number :: "gtype_lex_context \<Rightarrow> nat \<Rightarrow> gtype_parse_error + gtype_lex_context" where
  "gtype_lex_number lx s =
     (let (s, tok, error) = scan_number (lx_input lx) s;
          lx = lx \<lparr>lx_token_type := tok, lx_prev_token_terminator := lx_token_terminator lx,
                   lx_token_terminator := s\<rparr>
      in if error then Inl InvalidToken else Inr lx)"

subsection \<open>Tokens\<close>

text \<open>The token that ends at a position.\<close>

definition set_token :: "gtype_lex_context \<Rightarrow> nat \<Rightarrow> gtype_token_type \<Rightarrow> gtype_lex_context" where
  "set_token lx terminator tok =
     lx \<lparr>lx_prev_token_terminator := lx_token_terminator lx, lx_token_terminator := terminator,
         lx_token_type := tok\<rparr>"

definition is_space :: "byte \<Rightarrow> bool" where
  "is_space c \<longleftrightarrow> c \<in> {ch CHR '' '', 9, 10, 13}"

definition substr :: "bytes \<Rightarrow> nat \<Rightarrow> nat \<Rightarrow> bytes" where
  "substr input a b = take (b - a) (drop a input)"

definition word_token :: "bytes \<Rightarrow> gtype_token_type" where
  "word_token w =
     (if length w = 3 then
        (if same_nocase w ''NaN'' \<or> same_nocase w ''inf'' then GTYPE_TOKEN_FLOAT
         else GTYPE_TOKEN_IDENTIFIER)
      else if length w = 4 then
        (if same_word w ''true'' then GTYPE_TOKEN_TRUE
         else if same_word w ''null'' then GTYPE_TOKEN_NULL else GTYPE_TOKEN_IDENTIFIER)
      else if length w = 5 then
        (if same_word w ''false'' then GTYPE_TOKEN_FALSE else GTYPE_TOKEN_IDENTIFIER)
      else if length w = 8 then
        (if same_nocase w ''Infinity'' then GTYPE_TOKEN_FLOAT else GTYPE_TOKEN_IDENTIFIER)
      else GTYPE_TOKEN_IDENTIFIER)"

definition gtype_lex :: "lex_env \<Rightarrow> gtype_lex_context \<Rightarrow> gtype_parse_error + gtype_lex_context" where
  "gtype_lex env lx =
     (let input = lx_input lx;
          s = scan is_space input (lx_token_terminator lx);
          newlines = length (filter (\<lambda>c. c = 10) (substr input (lx_token_terminator lx) s));
          lx = lx \<lparr>lx_line_number := lx_line_number lx + newlines, lx_token_start := Some s\<rparr>;
          c = input ! s
      in if s \<ge> length input
         then Inr (set_token (lx \<lparr>lx_token_start := None\<rparr>) s GTYPE_TOKEN_END)
         else if c = ch CHR ''{'' then Inr (set_token lx (s + 1) GTYPE_TOKEN_OBJECT_START)
         else if c = ch CHR ''}'' then Inr (set_token lx (s + 1) GTYPE_TOKEN_OBJECT_END)
         else if c = ch CHR ''['' then Inr (set_token lx (s + 1) GTYPE_TOKEN_ARRAY_START)
         else if c = ch CHR '']'' then Inr (set_token lx (s + 1) GTYPE_TOKEN_ARRAY_END)
         else if c = ch CHR '','' then Inr (set_token lx (s + 1) GTYPE_TOKEN_COMMA)
         else if c = ch CHR '':'' then
           (if s < length input - 1 \<and> input ! (s + 1) = ch CHR '':''
            then Inr (set_token lx (s + 2) GTYPE_TOKEN_ANNOTATION)
            else Inr (set_token lx (s + 1) GTYPE_TOKEN_COLON))
         else if c = ch CHR ''\"'' then
           sum_bind (gtype_lex_string env lx s) (\<lambda>lx. Inr (lx \<lparr>lx_token_type := GTYPE_TOKEN_STRING\<rparr>))
         else if c = ch CHR ''-'' then
           (if chr_at input (s + 1) = ch CHR ''i'' \<or> chr_at input (s + 1) = ch CHR ''I'' then
              let p = scan is_alpha input (s + 1); w = substr input (s + 1) p
              in if length w = 3 \<and> same_nocase w ''inf'' \<or> length w = 8 \<and> same_nocase w ''Infinity''
                 then Inr (set_token lx p GTYPE_TOKEN_FLOAT)
                 else Inl InvalidToken
            else gtype_lex_number lx (s + 1))
         else if is_digit c then gtype_lex_number lx s
         else let p = scan GTYPE_ALPHANUMERIC_CHAR input s
              in if p = s then Inl InvalidToken
                 else Inr (set_token lx p (word_token (substr input s p))))"

definition lex_peek :: "gtype_lex_context \<Rightarrow> gtype_token_type" where
  "lex_peek lx = lx_token_type lx"

text \<open>The text of the current token: the de-escaped string, or the characters of the token.  A
  string token without de-escaping leaves the caller's pointer null.\<close>

definition lexeme :: "gtype_lex_context \<Rightarrow> bytes option" where
  "lexeme lx =
     (if lx_token_type lx = GTYPE_TOKEN_STRING then lx_strval lx
      else case lx_token_start lx of
        Some start \<Rightarrow> Some (substr (lx_input lx) start (lx_token_terminator lx))
      | None \<Rightarrow> None)"

text \<open>\<open>None\<close> is the result \<open>false\<close>; otherwise the token's text and the context at the next token.\<close>

definition lex_accept ::
    "lex_env \<Rightarrow> gtype_lex_context \<Rightarrow> gtype_token_type
       \<Rightarrow> (gtype_parse_error + bytes option \<times> gtype_lex_context) option" where
  "lex_accept env lx token =
     (if lx_token_type lx = token
      then Some (sum_bind (gtype_lex env lx) (\<lambda>lx'. Inr (lexeme lx, lx')))
      else None)"

definition report_parse_error :: "gtype_parse_context \<Rightarrow> gtype_lex_context \<Rightarrow> gtype_parse_error" where
  "report_parse_error ctx lx =
     (if lx_token_start lx = None \<or> lx_token_type lx = GTYPE_TOKEN_END then UnexpectedEnd
      else UnexpectedToken ctx)"

definition lex_expect ::
    "lex_env \<Rightarrow> gtype_parse_context \<Rightarrow> gtype_lex_context \<Rightarrow> gtype_token_type
       \<Rightarrow> gtype_parse_error + gtype_lex_context" where
  "lex_expect env ctx lx token =
     (case lex_accept env lx token of
        None \<Rightarrow> Inl (report_parse_error ctx lx)
      | Some r \<Rightarrow> sum_bind r (\<lambda>(_, lx). Inr lx))"

subsection \<open>Every token consumes input\<close>

lemma scan_ge: "s \<le> scan P input s"
  by (simp add: scan_def)

lemma scan_gt: "s < length input \<Longrightarrow> P (input ! s) \<Longrightarrow> s < scan P input s"
  by (simp add: scan_def Cons_nth_drop_Suc [symmetric])

lemma lex_string_loop_step:
  assumes "lex_string_loop env input s hi strval = Inr (s', strval')"
  shows "s + 1 < length input \<and> (s' = s + 1 \<or>
     (\<exists>hi' strval1 t. lex_string_loop env input t hi' strval1 = Inr (s', strval') \<and> s < t))"
proof -
  have p: "s < Suc s" "s < Suc (Suc s)" "s < s + 6" "s < 6 + s" by simp_all
  note u = assms [unfolded lex_string_loop.simps [of env input s hi strval] Let_def]
  have "s + 1 < length input" using u by (auto split: if_splits)
  moreover have "s' = s + 1 \<or>
     (\<exists>hi' strval1 t. lex_string_loop env input t hi' strval1 = Inr (s', strval') \<and> s < t)"
    using u
    by (simp split: if_splits option.splits) (blast intro: p)+
  ultimately show ?thesis by blast
qed

lemma lex_string_loop_pos:
  "lex_string_loop env input s hi strval = Inr (s', strval') \<Longrightarrow> s < s' \<and> s' < length input"
proof (induction "length input - s" arbitrary: s hi strval rule: less_induct)
  case less
  from lex_string_loop_step [OF less.prems] show ?case
  proof (elim conjE disjE exE)
    fix t hi' strval1
    assume "s + 1 < length input" "s < t" "lex_string_loop env input t hi' strval1 = Inr (s', strval')"
    then show ?thesis using less.hyps [of t hi' strval1] by force
  qed simp
qed

lemma lex_digits_ge: "fst se \<le> fst (lex_digits input se)"
  by (auto simp: lex_digits_def scan_ge split: prod.splits)

lemma lex_inet_ge: "fst se \<le> fst (lex_inet input se)"
proof -
  obtain s e where [simp]: "se = (s, e)" by (cases se)
  let ?r = "if s \<ge> length input \<or> \<not> is_digit (input ! s) then (s, True)
            else (scan (\<lambda>c. is_digit c \<or> c = ch CHR ''.'') input s, e)"
  have "s \<le> fst ?r" by (simp add: scan_ge)
  also have "fst ?r \<le> fst (lex_inet input se)"
    using lex_digits_ge [of "(Suc (fst ?r), snd ?r)" input]
    by (auto simp: lex_inet_def Let_def split: prod.splits)
  finally show ?thesis by simp
qed

lemma lex_exponent_ge: "fst se \<le> fst (lex_exponent input se)"
  using lex_digits_ge [of "(Suc (fst se), snd se)" input] lex_digits_ge [of se input]
  by (auto simp: lex_exponent_def Let_def split: prod.splits)

lemma lex_main_digits_ge:
  "s \<le> fst (lex_main_digits input s)"
  "s < length input \<Longrightarrow> is_digit (input ! s) \<Longrightarrow> s < fst (lex_main_digits input s)"
  by (auto simp: lex_main_digits_def scan_ge scan_gt)

lemma lex_fraction_ge: "fst se \<le> fst (snd (lex_fraction input se))"
  using lex_digits_ge [of "(Suc (fst se), snd se)" input]
  by (auto simp: lex_fraction_def split: prod.splits)

lemma lex_tail_ge: "fst (snd tse) \<le> fst (snd (lex_tail input tse))"
proof -
  obtain t s e where [simp]: "tse = (t, s, e)" by (cases tse)
  show ?thesis
    using lex_inet_ge [of "(Suc s, e)" input] lex_exponent_ge [of "(Suc s, e)" input]
    by (auto simp: lex_tail_def)
qed

lemma scan_number_ge: "fst (lex_main_digits input s) \<le> fst (scan_number input s)"
proof -
  obtain t s' e where r: "lex_tail input (lex_fraction input (lex_main_digits input s)) = (t, s', e)"
    using prod_cases3 by blast
  then have "fst (lex_main_digits input s) \<le> s'"
    using lex_fraction_ge [of "lex_main_digits input s" input]
      lex_tail_ge [of "lex_fraction input (lex_main_digits input s)" input] by simp
  then show ?thesis
    using scan_ge [of s' GTYPE_ALPHANUMERIC_CHAR input] by (simp add: scan_number_def r Let_def)
qed

lemma gtype_lex_number_pos:
  assumes "gtype_lex_number lx s = Inr lx'"
  shows "lx_input lx' = lx_input lx \<and> s \<le> lx_token_terminator lx'
    \<and> (s < length (lx_input lx) \<longrightarrow> is_digit (lx_input lx ! s) \<longrightarrow> s < lx_token_terminator lx')"
proof -
  obtain e tok err where r: "scan_number (lx_input lx) s = (e, tok, err)" using prod_cases3 by blast
  then have lx': "lx' = lx \<lparr>lx_token_type := tok, lx_prev_token_terminator := lx_token_terminator lx,
       lx_token_terminator := e\<rparr>"
    using assms by (simp add: gtype_lex_number_def Let_def split: if_splits)
  have "fst (lex_main_digits (lx_input lx) s) \<le> e" using scan_number_ge [of "lx_input lx" s] r by simp
  with lx' lex_main_digits_ge [of s "lx_input lx"] show ?thesis by auto
qed

lemma gtype_lex_string_pos:
  assumes "gtype_lex_string env lx s = Inr lx'"
  shows "lx_input lx' = lx_input lx \<and> s < lx_token_terminator lx'"
  using assms by (auto simp: gtype_lex_string_def Let_def dest: lex_string_loop_pos)

text \<open>A step of the lexer keeps the input, and either reports the end or moves on.\<close>

definition lex_advance :: "gtype_lex_context \<Rightarrow> gtype_lex_context \<Rightarrow> bool" where
  "lex_advance lx lx' \<longleftrightarrow> lx_input lx' = lx_input lx \<and> (lx_token_type lx' = GTYPE_TOKEN_END
     \<or> lx_token_terminator lx < length (lx_input lx)
        \<and> lx_token_terminator lx < lx_token_terminator lx')"

lemma lex_advance_set_token:
  "lx_token_terminator lx \<le> s \<Longrightarrow> s < length (lx_input lx) \<Longrightarrow> s < e \<Longrightarrow>
     lex_advance lx (set_token (lx \<lparr>lx_line_number := l, lx_token_start := st\<rparr>) e tok)"
  by (simp add: lex_advance_def set_token_def)

lemma gtype_lex_progress:
  assumes "gtype_lex env lx = Inr lx'"
  shows "lex_advance lx lx'"
proof -
  define s where "s = scan is_space (lx_input lx) (lx_token_terminator lx)"
  have s: "lx_token_terminator lx \<le> s" by (simp add: s_def scan_ge)
  define lx1 where "lx1 = lx \<lparr>lx_line_number := lx_line_number lx + length (filter (\<lambda>c. c = 10)
      (substr (lx_input lx) (lx_token_terminator lx) s)), lx_token_start := Some s\<rparr>"
  have lx1: "lx_input lx1 = lx_input lx" "lx_token_terminator lx1 = lx_token_terminator lx"
    by (simp_all add: lx1_def)
  have adv: "lex_advance lx (set_token lx1 e tok)" if "s < e" "s < length (lx_input lx)" for e tok
    using that s by (simp add: lex_advance_def set_token_def lx1)
  have num: "lex_advance lx l"
    if "gtype_lex_number lx1 e = Inr l" "s < length (lx_input lx)"
      "s < e \<or> s = e \<and> is_digit (lx_input lx ! s)" for e l
    using gtype_lex_number_pos [OF that(1)] that(2,3) s by (auto simp: lex_advance_def lx1)
  have str: "lex_advance lx (l \<lparr>lx_token_type := GTYPE_TOKEN_STRING\<rparr>)"
    if "gtype_lex_string env lx1 s = Inr l" "s < length (lx_input lx)" for l
    using gtype_lex_string_pos [OF that(1)] that(2) s by (auto simp: lex_advance_def lx1)
  have e: "lex_advance lx (set_token (lx1 \<lparr>lx_token_start := None\<rparr>) s GTYPE_TOKEN_END)"
    by (simp add: lex_advance_def set_token_def lx1)
  show ?thesis
    using assms scan_ge [of "Suc s" is_alpha "lx_input lx"]
      scan_ge [of s GTYPE_ALPHANUMERIC_CHAR "lx_input lx"]
    unfolding gtype_lex_def Let_def s_def [symmetric] lx1_def [symmetric]
    by (auto simp: not_le intro!: adv num str e split: if_splits)
qed

end
