(* ===== verification/GType_Parse.thy ===== *)
theory GType_Parse
  imports GType_Lex
begin

text \<open>
  The recursive descent parser of the textual form of \<open>gtype\<close>
  (\<open>src/src/backend/utils/adt/gtype_parser.c\<close>).  The semantic actions are a record of optional
  functions on a state, as the source's struct of function pointers; a null pointer is \<open>None\<close>.
  The mutually recursive routines take a bound \<open>n\<close> on the depth of calls and loop rounds; \<open>None\<close>
  is the result when it is used up, and the length of the input is a bound that suffices.
\<close>

record 's gtype_sem_action =
  sem_object_start :: "('s \<Rightarrow> gtype_parse_error + 's) option"
  sem_object_end :: "('s \<Rightarrow> gtype_parse_error + 's) option"
  sem_array_start :: "('s \<Rightarrow> gtype_parse_error + 's) option"
  sem_array_end :: "('s \<Rightarrow> gtype_parse_error + 's) option"
  sem_object_field_start :: "('s \<Rightarrow> bytes option \<Rightarrow> bool \<Rightarrow> gtype_parse_error + 's) option"
  sem_object_field_end :: "('s \<Rightarrow> bytes option \<Rightarrow> bool \<Rightarrow> gtype_parse_error + 's) option"
  sem_array_element_start :: "('s \<Rightarrow> bool \<Rightarrow> gtype_parse_error + 's) option"
  sem_array_element_end :: "('s \<Rightarrow> bool \<Rightarrow> gtype_parse_error + 's) option"
  sem_scalar :: "('s \<Rightarrow> bytes option \<Rightarrow> gtype_token_type \<Rightarrow> bytes option \<Rightarrow> gtype_parse_error + 's) option"

text \<open>\<open>if (f != NULL) (*f)(state, ...)\<close>\<close>

definition call_action :: "('s \<Rightarrow> 'e + 's) option \<Rightarrow> 's \<Rightarrow> 'e + 's" where
  "call_action f st = (case f of None \<Rightarrow> Inr st | Some g \<Rightarrow> g st)"

text \<open>Sequencing of bounded computations.\<close>

definition fuel_bind :: "('e + 'a) option \<Rightarrow> ('a \<Rightarrow> ('e + 'b) option) \<Rightarrow> ('e + 'b) option" where
  "fuel_bind m f =
     (case m of None \<Rightarrow> None | Some (Inl e) \<Rightarrow> Some (Inl e) | Some (Inr x) \<Rightarrow> f x)"

lemma fuel_bind_cong [fundef_cong]:
  assumes "m = m'" and "\<And>x. m' = Some (Inr x) \<Longrightarrow> f x = g x"
  shows "fuel_bind m f = fuel_bind m' g"
  using assms by (auto simp: fuel_bind_def split: option.splits sum.splits)

lemma fuel_bind_simps [simp]:
  "fuel_bind None f = None"
  "fuel_bind (Some (Inl e)) f = Some (Inl e)"
  "fuel_bind (Some (Inr x)) f = f x"
  by (simp_all add: fuel_bind_def)

lemma fuel_bind_eq_Inr [simp]:
  "fuel_bind m f = Some (Inr y) \<longleftrightarrow> (\<exists>x. m = Some (Inr x) \<and> f x = Some (Inr y))"
  by (auto simp: fuel_bind_def split: option.splits sum.splits)

lemma fuel_bind_eq_None:
  "fuel_bind m f = None \<longleftrightarrow> m = None \<or> (\<exists>x. m = Some (Inr x) \<and> f x = None)"
  by (auto simp: fuel_bind_def split: option.splits sum.splits)

type_synonym 's parse_result = "gtype_parse_error + 's \<times> gtype_lex_context"

definition parse_scalar_annotation ::
    "lex_env \<Rightarrow> gtype_lex_context \<Rightarrow> bool \<Rightarrow> gtype_parse_error + bytes option \<times> gtype_lex_context" where
  "parse_scalar_annotation env lx func =
     (if lex_peek lx = GTYPE_TOKEN_ANNOTATION then
        (case lex_accept env lx GTYPE_TOKEN_ANNOTATION of
           None \<Rightarrow> Inr (None, lx)
         | Some r \<Rightarrow> sum_bind r (\<lambda>(_, lx).
             if lex_peek lx = GTYPE_TOKEN_IDENTIFIER then
               (case lex_accept env lx GTYPE_TOKEN_IDENTIFIER of
                  None \<Rightarrow> Inr (None, lx)
                | Some r \<Rightarrow> sum_bind r (\<lambda>(annotation, lx). Inr (if func then annotation else None, lx)))
             else Inl InvalidAnnotation))
      else Inr (None, lx))"

definition parse_scalar ::
    "lex_env \<Rightarrow> 's gtype_sem_action \<Rightarrow> gtype_lex_context \<Rightarrow> 's \<Rightarrow> 's parse_result" where
  "parse_scalar env sem lx st =
     (let tok = lex_peek lx
      in if tok \<notin> {GTYPE_TOKEN_TRUE, GTYPE_TOKEN_FALSE, GTYPE_TOKEN_NULL, GTYPE_TOKEN_INTEGER,
                  GTYPE_TOKEN_FLOAT, GTYPE_TOKEN_STRING, GTYPE_TOKEN_INET}
         then Inl (report_parse_error GTYPE_PARSE_VALUE lx)
         else case lex_accept env lx tok of
           None \<Rightarrow> Inl (report_parse_error GTYPE_PARSE_VALUE lx)
         | Some r \<Rightarrow> sum_bind r (\<lambda>(val, lx).
             sum_bind (parse_scalar_annotation env lx (sem_scalar sem \<noteq> None)) (\<lambda>(annotation, lx).
             case sem_scalar sem of
               None \<Rightarrow> Inr (st, lx)
             | Some sfunc \<Rightarrow> sum_bind (sfunc st val tok annotation) (\<lambda>st. Inr (st, lx)))))"

text \<open>The routines that call each other, with a name for each loop
  \<open>while (lex_accept(lex, GTYPE_TOKEN_COMMA, NULL)) ...\<close> and for the switch on the next token that
  three routines share.  The body of each is written over \<open>call\<close>, which runs a routine.\<close>

datatype routine =
  ParseAny | ParseObjectField | ParseMoreFields | ParseObject | ParseArrayElement
  | ParseMoreElements | ParseArray

type_synonym 's parse_call =
  "routine \<Rightarrow> gtype_lex_context \<Rightarrow> 's \<Rightarrow> 's parse_result option"

definition parse_any :: "'s parse_call \<Rightarrow> lex_env \<Rightarrow> 's gtype_sem_action \<Rightarrow> gtype_lex_context \<Rightarrow> 's
    \<Rightarrow> 's parse_result option" where
  "parse_any call env sem lx st =
     (if lex_peek lx = GTYPE_TOKEN_OBJECT_START then call ParseObject lx st
      else if lex_peek lx = GTYPE_TOKEN_ARRAY_START then call ParseArray lx st
      else Some (parse_scalar env sem lx st))"

definition parse_object_field :: "'s parse_call \<Rightarrow> lex_env \<Rightarrow> 's gtype_sem_action
    \<Rightarrow> gtype_lex_context \<Rightarrow> 's \<Rightarrow> 's parse_result option" where
  "parse_object_field call env sem lx st =
     (case lex_accept env lx GTYPE_TOKEN_STRING of
        None \<Rightarrow> Some (Inl (report_parse_error GTYPE_PARSE_STRING lx))
      | Some r \<Rightarrow> fuel_bind (Some r) (\<lambda>(name, lx).
          let fname = (if sem_object_field_start sem \<noteq> None \<or> sem_object_field_end sem \<noteq> None
                       then name else None)
          in fuel_bind (Some (lex_expect env GTYPE_PARSE_OBJECT_LABEL lx GTYPE_TOKEN_COLON)) (\<lambda>lx.
          let isnull = (lex_peek lx = GTYPE_TOKEN_NULL)
          in fuel_bind (Some (call_action (map_option (\<lambda>f st. f st fname isnull)
                (sem_object_field_start sem)) st)) (\<lambda>st.
             fuel_bind (call ParseAny lx st) (\<lambda>(st, lx).
             fuel_bind (Some (call_action (map_option (\<lambda>f st. f st fname isnull)
                (sem_object_field_end sem)) st)) (\<lambda>st. Some (Inr (st, lx))))))))"

definition parse_more_fields :: "'s parse_call \<Rightarrow> lex_env \<Rightarrow> gtype_lex_context \<Rightarrow> 's
    \<Rightarrow> 's parse_result option" where
  "parse_more_fields call env lx st =
     (case lex_accept env lx GTYPE_TOKEN_COMMA of
        None \<Rightarrow> Some (Inr (st, lx))
      | Some r \<Rightarrow> fuel_bind (Some r) (\<lambda>(_, lx).
          fuel_bind (call ParseObjectField lx st) (\<lambda>(st, lx). call ParseMoreFields lx st)))"

definition parse_object :: "'s parse_call \<Rightarrow> lex_env \<Rightarrow> 's gtype_sem_action \<Rightarrow> gtype_lex_context \<Rightarrow> 's
    \<Rightarrow> 's parse_result option" where
  "parse_object call env sem lx st =
     fuel_bind (Some (call_action (sem_object_start sem) st)) (\<lambda>st.
     let lx = lx \<lparr>lx_lex_level := lx_lex_level lx + 1\<rparr>
     in fuel_bind (Some (lex_expect env GTYPE_PARSE_OBJECT_START lx GTYPE_TOKEN_OBJECT_START)) (\<lambda>lx.
     fuel_bind
       (if lex_peek lx = GTYPE_TOKEN_STRING then
          fuel_bind (call ParseObjectField lx st) (\<lambda>(st, lx). call ParseMoreFields lx st)
        else if lex_peek lx = GTYPE_TOKEN_OBJECT_END then Some (Inr (st, lx))
        else Some (Inl (report_parse_error GTYPE_PARSE_OBJECT_START lx))) (\<lambda>(st, lx).
     fuel_bind (Some (lex_expect env GTYPE_PARSE_OBJECT_NEXT lx GTYPE_TOKEN_OBJECT_END)) (\<lambda>lx.
     let lx = lx \<lparr>lx_lex_level := lx_lex_level lx - 1\<rparr>
     in fuel_bind (Some (call_action (sem_object_end sem) st)) (\<lambda>st. Some (Inr (st, lx)))))))"

definition parse_array_element :: "'s parse_call \<Rightarrow> 's gtype_sem_action \<Rightarrow> gtype_lex_context \<Rightarrow> 's
    \<Rightarrow> 's parse_result option" where
  "parse_array_element call sem lx st =
     (let isnull = (lex_peek lx = GTYPE_TOKEN_NULL)
      in fuel_bind (Some (call_action (map_option (\<lambda>f st. f st isnull) (sem_array_element_start sem)) st)) (\<lambda>st.
         fuel_bind (call ParseAny lx st) (\<lambda>(st, lx).
         fuel_bind (Some (call_action (map_option (\<lambda>f st. f st isnull) (sem_array_element_end sem)) st)) (\<lambda>st.
         Some (Inr (st, lx))))))"

definition parse_more_elements :: "'s parse_call \<Rightarrow> lex_env \<Rightarrow> gtype_lex_context \<Rightarrow> 's
    \<Rightarrow> 's parse_result option" where
  "parse_more_elements call env lx st =
     (case lex_accept env lx GTYPE_TOKEN_COMMA of
        None \<Rightarrow> Some (Inr (st, lx))
      | Some r \<Rightarrow> fuel_bind (Some r) (\<lambda>(_, lx).
          fuel_bind (call ParseArrayElement lx st) (\<lambda>(st, lx). call ParseMoreElements lx st)))"

definition parse_array :: "'s parse_call \<Rightarrow> lex_env \<Rightarrow> 's gtype_sem_action \<Rightarrow> gtype_lex_context \<Rightarrow> 's
    \<Rightarrow> 's parse_result option" where
  "parse_array call env sem lx st =
     fuel_bind (Some (call_action (sem_array_start sem) st)) (\<lambda>st.
     let lx = lx \<lparr>lx_lex_level := lx_lex_level lx + 1\<rparr>
     in fuel_bind (Some (lex_expect env GTYPE_PARSE_ARRAY_START lx GTYPE_TOKEN_ARRAY_START)) (\<lambda>lx.
     fuel_bind
       (if lex_peek lx \<noteq> GTYPE_TOKEN_ARRAY_END
        then fuel_bind (call ParseArrayElement lx st) (\<lambda>(st, lx). call ParseMoreElements lx st)
        else Some (Inr (st, lx))) (\<lambda>(st, lx).
     fuel_bind (Some (lex_expect env GTYPE_PARSE_ARRAY_NEXT lx GTYPE_TOKEN_ARRAY_END)) (\<lambda>lx.
     let lx = lx \<lparr>lx_lex_level := lx_lex_level lx - 1\<rparr>
     in fuel_bind (Some (call_action (sem_array_end sem) st)) (\<lambda>st. Some (Inr (st, lx)))))))"

primrec parse_routine :: "lex_env \<Rightarrow> 's gtype_sem_action \<Rightarrow> nat \<Rightarrow> 's parse_call" where
  "parse_routine env sem 0 = (\<lambda>r lx st. None)"
| "parse_routine env sem (Suc n) = (\<lambda>r lx st.
     (case r of
        ParseAny \<Rightarrow> parse_any (parse_routine env sem n) env sem lx st
      | ParseObjectField \<Rightarrow> parse_object_field (parse_routine env sem n) env sem lx st
      | ParseMoreFields \<Rightarrow> parse_more_fields (parse_routine env sem n) env lx st
      | ParseObject \<Rightarrow> parse_object (parse_routine env sem n) env sem lx st
      | ParseArrayElement \<Rightarrow> parse_array_element (parse_routine env sem n) sem lx st
      | ParseMoreElements \<Rightarrow> parse_more_elements (parse_routine env sem n) env lx st
      | ParseArray \<Rightarrow> parse_array (parse_routine env sem n) env sem lx st))"

definition parse_gtype ::
    "lex_env \<Rightarrow> 's gtype_sem_action \<Rightarrow> nat \<Rightarrow> gtype_lex_context \<Rightarrow> 's \<Rightarrow> 's parse_result option" where
  "parse_gtype env sem n lx st =
     fuel_bind (Some (gtype_lex env lx)) (\<lambda>lx.
     fuel_bind (parse_routine env sem n ParseAny lx st) (\<lambda>(st, lx).
     fuel_bind (Some (lex_expect env GTYPE_PARSE_END lx GTYPE_TOKEN_END)) (\<lambda>lx. Some (Inr (st, lx)))))"

subsection \<open>The length of the input bounds the parser\<close>

text \<open>A bound on the tokens that are left, the current one included.\<close>

definition tokens_left :: "gtype_lex_context \<Rightarrow> nat" where
  "tokens_left lx =
     (if lx_token_type lx = GTYPE_TOKEN_END then 0
      else 1 + (length (lx_input lx) - lx_token_terminator lx))"

lemma tokens_left_level [simp]: "tokens_left (lx \<lparr>lx_lex_level := l\<rparr>) = tokens_left lx"
  by (simp add: tokens_left_def)

lemma lex_accept_left:
  assumes "lex_accept env lx t = Some (Inr (w, lx'))" "t \<noteq> GTYPE_TOKEN_END"
  shows "tokens_left lx' < tokens_left lx"
proof -
  have "lex_advance lx lx'" and "lx_token_type lx = t"
    using assms(1) by (auto simp: lex_accept_def intro: gtype_lex_progress split: if_splits)
  then show ?thesis using assms(2) by (auto simp: tokens_left_def lex_advance_def)
qed

lemma lex_expect_left:
  "lex_expect env ctx lx t = Inr lx' \<Longrightarrow> t \<noteq> GTYPE_TOKEN_END \<Longrightarrow> tokens_left lx' < tokens_left lx"
  by (auto simp: lex_expect_def split: option.splits dest: lex_accept_left)

lemma annotation_left:
  "parse_scalar_annotation env lx f = Inr (a, lx') \<Longrightarrow> tokens_left lx' \<le> tokens_left lx"
  by (fastforce simp: parse_scalar_annotation_def split: if_splits option.splits
      dest: lex_accept_left)

lemma parse_scalar_left:
  assumes "parse_scalar env sem lx st = Inr (st', lx')"
  shows "tokens_left lx' < tokens_left lx"
proof -
  obtain v lx1 a where "lex_accept env lx (lex_peek lx) = Some (Inr (v, lx1))"
    and p: "lex_peek lx \<noteq> GTYPE_TOKEN_END"
    and a: "parse_scalar_annotation env lx1 (sem_scalar sem \<noteq> None) = Inr (a, lx')"
    using assms by (auto simp: parse_scalar_def Let_def split: if_splits option.splits)
  then have "tokens_left lx1 < tokens_left lx" by (blast dest: lex_accept_left)
  with annotation_left [OF a] show ?thesis by simp
qed

lemmas parse_defs = parse_any_def parse_object_field_def parse_more_fields_def parse_object_def
  parse_array_element_def parse_more_elements_def parse_array_def

text \<open>A routine never has more tokens left than it was given.\<close>

definition shrinks :: "'s parse_call \<Rightarrow> bool" where
  "shrinks call \<longleftrightarrow> (\<forall>r lx st st' lx'. call r lx st = Some (Inr (st', lx')) \<longrightarrow>
     tokens_left lx' \<le> tokens_left lx)"

lemma shrinksD: "shrinks call \<Longrightarrow> call r lx st = Some (Inr (st', lx')) \<Longrightarrow> tokens_left lx' \<le> tokens_left lx"
  by (auto simp: shrinks_def)

lemma parse_any_left:
  "shrinks call \<Longrightarrow> parse_any call env sem lx st = Some (Inr (st', lx')) \<Longrightarrow> tokens_left lx' \<le> tokens_left lx"
  by (auto simp: parse_any_def split: if_splits dest: shrinksD parse_scalar_left)

lemma parse_object_field_left:
  assumes "shrinks call" "parse_object_field call env sem lx st = Some (Inr (st', lx'))"
  shows "tokens_left lx' \<le> tokens_left lx"
proof -
  obtain v lx1 lx2 st1 st2 where "lex_accept env lx GTYPE_TOKEN_STRING = Some (Inr (v, lx1))"
    "lex_expect env GTYPE_PARSE_OBJECT_LABEL lx1 GTYPE_TOKEN_COLON = Inr lx2"
    "call ParseAny lx2 st1 = Some (Inr (st2, lx'))"
    using assms(2) by (auto simp: parse_object_field_def Let_def split: option.splits)
  then show ?thesis using lex_accept_left lex_expect_left shrinksD [OF assms(1)] by fastforce
qed

lemma parse_more_fields_left:
  assumes "shrinks call" "parse_more_fields call env lx st = Some (Inr (st', lx'))"
  shows "tokens_left lx' \<le> tokens_left lx"
  using assms(2)
  by (auto simp: parse_more_fields_def split: option.splits dest!: lex_accept_left shrinksD [OF assms(1)])

lemma parse_more_elements_left:
  assumes "shrinks call" "parse_more_elements call env lx st = Some (Inr (st', lx'))"
  shows "tokens_left lx' \<le> tokens_left lx"
  using assms(2)
  by (auto simp: parse_more_elements_def split: option.splits dest!: lex_accept_left shrinksD [OF assms(1)])

lemma parse_array_element_left:
  assumes "shrinks call" "parse_array_element call sem lx st = Some (Inr (st', lx'))"
  shows "tokens_left lx' \<le> tokens_left lx"
  using assms(2) by (auto simp: parse_array_element_def Let_def dest!: shrinksD [OF assms(1)])

lemma parse_object_left:
  assumes "shrinks call" "parse_object call env sem lx st = Some (Inr (st', lx'))"
  shows "tokens_left lx' \<le> tokens_left lx"
  using assms(2)
  by (auto simp: parse_object_def Let_def split: if_splits
      dest!: shrinksD [OF assms(1)] lex_expect_left)

lemma parse_array_left:
  assumes "shrinks call" "parse_array call env sem lx st = Some (Inr (st', lx'))"
  shows "tokens_left lx' \<le> tokens_left lx"
  using assms(2)
  by (auto simp: parse_array_def Let_def split: if_splits
      dest!: shrinksD [OF assms(1)] lex_expect_left)

lemma parse_routine_shrinks: "shrinks (parse_routine env sem n)"
proof (induction n)
  case 0
  then show ?case by (simp add: shrinks_def)
next
  case (Suc n)
  note left = parse_any_left [OF Suc] parse_object_field_left [OF Suc] parse_more_fields_left [OF Suc]
    parse_object_left [OF Suc] parse_array_element_left [OF Suc] parse_more_elements_left [OF Suc]
    parse_array_left [OF Suc]
  show ?case
    unfolding shrinks_def
  proof (intro allI impI)
    fix r lx st st' lx'
    assume "parse_routine env sem (Suc n) r lx st = Some (Inr (st', lx'))"
    then show "tokens_left lx' \<le> tokens_left lx" by (cases r) (auto dest: left)
  qed
qed

text \<open>The bound that a routine needs for the tokens that are left.\<close>

fun fuel_needed :: "routine \<Rightarrow> nat \<Rightarrow> nat" where
  "fuel_needed ParseAny k = 3 * k + 2"
| "fuel_needed ParseArrayElement k = 3 * k + 3"
| "fuel_needed _ k = 3 * k + 1"

lemma parse_routine_fuel:
  "fuel_needed r (tokens_left lx) \<le> n \<Longrightarrow> parse_routine env sem n r lx st \<noteq> None"
proof (induction n arbitrary: r lx st)
  case 0
  then show ?case by (cases r) simp_all
next
  case (Suc n)
  have IH: "parse_routine env sem n r lx st \<noteq> None" if "fuel_needed r (tokens_left lx) \<le> n" for r lx st
    using Suc.IH that by blast
  note sh = shrinksD [OF parse_routine_shrinks]
  have two: "fuel_bind (parse_routine env sem n a lx1 st1) (\<lambda>(st, lx). parse_routine env sem n b lx st) \<noteq> None"
    if "tokens_left lx1 < tokens_left lx" "3 * tokens_left lx \<le> n"
      "a = ParseObjectField \<or> a = ParseArrayElement" "b = ParseMoreFields \<or> b = ParseMoreElements"
    for a b lx1 st1
  proof
    assume "fuel_bind (parse_routine env sem n a lx1 st1) (\<lambda>(st, lx). parse_routine env sem n b lx st) = None"
    moreover have "parse_routine env sem n a lx1 st1 \<noteq> None" using that by (intro IH) auto
    ultimately obtain lx2 st2 where "parse_routine env sem n a lx1 st1 = Some (Inr (st2, lx2))"
      and none: "parse_routine env sem n b lx2 st2 = None"
      by (auto simp: fuel_bind_eq_None)
    then have "tokens_left lx2 \<le> tokens_left lx1" by (auto dest: sh)
    then have "parse_routine env sem n b lx2 st2 \<noteq> None" using that by (intro IH) auto
    then show False using none by simp
  qed
  show ?case
  proof (cases r)
    case ParseAny
    then show ?thesis using Suc.prems IH by (auto simp: parse_any_def)
  next
    case ParseArrayElement
    then show ?thesis
      using Suc.prems IH by (auto simp: parse_array_element_def Let_def fuel_bind_eq_None)
  next
    case ParseObjectField
    show ?thesis
    proof
      assume "parse_routine env sem (Suc n) r lx st = None"
      then obtain v lx1 lx2 st1 where "lex_accept env lx GTYPE_TOKEN_STRING = Some (Inr (v, lx1))"
        "lex_expect env GTYPE_PARSE_OBJECT_LABEL lx1 GTYPE_TOKEN_COLON = Inr lx2"
        and none: "parse_routine env sem n ParseAny lx2 st1 = None"
        using ParseObjectField
        by (auto simp: parse_object_field_def Let_def fuel_bind_eq_None split: option.splits)
      then have "tokens_left lx1 < tokens_left lx" "tokens_left lx2 < tokens_left lx1"
        by (auto dest: lex_accept_left lex_expect_left)
      then show False using IH [of ParseAny lx2 st1] none Suc.prems ParseObjectField by simp
    qed
  next
    case ParseMoreFields
    then show ?thesis
      using Suc.prems two [of _ ParseObjectField ParseMoreFields]
      by (auto simp: parse_more_fields_def split: option.splits sum.splits)
        (auto simp: fuel_bind_def dest: lex_accept_left split: sum.splits)
  next
    case ParseMoreElements
    then show ?thesis
      using Suc.prems two [of _ ParseArrayElement ParseMoreElements]
      by (auto simp: parse_more_elements_def split: option.splits sum.splits)
        (auto simp: fuel_bind_def dest: lex_accept_left split: sum.splits)
  next
    case ParseObject
    have "False" if none: "parse_routine env sem (Suc n) r lx st = None"
    proof -
      obtain lx2 st1 where l: "lex_expect env GTYPE_PARSE_OBJECT_START
            (lx \<lparr>lx_lex_level := Suc (lx_lex_level lx)\<rparr>) GTYPE_TOKEN_OBJECT_START = Inr lx2"
        and c: "parse_routine env sem n ParseObjectField lx2 st1 = None \<or>
          (\<exists>st2 lx3. parse_routine env sem n ParseObjectField lx2 st1 = Some (Inr (st2, lx3)) \<and>
             parse_routine env sem n ParseMoreFields lx3 st2 = None)"
        using none ParseObject
        by (auto simp: parse_object_def Let_def fuel_bind_eq_None split: if_splits)
      have "fuel_bind (parse_routine env sem n ParseObjectField lx2 st1)
          (\<lambda>(st, lx). parse_routine env sem n ParseMoreFields lx st) = None"
        using c by (auto simp: fuel_bind_eq_None)
      then show False
        using two [of lx2 ParseObjectField ParseMoreFields st1] lex_expect_left [OF l] Suc.prems ParseObject
        by simp
    qed
    then show ?thesis by blast
  next
    case ParseArray
    have "False" if none: "parse_routine env sem (Suc n) r lx st = None"
    proof -
      obtain lx2 st1 where l: "lex_expect env GTYPE_PARSE_ARRAY_START
            (lx \<lparr>lx_lex_level := Suc (lx_lex_level lx)\<rparr>) GTYPE_TOKEN_ARRAY_START = Inr lx2"
        and c: "parse_routine env sem n ParseArrayElement lx2 st1 = None \<or>
          (\<exists>st2 lx3. parse_routine env sem n ParseArrayElement lx2 st1 = Some (Inr (st2, lx3)) \<and>
             parse_routine env sem n ParseMoreElements lx3 st2 = None)"
        using none ParseArray
        by (auto simp: parse_array_def Let_def fuel_bind_eq_None split: if_splits)
      have "fuel_bind (parse_routine env sem n ParseArrayElement lx2 st1)
          (\<lambda>(st, lx). parse_routine env sem n ParseMoreElements lx st) = None"
        using c by (auto simp: fuel_bind_eq_None)
      then show False
        using two [of lx2 ParseArrayElement ParseMoreElements st1] lex_expect_left [OF l] Suc.prems ParseArray
        by simp
    qed
    then show ?thesis by blast
  qed
qed

text \<open>Parsing with the length of the input as bound never runs out.\<close>

lemma parse_gtype_fuel:
  assumes "3 * (length (lx_input lx) + 1) + 2 \<le> n"
  shows "parse_gtype env sem n lx st \<noteq> None"
proof
  assume "parse_gtype env sem n lx st = None"
  then obtain lx1 where lx1: "gtype_lex env lx = Inr lx1" "parse_routine env sem n ParseAny lx1 st = None"
    by (auto simp: parse_gtype_def fuel_bind_eq_None)
  have "tokens_left lx1 \<le> length (lx_input lx) + 1"
    using gtype_lex_progress [OF lx1(1)] by (auto simp: tokens_left_def lex_advance_def)
  then have "parse_routine env sem n ParseAny lx1 st \<noteq> None"
    using assms by (intro parse_routine_fuel) simp
  then show False using lx1(2) by simp
qed

end
