(* ===== verification/GType_Text.thy ===== *)
theory GType_Text
  imports GType_Out GType_Parse
begin

text \<open>
  What \<open>escape_gtype\<close> writes the lexer reads back (\<open>src/src/backend/utils/adt/gtype.c\<close> and
  \<open>gtype_parser.c\<close>).
\<close>

text \<open>PostgreSQL's \<open>unicode_to_utf8\<close> encodes ASCII as itself.\<close>

definition ascii_env :: "lex_env \<Rightarrow> bool" where
  "ascii_env env \<longleftrightarrow> (\<forall>c. 0 < c \<longrightarrow> c < 0x80 \<longrightarrow> env_unicode_to_utf8 env c = [of_nat c])"

lemma hex_value_digit: "d < 16 \<Longrightarrow> hex_value (hex_digit d) = Some d"
proof -
  assume "d < 16"
  then have "d \<in> set [0..<16]" by simp
  moreover have "\<forall>d \<in> set [0..<16]. hex_value (hex_digit d) = Some d" by code_simp
  ultimately show ?thesis by blast
qed

lemma lex_hex04:
  assumes "c < 32" "length pre = Suc s"
  shows "lex_hex (pre @ hex04 c @ post) 4 s 0 = Inr (unat c)"
proof -
  have c: "unat c < 32" using assms(1) by (simp add: word_less_nat_alt)
  have idx: "(pre @ hex04 c @ post) ! (Suc s + k) = hex04 c ! k" if "k < 4" for k
  proof -
    have "k = 0 \<or> k = 1 \<or> k = 2 \<or> k = 3" using that by linarith
    then show ?thesis using assms(2) by (auto simp: nth_append hex04_def)
  qed
  have len: "Suc s + 4 \<le> length (pre @ hex04 c @ post)" using assms(2) by (simp add: hex04_def)
  have "unat c div 16 < 16" "unat c mod 16 < 16" using c by simp_all
  note hx = hex_value_digit [OF this(1)] hex_value_digit [OF this(2)] hex_value_digit [of 0, simplified]
  define input where "input = pre @ hex04 c @ post"
  have eq: "Suc (Suc s) = Suc s + 1" "Suc (Suc (Suc s)) = Suc s + 2" "Suc (Suc (Suc (Suc s))) = Suc s + 3"
    by simp_all
  have "input ! Suc s = hex_digit 0" using idx [of 0] by (simp add: input_def hex04_def)
  moreover have "input ! Suc (Suc s) = hex_digit 0"
    unfolding eq(1) input_def by (subst idx) (simp_all add: hex04_def)
  moreover have "input ! Suc (Suc (Suc s)) = hex_digit (unat c div 16)"
    unfolding eq(2) input_def by (subst idx) (simp_all add: hex04_def)
  moreover have "input ! Suc (Suc (Suc (Suc s))) = hex_digit (unat c mod 16)"
    unfolding eq(3) input_def by (subst idx) (simp_all add: hex04_def)
  moreover have "Suc (Suc (Suc (Suc s))) < length input" using len by (simp add: input_def)
  ultimately have "lex_hex input (Suc (Suc (Suc (Suc 0)))) s 0 = Inr (unat c)"
    using hx by (simp add: Let_def)
  moreover have "(4 :: nat) = Suc (Suc (Suc (Suc 0)))" by simp
  ultimately show ?thesis unfolding input_def by metis
qed

lemma lex_unicode_ascii:
  "ascii_env env \<Longrightarrow> 0 < c \<Longrightarrow> c < 0x80 \<Longrightarrow> lex_unicode env None buf c = Inr (None, buf @ [of_nat c])"
  by (auto simp: lex_unicode_def ascii_env_def Let_def)

text \<open>One escaped character, wherever it stands in the input.\<close>

lemma lex_string_step:
  assumes env: "ascii_env env" and c: "c \<noteq> 0" and s: "length pre = Suc s"
  shows "lex_string_loop env (pre @ escape_char c @ post) s None (Some buf)
     = lex_string_loop env (pre @ escape_char c @ post) (s + length (escape_char c)) None (Some (buf @ [c]))"
proof -
  define input where "input = pre @ escape_char c @ post"
  have at: "input ! (Suc s + k) = escape_char c ! k" if "k < length (escape_char c)" for k
    using s that by (simp add: input_def nth_append)
  have len: "Suc s + length (escape_char c) \<le> length input" using s by (simp add: input_def)
  show ?thesis
  proof (cases "c \<in> {8, 12, 10, 13, 9, 0x22, 0x5C}")
    case True
    then have e: "length (escape_char c) = 2" "escape_char c ! 0 = 0x5C"
      "simple_escape (escape_char c ! Suc 0) = Some [c]" "escape_char c ! Suc 0 \<noteq> 0x75"
      by (auto simp: escape_char_def simple_escape_def ch_def is_digit_def)
    have "input ! (s + 1) = 0x5C" "input ! (s + 2) = escape_char c ! 1" "s + 2 < length input"
      using at [of 0] at [of 1] len e by simp_all
    then show ?thesis
      unfolding input_def [symmetric]
      by (subst lex_string_loop.simps) (simp add: e Let_def ch_def)
  next
    case False
    show ?thesis
    proof (cases "c < 32")
      case True
      with False have e: "escape_char c = [0x5C, 0x75] @ hex04 c" by (simp add: escape_char_def)
      have six: "s + length (escape_char c) = s + 6" by (simp add: e hex04_def)
      have "input ! (s + 1) = 0x5C" "input ! (s + 2) = 0x75" "s + 6 < length input"
        using at [of 0] at [of 1] len e by (simp_all add: hex04_def)
      moreover have "lex_hex input 4 (s + 2) 0 = Inr (unat c)"
        using lex_hex04 [OF True, of "pre @ [0x5C, 0x75]" "s + 2" post] s by (simp add: input_def e)
      moreover have "lex_unicode env None buf (unat c) = Inr (None, buf @ [c])"
        using lex_unicode_ascii [OF env, of "unat c" buf] True c
        by (simp add: word_less_nat_alt unat_gt_0)
      ultimately show ?thesis
        unfolding input_def [symmetric] six
        by (subst lex_string_loop.simps) (simp add: Let_def ch_def)
    next
      case big: False
      with False have e: "escape_char c = [c]" by (simp add: escape_char_def)
      have "input ! (s + 1) = c" "s + 1 < length input" using at [of 0] len e by simp_all
      then show ?thesis
        unfolding input_def [symmetric]
        using False big by (subst lex_string_loop.simps) (simp add: e Let_def ch_def)
    qed
  qed
qed

lemma lex_escaped:
  "ascii_env env \<Longrightarrow> 0 \<notin> set str \<Longrightarrow> length pre = Suc s \<Longrightarrow>
     lex_string_loop env (pre @ concat (map escape_char str) @ 0x22 # post) s None (Some buf)
   = Inr (Suc s + length (concat (map escape_char str)), Some (buf @ str))"
proof (induction str arbitrary: pre s buf)
  case Nil
  then show ?case
    by (subst lex_string_loop.simps) (simp add: Let_def ch_def nth_append)
next
  case (Cons c str)
  let ?post = "concat (map escape_char str) @ 0x22 # post"
  have "lex_string_loop env (pre @ escape_char c @ ?post) s None (Some buf)
      = lex_string_loop env ((pre @ escape_char c) @ ?post) (s + length (escape_char c)) None (Some (buf @ [c]))"
    using lex_string_step [of env c pre s ?post buf] Cons.prems by simp
  also have "\<dots> = Inr (Suc (s + length (escape_char c)) + length (concat (map escape_char str)),
      Some ((buf @ [c]) @ str))"
    by (rule Cons.IH) (use Cons.prems in simp_all)
  finally show ?case by (simp add: add.assoc)
qed

lemma takeWhile_all: "0 \<notin> set s \<Longrightarrow> takeWhile (\<lambda>c. c \<noteq> 0) s = (s :: bytes)"
  by (rule takeWhile_eq_all_conv [THEN iffD2]) auto

text \<open>C24. The quoted text that a string is printed as, wherever it stands in the
  input, is one string token, and the lexer gives back the string, whatever bytes it has.\<close>

theorem escape_then_lex:
  assumes "ascii_env env" "0 \<notin> set str" "lx_strval lx \<noteq> None"
    and "lx_input lx = pre @ escape_gtype [] str @ post" "lx_token_terminator lx = length pre"
  shows "\<exists>lx'. gtype_lex env lx = Inr lx' \<and> lx_token_type lx' = GTYPE_TOKEN_STRING
     \<and> lexeme lx' = Some str \<and> lx_input lx' = lx_input lx
     \<and> lx_token_terminator lx' = length (pre @ escape_gtype [] str)"
proof -
  let ?body = "concat (map escape_char str)"
  have esc: "escape_gtype [] str = 0x22 # ?body @ [0x22]"
    by (simp add: escape_gtype_def takeWhile_all [OF assms(2)] del: takeWhile_eq_all_conv)
  have input: "lx_input lx = pre @ 0x22 # ?body @ 0x22 # post" using assms(4) by (simp add: esc)
  have "scan is_space (lx_input lx) (length pre) = length pre"
    by (simp add: scan_def input is_space_def ch_def)
  moreover have "lex_string_loop env (lx_input lx) (length pre) None (Some [])
      = Inr (Suc (length pre + length ?body), Some str)"
    using lex_escaped [OF assms(1,2), of "pre @ [0x22]" "length pre" post "[]"] by (simp add: input)
  ultimately show ?thesis
    using assms(3,5)
    by (auto simp: gtype_lex_def gtype_lex_string_def Let_def input esc ch_def lexeme_def)
qed

theorem escape_then_lex_witness:
  "\<exists>lx'. gtype_lex \<lparr>env_utf8 = False, env_unicode_to_utf8 = \<lambda>c. [of_nat c]\<rparr>
       (make_gtype_lex_context_cstring_len ([] @ escape_gtype [] [7, 34, 195] @ [32]) True) = Inr lx'
     \<and> lexeme lx' = Some [7, 34, 195]"
  using escape_then_lex [of "\<lparr>env_utf8 = False, env_unicode_to_utf8 = \<lambda>c. [of_nat c]\<rparr>" "[7, 34, 195]"
      "make_gtype_lex_context_cstring_len ([] @ escape_gtype [] [7, 34, 195] @ [32]) True" "[]" "[32]"]
  by (auto simp: ascii_env_def make_gtype_lex_context_cstring_len_def)

text \<open>C29. A bound linear in the length of the input suffices for the parser,
  whatever the input and the semantic actions: it never runs out, so it returns a value or an
  error.\<close>

theorem parser_terminates:
  "parse_gtype env sem (3 * length (lx_input lx) + 5) lx st \<noteq> None"
  by (rule parse_gtype_fuel) simp

end
