(* ===== verification/GType_In.thy ===== *)
theory GType_In
  imports GType_Text
begin

text \<open>
  Reading a \<open>gtype\<close> from its text: the semantic actions that \<open>gtype_from_cstring\<close> hands to the
  parser (\<open>src/src/backend/utils/adt/gtype.c\<close>).  PostgreSQL's input functions are a record of
  parameters; \<open>None\<close> is an error that they report.  Network addresses are the bytes that are copied
  from the result.
\<close>

record scalar_in =
  strtoint64 :: "bytes \<Rightarrow> 64 word option"
  float8in :: "bytes \<Rightarrow> 64 word option"
  numeric_in :: "bytes \<Rightarrow> bytes option"
  timestamp_in :: "bytes \<Rightarrow> 64 word option"
  timestamptz_in :: "bytes \<Rightarrow> 64 word option"
  date_in :: "bytes \<Rightarrow> 32 word option"
  time_in :: "bytes \<Rightarrow> 64 word option"
  timetz_in :: "bytes \<Rightarrow> (64 word \<times> 32 word) option"
  interval_in :: "bytes \<Rightarrow> (64 word \<times> 32 word \<times> 32 word) option"
  inet_in :: "bytes \<Rightarrow> bytes option"
  cidr_in :: "bytes \<Rightarrow> bytes option"
  macaddr_in :: "bytes \<Rightarrow> bytes option"
  macaddr8_in :: "bytes \<Rightarrow> bytes option"

record gtype_in_state =
  in_parse_state :: "gtype_parse_state list"
  in_res :: "gtype_value option"

text \<open>A C string ends at its first zero byte.\<close>

definition c_string :: "bytes \<Rightarrow> bytes" where
  "c_string s = takeWhile (\<lambda>c. c \<noteq> 0) s"

definition check_string_length :: "nat \<Rightarrow> gtype_parse_error + nat" where
  "check_string_length len =
     (if len > unat GTENTRY_OFFLENMASK then Inl StringTooLong else Inr len)"

text \<open>\<open>_state->res = push_gtype_value(&_state->parse_state, tok, arg)\<close>.  The actions push no
  serialised container, so no memory is read.\<close>

definition in_push ::
    "gtype_value gtype_pair qsort \<Rightarrow> gtype_iterator_token \<Rightarrow> iter_val \<Rightarrow> gtype_in_state
       \<Rightarrow> gtype_parse_error + gtype_in_state" where
  "in_push q tok arg st =
     (case push_gtype_value (\<lambda>_ _. 0) (\<lambda>_. 0) q 0 (in_parse_state st) tok arg of
        Some (Inr (res, ps)) \<Rightarrow> Inr (st \<lparr>in_parse_state := ps, in_res := res\<rparr>)
      | Some (Inl e) \<Rightarrow> Inl (BuildError e)
      | None \<Rightarrow> Inl (BuildError ContractViolation))"

definition gtype_in_object_start where
  "gtype_in_object_start q st = in_push q WGT_BEGIN_OBJECT IterUnset st"

definition gtype_in_object_end where
  "gtype_in_object_end q st = in_push q WGT_END_OBJECT IterUnset st"

definition gtype_in_array_start where
  "gtype_in_array_start q st = in_push q WGT_BEGIN_ARRAY IterUnset st"

definition gtype_in_array_end where
  "gtype_in_array_end q st = in_push q WGT_END_ARRAY IterUnset st"

definition gtype_in_object_field_start ::
    "gtype_value gtype_pair qsort \<Rightarrow> gtype_in_state \<Rightarrow> bytes option \<Rightarrow> bool
       \<Rightarrow> gtype_parse_error + gtype_in_state" where
  "gtype_in_object_field_start q st fname isnull =
     (case fname of
        None \<Rightarrow> Inl (BuildError ContractViolation)
      | Some fname \<Rightarrow>
          sum_bind (check_string_length (length (c_string fname))) (\<lambda>_.
            in_push q WGT_KEY (IterVal (GTV_STRING (c_string fname))) st))"

text \<open>The type that an annotation asks for.\<close>

definition annotation_type :: "bytes \<Rightarrow> gtype_token_type option" where
  "annotation_type annotation =
     (if same_nocase annotation ''numeric'' then Some GTYPE_TOKEN_NUMERIC
      else if same_nocase annotation ''integer'' \<or> same_nocase annotation ''int''
      then Some GTYPE_TOKEN_INTEGER
      else if same_nocase annotation ''float'' then Some GTYPE_TOKEN_FLOAT
      else if same_nocase annotation ''timestamp'' then Some GTYPE_TOKEN_TIMESTAMP
      else if same_nocase annotation ''timestamptz'' then Some GTYPE_TOKEN_TIMESTAMPTZ
      else if same_nocase annotation ''date'' then Some GTYPE_TOKEN_DATE
      else if same_nocase annotation ''time'' then Some GTYPE_TOKEN_TIME
      else if same_nocase annotation ''timetz'' then Some GTYPE_TOKEN_TIMETZ
      else if same_nocase annotation ''interval'' then Some GTYPE_TOKEN_INTERVAL
      else if same_nocase annotation ''inet'' then Some GTYPE_TOKEN_INET
      else if same_nocase annotation ''cidr'' then Some GTYPE_TOKEN_CIDR
      else if same_nocase annotation ''macaddr'' then Some GTYPE_TOKEN_MACADDR
      else if same_nocase annotation ''macaddr8'' then Some GTYPE_TOKEN_MACADDR8
      else if same_nocase annotation ''text'' then Some GTYPE_TOKEN_STRING
      else None)"

text \<open>The value of a scalar token.\<close>

definition input_result :: "('a \<Rightarrow> gtype_value) \<Rightarrow> 'a option \<Rightarrow> gtype_parse_error + gtype_value" where
  "input_result f r = (case r of Some x \<Rightarrow> Inr (f x) | None \<Rightarrow> Inl InputFunctionError)"

definition token_value ::
    "scalar_in \<Rightarrow> gtype_token_type \<Rightarrow> bytes option \<Rightarrow> gtype_parse_error + gtype_value" where
  "token_value ins tokentype token =
     (case tokentype of
        GTYPE_TOKEN_TRUE \<Rightarrow> Inr (GTV_BOOL True)
      | GTYPE_TOKEN_FALSE \<Rightarrow> Inr (GTV_BOOL False)
      | GTYPE_TOKEN_NULL \<Rightarrow> Inr GTV_NULL
      | _ \<Rightarrow>
     (case token of
        None \<Rightarrow> Inl (BuildError ContractViolation)
      | Some token \<Rightarrow>
     (case tokentype of
        GTYPE_TOKEN_STRING \<Rightarrow> sum_bind (check_string_length (length (c_string token)))
          (\<lambda>_. Inr (GTV_STRING (c_string token)))
      | GTYPE_TOKEN_INTEGER \<Rightarrow> input_result GTV_INTEGER (strtoint64 ins token)
      | GTYPE_TOKEN_FLOAT \<Rightarrow> input_result GTV_FLOAT (float8in ins token)
      | GTYPE_TOKEN_NUMERIC \<Rightarrow> input_result GTV_NUMERIC (numeric_in ins token)
      | GTYPE_TOKEN_TIMESTAMP \<Rightarrow> input_result GTV_TIMESTAMP (timestamp_in ins token)
      | GTYPE_TOKEN_TIMESTAMPTZ \<Rightarrow> input_result GTV_TIMESTAMPTZ (timestamptz_in ins token)
      | GTYPE_TOKEN_DATE \<Rightarrow> input_result GTV_DATE (date_in ins token)
      | GTYPE_TOKEN_TIME \<Rightarrow> input_result GTV_TIME (time_in ins token)
      | GTYPE_TOKEN_TIMETZ \<Rightarrow> input_result (\<lambda>(t, z). GTV_TIMETZ t z) (timetz_in ins token)
      | GTYPE_TOKEN_INTERVAL \<Rightarrow> input_result (\<lambda>(t, d, m). GTV_INTERVAL t d m) (interval_in ins token)
      | GTYPE_TOKEN_INET \<Rightarrow> input_result GTV_INET (inet_in ins token)
      | GTYPE_TOKEN_CIDR \<Rightarrow> input_result GTV_CIDR (cidr_in ins token)
      | GTYPE_TOKEN_MACADDR \<Rightarrow> input_result GTV_MAC (macaddr_in ins token)
      | GTYPE_TOKEN_MACADDR8 \<Rightarrow> input_result GTV_MAC8 (macaddr8_in ins token)
      | _ \<Rightarrow> Inl InvalidToken)))"

definition gtype_in_scalar ::
    "scalar_in \<Rightarrow> gtype_value gtype_pair qsort \<Rightarrow> gtype_in_state \<Rightarrow> bytes option \<Rightarrow> gtype_token_type
       \<Rightarrow> bytes option \<Rightarrow> gtype_parse_error + gtype_in_state" where
  "gtype_in_scalar ins q st token tokentype annotation =
     sum_bind (case annotation of
                 Some a \<Rightarrow> if tokentype \<noteq> GTYPE_TOKEN_NULL
                           then (case annotation_type a of Some t \<Rightarrow> Inr t | None \<Rightarrow> Inl InvalidAnnotation)
                           else Inr tokentype
               | None \<Rightarrow> Inr tokentype) (\<lambda>tokentype.
     sum_bind (token_value ins tokentype token) (\<lambda>v.
     case in_parse_state st of
       [] \<Rightarrow>
         sum_bind (in_push q WGT_BEGIN_ARRAY (IterArray 1 True) st) (\<lambda>st.
         sum_bind (in_push q WGT_ELEM (IterVal v) st) (\<lambda>st.
         in_push q WGT_END_ARRAY IterUnset st))
     | cur # _ \<Rightarrow>
         (case ps_cont cur of
            GTV_ARRAY _ _ \<Rightarrow> in_push q WGT_ELEM (IterVal v) st
          | GTV_OBJECT _ \<Rightarrow> in_push q WGT_VALUE (IterVal v) st
          | _ \<Rightarrow> Inl (BuildError InvalidContainerType))))"

definition gtype_in_sem ::
    "scalar_in \<Rightarrow> gtype_value gtype_pair qsort \<Rightarrow> gtype_in_state gtype_sem_action" where
  "gtype_in_sem ins q =
     \<lparr>sem_object_start = Some (gtype_in_object_start q),
      sem_object_end = Some (gtype_in_object_end q),
      sem_array_start = Some (gtype_in_array_start q),
      sem_array_end = Some (gtype_in_array_end q),
      sem_object_field_start = Some (gtype_in_object_field_start q),
      sem_object_field_end = None,
      sem_array_element_start = None,
      sem_array_element_end = None,
      sem_scalar = Some (gtype_in_scalar ins q)\<rparr>"

text \<open>\<open>None\<close> is a used up bound \<open>n\<close> of the parser.\<close>

definition gtype_value_from_cstring ::
    "lex_env \<Rightarrow> scalar_in \<Rightarrow> gtype_value gtype_pair qsort \<Rightarrow> nat \<Rightarrow> bytes
       \<Rightarrow> (gtype_parse_error + gtype_value option) option" where
  "gtype_value_from_cstring env ins q n str =
     fuel_bind (parse_gtype env (gtype_in_sem ins q) n (make_gtype_lex_context_cstring_len str True)
        \<lparr>in_parse_state = [], in_res = None\<rparr>) (\<lambda>(st, lx). Some (Inr (in_res st)))"

definition gtype_from_cstring ::
    "lex_env \<Rightarrow> scalar_in \<Rightarrow> (bytes \<Rightarrow> nat \<Rightarrow> bytes) \<Rightarrow> memory \<Rightarrow> memory \<Rightarrow> gtype_value gtype_pair qsort
       \<Rightarrow> nat \<Rightarrow> bytes \<Rightarrow> (gtype_parse_error + bytes) option" where
  "gtype_from_cstring env ins set_varsize junk mem q n str =
     fuel_bind (gtype_value_from_cstring env ins q n str) (\<lambda>res.
       case res of
         None \<Rightarrow> Some (Inl (BuildError ContractViolation))
       | Some v \<Rightarrow> Some (map_sum BuildError id (gtype_value_to_gtype set_varsize junk mem q v)))"

subsection \<open>Outcomes\<close>

text \<open>An outcome is fine when it is no broken contract, and satisfies \<open>Q\<close> if it is a result.  Running
  out of the bound is left to C29.\<close>

definition contract_errors :: "gtype_parse_error set" where
  "contract_errors = BuildError ` {ContractViolation, InvalidContainerType, UnrecognizedToken}"

definition fine :: "gtype_parse_error + 'a \<Rightarrow> ('a \<Rightarrow> bool) \<Rightarrow> bool" where
  "fine r Q \<longleftrightarrow> (case r of Inl e \<Rightarrow> e \<notin> contract_errors | Inr x \<Rightarrow> Q x)"

definition fine_run :: "(gtype_parse_error + 'a) option \<Rightarrow> ('a \<Rightarrow> bool) \<Rightarrow> bool" where
  "fine_run m Q \<longleftrightarrow> (case m of None \<Rightarrow> True | Some r \<Rightarrow> fine r Q)"

lemma fine_simps [simp]:
  "fine (Inr x) Q \<longleftrightarrow> Q x"
  "fine (Inl e) Q \<longleftrightarrow> e \<notin> contract_errors"
  "fine_run None Q"
  "fine_run (Some r) Q \<longleftrightarrow> fine r Q"
  by (simp_all add: fine_def fine_run_def)

lemma fine_sum_bind:
  "fine r P \<Longrightarrow> (\<And>x. P x \<Longrightarrow> fine (f x) Q) \<Longrightarrow> fine (sum_bind r f) Q"
  by (cases r) simp_all

lemma fine_run_bind:
  "fine_run m P \<Longrightarrow> (\<And>x. P x \<Longrightarrow> fine_run (f x) Q) \<Longrightarrow> fine_run (fuel_bind m f) Q"
  by (cases m rule: option.exhaust [case_names None Some]; simp; rename_tac r; case_tac r; simp)

lemma fine_if: "(c \<Longrightarrow> fine a Q) \<Longrightarrow> (\<not> c \<Longrightarrow> fine b Q) \<Longrightarrow> fine (if c then a else b) Q"
  by simp

lemma fine_mono: "fine r P \<Longrightarrow> (\<And>x. P x \<Longrightarrow> Q x) \<Longrightarrow> fine r Q"
  by (cases r) simp_all

lemma fine_run_mono: "fine_run m P \<Longrightarrow> (\<And>x. P x \<Longrightarrow> Q x) \<Longrightarrow> fine_run m Q"
  by (cases m) (auto intro: fine_mono)

lemma not_contract [simp]:
  "InvalidToken \<notin> contract_errors" "MustEscape \<notin> contract_errors" "BadHexDigits \<notin> contract_errors"
  "HighAfterHigh \<notin> contract_errors" "LowWithoutHigh \<notin> contract_errors"
  "ZeroEscape \<notin> contract_errors" "NotUtf8 \<notin> contract_errors" "BadEscape \<notin> contract_errors"
  "UnexpectedEnd \<notin> contract_errors" "UnexpectedToken c \<notin> contract_errors"
  "InvalidAnnotation \<notin> contract_errors" "StringTooLong \<notin> contract_errors"
  "InputFunctionError \<notin> contract_errors"
  "BuildError e \<in> contract_errors \<longleftrightarrow> e \<in> {ContractViolation, InvalidContainerType, UnrecognizedToken}"
  by (auto simp: contract_errors_def)

lemma report_parse_error_fine [simp]: "report_parse_error ctx lx \<notin> contract_errors"
  by (simp add: report_parse_error_def)

subsection \<open>The lexer always has the text of its token\<close>

definition has_text :: "gtype_lex_context \<Rightarrow> bool" where
  "has_text lx \<longleftrightarrow> lx_strval lx \<noteq> None
     \<and> (lx_token_type lx \<noteq> GTYPE_TOKEN_END \<longrightarrow> lx_token_start lx \<noteq> None)"

lemma lex_hex_fine: "fine (lex_hex input n s c) (\<lambda>_. True)"
  by (induction input n s c rule: lex_hex.induct) (auto simp: Let_def split: option.splits)

lemma lex_unicode_fine: "fine (lex_unicode env hi buf c) (\<lambda>_. True)"
  by (auto simp: lex_unicode_def Let_def split: option.splits)

definition some_text :: "nat \<times> bytes option \<Rightarrow> bool" where
  "some_text r \<longleftrightarrow> snd r \<noteq> None"

lemma lex_string_loop_fine: "fine (lex_string_loop env input s hi (Some buf)) some_text"
proof (induction "length input - s" arbitrary: s hi buf rule: less_induct)
  case less
  have rec: "fine (lex_string_loop env input t hi' (Some buf')) some_text"
    if "s < t" "s + 1 < length input" for t hi' buf'
    using that by (intro less) simp
  have some: "some_text (n, Some b)" for n b by (simp add: some_text_def)
  show ?case
    unfolding lex_string_loop.simps [of env input s hi "Some buf"] Let_def option.case
    by (intro fine_if) (auto intro!: fine_if fine_sum_bind [OF lex_hex_fine] fine_sum_bind [OF lex_unicode_fine]
        rec some simp del: One_nat_def split: option.splits)
qed

definition starts :: "nat option \<Rightarrow> gtype_lex_context \<Rightarrow> bool" where
  "starts s lx \<longleftrightarrow> lx_strval lx \<noteq> None \<and> lx_token_start lx = s"

lemma gtype_lex_string_fine:
  assumes "lx_strval lx \<noteq> None"
  shows "fine (gtype_lex_string env lx s) (starts (lx_token_start lx))"
proof -
  obtain b where "lx_strval lx = Some b" using assms by blast
  then show ?thesis
    by (auto simp: gtype_lex_string_def Let_def starts_def some_text_def
        intro!: fine_sum_bind [OF lex_string_loop_fine])
qed

lemma gtype_lex_fine:
  assumes "lx_strval lx \<noteq> None"
  shows "fine (gtype_lex env lx) has_text"
proof -
  have tok: "fine (Inr (set_token (lx \<lparr>lx_line_number := l, lx_token_start := Some s\<rparr>) e t)) has_text" for l s e t
    using assms by (simp add: has_text_def set_token_def)
  have num: "fine (gtype_lex_number (lx \<lparr>lx_line_number := l, lx_token_start := Some s\<rparr>) e) has_text" for l s e
    using assms gtype_lex_number_def
    by (auto simp: gtype_lex_number_def Let_def has_text_def split: prod.splits)
  have str: "fine (sum_bind (gtype_lex_string env (lx \<lparr>lx_line_number := l, lx_token_start := Some s\<rparr>) e)
     (\<lambda>lx. Inr (lx \<lparr>lx_token_type := GTYPE_TOKEN_STRING\<rparr>))) has_text" for l s e
    using assms by (intro fine_sum_bind [OF gtype_lex_string_fine]) (simp_all add: starts_def has_text_def)
  have e: "fine (Inr (set_token (lx \<lparr>lx_line_number := l, lx_token_start := Some i\<rparr>
      \<lparr>lx_token_start := None\<rparr>) s GTYPE_TOKEN_END)) has_text" for l i s
    using assms by (simp add: has_text_def set_token_def)
  have bad: "fine (Inl InvalidToken) has_text" by simp
  show ?thesis
    unfolding gtype_lex_def Let_def
    by (intro fine_if tok num str e bad)
qed

lemma lex_accept_fine:
  assumes "has_text lx" "lex_accept env lx t = Some r" "t \<noteq> GTYPE_TOKEN_END"
  shows "fine r (\<lambda>(v, lx'). v \<noteq> None \<and> has_text lx')"
proof -
  have r: "r = sum_bind (gtype_lex env lx) (\<lambda>lx'. Inr (lexeme lx, lx'))" and "lexeme lx \<noteq> None"
    using assms by (auto simp: lex_accept_def lexeme_def has_text_def split: if_splits)
  then show ?thesis
    unfolding r using assms(1) by (intro fine_sum_bind [OF gtype_lex_fine]) (auto simp: has_text_def [of lx])
qed

lemma lex_expect_fine:
  assumes "has_text lx"
  shows "fine (lex_expect env ctx lx t) has_text"
proof (cases "lx_token_type lx = t")
  case True
  have "fine (sum_bind (gtype_lex env lx) (\<lambda>lx'. Inr (lexeme lx, lx'))) (\<lambda>(_, lx'). has_text lx')"
    using assms by (intro fine_sum_bind [OF gtype_lex_fine]) (auto simp: has_text_def [of lx])
  then have "fine (sum_bind (sum_bind (gtype_lex env lx) (\<lambda>lx'. Inr (lexeme lx, lx'))) (\<lambda>(_, lx). Inr lx)) has_text"
    by (rule fine_sum_bind) auto
  with True show ?thesis by (simp add: lex_expect_def lex_accept_def)
qed (simp add: lex_expect_def lex_accept_def)

subsection \<open>The shapes of the open containers\<close>

datatype open_shape = ArrayOpen | ObjectOpen | KeyPending

definition frame_shape :: "gtype_parse_state \<Rightarrow> open_shape option" where
  "frame_shape f = (case ps_cont f of
     GTV_ARRAY _ _ \<Rightarrow> Some ArrayOpen
   | GTV_OBJECT _ \<Rightarrow> Some (if ps_key f = None then ObjectOpen else KeyPending)
   | _ \<Rightarrow> None)"

definition shapes :: "gtype_in_state \<Rightarrow> open_shape option list" where
  "shapes st = map frame_shape (in_parse_state st)"

text \<open>Where a value may come, and what is open once it is there.\<close>

fun accepts :: "open_shape option list \<Rightarrow> bool" where
  "accepts [] \<longleftrightarrow> True"
| "accepts (s # ss) \<longleftrightarrow> s = Some ArrayOpen \<or> s = Some KeyPending"

fun after :: "open_shape option list \<Rightarrow> open_shape option list" where
  "after [] = []"
| "after (s # ss) = (if s = Some KeyPending then Some ObjectOpen else s) # ss"

definition received :: "open_shape option list \<Rightarrow> gtype_in_state \<Rightarrow> bool" where
  "received ss st \<longleftrightarrow> shapes st = after ss
     \<and> (ss = [] \<longrightarrow> (\<exists>v. in_res st = Some v \<and> \<not> IS_A_GTYPE_SCALAR v))"

lemma in_push_scalar:
  "(\<And>a len. arg \<noteq> IterVal (GTV_BINARY a len)) \<Longrightarrow>
   in_push q tok arg st = map_sum BuildError (\<lambda>(res, ps). st \<lparr>in_parse_state := ps, in_res := res\<rparr>)
     (push_gtype_value_scalar q (in_parse_state st) tok arg)"
  by (auto simp: in_push_def push_gtype_value_def split: iter_val.splits gtype_value.splits sum.splits)

lemma shapes_simps [simp]:
  "shapes (st \<lparr>in_parse_state := ps, in_res := r\<rparr>) = map frame_shape ps"
  by (simp add: shapes_def)

lemma shapes_ConsE:
  assumes "shapes st = s # ss"
  obtains f fs where "in_parse_state st = f # fs" "frame_shape f = s" "map frame_shape fs = ss"
  using assms by (auto simp: shapes_def)

lemma frame_shapeE:
  "frame_shape f = Some ArrayOpen \<Longrightarrow> \<exists>raw es. ps_cont f = GTV_ARRAY raw es"
  "frame_shape f = Some ObjectOpen \<Longrightarrow> \<exists>ps. ps_cont f = GTV_OBJECT ps \<and> ps_key f = None"
  "frame_shape f = Some KeyPending \<Longrightarrow> \<exists>ps k. ps_cont f = GTV_OBJECT ps \<and> ps_key f = Some k"
  by (auto simp: frame_shape_def split: gtype_value.splits if_splits)

definition push_fine :: "gtype_error + gtype_value option \<times> gtype_parse_state list
    \<Rightarrow> (gtype_value option \<Rightarrow> gtype_parse_state list \<Rightarrow> bool) \<Rightarrow> bool" where
  "push_fine r Q \<longleftrightarrow> (case r of
     Inl e \<Rightarrow> e \<notin> {ContractViolation, InvalidContainerType, UnrecognizedToken}
   | Inr (res, ps) \<Rightarrow> Q res ps)"

lemma append_element_shape:
  "frame_shape f = Some ArrayOpen \<Longrightarrow>
   case append_element f v of Inl e \<Rightarrow> e = TooManyElems | Inr f' \<Rightarrow> frame_shape f' = Some ArrayOpen"
  by (auto simp: append_element_def check_def Let_def frame_shape_def split: gtype_value.splits if_splits)

lemma append_value_shape:
  "frame_shape f = Some KeyPending \<Longrightarrow> case append_value f v of Inl e \<Rightarrow> False | Inr f' \<Rightarrow> frame_shape f' = Some ObjectOpen"
  by (auto simp: append_value_def frame_shape_def split: gtype_value.splits if_splits)

lemma append_key_shape:
  "frame_shape f = Some ObjectOpen \<Longrightarrow> is_string k \<Longrightarrow>
   case append_key f k of Inl e \<Rightarrow> e = TooManyPairs | Inr f' \<Rightarrow> frame_shape f' = Some KeyPending"
  by (auto simp: append_key_def check_def Let_def frame_shape_def split: gtype_value.splits if_splits)

lemma pop_into_parent_shape:
  assumes "accepts (map frame_shape fs)"
  shows "push_fine (pop_into_parent v fs)
    (\<lambda>res fs'. map frame_shape fs' = after (map frame_shape fs) \<and> (fs = [] \<longrightarrow> res = Some v))"
proof (cases fs)
  case (Cons f rest)
  then consider "frame_shape f = Some ArrayOpen" | "frame_shape f = Some KeyPending"
    using assms by (auto)
  then show ?thesis
  proof cases
    case 1
    with append_element_shape [OF this, of v] frame_shapeE(1) [OF 1] Cons show ?thesis
      by (cases "append_element f v")
        (auto simp: push_fine_def pop_into_parent_def)
  next
    case 2
    with append_value_shape [OF this, of v] frame_shapeE(3) [OF 2] Cons show ?thesis
      by (cases "append_value f v") (auto simp: push_fine_def pop_into_parent_def)
  qed
qed (simp add: pop_into_parent_def push_fine_def)

text \<open>The actions on the shapes.\<close>

lemma object_start_fine: "fine (gtype_in_object_start q st) (\<lambda>st'. shapes st' = Some ObjectOpen # shapes st)"
  by (simp add: gtype_in_object_start_def in_push_scalar Let_def) (simp add: shapes_def frame_shape_def)

lemma array_start_fine: "fine (gtype_in_array_start q st) (\<lambda>st'. shapes st' = Some ArrayOpen # shapes st)"
  by (simp add: gtype_in_array_start_def in_push_scalar Let_def) (simp add: shapes_def frame_shape_def)

lemma object_field_start_fine:
  assumes "shapes st = Some ObjectOpen # ss" "fname \<noteq> None"
  shows "fine (gtype_in_object_field_start q st fname b) (\<lambda>st'. shapes st' = Some KeyPending # ss)"
proof -
  obtain f fs where f: "in_parse_state st = f # fs" "frame_shape f = Some ObjectOpen" "map frame_shape fs = ss"
    using assms(1) by (rule shapes_ConsE)
  obtain name where name: "fname = Some name" using assms(2) by blast
  have "fine (in_push q WGT_KEY (IterVal (GTV_STRING (c_string name))) st)
      (\<lambda>st'. shapes st' = Some KeyPending # ss)"
    using append_key_shape [OF f(2), of "GTV_STRING (c_string name)"] f(1,3)
    by (cases "append_key f (GTV_STRING (c_string name))")
      (auto simp: in_push_scalar)
  then show ?thesis
    by (auto simp: gtype_in_object_field_start_def name check_string_length_def)
qed

lemma object_end_fine:
  assumes "shapes st = Some ObjectOpen # ss" "accepts ss"
  shows "fine (gtype_in_object_end q st) (received ss)"
proof -
  obtain f fs where f: "in_parse_state st = f # fs" "frame_shape f = Some ObjectOpen" "map frame_shape fs = ss"
    using assms(1) by (rule shapes_ConsE)
  obtain ps where ps: "ps_cont f = GTV_OBJECT ps" using frame_shapeE(2) [OF f(2)] by blast
  let ?v = "GTV_OBJECT (uniqueify_gtype_object q ps)"
  have "push_fine (pop_into_parent ?v fs) (\<lambda>res fs'. map frame_shape fs' = after ss
      \<and> (fs = [] \<longrightarrow> res = Some ?v))"
    using pop_into_parent_shape [of fs ?v] f(3) assms(2) by simp
  then show ?thesis
    using f(1,3) ps
    by (cases "pop_into_parent ?v fs")
      (auto simp: gtype_in_object_end_def in_push_scalar push_fine_def received_def)
qed

lemma array_end_fine:
  assumes "shapes st = Some ArrayOpen # ss" "accepts ss"
  shows "fine (gtype_in_array_end q st) (received ss)"
proof -
  obtain f fs where f: "in_parse_state st = f # fs" "frame_shape f = Some ArrayOpen" "map frame_shape fs = ss"
    using assms(1) by (rule shapes_ConsE)
  obtain raw es where es: "ps_cont f = GTV_ARRAY raw es" using frame_shapeE(1) [OF f(2)] by blast
  let ?v = "GTV_ARRAY raw es"
  have "push_fine (pop_into_parent ?v fs) (\<lambda>res fs'. map frame_shape fs' = after ss
      \<and> (fs = [] \<longrightarrow> res = Some ?v))"
    using pop_into_parent_shape [of fs ?v] f(3) assms(2) by simp
  then show ?thesis
    using f(1,3) es
    by (cases "pop_into_parent ?v fs")
      (auto simp: gtype_in_array_end_def in_push_scalar push_fine_def received_def)
qed

lemma input_result_fine:
  "(\<And>x. IS_A_GTYPE_SCALAR (f x)) \<Longrightarrow> fine (input_result f r) IS_A_GTYPE_SCALAR"
  by (auto simp: input_result_def split: option.splits)

lemma token_value_fine:
  "token \<noteq> None \<Longrightarrow> fine (token_value ins t token) IS_A_GTYPE_SCALAR"
  by (cases t) (auto simp: token_value_def check_string_length_def intro!: input_result_fine split: prod.splits)

lemma annotated_fine:
  "fine (case annotation of
           Some a \<Rightarrow> if tokentype \<noteq> GTYPE_TOKEN_NULL
                     then (case annotation_type a of Some t \<Rightarrow> Inr t | None \<Rightarrow> Inl InvalidAnnotation)
                     else Inr tokentype
         | None \<Rightarrow> Inr tokentype) (\<lambda>_. True)"
  by (auto split: option.splits)

lemma push_scalar_fine:
  assumes "IS_A_GTYPE_SCALAR v" "accepts (shapes st)" "in_parse_state st = f # fs"
  shows "fine (case ps_cont f of
            GTV_ARRAY _ _ \<Rightarrow> in_push q WGT_ELEM (IterVal v) st
          | GTV_OBJECT _ \<Rightarrow> in_push q WGT_VALUE (IterVal v) st
          | _ \<Rightarrow> Inl (BuildError InvalidContainerType)) (received (shapes st))"
proof -
  have nb: "\<And>a len. IterVal v \<noteq> IterVal (GTV_BINARY a len)" using assms(1) by auto
  consider "frame_shape f = Some ArrayOpen" | "frame_shape f = Some KeyPending"
    using assms(2,3) by (auto simp: shapes_def)
  then show ?thesis
  proof cases
    case 1
    with append_element_shape [OF 1, of v] frame_shapeE(1) [OF 1] assms(1,3) show ?thesis
      by (cases "append_element f v")
        (auto simp: in_push_scalar [OF nb] received_def, auto simp: shapes_def)
  next
    case 2
    with append_value_shape [OF 2, of v] frame_shapeE(3) [OF 2] assms(1,3) show ?thesis
      by (cases "append_value f v")
        (auto simp: in_push_scalar [OF nb] received_def, auto simp: shapes_def)
  qed
qed

lemma scalar_fine:
  assumes "token \<noteq> None" "accepts (shapes st)"
  shows "fine (gtype_in_scalar ins q st token t annotation) (received (shapes st))"
proof -
  have "fine (case in_parse_state st of
       [] \<Rightarrow> sum_bind (in_push q WGT_BEGIN_ARRAY (IterArray 1 True) st) (\<lambda>st.
         sum_bind (in_push q WGT_ELEM (IterVal v) st) (\<lambda>st. in_push q WGT_END_ARRAY IterUnset st))
     | cur # _ \<Rightarrow> (case ps_cont cur of
            GTV_ARRAY _ _ \<Rightarrow> in_push q WGT_ELEM (IterVal v) st
          | GTV_OBJECT _ \<Rightarrow> in_push q WGT_VALUE (IterVal v) st
          | _ \<Rightarrow> Inl (BuildError InvalidContainerType))) (received (shapes st))"
    if v: "IS_A_GTYPE_SCALAR v" for v
  proof (cases "in_parse_state st")
    case Nil
    have nb: "\<And>a len. IterVal v \<noteq> IterVal (GTV_BINARY a len)" using v by auto
    show ?thesis
      using v Nil
      by (simp add: in_push_scalar [OF nb] in_push_scalar Let_def append_element_def check_def
          GTYPE_MAX_ELEMS_def gt_flags pop_into_parent_def received_def shapes_def frame_shape_def)
  next
    case (Cons f fs)
    with push_scalar_fine [OF v assms(2) Cons, of q] show ?thesis by simp
  qed
  then show ?thesis
    unfolding gtype_in_scalar_def
    by (intro fine_sum_bind [OF annotated_fine] fine_sum_bind [OF token_value_fine [OF assms(1)]])
qed

subsection \<open>The routines of the parser keep the shapes\<close>

fun expects :: "routine \<Rightarrow> open_shape option list \<Rightarrow> bool" where
  "expects ParseObjectField ss \<longleftrightarrow> (\<exists>r. ss = Some ObjectOpen # r)"
| "expects ParseMoreFields ss \<longleftrightarrow> (\<exists>r. ss = Some ObjectOpen # r)"
| "expects ParseArrayElement ss \<longleftrightarrow> (\<exists>r. ss = Some ArrayOpen # r)"
| "expects ParseMoreElements ss \<longleftrightarrow> (\<exists>r. ss = Some ArrayOpen # r)"
| "expects _ ss \<longleftrightarrow> accepts ss"

definition ensures :: "routine \<Rightarrow> open_shape option list \<Rightarrow> gtype_in_state \<times> gtype_lex_context \<Rightarrow> bool" where
  "ensures r ss = (\<lambda>(st, lx). has_text lx \<and>
     (if r \<in> {ParseAny, ParseObject, ParseArray} then received ss st else shapes st = ss))"

definition sound_call :: "gtype_in_state parse_call \<Rightarrow> bool" where
  "sound_call call \<longleftrightarrow> (\<forall>r lx st. has_text lx \<longrightarrow> expects r (shapes st) \<longrightarrow>
     fine_run (call r lx st) (ensures r (shapes st)))"

lemma sound_callD:
  "sound_call call \<Longrightarrow> has_text lx \<Longrightarrow> expects r (shapes st) \<Longrightarrow>
     fine_run (call r lx st) (ensures r (shapes st))"
  by (simp add: sound_call_def)

lemma has_text_level [simp]: "has_text (lx \<lparr>lx_lex_level := l\<rparr>) = has_text lx"
  by (simp add: has_text_def)

lemma call_action_Some [simp]: "call_action (Some f) st = f st"
  "call_action None st = Inr st"
  by (simp_all add: call_action_def)

lemma in_sem_simps [simp]:
  "sem_object_start (gtype_in_sem ins q) = Some (gtype_in_object_start q)"
  "sem_object_end (gtype_in_sem ins q) = Some (gtype_in_object_end q)"
  "sem_array_start (gtype_in_sem ins q) = Some (gtype_in_array_start q)"
  "sem_array_end (gtype_in_sem ins q) = Some (gtype_in_array_end q)"
  "sem_object_field_start (gtype_in_sem ins q) = Some (gtype_in_object_field_start q)"
  "sem_object_field_end (gtype_in_sem ins q) = None"
  "sem_array_element_start (gtype_in_sem ins q) = None"
  "sem_array_element_end (gtype_in_sem ins q) = None"
  "sem_scalar (gtype_in_sem ins q) = Some (gtype_in_scalar ins q)"
  by (simp_all add: gtype_in_sem_def)

lemma fine_run_Some: "fine r P \<Longrightarrow> (\<And>x. P x \<Longrightarrow> fine_run (f x) Q) \<Longrightarrow> fine_run (fuel_bind (Some r) f) Q"
  by (rule fine_run_bind [where P = P]) simp_all

lemma annotation_fine:
  "has_text lx \<Longrightarrow> fine (parse_scalar_annotation env lx f) (\<lambda>(_, lx'). has_text lx')"
  by (auto simp: parse_scalar_annotation_def split: option.splits
      intro!: fine_sum_bind [OF lex_accept_fine])

lemma parse_scalar_fine:
  assumes "has_text lx" "accepts (shapes st)"
  shows "fine (parse_scalar env (gtype_in_sem ins q) lx st) (ensures ParseAny (shapes st))"
proof (cases "lex_peek lx \<in> {GTYPE_TOKEN_TRUE, GTYPE_TOKEN_FALSE, GTYPE_TOKEN_NULL,
    GTYPE_TOKEN_INTEGER, GTYPE_TOKEN_FLOAT, GTYPE_TOKEN_STRING, GTYPE_TOKEN_INET}")
  case True
  have scalar: "fine (sum_bind (gtype_in_scalar ins q st val t a) (\<lambda>st. Inr (st, lx2)))
      (ensures ParseAny (shapes st))" if "val \<noteq> None" "has_text lx2" for val t a lx2
    using that by (intro fine_sum_bind [OF scalar_fine [OF that(1) assms(2)]]) (simp add: ensures_def)
  have rest: "fine (sum_bind (parse_scalar_annotation env lx1 b) (\<lambda>(a, lx).
      sum_bind (gtype_in_scalar ins q st val t a) (\<lambda>st. Inr (st, lx)))) (ensures ParseAny (shapes st))"
    if "val \<noteq> None" "has_text lx1" for val t lx1 b
    using that(1) by (intro fine_sum_bind [OF annotation_fine [OF that(2)]])
      (auto intro!: scalar simp del: not_None_eq)
  obtain r where r: "lex_accept env lx (lex_peek lx) = Some r" by (simp add: lex_accept_def lex_peek_def)
  have "fine r (\<lambda>(v, lx'). v \<noteq> None \<and> has_text lx')"
    by (rule lex_accept_fine [OF assms(1) r]) (use True in auto)
  then have "fine (sum_bind r (\<lambda>(val, lx1). sum_bind (parse_scalar_annotation env lx1 True) (\<lambda>(a, lx).
      sum_bind (gtype_in_scalar ins q st val (lex_peek lx1') a) (\<lambda>st. Inr (st, lx)))))
      (ensures ParseAny (shapes st))" for lx1'
    by (rule fine_sum_bind) (auto intro!: rest simp del: not_None_eq)
  with True r show ?thesis by (simp add: parse_scalar_def Let_def)
qed (simp add: parse_scalar_def Let_def)

lemma parse_any_sound:
  assumes "sound_call call" "has_text lx" "expects ParseAny (shapes st)"
  shows "fine_run (parse_any call env (gtype_in_sem ins q) lx st) (ensures ParseAny (shapes st))"
  using sound_callD [OF assms(1,2), of ParseObject st] sound_callD [OF assms(1,2), of ParseArray st]
    parse_scalar_fine [OF assms(2), of st env ins q] assms(3)
  by (auto simp: parse_any_def ensures_def)

lemma parse_object_field_sound:
  assumes call: "sound_call call" and lx: "has_text lx" and st: "expects ParseObjectField (shapes st)"
  shows "fine_run (parse_object_field call env (gtype_in_sem ins q) lx st) (ensures ParseObjectField (shapes st))"
proof (cases "lex_accept env lx GTYPE_TOKEN_STRING")
  case (Some r)
  obtain ss where ss: "shapes st = Some ObjectOpen # ss" using st by auto
  have val: "fine_run (fuel_bind (call ParseAny lx2 st2) (\<lambda>(st, lx). Some (Inr (st, lx))))
      (ensures ParseObjectField (shapes st))" if "has_text lx2" "shapes st2 = Some KeyPending # ss" for lx2 st2
    using that ss
    by (intro fine_run_bind [OF sound_callD [OF call]])
      (auto simp: ensures_def received_def)
  have field: "fine_run (fuel_bind (Some (gtype_in_object_field_start q st name b)) (\<lambda>st2.
      fuel_bind (call ParseAny lx2 st2) (\<lambda>(st, lx). Some (Inr (st, lx)))))
      (ensures ParseObjectField (shapes st))" if "has_text lx2" "name \<noteq> None" for lx2 name b
    by (rule fine_run_Some [OF object_field_start_fine [OF ss that(2)]]) (rule val [OF that(1)])
  have colon: "fine_run (fuel_bind (Some (lex_expect env c lx1 t)) (\<lambda>lx2.
      fuel_bind (Some (gtype_in_object_field_start q st name (lex_peek lx2 = GTYPE_TOKEN_NULL))) (\<lambda>st2.
      fuel_bind (call ParseAny lx2 st2) (\<lambda>(st, lx). Some (Inr (st, lx))))))
      (ensures ParseObjectField (shapes st))" if "has_text lx1" "name \<noteq> None" for lx1 name c t
    by (rule fine_run_Some [OF lex_expect_fine [OF that(1)]]) (rule field [OF _ that(2)])
  have "fine r (\<lambda>(v, lx'). v \<noteq> None \<and> has_text lx')" by (rule lex_accept_fine [OF lx Some]) simp
  then have "fine_run (fuel_bind (Some r) (\<lambda>(name, lx1).
      fuel_bind (Some (lex_expect env GTYPE_PARSE_OBJECT_LABEL lx1 GTYPE_TOKEN_COLON)) (\<lambda>lx2.
      fuel_bind (Some (gtype_in_object_field_start q st name (lex_peek lx2 = GTYPE_TOKEN_NULL))) (\<lambda>st2.
      fuel_bind (call ParseAny lx2 st2) (\<lambda>(st, lx). Some (Inr (st, lx)))))))
      (ensures ParseObjectField (shapes st))"
    by (rule fine_run_Some) (clarsimp simp del: fuel_bind_simps not_None_eq, rule colon, simp_all)
  then show ?thesis using Some by (simp add: parse_object_field_def Let_def)
qed (simp add: parse_object_field_def)

text \<open>One item after another, as in the loops and in the rounds after the first item.\<close>

lemma items_sound:
  assumes call: "sound_call call" and lx: "has_text lx"
    and rr: "(a, b) \<in> {(ParseObjectField, ParseMoreFields), (ParseArrayElement, ParseMoreElements)}"
    and st: "expects a (shapes st)"
  shows "fine_run (fuel_bind (call a lx st) (\<lambda>(st, lx). call b lx st))
     (\<lambda>(st', lx'). has_text lx' \<and> shapes st' = shapes st)"
proof (rule fine_run_bind [OF sound_callD [OF call lx st]], clarify)
  fix st1 lx1
  assume "ensures a (shapes st) (st1, lx1)"
  then have "has_text lx1" "shapes st1 = shapes st" using rr by (auto simp: ensures_def)
  moreover from this have "expects b (shapes st1)" using st rr by auto
  ultimately show "fine_run (call b lx1 st1) (\<lambda>(st', lx'). has_text lx' \<and> shapes st' = shapes st)"
    using sound_callD [OF call, of lx1 b st1] rr by (auto simp: ensures_def)
qed

lemma comma_items_sound:
  assumes call: "sound_call call" and lx: "has_text lx"
    and rr: "(a, b) \<in> {(ParseObjectField, ParseMoreFields), (ParseArrayElement, ParseMoreElements)}"
    and st: "expects b (shapes st)" and r: "lex_accept env lx GTYPE_TOKEN_COMMA = Some r"
  shows "fine_run (fuel_bind (Some r) (\<lambda>(_, lx). fuel_bind (call a lx st) (\<lambda>(st, lx). call b lx st)))
     (\<lambda>(st', lx'). has_text lx' \<and> shapes st' = shapes st)"
proof -
  have "fine r (\<lambda>(v, lx'). v \<noteq> None \<and> has_text lx')" by (rule lex_accept_fine [OF lx r]) simp
  moreover have "expects a (shapes st)" using st rr by auto
  ultimately show ?thesis
    by (intro fine_run_Some [where P = "\<lambda>(v, lx'). v \<noteq> None \<and> has_text lx'"])
      (auto simp del: fuel_bind_simps intro!: items_sound [OF call _ rr])
qed

lemma parse_more_fields_sound:
  assumes "sound_call call" "has_text lx" "expects ParseMoreFields (shapes st)"
  shows "fine_run (parse_more_fields call env lx st) (ensures ParseMoreFields (shapes st))"
  using comma_items_sound [OF assms(1,2) _ assms(3), of ParseObjectField] assms(2)
  by (auto simp: parse_more_fields_def ensures_def simp del: fuel_bind_simps split: option.splits)

lemma parse_more_elements_sound:
  assumes "sound_call call" "has_text lx" "expects ParseMoreElements (shapes st)"
  shows "fine_run (parse_more_elements call env lx st) (ensures ParseMoreElements (shapes st))"
  using comma_items_sound [OF assms(1,2) _ assms(3), of ParseArrayElement] assms(2)
  by (auto simp: parse_more_elements_def ensures_def simp del: fuel_bind_simps split: option.splits)

lemma parse_array_element_sound:
  assumes "sound_call call" "has_text lx" "expects ParseArrayElement (shapes st)"
  shows "fine_run (parse_array_element call (gtype_in_sem ins q) lx st) (ensures ParseArrayElement (shapes st))"
proof -
  have "fine_run (fuel_bind (call ParseAny lx st) (\<lambda>(st, lx). Some (Inr (st, lx))))
      (ensures ParseArrayElement (shapes st))"
    using assms
    by (intro fine_run_bind [OF sound_callD [OF assms(1,2)]]) (auto simp: ensures_def received_def)
  then show ?thesis by (simp add: parse_array_element_def Let_def)
qed

text \<open>What objects and arrays share: an opening bracket, the items, a closing bracket.\<close>

definition bracketed :: "lex_env \<Rightarrow> gtype_parse_context \<Rightarrow> gtype_parse_context \<Rightarrow> gtype_token_type \<Rightarrow> gtype_token_type
    \<Rightarrow> (gtype_in_state \<Rightarrow> gtype_parse_error + gtype_in_state) \<Rightarrow> (gtype_in_state \<Rightarrow> gtype_parse_error + gtype_in_state)
    \<Rightarrow> (gtype_lex_context \<Rightarrow> gtype_in_state \<Rightarrow> gtype_in_state parse_result option)
    \<Rightarrow> gtype_lex_context \<Rightarrow> gtype_in_state \<Rightarrow> gtype_in_state parse_result option" where
  "bracketed env c1 c2 t1 t2 start end_action items lx st =
     fuel_bind (Some (start st)) (\<lambda>st.
     fuel_bind (Some (lex_expect env c1 (lx \<lparr>lx_lex_level := lx_lex_level lx + 1\<rparr>) t1)) (\<lambda>lx.
     fuel_bind (items lx st) (\<lambda>(st, lx).
     fuel_bind (Some (lex_expect env c2 lx t2)) (\<lambda>lx.
     fuel_bind (Some (end_action st)) (\<lambda>st. Some (Inr (st, lx \<lparr>lx_lex_level := lx_lex_level lx - Suc 0\<rparr>)))))))"

lemma bracketed_sound:
  assumes lx: "has_text lx"
    and start: "fine (start st) (\<lambda>st'. shapes st' = s # shapes st)"
    and items: "\<And>lx st'. has_text lx \<Longrightarrow> shapes st' = s # shapes st \<Longrightarrow>
      fine_run (items lx st') (\<lambda>(st'', lx'). has_text lx' \<and> shapes st'' = s # shapes st)"
    and fin: "\<And>st'. shapes st' = s # shapes st \<Longrightarrow> fine (end_action st') (received (shapes st))"
  shows "fine_run (bracketed env c1 c2 t1 t2 start end_action items lx st)
     (\<lambda>(st', lx'). has_text lx' \<and> received (shapes st) st')"
proof -
  have close: "fine_run (fuel_bind (Some (end_action st')) (\<lambda>st. Some (Inr (st, lx \<lparr>lx_lex_level := l\<rparr>))))
      (\<lambda>(st', lx'). has_text lx' \<and> received (shapes st) st')"
    if "has_text lx" "shapes st' = s # shapes st" for lx l st'
    by (rule fine_run_Some [OF fin [OF that(2)]]) (simp add: that)
  have expect: "fine_run (fuel_bind (Some (lex_expect env c2 lx t2)) (\<lambda>lx.
      fuel_bind (Some (end_action st')) (\<lambda>st. Some (Inr (st, lx \<lparr>lx_lex_level := lx_lex_level lx - Suc 0\<rparr>)))))
      (\<lambda>(st', lx'). has_text lx' \<and> received (shapes st) st')"
    if "has_text lx" "shapes st' = s # shapes st" for lx st'
    by (rule fine_run_Some [OF lex_expect_fine [OF that(1)]]) (rule close [OF _ that(2)])
  show ?thesis
    unfolding bracketed_def
    apply (rule fine_run_Some [OF start])
    apply (rule fine_run_Some [OF lex_expect_fine])
     apply (simp add: lx)
    apply (rule fine_run_bind [OF items], assumption, assumption)
    apply (clarsimp simp del: fuel_bind_simps)
    apply (rule expect, assumption, assumption)
    done
qed

lemma parse_object_sound:
  assumes "sound_call call" "has_text lx" "expects ParseObject (shapes st)"
  shows "fine_run (parse_object call env (gtype_in_sem ins q) lx st) (ensures ParseObject (shapes st))"
proof -
  define items where "items lx st =
       (if lex_peek lx = GTYPE_TOKEN_STRING then
          fuel_bind (call ParseObjectField lx st) (\<lambda>(st, lx). call ParseMoreFields lx st)
        else if lex_peek lx = GTYPE_TOKEN_OBJECT_END then Some (Inr (st, lx))
        else Some (Inl (report_parse_error GTYPE_PARSE_OBJECT_START lx)))" for lx st
  have "fine_run (items lx st') (\<lambda>(st'', lx'). has_text lx' \<and> shapes st'' = Some ObjectOpen # shapes st)"
    if "has_text lx" "shapes st' = Some ObjectOpen # shapes st" for lx st'
    using items_sound [OF assms(1) that(1), of ParseObjectField ParseMoreFields st'] that
    by (simp add: items_def)
  then have "fine_run (bracketed env GTYPE_PARSE_OBJECT_START GTYPE_PARSE_OBJECT_NEXT GTYPE_TOKEN_OBJECT_START
      GTYPE_TOKEN_OBJECT_END (gtype_in_object_start q) (gtype_in_object_end q) items lx st)
      (\<lambda>(st', lx'). has_text lx' \<and> received (shapes st) st')"
    using assms(3) by (intro bracketed_sound [OF assms(2) object_start_fine] object_end_fine) simp_all
  then show ?thesis
    by (simp add: parse_object_def bracketed_def items_def Let_def ensures_def del: fuel_bind_simps)
qed

lemma parse_array_sound:
  assumes "sound_call call" "has_text lx" "expects ParseArray (shapes st)"
  shows "fine_run (parse_array call env (gtype_in_sem ins q) lx st) (ensures ParseArray (shapes st))"
proof -
  define items where "items lx st =
       (if lex_peek lx \<noteq> GTYPE_TOKEN_ARRAY_END
        then fuel_bind (call ParseArrayElement lx st) (\<lambda>(st, lx). call ParseMoreElements lx st)
        else Some (Inr (st, lx)))" for lx st
  have "fine_run (items lx st') (\<lambda>(st'', lx'). has_text lx' \<and> shapes st'' = Some ArrayOpen # shapes st)"
    if "has_text lx" "shapes st' = Some ArrayOpen # shapes st" for lx st'
    using items_sound [OF assms(1) that(1), of ParseArrayElement ParseMoreElements st'] that
    by (simp add: items_def)
  then have "fine_run (bracketed env GTYPE_PARSE_ARRAY_START GTYPE_PARSE_ARRAY_NEXT GTYPE_TOKEN_ARRAY_START
      GTYPE_TOKEN_ARRAY_END (gtype_in_array_start q) (gtype_in_array_end q) items lx st)
      (\<lambda>(st', lx'). has_text lx' \<and> received (shapes st) st')"
    using assms(3) by (intro bracketed_sound [OF assms(2) array_start_fine] array_end_fine) simp_all
  then show ?thesis
    by (simp add: parse_array_def bracketed_def items_def Let_def ensures_def del: fuel_bind_simps)
qed

lemma parse_routine_sound: "sound_call (parse_routine env (gtype_in_sem ins q) n)"
proof (induction n)
  case (Suc n)
  show ?case
    unfolding sound_call_def
  proof (intro allI impI)
    fix r lx st
    assume "has_text lx" "expects r (shapes st)"
    then show "fine_run (parse_routine env (gtype_in_sem ins q) (Suc n) r lx st) (ensures r (shapes st))"
      by (cases r) (simp_all add: Suc parse_any_sound parse_object_field_sound parse_more_fields_sound
          parse_object_sound parse_array_element_sound parse_more_elements_sound parse_array_sound
          del: expects.simps)
  qed
qed (simp add: sound_call_def)

text \<open>C3. Reading a text of any content ends, with a bound linear in its length, in an
  error message or in an array or object: no assertion of the actions fails, no null pointer is
  followed, every container that was opened has been closed.\<close>

theorem reader_total:
  "\<exists>r. gtype_value_from_cstring env ins q (3 * length str + 5) str = Some r
     \<and> (case r of Inl e \<Rightarrow> e \<notin> contract_errors
        | Inr res \<Rightarrow> \<exists>v. res = Some v \<and> \<not> IS_A_GTYPE_SCALAR v)"
proof -
  let ?lx = "make_gtype_lex_context_cstring_len str True"
  let ?st = "\<lparr>in_parse_state = [], in_res = None\<rparr>"
  let ?parse = "parse_gtype env (gtype_in_sem ins q) (3 * length str + 5) ?lx ?st"
  have strval: "lx_strval ?lx \<noteq> None" "length (lx_input ?lx) = length str"
    by (simp_all add: make_gtype_lex_context_cstring_len_def)
  have shape: "shapes ?st = []" by (simp add: shapes_def)
  have finish: "fine_run (fuel_bind (Some (lex_expect env GTYPE_PARSE_END lx GTYPE_TOKEN_END)) (\<lambda>lx. Some (Inr (st, lx))))
      (\<lambda>(st, lx). received [] st)" if "has_text lx" "received [] st" for lx st
    by (rule fine_run_Some [OF lex_expect_fine [OF that(1)]]) (simp add: that(2))
  have "fine_run ?parse (\<lambda>(st, lx). received [] st)"
    unfolding parse_gtype_def
    apply (rule fine_run_Some [OF gtype_lex_fine [OF strval(1)]])
    apply (rule fine_run_bind [OF sound_callD [OF parse_routine_sound]], assumption)
     apply (simp add: shape)
    apply (clarsimp simp: ensures_def shape simp del: fuel_bind_simps)
    apply (rule finish, assumption, assumption)
    done
  moreover have "?parse \<noteq> None" by (rule parse_gtype_fuel) (simp add: strval)
  ultimately obtain r where "?parse = Some r" "fine r (\<lambda>(st, lx). received [] st)" by auto
  then show ?thesis
    by (cases r) (auto simp: gtype_value_from_cstring_def received_def)
qed

end
