(* ===== verification/Np_Entity.thy ===== *)
theory Np_Entity
  imports Np_Phys_Map GType_In
begin

text \<open>
  The entity store (\<open>src/src/backend/access/np_entity_store.c\<close>): a vertex or an edge and its
  properties are packed into one record behind a version header; an update ends the version it
  found and writes a new one that points back to it; a scan returns the live versions.  The
  properties of a vertex are reached through the physical map of its label.
\<close>

subsection \<open>Vertices, edges and variable-length values\<close>

record vertex =
  vx_id :: "64 word"
  vx_graph_id :: "32 word"
  vx_label_id :: "32 word"
  vx_dictionary_id :: "16 word"

record edge =
  ed_id :: "64 word"
  ed_graph_id :: "32 word"
  ed_label_id :: "32 word"
  ed_dictionary_id :: "16 word"
  ed_start_label :: "32 word"
  ed_start_id :: "64 word"
  ed_end_label :: "32 word"
  ed_end_id :: "64 word"

text \<open>\<open>SET_VARSIZE\<close> and \<open>VARSIZE\<close> of a value with a four-byte header, on a little-endian machine.\<close>

definition varlena_header :: "nat \<Rightarrow> bytes" where
  "varlena_header n = le32 (push_bit 2 (of_nat n))"

definition VARSIZE :: "bytes \<Rightarrow> nat" where
  "VARSIZE bs = unat (drop_bit 2 (le_word (take 4 bs) :: 32 word))"

text \<open>A value as detoasting leaves it: its header says how long it is.\<close>

definition is_varlena :: "bytes \<Rightarrow> bool" where
  "is_varlena bs \<longleftrightarrow> 4 \<le> length bs \<and> VARSIZE bs = length bs"

text \<open>The structs as they lie in memory; the allocation is zeroed, so the padding is.\<close>

definition vertex_datum :: "vertex \<Rightarrow> bytes" where
  "vertex_datum v = varlena_header 32 @ zeros 4 @ le64 (vx_id v) @ le32 (vx_graph_id v)
     @ le32 (vx_label_id v) @ le_bytes 2 (vx_dictionary_id v) @ zeros 6"

definition edge_datum :: "edge \<Rightarrow> bytes" where
  "edge_datum e = varlena_header 56 @ zeros 4 @ le64 (ed_id e) @ le32 (ed_graph_id e)
     @ le32 (ed_label_id e) @ le_bytes 2 (ed_dictionary_id e) @ zeros 2 @ le32 (ed_start_label e)
     @ le64 (ed_start_id e) @ le32 (ed_end_label e) @ zeros 4 @ le64 (ed_end_id e)"

definition build_vertex_internal :: "64 word \<Rightarrow> 32 word \<Rightarrow> 32 word \<Rightarrow> 16 word \<Rightarrow> vertex" where
  "build_vertex_internal i graph_id label_id dictionary_id = \<lparr> vx_id = i, vx_graph_id = graph_id,
     vx_label_id = label_id, vx_dictionary_id = dictionary_id \<rparr>"

definition edge_build ::
  "64 word \<Rightarrow> 32 word \<Rightarrow> 32 word \<Rightarrow> 16 word \<Rightarrow> vertex \<Rightarrow> vertex \<Rightarrow> edge" where
  "edge_build i graph_id label_id dictionary_id start_vertex end_vertex = \<lparr> ed_id = i,
     ed_graph_id = graph_id, ed_label_id = label_id, ed_dictionary_id = dictionary_id,
     ed_start_label = vx_label_id start_vertex, ed_start_id = vx_id start_vertex,
     ed_end_label = vx_label_id end_vertex, ed_end_id = vx_id end_vertex \<rparr>"

subsection \<open>Packing\<close>

definition np_entity_pack_size :: "bytes \<Rightarrow> bytes \<Rightarrow> nat" where
  "np_entity_pack_size meta props = maxalign (VARSIZE meta) + VARSIZE props"

definition np_entity_pack :: "bytes \<Rightarrow> bytes \<Rightarrow> bytes \<Rightarrow> bytes" where
  "np_entity_pack dest meta props =
     (let msz = VARSIZE meta; dest = poke dest 0 (take msz meta)
      in poke dest (maxalign msz) (take (VARSIZE props) props))"

definition varlena_at :: "bytes \<Rightarrow> nat \<Rightarrow> bytes" where
  "varlena_at bs off = take (VARSIZE (drop off bs)) (drop off bs)"

definition np_entity_get_meta :: "NPEntityTupleHeaderData \<Rightarrow> bytes" where
  "np_entity_get_meta hdr = varlena_at (en_serialized_entity hdr) 0"

definition np_entity_get_props :: "NPEntityTupleHeaderData \<Rightarrow> bytes" where
  "np_entity_get_props hdr =
     varlena_at (en_serialized_entity hdr) (maxalign (VARSIZE (en_serialized_entity hdr)))"

definition np_entity_copy_props :: "NPEntityTupleHeaderData \<Rightarrow> bytes" where
  "np_entity_copy_props hdr = np_entity_get_props hdr"

text \<open>The zeroed tuple that the writers fill: the flexible member behind the header, whose
  \<open>total_tuple_size\<close> is aligned.\<close>

definition packed_entity :: "bytes \<Rightarrow> bytes option \<Rightarrow> bytes" where
  "packed_entity meta props =
     (let payload_size = (case props of Some p \<Rightarrow> np_entity_pack_size meta p | None \<Rightarrow> VARSIZE meta);
          total_tuple_size = maxalign (SizeOfNPEntityTupleHeader + payload_size);
          dest = zeros (total_tuple_size - SizeOfNPEntityTupleHeader)
      in case props of
           Some p \<Rightarrow> np_entity_pack dest meta p
         | None \<Rightarrow> poke dest 0 (take payload_size meta))"

definition new_entity ::
  "full_xid \<Rightarrow> command_id \<Rightarrow> item_pointer \<Rightarrow> 64 word \<Rightarrow> bytes \<Rightarrow> bytes option
    \<Rightarrow> NPEntityTupleHeaderData" where
  "new_entity fxid cid prev i meta props = \<lparr> mv_xmin = fxid, mv_xmax = InvalidFullTransactionId,
     mv_cmin = cid, mv_cmax = InvalidCommandId, en_prev_itemptr = prev, en_flags = 0, en_id = i,
     en_serialized_entity = packed_entity meta props \<rparr>"

subsection \<open>Update\<close>

datatype TM_Result = TM_Ok | TM_Invisible | TM_Updated

definition end_version :: "full_xid \<Rightarrow> command_id \<Rightarrow> item \<Rightarrow> item option" where
  "end_version fxid cid x = (case x of
     Entity old \<Rightarrow> Some (Entity (old \<lparr> mv_xmax := fxid, mv_cmax := cid \<rparr>)) | _ \<Rightarrow> None)"

text \<open>The old page stays exclusively locked from the tests to the end, so nothing comes between them.
  \<open>np_write_record_to_page\<close> however starts with an exclusive lock of the last block of the relation
  (the relation has a block, that of the old version): if the old version is on that block, the
  backend waits for its own lock.  The result is the verdict, the address of the new version and the
  store.\<close>

definition writes_to_block :: "'p db \<Rightarrow> oid \<Rightarrow> 32 word \<Rightarrow> bool" where
  "writes_to_block db rel blk \<longleftrightarrow> RelationGetNumberOfBlocks db rel = unat blk + 1"

definition np_entity_store_tuple_update ::
  "'p page_api \<Rightarrow> xact_env \<Rightarrow> full_xid \<Rightarrow> 'p db \<Rightarrow> oid \<Rightarrow> item_pointer \<Rightarrow> 64 word \<Rightarrow> bytes
    \<Rightarrow> bytes option \<Rightarrow> command_id \<Rightarrow> store_error + (TM_Result \<times> item_pointer option \<times> 'p db)" where
  "np_entity_store_tuple_update api env fxid db rel otid new_id new_meta new_props cid =
     sum_bind (read_item api db rel otid) (\<lambda>found.
       case found of
         None \<Rightarrow> Inr (TM_Invisible, None, db)
       | Some (Entity old_hdr) \<Rightarrow>
           if \<not> np_entity_tuple_is_live env old_hdr then Inr (TM_Invisible, None, db)
           else if np_entity_tuple_xmax_other env old_hdr then Inr (TM_Updated, None, db)
           else sum_bind (modify_item api (end_version fxid cid) db rel otid) (\<lambda>db.
             if writes_to_block db rel (ip_blkid otid) then Inl SelfDeadlock
             else sum_bind (np_write_record_to_page api db rel
                 (Entity (new_entity fxid cid otid new_id new_meta new_props))) (\<lambda>(new_tid, db).
               Inr (TM_Ok, Some new_tid, db)))
       | Some _ \<Rightarrow> Inl WrongRecord)"

subsection \<open>Scan\<close>

record entity_row =
  er_id :: "64 word"
  er_meta :: bytes
  er_props :: "bytes option"

definition row_of_entity :: "nat \<Rightarrow> NPEntityTupleHeaderData \<Rightarrow> entity_row" where
  "row_of_entity natts hdr =
     (if 3 \<le> natts
      then \<lparr> er_id = en_id hdr, er_meta = np_entity_get_meta hdr,
             er_props = Some (np_entity_get_props hdr) \<rparr>
      else \<lparr> er_id = en_id hdr, er_meta = varlena_at (en_serialized_entity hdr) 0, er_props = None \<rparr>)"

fun entity_view :: "xact_env \<Rightarrow> nat \<Rightarrow> entity_row view" where
  "entity_view env natts (Entity hdr) =
     Inr (if np_entity_tuple_is_live env hdr then Some (row_of_entity natts hdr) else None)"
| "entity_view env natts _ = Inl WrongRecord"

text \<open>The descriptor remembers whether it holds the buffer of its block.\<close>

record entity_scan =
  es_nblocks :: nat
  es_cblock :: nat
  es_coffset :: nat
  es_cbuf :: bool

definition np_entity_store_scan_begin :: "'p db \<Rightarrow> oid \<Rightarrow> entity_scan" where
  "np_entity_store_scan_begin db rel = \<lparr> es_nblocks = RelationGetNumberOfBlocks db rel,
     es_cblock = 0, es_coffset = 1, es_cbuf = False \<rparr>"

definition np_entity_store_scan_rescan :: "'p db \<Rightarrow> oid \<Rightarrow> entity_scan \<Rightarrow> entity_scan" where
  "np_entity_store_scan_rescan db rel desc = desc \<lparr> es_cbuf := False,
     es_nblocks := RelationGetNumberOfBlocks db rel, es_cblock := 0, es_coffset := 1 \<rparr>"

text \<open>The loop over the line pointers of one block is \<open>scan_page\<close>, which leaves \<open>rs_coffset\<close> behind
  the record that it returns.\<close>

function scan_buffered ::
  "'p page_api \<Rightarrow> 'r view \<Rightarrow> 'p db \<Rightarrow> oid \<Rightarrow> entity_scan
    \<Rightarrow> store_error + ((item_pointer \<times> 'r) option \<times> entity_scan)" where
  "scan_buffered api view db rel desc =
     (if \<not> es_cbuf desc \<and> es_nblocks desc \<le> es_cblock desc then Inr (None, desc)
      else let desc = (if es_cbuf desc then desc
                       else desc \<lparr> es_cbuf := True, es_coffset := 1 \<rparr>)
        in sum_bind (ReadBuffer db rel (of_nat (es_cblock desc))) (\<lambda>page.
          sum_bind (scan_page api view page (es_coffset desc)) (\<lambda>found.
            case found of
              Some (off, row) \<Rightarrow>
                Inr (Some (\<lparr> ip_blkid = of_nat (es_cblock desc), ip_posid = of_nat off \<rparr>, row),
                     desc \<lparr> es_coffset := off + 1 \<rparr>)
            | None \<Rightarrow> scan_buffered api view db rel
                (desc \<lparr> es_cbuf := False, es_cblock := es_cblock desc + 1 \<rparr>))))"
  by pat_completeness auto
termination
  by (relation "measure (\<lambda>(api, view, db, rel, desc).
        2 * (es_nblocks desc - es_cblock desc) + (if es_cbuf desc then 1 else 0))") auto

declare scan_buffered.simps [simp del]

definition np_entity_store_scan_getnextslot where
  "np_entity_store_scan_getnextslot api env natts = scan_buffered api (entity_view env natts)"

subsection \<open>The properties of a vertex and of an edge\<close>

text \<open>\<open>label_cache_data\<close> of \<open>src/src/include/utils/np_cache.h\<close>, with the columns that the storage layer
  reads; the annotation map is an array of texts, some of them null.\<close>

record label_cache_data =
  lc_vertex_tbl :: oid
  lc_phys_map :: oid
  lc_arraylist :: oid
  lc_linked_list_meta :: oid
  lc_linked_list_seq :: oid
  lc_annotations_tbl :: oid
  lc_annotation_map :: "string option list option"

type_synonym label_cache = "32 word \<Rightarrow> 32 word \<Rightarrow> label_cache_data option"

fun phys_map_v_itemptr :: "item \<Rightarrow> store_error + item_pointer" where
  "phys_map_v_itemptr (PhysMap rec) = Inr (pm_v_itemptr rec)"
| "phys_map_v_itemptr _ = Inl WrongRecord"

fun edge_map_e_itemptr :: "item \<Rightarrow> store_error + item_pointer" where
  "edge_map_e_itemptr (EdgePhysMap rec) = Inr (ep_e_itemptr rec)"
| "edge_map_e_itemptr _ = Inl WrongRecord"

text \<open>The record of a version is read without a test of its line pointer.\<close>

definition fetch_live_props ::
  "'p page_api \<Rightarrow> xact_env \<Rightarrow> bytes \<Rightarrow> 'p db \<Rightarrow> oid \<Rightarrow> item_pointer \<Rightarrow> store_error + bytes" where
  "fetch_live_props api env no_props db rel tid =
     sum_bind (read_item api db rel tid) (\<lambda>found.
       case found of
         None \<Rightarrow> Inl WildItem
       | Some (Entity hdr) \<Rightarrow>
           if \<not> np_entity_tuple_is_live env hdr then Inr no_props else Inr (np_entity_copy_props hdr)
       | Some _ \<Rightarrow> Inl WrongRecord)"

definition np_fetch_vertex_properties ::
  "'p page_api \<Rightarrow> xact_env \<Rightarrow> label_cache \<Rightarrow> bytes \<Rightarrow> 'p db \<Rightarrow> vertex \<Rightarrow> store_error + bytes" where
  "np_fetch_vertex_properties api env search_label no_props db v =
     (if vx_graph_id v = 0 \<or> vx_label_id v = 0 then Inr no_props
      else case search_label (vx_graph_id v) (vx_label_id v) of
        None \<Rightarrow> Inr no_props
      | Some cache \<Rightarrow>
          if \<not> OidIsValid (lc_phys_map cache) \<or> \<not> OidIsValid (lc_vertex_tbl cache) then Inr no_props
          else let tid = np_id_to_tid (vx_id v) (pmap_tuples_per_page SizeOfNeoPhysMapRecord) in
            if RelationGetNumberOfBlocks db (lc_phys_map cache) \<le> unat (ip_blkid tid) then Inr no_props
            else sum_bind (read_item api db (lc_phys_map cache) tid) (\<lambda>found.
              case found of
                None \<Rightarrow> Inr no_props
              | Some x \<Rightarrow> sum_bind (phys_map_v_itemptr x) (\<lambda>v_tid.
                  if \<not> ItemPointerIsValid v_tid then Inr no_props
                  else fetch_live_props api env no_props db (lc_vertex_tbl cache) v_tid)))"

text \<open>The line pointer of the edge's map entry is not tested either.\<close>

definition np_fetch_edge_properties ::
  "'p page_api \<Rightarrow> xact_env \<Rightarrow> label_cache \<Rightarrow> bytes \<Rightarrow> 'p db \<Rightarrow> edge \<Rightarrow> store_error + bytes" where
  "np_fetch_edge_properties api env search_label no_props db e =
     (if ed_graph_id e = 0 \<or> ed_label_id e = 0 then Inr no_props
      else case search_label (ed_graph_id e) (ed_label_id e) of
        None \<Rightarrow> Inr no_props
      | Some cache \<Rightarrow>
          if \<not> OidIsValid (lc_phys_map cache) \<or> \<not> OidIsValid (lc_vertex_tbl cache) then Inr no_props
          else let tid = np_id_to_tid (ed_id e) (pmap_tuples_per_page SizeOfNeoEdgePhysMapRecord) in
            if RelationGetNumberOfBlocks db (lc_phys_map cache) \<le> unat (ip_blkid tid) then Inr no_props
            else sum_bind (read_item api db (lc_phys_map cache) tid) (\<lambda>found.
              case found of
                None \<Rightarrow> Inl WildItem
              | Some x \<Rightarrow> sum_bind (edge_map_e_itemptr x) (\<lambda>e_tid.
                  if \<not> ItemPointerIsValid e_tid then Inr no_props
                  else fetch_live_props api env no_props db (lc_vertex_tbl cache) e_tid)))"

text \<open>The properties of an entity that has none.\<close>

definition np_empty_gtype_object ::
  "lex_env \<Rightarrow> scalar_in \<Rightarrow> (bytes \<Rightarrow> nat \<Rightarrow> bytes) \<Rightarrow> memory \<Rightarrow> memory
    \<Rightarrow> gtype_value gtype_pair qsort \<Rightarrow> nat \<Rightarrow> (gtype_parse_error + bytes) option" where
  "np_empty_gtype_object env ins set_varsize junk mem q n =
     gtype_from_cstring env ins set_varsize junk mem q n [0x7B, 0x7D]"

subsection \<open>Packing and unpacking\<close>

lemma VARSIZE_append: "4 \<le> length bs \<Longrightarrow> VARSIZE (bs @ xs) = VARSIZE bs"
  by (simp add: VARSIZE_def)

lemma VARSIZE_header:
  assumes "n < 2 ^ 30"
  shows "VARSIZE (varlena_header n @ xs) = n"
proof -
  have "drop_bit 2 (push_bit 2 w) = take_bit 30 w" for w :: "32 word"
    by (rule bit_word_eqI) (auto simp: bit_simps)
  moreover have "take 4 (varlena_header n @ xs) = le_bytes 4 (push_bit 2 (of_nat n) :: 32 word)"
    by (simp add: varlena_header_def le32_def del: le_bytes_numeral)
  moreover have "le_word (le_bytes 4 w) = w" for w :: "32 word"
    by (simp add: le_word_le_bytes take_bit_word_eq_self del: le_bytes_numeral)
  ultimately have "VARSIZE (varlena_header n @ xs) = unat (take_bit 30 (of_nat n :: 32 word))"
    by (simp add: VARSIZE_def del: le_bytes_numeral)
  then show ?thesis using assms
    by (simp add: unsigned_take_bit_eq unat_of_nat take_bit_nat_eq_self)
qed

lemma length_varlena_header [simp]: "length (varlena_header n) = 4"
  by (simp add: varlena_header_def)

lemma vertex_datum_varlena: "is_varlena (vertex_datum v)"
  by (simp add: is_varlena_def vertex_datum_def VARSIZE_header zeros_def)

lemma edge_datum_varlena: "is_varlena (edge_datum e)"
  by (simp add: is_varlena_def edge_datum_def VARSIZE_header zeros_def)

lemma poke_zeros:
  assumes "length bs \<le> n"
  shows "poke (zeros n) 0 bs = bs @ zeros (n - length bs)"
  using assms by (simp add: poke_def zeros_def)

lemma packed_entity_eq:
  assumes "is_varlena meta" "is_varlena props"
  shows "packed_entity meta (Some props) =
    meta @ zeros (maxalign (length meta) - length meta) @ props
      @ zeros (maxalign (40 + (maxalign (length meta) + length props)) - 40
               - (maxalign (length meta) + length props))"
proof -
  define m p where "m = maxalign (length meta)" and "p = length props"
  define n where "n = maxalign (40 + (m + p)) - 40"
  have len: "VARSIZE meta = length meta" "VARSIZE props = p"
    using assms by (simp_all add: is_varlena_def p_def)
  have m: "length meta \<le> m" by (simp add: m_def maxalign_ge)
  have n: "m + p \<le> n" using maxalign_ge[of "40 + (m + p)"] by (simp add: n_def)
  have 1: "poke (zeros n) 0 meta = meta @ zeros (m - length meta) @ zeros p @ zeros (n - (m + p))"
  proof -
    have "zeros (n - length meta) = zeros (m - length meta) @ zeros p @ zeros (n - (m + p))"
      using m n by (simp add: zeros_def flip: replicate_add)
    then show ?thesis using m n by (simp add: poke_zeros)
  qed
  have 2: "poke ((meta @ zeros (m - length meta)) @ zeros p @ zeros (n - (m + p)))
      (length (meta @ zeros (m - length meta))) props =
    (meta @ zeros (m - length meta)) @ props @ zeros (n - (m + p))"
    by (rule poke_append) (simp add: zeros_def p_def)
  have "length (meta @ zeros (m - length meta)) = m" using m by (simp add: zeros_def)
  with 1 2 have "poke (poke (zeros n) 0 meta) m props =
      meta @ zeros (m - length meta) @ props @ zeros (n - (m + p))" by simp
  then show ?thesis
    by (simp add: packed_entity_def np_entity_pack_def np_entity_pack_size_def Let_def len
        SizeOfNPEntityTupleHeader_def m_def[symmetric] n_def p_def)
qed

lemma packed_meta_props:
  assumes "is_varlena meta" "is_varlena props"
    "en_serialized_entity hdr = packed_entity meta (Some props)"
  shows "np_entity_get_meta hdr = meta" "np_entity_get_props hdr = props"
proof -
  obtain z where bs: "en_serialized_entity hdr =
      meta @ zeros (maxalign (length meta) - length meta) @ props @ z"
    using packed_entity_eq[OF assms(1,2)] assms(3) by auto
  have len: "4 \<le> length meta" "VARSIZE meta = length meta" "4 \<le> length props"
    "VARSIZE props = length props"
    using assms by (simp_all add: is_varlena_def)
  show "np_entity_get_meta hdr = meta"
    by (simp add: np_entity_get_meta_def varlena_at_def bs VARSIZE_append len)
  have "drop (maxalign (length meta)) (en_serialized_entity hdr) = props @ z"
    using maxalign_ge[of "length meta"] by (simp add: bs zeros_def)
  then show "np_entity_get_props hdr = props"
    by (simp add: np_entity_get_props_def varlena_at_def bs VARSIZE_append len)
qed

text \<open>What is packed into an entity record is read back: the vertex or edge and,
  behind its padding, the properties, for any two values with a correct length header.\<close>
theorem entity_pack_unpack:
  assumes "is_varlena meta" "is_varlena props"
  shows "np_entity_get_meta (new_entity fxid cid prev i meta (Some props)) = meta
    \<and> np_entity_get_props (new_entity fxid cid prev i meta (Some props)) = props"
  using packed_meta_props[OF assms] by (simp add: new_entity_def)

lemma entity_pack_unpack_witness:
  "np_entity_get_props (new_entity 5 0 InvalidItemPointer 7
     (vertex_datum \<lparr> vx_id = 7, vx_graph_id = 1, vx_label_id = 2, vx_dictionary_id = 0 \<rparr>)
     (Some (varlena_header 9 @ [1, 2, 3, 4, 5]))) = varlena_header 9 @ [1, 2, 3, 4, 5]"
  using entity_pack_unpack[OF vertex_datum_varlena, of "varlena_header 9 @ [1, 2, 3, 4, 5]"]
  by (simp add: is_varlena_def VARSIZE_header)

subsection \<open>An update\<close>

lemma end_version_size: "end_version fxid cid x = Some y \<Longrightarrow> item_size y = item_size x"
  by (auto simp: end_version_def split: item.splits)

text \<open>C22. An update of a live version that no other transaction is changing ends it, writes
  the new version, which points back to it, at a new address, and changes no other record -- provided
  that the version is not on the last block of its relation: there the update never returns, because
  it waits for the lock that it holds itself.  A version that is not live
  is reported as invisible and one that another transaction is changing as updated, and then
  nothing changes.\<close>
theorem entity_update:
  assumes "store_ok api db" "fetch_item api db (rel, otid) = Some (Entity old)"
    "item_fits (Entity (new_entity fxid cid otid new_id meta props))" "has_room db rel"
  shows "case np_entity_store_tuple_update api env fxid db rel otid new_id meta props cid of
      Inl e \<Rightarrow> e = SelfDeadlock \<and> np_entity_tuple_is_live env old
        \<and> \<not> np_entity_tuple_xmax_other env old \<and> unat (ip_blkid otid) + 1 = length (db rel)
    | Inr (verdict, tid, db') \<Rightarrow>
        if \<not> np_entity_tuple_is_live env old then verdict = TM_Invisible \<and> db' = db
        else if np_entity_tuple_xmax_other env old then verdict = TM_Updated \<and> db' = db
        else unat (ip_blkid otid) + 1 < length (db rel) \<and> verdict = TM_Ok \<and> store_ok api db'
          \<and> (\<exists>t. tid = Some t \<and> fetch_item api db (rel, t) = None
            \<and> fetch_item api db' = (fetch_item api db)
                ((rel, otid) \<mapsto> Entity (old \<lparr> mv_xmax := fxid, mv_cmax := cid \<rparr>),
                 (rel, t) \<mapsto> Entity (new_entity fxid cid otid new_id meta props)))"
proof (cases "np_entity_tuple_is_live env old \<and> \<not> np_entity_tuple_xmax_other env old")
  case False
  then show ?thesis
    by (auto simp: np_entity_store_tuple_update_def read_item_fetch[OF assms(2)])
next
  case True
  let ?old = "Entity (old \<lparr> mv_xmax := fxid, mv_cmax := cid \<rparr>)"
  let ?new = "Entity (new_entity fxid cid otid new_id meta props)"
  have y: "end_version fxid cid (Entity old) = Some ?old" by (simp add: end_version_def)
  obtain db1 where m: "modify_item api (end_version fxid cid) db rel otid = Inr db1"
    using np.modify_total[where f = "end_version fxid cid", OF assms(2) y] by blast
  have mod: "store_ok api db1" using np.modify_ok[OF assms(1) m] end_version_size by blast
  have f1: "fetch_item api db1 = (fetch_item api db)((rel, otid) \<mapsto> ?old)"
    using np.modify_fetch[OF assms(1) m] end_version_size y assms(2) by force
  have len: "length (db1 rel) = length (db rel)" "unat (ip_blkid otid) < length (db rel)"
    using m by (auto simp: modify_item_def ReadBuffer_def put_page_def split: if_splits option.splits)
  show ?thesis
  proof (cases "unat (ip_blkid otid) + 1 = length (db rel)")
    case last: True
    then show ?thesis using True len
      by (simp add: np_entity_store_tuple_update_def read_item_fetch[OF assms(2)] m
          writes_to_block_def RelationGetNumberOfBlocks_def)
  next
    case other: False
    have "has_room db1 rel" using assms(4) len by (simp add: has_room_def)
    then obtain t db2 where w: "np_write_record_to_page api db1 rel ?new = Inr (t, db2)"
      using np.store_total[OF mod assms(3)] by (metis prod.exhaust)
    have "fetch_item api db (rel, t) = None"
      using np.store_fresh[OF mod w] by (simp add: f1 split: if_splits)
    then show ?thesis
      using True other len np.store_fetch[OF mod w] np.store_ok[OF mod w]
      by (simp add: np_entity_store_tuple_update_def read_item_fetch[OF assms(2)] m w f1
          writes_to_block_def RelationGetNumberOfBlocks_def)
  qed
qed

text \<open>A relation with one entity on each of its two blocks.\<close>

definition example_entity :: NPEntityTupleHeaderData where
  "example_entity = new_entity 900 0 InvalidItemPointer 7 (varlena_header 4) None"

definition example_entities :: "list_page db" where
  "example_entities = (\<lambda>_. [])(1 := [Some [Entity example_entity], Some [Entity example_entity]])"

lemma example_entity_length: "length (packed_entity (varlena_header 4) None) = 8"
  using VARSIZE_header[of 4 "[]"]
  by (simp add: packed_entity_def SizeOfNPEntityTupleHeader_def maxalign_def poke_def zeros_def)

lemma example_entities_ok: "db_ok list_page_api example_entities"
  by (auto simp: db_ok_def page_ok_def dense_def list_page_api_def used_space_def maxalign_def
      SizeOfNPEntityTupleHeader_def example_entities_def example_entity_def new_entity_def
      example_entity_length split: if_splits)

lemma example_entity_live:
  "np_entity_tuple_is_live example_env example_entity"
  "\<not> np_entity_tuple_xmax_other example_env example_entity"
  by (simp_all add: np_entity_tuple_is_live_def np_entity_tuple_xmax_other_def new_entity_def
      example_entity_def example_env_def FullTransactionIdIsValid_def XidFromFullTransactionId_def
      InvalidFullTransactionId_def)

lemma entity_update_witness:
  "(case np_entity_store_tuple_update list_page_api example_env 1005 example_entities
      1 \<lparr> ip_blkid = 0, ip_posid = 1 \<rparr> 7 (varlena_header 4) None 3 of
    Inl e \<Rightarrow> False
  | Inr (verdict, tid, db') \<Rightarrow> verdict = TM_Ok)
  \<and> np_entity_store_tuple_update list_page_api example_env 1005 example_entities
      1 \<lparr> ip_blkid = 1, ip_posid = 1 \<rparr> 7 (varlena_header 4) None 3 = Inl SelfDeadlock"
proof -
  have "store_ok list_page_api example_entities" by (simp add: store_ok_def example_entities_ok)
  moreover have "fetch_item list_page_api example_entities (1, \<lparr> ip_blkid = b, ip_posid = 1 \<rparr>) =
      Some (Entity example_entity)" if "b = 0 \<or> b = 1" for b
    using that by (auto simp: fetch_item_def list_page_api_def example_entities_def)
  moreover have "item_fits (Entity (new_entity f c p i (varlena_header 4) None))" for f c p i
    by (simp add: item_fits_def new_entity_def example_entity_length maxalign_def
        SizeOfNPEntityTupleHeader_def)
  moreover have "has_room example_entities 1" "length (example_entities 1) = 2"
    by (simp_all add: has_room_def example_entities_def)
  ultimately show ?thesis
    using entity_update[of list_page_api example_entities 1 "\<lparr> ip_blkid = 0, ip_posid = 1 \<rparr>"
        example_entity 1005 3 7 "varlena_header 4" None example_env]
      entity_update[of list_page_api example_entities 1 "\<lparr> ip_blkid = 1, ip_posid = 1 \<rparr>"
        example_entity 1005 3 7 "varlena_header 4" None example_env] example_entity_live
    by (simp split: sum.splits prod.splits)
qed

subsection \<open>The scan of an entity store\<close>

text \<open>The position of the descriptor as that of the other scans.\<close>

definition as_scan_desc :: "entity_scan \<Rightarrow> scan_desc" where
  "as_scan_desc desc = \<lparr> rs_nblocks = es_nblocks desc, curr_block = es_cblock desc,
     curr_offset = (if es_cbuf desc then es_coffset desc else 1) \<rparr>"

definition desc_ok :: "entity_scan \<Rightarrow> bool" where
  "desc_ok desc \<longleftrightarrow> (es_cbuf desc \<longrightarrow> es_cblock desc < es_nblocks desc)"

lemma scan_buffered_simulates:
  assumes "desc_ok desc"
  shows "map_sum id (\<lambda>(row, d). (row, as_scan_desc d))
      (scan_buffered api view db rel desc) =
    scan_getnextslot api view db rel (as_scan_desc desc)"
  using assms
proof (induction "es_nblocks desc - es_cblock desc" arbitrary: desc)
  case 0
  then have "\<not> es_cbuf desc" "es_nblocks desc \<le> es_cblock desc" by (auto simp: desc_ok_def)
  then show ?case
    by (subst scan_buffered.simps, subst scan_getnextslot.simps)
      (simp add: as_scan_desc_def)
next
  case (Suc n)
  let ?d = "if es_cbuf desc then desc else desc \<lparr> es_cbuf := True, es_coffset := 1 \<rparr>"
  let ?next = "?d \<lparr> es_cbuf := False, es_cblock := es_cblock ?d + 1 \<rparr>"
  have lt: "es_cblock desc < es_nblocks desc" using Suc.hyps(2) by simp
  have IH: "map_sum id (\<lambda>(row, d). (row, as_scan_desc d))
      (scan_buffered api view db rel ?next) =
    scan_getnextslot api view db rel (as_scan_desc ?next)"
    using Suc.hyps(2) by (intro Suc.hyps(1)) (simp_all add: desc_ok_def)
  have next': "as_scan_desc ?next = as_scan_desc desc
      \<lparr> curr_block := curr_block (as_scan_desc desc) + 1, curr_offset := 1 \<rparr>"
    by (simp add: as_scan_desc_def)
  let ?page = "ReadBuffer db rel (of_nat (es_cblock desc))"
  show ?case
  proof (cases ?page)
    case (Inl e)
    then show ?thesis using lt
      by (subst scan_buffered.simps, subst scan_getnextslot.simps)
        (simp add: as_scan_desc_def Let_def)
  next
    case page: (Inr page)
    show ?thesis
    proof (cases "scan_page api view page (curr_offset (as_scan_desc desc))")
      case (Inl e)
      then show ?thesis using lt page
        by (subst scan_buffered.simps, subst scan_getnextslot.simps)
          (simp add: as_scan_desc_def Let_def split: if_splits)
    next
      case (Inr found)
      then show ?thesis using lt page IH unfolding next'
        by (subst scan_buffered.simps, subst scan_getnextslot.simps)
          (cases found; simp add: as_scan_desc_def Let_def split: if_splits prod.splits)
    qed
  qed
qed

lemma scan_buffered_desc_ok:
  assumes "scan_buffered api view db rel desc = Inr (row, d)" "desc_ok desc"
  shows "desc_ok d \<and> es_nblocks d = es_nblocks desc"
  using assms
proof (induction api view db rel desc rule: scan_buffered.induct)
  case (1 api view db rel desc)
  let ?d = "if es_cbuf desc then desc else desc \<lparr> es_cbuf := True, es_coffset := 1 \<rparr>"
  have nb: "es_nblocks ?d = es_nblocks desc" "es_cblock ?d = es_cblock desc" by simp_all
  show ?case
  proof (cases "\<not> es_cbuf desc \<and> es_nblocks desc \<le> es_cblock desc")
    case True
    then show ?thesis using "1.prems"
      by (subst (asm) scan_buffered.simps) (auto simp: desc_ok_def)
  next
    case False
    obtain page found where p: "ReadBuffer db rel (of_nat (es_cblock ?d)) = Inr page"
      "scan_page api view page (es_coffset ?d) = Inr found"
      using "1.prems"(1) False
      by (subst (asm) scan_buffered.simps) (auto simp: Let_def)
    have lt: "es_cblock desc < es_nblocks desc" using False "1.prems"(2) by (auto simp: desc_ok_def)
    show ?thesis
    proof (cases found)
      case None
      have "scan_buffered api view db rel
          (?d \<lparr> es_cbuf := False, es_cblock := es_cblock ?d + 1 \<rparr>) = Inr (row, d)"
        using "1.prems"(1) False p None
        by (subst (asm) scan_buffered.simps) (simp add: Let_def)
      moreover have "desc_ok (?d \<lparr> es_cbuf := False, es_cblock := es_cblock ?d + 1 \<rparr>)"
        by (simp add: desc_ok_def)
      ultimately have "desc_ok d \<and> es_nblocks d =
          es_nblocks (?d \<lparr> es_cbuf := False, es_cblock := es_cblock ?d + 1 \<rparr>)"
        by (rule "1.IH"[OF False refl p(1) p(2) None])
      then show ?thesis by (simp split: if_splits)
    next
      case (Some r)
      then show ?thesis using "1.prems"(1) False p lt
        by (subst (asm) scan_buffered.simps)
          (auto simp: Let_def desc_ok_def split: prod.splits if_splits)
    qed
  qed
qed

lemma scan_take_simulates:
  assumes "\<And>s. P s \<Longrightarrow> map_sum id (\<lambda>(row, d). (row, f d)) (step s) = step' (f s)"
    "\<And>s row d. step s = Inr (row, d) \<Longrightarrow> P s \<Longrightarrow> P d" "P s"
  shows "scan_take n step s = scan_take n step' (f s)"
  using assms(3)
proof (induction n arbitrary: s)
  case (Suc n)
  show ?case
  proof (cases "step s")
    case (Inl e)
    then show ?thesis using assms(1)[OF Suc.prems] by (simp flip: assms(1)[OF Suc.prems])
  next
    case (Inr r)
    obtain row d where r: "r = (row, d)" by (cases r)
    have "P d" using assms(2) Inr Suc.prems r by blast
    then show ?thesis using Inr r Suc.IH by (simp flip: assms(1)[OF Suc.prems] split: option.split)
  qed
qed simp

lemma scan_buffered_complete:
  assumes "db_ok api db" "view_total api view db rel"
  shows "scan_take n (scan_buffered api view db rel) (np_entity_store_scan_begin db rel) =
    Inr (take n (relation_rows api view db rel))"
proof -
  have start: "as_scan_desc (np_entity_store_scan_begin db rel) = beginscan db rel"
    "desc_ok (np_entity_store_scan_begin db rel)"
    by (simp_all add: as_scan_desc_def np_entity_store_scan_begin_def beginscan_def desc_ok_def)
  have "scan_take n (scan_buffered api view db rel) (np_entity_store_scan_begin db rel) =
    scan_take n (scan_getnextslot api view db rel) (beginscan db rel)"
    unfolding start(1)[symmetric]
    by (rule scan_take_simulates[of desc_ok])
      (use scan_buffered_simulates scan_buffered_desc_ok start(2) in blast)+
  then show ?thesis by (simp add: scan_begin_take[OF assms])
qed

text \<open>C36. Asking the scan of an entity store for \<open>n\<close> rows gives the first \<open>n\<close> of the
  versions that are live when it is asked, in physical order; the snapshot of the scan has no
  influence.\<close>
theorem entity_scan_complete:
  assumes "db_ok api db" "view_total api (entity_view env natts) db rel"
  shows "scan_take n (np_entity_store_scan_getnextslot api env natts db rel)
      (np_entity_store_scan_begin db rel) =
    Inr (take n (relation_rows api (entity_view env natts) db rel))"
  unfolding np_entity_store_scan_getnextslot_def by (rule scan_buffered_complete[OF assms])

lemma entity_scan_complete_witness:
  "scan_take 2 (np_entity_store_scan_getnextslot list_page_api example_env 2 example_entities 1)
     (np_entity_store_scan_begin example_entities 1) =
   Inr [(\<lparr> ip_blkid = 0, ip_posid = 1 \<rparr>, row_of_entity 2 example_entity),
     (\<lparr> ip_blkid = 1, ip_posid = 1 \<rparr>, row_of_entity 2 example_entity)]"
proof -
  have "view_total list_page_api (entity_view example_env 2) example_entities 1"
    by (auto simp: view_total_def example_entities_def list_page_api_def split: if_splits)
  from entity_scan_complete[OF example_entities_ok this, of 2] show ?thesis
    by (simp add: relation_rows_def block_rows_def tid_rows_def page_rows_def row_at_def
        example_entities_def list_page_api_def example_entity_live upt_rec)
qed

text \<open>The properties of an entity that is given none are the serialised empty
  object: the parser and the serialiser make of the text \<open>{}\<close> a length word and the header of an
  object without pairs.\<close>
theorem empty_properties:
  "np_empty_gtype_object env ins set_varsize junk mem q 11 =
    Some (Inr (set_varsize (load_bytes junk 0 4 @ le32 GT_FOBJECT) 8))"
proof -
  have parse: "gtype_value_from_cstring env ins q 11 [0x7B, 0x7D] = Some (Inr (Some (GTV_OBJECT [])))"
    by code_simp
  show ?thesis
    by (simp add: np_empty_gtype_object_def gtype_from_cstring_def parse fuel_bind_def
        gtype_value_to_gtype_def
        convert_to_gtype_def reserve_from_buffer_def Let_def zeros_def GTENTRY_OFFLENMASK_def)
qed

end
