(* ===== verification/Np_Adjacency.thy ===== *)
theory Np_Adjacency
  imports Np_Entity
begin

text \<open>
  Adjacency lists: the chain of records that starts at the head kept in the physical map.  A chain
  is doubly linked across relations: each record names the relation and the address of its
  neighbours; the records of a linked list come first, newest first, and blocks of an array list
  follow.  This theory models \<open>insert_edge_one_direction\<close> and its helpers
  (\<open>src/src/backend/dml/dml_insert.c\<close>) and proves that it puts the edge in front of the chain of its
  owner and leaves every other chain alone.
\<close>

subsection \<open>Chains\<close>

type_synonym address = "oid \<times> item_pointer"

definition no_address :: address where
  "no_address = (InvalidOid, InvalidItemPointer)"

text \<open>The neighbours of a record that lies in a relation: previous and next.  A block of an array list
  only stores the address of the next one, which is in its own relation.\<close>

fun links :: "oid \<Rightarrow> item \<Rightarrow> (address \<times> address) option" where
  "links tbl (Linked r) =
     Some ((ll_prev_tbl r, ll_prev_itemptr r), (ll_next_tbl r, ll_next_itemptr r))"
| "links tbl (ArrayBlock r) = Some ((ar_prev_tbl r, ar_prev_itemptr r), (tbl, ar_next_itemptr r))"
| "links tbl _ = None"

text \<open>\<open>chain F p c as\<close>: from \<open>c\<close> on the chain visits the addresses \<open>as\<close>, each pointing back to the one
  before, the first to \<open>p\<close>.\<close>

fun chain :: "(address \<Rightarrow> item option) \<Rightarrow> address \<Rightarrow> address \<Rightarrow> address list \<Rightarrow> bool" where
  "chain F p c [] \<longleftrightarrow> \<not> ItemPointerIsValid (snd c)"
| "chain F p c (a # as) \<longleftrightarrow> a = c \<and> ItemPointerIsValid (snd c) \<and> OidIsValid (fst c)
     \<and> (case F c of None \<Rightarrow> False
        | Some x \<Rightarrow> (case links (fst c) x of None \<Rightarrow> False
            | Some (prev, next) \<Rightarrow> prev = p \<and> chain F c next as))"

definition adjacency :: "(address \<Rightarrow> item option) \<Rightarrow> address \<Rightarrow> address list \<Rightarrow> bool" where
  "adjacency F head as \<longleftrightarrow> chain F no_address head as \<and> distinct as"

text \<open>The edges along a chain.\<close>

record half_edge =
  he_id :: "64 word"
  he_lid :: "32 word"
  he_dir :: byte
  he_other_id :: "64 word"
  he_other_lid :: "32 word"

definition half_of_linked :: "NeoLinkedListRecord \<Rightarrow> half_edge" where
  "half_of_linked r = \<lparr> he_id = ll_id r, he_lid = ll_edge_lid r, he_dir = ll_dir r,
     he_other_id = ll_other_id r, he_other_lid = ll_other_lid r \<rparr>"

definition half_of_member :: "AdjListMember \<Rightarrow> half_edge" where
  "half_of_member m = \<lparr> he_id = am_edge_id m, he_lid = am_edge_lid m, he_dir = am_dir m,
     he_other_id = am_other_id m, he_other_lid = am_other_lid m \<rparr>"

fun item_edges :: "item option \<Rightarrow> half_edge list" where
  "item_edges (Some (Linked r)) = [half_of_linked r]"
| "item_edges (Some (ArrayBlock r)) = map half_of_member (al_data (ar_adj_list r))"
| "item_edges _ = []"

definition chain_edges :: "(address \<Rightarrow> item option) \<Rightarrow> address list \<Rightarrow> half_edge list" where
  "chain_edges F as = concat (map (\<lambda>a. item_edges (F a)) as)"

text \<open>The same with the version header of each record.\<close>

fun item_versions :: "item option \<Rightarrow> (half_edge \<times> mvcc) list" where
  "item_versions (Some (Linked r)) = [(half_of_linked r, mvcc.truncate r)]"
| "item_versions (Some (ArrayBlock b)) =
     map (\<lambda>m. (half_of_member m, mvcc.truncate m)) (al_data (ar_adj_list b))"
| "item_versions _ = []"

definition chain_versions :: "(address \<Rightarrow> item option) \<Rightarrow> address list \<Rightarrow> (half_edge \<times> mvcc) list" where
  "chain_versions F as = concat (map (\<lambda>a. item_versions (F a)) as)"

lemma chain_in_use: "chain F p c as \<Longrightarrow> a \<in> set as \<Longrightarrow> \<exists>x. F a = Some x \<and> links (fst a) x \<noteq> None"
  by (induction F p c as rule: chain.induct) (auto split: option.splits prod.splits)

lemma chain_frame:
  assumes "\<And>a. a \<in> set as \<Longrightarrow> F' a = F a"
  shows "chain F' p c as = chain F p c as"
  using assms
proof (induction as arbitrary: p c)
  case (Cons a as)
  then have "chain F' c n as = chain F c n as" for c n by simp
  moreover have "F' a = F a" using Cons.prems by simp
  ultimately show ?case by (cases "a = c") (simp_all cong: option.case_cong)
qed simp

lemma chain_edges_frame:
  "(\<And>a. a \<in> set as \<Longrightarrow> item_edges (F' a) = item_edges (F a)) \<Longrightarrow> chain_edges F' as = chain_edges F as"
  by (simp add: chain_edges_def cong: map_cong)

lemma chain_versions_frame:
  "(\<And>a. a \<in> set as \<Longrightarrow> F' a = F a) \<Longrightarrow> chain_versions F' as = chain_versions F as"
  by (simp add: chain_versions_def cong: map_cong)

lemma adjacency_frame:
  assumes "adjacency F head as" "\<And>a. a \<in> set as \<Longrightarrow> F' a = F a"
  shows "adjacency F' head as" "chain_edges F' as = chain_edges F as"
  using assms chain_frame[of as F' F] chain_edges_frame[of as F' F]
  by (simp_all add: adjacency_def)

text \<open>The number of columns tells linked lists from array lists.\<close>

fun item_natts :: "item \<Rightarrow> nat option" where
  "item_natts (Linked r) = Some 10"
| "item_natts (ArrayBlock r) = Some 5"
| "item_natts _ = None"

subsection \<open>Pushing a record in front of a chain\<close>

text \<open>A change of a record that only redirects its previous pointer.\<close>

definition redirects_prev :: "(item \<Rightarrow> item option) \<Rightarrow> address \<Rightarrow> bool" where
  "redirects_prev f new \<longleftrightarrow> (\<forall>x y. f x = Some y \<longrightarrow> item_size y = item_size x
     \<and> item_edges (Some y) = item_edges (Some x) \<and> item_natts y = item_natts x
     \<and> (\<forall>tbl pn. links tbl x = Some pn \<longrightarrow> links tbl y = Some (new, snd pn)))"

context record_store
begin

lemma push_front:
  assumes ok: "ok db" and old: "adjacency (fetch db) head as"
    and st: "store db tbl x = Inr (tid, db1)" and tbl: "OidIsValid tbl"
    and x: "links tbl x = Some (no_address, head)"
    and upd: "if as = [] then db2 = db1 else modify f db1 (fst head) (snd head) = Inr db2"
    and f: "redirects_prev f (tbl, tid)"
  shows "ok db2" "adjacency (fetch db2) (tbl, tid) ((tbl, tid) # as)"
    "chain_edges (fetch db2) ((tbl, tid) # as) = item_edges (Some x) @ chain_edges (fetch db) as"
    "fetch db2 (tbl, tid) = Some x" "fetch db (tbl, tid) = None"
    "\<And>a. a \<noteq> (tbl, tid) \<Longrightarrow> a \<notin> set (take 1 as) \<Longrightarrow> fetch db2 a = fetch db a"
proof -
  note ok1 = store_ok[OF ok st] and valid = store_valid[OF ok st]
  note f1 = store_fetch[OF ok st]
  show fresh: "fetch db (tbl, tid) = None" using store_fresh[OF ok st] .
  have new: "(tbl, tid) \<notin> set as"
  proof
    assume "(tbl, tid) \<in> set as"
    then show False using chain_in_use[of "fetch db" no_address head as] old fresh
      by (fastforce simp: adjacency_def)
  qed
  have same: "chain (fetch db1) p c bs = chain (fetch db) p c bs" if "set bs \<subseteq> set as" for p c bs
    using new that by (intro chain_frame) (auto simp: f1)
  have "ok db2 \<and> adjacency (fetch db2) (tbl, tid) ((tbl, tid) # as)
    \<and> chain_edges (fetch db2) ((tbl, tid) # as) = item_edges (Some x) @ chain_edges (fetch db) as
    \<and> fetch db2 (tbl, tid) = Some x
    \<and> (\<forall>a. a \<noteq> (tbl, tid) \<longrightarrow> a \<notin> set (take 1 as) \<longrightarrow> fetch db2 a = fetch db a)"
  proof (cases as)
    case Nil
    then have "db2 = db1" using upd by simp
    then show ?thesis using Nil old ok1 valid x tbl
      by (simp add: adjacency_def f1 chain_edges_def)
  next
    case (Cons a rest)
    have head: "a = head" "head \<notin> set rest" using old Cons by (auto simp: adjacency_def)
    have m: "modify f db1 (fst head) (snd head) = Inr db2" using upd Cons by simp
    have size: "f y = Some z \<Longrightarrow> item_size z = item_size y" for y z
      using f by (simp add: redirects_prev_def)
    obtain y z where y: "fetch db1 head = Some y" and z: "f y = Some z"
      and f2: "fetch db2 = (fetch db1)(head \<mapsto> z)"
      using modify_fetch[OF ok1 m] size by auto
    have y0: "fetch db head = Some y" using y new head Cons by (auto simp: f1 split: if_splits)
    obtain n where l: "links (fst head) y = Some (no_address, n)"
      and rest: "chain (fetch db) head n rest" and hv: "ItemPointerIsValid (snd head)" "OidIsValid (fst head)"
      using old Cons y0 head by (auto simp: adjacency_def split: option.splits)
    have "links (fst head) z = Some ((tbl, tid), n)"
      using f z l unfolding redirects_prev_def by fastforce
    moreover have "chain (fetch db2) head n rest"
    proof -
      have "chain (fetch db2) head n rest = chain (fetch db1) head n rest"
        using head(2) by (intro chain_frame) (simp add: f2, blast)
      moreover have "set rest \<subseteq> set as" using Cons by auto
      ultimately show ?thesis using rest same by blast
    qed
    moreover have nh: "(tbl, tid) \<noteq> head" using new Cons head by auto
    ultimately have "chain (fetch db2) no_address (tbl, tid) ((tbl, tid) # as)"
      using valid x hv tbl Cons head(1) by (simp add: f1 f2)
    moreover have "item_edges (Some z) = item_edges (Some y)" using f z by (simp add: redirects_prev_def)
    then have "item_edges (fetch db2 b) = item_edges (fetch db b)" if "b \<in> set as" for b
      using that new y0 by (auto simp: f1 f2)
    then have "chain_edges (fetch db2) as = chain_edges (fetch db) as" by (rule chain_edges_frame)
    moreover have "ok db2" using modify_ok[OF ok1 m] size by blast
    ultimately show ?thesis using old new nh Cons head(1)
      by (simp add: adjacency_def chain_edges_def f1 f2)
  qed
  then show "ok db2" "adjacency (fetch db2) (tbl, tid) ((tbl, tid) # as)"
    "chain_edges (fetch db2) ((tbl, tid) # as) = item_edges (Some x) @ chain_edges (fetch db) as"
    "fetch db2 (tbl, tid) = Some x"
    "\<And>a. a \<noteq> (tbl, tid) \<Longrightarrow> a \<notin> set (take 1 as) \<Longrightarrow> fetch db2 a = fetch db a"
    by blast+
qed

end

subsection \<open>Inserting an edge on one side\<close>

definition set_linked_prev :: "oid \<Rightarrow> item_pointer \<Rightarrow> item \<Rightarrow> item option" where
  "set_linked_prev tbl tid x = (case x of
     Linked r \<Rightarrow> Some (Linked (r \<lparr> ll_prev_tbl := tbl, ll_prev_itemptr := tid \<rparr>)) | _ \<Rightarrow> None)"

definition update_edge_prev_pointer ::
  "'p page_api \<Rightarrow> 'p db \<Rightarrow> oid \<Rightarrow> item_pointer \<Rightarrow> oid \<Rightarrow> item_pointer \<Rightarrow> store_error + 'p db" where
  "update_edge_prev_pointer api db rel old_head_tid prev_table_oid new_head_tid =
     modify_item api (set_linked_prev prev_table_oid new_head_tid) db rel old_head_tid"

definition set_array_prev :: "oid \<Rightarrow> item_pointer \<Rightarrow> item \<Rightarrow> item option" where
  "set_array_prev tbl tid x = (case x of
     ArrayBlock r \<Rightarrow> Some (ArrayBlock (r \<lparr> ar_prev_tbl := tbl, ar_prev_itemptr := tid \<rparr>)) | _ \<Rightarrow> None)"

definition np_update_arraylist_prev_pointer_inplace ::
  "'p page_api \<Rightarrow> 'p db \<Rightarrow> oid \<Rightarrow> item_pointer \<Rightarrow> oid \<Rightarrow> item_pointer \<Rightarrow> store_error + 'p db" where
  "np_update_arraylist_prev_pointer_inplace api db rel tid new_prev_tbl new_prev_tid =
     modify_item api (set_array_prev new_prev_tbl new_prev_tid) db rel tid"

text \<open>The rows of a metadata table, as a catalog scan returns them; a column can be null.\<close>

record meta_row =
  mr_id :: "64 word"
  mr_tbl :: oid
  mr_active :: "bool option"
  mr_compacted :: "bool option"

fun first_active :: "meta_row list \<Rightarrow> oid" where
  "first_active [] = InvalidOid"
| "first_active (row # rows) = (if mr_active row = Some True then mr_tbl row else first_active rows)"

text \<open>The catalog: the rows of each metadata table, the number of columns of each relation, and the
  labels.\<close>

record catalog =
  cat_meta :: "oid \<Rightarrow> meta_row list"
  cat_natts :: "oid \<Rightarrow> nat"
  cat_vertex_label :: label_cache
  cat_edge_label :: label_cache

definition get_active_linked_list_oid :: "catalog \<Rightarrow> oid \<Rightarrow> oid" where
  "get_active_linked_list_oid cat linked_list_meta_oid =
     (if \<not> OidIsValid linked_list_meta_oid then InvalidOid
      else first_active (cat_meta cat linked_list_meta_oid))"

text \<open>The row that goes in front of the old head.\<close>

definition edge_row :: "vertex \<Rightarrow> vertex \<Rightarrow> edge \<Rightarrow> byte \<Rightarrow> address \<Rightarrow> linked_row" where
  "edge_row owner_v other_v e direction old =
     \<lparr> lr_id = ed_id e, lr_edge_lid = ed_label_id e, lr_dir = direction,
       lr_owner_id = vx_id owner_v, lr_other_id = vx_id other_v, lr_other_lid = vx_label_id other_v,
       lr_next_tbl = (if ItemPointerIsValid (snd old) then fst old else InvalidOid),
       lr_next_itemptr = (if ItemPointerIsValid (snd old) then snd old else InvalidItemPointer),
       lr_prev_tbl = InvalidOid, lr_prev_itemptr = InvalidItemPointer \<rparr>"

definition redirect_old_head ::
  "'p page_api \<Rightarrow> catalog \<Rightarrow> 'p db \<Rightarrow> address \<Rightarrow> oid \<Rightarrow> item_pointer \<Rightarrow> store_error + 'p db" where
  "redirect_old_head api cat db old active_list_oid new_tid =
     (if ItemPointerIsValid (snd old) \<and> OidIsValid (fst old) then
        if cat_natts cat (fst old) = 10
        then update_edge_prev_pointer api db (fst old) (snd old) active_list_oid new_tid
        else if cat_natts cat (fst old) = 5
        then np_update_arraylist_prev_pointer_inplace api db (fst old) (snd old) active_list_oid new_tid
        else Inl (Raised ''NeoPostGraph: Unknown old head format during insert_edge'')
      else Inr db)"

definition insert_edge_one_direction ::
  "'p page_api \<Rightarrow> catalog \<Rightarrow> full_xid \<Rightarrow> 'p db \<Rightarrow> vertex \<Rightarrow> vertex \<Rightarrow> edge \<Rightarrow> byte \<Rightarrow> command_id
    \<Rightarrow> store_error + 'p db" where
  "insert_edge_one_direction api cat fxid db owner_v other_v e direction cid =
     (case cat_vertex_label cat (vx_graph_id owner_v) (vx_label_id owner_v) of
        None \<Rightarrow> Inl (Raised ''Missing phys_map or linked_list_meta'')
      | Some owner_label \<Rightarrow>
          if \<not> OidIsValid (lc_phys_map owner_label) \<or> \<not> OidIsValid (lc_linked_list_meta owner_label)
          then Inl (Raised ''Missing phys_map or linked_list_meta'')
          else let active_list_oid = get_active_linked_list_oid cat (lc_linked_list_meta owner_label) in
            if \<not> OidIsValid active_list_oid then Inl (Raised ''No active linked list'')
            else sum_bind (get_current_head_tid api db (lc_phys_map owner_label) (vx_id owner_v)) (\<lambda>old.
              sum_bind (np_linked_list_tableam_tuple_insert api fxid db active_list_oid
                  (edge_row owner_v other_v e direction old) cid) (\<lambda>(new_tid, db).
                sum_bind (redirect_old_head api cat db old active_list_oid new_tid) (\<lambda>db.
                  update_vertex_phys_map api db (lc_phys_map owner_label) (vx_id owner_v)
                    active_list_oid new_tid))))"

lemma redirects_linked: "redirects_prev (set_linked_prev tbl tid) (tbl, tid)"
  by (auto simp: redirects_prev_def set_linked_prev_def half_of_linked_def split: item.splits)

lemma redirects_array: "redirects_prev (set_array_prev tbl tid) (tbl, tid)"
  by (auto simp: redirects_prev_def set_array_prev_def split: item.splits)

definition natts_ok :: "catalog \<Rightarrow> (address \<Rightarrow> item option) \<Rightarrow> bool" where
  "natts_ok cat F \<longleftrightarrow>
     (\<forall>a x n. F a = Some x \<longrightarrow> item_natts x = Some n \<longrightarrow> cat_natts cat (fst a) = n)"

lemma natts_ok_upd:
  assumes "natts_ok cat F" "\<And>n. item_natts y = Some n \<Longrightarrow> cat_natts cat (fst a) = n"
  shows "natts_ok cat (F(a \<mapsto> y))"
  using assms by (auto simp: natts_ok_def)

text \<open>A vertex of a label with the chain of its adjacency list.\<close>

definition vertex_chain ::
  "'p page_api \<Rightarrow> 'p db \<Rightarrow> oid \<Rightarrow> 64 word \<Rightarrow> NeoPhysMapRecord \<Rightarrow> address list \<Rightarrow> bool" where
  "vertex_chain api db pmap i r as \<longleftrightarrow> fetch_item api db (pmap, vertex_slot i) = Some (PhysMap r)
     \<and> adjacency (fetch_item api db) (pm_e_tbl_id r, pm_e_itemptr r) as"

text \<open>What inserting needs of the catalog: the label of the vertex has a map and an active linked
  list, whose relation is open for one more block.\<close>

definition label_ready ::
  "catalog \<Rightarrow> 'p db \<Rightarrow> vertex \<Rightarrow> oid \<Rightarrow> oid \<Rightarrow> bool" where
  "label_ready cat db v pmap active \<longleftrightarrow>
     (\<exists>lab. cat_vertex_label cat (vx_graph_id v) (vx_label_id v) = Some lab
        \<and> lc_phys_map lab = pmap \<and> OidIsValid pmap \<and> OidIsValid (lc_linked_list_meta lab)
        \<and> get_active_linked_list_oid cat (lc_linked_list_meta lab) = active)
     \<and> OidIsValid active \<and> cat_natts cat active = 10 \<and> has_room db active"

definition half_of :: "vertex \<Rightarrow> edge \<Rightarrow> byte \<Rightarrow> half_edge" where
  "half_of other_v e direction = \<lparr> he_id = ed_id e, he_lid = ed_label_id e, he_dir = direction,
     he_other_id = vx_id other_v, he_other_lid = vx_label_id other_v \<rparr>"

lemma redirect_old_head_push:
  assumes "adjacency F old as" "natts_ok cat F" "as \<noteq> []" "fetch_item api db1 old = F old"
  shows "\<exists>f db2. modify_item api f db1 (fst old) (snd old) = Inr db2
    \<and> redirects_prev f (tbl, tid) \<and> redirect_old_head api cat db1 old tbl tid = Inr db2
    \<and> (f = set_linked_prev tbl tid \<or> f = set_array_prev tbl tid)"
proof -
  obtain a rest where as: "as = a # rest" using assms(3) by (cases as) auto
  with assms(1) obtain x where x: "F old = Some x" "links (fst old) x \<noteq> None"
    and valid: "ItemPointerIsValid (snd old)" "OidIsValid (fst old)"
    by (auto simp: adjacency_def split: option.splits)
  have at: "fetch_item api db1 (fst old, snd old) = Some x" using assms(4) x by simp
  have kind: "item_natts x = Some n \<Longrightarrow> cat_natts cat (fst old) = n" for n
    using assms(2) x(1) unfolding natts_ok_def by blast
  show ?thesis
  proof (cases x)
    case (Linked r)
    have "\<exists>y. set_linked_prev tbl tid x = Some y" by (simp add: set_linked_prev_def Linked)
    then obtain db2 where "modify_item api (set_linked_prev tbl tid) db1 (fst old) (snd old) = Inr db2"
      using np.modify_total[where f = "set_linked_prev tbl tid", OF at] by blast
    then show ?thesis using redirects_linked valid kind Linked
      by (auto simp: redirect_old_head_def update_edge_prev_pointer_def)
  next
    case (ArrayBlock r)
    have "\<exists>y. set_array_prev tbl tid x = Some y" by (simp add: set_array_prev_def ArrayBlock)
    then obtain db2 where "modify_item api (set_array_prev tbl tid) db1 (fst old) (snd old) = Inr db2"
      using np.modify_total[where f = "set_array_prev tbl tid", OF at] by blast
    then show ?thesis using redirects_array valid kind ArrayBlock
      by (auto simp: redirect_old_head_def np_update_arraylist_prev_pointer_inplace_def)
  qed (use x in simp_all)
qed

text \<open>A write adds at most one block, a change none.\<close>

lemma extend_relation_length:
  "extend_relation api db rel = Inr db' \<Longrightarrow> length (db' rel') \<le> Suc (length (db rel'))"
  by (auto simp: extend_relation_def split: if_splits)

lemma np_write_length:
  assumes "page_laws api" "np_write_record_to_page api db rel x = Inr (tid, db')"
  shows "length (db' rel') \<le> Suc (length (db rel'))"
proof -
  obtain db1 where db1: "add_to_last_block api db1 rel x = Inr (tid, db')"
    "db1 = db \<or> extend_relation api db rel = Inr db1"
  proof (cases "db rel = []")
    case True
    then show ?thesis using assms that page_new_laws(1)[OF assms(1)]
      by (auto simp: np_write_record_to_page_def RelationGetNumberOfBlocks_def Let_def
          extend_relation_def split: if_splits)
  next
    case False
    then show ?thesis using assms(2) that
      by (auto simp: np_write_record_to_page_def RelationGetNumberOfBlocks_def Let_def split: if_splits)
  qed
  have "length (db' rel') = length (db1 rel')"
    using db1(1) by (auto simp: add_to_last_block_def Let_def put_page_def split: option.splits)
  then show ?thesis using db1(2) extend_relation_length[of api db rel db1 rel'] by auto
qed

lemma modify_item_length:
  "modify_item api f db rel tid = Inr db' \<Longrightarrow> length (db' rel') = length (db rel')"
  by (auto simp: modify_item_def ReadBuffer_def put_page_def split: if_splits option.splits)

text \<open>One direction, in full: what the store is afterwards.\<close>

lemma insert_one_direction:
  assumes ok: "store_ok api db" and ready: "label_ready cat db owner pmap active"
    and small: "0 < vx_id owner" "vx_id owner \<le> 157"
    and vc: "vertex_chain api db pmap (vx_id owner) r as" and natts: "natts_ok cat (fetch_item api db)"
  shows "\<exists>db' tid. insert_edge_one_direction api cat fxid db owner other e direction cid = Inr db'
    \<and> store_ok api db'
    \<and> vertex_chain api db' pmap (vx_id owner) (r \<lparr> pm_e_tbl_id := active, pm_e_itemptr := tid \<rparr>)
        ((active, tid) # as)
    \<and> chain_edges (fetch_item api db') ((active, tid) # as) =
        half_of other e direction # chain_edges (fetch_item api db) as
    \<and> natts_ok cat (fetch_item api db') \<and> fetch_item api db (active, tid) = None
    \<and> (\<forall>a. a \<noteq> (active, tid) \<longrightarrow> a \<noteq> (pmap, vertex_slot (vx_id owner)) \<longrightarrow> a \<notin> set (take 1 as)
          \<longrightarrow> fetch_item api db' a = fetch_item api db a)
    \<and> (\<forall>rel. length (db' rel) \<le> Suc (length (db rel)))"
proof -
  let ?old = "(pm_e_tbl_id r, pm_e_itemptr r)" and ?slot = "(pmap, vertex_slot (vx_id owner))"
  define row where "row = edge_row owner other e direction ?old"
  define rec where "rec = Linked (linked_of_row (new_version fxid cid) row)"
  define nxt where "nxt = (lr_next_tbl row, lr_next_itemptr row)"
  have slot: "fetch_item api db ?slot = Some (PhysMap r)"
    and adj: "adjacency (fetch_item api db) ?old as"
    using vc by (simp_all add: vertex_chain_def)
  have nxt: "nxt = (if ItemPointerIsValid (snd ?old) then ?old else no_address)"
    by (simp add: nxt_def row_def edge_row_def no_address_def)
  have adj': "adjacency (fetch_item api db) nxt as"
    using adj by (cases as) (auto simp: adjacency_def nxt no_address_def)
  have rec: "links active rec = Some (no_address, nxt)" "item_edges (Some rec) = [half_of other e direction]"
    "item_natts rec = Some 10" "item_fits rec"
    by (simp_all add: rec_def nxt_def row_def edge_row_def linked_of_row_def no_address_def
        half_of_linked_def half_of_def item_fits_def maxalign_def)
  obtain lab where lab: "cat_vertex_label cat (vx_graph_id owner) (vx_label_id owner) = Some lab"
    "lc_phys_map lab = pmap" "OidIsValid pmap" "OidIsValid (lc_linked_list_meta lab)"
    "get_active_linked_list_oid cat (lc_linked_list_meta lab) = active"
    and active: "OidIsValid active" "cat_natts cat active = 10" "has_room db active"
    using ready by (auto simp: label_ready_def)
  obtain tid db1 where st: "np_write_record_to_page api db active rec = Inr (tid, db1)"
    using np.store_total[OF ok rec(4) active(3)] by (metis prod.exhaust)
  note ok1 = np.store_ok[OF ok st] and f1 = np.store_fetch[OF ok st] and fresh = np.store_fresh[OF ok st]
  have "\<exists>db2 f. redirect_old_head api cat db1 ?old active tid = Inr db2
      \<and> (if as = [] then db2 = db1 else modify_item api f db1 (fst nxt) (snd nxt) = Inr db2)
      \<and> redirects_prev f (active, tid)"
  proof (cases as)
    case Nil
    then have "\<not> ItemPointerIsValid (snd ?old)" using adj by (simp add: adjacency_def)
    then show ?thesis using Nil redirects_linked by (auto simp: redirect_old_head_def)
  next
    case (Cons a rest)
    then have old: "nxt = ?old" "a = ?old" using adj by (auto simp: adjacency_def nxt)
    have "?old \<noteq> (active, tid)"
      using adj Cons fresh by (auto simp: adjacency_def split: option.splits)
    then have "fetch_item api db1 ?old = fetch_item api db ?old" unfolding f1 by (simp only: fun_upd_other not_False_eq_True)
    from redirect_old_head_push[OF adj natts _ this, of active tid] Cons old(1) show ?thesis by auto
  qed
  then obtain db2 f where red: "redirect_old_head api cat db1 ?old active tid = Inr db2"
    and upd: "if as = [] then db2 = db1 else modify_item api f db1 (fst nxt) (snd nxt) = Inr db2"
    and f: "redirects_prev f (active, tid)" by blast
  note push = np.push_front[OF ok adj' st active(1) rec(1) upd f]
  have slot2: "?slot \<noteq> (active, tid)" "?slot \<notin> set as"
    using fresh slot chain_in_use[of "fetch_item api db" no_address ?old as ?slot] adj
    by (auto simp: adjacency_def)
  have "fetch_item api db2 ?slot = Some (PhysMap r)"
    using push(6)[OF slot2(1)] slot2(2) slot set_take_subset[of 1 as] by auto
  from update_vertex_phys_map_fetch[OF push(1) small this, of active tid]
  obtain db3 where db3: "update_vertex_phys_map api db2 pmap (vx_id owner) active tid = Inr db3"
    "store_ok api db3"
    "fetch_item api db3 = (fetch_item api db2)
       (?slot \<mapsto> PhysMap (r \<lparr> pm_e_tbl_id := active, pm_e_itemptr := tid \<rparr>))" by blast
  have run: "insert_edge_one_direction api cat fxid db owner other e direction cid = Inr db3"
    using get_current_head_fetch[OF small slot] st red db3(1) lab active(1)
    by (simp add: insert_edge_one_direction_def Let_def np_linked_list_tableam_tuple_insert_def
        rec_def row_def)
  have same: "fetch_item api db3 a = fetch_item api db2 a" if "a \<in> set ((active, tid) # as)" for a
    using that slot2 by (auto simp: db3(3))
  note fr = adjacency_frame[OF push(2) same]
  have "natts_ok cat (fetch_item api db2)"
  proof (cases as)
    case Nil
    then show ?thesis using upd natts active(2) rec(3) by (auto simp: f1 intro!: natts_ok_upd)
  next
    case (Cons a rest)
    have n1: "natts_ok cat (fetch_item api db1)"
      using natts active(2) rec(3) by (auto simp: f1 intro!: natts_ok_upd)
    have m: "modify_item api f db1 (fst nxt) (snd nxt) = Inr db2" using upd Cons by simp
    have size: "f y = Some z \<Longrightarrow> item_size z = item_size y" for y z
      using f by (simp add: redirects_prev_def)
    obtain y z where "fetch_item api db1 nxt = Some y" "f y = Some z"
      "fetch_item api db2 = (fetch_item api db1)(nxt \<mapsto> z)"
      using np.modify_fetch[OF ok1 m] size by auto
    moreover from this have "item_natts z = item_natts y" using f by (simp add: redirects_prev_def)
    ultimately show ?thesis using n1 by (auto simp: natts_ok_def)
  qed
  then have natts3: "natts_ok cat (fetch_item api db3)" by (auto simp: db3(3) intro!: natts_ok_upd)
  have "fetch_item api db3 ?slot = Some (PhysMap (r \<lparr> pm_e_tbl_id := active, pm_e_itemptr := tid \<rparr>))"
    by (simp add: db3(3))
  then have vc3: "vertex_chain api db3 pmap (vx_id owner)
      (r \<lparr> pm_e_tbl_id := active, pm_e_itemptr := tid \<rparr>) ((active, tid) # as)"
    using fr(1) by (simp add: vertex_chain_def)
  have edges3: "chain_edges (fetch_item api db3) ((active, tid) # as) =
      half_of other e direction # chain_edges (fetch_item api db) as"
    using fr(2) push(3) rec(2) by simp
  have frame: "fetch_item api db3 a = fetch_item api db a"
    if "a \<noteq> (active, tid)" "a \<noteq> ?slot" "a \<notin> set (take 1 as)" for a
    using push(6)[OF that(1,3)] that(2) by (simp add: db3(3))
  have "length (db3 rel) \<le> Suc (length (db rel))" for rel
  proof -
    have "length (db3 rel) = length (db2 rel)"
      using db3(1) modify_item_length by (auto simp: update_vertex_phys_map_def Let_def)
    moreover have "length (db2 rel) = length (db1 rel)"
      using upd modify_item_length[of api f db1 "fst nxt" "snd nxt" db2 rel] by (auto split: if_splits)
    ultimately show ?thesis
      using np_write_length[OF _ st, of rel] ok by (simp add: store_ok_def)
  qed
  with run db3(2) vc3 edges3 natts3 push(5) frame show ?thesis by blast
qed

end
