(* ===== verification/Np_Insert.thy ===== *)
theory Np_Insert
  imports Np_Adjacency
begin

text \<open>
  Inserting vertices and edges (\<open>src/src/backend/dml/dml_insert.c\<close>): the entity record with the
  properties, the annotation bits of a vertex, its entry in the physical map, and for an edge the
  two half edges in the adjacency lists of its ends.
\<close>

subsection \<open>Annotations\<close>

text \<open>The position of a name in the annotation map of a label: the first element that is not null and
  equal to it.\<close>

fun annotation_position :: "string \<Rightarrow> string option list \<Rightarrow> nat option" where
  "annotation_position s [] = None"
| "annotation_position s (m # ms) =
     (if m = Some s then Some 0 else map_option Suc (annotation_position s ms))"

definition set_annotation_bit :: "nat \<Rightarrow> bytes \<Rightarrow> bytes" where
  "set_annotation_bit bit_pos bits =
     bits[bit_pos div 8 := bits ! (bit_pos div 8) OR push_bit (bit_pos mod 8) 1]"

text \<open>The loop over the annotations of the call; null elements are skipped.\<close>

fun set_annotation_bits ::
  "string option list \<Rightarrow> string option list \<Rightarrow> bytes \<Rightarrow> store_error + bytes" where
  "set_annotation_bits map_array [] bits = Inr bits"
| "set_annotation_bits map_array (None # input) bits = set_annotation_bits map_array input bits"
| "set_annotation_bits map_array (Some in_str # input) bits =
     (case annotation_position in_str map_array of
        None \<Rightarrow> Inl (Raised ''Annotation label is not valid for this structural label'')
      | Some bit_pos \<Rightarrow> set_annotation_bits map_array input (set_annotation_bit bit_pos bits))"

definition annotation_bitset ::
  "string option list \<Rightarrow> string option list \<Rightarrow> store_error + bytes" where
  "annotation_bitset map_array input_annots =
     (let byte_size = (length map_array + 7) div 8
      in sum_bind (set_annotation_bits map_array input_annots (zeros byte_size)) (\<lambda>bits.
         Inr (varlena_header (4 + byte_size) @ bits)))"

text \<open>\<open>graph_cache_data\<close> of \<open>src/src/include/utils/np_cache.h\<close>; a name is the text that \<open>namestrcpy\<close> keeps.\<close>

record graph_cache_data =
  gc_id :: "32 word"
  gc_name :: string
  gc_namespace :: oid
  gc_vertex_labels :: oid
  gc_vertex_id_seq :: oid
  gc_edge_labels :: oid
  gc_edge_id_seq :: oid
  gc_annot_schema_tbl :: oid
  gc_annot_schema_phys_map :: oid

text \<open>The annotation map that is in force: the newest version of the schema of the graph, when there is
  one.  \<open>array_of\<close> stands for PostgreSQL's text arrays.  A label id is signed.\<close>

definition schema_annotation_map ::
  "'p page_api \<Rightarrow> (bytes \<Rightarrow> string option list) \<Rightarrow> ('g \<Rightarrow> graph_cache_data option) \<Rightarrow> 'p db \<Rightarrow> 'g
    \<Rightarrow> 32 word \<Rightarrow> store_error + string option list option" where
  "schema_annotation_map api array_of search_graph db graph_id label_id =
     (case search_graph graph_id of
        None \<Rightarrow> Inr None
      | Some graph_cache \<Rightarrow>
          if \<not> OidIsValid (gc_annot_schema_phys_map graph_cache)
             \<or> \<not> OidIsValid (gc_annot_schema_tbl graph_cache) then Inr None
          else
            let schema_pmap_tid = np_id_to_tid (scast label_id)
                  (pmap_tuples_per_page SizeOfNeoPhysMapRecord) in
            sum_bind (read_item api db (gc_annot_schema_phys_map graph_cache) schema_pmap_tid) (\<lambda>found.
            sum_bind (case found of None \<Rightarrow> Inr InvalidItemPointer | Some x \<Rightarrow> phys_map_v_itemptr x)
              (\<lambda>latest_schema_tid.
                if \<not> ItemPointerIsValid latest_schema_tid then Inr None
                else sum_bind (read_item api db (gc_annot_schema_tbl graph_cache) latest_schema_tid) (\<lambda>found.
                  case found of
                    None \<Rightarrow> Inr None
                  | Some (Entity hdr) \<Rightarrow> Inr (Some (array_of (en_serialized_entity hdr)))
                  | Some _ \<Rightarrow> Inl WrongRecord))))"

definition insert_annotations ::
  "'p page_api \<Rightarrow> (bytes \<Rightarrow> string option list) \<Rightarrow> (32 word \<Rightarrow> graph_cache_data option) \<Rightarrow> full_xid
    \<Rightarrow> command_id \<Rightarrow> 'p db \<Rightarrow> label_cache_data \<Rightarrow> vertex \<Rightarrow> string option list
    \<Rightarrow> store_error + (item_pointer \<times> 'p db)" where
  "insert_annotations api array_of search_graph fxid cid db label_cache v input_annots =
     (if OidIsValid (lc_annotations_tbl label_cache) then
        sum_bind (schema_annotation_map api array_of search_graph db (vx_graph_id v) (vx_label_id v))
          (\<lambda>map_array.
            case (case map_array of None \<Rightarrow> lc_annotation_map label_cache | Some m \<Rightarrow> Some m) of
              None \<Rightarrow> Inl (Raised ''This structural label does not support annotations'')
            | Some map_array \<Rightarrow>
                sum_bind (annotation_bitset map_array input_annots) (\<lambda>bitset.
                  np_write_record_to_page api db (lc_annotations_tbl label_cache)
                    (Entity (new_entity fxid cid InvalidItemPointer (vx_id v) bitset None))))
      else Inl (Raised ''This structural label does not support annotations''))"

subsection \<open>Vertices\<close>

definition np_internal_insert_vertex ::
  "'p page_api \<Rightarrow> catalog \<Rightarrow> (bytes \<Rightarrow> string option list) \<Rightarrow> (32 word \<Rightarrow> graph_cache_data option)
    \<Rightarrow> bytes \<Rightarrow> full_xid \<Rightarrow> command_id \<Rightarrow> 'p db \<Rightarrow> vertex \<Rightarrow> bytes option \<Rightarrow> string option list option
    \<Rightarrow> item_pointer option \<Rightarrow> store_error + 'p db" where
  "np_internal_insert_vertex api cat array_of search_graph no_props fxid cid db v props input_annots
      forwarded_a_itemptr =
     (case cat_vertex_label cat (vx_graph_id v) (vx_label_id v) of
        None \<Rightarrow> Inl (Raised ''label not found'')
      | Some label_cache \<Rightarrow>
          let props = (case props of None \<Rightarrow> no_props | Some p \<Rightarrow> p) in
          sum_bind (np_write_record_to_page api db (lc_vertex_tbl label_cache)
              (Entity (new_entity fxid cid InvalidItemPointer (vx_id v) (vertex_datum v) (Some props))))
            (\<lambda>(v_itemptr, db).
          sum_bind (case forwarded_a_itemptr of
               Some a \<Rightarrow> if ItemPointerIsValid a then Inr (a, db)
                 else (case input_annots of
                     None \<Rightarrow> Inr (InvalidItemPointer, db)
                   | Some annots \<Rightarrow>
                       insert_annotations api array_of search_graph fxid cid db label_cache v annots)
             | None \<Rightarrow> (case input_annots of
                     None \<Rightarrow> Inr (InvalidItemPointer, db)
                   | Some annots \<Rightarrow>
                       insert_annotations api array_of search_graph fxid cid db label_cache v annots))
            (\<lambda>(a_itemptr, db).
          np_place_physmap_record api db (lc_phys_map label_cache)
            (np_id_to_tid (vx_id v) (pmap_tuples_per_page SizeOfNeoPhysMapRecord))
            \<lparr> pm_v_itemptr = v_itemptr, pm_e_tbl_id = InvalidOid, pm_e_itemptr = InvalidItemPointer,
              pm_a_itemptr = a_itemptr \<rparr>)))"

subsection \<open>Edges\<close>

text \<open>The second pointer of the map entry is not set: \<open>junk\<close> is what the stack held.\<close>

definition np_internal_insert_edge ::
  "'p page_api \<Rightarrow> catalog \<Rightarrow> bytes \<Rightarrow> item_pointer \<Rightarrow> full_xid \<Rightarrow> command_id \<Rightarrow> 'p db \<Rightarrow> vertex \<Rightarrow> vertex
    \<Rightarrow> edge \<Rightarrow> bytes option \<Rightarrow> store_error + 'p db" where
  "np_internal_insert_edge api cat no_props junk fxid cid db start_v end_v e props =
     (case cat_edge_label cat (ed_graph_id e) (ed_label_id e) of
        None \<Rightarrow> Inl (Raised ''Edge label table not found'')
      | Some edge_label \<Rightarrow>
          let props = (case props of None \<Rightarrow> no_props | Some p \<Rightarrow> p) in
          sum_bind (np_write_record_to_page api db (lc_vertex_tbl edge_label)
              (Entity (new_entity fxid cid InvalidItemPointer (ed_id e) (edge_datum e) (Some props))))
            (\<lambda>(edge_tid, db).
          sum_bind (if OidIsValid (lc_phys_map edge_label)
              then np_set_edge_physmap_record api db (lc_phys_map edge_label)
                (np_id_to_tid (ed_id e) (pmap_tuples_per_page SizeOfNeoEdgePhysMapRecord))
                \<lparr> ep_e_itemptr = edge_tid, ep_a_itemptr = junk \<rparr>
              else Inr db) (\<lambda>db.
          sum_bind (insert_edge_one_direction api cat fxid db start_v end_v e 0 cid) (\<lambda>db.
          insert_edge_one_direction api cat fxid db end_v start_v e 1 cid))))"

subsection \<open>The annotation bits\<close>

lemma annotation_position_Some:
  "annotation_position s ms = Some p \<Longrightarrow> p < length ms \<and> ms ! p = Some s"
  by (induction ms arbitrary: p) (auto split: if_splits)

lemma annotation_position_None: "annotation_position s ms = None \<longleftrightarrow> Some s \<notin> set ms"
  by (induction ms) auto

lemma annotation_position_in: "annotation_position s ms = Some p \<Longrightarrow> Some s \<in> set ms"
  using annotation_position_None[of s ms] by auto

definition annotation_bit :: "bytes \<Rightarrow> nat \<Rightarrow> bool" where
  "annotation_bit bits p = bit (bits ! (p div 8)) (p mod 8)"

lemma annotation_bit_set:
  assumes "q div 8 < length bits"
  shows "annotation_bit (set_annotation_bit q bits) p = (p = q \<or> annotation_bit bits p)"
proof (cases "p div 8 = q div 8")
  case True
  then have "p = q \<longleftrightarrow> p mod 8 = q mod 8" by (metis div_mult_mod_eq)
  then show ?thesis using assms True
    by (auto simp: annotation_bit_def set_annotation_bit_def bit_or_iff bit_exp_iff)
next
  case False
  then show ?thesis by (auto simp: annotation_bit_def set_annotation_bit_def)
qed

lemma length_set_annotation_bit [simp]: "length (set_annotation_bit q bits) = length bits"
  by (simp add: set_annotation_bit_def)

lemma set_annotation_bits_Inr:
  assumes "set_annotation_bits ms input bits = Inr bits'" "length ms \<le> 8 * length bits"
  shows "length bits' = length bits \<and> (\<forall>p. annotation_bit bits' p \<longleftrightarrow> annotation_bit bits p
    \<or> (\<exists>s. Some s \<in> set input \<and> annotation_position s ms = Some p))"
  using assms
proof (induction ms input bits rule: set_annotation_bits.induct)
  case (3 ms s input bits)
  then obtain q where q: "annotation_position s ms = Some q"
    and IH: "length bits' = length bits \<and> (\<forall>p. annotation_bit bits' p \<longleftrightarrow>
      annotation_bit (set_annotation_bit q bits) p
      \<or> (\<exists>s. Some s \<in> set input \<and> annotation_position s ms = Some p))"
    by (auto split: option.splits)
  have "q div 8 < length bits" using annotation_position_Some[OF q] 3(3) by auto
  with IH q show ?case by (auto simp: annotation_bit_set)
qed auto

text \<open>The bit set of a vertex has as many bytes as its label has annotations by
  eight, and a bit is set exactly for the annotations that the call names, at the position of the
  name in the map of the label; a name that is not in the map is an error.\<close>
theorem annotation_bits:
  "case annotation_bitset ms input of
     Inl e \<Rightarrow> \<exists>s. Some s \<in> set input \<and> Some s \<notin> set ms
   | Inr bitset \<Rightarrow> length bitset = 4 + (length ms + 7) div 8
       \<and> set input \<subseteq> insert None (set ms)
       \<and> {p. p < 8 * (length bitset - 4) \<and> annotation_bit (drop 4 bitset) p} =
           {p. \<exists>s. Some s \<in> set input \<and> annotation_position s ms = Some p}"
proof (cases "set_annotation_bits ms input (zeros ((length ms + 7) div 8))")
  case (Inl e)
  have "set_annotation_bits ms input bits = Inl e \<Longrightarrow> \<exists>s. Some s \<in> set input \<and> Some s \<notin> set ms" for bits
    by (induction ms input bits rule: set_annotation_bits.induct)
      (auto simp: annotation_position_None split: option.splits)
  with Inl show ?thesis by (simp add: annotation_bitset_def Let_def)
next
  case (Inr bits)
  have names: "set_annotation_bits ms input b = Inr b' \<Longrightarrow> Some s \<in> set input \<Longrightarrow> Some s \<in> set ms"
    for b b' s
    by (induction ms input b rule: set_annotation_bits.induct)
      (auto dest: annotation_position_in split: option.splits)
  have "length ms \<le> 8 * length (zeros ((length ms + 7) div 8))" by simp
  note bits = set_annotation_bits_Inr[OF Inr this]
  have "\<not> annotation_bit (zeros n) p" if "p div 8 < n" for n p
    using that by (simp add: annotation_bit_def zeros_def)
  moreover have "annotation_position s ms = Some p \<Longrightarrow> p div 8 < (length ms + 7) div 8" for s p
    using annotation_position_Some[of s ms p] by simp linarith
  ultimately have "{p. p < 8 * ((length ms + 7) div 8) \<and> annotation_bit bits p} =
      {p. \<exists>s. Some s \<in> set input \<and> annotation_position s ms = Some p}"
    using bits by (auto simp: div_less_iff_less_mult mult.commute)
  moreover have "set input \<subseteq> insert None (set ms)"
  proof
    fix x assume "x \<in> set input"
    then show "x \<in> insert None (set ms)" using names[OF Inr] by (metis insertCI not_None_eq)
  qed
  ultimately show ?thesis using Inr bits by (simp add: annotation_bitset_def Let_def)
qed

subsection \<open>A vertex that has been inserted\<close>

text \<open>A write to one relation leaves the pages of the others.\<close>

lemma extend_relation_other:
  "extend_relation api db rel = Inr db' \<Longrightarrow> rel' \<noteq> rel \<Longrightarrow> db' rel' = db rel'"
  by (auto simp: extend_relation_def split: if_splits)

lemma np_write_other:
  assumes "np_write_record_to_page api db rel x = Inr (tid, db')" "rel' \<noteq> rel"
  shows "db' rel' = db rel'"
  using assms
  by (auto simp: np_write_record_to_page_def add_to_last_block_def Let_def put_page_def
      dest!: extend_relation_other[OF _ assms(2)] split: if_splits option.splits)

lemma map_relation_other:
  assumes "map_relation api sz db rel" "db' rel = db rel"
  shows "map_relation api sz db' rel"
proof -
  have "fetch_item api db' (rel, tid) = fetch_item api db (rel, tid)" for tid
    using assms(2) by (simp add: fetch_item_def)
  then show ?thesis using assms by (simp add: map_relation_def slot_relation_def)
qed

text \<open>The tables of a label: the map is none of the others.\<close>

definition vertex_label_ok :: "'p page_api \<Rightarrow> 'p db \<Rightarrow> label_cache_data \<Rightarrow> bool" where
  "vertex_label_ok api db lab \<longleftrightarrow> OidIsValid (lc_vertex_tbl lab) \<and> OidIsValid (lc_phys_map lab)
     \<and> lc_vertex_tbl lab \<noteq> lc_phys_map lab \<and> lc_annotations_tbl lab \<noteq> lc_phys_map lab
     \<and> map_relation api SizeOfNeoPhysMapRecord db (lc_phys_map lab) \<and> has_room db (lc_vertex_tbl lab)"

lemma new_version_live:
  assumes "FullTransactionIdIsValid fxid" "xe_current env (XidFromFullTransactionId fxid)"
  shows "np_entity_tuple_is_live env (new_entity fxid cid prev i meta props)"
  using assms
  by (simp add: np_entity_tuple_is_live_def new_entity_def FullTransactionIdIsValid_def
      InvalidFullTransactionId_def XidFromFullTransactionId_def)

text \<open>C6. A vertex that was inserted without annotations has the properties it was
  inserted with, in the transaction that inserted it and the ones that see it, and an empty
  adjacency list, provided its slot is on the page; the entries of all other vertices of the label
  are untouched.\<close>
theorem insert_vertex_then_fetch:
  assumes "store_ok api db"
    "cat_vertex_label cat (vx_graph_id v) (vx_label_id v) = Some lab" "vertex_label_ok api db lab"
    "vx_graph_id v \<noteq> 0" "vx_label_id v \<noteq> 0" "id_ok (vx_id v)" "slot_on_page (vx_id v)"
    "is_varlena props"
    "item_fits (Entity (new_entity fxid cid InvalidItemPointer (vx_id v) (vertex_datum v) (Some props)))"
    "FullTransactionIdIsValid fxid" "xe_current env (XidFromFullTransactionId fxid)"
  shows "\<exists>db'. np_internal_insert_vertex api cat array_of search_graph no_props fxid cid db v (Some props)
      None None = Inr db'
    \<and> np_fetch_vertex_properties api env (cat_vertex_label cat) none db' v = Inr props
    \<and> (\<exists>r. vertex_chain api db' (lc_phys_map lab) (vx_id v) r [])
    \<and> (\<forall>j. id_ok j \<longrightarrow> j \<noteq> vx_id v \<longrightarrow>
        vertex_entry api db' (lc_phys_map lab) j = vertex_entry api db (lc_phys_map lab) j)"
proof -
  let ?e = "Entity (new_entity fxid cid InvalidItemPointer (vx_id v) (vertex_datum v) (Some props))"
  let ?pmap = "lc_phys_map lab" and ?tbl = "lc_vertex_tbl lab"
  have lab: "OidIsValid ?tbl" "OidIsValid ?pmap" "?tbl \<noteq> ?pmap" "has_room db ?tbl"
    and map: "map_relation api SizeOfNeoPhysMapRecord db ?pmap"
    using assms(3) by (simp_all add: vertex_label_ok_def)
  obtain tid db1 where w: "np_write_record_to_page api db ?tbl ?e = Inr (tid, db1)"
    using np.store_total[OF assms(1,9) lab(4)] by (metis prod.exhaust)
  note ok1 = np.store_ok[OF assms(1) w] and f1 = np.store_fetch[OF assms(1) w]
    and tid = np.store_valid[OF assms(1) w]
  have pages: "db1 ?pmap = db ?pmap" using np_write_other[OF w] lab(3) by simp
  have map1: "map_relation api SizeOfNeoPhysMapRecord db1 ?pmap"
    by (rule map_relation_other[where db = db]) (fact map pages)+
  define r where "r = \<lparr> pm_v_itemptr = tid, pm_e_tbl_id = InvalidOid, pm_e_itemptr = InvalidItemPointer,
      pm_a_itemptr = InvalidItemPointer \<rparr>"
  have size: "item_size (PhysMap r) = SizeOfNeoPhysMapRecord"
    "item_size (PhysMap empty_pad) = item_size (PhysMap r)" by simp_all
  obtain db2 where p: "place_record api (PhysMap empty_pad) db1 ?pmap (vertex_slot (vx_id v)) (PhysMap r) = Inr db2"
    and f2: "fetch_item api db2 = padded api (PhysMap empty_pad) db1 ?pmap (vertex_slot (vx_id v)) (PhysMap r)"
    using place_record_room[OF ok1 map1[folded size(1)] size(2)] vertex_slot_fits[OF assms(6)] assms(7)
    by auto
  have run: "np_internal_insert_vertex api cat array_of search_graph no_props fxid cid db v (Some props)
      None None = Inr db2"
    using p by (simp add: np_internal_insert_vertex_def assms(2) w np_place_physmap_record_def
        vertex_slot_def r_def)
  have slot: "fetch_item api db2 (?pmap, vertex_slot (vx_id v)) = Some (PhysMap r)"
    by (simp add: f2 padded_def)
  have ent: "fetch_item api db2 (?tbl, tid) = Some ?e" using lab(3) by (simp add: f2 padded_def f1)
  have blk: "unat (ip_blkid (vertex_slot (vx_id v))) < length (db2 ?pmap)"
    using slot by (simp add: fetch_item_def split: if_splits)
  have props: "np_entity_get_props (new_entity fxid cid InvalidItemPointer (vx_id v) (vertex_datum v) (Some props)) = props"
    using packed_meta_props(2)[OF vertex_datum_varlena assms(8)] by (simp add: new_entity_def)
  have "fetch_live_props api env none db2 ?tbl tid = Inr props"
    by (simp add: fetch_live_props_def read_item_fetch[OF ent] new_version_live[OF assms(10,11)]
        np_entity_copy_props_def props)
  then have "np_fetch_vertex_properties api env (cat_vertex_label cat) none db2 v = Inr props"
    using blk tid read_item_fetch[OF slot] lab(1,2) assms(2,4,5)
    by (simp add: np_fetch_vertex_properties_def RelationGetNumberOfBlocks_def r_def
        flip: vertex_slot_def)
  moreover have "vertex_chain api db2 ?pmap (vx_id v) r []"
    using slot by (simp add: vertex_chain_def adjacency_def r_def)
  moreover have "vertex_entry api db2 ?pmap j = vertex_entry api db ?pmap j"
    if "id_ok j" "j \<noteq> vx_id v" for j
    using vertex_slot_inj[OF that(1) assms(6)] that(2) lab(3)
    by (auto simp: vertex_entry_def f2 padded_def f1 split: option.splits item.splits)
  ultimately show ?thesis using run by blast
qed

subsection \<open>An edge that has been inserted\<close>

text \<open>The records that make up the topology: the entries of vertices and the chains.\<close>

definition topological :: "item \<Rightarrow> bool" where
  "topological x \<longleftrightarrow> (case x of Entity _ \<Rightarrow> False | EdgePhysMap _ \<Rightarrow> False | CatalogItem _ \<Rightarrow> False
     | _ \<Rightarrow> True)"

definition keeps_topology :: "(address \<Rightarrow> item option) \<Rightarrow> (address \<Rightarrow> item option) \<Rightarrow> bool" where
  "keeps_topology F F' \<longleftrightarrow> (\<forall>a x. F a = Some x \<longrightarrow> topological x \<longrightarrow> F' a = Some x)
     \<and> (\<forall>a x. F' a = Some x \<longrightarrow> topological x \<longrightarrow> F a = Some x)"

lemma keeps_topologyD:
  "keeps_topology F F' \<Longrightarrow> F a = Some x \<Longrightarrow> topological x \<Longrightarrow> F' a = Some x"
  unfolding keeps_topology_def by blast

lemma links_topological: "links tbl x \<noteq> None \<Longrightarrow> topological x"
  by (cases x) (simp_all add: topological_def)

lemma adjacency_links:
  "adjacency F head as \<Longrightarrow> a \<in> set as \<Longrightarrow> \<exists>x. F a = Some x \<and> links (fst a) x \<noteq> None"
  unfolding adjacency_def using chain_in_use by blast

lemma vertex_chain_topology:
  assumes "keeps_topology (fetch_item api db) (fetch_item api db')" "vertex_chain api db pmap i r as"
  shows "vertex_chain api db' pmap i r as"
    "chain_edges (fetch_item api db') as = chain_edges (fetch_item api db) as"
proof -
  have adj: "adjacency (fetch_item api db) (pm_e_tbl_id r, pm_e_itemptr r) as"
    and slot: "fetch_item api db (pmap, vertex_slot i) = Some (PhysMap r)"
    using assms(2) by (simp_all add: vertex_chain_def)
  have same: "fetch_item api db' a = fetch_item api db a" if a: "a \<in> set as" for a
  proof -
    obtain x where x: "fetch_item api db a = Some x" "links (fst a) x \<noteq> None"
      using adjacency_links[OF adj a] by blast
    have "fetch_item api db' a = Some x"
      by (rule keeps_topologyD[OF assms(1) x(1) links_topological[OF x(2)]])
    then show ?thesis using x(1) by simp
  qed
  have "fetch_item api db' (pmap, vertex_slot i) = Some (PhysMap r)"
    by (rule keeps_topologyD[OF assms(1) slot]) (simp add: topological_def)
  then show "vertex_chain api db' pmap i r as"
    "chain_edges (fetch_item api db') as = chain_edges (fetch_item api db) as"
    using adjacency_frame[OF adj same] unfolding vertex_chain_def by blast+
qed

lemma natts_ok_topology:
  assumes "keeps_topology F F'" "natts_ok cat F"
  shows "natts_ok cat F'"
proof -
  have "item_natts x = Some n \<Longrightarrow> topological x" for x n
    by (cases x) (simp_all add: topological_def)
  then show ?thesis using assms unfolding keeps_topology_def natts_ok_def by blast
qed

text \<open>Inserting on one side does not touch the chain of another vertex.\<close>

lemma other_chain_kept:
  assumes vc: "vertex_chain api db pmap' i' r' bs" and fresh: "fetch_item api db new = None"
    and slot: "fetch_item api db slot = Some (PhysMap r)" "slot \<noteq> (pmap', vertex_slot i')"
    and disj: "set as \<inter> set bs = {}" and links: "\<forall>a \<in> set as. \<exists>x. fetch_item api db a = Some x \<and> links (fst a) x \<noteq> None"
    and frame: "\<And>a. a \<noteq> new \<Longrightarrow> a \<noteq> slot \<Longrightarrow> a \<notin> set (take 1 as) \<Longrightarrow> fetch_item api db' a = fetch_item api db a"
  shows "vertex_chain api db' pmap' i' r' bs"
    "chain_edges (fetch_item api db') bs = chain_edges (fetch_item api db) bs"
proof -
  have adj: "adjacency (fetch_item api db) (pm_e_tbl_id r', pm_e_itemptr r') bs"
    and slot': "fetch_item api db (pmap', vertex_slot i') = Some (PhysMap r')"
    using vc by (simp_all add: vertex_chain_def)
  have take: "set (take 1 as) \<subseteq> set as" by (rule set_take_subset)
  have same: "fetch_item api db' a = fetch_item api db a" if a: "a \<in> set bs" for a
  proof (rule frame)
    obtain x where x: "fetch_item api db a = Some x" "links (fst a) x \<noteq> None"
      using adjacency_links[OF adj a] by blast
    show "a \<noteq> new" using x fresh by auto
    show "a \<noteq> slot" using x slot by auto
    show "a \<notin> set (take 1 as)" using disj take a by auto
  qed
  have "fetch_item api db' (pmap', vertex_slot i') = fetch_item api db (pmap', vertex_slot i')"
  proof (rule frame)
    show "(pmap', vertex_slot i') \<noteq> new" using slot' fresh by auto
    show "(pmap', vertex_slot i') \<noteq> slot" using slot(2) by simp
    show "(pmap', vertex_slot i') \<notin> set (take 1 as)" using slot' links take by fastforce
  qed
  with slot' show "vertex_chain api db' pmap' i' r' bs"
    "chain_edges (fetch_item api db') bs = chain_edges (fetch_item api db) bs"
    using adjacency_frame[OF adj same] unfolding vertex_chain_def by auto
qed

lemma vertex_chain_links:
  "vertex_chain api db pmap i r as \<Longrightarrow>
    \<forall>a \<in> set as. \<exists>x. fetch_item api db a = Some x \<and> links (fst a) x \<noteq> None"
  unfolding vertex_chain_def using adjacency_links by blast

text \<open>The tables of an edge label.\<close>

definition edge_slot :: "64 word \<Rightarrow> item_pointer" where
  "edge_slot i = np_id_to_tid i (pmap_tuples_per_page SizeOfNeoEdgePhysMapRecord)"

definition edge_label_ok :: "'p page_api \<Rightarrow> 'p db \<Rightarrow> label_cache_data \<Rightarrow> edge \<Rightarrow> bool" where
  "edge_label_ok api db lab e \<longleftrightarrow> OidIsValid (lc_vertex_tbl lab) \<and> OidIsValid (lc_phys_map lab)
     \<and> lc_vertex_tbl lab \<noteq> lc_phys_map lab
     \<and> map_relation api SizeOfNeoEdgePhysMapRecord db (lc_phys_map lab)
     \<and> has_room db (lc_vertex_tbl lab) \<and> ItemPointerIsValid (edge_slot (ed_id e))
     \<and> slot_fits SizeOfNeoEdgePhysMapRecord (edge_slot (ed_id e)) \<and> block_fits (edge_slot (ed_id e))"

lemma edge_size_items:
  "item_size x = SizeOfNeoEdgePhysMapRecord \<Longrightarrow> \<not> topological x"
  by (cases x) (simp_all add: topological_def SizeOfNeoEdgePhysMapRecord_def
      SizeOfNPEntityTupleHeader_def SizeOfNeoPhysMapRecord_def SizeOfNeoArrayListRecord_def)

text \<open>The first half of inserting an edge: its record and its entry in the map of edges.\<close>

lemma insert_edge_record:
  assumes ok: "store_ok api db" and lab: "edge_label_ok api db lab e"
    and fits: "item_fits (Entity ent)"
  shows "\<exists>tid db1 db2. np_write_record_to_page api db (lc_vertex_tbl lab) (Entity ent) = Inr (tid, db1)
    \<and> np_set_edge_physmap_record api db1 (lc_phys_map lab) (edge_slot (ed_id e))
        \<lparr> ep_e_itemptr = tid, ep_a_itemptr = junk \<rparr> = Inr db2
    \<and> store_ok api db2 \<and> keeps_topology (fetch_item api db) (fetch_item api db2)
    \<and> ItemPointerIsValid tid \<and> fetch_item api db2 (lc_vertex_tbl lab, tid) = Some (Entity ent)
    \<and> fetch_item api db2 (lc_phys_map lab, edge_slot (ed_id e)) =
        Some (EdgePhysMap \<lparr> ep_e_itemptr = tid, ep_a_itemptr = junk \<rparr>)
    \<and> (\<forall>rel. rel \<noteq> lc_vertex_tbl lab \<longrightarrow> rel \<noteq> lc_phys_map lab \<longrightarrow> db2 rel = db rel)"
proof -
  let ?etbl = "lc_vertex_tbl lab" and ?emap = "lc_phys_map lab" and ?slot = "edge_slot (ed_id e)"
  have l: "?etbl \<noteq> ?emap" "has_room db ?etbl" "ItemPointerIsValid ?slot" "block_fits ?slot"
    and sf: "slot_fits SizeOfNeoEdgePhysMapRecord ?slot"
    and map: "map_relation api SizeOfNeoEdgePhysMapRecord db ?emap"
    using lab by (simp_all add: edge_label_ok_def)
  obtain tid db1 where w: "np_write_record_to_page api db ?etbl (Entity ent) = Inr (tid, db1)"
    using np.store_total[OF ok fits l(2)] by (metis prod.exhaust)
  note ok1 = np.store_ok[OF ok w] and f1 = np.store_fetch[OF ok w] and fresh = np.store_fresh[OF ok w]
  have pages: "db1 ?emap = db ?emap" using np_write_other[OF w] l(1) by simp
  have map1: "map_relation api SizeOfNeoEdgePhysMapRecord db1 ?emap"
    by (rule map_relation_other[where db = db]) (fact map pages)+
  let ?r = "EdgePhysMap \<lparr> ep_e_itemptr = tid, ep_a_itemptr = junk \<rparr>" and ?pad = "EdgePhysMap empty_edge_pad"
  have size: "item_size ?r = SizeOfNeoEdgePhysMapRecord" "item_size ?pad = item_size ?r" by simp_all
  obtain db2 where p: "place_record api ?pad db1 ?emap ?slot ?r = Inr db2" "store_ok api db2"
    and f2: "fetch_item api db2 = padded api ?pad db1 ?emap ?slot ?r"
    using place_record_room[OF ok1 map1[folded size(1)] size(2)] l(3,4) sf by auto
  have keeps: "keeps_topology (fetch_item api db) (fetch_item api db2)"
    unfolding keeps_topology_def
  proof (intro conjI allI impI)
    fix a x assume a: "fetch_item api db a = Some x" "topological x"
    have "a \<noteq> (?etbl, tid)" using a(1) fresh by auto
    moreover have "a \<noteq> (?emap, ?slot)"
      using a map edge_size_items by (auto simp: map_relation_def)
    ultimately show "fetch_item api db2 a = Some x" using a(1) by (simp add: f2 padded_def f1)
  next
    fix a x assume "fetch_item api db2 a = Some x" "topological x"
    then show "fetch_item api db a = Some x"
      by (auto simp: f2 padded_def f1 topological_def split: if_splits)
  qed
  have "db2 rel = db rel" if "rel \<noteq> ?etbl" "rel \<noteq> ?emap" for rel
  proof -
    have "db2 rel = db1 rel"
      using p(1) that(2) extend_to_Inr[of "unat (ip_blkid ?slot)" api db1 ?emap] l(4)
      by (auto simp: place_record_def ReadBuffer_def put_page_def block_fits_def split: if_splits)
    then show ?thesis using np_write_other[OF w that(1)] by simp
  qed
  moreover have "fetch_item api db2 (?etbl, tid) = Some (Entity ent)" using l(1) by (simp add: f2 padded_def f1)
  moreover have "fetch_item api db2 (?emap, ?slot) = Some ?r" by (simp add: f2 padded_def)
  ultimately show ?thesis
    using w p keeps np.store_valid[OF ok w] by (auto simp: np_set_edge_physmap_record_def)
qed

text \<open>What the two ends of an edge have to be before it is inserted: vertices with a chain each, among
  the first 157 of their labels, with different entries and disjoint chains; and the tables of the
  edge are none of those of the vertices.\<close>

definition ends_ok ::
  "'p page_api \<Rightarrow> catalog \<Rightarrow> 'p db \<Rightarrow> label_cache_data \<Rightarrow> vertex \<Rightarrow> oid \<Rightarrow> oid \<Rightarrow> vertex \<Rightarrow> oid \<Rightarrow> oid \<Rightarrow> bool" where
  "ends_ok api cat db elab v pmap active w pmap' active' \<longleftrightarrow>
     label_ready cat db v pmap active \<and> label_ready cat db w pmap' active'
     \<and> 0 < vx_id v \<and> vx_id v \<le> 157 \<and> 0 < vx_id w \<and> vx_id w \<le> 157
     \<and> (pmap, vertex_slot (vx_id v)) \<noteq> (pmap', vertex_slot (vx_id w))
     \<and> active \<noteq> lc_vertex_tbl elab \<and> active \<noteq> lc_phys_map elab
     \<and> active' \<noteq> lc_vertex_tbl elab \<and> active' \<noteq> lc_phys_map elab
     \<and> length (db active') < 0xFFFFFFFE"

lemma label_ready_room:
  "label_ready cat db v pmap active \<Longrightarrow> has_room db' active \<Longrightarrow> label_ready cat db' v pmap active"
  by (auto simp: label_ready_def)

text \<open>C4. Inserting an edge between two vertices puts it in front of both adjacency
  lists, outgoing in the one and incoming in the other, behind which the lists are what they were,
  all links in both directions included; and the edge has the properties it was inserted with.  The
  ends are two different vertices with ids up to 157; behind them see C32.\<close>
theorem edge_in_both_lists:
  assumes "store_ok api db" "natts_ok cat (fetch_item api db)"
    "cat_edge_label cat (ed_graph_id e) (ed_label_id e) = Some elab" "edge_label_ok api db elab e"
    "ends_ok api cat db elab v pmap active w pmap' active'"
    "vertex_chain api db pmap (vx_id v) r as" "vertex_chain api db pmap' (vx_id w) s bs"
    "set as \<inter> set bs = {}" "is_varlena props" "ed_graph_id e \<noteq> 0" "ed_label_id e \<noteq> 0"
    "item_fits (Entity (new_entity fxid cid InvalidItemPointer (ed_id e) (edge_datum e) (Some props)))"
    "FullTransactionIdIsValid fxid" "xe_current env (XidFromFullTransactionId fxid)"
  shows "\<exists>db' a b. np_internal_insert_edge api cat no_props junk fxid cid db v w e (Some props) = Inr db'
    \<and> vertex_chain api db' pmap (vx_id v) (r \<lparr> pm_e_tbl_id := active, pm_e_itemptr := a \<rparr>) ((active, a) # as)
    \<and> vertex_chain api db' pmap' (vx_id w) (s \<lparr> pm_e_tbl_id := active', pm_e_itemptr := b \<rparr>) ((active', b) # bs)
    \<and> chain_edges (fetch_item api db') ((active, a) # as) =
        half_of w e 0 # chain_edges (fetch_item api db) as
    \<and> chain_edges (fetch_item api db') ((active', b) # bs) =
        half_of v e 1 # chain_edges (fetch_item api db) bs
    \<and> np_fetch_edge_properties api env (cat_edge_label cat) none db' e = Inr props"
proof -
  let ?ent = "new_entity fxid cid InvalidItemPointer (ed_id e) (edge_datum e) (Some props)"
  let ?emap = "lc_phys_map elab" and ?etbl = "lc_vertex_tbl elab"
  obtain t db1 db2 where w: "np_write_record_to_page api db ?etbl (Entity ?ent) = Inr (t, db1)"
    and p: "np_set_edge_physmap_record api db1 ?emap (edge_slot (ed_id e))
        \<lparr> ep_e_itemptr = t, ep_a_itemptr = junk \<rparr> = Inr db2"
    and ok2: "store_ok api db2" and keeps: "keeps_topology (fetch_item api db) (fetch_item api db2)"
    and t: "ItemPointerIsValid t" and ent: "fetch_item api db2 (?etbl, t) = Some (Entity ?ent)"
    and entry: "fetch_item api db2 (?emap, edge_slot (ed_id e)) =
        Some (EdgePhysMap \<lparr> ep_e_itemptr = t, ep_a_itemptr = junk \<rparr>)"
    and pages: "\<forall>rel. rel \<noteq> ?etbl \<longrightarrow> rel \<noteq> ?emap \<longrightarrow> db2 rel = db rel"
    using insert_edge_record[OF assms(1,4,12)] by blast
  note ends = assms(5)[unfolded ends_ok_def]
  have "has_room db active" "has_room db active'" using ends by (auto simp: label_ready_def)
  then have ready: "label_ready cat db2 v pmap active" "label_ready cat db2 w pmap' active'"
    using ends pages by (auto simp: has_room_def intro: label_ready_room)
  note as2 = vertex_chain_topology[OF keeps assms(6)] and bs2 = vertex_chain_topology[OF keeps assms(7)]
  obtain db3 a where run1: "insert_edge_one_direction api cat fxid db2 v w e 0 cid = Inr db3"
    and ok3: "store_ok api db3"
    and vc3: "vertex_chain api db3 pmap (vx_id v) (r \<lparr> pm_e_tbl_id := active, pm_e_itemptr := a \<rparr>) ((active, a) # as)"
    and ed3: "chain_edges (fetch_item api db3) ((active, a) # as) =
        half_of w e 0 # chain_edges (fetch_item api db2) as"
    and na3: "natts_ok cat (fetch_item api db3)" and fresh3: "fetch_item api db2 (active, a) = None"
    and fr3: "\<And>x. x \<noteq> (active, a) \<Longrightarrow> x \<noteq> (pmap, vertex_slot (vx_id v)) \<Longrightarrow> x \<notin> set (take 1 as)
        \<Longrightarrow> fetch_item api db3 x = fetch_item api db2 x"
    and len3: "\<And>rel. length (db3 rel) \<le> Suc (length (db2 rel))"
    using insert_one_direction[OF ok2 ready(1) _ _ as2(1) natts_ok_topology[OF keeps assms(2)]] ends
    by blast
  have slot2: "fetch_item api db2 (pmap, vertex_slot (vx_id v)) = Some (PhysMap r)"
    using as2(1) by (simp add: vertex_chain_def)
  have ne: "(pmap, vertex_slot (vx_id v)) \<noteq> (pmap', vertex_slot (vx_id w))" using ends by blast
  note bs3 = other_chain_kept[OF bs2(1) fresh3 slot2 ne assms(8) vertex_chain_links[OF as2(1)] fr3]
  have "length (db2 active') < 0xFFFFFFFE" using ends pages by auto
  then have ready3: "label_ready cat db3 w pmap' active'"
    using ready(2) len3[of active'] by (auto simp: has_room_def intro: label_ready_room)
  obtain db4 b where run2: "insert_edge_one_direction api cat fxid db3 w v e 1 cid = Inr db4"
    and vc4: "vertex_chain api db4 pmap' (vx_id w) (s \<lparr> pm_e_tbl_id := active', pm_e_itemptr := b \<rparr>) ((active', b) # bs)"
    and ed4: "chain_edges (fetch_item api db4) ((active', b) # bs) =
        half_of v e 1 # chain_edges (fetch_item api db3) bs"
    and fresh4: "fetch_item api db3 (active', b) = None"
    and fr4: "\<And>x. x \<noteq> (active', b) \<Longrightarrow> x \<noteq> (pmap', vertex_slot (vx_id w)) \<Longrightarrow> x \<notin> set (take 1 bs)
        \<Longrightarrow> fetch_item api db4 x = fetch_item api db3 x"
    using insert_one_direction[OF ok3 ready3 _ _ bs3(1) na3] ends by blast
  have "(active, a) \<notin> set bs" using vertex_chain_links[OF bs2(1)] fresh3 by auto
  then have disj: "set bs \<inter> set ((active, a) # as) = {}" using assms(8) by auto
  have slot3: "fetch_item api db3 (pmap', vertex_slot (vx_id w)) = Some (PhysMap s)"
    using bs3(1) by (simp add: vertex_chain_def)
  note as4 = other_chain_kept[OF vc3 fresh4 slot3 ne[symmetric] disj vertex_chain_links[OF bs3(1)] fr4]
  have kept: "fetch_item api db4 x = Some y" if "fetch_item api db2 x = Some y" "\<not> topological y" for x y
  proof -
    have "x \<notin> set as" "x \<notin> set bs"
      using vertex_chain_links[OF as2(1)] vertex_chain_links[OF bs2(1)] that links_topological by fastforce+
    then have n: "x \<notin> set (take 1 as)" "x \<notin> set (take 1 bs)"
      using set_take_subset[of 1 as] set_take_subset[of 1 bs] by auto
    have "x \<noteq> (pmap, vertex_slot (vx_id v))" "x \<noteq> (active, a)"
      using that slot2 fresh3 by (auto simp: topological_def)
    from fr3[OF this(2,1) n(1)] that(1) have x3: "fetch_item api db3 x = Some y" by simp
    have "x \<noteq> (pmap', vertex_slot (vx_id w))" "x \<noteq> (active', b)"
      using that(2) x3 slot3 fresh4 by (auto simp: topological_def)
    from fr4[OF this(2,1) n(2)] x3 show ?thesis by simp
  qed
  have ent4: "fetch_item api db4 (?etbl, t) = Some (Entity ?ent)"
    and entry4: "fetch_item api db4 (?emap, edge_slot (ed_id e)) =
        Some (EdgePhysMap \<lparr> ep_e_itemptr = t, ep_a_itemptr = junk \<rparr>)"
    using kept[OF ent] kept[OF entry] by (simp_all add: topological_def)
  have blk: "unat (ip_blkid (edge_slot (ed_id e))) < length (db4 ?emap)"
    using entry4 by (simp add: fetch_item_def split: if_splits)
  have "np_entity_get_props ?ent = props"
    using packed_meta_props(2)[OF edge_datum_varlena assms(9)] by (simp add: new_entity_def)
  then have live: "fetch_live_props api env none db4 ?etbl t = Inr props"
    by (simp add: fetch_live_props_def read_item_fetch[OF ent4] new_version_live[OF assms(13,14)]
        np_entity_copy_props_def)
  have valid: "OidIsValid ?emap" "OidIsValid ?etbl" using assms(4) by (simp_all add: edge_label_ok_def)
  have props: "np_fetch_edge_properties api env (cat_edge_label cat) none db4 e = Inr props"
    using blk t live valid assms(3,10,11) read_item_fetch[OF entry4]
    by (simp add: np_fetch_edge_properties_def RelationGetNumberOfBlocks_def flip: edge_slot_def)
  have run: "np_internal_insert_edge api cat no_props junk fxid cid db v w e (Some props) = Inr db4"
    using w p run1 run2 valid by (simp add: np_internal_insert_edge_def assms(3) flip: edge_slot_def)
  have e1: "chain_edges (fetch_item api db4) ((active, a) # as) =
      half_of w e 0 # chain_edges (fetch_item api db) as"
    using as4(2) ed3 as2(2) by simp
  have e2: "chain_edges (fetch_item api db4) ((active', b) # bs) =
      half_of v e 1 # chain_edges (fetch_item api db) bs"
    using ed4 bs3(2) bs2(2) by simp
  show ?thesis using run as4(1) vc4 e1 e2 props by blast
qed

subsection \<open>A small graph\<close>

text \<open>One vertex label and one edge label in graph 1, the catalog of which is the following.\<close>

definition example_vertex_label :: label_cache_data where
  "example_vertex_label = \<lparr> lc_vertex_tbl = 10, lc_phys_map = 11, lc_arraylist = 12,
     lc_linked_list_meta = 13, lc_linked_list_seq = 0, lc_annotations_tbl = 0, lc_annotation_map = None \<rparr>"

definition example_edge_label :: label_cache_data where
  "example_edge_label = \<lparr> lc_vertex_tbl = 20, lc_phys_map = 21, lc_arraylist = 0,
     lc_linked_list_meta = 0, lc_linked_list_seq = 0, lc_annotations_tbl = 0, lc_annotation_map = None \<rparr>"

definition example_catalog :: catalog where
  "example_catalog = \<lparr>
     cat_meta = (\<lambda>t. [\<lparr> mr_id = 1, mr_tbl = 14, mr_active = Some True, mr_compacted = Some False \<rparr>]),
     cat_natts = (\<lambda>t. if t = 12 then 5 else 10),
     cat_vertex_label = (\<lambda>g l. if g = 1 \<and> l = 1 then Some example_vertex_label else None),
     cat_edge_label = (\<lambda>g l. if g = 1 \<and> l = 2 then Some example_edge_label else None) \<rparr>"

definition example_vertex :: "64 word \<Rightarrow> vertex" where
  "example_vertex i = \<lparr> vx_id = i, vx_graph_id = 1, vx_label_id = 1, vx_dictionary_id = 0 \<rparr>"

definition example_edge :: edge where
  "example_edge = edge_build 5 1 2 0 (example_vertex 1) (example_vertex 2)"

definition example_props :: bytes where
  "example_props = varlena_header 8 @ le32 GT_FOBJECT"

lemma example_props_varlena: "is_varlena example_props"
  by (simp add: is_varlena_def example_props_def VARSIZE_header)

lemma length_packed_entity:
  assumes "is_varlena meta" "is_varlena props"
  shows "length (packed_entity meta (Some props)) = maxalign (40 + (maxalign (length meta) + length props)) - 40"
  using maxalign_ge[of "length meta"] maxalign_ge[of "40 + (maxalign (length meta) + length props)"]
  by (simp add: packed_entity_eq[OF assms])

lemma length_datums: "length (vertex_datum v) = 32" "length (edge_datum e) = 56" "length example_props = 8"
  by (simp_all add: vertex_datum_def edge_datum_def example_props_def)

lemma example_entities_fit:
  "item_fits (Entity (new_entity f c p i (vertex_datum v) (Some example_props)))"
  "item_fits (Entity (new_entity f c p i (edge_datum e) (Some example_props)))"
  by (simp_all add: item_fits_def new_entity_def length_packed_entity vertex_datum_varlena
      edge_datum_varlena example_props_varlena length_datums maxalign_def SizeOfNPEntityTupleHeader_def)

lemma insert_vertex_then_fetch_witness:
  "\<exists>db. np_internal_insert_vertex list_page_api example_catalog (\<lambda>_. []) (\<lambda>_. None) [] 1005 0
      (\<lambda>_. []) (example_vertex 3) (Some example_props) None None = Inr db
    \<and> np_fetch_vertex_properties list_page_api example_env (cat_vertex_label example_catalog) [] db
        (example_vertex 3) = Inr example_props"
proof -
  have "cat_vertex_label example_catalog (vx_graph_id (example_vertex 3)) (vx_label_id (example_vertex 3)) =
      Some example_vertex_label"
    by (simp add: example_catalog_def example_vertex_def)
  moreover have "vertex_label_ok list_page_api (\<lambda>_. []) example_vertex_label"
    by (simp add: vertex_label_ok_def example_vertex_label_def OidIsValid_def InvalidOid_def
        empty_map_relation has_room_def)
  moreover have "id_ok (vx_id (example_vertex 3))" "slot_on_page (vx_id (example_vertex 3))"
    "vx_graph_id (example_vertex 3) \<noteq> 0" "vx_label_id (example_vertex 3) \<noteq> 0"
    by (simp_all add: id_ok_def slot_on_page_def example_vertex_def)
  moreover have "FullTransactionIdIsValid 1005" "xe_current example_env (XidFromFullTransactionId 1005)"
    by (simp_all add: FullTransactionIdIsValid_def XidFromFullTransactionId_def example_env_def)
  ultimately show ?thesis
    using insert_vertex_then_fetch[of list_page_api "\<lambda>_. []" example_catalog "example_vertex 3"
        example_vertex_label example_props 1005 0 example_env "\<lambda>_. []" "\<lambda>_. None" "[]" "[]"]
      empty_db_ok[of list_page_api] example_props_varlena example_entities_fit(1) by auto
qed

definition example_graph :: "list_page db" where
  "example_graph = (\<lambda>_. [])(11 := [Some [PhysMap empty_pad, PhysMap empty_pad]])"

lemma example_graph_ok: "store_ok list_page_api example_graph"
proof -
  have "db_ok list_page_api example_graph"
    by (auto simp: db_ok_def page_ok_def dense_def example_graph_def list_page_api_def
        used_space_def maxalign_def SizeOfNeoPhysMapRecord_def split: if_splits)
  then show ?thesis by (simp add: store_ok_def)
qed

lemma example_graph_fetch:
  "fetch_item list_page_api example_graph (t, \<lparr> ip_blkid = b, ip_posid = p \<rparr>) =
     (if t = 11 \<and> b = 0 \<and> (p = 1 \<or> p = 2) then Some (PhysMap empty_pad) else None)"
proof -
  have "p = 1 \<or> p = 2 \<longleftrightarrow> 0 < unat p \<and> unat p \<le> 2"
  proof
    assume "0 < unat p \<and> unat p \<le> 2"
    then have "unat p = unat (1 :: 16 word) \<or> unat p = unat (2 :: 16 word)" by auto
    then show "p = 1 \<or> p = 2" unfolding word_unat_eq_iff[symmetric] .
  qed auto
  then show ?thesis
    by (auto simp: fetch_item_def example_graph_def list_page_api_def nth_Cons' unat_eq_0)
qed

lemma vertex_slot_12: "vertex_slot 1 = \<lparr> ip_blkid = 0, ip_posid = 1 \<rparr>"
  by (simp add: vertex_slot_def tuples_per_page_numbers np_id_to_tid_def)

text \<open>The address of a record in the first block.\<close>

definition slot_tid :: "16 word \<Rightarrow> item_pointer" where
  "slot_tid k = \<lparr> ip_blkid = 0, ip_posid = k \<rparr>"

lemma posid_small:
  fixes p :: "16 word"
  shows "0 < unat p \<and> unat p \<le> 2 \<longleftrightarrow> p = 1 \<or> p = 2" "0 < unat p \<and> unat p \<le> 1 \<longleftrightarrow> p = 1"
proof -
  have "unat p = 1 \<longleftrightarrow> p = 1" "unat p = 2 \<longleftrightarrow> p = 2"
    using word_unat_eq_iff[of p 1] word_unat_eq_iff[of p 2] by simp_all
  then show "0 < unat p \<and> unat p \<le> 2 \<longleftrightarrow> p = 1 \<or> p = 2" "0 < unat p \<and> unat p \<le> 1 \<longleftrightarrow> p = 1" by auto
qed

lemma example_chains:
  "vertex_chain list_page_api example_graph 11 1 empty_pad []"
  "vertex_chain list_page_api example_graph 11 2 empty_pad []"
  by (simp_all add: vertex_chain_def vertex_slot_12 vertex_slot_2 example_graph_fetch adjacency_def
      empty_pad_def)

lemma edge_in_both_lists_witness:
  "\<exists>db a b. np_internal_insert_edge list_page_api example_catalog [] InvalidItemPointer 1005 0 example_graph
      (example_vertex 1) (example_vertex 2) example_edge (Some example_props) = Inr db
    \<and> chain_edges (fetch_item list_page_api db) [(14, a)] = [half_of (example_vertex 2) example_edge 0]
    \<and> chain_edges (fetch_item list_page_api db) [(14, b)] = [half_of (example_vertex 1) example_edge 1]"
proof -
  have natts: "natts_ok example_catalog (fetch_item list_page_api example_graph)"
    unfolding natts_ok_def
  proof (intro allI impI)
    fix a x n
    assume "fetch_item list_page_api example_graph a = Some x" "item_natts x = Some n"
    then show "cat_natts example_catalog (fst a) = n"
      by (cases a; cases "snd a") (auto simp: example_graph_fetch split: if_splits)
  qed
  have slot5: "edge_slot 5 = \<lparr> ip_blkid = 0, ip_posid = 5 \<rparr>"
    by (simp add: edge_slot_def tuples_per_page_numbers np_id_to_tid_def)
  have elab: "edge_label_ok list_page_api example_graph example_edge_label example_edge"
    by (simp add: edge_label_ok_def example_edge_label_def example_edge_def edge_build_def OidIsValid_def
        InvalidOid_def has_room_def example_graph_def empty_map_relation slot5 ItemPointerIsValid_def
        slot_fits_def block_fits_def maxalign_def SizeOfNeoEdgePhysMapRecord_def)
  have ready: "label_ready example_catalog example_graph (example_vertex i) 11 14" for i
    by (simp add: label_ready_def example_catalog_def example_vertex_def example_vertex_label_def
        OidIsValid_def InvalidOid_def get_active_linked_list_oid_def has_room_def example_graph_def)
  have ids: "vx_id (example_vertex i) = i" for i by (simp add: example_vertex_def)
  have len: "length (example_graph 14) = 0" by (simp add: example_graph_def)
  have ends: "ends_ok list_page_api example_catalog example_graph example_edge_label
      (example_vertex 1) 11 14 (example_vertex 2) 11 14"
    by (simp add: ends_ok_def ready ids vertex_slot_12 vertex_slot_2 example_edge_label_def len)
  have own: "FullTransactionIdIsValid 1005" "xe_current example_env (XidFromFullTransactionId 1005)"
    by (simp_all add: FullTransactionIdIsValid_def XidFromFullTransactionId_def example_env_def)
  have e: "cat_edge_label example_catalog (ed_graph_id example_edge) (ed_label_id example_edge) =
      Some example_edge_label" "ed_graph_id example_edge \<noteq> 0" "ed_label_id example_edge \<noteq> 0"
    by (simp_all add: example_catalog_def example_edge_def edge_build_def)
  have chains: "vertex_chain list_page_api example_graph 11 (vx_id (example_vertex 1)) empty_pad []"
    "vertex_chain list_page_api example_graph 11 (vx_id (example_vertex 2)) empty_pad []"
    unfolding ids by (fact example_chains)+
  have disj: "set ([] :: address list) \<inter> set [] = {}" by simp
  from edge_in_both_lists[OF example_graph_ok natts e(1) elab ends chains disj
      example_props_varlena e(2,3) example_entities_fit(2) own,
      where no_props = "[]" and junk = InvalidItemPointer and none = "[]"]
  obtain db a b where "np_internal_insert_edge list_page_api example_catalog [] InvalidItemPointer 1005 0 example_graph
      (example_vertex 1) (example_vertex 2) example_edge (Some example_props) = Inr db"
    "chain_edges (fetch_item list_page_api db) [(14, a)] =
      half_of (example_vertex 2) example_edge 0 # chain_edges (fetch_item list_page_api example_graph) []"
    "chain_edges (fetch_item list_page_api db) [(14, b)] =
      half_of (example_vertex 1) example_edge 1 # chain_edges (fetch_item list_page_api example_graph) []"
    by blast
  then show ?thesis by (auto simp: chain_edges_def)
qed

end
