(* ===== verification/Np_Adj_List.thy ===== *)
theory Np_Adj_List
  imports Np_Insert "HOL-Library.AList"
begin

text \<open>
  Compaction of adjacency lists (\<open>src/src/backend/access/np_adj_list.c\<close>): the records of the oldest
  inactive linked list of a label are collected by owner in a hash table, joined with the array-list
  block that follows them, cut into blocks that fit on a page, and the blocks take their place in the
  chain of the owner.  The hash table is an association list; \<open>traverse\<close> is the order in which
  PostgreSQL's \<open>hash_seq_search\<close> visits it.
\<close>

subsection \<open>Growing a list in memory\<close>

text \<open>The size in bytes of a list with \<open>maxitems\<close> slots, which \<open>palloc\<close> and \<open>repalloc\<close> refuse from 1 GB
  on.  The product is taken in 64 bits; a negative number of slots is sign-extended and too big.\<close>

definition adj_list_alloc :: "32 word \<Rightarrow> store_error + unit" where
  "adj_list_alloc maxitems =
     check (0 \<le> sint maxitems \<and> 12 + 52 * sint maxitems \<le> 0x3FFFFFFF)
       (Raised ''invalid memory alloc request size'')"

definition np_init_adj_list :: "32 word \<Rightarrow> AdjList" where
  "np_init_adj_list initial_capacity = \<lparr> al_maxitems = initial_capacity, al_data = [] \<rparr>"

definition np_append_adj_list :: "AdjList \<Rightarrow> AdjListMember \<Rightarrow> store_error + AdjList" where
  "np_append_adj_list list member =
     sum_bind (if sint (al_maxitems list) \<le> int (length (al_data list))
               then sum_bind (adj_list_alloc (al_maxitems list * 2))
                      (\<lambda>_. Inr (list \<lparr> al_maxitems := al_maxitems list * 2 \<rparr>))
               else Inr list)
       (\<lambda>list. if int (length (al_data list)) < sint (al_maxitems list)
               then Inr (list \<lparr> al_data := al_data list @ [member] \<rparr>) else Inl WildWrite)"

fun append_all :: "AdjList \<Rightarrow> AdjListMember list \<Rightarrow> store_error + AdjList" where
  "append_all list [] = Inr list"
| "append_all list (m # ms) = sum_bind (np_append_adj_list list m) (\<lambda>list. append_all list ms)"

definition np_trim_adj_list :: "AdjList \<Rightarrow> AdjList" where
  "np_trim_adj_list list = list \<lparr> al_maxitems := of_nat (length (al_data list)) \<rparr>"

subsection \<open>Changing blocks in place\<close>

definition end_block :: "full_xid \<Rightarrow> command_id \<Rightarrow> item \<Rightarrow> item option" where
  "end_block fxid cid x = (case x of
     ArrayBlock r \<Rightarrow> Some (ArrayBlock (r \<lparr> mv_xmax := fxid, mv_cmax := cid \<rparr>)) | _ \<Rightarrow> None)"

definition delete_arraylist_record ::
  "'p page_api \<Rightarrow> full_xid \<Rightarrow> command_id \<Rightarrow> 'p db \<Rightarrow> oid \<Rightarrow> item_pointer \<Rightarrow> store_error + 'p db" where
  "delete_arraylist_record api fxid cid db array_rel target_tid =
     sum_bind (read_item api db array_rel target_tid) (\<lambda>found.
       case found of
         None \<Rightarrow> Inr db
       | Some _ \<Rightarrow> modify_item api (end_block fxid cid) db array_rel target_tid)"

definition np_merge_existing_arraylist ::
  "'p page_api \<Rightarrow> full_xid \<Rightarrow> command_id \<Rightarrow> 'p db \<Rightarrow> oid \<Rightarrow> item_pointer \<Rightarrow> AdjList
    \<Rightarrow> store_error + (item_pointer \<times> AdjList \<times> 'p db)" where
  "np_merge_existing_arraylist api fxid cid db array_rel target_tid adj =
     (if \<not> ItemPointerIsValid target_tid then Inr (InvalidItemPointer, adj, db)
      else sum_bind (read_item api db array_rel target_tid) (\<lambda>found.
        sum_bind (case found of
            None \<Rightarrow> Inr (InvalidItemPointer, adj)
          | Some (ArrayBlock rec) \<Rightarrow>
              sum_bind (append_all adj (al_data (ar_adj_list rec)))
                (\<lambda>adj. Inr (ar_next_itemptr rec, adj))
          | Some _ \<Rightarrow> Inl WrongRecord)
        (\<lambda>(next_tid, adj).
        sum_bind (delete_arraylist_record api fxid cid db array_rel target_tid)
          (\<lambda>db. Inr (next_tid, adj, db)))))"

definition np_insert_arraylist_block ::
  "'p page_api \<Rightarrow> full_xid \<Rightarrow> command_id \<Rightarrow> 'p db \<Rightarrow> oid \<Rightarrow> 64 word \<Rightarrow> AdjList \<Rightarrow> oid \<Rightarrow> item_pointer
    \<Rightarrow> item_pointer \<Rightarrow> store_error + (item_pointer \<times> 'p db)" where
  "np_insert_arraylist_block api fxid cid db array_rel vertex_id adj prev_tbl prev_tid next_tid =
     nparraylist_tableam_tuple_insert api fxid db array_rel
       \<lparr> rr_owner_id = vertex_id,
         rr_prev_tbl = (if OidIsValid prev_tbl then prev_tbl else InvalidOid),
         rr_prev_itemptr = nullable_itemptr prev_tid, rr_adj_list = adj,
         rr_next_itemptr = nullable_itemptr next_tid \<rparr> cid"

definition set_linked_next :: "oid \<Rightarrow> item_pointer \<Rightarrow> item \<Rightarrow> item option" where
  "set_linked_next tbl tid x = (case x of
     Linked r \<Rightarrow> Some (Linked (r \<lparr> ll_next_tbl := tbl, ll_next_itemptr := tid \<rparr>)) | _ \<Rightarrow> None)"

definition np_update_next_pointer_inplace ::
  "'p page_api \<Rightarrow> 'p db \<Rightarrow> oid \<Rightarrow> item_pointer \<Rightarrow> oid \<Rightarrow> item_pointer \<Rightarrow> store_error + 'p db" where
  "np_update_next_pointer_inplace api db rel tid new_next_tbl new_next_tid =
     modify_item api (set_linked_next new_next_tbl new_next_tid) db rel tid"

definition set_array_next :: "item_pointer \<Rightarrow> item \<Rightarrow> item option" where
  "set_array_next tid x = (case x of
     ArrayBlock r \<Rightarrow> Some (ArrayBlock (r \<lparr> ar_next_itemptr := tid \<rparr>)) | _ \<Rightarrow> None)"

definition np_update_arraylist_next_pointer_inplace ::
  "'p page_api \<Rightarrow> 'p db \<Rightarrow> oid \<Rightarrow> item_pointer \<Rightarrow> item_pointer \<Rightarrow> store_error + 'p db" where
  "np_update_arraylist_next_pointer_inplace api db rel tid new_next_tid =
     modify_item api (set_array_next new_next_tid) db rel tid"

subsection \<open>Cutting a list into blocks\<close>

text \<open>\<open>MaxHeapTupleSize\<close> is 8160.\<close>

definition MAX_EDGES_PER_BLOCK :: nat where
  "MAX_EDGES_PER_BLOCK = (8160 - SizeOfNeoArrayListRecord) div SizeOfAdjListMember"

definition chunk_of :: "AdjList \<Rightarrow> nat \<Rightarrow> store_error + AdjList" where
  "chunk_of adj i =
     (let total_edges = length (al_data adj);
          edges_in_chunk = min MAX_EDGES_PER_BLOCK (total_edges - i * MAX_EDGES_PER_BLOCK)
      in sum_bind (append_all (np_init_adj_list (of_nat edges_in_chunk))
             (map (\<lambda>j. al_data adj ! (i * MAX_EDGES_PER_BLOCK + j)) [0..<edges_in_chunk]))
           (\<lambda>chunk. Inr (np_trim_adj_list chunk)))"

text \<open>The loop over the chunks, of which \<open>n\<close> are left.  From the second round on the previous block is
  the one inserted last.\<close>

primrec insert_chunks ::
  "nat \<Rightarrow> 'p page_api \<Rightarrow> full_xid \<Rightarrow> command_id \<Rightarrow> oid \<Rightarrow> 64 word \<Rightarrow> AdjList \<Rightarrow> nat \<Rightarrow> item_pointer
    \<Rightarrow> oid \<Rightarrow> item_pointer \<Rightarrow> item_pointer \<Rightarrow> 'p db \<Rightarrow> store_error + (item_pointer \<times> 'p db)" where
  "insert_chunks 0 api fxid cid array_rel vertex_id adj chunks downstream_tid prev_tbl prev_tid
     first_chunk_tid db = Inr (first_chunk_tid, db)"
| "insert_chunks (Suc n) api fxid cid array_rel vertex_id adj chunks downstream_tid prev_tbl prev_tid
     first_chunk_tid db =
     (let i = chunks - Suc n;
          next_tid = (if i = chunks - 1 then downstream_tid else InvalidItemPointer)
      in sum_bind (chunk_of adj i) (\<lambda>chunk_adj.
         sum_bind (np_insert_arraylist_block api fxid cid db array_rel vertex_id chunk_adj prev_tbl prev_tid
             next_tid) (\<lambda>(new_tid, db).
         sum_bind (if i = 0 then Inr db
                   else np_update_arraylist_next_pointer_inplace api db array_rel prev_tid new_tid) (\<lambda>db.
         insert_chunks n api fxid cid array_rel vertex_id adj chunks downstream_tid array_rel new_tid
           (if i = 0 then new_tid else first_chunk_tid) db))))"

definition np_insert_chunked_arraylist ::
  "'p page_api \<Rightarrow> full_xid \<Rightarrow> command_id \<Rightarrow> 'p db \<Rightarrow> oid \<Rightarrow> 64 word \<Rightarrow> AdjList \<Rightarrow> oid \<Rightarrow> item_pointer
    \<Rightarrow> item_pointer \<Rightarrow> store_error + (item_pointer \<times> 'p db)" where
  "np_insert_chunked_arraylist api fxid cid db array_rel vertex_id adj prev_tbl prev_tid downstream_tid =
     (let total_edges = length (al_data adj);
          chunks = (total_edges + MAX_EDGES_PER_BLOCK - 1) div MAX_EDGES_PER_BLOCK
      in if total_edges = 0 then Inr (InvalidItemPointer, db)
         else insert_chunks chunks api fxid cid array_rel vertex_id adj chunks downstream_tid
                prev_tbl prev_tid InvalidItemPointer db)"

subsection \<open>Collecting the records of a linked list\<close>

record CompactedVertexEntry =
  cv_adj :: AdjList
  cv_upstream_tbl :: oid
  cv_upstream_tid :: item_pointer
  cv_downstream_tbl :: oid
  cv_downstream_tid :: item_pointer

definition new_entry :: CompactedVertexEntry where
  "new_entry = \<lparr> cv_adj = np_init_adj_list 4, cv_upstream_tbl = InvalidOid,
     cv_upstream_tid = InvalidItemPointer, cv_downstream_tbl = InvalidOid,
     cv_downstream_tid = InvalidItemPointer \<rparr>"

definition member_of_record :: "NeoLinkedListRecord \<Rightarrow> AdjListMember" where
  "member_of_record rec = \<lparr> mv_xmin = mv_xmin rec, mv_xmax = mv_xmax rec, mv_cmin = mv_cmin rec,
     mv_cmax = mv_cmax rec, am_edge_id = ll_id rec, am_edge_lid = ll_edge_lid rec,
     am_other_id = ll_other_id rec, am_other_lid = ll_other_lid rec, am_dir = ll_dir rec,
     am_flags = 0 \<rparr>"

definition set_upstream :: "oid \<Rightarrow> NeoLinkedListRecord \<Rightarrow> CompactedVertexEntry \<Rightarrow> CompactedVertexEntry" where
  "set_upstream oldest_ll_oid rec entry =
     (if ll_prev_tbl rec \<noteq> oldest_ll_oid
      then entry \<lparr> cv_upstream_tbl := ll_prev_tbl rec, cv_upstream_tid := ll_prev_itemptr rec \<rparr>
      else entry)"

definition set_downstream :: "oid \<Rightarrow> NeoLinkedListRecord \<Rightarrow> CompactedVertexEntry \<Rightarrow> CompactedVertexEntry" where
  "set_downstream oldest_ll_oid rec entry =
     (if ll_next_tbl rec \<noteq> oldest_ll_oid \<and> ll_next_tbl rec \<noteq> InvalidOid
      then entry \<lparr> cv_downstream_tbl := ll_next_tbl rec, cv_downstream_tid := ll_next_itemptr rec \<rparr>
      else entry)"

type_synonym vertex_hash = "(64 word \<times> CompactedVertexEntry) list"

definition collect_record ::
  "oid \<Rightarrow> vertex_hash \<Rightarrow> NeoLinkedListRecord \<Rightarrow> store_error + vertex_hash" where
  "collect_record oldest_ll_oid hash rec =
     (let entry = (case map_of hash (ll_owner_id rec) of None \<Rightarrow> new_entry | Some entry \<Rightarrow> entry)
      in sum_bind (np_append_adj_list (cv_adj entry) (member_of_record rec)) (\<lambda>adj.
         Inr (AList.update (ll_owner_id rec)
           (set_downstream oldest_ll_oid rec (set_upstream oldest_ll_oid rec (entry \<lparr> cv_adj := adj \<rparr>)))
           hash)))"

fun collect_items :: "oid \<Rightarrow> vertex_hash \<Rightarrow> item list \<Rightarrow> store_error + vertex_hash" where
  "collect_items oldest_ll_oid hash [] = Inr hash"
| "collect_items oldest_ll_oid hash (Linked rec # items) =
     sum_bind (collect_record oldest_ll_oid hash rec)
       (\<lambda>hash. collect_items oldest_ll_oid hash items)"
| "collect_items oldest_ll_oid hash (_ # items) = Inl WrongRecord"

text \<open>The loops over the blocks and the line pointers in use.\<close>

definition page_items :: "'p page_api \<Rightarrow> 'p \<Rightarrow> item list" where
  "page_items api page =
     List.map_filter (pg_item api page) [1..<Suc (PageGetMaxOffsetNumber api page)]"

definition relation_items :: "'p page_api \<Rightarrow> 'p db \<Rightarrow> oid \<Rightarrow> item list" where
  "relation_items api db rel = concat (map (page_items api) (db rel))"

subsection \<open>Replacing the records of one vertex\<close>

definition wire_upstream ::
  "'p page_api \<Rightarrow> catalog \<Rightarrow> 'p db \<Rightarrow> oid \<Rightarrow> oid \<Rightarrow> 64 word \<Rightarrow> CompactedVertexEntry \<Rightarrow> item_pointer
    \<Rightarrow> store_error + 'p db" where
  "wire_upstream api cat db arraylist_oid pmap_oid owner entry new_array_tid =
     (if OidIsValid (cv_upstream_tbl entry) then
        if cat_natts cat (cv_upstream_tbl entry) = 10
        then np_update_next_pointer_inplace api db (cv_upstream_tbl entry) (cv_upstream_tid entry)
               arraylist_oid new_array_tid
        else if cat_natts cat (cv_upstream_tbl entry) = 5
        then np_update_arraylist_next_pointer_inplace api db (cv_upstream_tbl entry)
               (cv_upstream_tid entry) new_array_tid
        else Inl (Raised ''NeoPostGraph: Unknown upstream table format in compactor'')
      else update_vertex_phys_map api db pmap_oid owner arraylist_oid new_array_tid)"

definition compact_entry ::
  "'p page_api \<Rightarrow> catalog \<Rightarrow> full_xid \<Rightarrow> command_id \<Rightarrow> oid \<Rightarrow> oid \<Rightarrow> 64 word \<times> CompactedVertexEntry
    \<Rightarrow> 'p db \<Rightarrow> store_error + 'p db" where
  "compact_entry api cat fxid cid arraylist_oid pmap_oid oe db = (case oe of (owner, entry) \<Rightarrow>
     sum_bind (if ItemPointerIsValid (cv_downstream_tid entry)
               then np_merge_existing_arraylist api fxid cid db arraylist_oid (cv_downstream_tid entry)
                      (cv_adj entry)
               else Inr (InvalidItemPointer, cv_adj entry, db))
       (\<lambda>(next_array_tid, adj, db).
     sum_bind (np_insert_chunked_arraylist api fxid cid db arraylist_oid owner (np_trim_adj_list adj)
         (cv_upstream_tbl entry) (cv_upstream_tid entry) next_array_tid) (\<lambda>(new_array_tid, db).
     wire_upstream api cat db arraylist_oid pmap_oid owner entry new_array_tid)))"

fun compact_entries ::
  "'p page_api \<Rightarrow> catalog \<Rightarrow> full_xid \<Rightarrow> command_id \<Rightarrow> oid \<Rightarrow> oid \<Rightarrow> vertex_hash \<Rightarrow> 'p db
    \<Rightarrow> store_error + 'p db" where
  "compact_entries api cat fxid cid arraylist_oid pmap_oid [] db = Inr db"
| "compact_entries api cat fxid cid arraylist_oid pmap_oid (oe # hash) db =
     sum_bind (compact_entry api cat fxid cid arraylist_oid pmap_oid oe db)
       (\<lambda>db. compact_entries api cat fxid cid arraylist_oid pmap_oid hash db)"

subsection \<open>The metadata of the linked lists\<close>

text \<open>What the extension asks PostgreSQL for when it changes its catalog: updating a row of a metadata
  table (\<open>None\<close> when the row was changed meanwhile), inserting one, the next value of a sequence, and
  creating the relation of a linked list from the ids of graph, label and partition, which make up
  its name, in a namespace.\<close>

record ddl_api =
  ddl_update :: "meta_row list \<Rightarrow> meta_row \<Rightarrow> meta_row \<Rightarrow> meta_row list option"
  ddl_insert :: "meta_row list \<Rightarrow> meta_row \<Rightarrow> meta_row list"
  ddl_nextval :: "catalog \<Rightarrow> oid \<Rightarrow> 32 word \<times> catalog"
  ddl_create :: "catalog \<Rightarrow> oid \<Rightarrow> 32 word \<times> 32 word \<times> 32 word \<Rightarrow> oid \<times> catalog"

text \<open>A null column reads as \<open>false\<close>.\<close>

definition oldest_step :: "meta_row \<Rightarrow> oid \<times> 64 word \<Rightarrow> oid \<times> 64 word" where
  "oldest_step row best =
     (if mr_active row \<noteq> Some True \<and> mr_compacted row \<noteq> Some True
         \<and> sint (mr_id row) < sint (snd best)
      then (mr_tbl row, mr_id row) else best)"

definition get_oldest_inactive_linked_list :: "meta_row list \<Rightarrow> oid" where
  "get_oldest_inactive_linked_list rows =
     fst (fold oldest_step rows (InvalidOid, 0x7FFFFFFFFFFFFFFF))"

definition update_meta ::
  "ddl_api \<Rightarrow> catalog \<Rightarrow> oid \<Rightarrow> meta_row \<Rightarrow> meta_row \<Rightarrow> store_error + catalog" where
  "update_meta ddl cat meta_oid old new =
     (case ddl_update ddl (cat_meta cat meta_oid) old new of
        None \<Rightarrow> Inl (Raised ''NeoPostGraph: failed to update catalog tuple'')
      | Some rows \<Rightarrow> Inr (cat \<lparr> cat_meta := (cat_meta cat)(meta_oid := rows) \<rparr>))"

definition create_new_active_linked_list ::
  "ddl_api \<Rightarrow> catalog \<Rightarrow> 32 word \<Rightarrow> 32 word \<Rightarrow> oid \<Rightarrow> oid \<Rightarrow> oid \<Rightarrow> store_error + (oid \<times> catalog)" where
  "create_new_active_linked_list ddl cat graph_id label_id ll_seq_oid ll_meta_oid namespace_oid =
     (if \<not> OidIsValid ll_seq_oid \<or> \<not> OidIsValid ll_meta_oid
      then Inl (Raised ''Invalid linked_list_seq or linked_list_meta OID'')
      else
        let (partition_id, cat) = ddl_nextval ddl cat ll_seq_oid;
            (new_list_oid, cat) = ddl_create ddl cat namespace_oid (graph_id, label_id, partition_id)
        in if \<not> OidIsValid new_list_oid then Inl (Raised ''Failed to create linked list table'')
           else sum_bind
             (case find (\<lambda>row. mr_active row = Some True) (cat_meta cat ll_meta_oid) of
                None \<Rightarrow> Inr cat
              | Some row \<Rightarrow> update_meta ddl cat ll_meta_oid row (row \<lparr> mr_active := Some False \<rparr>))
             (\<lambda>cat. Inr (new_list_oid, cat \<lparr> cat_meta := (cat_meta cat)(ll_meta_oid :=
                ddl_insert ddl (cat_meta cat ll_meta_oid)
                  \<lparr> mr_id = scast partition_id, mr_tbl = new_list_oid, mr_active = Some True,
                    mr_compacted = Some False \<rparr>) \<rparr>)))"

definition choose_oldest_list ::
  "ddl_api \<Rightarrow> catalog \<Rightarrow> 32 word \<Rightarrow> 32 word \<Rightarrow> label_cache_data \<Rightarrow> oid \<Rightarrow> store_error + (oid \<times> catalog)" where
  "choose_oldest_list ddl cat graph_id label_id label namespace_oid =
     (let oldest_ll_oid = get_oldest_inactive_linked_list (cat_meta cat (lc_linked_list_meta label))
      in if OidIsValid oldest_ll_oid then Inr (oldest_ll_oid, cat)
         else sum_bind (create_new_active_linked_list ddl cat graph_id label_id
             (lc_linked_list_seq label) (lc_linked_list_meta label) namespace_oid) (\<lambda>(_, cat).
           let oldest_ll_oid = get_oldest_inactive_linked_list (cat_meta cat (lc_linked_list_meta label))
           in if OidIsValid oldest_ll_oid then Inr (oldest_ll_oid, cat)
              else Inl (Raised ''NeoPostGraph: Compaction failed to successfully rotate the label'')))"

definition mark_compacted :: "ddl_api \<Rightarrow> catalog \<Rightarrow> oid \<Rightarrow> oid \<Rightarrow> store_error + catalog" where
  "mark_compacted ddl cat meta_oid oldest_ll_oid =
     (case find (\<lambda>row. mr_tbl row = oldest_ll_oid) (cat_meta cat meta_oid) of
        None \<Rightarrow> Inr cat
      | Some row \<Rightarrow> update_meta ddl cat meta_oid row (row \<lparr> mr_compacted := Some True \<rparr>))"

text \<open>\<open>search_graph\<close> is the lookup of a graph's id by name and namespace.\<close>

definition compact_oldest_linked_list_table ::
  "'p page_api \<Rightarrow> ddl_api \<Rightarrow> (string \<Rightarrow> oid \<Rightarrow> 32 word option) \<Rightarrow> (vertex_hash \<Rightarrow> vertex_hash)
    \<Rightarrow> full_xid \<Rightarrow> command_id \<Rightarrow> catalog \<Rightarrow> 'p db \<Rightarrow> oid \<Rightarrow> string \<Rightarrow> 32 word
    \<Rightarrow> store_error + ('p db \<times> catalog)" where
  "compact_oldest_linked_list_table api ddl search_graph traverse fxid cid cat db namespace_oid
     graph_name label_id =
     (case search_graph graph_name namespace_oid of
        None \<Rightarrow> Inl (Raised ''NeoPostGraph: Graph not found'')
      | Some graph_id \<Rightarrow>
     (case cat_vertex_label cat graph_id label_id of
        None \<Rightarrow> Inl (Raised ''NeoPostGraph: Label not found for graph'')
      | Some label \<Rightarrow>
     sum_bind (choose_oldest_list ddl cat graph_id label_id label namespace_oid)
       (\<lambda>(oldest_ll_oid, cat).
     sum_bind (collect_items oldest_ll_oid [] (relation_items api db oldest_ll_oid)) (\<lambda>vertex_hash.
     sum_bind (compact_entries api cat fxid cid (lc_arraylist label) (lc_phys_map label)
         (traverse vertex_hash) db) (\<lambda>db.
     sum_bind (mark_compacted ddl cat (lc_linked_list_meta label) oldest_ll_oid) (\<lambda>cat.
     Inr (db, cat)))))))"

end
