(* ===== verification/Np_Compact.thy ===== *)
theory Np_Compact
  imports Np_Adj_List
begin

text \<open>
  What compaction does to adjacency lists (\<open>src/src/backend/access/np_adj_list.c\<close>): every vertex
  keeps its edges.  The lists are followed forwards: the block behind the one that compaction merges
  keeps its old pointer backwards.
\<close>

subsection \<open>Lists in memory\<close>

text \<open>Lists grow from four slots by doubling; up to 2^24 members no allocation is refused.\<close>

definition adj_list_ok :: "AdjList \<Rightarrow> bool" where
  "adj_list_ok list \<longleftrightarrow> (\<exists>k \<le> 24. al_maxitems list = 2 ^ k)
     \<and> length (al_data list) \<le> unat (al_maxitems list)"

lemma unat_pow2: "k \<le> 24 \<Longrightarrow> unat (2 ^ k :: 32 word) = 2 ^ k"
proof -
  assume "k \<le> 24"
  then have "(2::nat) ^ k \<le> 2 ^ 24" by (intro power_increasing) simp_all
  then have "(2::nat) ^ k < 2 ^ 32" by (rule le_less_trans) simp
  then show ?thesis using unat_of_nat[of "2 ^ k", where 'a = 32] by (simp add: take_bit_nat_eq_self)
qed

lemma sint_small: "unat (w :: 32 word) < 2 ^ 31 \<Longrightarrow> sint w = int (unat w)"
proof -
  assume "unat w < 2 ^ 31"
  then have "int (unat w) < int (2 ^ 31)" by (simp only: of_nat_less_iff)
  then have "uint w < 2 ^ 31" by simp
  then show ?thesis by (simp add: sint_uint signed_take_bit_int_eq_self order_trans[of _ 0])
qed

lemma sint_pow2: "k \<le> 24 \<Longrightarrow> sint (2 ^ k :: 32 word) = 2 ^ k"
proof -
  assume k: "k \<le> 24"
  then have "(2::nat) ^ k \<le> 2 ^ 24" by (intro power_increasing) simp_all
  then show ?thesis using unat_pow2[OF k] by (subst sint_small) simp_all
qed

lemma append_ok:
  assumes "adj_list_ok list" "length (al_data list) < 2 ^ 24"
  shows "\<exists>list'. np_append_adj_list list m = Inr list' \<and> adj_list_ok list'
    \<and> al_data list' = al_data list @ [m]"
proof -
  obtain k where k: "k \<le> 24" "al_maxitems list = 2 ^ k" and len: "length (al_data list) \<le> 2 ^ k"
    using assms(1) unat_pow2 by (auto simp: adj_list_ok_def)
  show ?thesis
  proof (cases "length (al_data list) < 2 ^ k")
    case True
    then have "int (length (al_data list)) < 2 ^ k"
      by (metis of_nat_less_iff of_nat_numeral of_nat_power)
    then show ?thesis using k True
      by (auto simp: np_append_adj_list_def adj_list_ok_def sint_pow2 unat_pow2)
  next
    case False
    then have eq: "length (al_data list) = 2 ^ k" using len by simp
    with assms(2) have "k < 24" by (metis nat_power_less_imp_less not_less_zero zero_less_Suc numeral_2_eq_2)
    then have k1: "Suc k \<le> 24" by simp
    have pow: "(2::int) ^ Suc k \<le> 2 ^ 24" using k1 by (intro power_increasing) simp_all
    have two: "2 ^ k * 2 = (2 ^ Suc k :: 32 word)" by simp
    have "adj_list_alloc (2 ^ Suc k) = Inr ()"
      using pow by (simp only: adj_list_alloc_def sint_pow2[OF k1] check_def) simp
    then have "np_append_adj_list list m = Inr (list \<lparr> al_maxitems := 2 ^ Suc k, al_data := al_data list @ [m] \<rparr>)"
      using eq k(1)
      by (simp add: np_append_adj_list_def k(2) two sint_pow2[OF k(1)] sint_pow2[OF k1] del: power_Suc)
    moreover have "length (al_data list @ [m]) \<le> unat (2 ^ Suc k :: 32 word)"
      using eq by (simp add: unat_pow2[OF k1] Suc_le_eq del: power_Suc)
    moreover have "\<exists>k' \<le> 24. (2 ^ Suc k :: 32 word) = 2 ^ k'" using k1 by blast
    ultimately show ?thesis by (auto simp: adj_list_ok_def simp del: power_Suc)
  qed
qed

lemma append_all_ok:
  "\<lbrakk>adj_list_ok list; length (al_data list) + length ms \<le> 2 ^ 24\<rbrakk> \<Longrightarrow>
   \<exists>list'. append_all list ms = Inr list' \<and> adj_list_ok list' \<and> al_data list' = al_data list @ ms"
proof (induction ms arbitrary: list)
  case (Cons m ms)
  obtain l1 where "np_append_adj_list list m = Inr l1" "adj_list_ok l1" "al_data l1 = al_data list @ [m]"
    using append_ok[of list m] Cons.prems by auto
  moreover from this obtain l2 where "append_all l1 ms = Inr l2" "adj_list_ok l2" "al_data l2 = al_data l1 @ ms"
    using Cons.IH[of l1] Cons.prems by auto
  ultimately show ?case by simp
qed simp

lemma new_list_ok: "adj_list_ok (np_init_adj_list 4)" "al_data (np_init_adj_list 4) = []"
  by (auto simp: adj_list_ok_def np_init_adj_list_def intro!: exI[of _ 2])

text \<open>A chunk is allocated with all its slots.\<close>

lemma append_all_room:
  "length (al_data list) + length ms \<le> unat (al_maxitems list) \<Longrightarrow> unat (al_maxitems list) < 2 ^ 31 \<Longrightarrow>
   append_all list ms = Inr (list \<lparr> al_data := al_data list @ ms \<rparr>)"
proof (induction ms arbitrary: list)
  case (Cons m ms)
  have "int (length (al_data list)) < sint (al_maxitems list)"
    using Cons.prems by (simp only: sint_small of_nat_less_iff) simp
  then have "np_append_adj_list list m = Inr (list \<lparr> al_data := al_data list @ [m] \<rparr>)"
    by (simp add: np_append_adj_list_def)
  then show ?case using Cons by simp
qed simp

lemma max_edges: "MAX_EDGES_PER_BLOCK = 155"
  by (simp add: MAX_EDGES_PER_BLOCK_def SizeOfNeoArrayListRecord_def SizeOfAdjListMember_def)

definition chunk_members :: "AdjListMember list \<Rightarrow> nat \<Rightarrow> AdjListMember list" where
  "chunk_members ms i = take MAX_EDGES_PER_BLOCK (drop (i * MAX_EDGES_PER_BLOCK) ms)"

lemma chunk_of_eq:
  "chunk_of adj i = Inr \<lparr> al_maxitems = of_nat (length (chunk_members (al_data adj) i)),
     al_data = chunk_members (al_data adj) i \<rparr>"
proof -
  let ?M = MAX_EDGES_PER_BLOCK and ?ms = "al_data adj"
  define e where "e = min ?M (length ?ms - i * ?M)"
  have e: "length (chunk_members ?ms i) = e" by (simp add: chunk_members_def e_def)
  have small: "e \<le> 155" by (simp add: e_def max_edges)
  then have cap: "unat (of_nat e :: 32 word) = e" by (simp add: unat_of_nat)
  have members: "map (\<lambda>j. ?ms ! (i * ?M + j)) [0..<e] = chunk_members ?ms i"
    by (rule nth_equalityI) (auto simp: chunk_members_def e_def)
  have "append_all (np_init_adj_list (of_nat e)) (chunk_members ?ms i) =
      Inr (np_init_adj_list (of_nat e) \<lparr> al_data := chunk_members ?ms i \<rparr>)"
    using small cap e by (subst append_all_room) (simp_all add: np_init_adj_list_def)
  then show ?thesis using e
    by (simp add: chunk_of_def Let_def members np_trim_adj_list_def np_init_adj_list_def flip: e_def)
qed

lemma chunk_members_fit: "length (chunk_members ms i) \<le> 155"
  by (simp add: chunk_members_def max_edges)

lemma chunk_members_drop:
  "chunk_members ms i @ drop (Suc i * MAX_EDGES_PER_BLOCK) ms = drop (i * MAX_EDGES_PER_BLOCK) ms"
proof -
  have "drop (Suc i * MAX_EDGES_PER_BLOCK) ms = drop MAX_EDGES_PER_BLOCK (drop (i * MAX_EDGES_PER_BLOCK) ms)"
    by (simp add: add.commute)
  then show ?thesis by (simp only: chunk_members_def append_take_drop_id)
qed

subsection \<open>Following a list forwards\<close>

text \<open>\<open>path F c as q\<close>: from \<open>c\<close> on the next pointers visit \<open>as\<close> and then lead to \<open>q\<close>.\<close>

fun path :: "(address \<Rightarrow> item option) \<Rightarrow> address \<Rightarrow> address list \<Rightarrow> address \<Rightarrow> bool" where
  "path F c [] q \<longleftrightarrow> c = q"
| "path F c (a # as) q \<longleftrightarrow> a = c \<and> ItemPointerIsValid (snd c) \<and> OidIsValid (fst c)
     \<and> (\<exists>x p n. F c = Some x \<and> links (fst c) x = Some (p, n) \<and> path F n as q)"

lemma path_append: "path F c (as @ bs) q \<longleftrightarrow> (\<exists>d. path F c as d \<and> path F d bs q)"
  by (induction as arbitrary: c) (simp, fastforce)

lemma path_frame: "(\<And>a. a \<in> set as \<Longrightarrow> F' a = F a) \<Longrightarrow> path F' c as q = path F c as q"
proof (induction as arbitrary: c)
  case (Cons a as)
  then have "path F' n as q = path F n as q" for n by simp
  moreover have "F' a = F a" using Cons.prems by simp
  ultimately show ?case by (cases "a = c") simp_all
qed simp

lemma path_in_use: "path F c as q \<Longrightarrow> a \<in> set as \<Longrightarrow> \<exists>x. F a = Some x \<and> links (fst a) x \<noteq> None"
  by (induction as arbitrary: c) fastforce+

text \<open>The members along a list, with the versions of the edges.\<close>

fun item_members :: "item option \<Rightarrow> AdjListMember list" where
  "item_members (Some (Linked r)) = [member_of_record r]"
| "item_members (Some (ArrayBlock b)) = al_data (ar_adj_list b)"
| "item_members _ = []"

definition chain_members :: "(address \<Rightarrow> item option) \<Rightarrow> address list \<Rightarrow> AdjListMember list" where
  "chain_members F as = concat (map (\<lambda>a. item_members (F a)) as)"

lemma chain_members_append: "chain_members F (as @ bs) = chain_members F as @ chain_members F bs"
  by (simp add: chain_members_def)

lemma chain_members_frame:
  "(\<And>a. a \<in> set as \<Longrightarrow> item_members (F' a) = item_members (F a)) \<Longrightarrow> chain_members F' as = chain_members F as"
  by (simp add: chain_members_def cong: map_cong)

lemma chain_edges_members: "chain_edges F as = map half_of_member (chain_members F as)"
proof -
  have "item_edges x = map half_of_member (item_members x)" for x
    by (cases x rule: item_members.cases)
      (simp_all add: half_of_linked_def half_of_member_def member_of_record_def)
  then show ?thesis by (simp add: chain_edges_def chain_members_def map_concat comp_def)
qed

text \<open>A chain is a path on which every record also points back.\<close>

fun chain_path :: "(address \<Rightarrow> item option) \<Rightarrow> address \<Rightarrow> address \<Rightarrow> address list \<Rightarrow> address \<Rightarrow> bool" where
  "chain_path F p c [] q \<longleftrightarrow> c = q"
| "chain_path F p c (a # as) q \<longleftrightarrow> a = c \<and> ItemPointerIsValid (snd c) \<and> OidIsValid (fst c)
     \<and> (\<exists>x n. F c = Some x \<and> links (fst c) x = Some (p, n) \<and> chain_path F c n as q)"

lemma chain_path_path: "chain_path F p c as q \<Longrightarrow> path F c as q"
  by (induction as arbitrary: p c) fastforce+

lemma chain_path_chain:
  "chain F p c as \<longleftrightarrow> (\<exists>q. chain_path F p c as q \<and> \<not> ItemPointerIsValid (snd q))"
  by (induction F p c as rule: chain.induct) (auto split: option.splits prod.splits)

lemma chain_path_append:
  "chain_path F p c (as @ bs) q \<longleftrightarrow>
     (\<exists>d. chain_path F p c as d \<and> chain_path F (if as = [] then p else last as) d bs q)"
proof (induction as arbitrary: p c)
  case (Cons a as)
  show ?case by (cases "as = []") (auto simp: Cons.IH, blast+)
qed simp


lemma chain_path_frame: "(\<And>a. a \<in> set as \<Longrightarrow> F' a = F a) \<Longrightarrow> chain_path F' p c as q = chain_path F p c as q"
proof (induction as arbitrary: p c)
  case (Cons a as)
  then have "chain_path F' c n as q = chain_path F c n as q" for n by simp
  moreover have "F' a = F a" using Cons.prems by simp
  ultimately show ?case by (cases "a = c") simp_all
qed simp

text \<open>Redirecting the last record of a chain.\<close>

lemma chain_path_redirect:
  assumes "chain_path F p c (as @ [a]) q" "F a = Some (Linked r)" "a \<notin> set as"
    "F' a = Some (Linked (r \<lparr> ll_next_tbl := fst n, ll_next_itemptr := snd n \<rparr>))"
    "\<And>b. b \<in> set as \<Longrightarrow> F' b = F b"
  shows "chain_path F' p c (as @ [a]) n"
proof -
  obtain d where d: "chain_path F p c as d" and "chain_path F (if as = [] then p else last as) d [a] q"
    using assms(1) by (auto simp: chain_path_append)
  with assms(2,4) have "chain_path F' (if as = [] then p else last as) d [a] n" by (cases n) auto
  moreover have "chain_path F' p c as d" using d chain_path_frame[of as F' F] assms(5) by blast
  ultimately show ?thesis unfolding chain_path_append by blast
qed

subsection \<open>Inserting the blocks\<close>

definition valid_or_invalid :: "item_pointer \<Rightarrow> item_pointer" where
  "valid_or_invalid tid = (if ItemPointerIsValid tid then tid else InvalidItemPointer)"

definition array_block ::
  "full_xid \<Rightarrow> command_id \<Rightarrow> 64 word \<Rightarrow> AdjList \<Rightarrow> oid \<Rightarrow> item_pointer \<Rightarrow> item_pointer \<Rightarrow> NeoArrayListRecord" where
  "array_block fxid cid vertex_id adj prev_tbl prev_tid next_tid =
     \<lparr> mv_xmin = fxid, mv_xmax = InvalidFullTransactionId, mv_cmin = cid, mv_cmax = InvalidCommandId,
       ar_flags = 0, ar_owner_id = vertex_id, ar_prev_tbl = prev_tbl,
       ar_prev_itemptr = valid_or_invalid prev_tid, ar_next_itemptr = valid_or_invalid next_tid,
       ar_adj_list = adj \<rparr>"

lemma np_insert_arraylist_block_eq:
  "np_insert_arraylist_block api fxid cid db rel vertex_id adj prev_tbl prev_tid next_tid =
     np_write_record_to_page api db rel
       (ArrayBlock (array_block fxid cid vertex_id adj prev_tbl prev_tid next_tid))"
  by (simp add: np_insert_arraylist_block_def nparraylist_tableam_tuple_insert_def array_block_def
      valid_or_invalid_def itemptr_or_invalid_def nullable_itemptr_def OidIsValid_def)

lemma block_fits:
  "length (al_data adj) \<le> 155 \<Longrightarrow>
   item_fits (ArrayBlock (array_block fxid cid v adj pt p n))"
proof -
  assume "length (al_data adj) \<le> 155"
  then have "maxalign (item_size (ArrayBlock (array_block fxid cid v adj pt p n))) \<le> maxalign 8124"
    by (intro maxalign_mono)
      (simp add: array_block_def SizeOfNeoArrayListRecord_def SizeOfAdjListMember_def)
  then show ?thesis by (simp add: item_fits_def maxalign_def)
qed

definition keeps_size :: "(item \<Rightarrow> item option) \<Rightarrow> bool" where
  "keeps_size f \<longleftrightarrow> (\<forall>x y. f x = Some y \<longrightarrow> item_size y = item_size x)"

lemma modify_at:
  assumes "store_ok api db" "fetch_item api db (rel, tid) = Some x" "f x = Some y" "keeps_size f"
  shows "\<exists>db'. modify_item api f db rel tid = Inr db' \<and> store_ok api db'
    \<and> fetch_item api db' = (fetch_item api db)((rel, tid) \<mapsto> y)
    \<and> (\<forall>rel'. length (db' rel') = length (db rel'))"
proof -
  obtain db' where m: "modify_item api f db rel tid = Inr db'"
    using np.modify_total[where f = f, OF assms(2,3)] by blast
  moreover have "\<exists>x y. fetch_item api db (rel, tid) = Some x \<and> f x = Some y
      \<and> fetch_item api db' = (fetch_item api db)((rel, tid) \<mapsto> y)"
    using np.modify_fetch[OF assms(1) m] assms(4) unfolding keeps_size_def by blast
  ultimately show ?thesis
    using np.modify_ok[OF assms(1) m] assms modify_item_length[OF m] by (auto simp: keeps_size_def)
qed

lemma write_at:
  assumes "store_ok api db" "item_fits x" "has_room db rel"
  shows "\<exists>tid db'. np_write_record_to_page api db rel x = Inr (tid, db') \<and> store_ok api db'
    \<and> ItemPointerIsValid tid \<and> fetch_item api db (rel, tid) = None
    \<and> fetch_item api db' = (fetch_item api db)((rel, tid) \<mapsto> x)
    \<and> (\<forall>rel'. length (db' rel') \<le> Suc (length (db rel')))"
proof -
  obtain tid db' where st: "np_write_record_to_page api db rel x = Inr (tid, db')"
    using np.store_total[OF assms] by (metis prod.exhaust)
  then show ?thesis
    using np.store_ok[OF assms(1) st] np.store_valid[OF assms(1) st] np.store_fresh[OF assms(1) st]
      np.store_fetch[OF assms(1) st] np_write_length[OF _ st] assms(1)
    by (auto simp: store_ok_def)
qed

lemma change_size:
  "keeps_size (end_block fxid cid)" "keeps_size (set_linked_next tbl tid)"
  "keeps_size (set_array_next tid)"
  by (auto simp: keeps_size_def end_block_def set_linked_next_def set_array_next_def split: item.splits)

lemma change_block:
  "end_block fxid cid (ArrayBlock b) = Some (ArrayBlock (b \<lparr> mv_xmax := fxid, mv_cmax := cid \<rparr>))"
  "set_linked_next tbl tid (Linked r) =
     Some (Linked (r \<lparr> ll_next_tbl := tbl, ll_next_itemptr := tid \<rparr>))"
  "set_array_next tid (ArrayBlock b) = Some (ArrayBlock (b \<lparr> ar_next_itemptr := tid \<rparr>))"
  by (simp_all add: end_block_def set_linked_next_def set_array_next_def)

text \<open>The rounds after the first, where the block before is in the store.\<close>

definition chunks_added ::
  "(address \<Rightarrow> item option) \<Rightarrow> (address \<Rightarrow> item option) \<Rightarrow> oid \<Rightarrow> item_pointer \<Rightarrow> NeoArrayListRecord
    \<Rightarrow> item_pointer \<Rightarrow> AdjListMember list \<Rightarrow> address list \<Rightarrow> bool" where
  "chunks_added F F' A p b down ms ns \<longleftrightarrow> distinct ns
     \<and> (\<forall>a \<in> set ns. fst a = A \<and> F a = None \<and> (\<exists>r. F' a = Some (ArrayBlock r)))
     \<and> F' (A, p) = Some (ArrayBlock (if ns = [] then b else b \<lparr> ar_next_itemptr := snd (hd ns) \<rparr>))
     \<and> (\<forall>a. a \<notin> set ns \<longrightarrow> a \<noteq> (A, p) \<longrightarrow> F' a = F a)
     \<and> (ns \<noteq> [] \<longrightarrow> path F' (hd ns) ns (A, valid_or_invalid down))
     \<and> chain_members F' ns = ms"

lemma chunks_addedD:
  assumes "chunks_added F F' A p b down ms ns"
  shows "distinct ns"
    "\<forall>a \<in> set ns. fst a = A \<and> F a = None \<and> (\<exists>r. F' a = Some (ArrayBlock r))"
    "F' (A, p) = Some (ArrayBlock (if ns = [] then b else b \<lparr> ar_next_itemptr := snd (hd ns) \<rparr>))"
    "\<forall>a. a \<notin> set ns \<longrightarrow> a \<noteq> (A, p) \<longrightarrow> F' a = F a"
    "ns \<noteq> [] \<longrightarrow> path F' (hd ns) ns (A, valid_or_invalid down)"
    "chain_members F' ns = ms"
  by (insert assms[unfolded chunks_added_def], (elim conjE, assumption)+)

lemma insert_chunks_rest:
  assumes "store_ok api db" "OidIsValid A" "fetch_item api db (A, p) = Some (ArrayBlock b)"
    "n < chunks" "length (db A) + n \<le> 0xFFFFFFFF" "length (al_data adj) \<le> chunks * MAX_EDGES_PER_BLOCK"
  shows "\<exists>db' ns. insert_chunks n api fxid cid A v adj chunks down A p first db = Inr (first, db')
    \<and> store_ok api db' \<and> length ns = n
    \<and> chunks_added (fetch_item api db) (fetch_item api db') A p b down
        (drop ((chunks - n) * MAX_EDGES_PER_BLOCK) (al_data adj)) ns
    \<and> (\<forall>rel. length (db' rel) \<le> length (db rel) + n)"
  using assms
proof (induction n arbitrary: db p b)
  case 0
  then show ?case by (simp add: chunks_added_def chain_members_def)
next
  case (Suc n)
  define i where "i = chunks - Suc n"
  have i: "i \<noteq> 0" "chunks - n = Suc i" "i = chunks - 1 \<longleftrightarrow> n = 0" using Suc.prems(4) by (auto simp: i_def)
  define chunk where "chunk = \<lparr> al_maxitems = of_nat (length (chunk_members (al_data adj) i)),
    al_data = chunk_members (al_data adj) i \<rparr>"
  define next_tid where "next_tid = (if n = 0 then down else InvalidItemPointer)"
  define blk where "blk = array_block fxid cid v chunk A p next_tid"
  have fits: "item_fits (ArrayBlock blk)"
    unfolding blk_def by (intro block_fits) (simp add: chunk_def chunk_members_fit)
  have room: "has_room db A" using Suc.prems(5) by (simp add: has_room_def)
  obtain t db1 where st: "np_write_record_to_page api db A (ArrayBlock blk) = Inr (t, db1)"
    and ok1: "store_ok api db1" and t: "ItemPointerIsValid t" "fetch_item api db (A, t) = None"
    and f1: "fetch_item api db1 = (fetch_item api db)((A, t) \<mapsto> ArrayBlock blk)"
    and len1: "\<And>rel. length (db1 rel) \<le> Suc (length (db rel))"
    using write_at[OF Suc.prems(1) fits room] by blast
  have ne: "p \<noteq> t" using t(2) Suc.prems(3) by auto
  have at: "fetch_item api db1 (A, p) = Some (ArrayBlock b)" using Suc.prems(3) ne by (simp add: f1)
  obtain db2 where m: "modify_item api (set_array_next t) db1 A p = Inr db2" and ok2: "store_ok api db2"
    and f2: "fetch_item api db2 = (fetch_item api db1)((A, p) \<mapsto> ArrayBlock (b \<lparr> ar_next_itemptr := t \<rparr>))"
    and len2: "\<And>rel. length (db2 rel) = length (db1 rel)"
    using modify_at[where f = "set_array_next t", OF ok1 at change_block(3) change_size(3)] by blast
  have b2: "fetch_item api db2 (A, t) = Some (ArrayBlock blk)" using ne by (simp add: f2 f1)
  have pre: "n < chunks" "length (db2 A) + n \<le> 0xFFFFFFFF"
    using Suc.prems(4,5) len1[of A] by (simp_all add: len2)
  obtain db3 ns where run: "insert_chunks n api fxid cid A v adj chunks down A t first db2 = Inr (first, db3)"
    and ok3: "store_ok api db3" and ns: "length ns = n"
    and added: "chunks_added (fetch_item api db2) (fetch_item api db3) A t blk down
        (drop (Suc i * MAX_EDGES_PER_BLOCK) (al_data adj)) ns"
    and len3: "\<And>rel. length (db3 rel) \<le> length (db2 rel) + n"
    using Suc.IH[OF ok2 Suc.prems(2) b2 pre Suc.prems(6)] unfolding i(2) by blast
  note dist = chunks_addedD(1)[OF added] and new = chunks_addedD(2)[OF added, rule_format]
    and b3 = chunks_addedD(3)[OF added] and frame = chunks_addedD(4)[OF added, rule_format]
    and path = chunks_addedD(5)[OF added, rule_format] and edges = chunks_addedD(6)[OF added]
  have "insert_chunks (Suc n) api fxid cid A v adj chunks down A p first db = Inr (first, db3)"
    unfolding insert_chunks.simps Let_def i_def[symmetric] chunk_of_eq chunk_def[symmetric]
      sum_bind.simps np_insert_arraylist_block_eq i(3) next_tid_def[symmetric] blk_def[symmetric] st
      np_update_arraylist_next_pointer_inplace_def
    using i(1) m run by simp
  moreover have out: "(A, t) \<notin> set ns" "(A, p) \<notin> set ns" 
    using new[of "(A, t)"] new[of "(A, p)"] b2 by (auto simp: f2)
  moreover have "chunks_added (fetch_item api db) (fetch_item api db3) A p b down
      (drop (i * MAX_EDGES_PER_BLOCK) (al_data adj)) ((A, t) # ns)"
    unfolding chunks_added_def
  proof (intro conjI)
    show "distinct ((A, t) # ns)" using out dist by simp
    show "\<forall>a \<in> set ((A, t) # ns). fst a = A \<and> fetch_item api db a = None
        \<and> (\<exists>r. fetch_item api db3 a = Some (ArrayBlock r))"
    proof
      fix a assume a: "a \<in> set ((A, t) # ns)"
      show "fst a = A \<and> fetch_item api db a = None \<and> (\<exists>r. fetch_item api db3 a = Some (ArrayBlock r))"
      proof (cases "a = (A, t)")
        case True
        then show ?thesis using t b3 by simp
      next
        case False
        then have "a \<in> set ns" using a by simp
        from new[OF this] show ?thesis by (auto simp: f2 f1 split: if_splits)
      qed
    qed
    show "fetch_item api db3 (A, p) = Some (ArrayBlock
        (if (A, t) # ns = [] then b else b \<lparr> ar_next_itemptr := snd (hd ((A, t) # ns)) \<rparr>))"
      using frame[of "(A, p)"] out(2) ne by (simp add: f2)
    show "\<forall>a. a \<notin> set ((A, t) # ns) \<longrightarrow> a \<noteq> (A, p) \<longrightarrow> fetch_item api db3 a = fetch_item api db a"
      using frame by (auto simp: f2 f1)
    have "path (fetch_item api db3) (A, t) ((A, t) # ns) (A, valid_or_invalid down)"
    proof (cases ns)
      case Nil
      then show ?thesis using b3 t Suc.prems(2) ns by (simp add: blk_def array_block_def next_tid_def)
    next
      case (Cons a rest)
      moreover have "fst a = A" using new Cons by simp
      ultimately show ?thesis using b3 t Suc.prems(2) path by (cases a) simp
    qed
    then show "(A, t) # ns \<noteq> [] \<longrightarrow>
        path (fetch_item api db3) (hd ((A, t) # ns)) ((A, t) # ns) (A, valid_or_invalid down)" by simp
    have "item_members (fetch_item api db3 (A, t)) = chunk_members (al_data adj) i"
      using b3 by (simp add: blk_def array_block_def chunk_def)
    then show "chain_members (fetch_item api db3) ((A, t) # ns) =
        drop (i * MAX_EDGES_PER_BLOCK) (al_data adj)"
      unfolding chunk_members_drop[of "al_data adj" i, symmetric] edges[symmetric]
      by (simp add: chain_members_def)
  qed
  moreover have "length (db3 rel) \<le> length (db rel) + Suc n" for rel
    using len3[of rel] len2[of rel] len1[of rel] by simp
  ultimately show ?case using ok3 ns
    unfolding i_def[symmetric] by (intro exI[of _ db3] exI[of _ "(A, t) # ns"]) simp
qed

lemma number_of_chunks:
  fixes n :: nat
  assumes "0 < n"
  defines "q \<equiv> (n + MAX_EDGES_PER_BLOCK - 1) div MAX_EDGES_PER_BLOCK"
  shows "0 < q" "q \<le> n" "n \<le> q * MAX_EDGES_PER_BLOCK"
proof -
  have "q = (n + 154) div 155" by (simp add: q_def max_edges add.commute)
  then have "n + 154 = 155 * q + (n + 154) mod 155"
    using mult_div_mod_eq[of 155 "n + 154"] by simp
  moreover have "(n + 154) mod 155 < 155" by simp
  ultimately show "0 < q" "q \<le> n" "n \<le> q * MAX_EDGES_PER_BLOCK"
    using assms(1) unfolding max_edges by linarith+
qed

definition blocks_added ::
  "(address \<Rightarrow> item option) \<Rightarrow> (address \<Rightarrow> item option) \<Rightarrow> oid \<Rightarrow> item_pointer
    \<Rightarrow> AdjListMember list \<Rightarrow> address list \<Rightarrow> bool" where
  "blocks_added F F' A down ms ns \<longleftrightarrow> ns \<noteq> [] \<and> distinct ns
     \<and> (\<forall>a \<in> set ns. fst a = A \<and> F a = None \<and> (\<exists>r. F' a = Some (ArrayBlock r)))
     \<and> (\<forall>a. a \<notin> set ns \<longrightarrow> F' a = F a)
     \<and> path F' (hd ns) ns (A, valid_or_invalid down) \<and> chain_members F' ns = ms"

lemma blocks_addedD:
  assumes "blocks_added F F' A down ms ns"
  shows "ns \<noteq> []" "distinct ns"
    "\<forall>a \<in> set ns. fst a = A \<and> F a = None \<and> (\<exists>r. F' a = Some (ArrayBlock r))"
    "\<forall>a. a \<notin> set ns \<longrightarrow> F' a = F a"
    "path F' (hd ns) ns (A, valid_or_invalid down)" "chain_members F' ns = ms"
  by (insert assms[unfolded blocks_added_def], (elim conjE, assumption)+)

lemma insert_chunked:
  assumes "store_ok api db" "OidIsValid A" "al_data adj \<noteq> []"
    "length (db A) + length (al_data adj) \<le> 0xFFFFFFFF"
  shows "\<exists>db' first ns. np_insert_chunked_arraylist api fxid cid db A v adj pt pp down = Inr (first, db')
    \<and> store_ok api db' \<and> hd ns = (A, first)
    \<and> blocks_added (fetch_item api db) (fetch_item api db') A down (al_data adj) ns
    \<and> (\<forall>rel. length (db' rel) \<le> length (db rel) + length (al_data adj))"
proof -
  define ms where "ms = al_data adj"
  define chunks where "chunks = (length ms + MAX_EDGES_PER_BLOCK - 1) div MAX_EDGES_PER_BLOCK"
  have len: "0 < length ms" using assms(3) by (simp add: ms_def)
  have "0 < chunks" "chunks \<le> length ms" "length ms \<le> chunks * MAX_EDGES_PER_BLOCK"
    using number_of_chunks[OF len] by (simp_all add: chunks_def)
  then obtain n where n: "chunks = Suc n" "Suc n \<le> length ms" "length ms \<le> Suc n * MAX_EDGES_PER_BLOCK"
    by (cases chunks) auto
  define chunk where "chunk = \<lparr> al_maxitems = of_nat (length (chunk_members ms 0)),
    al_data = chunk_members ms 0 \<rparr>"
  define next_tid where "next_tid = (if n = 0 then down else InvalidItemPointer)"
  define blk where "blk = array_block fxid cid v chunk pt pp next_tid"
  have fits: "item_fits (ArrayBlock blk)"
    unfolding blk_def by (intro block_fits) (simp add: chunk_def chunk_members_fit)
  have room: "has_room db A" using assms(4) len unfolding has_room_def ms_def by linarith
  obtain t db1 where st: "np_write_record_to_page api db A (ArrayBlock blk) = Inr (t, db1)"
    and ok1: "store_ok api db1" and t: "ItemPointerIsValid t" "fetch_item api db (A, t) = None"
    and f1: "fetch_item api db1 = (fetch_item api db)((A, t) \<mapsto> ArrayBlock blk)"
    and len1: "\<And>rel. length (db1 rel) \<le> Suc (length (db rel))"
    using write_at[OF assms(1) fits room] by blast
  have b1: "fetch_item api db1 (A, t) = Some (ArrayBlock blk)" by (simp add: f1)
  have pre: "n < chunks" "length (db1 A) + n \<le> 0xFFFFFFFF" "length (al_data adj) \<le> chunks * MAX_EDGES_PER_BLOCK"
    using n assms(4) len1[of A] by (simp_all add: ms_def)
  obtain db2 ns where run: "insert_chunks n api fxid cid A v adj chunks down A t t db1 = Inr (t, db2)"
    and ok2: "store_ok api db2" and ns: "length ns = n"
    and added: "chunks_added (fetch_item api db1) (fetch_item api db2) A t blk down
        (drop (Suc 0 * MAX_EDGES_PER_BLOCK) ms) ns"
    and len2: "\<And>rel. length (db2 rel) \<le> length (db1 rel) + n"
    using insert_chunks_rest[OF ok1 assms(2) b1 pre, of fxid cid v down t]
    unfolding n(1) by (simp add: ms_def) blast
  note added = chunks_addedD[OF added]
  have i: "chunks - Suc n = 0" "(0 = chunks - 1) = (n = 0)" by (simp_all add: n(1))
  have "insert_chunks (Suc n) api fxid cid A v adj chunks down pt pp InvalidItemPointer db = Inr (t, db2)"
    unfolding insert_chunks.simps Let_def i chunk_of_eq ms_def[symmetric] chunk_def[symmetric]
      sum_bind.simps np_insert_arraylist_block_eq next_tid_def[symmetric] blk_def[symmetric] st
    using run by simp
  then have "np_insert_chunked_arraylist api fxid cid db A v adj pt pp down = Inr (t, db2)"
    using len unfolding np_insert_chunked_arraylist_def Let_def ms_def[symmetric] chunks_def[symmetric]
    by (simp add: n(1))
  moreover have "blocks_added (fetch_item api db) (fetch_item api db2) A down ms ((A, t) # ns)"
    unfolding blocks_added_def
  proof (intro conjI)
    have new: "(A, t) \<notin> set ns" using added(2) b1 by fastforce
    show "distinct ((A, t) # ns)" using new added(1) by simp
    show "\<forall>a \<in> set ((A, t) # ns). fst a = A \<and> fetch_item api db a = None
        \<and> (\<exists>r. fetch_item api db2 a = Some (ArrayBlock r))"
      using added(2,3) t new by (auto simp: f1 split: if_splits)
    show "\<forall>a. a \<notin> set ((A, t) # ns) \<longrightarrow> fetch_item api db2 a = fetch_item api db a"
      using added(4) by (auto simp: f1)
    show "path (fetch_item api db2) (hd ((A, t) # ns)) ((A, t) # ns) (A, valid_or_invalid down)"
    proof (cases ns)
      case Nil
      then show ?thesis using added(3) t assms(2) ns by (simp add: blk_def array_block_def next_tid_def)
    next
      case (Cons a rest)
      moreover have "fst a = A" using added(2) Cons by simp
      ultimately show ?thesis using added(3,5) t assms(2) by (cases a) simp
    qed
    have "item_members (fetch_item api db2 (A, t)) = chunk_members ms 0"
      using added(3) by (simp add: blk_def array_block_def chunk_def)
    then have "chain_members (fetch_item api db2) ((A, t) # ns) =
        drop (0 * MAX_EDGES_PER_BLOCK) ms"
      unfolding chunk_members_drop[of ms 0, symmetric] added(6)[symmetric]
      by (simp add: chain_members_def)
    then show "chain_members (fetch_item api db2) ((A, t) # ns) = ms" by simp
  qed simp
  moreover have "length (db2 rel) \<le> length (db rel) + length ms" for rel
    using len2[of rel] len1[of rel] n(2) by simp
  ultimately show ?thesis using ok2 unfolding ms_def
    by (intro exI[of _ db2] exI[of _ t] exI[of _ "(A, t) # ns"]) simp
qed

subsection \<open>Merging the block behind\<close>

lemma merge_existing:
  assumes "store_ok api db" "ItemPointerIsValid t" "fetch_item api db (A, t) = Some (ArrayBlock b)"
    "adj_list_ok adj" "length (al_data adj) + length (al_data (ar_adj_list b)) \<le> 2 ^ 24"
  shows "\<exists>db' adj'. np_merge_existing_arraylist api fxid cid db A t adj = Inr (ar_next_itemptr b, adj', db')
    \<and> store_ok api db' \<and> al_data adj' = al_data adj @ al_data (ar_adj_list b)
    \<and> fetch_item api db' =
        (fetch_item api db)((A, t) \<mapsto> ArrayBlock (b \<lparr> mv_xmax := fxid, mv_cmax := cid \<rparr>))
    \<and> (\<forall>rel. length (db' rel) = length (db rel))"
proof -
  obtain adj' where adj': "append_all adj (al_data (ar_adj_list b)) = Inr adj'"
    "al_data adj' = al_data adj @ al_data (ar_adj_list b)"
    using append_all_ok[OF assms(4,5)] by blast
  obtain db' where "modify_item api (end_block fxid cid) db A t = Inr db'"
    "store_ok api db'" "fetch_item api db' =
        (fetch_item api db)((A, t) \<mapsto> ArrayBlock (b \<lparr> mv_xmax := fxid, mv_cmax := cid \<rparr>))"
    "\<And>rel. length (db' rel) = length (db rel)"
    using modify_at[where f = "end_block fxid cid", OF assms(1,3) change_block(1) change_size(1)] by blast
  then show ?thesis using adj' assms(2) read_item_fetch[OF assms(3)]
    by (auto simp: np_merge_existing_arraylist_def delete_arraylist_record_def)
qed

text \<open>The array blocks of a list, from an address on.\<close>

definition block_list :: "(address \<Rightarrow> item option) \<Rightarrow> oid \<Rightarrow> address \<Rightarrow> address list \<Rightarrow> bool" where
  "block_list F A d ds \<longleftrightarrow> (\<exists>q. path F d ds q \<and> \<not> ItemPointerIsValid (snd q)) \<and> distinct ds
     \<and> (\<forall>a \<in> set ds. fst a = A \<and> (\<exists>b. F a = Some (ArrayBlock b)))"

lemma block_list_frame:
  "block_list F A d ds \<Longrightarrow> (\<And>a. a \<in> set ds \<Longrightarrow> F' a = F a) \<Longrightarrow> block_list F' A d ds"
  using path_frame[of ds F' F] by (simp add: block_list_def)

lemma block_list_Cons:
  assumes "block_list F A d (a # ds)"
  obtains b where "F a = Some (ArrayBlock b)" "a = d" "fst a = A"
    "block_list F A (A, valid_or_invalid (ar_next_itemptr b)) ds" "a \<notin> set ds"
proof -
  obtain q b where q: "path F d (a # ds) q" "\<not> ItemPointerIsValid (snd q)"
    and b: "F a = Some (ArrayBlock b)" "fst a = A" and dist: "distinct (a # ds)"
    and rest: "\<forall>a \<in> set ds. fst a = A \<and> (\<exists>b. F a = Some (ArrayBlock b))"
    using assms unfolding block_list_def by auto
  then have p: "path F (A, ar_next_itemptr b) ds q" by auto
  have "\<exists>q. path F (A, valid_or_invalid (ar_next_itemptr b)) ds q \<and> \<not> ItemPointerIsValid (snd q)"
  proof (cases ds)
    case Nil
    then show ?thesis using p q(2) by (auto simp: valid_or_invalid_def)
  next
    case (Cons a' rest)
    then have "valid_or_invalid (ar_next_itemptr b) = ar_next_itemptr b"
      using p by (simp add: valid_or_invalid_def)
    then show ?thesis using p q(2) by metis
  qed
  then show ?thesis using that b q(1) dist rest by (auto simp: block_list_def)
qed

lemma merge_phase:
  assumes "store_ok api db" "block_list (fetch_item api db) A d ds" "adj_list_ok adj"
    "ItemPointerIsValid t \<longleftrightarrow> ds \<noteq> []" "ds \<noteq> [] \<longrightarrow> hd ds = (A, t)"
    "length (al_data adj) + length (chain_members (fetch_item api db) (take 1 ds)) \<le> 2 ^ 24"
  shows "\<exists>db' next_tid adj'. (if ItemPointerIsValid t then np_merge_existing_arraylist api fxid cid db A t adj
        else Inr (InvalidItemPointer, adj, db)) = Inr (next_tid, adj', db')
    \<and> store_ok api db'
    \<and> al_data adj' =
        al_data adj @ chain_members (fetch_item api db) (take 1 ds)
    \<and> block_list (fetch_item api db') A (A, valid_or_invalid next_tid) (tl ds)
    \<and> (\<forall>a. a \<notin> set (take 1 ds) \<longrightarrow> fetch_item api db' a = fetch_item api db a)
    \<and> (\<forall>a. fetch_item api db' a = None \<longrightarrow> fetch_item api db a = None)
    \<and> (\<forall>rel. length (db' rel) = length (db rel))"
proof (cases ds)
  case Nil
  then show ?thesis using assms
    by (simp add: chain_members_def block_list_def valid_or_invalid_def)
next
  case (Cons a rest)
  obtain b where b: "fetch_item api db a = Some (ArrayBlock b)" "a = (A, t)" "a \<notin> set rest"
    "block_list (fetch_item api db) A (A, valid_or_invalid (ar_next_itemptr b)) rest"
    using block_list_Cons[of "fetch_item api db" A d a rest] assms(2,5) Cons by auto
  have len: "length (al_data adj) + length (al_data (ar_adj_list b)) \<le> 2 ^ 24"
    using assms(6) b(1) Cons by (simp add: chain_members_def)
  obtain db' adj' where m: "np_merge_existing_arraylist api fxid cid db A t adj = Inr (ar_next_itemptr b, adj', db')"
    "store_ok api db'" "al_data adj' = al_data adj @ al_data (ar_adj_list b)"
    and f: "fetch_item api db' = (fetch_item api db)((A, t) \<mapsto> ArrayBlock (b \<lparr> mv_xmax := fxid, mv_cmax := cid \<rparr>))"
    and l: "\<And>rel. length (db' rel) = length (db rel)"
    using merge_existing[OF assms(1) _ b(1)[unfolded b(2)] assms(3) len, of fxid cid] assms(4) Cons
    by blast
  have "block_list (fetch_item api db') A (A, valid_or_invalid (ar_next_itemptr b)) rest"
    unfolding f by (rule block_list_frame[OF b(4)]) (use b(2,3) in auto)
  then show ?thesis using m l b(1,2) assms(4) Cons
    by (intro exI[of _ db'] exI[of _ "ar_next_itemptr b"] exI[of _ adj']) (simp add: chain_members_def f)
qed

subsection \<open>Replacing the records of one vertex\<close>

definition linked_part ::
  "(address \<Rightarrow> item option) \<Rightarrow> NeoPhysMapRecord \<Rightarrow> address list \<Rightarrow> address \<Rightarrow> bool" where
  "linked_part F r us d \<longleftrightarrow> chain_path F no_address (pm_e_tbl_id r, pm_e_itemptr r) us d
     \<and> distinct us \<and> (\<forall>a \<in> set us. \<exists>x. F a = Some (Linked x))"

lemma linked_part_frame:
  "linked_part F r us d \<Longrightarrow> (\<And>a. a \<in> set us \<Longrightarrow> F' a = F a) \<Longrightarrow> linked_part F' r us d"
  using chain_path_frame[of us F' F] by (simp add: linked_part_def)

definition upstream_of :: "address list \<Rightarrow> address" where
  "upstream_of us = (if us = [] then no_address else last us)"

lemma wire_phase:
  assumes "store_ok api db" "linked_part (fetch_item api db) r us d"
    "fetch_item api db (pmap, vertex_slot v) = Some (PhysMap r)" "0 < v" "v \<le> 157"
    "(cv_upstream_tbl e, cv_upstream_tid e) = upstream_of us" "\<forall>a \<in> set us. cat_natts cat (fst a) = 10"
  shows "\<exists>db' r'. wire_upstream api cat db A pmap v e first = Inr db' \<and> store_ok api db'
    \<and> fetch_item api db' (pmap, vertex_slot v) = Some (PhysMap r')
    \<and> linked_part (fetch_item api db') r' us (A, first)
    \<and> (\<forall>a. item_members (fetch_item api db' a) = item_members (fetch_item api db a))
    \<and> (\<forall>a. a \<noteq> (pmap, vertex_slot v) \<longrightarrow> a \<notin> set us \<longrightarrow> fetch_item api db' a = fetch_item api db a)
    \<and> (\<forall>rel. length (db' rel) = length (db rel))"
proof (cases us rule: rev_cases)
  case Nil
  then have up: "\<not> OidIsValid (cv_upstream_tbl e)" using assms(6) by (simp add: upstream_of_def no_address_def)
  obtain db' where db': "update_vertex_phys_map api db pmap v A first = Inr db'" "store_ok api db'"
    and f: "fetch_item api db' = (fetch_item api db)
        ((pmap, vertex_slot v) \<mapsto> PhysMap (r \<lparr> pm_e_tbl_id := A, pm_e_itemptr := first \<rparr>))"
    using update_vertex_phys_map_fetch[OF assms(1,4,5,3), of A first] by blast
  have "length (db' rel) = length (db rel)" for rel
    using db'(1) modify_item_length by (auto simp: update_vertex_phys_map_def Let_def)
  then show ?thesis using db' up Nil assms(3)
    by (simp add: wire_upstream_def f linked_part_def)
next
  case (snoc bs a)
  obtain x where x: "fetch_item api db a = Some (Linked x)" "cat_natts cat (fst a) = 10"
    and dist: "a \<notin> set bs" and "links (fst a) (Linked x) \<noteq> None"
    using assms(2,7) snoc by (auto simp: linked_part_def)
  have valid: "OidIsValid (fst a)" using assms(2) snoc by (auto simp: linked_part_def chain_path_append)
  have up: "cv_upstream_tbl e = fst a" "cv_upstream_tid e = snd a"
    using assms(6) snoc by (cases a; simp add: upstream_of_def)+
  let ?x = "x \<lparr> ll_next_tbl := A, ll_next_itemptr := first \<rparr>"
  have at: "fetch_item api db (fst a, snd a) = Some (Linked x)" using x by simp
  obtain db' where db': "modify_item api (set_linked_next A first) db (fst a) (snd a) = Inr db'" "store_ok api db'"
    and f: "fetch_item api db' = (fetch_item api db)((fst a, snd a) \<mapsto> Linked ?x)"
    and l: "\<And>rel. length (db' rel) = length (db rel)"
    using modify_at[where f = "set_linked_next A first", OF assms(1) at change_block(2) change_size(2)] by blast
  have "(pmap, vertex_slot v) \<noteq> a" using assms(3) x(1) by auto
  then have slot: "fetch_item api db' (pmap, vertex_slot v) = Some (PhysMap r)" using assms(3) by (auto simp: f)
  have "chain_path (fetch_item api db') no_address (pm_e_tbl_id r, pm_e_itemptr r) (bs @ [a]) (A, first)"
    by (rule chain_path_redirect[where F = "fetch_item api db" and q = d and r = x])
      (use assms(2) snoc x dist in \<open>auto simp: linked_part_def f\<close>)
  then have "linked_part (fetch_item api db') r us (A, first)"
    using assms(2) snoc by (auto simp: linked_part_def f)
  then show ?thesis using db' slot up x valid l snoc
    by (intro exI[of _ db'] exI[of _ r]) 
      (auto simp: wire_upstream_def np_update_next_pointer_inplace_def f member_of_record_def)
qed

text \<open>What an entry of the table has to say about the list of its owner.\<close>

definition entry_for ::
  "oid \<Rightarrow> (address \<Rightarrow> item option) \<Rightarrow> CompactedVertexEntry \<Rightarrow> address list \<Rightarrow> address list \<Rightarrow> bool" where
  "entry_for A F e us ds \<longleftrightarrow> adj_list_ok (cv_adj e) \<and> al_data (cv_adj e) \<noteq> []
     \<and> (cv_upstream_tbl e, cv_upstream_tid e) = upstream_of us
     \<and> (ItemPointerIsValid (cv_downstream_tid e) \<longleftrightarrow> ds \<noteq> [])
     \<and> (ds \<noteq> [] \<longrightarrow> hd ds = (A, cv_downstream_tid e))"

text \<open>The number of members that take the place of the records.\<close>

definition replaced :: "(address \<Rightarrow> item option) \<Rightarrow> CompactedVertexEntry \<Rightarrow> address list \<Rightarrow> nat" where
  "replaced F e ds = length (al_data (cv_adj e)) + length (chain_members F (take 1 ds))"

definition entry_done ::
  "(address \<Rightarrow> item option) \<Rightarrow> (address \<Rightarrow> item option) \<Rightarrow> oid \<Rightarrow> address \<Rightarrow> CompactedVertexEntry
    \<Rightarrow> address list \<Rightarrow> address list \<Rightarrow> address list \<Rightarrow> bool" where
  "entry_done F F' A slot e us ds ns \<longleftrightarrow>
     (\<exists>r. F' slot = Some (PhysMap r) \<and> linked_part F' r us (hd ns)) \<and> ns \<noteq> []
     \<and> block_list F' A (hd ns) (ns @ tl ds) \<and> (\<forall>a \<in> set ns. F a = None)
     \<and> chain_members F' (us @ ns @ tl ds) =
         chain_members F us @ al_data (cv_adj e) @ chain_members F ds"

text \<open>Records are added, and none is changed outside a set of addresses.\<close>

definition changes_only :: "address set \<Rightarrow> (address \<Rightarrow> item option) \<Rightarrow> (address \<Rightarrow> item option) \<Rightarrow> bool" where
  "changes_only X F F' \<longleftrightarrow> (\<forall>a. F a \<noteq> None \<longrightarrow> F' a \<noteq> None \<and> (a \<notin> X \<longrightarrow> F' a = F a))"

lemma changes_onlyD:
  assumes "changes_only X F F'" "F a \<noteq> None"
  shows "F' a \<noteq> None" "a \<notin> X \<Longrightarrow> F' a = F a"
  using assms unfolding changes_only_def by blast+

definition footprint :: "oid \<Rightarrow> 64 word \<Rightarrow> address list \<Rightarrow> address list \<Rightarrow> address set" where
  "footprint pmap v us ds = {(pmap, vertex_slot v)} \<union> set us \<union> set ds"

lemma compact_entry_step:
  assumes ok: "store_ok api db" and slot: "fetch_item api db (pmap, vertex_slot v) = Some (PhysMap r)"
    and v: "0 < v" "v \<le> 157" and A: "OidIsValid A"
    and us: "linked_part (fetch_item api db) r us d" and ds: "block_list (fetch_item api db) A d' ds"
    and e: "entry_for A (fetch_item api db) e us ds" and natts: "\<forall>a \<in> set us. cat_natts cat (fst a) = 10"
    and small: "replaced (fetch_item api db) e ds \<le> 2 ^ 24"
    and room: "length (db A) + replaced (fetch_item api db) e ds \<le> 0xFFFFFFFF"
  shows "\<exists>db' ns. compact_entry api cat fxid cid A pmap (v, e) db = Inr db' \<and> store_ok api db'
    \<and> entry_done (fetch_item api db) (fetch_item api db') A (pmap, vertex_slot v) e us ds ns
    \<and> changes_only (footprint pmap v us ds) (fetch_item api db) (fetch_item api db')
    \<and> length (db' A) \<le> length (db A) + replaced (fetch_item api db) e ds"
proof -
  let ?F = "fetch_item api db" and ?slot = "(pmap, vertex_slot v)"
  have e': "adj_list_ok (cv_adj e)" "al_data (cv_adj e) \<noteq> []"
    "(cv_upstream_tbl e, cv_upstream_tid e) = upstream_of us"
    "ItemPointerIsValid (cv_downstream_tid e) \<longleftrightarrow> ds \<noteq> []" "ds \<noteq> [] \<longrightarrow> hd ds = (A, cv_downstream_tid e)"
    using e by (simp_all add: entry_for_def)
  have kinds: "\<And>a. a \<in> set us \<Longrightarrow> \<exists>x. ?F a = Some (Linked x)"
      "\<And>a. a \<in> set ds \<Longrightarrow> \<exists>b. ?F a = Some (ArrayBlock b)" "distinct ds"
    using us ds by (simp_all add: linked_part_def block_list_def)
  have apart: "set us \<inter> set ds = {}" "?slot \<notin> set us" "?slot \<notin> set ds"
    using kinds slot by fastforce+
  have tk: "set (take 1 ds) \<subseteq> set ds" by (rule set_take_subset)
  have tl: "a \<in> set (tl ds) \<Longrightarrow> a \<in> set ds \<and> a \<notin> set (take 1 ds)" for a
    using kinds(3) by (cases ds) auto
  obtain db1 next_tid adj where merged: "(if ItemPointerIsValid (cv_downstream_tid e)
        then np_merge_existing_arraylist api fxid cid db A (cv_downstream_tid e) (cv_adj e)
        else Inr (InvalidItemPointer, cv_adj e, db)) = Inr (next_tid, adj, db1)"
    and ok1: "store_ok api db1" and adj: "al_data adj =
        al_data (cv_adj e) @ chain_members ?F (take 1 ds)"
    and ds1: "block_list (fetch_item api db1) A (A, valid_or_invalid next_tid) (tl ds)"
    and f1: "\<And>a. a \<notin> set (take 1 ds) \<Longrightarrow> fetch_item api db1 a = ?F a"
    and n1: "\<And>a. fetch_item api db1 a = None \<Longrightarrow> ?F a = None"
    and l1: "\<And>rel. length (db1 rel) = length (db rel)"
    using merge_phase[OF ok ds e'(1,4,5), of fxid cid] small unfolding replaced_def by blast
  have len: "length (al_data adj) = replaced ?F e ds"
    using adj by (simp add: replaced_def)
  have ne: "al_data (np_trim_adj_list adj) \<noteq> []" and
    l: "length (db1 A) + length (al_data (np_trim_adj_list adj)) \<le> 0xFFFFFFFF"
    using len e'(2) room by (auto simp: np_trim_adj_list_def l1 replaced_def)
  obtain db2 first ns where inserted: "np_insert_chunked_arraylist api fxid cid db1 A v (np_trim_adj_list adj)
        (cv_upstream_tbl e) (cv_upstream_tid e) next_tid = Inr (first, db2)"
    and ok2: "store_ok api db2" and hd: "hd ns = (A, first)"
    and added: "blocks_added (fetch_item api db1) (fetch_item api db2) A next_tid
        (al_data (np_trim_adj_list adj)) ns"
    and l2: "\<And>rel. length (db2 rel) \<le> length (db1 rel) + length (al_data (np_trim_adj_list adj))"
    using insert_chunked[OF ok1 A ne l] by blast
  have data: "al_data (np_trim_adj_list adj) = al_data adj" by (simp add: np_trim_adj_list_def)
  note ns = blocks_addedD(1,2)[OF added] blocks_addedD(3)[OF added, rule_format]
    and f2 = blocks_addedD(4)[OF added, rule_format] and p2 = blocks_addedD(5)[OF added]
    and ed2 = blocks_addedD(6)[OF added, unfolded data]
  have same: "fetch_item api db2 a = ?F a" if "?F a \<noteq> None" "a \<notin> set (take 1 ds)" for a
    using f2[of a] f1[OF that(2)] ns(3)[of a] that(1) by auto
  have slot2: "fetch_item api db2 ?slot = Some (PhysMap r)"
    using same[of ?slot] slot apart(3) tk by auto
  have us2: "linked_part (fetch_item api db2) r us d"
    by (rule linked_part_frame[OF us]) (use kinds apart(1) tk same in fastforce)
  have ds2: "block_list (fetch_item api db2) A (A, valid_or_invalid next_tid) (tl ds)"
    and out: "set ns \<inter> set (tl ds) = {}"
    using block_list_frame[OF ds1, of "fetch_item api db2"] ds1 ns(3) f2
    by (fastforce simp: block_list_def)+
  have all2: "block_list (fetch_item api db2) A (hd ns) (ns @ tl ds)"
    using ds2 out p2 ns unfolding block_list_def by (auto simp: path_append)
  obtain db3 r' where wired: "wire_upstream api cat db2 A pmap v e first = Inr db3" "store_ok api db3"
    and slot3: "fetch_item api db3 ?slot = Some (PhysMap r')"
    and us3: "linked_part (fetch_item api db3) r' us (A, first)"
    and ed3: "\<And>a. item_members (fetch_item api db3 a) = item_members (fetch_item api db2 a)"
    and f3: "\<And>a. a \<noteq> ?slot \<Longrightarrow> a \<notin> set us \<Longrightarrow> fetch_item api db3 a = fetch_item api db2 a"
    and l3: "\<And>rel. length (db3 rel) = length (db2 rel)"
    using wire_phase[OF ok2 us2 slot2 v e'(3) natts, of A first] by blast
  have "compact_entry api cat fxid cid A pmap (v, e) db = Inr db3"
    using merged inserted wired(1) by (simp add: compact_entry_def)
  moreover have "entry_done ?F (fetch_item api db3) A ?slot e us ds ns"
    unfolding entry_done_def
  proof (intro conjI)
    show "\<exists>r. fetch_item api db3 ?slot = Some (PhysMap r) \<and> linked_part (fetch_item api db3) r us (hd ns)"
      using slot3 us3 hd by auto
    show "ns \<noteq> []" by (rule ns(1))
    have "fetch_item api db3 a = fetch_item api db2 a" if "a \<in> set (ns @ tl ds)" for a
    proof (rule f3)
      have b: "\<exists>b. fetch_item api db2 a = Some (ArrayBlock b)" using all2 that by (simp add: block_list_def)
      then show "a \<noteq> ?slot" using slot2 by auto
      show "a \<notin> set us" using b us2 by (auto simp: linked_part_def)
    qed
    then show "block_list (fetch_item api db3) A (hd ns) (ns @ tl ds)" by (rule block_list_frame[OF all2])
    show "\<forall>a \<in> set ns. ?F a = None" using n1 ns(3) by blast
    have "chain_members (fetch_item api db3) bs = chain_members (fetch_item api db2) bs" for bs
      by (rule chain_members_frame) (rule ed3)
    moreover have "chain_members (fetch_item api db2) us = chain_members ?F us"
      by (rule chain_members_frame) (use kinds apart(1) tk same in fastforce)
    moreover have "chain_members (fetch_item api db2) (tl ds) = chain_members ?F (tl ds)"
      by (rule chain_members_frame) (use kinds tl same in fastforce)
    moreover have "chain_members ?F ds = chain_members ?F (take 1 ds) @ chain_members ?F (tl ds)"
      by (cases ds) (simp_all add: chain_members_def)
    ultimately show "chain_members (fetch_item api db3) (us @ ns @ tl ds) =
        chain_members ?F us @ al_data (cv_adj e) @ chain_members ?F ds"
      using ed2 adj by (simp add: chain_members_append)
  qed
  moreover have "changes_only (footprint pmap v us ds) ?F (fetch_item api db3)"
    unfolding changes_only_def
  proof (intro allI impI conjI)
    fix a assume a: "?F a \<noteq> None"
    have "a \<notin> set ns"
    proof
      assume "a \<in> set ns"
      then have "fetch_item api db1 a = None" using ns(3) by simp
      then show False using n1 a by simp
    qed
    then have a2: "fetch_item api db2 a \<noteq> None" using f2[of a] n1[of a] a by auto
    show "fetch_item api db3 a \<noteq> None"
    proof (cases "a = ?slot \<or> a \<in> set us")
      case True
      then show ?thesis using slot3 us3 by (auto simp: linked_part_def)
    next
      case False
      then show ?thesis using f3 a2 by auto
    qed
    assume "a \<notin> footprint pmap v us ds"
    then show "fetch_item api db3 a = ?F a"
      using same[OF a] f3[of a] tk by (auto simp: footprint_def)
  qed
  moreover have "length (db3 A) \<le> length (db A) + replaced ?F e ds"
    using l1[of A] l2[of A] l3[of A] len by (simp add: np_trim_adj_list_def)
  ultimately show ?thesis using wired(2) by blast
qed

lemma entry_done_later:
  assumes "entry_done F F' A (pmap, vertex_slot v) e us ds ns" "changes_only X F' F''"
    "footprint pmap v us ds \<inter> X = {}" "set ns \<inter> X = {}"
  shows "entry_done F F'' A (pmap, vertex_slot v) e us ds ns"
proof -
  have same: "F'' a = F' a" if "F' a \<noteq> None" "a \<in> {(pmap, vertex_slot v)} \<union> set us \<union> set (ns @ tl ds)" for a
  proof -
    have "a \<notin> X" using that(2) assms(3,4) by (cases ds) (auto simp: footprint_def)
    then show ?thesis by (rule changes_onlyD(2)[OF assms(2) that(1)])
  qed
  obtain r where r: "F' (pmap, vertex_slot v) = Some (PhysMap r)" "linked_part F' r us (hd ns)"
    and bl: "block_list F' A (hd ns) (ns @ tl ds)"
    using assms(1) by (auto simp: entry_done_def)
  have eq: "F'' a = F' a" if "a \<in> set us \<union> set (ns @ tl ds)" for a
  proof (rule same)
    show "F' a \<noteq> None" using that r(2) bl unfolding linked_part_def block_list_def by fastforce
  qed (use that in blast)
  have "F'' (pmap, vertex_slot v) = Some (PhysMap r)" using same[of "(pmap, vertex_slot v)"] r(1) by simp
  moreover have "linked_part F'' r us (hd ns)" by (rule linked_part_frame[OF r(2)]) (use eq in blast)
  moreover have "block_list F'' A (hd ns) (ns @ tl ds)" by (rule block_list_frame[OF bl]) (use eq in blast)
  moreover have "chain_members F'' (us @ ns @ tl ds) = chain_members F' (us @ ns @ tl ds)"
    by (rule chain_members_frame) (use eq in auto)
  ultimately show ?thesis using assms(1) by (auto simp: entry_done_def)
qed

lemma entry_done_earlier:
  assumes "entry_done F' F'' A (pmap, vertex_slot v) e us ds ns" "changes_only X F F'"
    "footprint pmap v us ds \<inter> X = {}" "\<And>a. a \<in> set us \<union> set ds \<Longrightarrow> F a \<noteq> None"
  shows "entry_done F F'' A (pmap, vertex_slot v) e us ds ns"
proof -
  have "F' a = F a" if "a \<in> set us \<union> set ds" for a
    using changes_onlyD(2)[OF assms(2) assms(4)[OF that]] that assms(3) by (auto simp: footprint_def)
  then have "chain_members F' us = chain_members F us" "chain_members F' ds = chain_members F ds"
    by (intro chain_members_frame; simp)+
  moreover have "F a = None" if "a \<in> set ns" for a
  proof (rule ccontr)
    assume "F a \<noteq> None"
    then have "F' a \<noteq> None" by (rule changes_onlyD(1)[OF assms(2)])
    then show False using assms(1) that by (simp add: entry_done_def)
  qed
  ultimately show ?thesis using assms(1) by (auto simp: entry_done_def)
qed

subsection \<open>Replacing the records of all vertices\<close>

text \<open>A vertex that is ready: its map entry, the linked records that stay, the blocks behind, and what
  the table says of it.\<close>

definition ready_entry ::
  "catalog \<Rightarrow> oid \<Rightarrow> oid \<Rightarrow> (address \<Rightarrow> item option) \<Rightarrow> 64 word \<Rightarrow> CompactedVertexEntry
    \<Rightarrow> address list \<Rightarrow> address list \<Rightarrow> bool" where
  "ready_entry cat A pmap F v e us ds \<longleftrightarrow> 0 < v \<and> v \<le> 157
     \<and> (\<exists>r d d'. F (pmap, vertex_slot v) = Some (PhysMap r) \<and> linked_part F r us d \<and> block_list F A d' ds)
     \<and> entry_for A F e us ds \<and> (\<forall>a \<in> set us. cat_natts cat (fst a) = 10)
     \<and> replaced F e ds \<le> 2 ^ 24"

lemma ready_entry_frame:
  assumes "ready_entry cat A pmap F v e us ds" "\<And>a. a \<in> footprint pmap v us ds \<Longrightarrow> F' a = F a"
  shows "ready_entry cat A pmap F' v e us ds" "replaced F' e ds = replaced F e ds"
proof -
  have same: "F' (pmap, vertex_slot v) = F (pmap, vertex_slot v)"
    "\<And>a. a \<in> set us \<Longrightarrow> F' a = F a" "\<And>a. a \<in> set ds \<Longrightarrow> F' a = F a"
    using assms(2) by (simp_all add: footprint_def)
  have "chain_members F' (take 1 ds) = chain_members F (take 1 ds)"
    by (rule chain_members_frame) (use same(3) set_take_subset[of 1 ds] in \<open>simp add: subset_eq\<close>)
  then show "replaced F' e ds = replaced F e ds" by (simp add: replaced_def)
  moreover have "linked_part F' r us d" if "linked_part F r us d" for r d
    by (rule linked_part_frame[OF that same(2)])
  moreover have "block_list F' A d ds" if "block_list F A d ds" for d
    by (rule block_list_frame[OF that same(3)])
  ultimately show "ready_entry cat A pmap F' v e us ds"
    using assms(1) same(1) unfolding ready_entry_def entry_for_def by metis
qed

lemma ready_entry_in_use:
  "ready_entry cat A pmap F v e us ds \<Longrightarrow> a \<in> footprint pmap v us ds \<Longrightarrow> F a \<noteq> None"
  unfolding ready_entry_def footprint_def linked_part_def block_list_def by fastforce

lemma compact_entry_ready:
  assumes "store_ok api db" "OidIsValid A" "ready_entry cat A pmap (fetch_item api db) v e us ds"
    "length (db A) + replaced (fetch_item api db) e ds \<le> 0xFFFFFFFF"
  shows "\<exists>db' ns. compact_entry api cat fxid cid A pmap (v, e) db = Inr db' \<and> store_ok api db'
    \<and> entry_done (fetch_item api db) (fetch_item api db') A (pmap, vertex_slot v) e us ds ns
    \<and> changes_only (footprint pmap v us ds) (fetch_item api db) (fetch_item api db')
    \<and> length (db' A) \<le> length (db A) + replaced (fetch_item api db) e ds"
proof -
  obtain r d d' where "fetch_item api db (pmap, vertex_slot v) = Some (PhysMap r)"
    "linked_part (fetch_item api db) r us d" "block_list (fetch_item api db) A d' ds"
    using assms(3) unfolding ready_entry_def by blast
  with assms show ?thesis unfolding ready_entry_def
    by (intro compact_entry_step) auto
qed

definition apart :: "(64 word \<Rightarrow> address set) \<Rightarrow> 64 word set \<Rightarrow> bool" where
  "apart f V \<longleftrightarrow> (\<forall>v \<in> V. \<forall>w \<in> V. v \<noteq> w \<longrightarrow> f v \<inter> f w = {})"

lemma apart_subset: "apart f V \<Longrightarrow> W \<subseteq> V \<Longrightarrow> apart f W"
  unfolding apart_def by blast

lemma changes_only_trans:
  assumes "changes_only X F F'" "changes_only Y F' F''"
  shows "changes_only (X \<union> Y) F F''"
  unfolding changes_only_def
proof (intro allI impI conjI)
  fix a assume a: "F a \<noteq> None"
  note a' = changes_onlyD(1)[OF assms(1) a]
  show "F'' a \<noteq> None" by (rule changes_onlyD(1)[OF assms(2) a'])
  assume "a \<notin> X \<union> Y"
  then show "F'' a = F a" using changes_onlyD(2)[OF assms(1) a] changes_onlyD(2)[OF assms(2) a'] by simp
qed

lemma compact_entries_all:
  assumes "store_ok api db" "OidIsValid A" "distinct (map fst todo)"
    "\<And>v e. (v, e) \<in> set todo \<Longrightarrow> ready_entry cat A pmap (fetch_item api db) v e (us v) (ds v)"
    "apart (\<lambda>v. footprint pmap v (us v) (ds v)) (fst ` set todo)"
    "length (db A) + (\<Sum>(v, e)\<leftarrow>todo. replaced (fetch_item api db) e (ds v)) \<le> 0xFFFFFFFF"
  shows "\<exists>db' new. compact_entries api cat fxid cid A pmap todo db = Inr db' \<and> store_ok api db'
    \<and> (\<forall>v e. (v, e) \<in> set todo \<longrightarrow> entry_done (fetch_item api db) (fetch_item api db') A
          (pmap, vertex_slot v) e (us v) (ds v) (new v))
    \<and> apart (\<lambda>v. set (new v)) (fst ` set todo)
    \<and> changes_only (\<Union>v \<in> fst ` set todo. footprint pmap v (us v) (ds v))
        (fetch_item api db) (fetch_item api db')"
  using assms
proof (induction todo arbitrary: db)
  case Nil
  then show ?case by (simp add: apart_def changes_only_def)
next
  case (Cons ve todo)
  obtain v e where ve: "ve = (v, e)" by (cases ve)
  let ?F = "fetch_item api db" and ?foot = "\<lambda>v. footprint pmap v (us v) (ds v)"
  let ?rest = "\<Union>v \<in> fst ` set todo. ?foot v"
  have rv: "ready_entry cat A pmap ?F v e (us v) (ds v)" using Cons.prems(4) ve by simp
  have "length (db A) + replaced ?F e (ds v) \<le> 0xFFFFFFFF" using Cons.prems(6) by (simp add: ve)
  from compact_entry_ready[OF Cons.prems(1,2) rv this, of fxid cid]
  obtain db1 ns where run1: "compact_entry api cat fxid cid A pmap (v, e) db = Inr db1" "store_ok api db1"
    and done1: "entry_done ?F (fetch_item api db1) A (pmap, vertex_slot v) e (us v) (ds v) ns"
    and ch1: "changes_only (?foot v) ?F (fetch_item api db1)"
    and len1: "length (db1 A) \<le> length (db A) + replaced ?F e (ds v)" by blast
  have v_new: "v \<notin> fst ` set todo" using Cons.prems(3) ve by simp
  have disj: "?foot v \<inter> ?foot w = {}" if "w \<in> fst ` set todo" for w
  proof -
    have "v \<noteq> w" using v_new that by blast
    then show ?thesis using Cons.prems(5) that ve unfolding apart_def by force
  qed
  have rest: "ready_entry cat A pmap (fetch_item api db1) w e' (us w) (ds w)"
    "replaced (fetch_item api db1) e' (ds w) = replaced ?F e' (ds w)" if w: "(w, e') \<in> set todo" for w e'
  proof -
    have rw: "ready_entry cat A pmap ?F w e' (us w) (ds w)" using Cons.prems(4) w by simp
    have "fetch_item api db1 a = ?F a" if "a \<in> ?foot w" for a
    proof (rule changes_onlyD(2)[OF ch1 ready_entry_in_use[OF rw that]])
      show "a \<notin> ?foot v" using disj[of w] w that by force
    qed
    from ready_entry_frame[OF rw this] show "ready_entry cat A pmap (fetch_item api db1) w e' (us w) (ds w)"
      "replaced (fetch_item api db1) e' (ds w) = replaced ?F e' (ds w)" by blast+
  qed
  have sum: "(\<Sum>(v, e)\<leftarrow>todo. replaced (fetch_item api db1) e (ds v)) =
      (\<Sum>(v, e)\<leftarrow>todo. replaced ?F e (ds v))"
    by (rule arg_cong[where f = sum_list], rule map_cong) (use rest(2) in auto)
  have ap: "apart ?foot (fst ` set todo)" by (rule apart_subset[OF Cons.prems(5)]) auto
  have "length (db1 A) + (\<Sum>(v, e)\<leftarrow>todo. replaced (fetch_item api db1) e (ds v)) \<le> 0xFFFFFFFF"
    using Cons.prems(6) len1 unfolding sum ve by simp
  moreover have "distinct (map fst todo)" using Cons.prems(3) by simp
  ultimately obtain db2 new where run2: "compact_entries api cat fxid cid A pmap todo db1 = Inr db2" "store_ok api db2"
    and done2: "\<And>w e. (w, e) \<in> set todo \<Longrightarrow> entry_done (fetch_item api db1) (fetch_item api db2) A
        (pmap, vertex_slot w) e (us w) (ds w) (new w)"
    and ap2: "apart (\<lambda>v. set (new v)) (fst ` set todo)"
    and ch2: "changes_only ?rest (fetch_item api db1) (fetch_item api db2)"
    using Cons.IH[OF run1(2) Cons.prems(2) _ rest(1) ap] by blast
  define new' where "new' = new(v := ns)"
  have new': "new' v = ns" "w \<in> fst ` set todo \<Longrightarrow> new' w = new w" for w
    using v_new by (auto simp: new'_def)
  have ns: "a \<in> set ns \<Longrightarrow> ?F a = None" "a \<in> set ns \<Longrightarrow> fetch_item api db1 a \<noteq> None" for a
    using done1 by (auto simp: entry_done_def block_list_def)
  have "set ns \<inter> ?rest = {}"
  proof -
    have "a \<notin> ?foot w" if "a \<in> set ns" "(w, e') \<in> set todo" for a w e'
      using ready_entry_in_use[OF Cons.prems(4)[of w e'], of a] ns(1)[OF that(1)] that(2) by auto
    then show ?thesis by force
  qed
  moreover have "?foot v \<inter> ?rest = {}" using disj by blast
  ultimately have "entry_done ?F (fetch_item api db2) A (pmap, vertex_slot v) e (us v) (ds v) ns"
    by (intro entry_done_later[OF done1 ch2])
  moreover have "entry_done ?F (fetch_item api db2) A (pmap, vertex_slot w) e' (us w) (ds w) (new w)"
    if w: "(w, e') \<in> set todo" for w e'
  proof (rule entry_done_earlier[OF done2[OF w] ch1])
    show "?foot w \<inter> ?foot v = {}" using disj[of w] w by force
    show "?F a \<noteq> None" if "a \<in> set (us w) \<union> set (ds w)" for a
      using ready_entry_in_use[OF Cons.prems(4)[of w e'], of a] w that by (auto simp: footprint_def)
  qed
  ultimately have "\<forall>w e'. (w, e') \<in> set (ve # todo) \<longrightarrow>
      entry_done ?F (fetch_item api db2) A (pmap, vertex_slot w) e' (us w) (ds w) (new' w)"
    using new' by (auto simp: ve) (metis fst_conv image_eqI new'(2))
  moreover have "apart (\<lambda>v. set (new' v)) (fst ` set (ve # todo))"
  proof -
    have "set ns \<inter> set (new w) = {}" if w: "w \<in> fst ` set todo" for w
    proof -
      obtain e' where "(w, e') \<in> set todo" using w by force
      from done2[OF this] have "\<forall>a \<in> set (new w). fetch_item api db1 a = None" by (simp add: entry_done_def)
      then show ?thesis using ns(2) by blast
    qed
    then show ?thesis using ap2 new' v_new unfolding apart_def ve by auto
  qed
  moreover have "changes_only (\<Union>v \<in> fst ` set (ve # todo). ?foot v) ?F (fetch_item api db2)"
    using changes_only_trans[OF ch1 ch2] by (simp add: ve)
  moreover have "compact_entries api cat fxid cid A pmap (ve # todo) db = Inr db2"
    using run1 run2 by (simp add: ve)
  ultimately show ?case using run2(2) by (intro exI[of _ db2] exI[of _ new']) blast
qed

end
