(* ===== verification/Np_Compaction.thy ===== *)
theory Np_Compaction
  imports Np_Compact
begin

text \<open>
  Compaction of the oldest linked list of a label as a whole
  (\<open>compact_oldest_linked_list_table\<close> in \<open>src/src/backend/access/np_adj_list.c\<close>): what the pass over the
  relation collects, and that the lists of all vertices keep their members.
\<close>

subsection \<open>The addresses of a relation\<close>

definition page_offsets :: "'p page_api \<Rightarrow> 'p \<Rightarrow> nat list" where
  "page_offsets api page =
     filter (\<lambda>k. pg_item api page k \<noteq> None) [1..<Suc (PageGetMaxOffsetNumber api page)]"

definition positions :: "'p page_api \<Rightarrow> 'p db \<Rightarrow> oid \<Rightarrow> (nat \<times> nat) list" where
  "positions api db rel =
     concat (map (\<lambda>n. map (Pair n) (page_offsets api (db rel ! n))) [0..<length (db rel)])"

definition address_at :: "oid \<Rightarrow> nat \<times> nat \<Rightarrow> address" where
  "address_at rel p = (rel, \<lparr> ip_blkid = of_nat (fst p), ip_posid = of_nat (snd p) \<rparr>)"

lemma distinct_pairs:
  "distinct ns \<Longrightarrow> (\<And>n. distinct (g n)) \<Longrightarrow> distinct (concat (map (\<lambda>n. map (Pair n) (g n)) ns))"
  by (induction ns) (auto simp: distinct_map inj_on_def)

lemma distinct_positions: "distinct (positions api db rel)"
  unfolding positions_def by (rule distinct_pairs) (simp_all add: page_offsets_def)

lemma set_positions:
  "(n, k) \<in> set (positions api db rel) \<longleftrightarrow> n < length (db rel) \<and> 1 \<le> k
     \<and> k \<le> PageGetMaxOffsetNumber api (db rel ! n) \<and> pg_item api (db rel ! n) k \<noteq> None"
  by (auto simp: positions_def page_offsets_def image_iff less_Suc_eq_le simp del: upt_Suc)

lemma page_ok_offsets:
  assumes "page_ok api page"
  shows "PageGetMaxOffsetNumber api page < 2 ^ 16" "pg_item api page k \<noteq> None \<Longrightarrow> 1 \<le> k"
    "pg_item api page k \<noteq> None \<Longrightarrow> k \<le> PageGetMaxOffsetNumber api page"
proof -
  show "PageGetMaxOffsetNumber api page < 2 ^ 16"
    using assms by (auto simp: page_ok_def split: if_splits)
  have "dense api page" using assms by (simp add: page_ok_def)
  then have k: "(pg_item api page k = None) = (k = 0 \<or> PageGetMaxOffsetNumber api page < k)" for k
    by (simp add: dense_def)
  show "pg_item api page k \<noteq> None \<Longrightarrow> 1 \<le> k" "pg_item api page k \<noteq> None \<Longrightarrow> k \<le> PageGetMaxOffsetNumber api page"
    unfolding k by simp_all
qed

lemma position_words:
  assumes "db_ok api db" "p \<in> set (positions api db rel)"
  shows "unat (of_nat (fst p) :: 32 word) = fst p" "unat (of_nat (snd p) :: 16 word) = snd p"
proof -
  obtain n k where p: "p = (n, k)" by (cases p)
  with assms(2) have n: "n < length (db rel)" and k: "k \<le> PageGetMaxOffsetNumber api (db rel ! n)"
    by (simp_all add: set_positions)
  have "length (db rel) \<le> 0xFFFFFFFF" using assms(1) by (simp add: db_ok_def)
  then show "unat (of_nat (fst p) :: 32 word) = fst p" using n by (simp add: p unat_of_nat)
  have "PageGetMaxOffsetNumber api (db rel ! n) < 2 ^ 16"
    by (rule page_ok_offsets(1)[OF db_ok_page[OF assms(1) n]])
  then show "unat (of_nat (snd p) :: 16 word) = snd p" using k by (simp add: p unat_of_nat)
qed

lemma fetch_at_position:
  assumes "db_ok api db" "p \<in> set (positions api db rel)"
  shows "fetch_item api db (address_at rel p) = pg_item api (db rel ! fst p) (snd p)"
  using position_words[OF assms] assms(2) by (cases p) (simp add: address_at_def fetch_item_def set_positions)

text \<open>The records of a relation in the order of the pass, with their addresses.\<close>

lemma relation_addresses:
  assumes "db_ok api db"
  shows "\<exists>as. distinct as \<and> map (fetch_item api db) as = map Some (relation_items api db rel)
    \<and> set as = {a. fst a = rel \<and> fetch_item api db a \<noteq> None}"
proof (intro exI conjI)
  let ?as = "map (address_at rel) (positions api db rel)"
  have "inj_on (address_at rel) (set (positions api db rel))"
  proof (rule inj_onI)
    fix p q assume p: "p \<in> set (positions api db rel)" and q: "q \<in> set (positions api db rel)"
      and eq: "address_at rel p = address_at rel q"
    from eq have "(of_nat (fst p) :: 32 word) = of_nat (fst q)" "(of_nat (snd p) :: 16 word) = of_nat (snd q)"
      by (simp_all add: address_at_def)
    then show "p = q" using position_words[OF assms p] position_words[OF assms q]
      by (metis prod_eqI)
  qed
  then show "distinct ?as" by (simp add: distinct_map distinct_positions)
  have "map (fetch_item api db) ?as = map (\<lambda>p. pg_item api (db rel ! fst p) (snd p)) (positions api db rel)"
    using fetch_at_position[OF assms] by simp
  also have "\<dots> = concat (map (\<lambda>n. map Some (page_items api (db rel ! n))) [0..<length (db rel)])"
    by (auto simp: positions_def page_items_def page_offsets_def map_concat List.map_filter_def comp_def
        intro!: arg_cong[where f = concat] map_cong)
  also have "\<dots> = map Some (relation_items api db rel)"
    unfolding relation_items_def map_concat by (subst (4) map_nth[symmetric]) (simp add: comp_def)
  finally show "map (fetch_item api db) ?as = map Some (relation_items api db rel)" .
  show "set ?as = {a. fst a = rel \<and> fetch_item api db a \<noteq> None}"
  proof (intro set_eqI iffI)
    fix a assume "a \<in> set ?as"
    then show "a \<in> {a. fst a = rel \<and> fetch_item api db a \<noteq> None}"
      using fetch_at_position[OF assms] by (auto simp: set_positions) (simp_all add: address_at_def)
  next
    fix a assume "a \<in> {a. fst a = rel \<and> fetch_item api db a \<noteq> None}"
    then have a: "fst a = rel" "unat (ip_blkid (snd a)) < length (db rel)"
      "pg_item api (db rel ! unat (ip_blkid (snd a))) (unat (ip_posid (snd a))) \<noteq> None"
      by (auto simp: fetch_item_def split: if_splits)
    have "(unat (ip_blkid (snd a)), unat (ip_posid (snd a))) \<in> set (positions api db rel)"
      using a page_ok_offsets(2,3)[OF db_ok_page[OF assms a(2)] a(3)] by (simp add: set_positions)
    moreover have "address_at rel (unat (ip_blkid (snd a)), unat (ip_posid (snd a))) = a"
      using a(1) by (cases a) (simp add: address_at_def)
    ultimately show "a \<in> set ?as" by (metis image_eqI list.set_map)
  qed
qed

subsection \<open>What the pass collects\<close>

text \<open>The addresses that the last record with a neighbour elsewhere leaves in an entry.\<close>

definition upstream_fold :: "oid \<Rightarrow> NeoLinkedListRecord list \<Rightarrow> address" where
  "upstream_fold L rs = fold (\<lambda>r p. if ll_prev_tbl r \<noteq> L then (ll_prev_tbl r, ll_prev_itemptr r) else p)
     rs no_address"

definition downstream_fold :: "oid \<Rightarrow> NeoLinkedListRecord list \<Rightarrow> address" where
  "downstream_fold L rs = fold (\<lambda>r p. if ll_next_tbl r \<noteq> L \<and> ll_next_tbl r \<noteq> InvalidOid
     then (ll_next_tbl r, ll_next_itemptr r) else p) rs no_address"

definition entry_of :: "oid \<Rightarrow> NeoLinkedListRecord list \<Rightarrow> CompactedVertexEntry \<Rightarrow> bool" where
  "entry_of L rs e \<longleftrightarrow> adj_list_ok (cv_adj e) \<and> al_data (cv_adj e) = map member_of_record rs
     \<and> (cv_upstream_tbl e, cv_upstream_tid e) = upstream_fold L rs
     \<and> (cv_downstream_tbl e, cv_downstream_tid e) = downstream_fold L rs"

definition owned :: "64 word \<Rightarrow> NeoLinkedListRecord list \<Rightarrow> NeoLinkedListRecord list" where
  "owned v rs = filter (\<lambda>r. ll_owner_id r = v) rs"

definition hash_of :: "oid \<Rightarrow> NeoLinkedListRecord list \<Rightarrow> vertex_hash \<Rightarrow> bool" where
  "hash_of L rs hash \<longleftrightarrow> distinct (map fst hash)
     \<and> (\<forall>v. case map_of hash v of None \<Rightarrow> owned v rs = []
           | Some e \<Rightarrow> owned v rs \<noteq> [] \<and> entry_of L (owned v rs) e)"

lemma entry_of_new: "entry_of L [] new_entry"
  by (simp add: entry_of_def new_entry_def new_list_ok upstream_fold_def downstream_fold_def no_address_def)

lemma entry_of_snoc:
  assumes "entry_of L rs e" "length rs < 2 ^ 24"
  shows "\<exists>adj. np_append_adj_list (cv_adj e) (member_of_record r) = Inr adj
    \<and> entry_of L (rs @ [r]) (set_downstream L r (set_upstream L r (e \<lparr> cv_adj := adj \<rparr>)))"
proof -
  obtain adj where "np_append_adj_list (cv_adj e) (member_of_record r) = Inr adj"
    "adj_list_ok adj" "al_data adj = al_data (cv_adj e) @ [member_of_record r]"
    using append_ok[of "cv_adj e" "member_of_record r"] assms by (auto simp: entry_of_def)
  then show ?thesis using assms(1)
    by (auto simp: entry_of_def set_downstream_def set_upstream_def upstream_fold_def downstream_fold_def)
qed

lemma collect_record_hash:
  assumes "hash_of L rs hash" "length (owned (ll_owner_id r) rs) < 2 ^ 24"
  shows "\<exists>hash'. collect_record L hash r = Inr hash' \<and> hash_of L (rs @ [r]) hash'"
proof -
  let ?v = "ll_owner_id r"
  define e where "e = (case map_of hash ?v of None \<Rightarrow> new_entry | Some e \<Rightarrow> e)"
  have "case map_of hash ?v of None \<Rightarrow> owned ?v rs = []
      | Some e \<Rightarrow> owned ?v rs \<noteq> [] \<and> entry_of L (owned ?v rs) e"
    using assms(1) unfolding hash_of_def by blast
  then have e: "entry_of L (owned ?v rs) e"
    using entry_of_new by (auto simp: e_def split: option.splits)
  obtain adj e' where "np_append_adj_list (cv_adj e) (member_of_record r) = Inr adj"
    "e' = set_downstream L r (set_upstream L r (e \<lparr> cv_adj := adj \<rparr>))" "entry_of L (owned ?v rs @ [r]) e'"
    using entry_of_snoc[OF e assms(2), of r] by blast
  then have "collect_record L hash r = Inr (AList.update ?v e' hash)"
    and e': "entry_of L (owned ?v (rs @ [r])) e'"
    by (simp_all add: collect_record_def owned_def flip: e_def)
  moreover have "hash_of L (rs @ [r]) (AList.update ?v e' hash)"
    unfolding hash_of_def
  proof (intro conjI allI)
    show "distinct (map fst (AList.update ?v e' hash))"
      using assms(1) by (simp add: hash_of_def distinct_update)
    fix v
    have "case map_of hash v of None \<Rightarrow> owned v rs = []
        | Some e \<Rightarrow> owned v rs \<noteq> [] \<and> entry_of L (owned v rs) e"
      using assms(1) unfolding hash_of_def by blast
    moreover have "owned v (rs @ [r]) = (if v = ?v then owned v rs @ [r] else owned v rs)"
      by (simp add: owned_def)
    ultimately show "case map_of (AList.update ?v e' hash) v of None \<Rightarrow> owned v (rs @ [r]) = []
        | Some e \<Rightarrow> owned v (rs @ [r]) \<noteq> [] \<and> entry_of L (owned v (rs @ [r])) e"
      using e' by (cases "v = ?v") (simp_all add: update_conv' split: option.splits)
  qed
  ultimately show ?thesis by blast
qed

lemma collect_items_hash:
  assumes "hash_of L done hash" "\<And>v. length (owned v (done @ rs)) \<le> 2 ^ 24"
  shows "\<exists>hash'. collect_items L hash (map Linked rs) = Inr hash' \<and> hash_of L (done @ rs) hash'"
  using assms
proof (induction rs arbitrary: "done" hash)
  case (Cons r rs)
  have "length (owned (ll_owner_id r) done) < 2 ^ 24"
    using Cons.prems(2)[of "ll_owner_id r"] by (simp add: owned_def)
  then obtain hash1 where "collect_record L hash r = Inr hash1" "hash_of L (done @ [r]) hash1"
    using collect_record_hash[OF Cons.prems(1)] by blast
  then show ?case using Cons.IH[of "done @ [r]" hash1] Cons.prems(2) by auto
qed simp


subsection \<open>Reading the entries off the chains\<close>

lemma fold_pick:
  assumes "\<And>r. r \<in> set rs \<Longrightarrow> P r \<Longrightarrow> f r = w"
  shows "fold (\<lambda>r p. if P r then f r else p) rs p0 = (if \<exists>r \<in> set rs. P r then w else p0)"
  using assms by (induction rs arbitrary: p0) auto

text \<open>The records of one relation on a chain: only the first has its predecessor elsewhere, only the
  last its successor.\<close>

lemma chain_path_prev:
  assumes "chain_path F p c as d" "\<And>a. a \<in> set as \<Longrightarrow> fst a = L" "a \<in> set as" "F a = Some (Linked r)"
  shows "a = hd as \<and> (ll_prev_tbl r, ll_prev_itemptr r) = p \<or> a \<noteq> hd as \<and> ll_prev_tbl r = L
    \<or> ll_prev_tbl r = L \<and> fst p = L"
  using assms
proof (induction as arbitrary: p c)
  case (Cons b bs)
  show ?case
  proof (cases "a = b")
    case True
    then show ?thesis using Cons.prems by auto
  next
    case False
    then have "a \<in> set bs" using Cons.prems(3) by simp
    moreover obtain n where "chain_path F c n bs d" "fst c = L" using Cons.prems(1,2) by auto
    ultimately show ?thesis using Cons.IH[of c n] Cons.prems False by (auto simp: prod_eq_iff)
  qed
qed simp

lemma chain_path_next:
  assumes "chain_path F p c as d" "\<And>a. a \<in> set as \<Longrightarrow> fst a = L" "a \<in> set as" "F a = Some (Linked r)"
  shows "(ll_next_tbl r, ll_next_itemptr r) = d \<or> ll_next_tbl r = L"
  using assms
proof (induction as arbitrary: p c)
  case (Cons b bs)
  obtain x n where x: "F b = Some x" "links (fst b) x = Some (p, n)" "chain_path F b n bs d" "b = c"
    using Cons.prems(1) by auto
  show ?case
  proof (cases "a = b")
    case True
    then have n: "n = (ll_next_tbl r, ll_next_itemptr r)" using x Cons.prems(4) by simp
    show ?thesis
    proof (cases bs)
      case Nil
      then show ?thesis using x(3) n by simp
    next
      case (Cons b' bs')
      then have "n = b'" using x(3) by simp
      then show ?thesis using Cons.prems(2)[of b'] Cons n by auto
    qed
  next
    case False
    then show ?thesis using Cons.IH[of b n] Cons.prems x(3) by auto
  qed
qed simp

lemma chain_path_ends:
  assumes "chain_path F p c as d" "as \<noteq> []" "\<And>a. a \<in> set as \<Longrightarrow> \<exists>r. F a = Some (Linked r)"
  shows "\<exists>r. F (hd as) = Some (Linked r) \<and> (ll_prev_tbl r, ll_prev_itemptr r) = p"
    "\<exists>r. F (last as) = Some (Linked r) \<and> (ll_next_tbl r, ll_next_itemptr r) = d"
proof -
  obtain a bs where as: "as = a # bs" using assms(2) by (cases as) auto
  show "\<exists>r. F (hd as) = Some (Linked r) \<and> (ll_prev_tbl r, ll_prev_itemptr r) = p"
    using assms(1) assms(3)[of a] as by auto
  obtain bs a where as: "as = bs @ [a]" using assms(2) by (cases as rule: rev_cases) auto
  show "\<exists>r. F (last as) = Some (Linked r) \<and> (ll_next_tbl r, ll_next_itemptr r) = d"
    using assms(1) assms(3)[of a] as by (auto simp: chain_path_append)
qed

text \<open>A vertex of the label before the linked list \<open>L\<close> is compacted: the records that stay, those in \<open>L\<close>
  and the blocks behind them.\<close>

definition list_ready ::
  "catalog \<Rightarrow> oid \<Rightarrow> oid \<Rightarrow> oid \<Rightarrow> (address \<Rightarrow> item option) \<Rightarrow> 64 word \<Rightarrow> address list \<Rightarrow> address list
    \<Rightarrow> address list \<Rightarrow> bool" where
  "list_ready cat A L pmap F v us ls ds \<longleftrightarrow> 0 < v \<and> v \<le> 157
     \<and> (\<exists>r d. F (pmap, vertex_slot v) = Some (PhysMap r) \<and> linked_part F r (us @ ls) d
          \<and> block_list F A d ds \<and> fst d \<noteq> L)
     \<and> (\<forall>a \<in> set us. fst a \<noteq> L \<and> cat_natts cat (fst a) = 10)
     \<and> (\<forall>a \<in> set ls. fst a = L \<and> (\<exists>r. F a = Some (Linked r) \<and> ll_owner_id r = v))"

definition linked_at :: "(address \<Rightarrow> item option) \<Rightarrow> address \<Rightarrow> NeoLinkedListRecord" where
  "linked_at F a = (case F a of Some (Linked r) \<Rightarrow> r | _ \<Rightarrow> undefined)"

lemma entry_for_list:
  assumes ready: "list_ready cat A L pmap F v us ls ds" and ls: "ls \<noteq> []"
    and e: "entry_of L rs e" and rs: "set rs = linked_at F ` set ls" and L: "OidIsValid L" "A \<noteq> L"
  shows "entry_for A F e us ds"
proof -
  obtain r :: NeoPhysMapRecord and d where chain: "chain_path F no_address (pm_e_tbl_id r, pm_e_itemptr r) (us @ ls) d"
    and ds: "block_list F A d ds" and d: "fst d \<noteq> L"
    using ready unfolding list_ready_def linked_part_def by blast
  have linked: "\<And>a. a \<in> set ls \<Longrightarrow> fst a = L \<and> (\<exists>r. F a = Some (Linked r))"
    and us: "\<And>a. a \<in> set us \<Longrightarrow> fst a \<noteq> L"
    using ready unfolding list_ready_def by blast+
  have up: "upstream_of us = (if us = [] then no_address else last us)" by (simp add: upstream_of_def)
  obtain c where part: "chain_path F (upstream_of us) c ls d"
    using chain unfolding chain_path_append up by blast
  have p: "fst (upstream_of us) \<noteq> L"
    using us[of "last us"] L(1) by (auto simp: up no_address_def OidIsValid_def)
  have at: "F a = Some (Linked (linked_at F a))" if "a \<in> set ls" for a
    using linked[OF that] by (auto simp: linked_at_def)
  have same_L: "\<And>a. a \<in> set ls \<Longrightarrow> fst a = L" using linked by blast
  have prev: "(ll_prev_tbl r, ll_prev_itemptr r) = upstream_of us" if "r \<in> set rs" "ll_prev_tbl r \<noteq> L" for r
  proof -
    obtain a where a: "a \<in> set ls" "r = linked_at F a" using \<open>r \<in> set rs\<close> rs by auto
    show ?thesis using chain_path_prev[OF part same_L a(1) at[OF a(1)]] a(2) that(2) p by auto
  qed
  have succ: "(ll_next_tbl r, ll_next_itemptr r) = d" if "r \<in> set rs" "ll_next_tbl r \<noteq> L" for r
  proof -
    obtain a where a: "a \<in> set ls" "r = linked_at F a" using \<open>r \<in> set rs\<close> rs by auto
    show ?thesis using chain_path_next[OF part same_L a(1) at[OF a(1)]] a(2) that(2) by auto
  qed
  have in_rs: "linked_at F a \<in> set rs" if "a \<in> set ls" for a using rs that by blast
  have at_linked: "\<exists>r. F a = Some (Linked r)" if "a \<in> set ls" for a using linked[OF that] by blast
  obtain r1 where "F (hd ls) = Some (Linked r1)" "(ll_prev_tbl r1, ll_prev_itemptr r1) = upstream_of us"
    using chain_path_ends(1)[OF part ls at_linked] by blast
  then have first: "\<exists>r \<in> set rs. (ll_prev_tbl r, ll_prev_itemptr r) = upstream_of us"
    using in_rs[OF hd_in_set[OF ls]] at[OF hd_in_set[OF ls]] by auto
  obtain r2 where "F (last ls) = Some (Linked r2)" "(ll_next_tbl r2, ll_next_itemptr r2) = d"
    using chain_path_ends(2)[OF part ls at_linked] by blast
  then have final: "\<exists>r \<in> set rs. (ll_next_tbl r, ll_next_itemptr r) = d"
    using in_rs[OF last_in_set[OF ls]] at[OF last_in_set[OF ls]] by auto
  note ends = first final
  have "\<exists>r \<in> set rs. ll_prev_tbl r \<noteq> L" using ends(1) p by (metis fst_conv)
  then have upstream: "upstream_fold L rs = upstream_of us"
    unfolding upstream_fold_def using prev by (subst fold_pick[where w = "upstream_of us"]) auto
  have "(\<exists>r \<in> set rs. ll_next_tbl r \<noteq> L \<and> ll_next_tbl r \<noteq> InvalidOid) \<longleftrightarrow> OidIsValid (fst d)"
    using ends(2) succ d unfolding OidIsValid_def by (metis fst_conv)
  then have downstream: "downstream_fold L rs = (if OidIsValid (fst d) then d else no_address)"
    unfolding downstream_fold_def using succ by (subst fold_pick[where w = d]) auto
  have rs_ne: "rs \<noteq> []" using rs ls by auto
  have e': "(cv_upstream_tbl e, cv_upstream_tid e) = upstream_of us"
    "(cv_downstream_tbl e, cv_downstream_tid e) = (if OidIsValid (fst d) then d else no_address)"
    "adj_list_ok (cv_adj e)" "al_data (cv_adj e) \<noteq> []"
    using e rs_ne upstream downstream by (simp_all add: entry_of_def)
  show ?thesis
  proof (cases ds)
    case Nil
    then have "\<not> ItemPointerIsValid (snd d)" using ds by (simp add: block_list_def)
    then show ?thesis using e' Nil
      by (auto simp: entry_for_def no_address_def split: if_splits)
  next
    case (Cons b bs)
    then have "b = d" "OidIsValid (fst d)" "ItemPointerIsValid (snd d)" "fst d = A"
      using ds by (auto simp: block_list_def)
    then show ?thesis using e' Cons by (auto simp: entry_for_def)
  qed
qed

subsection \<open>The metadata\<close>

text \<open>Updating a row that is there succeeds when nobody else changes the table; the new version takes
  its place somewhere in the order of the scan.\<close>

definition catalog_updates :: "ddl_api \<Rightarrow> bool" where
  "catalog_updates ddl \<longleftrightarrow> (\<forall>rows old new. old \<in> set rows \<longrightarrow>
     (\<exists>rows'. ddl_update ddl rows old new = Some rows' \<and> mset rows' = add_mset new (mset rows - {#old#})))"

definition inactive_row :: "meta_row \<Rightarrow> bool" where
  "inactive_row row \<longleftrightarrow> mr_active row \<noteq> Some True \<and> mr_compacted row \<noteq> Some True"

lemma oldest_fold:
  "fold oldest_step rows best = best \<or>
   (\<exists>row \<in> set rows. inactive_row row \<and> fold oldest_step rows best = (mr_tbl row, mr_id row))"
proof (induction rows arbitrary: best)
  case (Cons row rows)
  from Cons.IH[of "oldest_step row best"] show ?case
    by (auto simp: oldest_step_def inactive_row_def)
qed simp

lemma get_oldest_row:
  assumes "OidIsValid (get_oldest_inactive_linked_list rows)"
  shows "\<exists>row \<in> set rows. inactive_row row \<and> mr_tbl row = get_oldest_inactive_linked_list rows"
  using assms oldest_fold[of rows "(InvalidOid, 0x7FFFFFFFFFFFFFFF)"]
  by (auto simp: get_oldest_inactive_linked_list_def OidIsValid_def)

lemma choose_oldest_list_Inr:
  assumes "choose_oldest_list ddl cat g l lab ns = Inr (L, cat')"
  shows "OidIsValid L" "L = get_oldest_inactive_linked_list (cat_meta cat' (lc_linked_list_meta lab))"
  using assms by (auto simp: choose_oldest_list_def Let_def split: if_splits)

lemma mark_compacted_Inr:
  assumes "catalog_updates ddl" "row \<in> set (cat_meta cat meta)" "mr_tbl row = L"
  shows "\<exists>cat'. mark_compacted ddl cat meta L = Inr cat'
    \<and> (\<exists>row \<in> set (cat_meta cat' meta). mr_tbl row = L \<and> mr_compacted row = Some True)"
proof -
  obtain row' where row': "find (\<lambda>row. mr_tbl row = L) (cat_meta cat meta) = Some row'"
    using assms(2,3) by (cases "find (\<lambda>row. mr_tbl row = L) (cat_meta cat meta)") (auto simp: find_None_iff)
  then have "row' \<in> set (cat_meta cat meta)" "mr_tbl row' = L" by (auto simp: find_Some_iff)
  moreover from this(1) obtain rows' where
    "ddl_update ddl (cat_meta cat meta) row' (row' \<lparr> mr_compacted := Some True \<rparr>) = Some rows'"
    "mset rows' = add_mset (row' \<lparr> mr_compacted := Some True \<rparr>) (mset (cat_meta cat meta) - {#row'#})"
    using assms(1) unfolding catalog_updates_def by blast
  moreover from this(2) have "row' \<lparr> mr_compacted := Some True \<rparr> \<in> set rows'"
    by (metis set_mset_mset union_single_eq_member)
  moreover have "mark_compacted ddl cat meta L = Inr (cat \<lparr> cat_meta := (cat_meta cat)(meta := rows') \<rparr>)"
    using row' calculation(3) by (simp add: mark_compacted_def update_meta_def)
  ultimately show ?thesis
    by (intro exI[of _ "cat \<lparr> cat_meta := (cat_meta cat)(meta := rows') \<rparr>"] conjI
        bexI[of _ "row' \<lparr> mr_compacted := Some True \<rparr>"]) simp_all
qed

subsection \<open>Compaction\<close>

definition moved :: "(address \<Rightarrow> item option) \<Rightarrow> address list \<Rightarrow> address list \<Rightarrow> nat" where
  "moved F ls ds = length ls + length (chain_members F (take 1 ds))"

text \<open>What is assumed of the label: the lists of its vertices \<open>V\<close> do not meet, they hold every record of
  the linked list \<open>L\<close>, no vertex has more than 2^24 of them, and the array list has room.\<close>

definition label_compactable ::
  "'p page_api \<Rightarrow> catalog \<Rightarrow> 'p db \<Rightarrow> oid \<Rightarrow> oid \<Rightarrow> oid \<Rightarrow> 64 word set \<Rightarrow> (64 word \<Rightarrow> address list)
    \<Rightarrow> (64 word \<Rightarrow> address list) \<Rightarrow> (64 word \<Rightarrow> address list) \<Rightarrow> bool" where
  "label_compactable api cat db A L pmap V us ls ds \<longleftrightarrow> OidIsValid A \<and> A \<noteq> L \<and> finite V
     \<and> (\<forall>v \<in> V. list_ready cat A L pmap (fetch_item api db) v (us v) (ls v) (ds v)
          \<and> moved (fetch_item api db) (ls v) (ds v) \<le> 2 ^ 24)
     \<and> (\<forall>a. fst a = L \<longrightarrow> fetch_item api db a \<noteq> None \<longrightarrow> (\<exists>v \<in> V. a \<in> set (ls v)))
     \<and> apart (\<lambda>v. footprint pmap v (us v @ ls v) (ds v)) V
     \<and> length (db A) + (\<Sum>v \<in> V. moved (fetch_item api db) (ls v) (ds v)) \<le> 0xFFFFFFFF"

lemma chain_versions_members:
  "chain_versions F as = map (\<lambda>m. (half_of_member m, mvcc.truncate m)) (chain_members F as)"
proof -
  have "item_versions x = map (\<lambda>m. (half_of_member m, mvcc.truncate m)) (item_members x)" for x
    by (cases x rule: item_versions.cases)
      (simp_all add: half_of_linked_def half_of_member_def member_of_record_def mvcc.truncate_def)
  then show ?thesis by (simp add: chain_versions_def chain_members_def map_concat comp_def)
qed

lemma same_versions:
  "mset (chain_members F as) = mset (chain_members F' bs) \<Longrightarrow>
   mset (chain_versions F as) = mset (chain_versions F' bs)"
  by (simp add: chain_versions_members)

text \<open>What is promised: the list of every vertex consists of the records that stay and of blocks, and has
  the same edges as before, each in the same version.\<close>

definition list_compacted ::
  "(address \<Rightarrow> item option) \<Rightarrow> (address \<Rightarrow> item option) \<Rightarrow> oid \<Rightarrow> oid \<Rightarrow> 64 word \<Rightarrow> address list
    \<Rightarrow> address list \<Rightarrow> address list \<Rightarrow> address list \<Rightarrow> bool" where
  "list_compacted F F' A pmap v us ls ds bs \<longleftrightarrow>
     (\<exists>r d. F' (pmap, vertex_slot v) = Some (PhysMap r) \<and> linked_part F' r us d \<and> block_list F' A d bs)
     \<and> mset (chain_versions F' (us @ bs)) = mset (chain_versions F (us @ ls @ ds))"

lemma owned_addresses:
  assumes comp: "label_compactable api cat db A L pmap V us ls ds" and as: "distinct as"
    "set as = {a. fst a = L \<and> fetch_item api db a \<noteq> None}" "rs = map (linked_at (fetch_item api db)) as"
  shows "v \<in> V \<Longrightarrow> mset (owned v rs) = mset (map (linked_at (fetch_item api db)) (ls v))"
    "v \<notin> V \<Longrightarrow> owned v rs = []"
proof -
  let ?F = "fetch_item api db"
  have ready: "\<And>v. v \<in> V \<Longrightarrow> list_ready cat A L pmap ?F v (us v) (ls v) (ds v)"
    and cover: "\<And>a. fst a = L \<Longrightarrow> ?F a \<noteq> None \<Longrightarrow> \<exists>v \<in> V. a \<in> set (ls v)"
    using comp unfolding label_compactable_def by blast+
  have in_ls: "fst a = L \<and> ?F a \<noteq> None \<and> ll_owner_id (linked_at ?F a) = w" if "w \<in> V" "a \<in> set (ls w)" for a w
    using ready[OF that(1)] that(2) by (auto simp: list_ready_def linked_at_def)
  have owner: "ll_owner_id (linked_at ?F a) = v \<longleftrightarrow> v \<in> V \<and> a \<in> set (ls v)" if "a \<in> set as" for a v
  proof -
    have "fst a = L" "?F a \<noteq> None" using that as(2) by auto
    then obtain w where w: "w \<in> V" "a \<in> set (ls w)" using cover by blast
    then have "ll_owner_id (linked_at ?F a) = w" using in_ls by blast
    moreover have "ll_owner_id (linked_at ?F a) = v" if "v \<in> V" "a \<in> set (ls v)" using in_ls[OF that] by blast
    ultimately show ?thesis using w by blast
  qed
  have owned: "owned v rs = map (linked_at ?F) (filter (\<lambda>a. v \<in> V \<and> a \<in> set (ls v)) as)" for v
    unfolding owned_def as(3) filter_map comp_def
    by (rule arg_cong[where f = "map (linked_at ?F)"], rule filter_cong) (simp_all add: owner)
  show "v \<notin> V \<Longrightarrow> owned v rs = []" by (simp add: owned)
  assume v: "v \<in> V"
  have "distinct (ls v)" using ready[OF v] by (auto simp: list_ready_def linked_part_def)
  moreover have "set (filter (\<lambda>a. v \<in> V \<and> a \<in> set (ls v)) as) = set (ls v)"
    using v in_ls as(2) by auto
  ultimately have "mset (filter (\<lambda>a. v \<in> V \<and> a \<in> set (ls v)) as) = mset (ls v)"
    using as(1) by (subst set_eq_iff_mset_eq_distinct[symmetric]) simp_all
  then show "mset (owned v rs) = mset (map (linked_at ?F) (ls v))" by (simp add: owned)
qed

lemma chain_members_linked:
  "(\<And>a. a \<in> set ls \<Longrightarrow> \<exists>r. F a = Some (Linked r)) \<Longrightarrow>
   chain_members F ls = map (member_of_record \<circ> linked_at F) ls"
proof (induction ls)
  case (Cons a ls)
  have "\<exists>r. F a = Some (Linked r)" by (rule Cons.prems) simp
  then obtain r where "F a = Some (Linked r)" by blast
  then show ?case using Cons by (simp add: chain_members_def linked_at_def)
qed (simp add: chain_members_def)

lemma collected:
  assumes ok: "store_ok api db" and comp: "label_compactable api cat db A L pmap V us ls ds" and L: "OidIsValid L"
  shows "\<exists>hash. collect_items L [] (relation_items api db L) = Inr hash \<and> distinct (map fst hash)
    \<and> fst ` set hash = {v \<in> V. ls v \<noteq> []}
    \<and> (\<forall>v e. (v, e) \<in> set hash \<longrightarrow> ready_entry cat A pmap (fetch_item api db) v e (us v) (ds v)
          \<and> mset (al_data (cv_adj e)) = mset (chain_members (fetch_item api db) (ls v)))"
proof -
  let ?F = "fetch_item api db"
  have ready: "\<And>v. v \<in> V \<Longrightarrow> list_ready cat A L pmap ?F v (us v) (ls v) (ds v)"
    and cover: "\<And>a. fst a = L \<Longrightarrow> ?F a \<noteq> None \<Longrightarrow> \<exists>v \<in> V. a \<in> set (ls v)"
    and small: "\<And>v. v \<in> V \<Longrightarrow> moved ?F (ls v) (ds v) \<le> 2 ^ 24" and A: "A \<noteq> L"
    using comp unfolding label_compactable_def by blast+
  have linked: "\<exists>r. ?F a = Some (Linked r)" if "v \<in> V" "a \<in> set (ls v)" for v a
    using ready[OF that(1)] that(2) unfolding list_ready_def by blast
  obtain as where as: "distinct as" "map ?F as = map Some (relation_items api db L)"
    "set as = {a. fst a = L \<and> ?F a \<noteq> None}"
    using relation_addresses[of api db L] ok by (auto simp: store_ok_def)
  define rs where "rs = map (linked_at ?F) as"
  have "?F a = Some (Linked (linked_at ?F a))" if "a \<in> set as" for a
  proof -
    have "fst a = L" "?F a \<noteq> None" using that as(3) by auto
    then obtain v where "v \<in> V" "a \<in> set (ls v)" using cover by blast
    from linked[OF this] show ?thesis by (auto simp: linked_at_def)
  qed
  then have "map ?F as = map Some (map Linked rs)" by (simp add: rs_def)
  then have items: "relation_items api db L = map Linked rs"
    using as(2) by (metis (no_types, lifting) inj_Some inj_map_eq_map)
  note own = owned_addresses[OF comp as(1,3) rs_def]
  have len: "length (owned v rs) \<le> 2 ^ 24" for v
  proof (cases "v \<in> V")
    case True
    then show ?thesis using small[OF True] arg_cong[OF own(1)[OF True], of size] by (simp add: moved_def)
  qed (simp add: own(2))
  have "hash_of L [] []" by (simp add: hash_of_def owned_def)
  from collect_items_hash[OF this, of rs] len
  obtain hash where hash: "collect_items L [] (map Linked rs) = Inr hash" "hash_of L rs hash" by auto
  then have dist: "distinct (map fst hash)" by (simp add: hash_of_def)
  have look: "case map_of hash v of None \<Rightarrow> owned v rs = []
      | Some e \<Rightarrow> owned v rs \<noteq> [] \<and> entry_of L (owned v rs) e" for v
    using hash(2) unfolding hash_of_def by blast
  have ne: "owned v rs \<noteq> [] \<longleftrightarrow> v \<in> V \<and> ls v \<noteq> []" for v
    using own[of v] by (cases "v \<in> V") (auto dest: arg_cong[of _ _ size])
  have keys: "v \<in> fst ` set hash \<longleftrightarrow> v \<in> V \<and> ls v \<noteq> []" for v
    using look[of v] ne[of v] by (cases "map_of hash v") (auto simp: map_of_eq_None_iff dest!: map_of_SomeD, force)
  have entries: "ready_entry cat A pmap ?F v e (us v) (ds v)
      \<and> mset (al_data (cv_adj e)) = mset (chain_members ?F (ls v))" if ve: "(v, e) \<in> set hash" for v e
  proof -
    have v: "v \<in> V" "ls v \<noteq> []" using keys[of v] ve by force+
    have e: "entry_of L (owned v rs) e" using look[of v] map_of_is_SomeI[OF dist ve] by simp
    have set: "set (owned v rs) = linked_at ?F ` set (ls v)"
      using own(1)[OF v(1)] by (metis set_map set_mset_mset)
    have "al_data (cv_adj e) = map member_of_record (owned v rs)" using e by (simp add: entry_of_def)
    then have "mset (al_data (cv_adj e)) = image_mset member_of_record (mset (owned v rs))" by simp
    then have members: "mset (al_data (cv_adj e)) = mset (chain_members ?F (ls v))"
      using chain_members_linked[of "ls v" ?F] linked[OF v(1)] own(1)[OF v(1)]
      by (simp add: multiset.map_comp)
    have "length (al_data (cv_adj e)) = length (ls v)"
      using arg_cong[OF members, of size] chain_members_linked[of "ls v" ?F] linked[OF v(1)] by simp
    then have rep: "replaced ?F e (ds v) = moved ?F (ls v) (ds v)" by (simp add: replaced_def moved_def)
    obtain r d where slot: "?F (pmap, vertex_slot v) = Some (PhysMap r)"
      and lp: "linked_part ?F r (us v @ ls v) d" and bl: "block_list ?F A d (ds v)"
      using ready[OF v(1)] unfolding list_ready_def by blast
    have "\<exists>d'. linked_part ?F r (us v) d'" using lp by (auto simp: linked_part_def chain_path_append)
    then have "ready_entry cat A pmap ?F v e (us v) (ds v)"
      using ready[OF v(1)] small[OF v(1)] slot bl entry_for_list[OF ready[OF v(1)] v(2) e set L A] rep
      unfolding ready_entry_def list_ready_def by auto
    then show ?thesis using members by blast
  qed
  show ?thesis using hash(1) dist keys entries unfolding items by (intro exI[of _ hash]) auto
qed

lemma list_compacted_entry:
  assumes "entry_done F F' A (pmap, vertex_slot v) e us ds ns"
    "mset (al_data (cv_adj e)) = mset (chain_members F ls)"
  shows "list_compacted F F' A pmap v us ls ds (ns @ tl ds)"
proof -
  obtain r where "F' (pmap, vertex_slot v) = Some (PhysMap r)" "linked_part F' r us (hd ns)"
    "block_list F' A (hd ns) (ns @ tl ds)"
    using assms(1) unfolding entry_done_def by blast
  moreover have "chain_members F' (us @ ns @ tl ds) = chain_members F us @ al_data (cv_adj e) @ chain_members F ds"
    using assms(1) unfolding entry_done_def by blast
  then have "mset (chain_members F' (us @ ns @ tl ds)) = mset (chain_members F (us @ ls @ ds))"
    using assms(2) by (simp add: chain_members_append)
  ultimately show ?thesis unfolding list_compacted_def using same_versions by blast
qed

lemma list_compacted_unchanged:
  assumes "list_ready cat A L pmap F v us [] ds" "changes_only X F F'"
    "footprint pmap v us ds \<inter> X = {}"
  shows "list_compacted F F' A pmap v us [] ds ds"
proof -
  obtain r d where slot: "F (pmap, vertex_slot v) = Some (PhysMap r)" and lp: "linked_part F r us d"
    and bl: "block_list F A d ds"
    using assms(1) by (auto simp: list_ready_def)
  have same: "F' a = F a" if "F a \<noteq> None" "a \<in> footprint pmap v us ds" for a
    using changes_onlyD(2)[OF assms(2) that(1)] that(2) assms(3) by blast
  have us: "F' a = F a" if "a \<in> set us" for a
    using same[of a] lp that by (auto simp: footprint_def linked_part_def)
  have ds: "F' a = F a" if "a \<in> set ds" for a
    using same[of a] bl that by (auto simp: footprint_def block_list_def)
  have "F' (pmap, vertex_slot v) = Some (PhysMap r)" using same slot by (simp add: footprint_def)
  moreover have "chain_members F' (us @ ds) = chain_members F (us @ ds)"
    by (rule chain_members_frame) (use us ds in auto)
  then have "chain_versions F' (us @ ds) = chain_versions F (us @ ds)" by (simp add: chain_versions_members)
  ultimately show ?thesis unfolding list_compacted_def
    using linked_part_frame[OF lp us] block_list_frame[OF bl ds]
    by (intro conjI exI[of _ r] exI[of _ d]) simp_all
qed

lemma compact_vertices:
  assumes ok: "store_ok api db" and comp: "label_compactable api cat db A L pmap V us ls ds"
    and L: "OidIsValid L" and trav: "\<forall>hash. mset (traverse hash) = mset hash"
  shows "\<exists>hash db' bs. collect_items L [] (relation_items api db L) = Inr hash
    \<and> compact_entries api cat fxid cid A pmap (traverse hash) db = Inr db' \<and> store_ok api db'
    \<and> (\<forall>v \<in> V. list_compacted (fetch_item api db) (fetch_item api db') A pmap v (us v) (ls v) (ds v) (bs v))
    \<and> apart (\<lambda>v. footprint pmap v (us v) (bs v)) V"
proof -
  let ?F = "fetch_item api db" and ?foot = "\<lambda>v. footprint pmap v (us v @ ls v) (ds v)"
  have A: "OidIsValid A" and fin: "finite V" and ap: "apart ?foot V"
    and room: "length (db A) + (\<Sum>v \<in> V. moved ?F (ls v) (ds v)) \<le> 0xFFFFFFFF"
    and ready: "\<And>v. v \<in> V \<Longrightarrow> list_ready cat A L pmap ?F v (us v) (ls v) (ds v)"
    using comp unfolding label_compactable_def by blast+
  obtain hash where hash: "collect_items L [] (relation_items api db L) = Inr hash" "distinct (map fst hash)"
    and keys: "fst ` set hash = {v \<in> V. ls v \<noteq> []}"
    and entries: "\<And>v e. (v, e) \<in> set hash \<Longrightarrow> ready_entry cat A pmap ?F v e (us v) (ds v)
        \<and> mset (al_data (cv_adj e)) = mset (chain_members ?F (ls v))"
    using collected[OF ok comp L] by blast
  let ?todo = "traverse hash"
  have perm: "mset ?todo = mset hash" using trav by blast
  have set: "set ?todo = set hash" using perm by (metis set_mset_mset)
  have "mset (map fst ?todo) = mset (map fst hash)" using perm by simp
  then have dist: "distinct (map fst ?todo)" using hash(2) mset_eq_imp_distinct_iff by blast
  have "length (al_data (cv_adj e)) = length (ls v)" if "(v, e) \<in> set hash" for v e
  proof -
    have "v \<in> V" using keys that by force
    then have "length (chain_members ?F (ls v)) = length (ls v)"
      using ready[of v] chain_members_linked[of "ls v" ?F] by (fastforce simp: list_ready_def)
    then show ?thesis using arg_cong[OF conjunct2[OF entries[OF that]], of size] by simp
  qed
  then have rep: "replaced ?F e (ds v) = moved ?F (ls v) (ds v)" if "(v, e) \<in> set ?todo" for v e
    using that by (simp add: set replaced_def moved_def)
  have "(\<Sum>(v, e)\<leftarrow>?todo. replaced ?F e (ds v)) = (\<Sum>v\<leftarrow>map fst ?todo. moved ?F (ls v) (ds v))"
    unfolding map_map by (rule arg_cong[where f = sum_list], rule map_cong) (use rep in auto)
  also have "\<dots> = (\<Sum>v \<in> fst ` set hash. moved ?F (ls v) (ds v))"
    unfolding sum_list_distinct_conv_sum_set[OF dist] by (simp add: set)
  also have "\<dots> \<le> (\<Sum>v \<in> V. moved ?F (ls v) (ds v))"
    by (rule sum_mono2) (use fin keys in auto)
  finally have sum: "length (db A) + (\<Sum>(v, e)\<leftarrow>?todo. replaced ?F e (ds v)) \<le> 0xFFFFFFFF" using room by simp
  have sub: "footprint pmap v (us v) (ds v) \<subseteq> ?foot v" for v by (auto simp: footprint_def)
  have ap': "apart (\<lambda>v. footprint pmap v (us v) (ds v)) V"
    using ap sub unfolding apart_def by blast
  have ap_todo: "apart (\<lambda>v. footprint pmap v (us v) (ds v)) (fst ` set ?todo)"
    using apart_subset[OF ap', of "fst ` set ?todo"] keys set by auto
  have "ready_entry cat A pmap ?F v e (us v) (ds v)" if "(v, e) \<in> set ?todo" for v e
    using entries that set by blast
  from compact_entries_all[OF ok A dist this ap_todo sum, of fxid cid]
  obtain db' new where run: "compact_entries api cat fxid cid A pmap ?todo db = Inr db'" "store_ok api db'"
    and done': "\<And>v e. (v, e) \<in> set ?todo \<Longrightarrow> entry_done ?F (fetch_item api db') A (pmap, vertex_slot v) e
        (us v) (ds v) (new v)"
    and ap_new: "apart (\<lambda>v. set (new v)) (fst ` set ?todo)"
    and ch: "changes_only (\<Union>v \<in> fst ` set ?todo. footprint pmap v (us v) (ds v)) ?F (fetch_item api db')"
    by blast
  define bs where "bs v = (if ls v = [] then ds v else new v @ tl (ds v))" for v
  have in_todo: "v \<in> fst ` set ?todo \<longleftrightarrow> v \<in> V \<and> ls v \<noteq> []" for v using keys set by auto
  have fresh: "?F a = None" if "v \<in> V" "ls v \<noteq> []" "a \<in> set (new v)" for v a
  proof -
    have "v \<in> fst ` set ?todo" using in_todo that by blast
    then obtain e where "(v, e) \<in> set ?todo" by force
    then show ?thesis using done' that(3) by (simp add: entry_done_def)
  qed
  have used: "?F a \<noteq> None" if "v \<in> V" "a \<in> footprint pmap v (us v) (ds v)" for v a
    using ready[OF that(1)] that(2) unfolding list_ready_def footprint_def linked_part_def block_list_def
    by fastforce
  have compacted: "list_compacted ?F (fetch_item api db') A pmap v (us v) (ls v) (ds v) (bs v)" if v: "v \<in> V" for v
  proof (cases "ls v = []")
    case True
    have "footprint pmap v (us v) (ds v) \<inter> footprint pmap w (us w) (ds w) = {}" if "w \<in> fst ` set ?todo" for w
    proof -
      have "w \<in> V" "w \<noteq> v" using that in_todo True by auto
      then show ?thesis using ap' v unfolding apart_def by blast
    qed
    then have "footprint pmap v (us v) (ds v) \<inter>
        (\<Union>v \<in> fst ` set ?todo. footprint pmap v (us v) (ds v)) = {}" by blast
    with list_compacted_unchanged[OF ready[OF v, unfolded True] ch] show ?thesis by (simp add: bs_def True)
  next
    case False
    then have "v \<in> fst ` set ?todo" using in_todo v by blast
    then obtain e where e: "(v, e) \<in> set ?todo" by force
    then have "mset (al_data (cv_adj e)) = mset (chain_members ?F (ls v))" using entries set by blast
    from list_compacted_entry[OF done'[OF e] this] show ?thesis by (simp add: bs_def False)
  qed
  have "footprint pmap v (us v) (bs v) \<inter> footprint pmap w (us w) (bs w) = {}"
    if vw: "v \<in> V" "w \<in> V" "v \<noteq> w" for v w
  proof -
    define N where "N u = (if ls u = [] then {} else set (new u))" for u
    have shape: "footprint pmap u (us u) (bs u) \<subseteq> footprint pmap u (us u) (ds u) \<union> N u" for u
      by (cases "ds u") (auto simp: bs_def N_def footprint_def)
    have N_fresh: "?F a = None" if "a \<in> N u" "u \<in> V" for a u
      using fresh[of u a] that by (simp add: N_def split: if_splits)
    have 1: "footprint pmap v (us v) (ds v) \<inter> footprint pmap w (us w) (ds w) = {}"
      using ap' vw unfolding apart_def by blast
    have "set (new v) \<inter> set (new w) = {}" if "ls v \<noteq> []" "ls w \<noteq> []"
      using ap_new in_todo vw that unfolding apart_def by blast
    then have 2: "N v \<inter> N w = {}" by (simp add: N_def)
    have 3: "footprint pmap v (us v) (ds v) \<inter> N w = {}"
      using used[OF vw(1)] N_fresh[OF _ vw(2)] by blast
    have 4: "N v \<inter> footprint pmap w (us w) (ds w) = {}"
      using used[OF vw(2)] N_fresh[OF _ vw(1)] by blast
    show ?thesis using shape[of v] shape[of w] 1 2 3 4 by blast
  qed
  then have "apart (\<lambda>v. footprint pmap v (us v) (bs v)) V" by (simp add: apart_def)
  then show ?thesis using hash(1) run compacted by blast
qed

text \<open>C5. Compacting the oldest inactive linked list of a label succeeds; every
  vertex keeps its edges with their versions, in a list of the records that stay and of blocks; the
  lists of different vertices still do not meet, and the linked list is marked as compacted.  The
  vertices have ids up to 157; behind them see C32.\<close>
theorem compaction_keeps_members:
  assumes "store_ok api db" "search_graph graph_name namespace = Some graph_id"
    "cat_vertex_label cat graph_id label_id = Some lab"
    "choose_oldest_list ddl cat graph_id label_id lab namespace = Inr (L, cat1)"
    "label_compactable api cat1 db (lc_arraylist lab) L (lc_phys_map lab) V us ls ds"
    "\<forall>hash. mset (traverse hash) = mset hash" "catalog_updates ddl"
  shows "\<exists>db' cat' bs. compact_oldest_linked_list_table api ddl search_graph traverse fxid cid cat db
        namespace graph_name label_id = Inr (db', cat') \<and> store_ok api db'
    \<and> (\<forall>v \<in> V. list_compacted (fetch_item api db) (fetch_item api db') (lc_arraylist lab) (lc_phys_map lab) v
          (us v) (ls v) (ds v) (bs v))
    \<and> apart (\<lambda>v. footprint (lc_phys_map lab) v (us v) (bs v)) V
    \<and> (\<exists>row \<in> set (cat_meta cat' (lc_linked_list_meta lab)). mr_tbl row = L \<and> mr_compacted row = Some True)"
proof -
  note L = choose_oldest_list_Inr[OF assms(4)]
  obtain hash db' bs where h: "collect_items L [] (relation_items api db L) = Inr hash"
    "compact_entries api cat1 fxid cid (lc_arraylist lab) (lc_phys_map lab) (traverse hash) db = Inr db'"
    and r: "store_ok api db'" "\<forall>v \<in> V. list_compacted (fetch_item api db) (fetch_item api db') (lc_arraylist lab)
        (lc_phys_map lab) v (us v) (ls v) (ds v) (bs v)"
      "apart (\<lambda>v. footprint (lc_phys_map lab) v (us v) (bs v)) V"
    using compact_vertices[OF assms(1,5) L(1) assms(6), of fxid cid] by blast
  obtain row where "row \<in> set (cat_meta cat1 (lc_linked_list_meta lab))" "mr_tbl row = L"
    using get_oldest_row[of "cat_meta cat1 (lc_linked_list_meta lab)"] L by metis
  from mark_compacted_Inr[OF assms(7) this]
  obtain cat' where c: "mark_compacted ddl cat1 (lc_linked_list_meta lab) L = Inr cat'"
    "\<exists>row \<in> set (cat_meta cat' (lc_linked_list_meta lab)). mr_tbl row = L \<and> mr_compacted row = Some True"
    by blast
  have "compact_oldest_linked_list_table api ddl search_graph traverse fxid cid cat db namespace graph_name
      label_id = Inr (db', cat')"
    by (simp add: compact_oldest_linked_list_table_def assms(2-4) h c(1))
  then show ?thesis using r c(2) by blast
qed

subsection \<open>Finding a list to compact\<close>

lemma oldest_found:
  "\<exists>row \<in> set rows. inactive_row row \<and> sint (mr_id row) < sint (snd best) \<Longrightarrow>
   \<exists>row \<in> set rows. inactive_row row \<and> fold oldest_step rows best = (mr_tbl row, mr_id row)"
proof (induction rows arbitrary: best)
  case (Cons row rows)
  show ?case
  proof (cases "oldest_step row best = best")
    case True
    then have "\<not> (inactive_row row \<and> sint (mr_id row) < sint (snd best))"
      by (auto simp: oldest_step_def inactive_row_def)
    then show ?thesis using Cons.IH[of best] Cons.prems True by auto
  next
    case False
    then have row: "inactive_row row" "oldest_step row best = (mr_tbl row, mr_id row)"
      by (auto simp: oldest_step_def inactive_row_def split: if_splits)
    then show ?thesis using oldest_fold[of rows "(mr_tbl row, mr_id row)"] by auto
  qed
qed simp

text \<open>A metadata table in order: every list is there once, one of them is active and not compacted.\<close>

definition meta_in_order :: "meta_row list \<Rightarrow> bool" where
  "meta_in_order rows \<longleftrightarrow> distinct (map mr_tbl rows)
     \<and> (\<forall>row \<in> set rows. OidIsValid (mr_tbl row) \<and> sint (mr_id row) < 0x7FFFFFFFFFFFFFFF)
     \<and> (\<exists>row \<in> set rows. mr_active row = Some True \<and> mr_compacted row \<noteq> Some True
          \<and> (\<forall>row' \<in> set rows. mr_active row' = Some True \<longrightarrow> row' = row))"

text \<open>Creating a relation gives it an id that is not in use, and leaves the metadata alone.\<close>

definition ddl_laws :: "ddl_api \<Rightarrow> catalog \<Rightarrow> bool" where
  "ddl_laws ddl cat \<longleftrightarrow> catalog_updates ddl
     \<and> (\<forall>rows new. mset (ddl_insert ddl rows new) = add_mset new (mset rows))
     \<and> (\<forall>seq. cat_meta (snd (ddl_nextval ddl cat seq)) = cat_meta cat)
     \<and> (\<forall>cat' ns name. cat_meta cat' = cat_meta cat \<longrightarrow>
          cat_meta (snd (ddl_create ddl cat' ns name)) = cat_meta cat
          \<and> OidIsValid (fst (ddl_create ddl cat' ns name))
          \<and> (\<forall>meta. \<forall>row \<in> set (cat_meta cat meta). mr_tbl row \<noteq> fst (ddl_create ddl cat' ns name)))"

lemma first_active_row:
  "row \<in> set rows \<Longrightarrow> mr_active row = Some True \<Longrightarrow>
   \<exists>row' \<in> set rows. mr_active row' = Some True \<and> first_active rows = mr_tbl row'"
  by (induction rows) auto

lemma oldest_among:
  assumes "\<forall>row \<in> set rows. inactive_row row \<longrightarrow> OidIsValid (mr_tbl row)"
    "\<exists>row \<in> set rows. inactive_row row \<and> sint (mr_id row) < 0x7FFFFFFFFFFFFFFF"
  shows "OidIsValid (get_oldest_inactive_linked_list rows)"
  using oldest_found[of rows "(InvalidOid, 0x7FFFFFFFFFFFFFFF)"] assms
  by (auto simp: get_oldest_inactive_linked_list_def)

text \<open>C31. There is always a list to compact: when no list is inactive, the active one
  is replaced by a new one first.  What is chosen was in the table, is not compacted yet and is not
  the list that edges are inserted into.\<close>
theorem list_to_compact_found:
  assumes "ddl_laws ddl cat" "meta_in_order (cat_meta cat (lc_linked_list_meta lab))"
    "OidIsValid (lc_linked_list_seq lab)" "OidIsValid (lc_linked_list_meta lab)"
  shows "\<exists>L cat'. choose_oldest_list ddl cat graph_id label_id lab namespace = Inr (L, cat')
    \<and> (\<exists>row \<in> set (cat_meta cat (lc_linked_list_meta lab)). mr_tbl row = L \<and> mr_compacted row \<noteq> Some True)
    \<and> get_active_linked_list_oid cat' (lc_linked_list_meta lab) \<noteq> L"
proof -
  define meta where "meta = lc_linked_list_meta lab"
  define rows where "rows = cat_meta cat meta"
  have valid: "\<And>row. row \<in> set rows \<Longrightarrow> OidIsValid (mr_tbl row) \<and> sint (mr_id row) < 0x7FFFFFFFFFFFFFFF"
    and dist: "distinct (map mr_tbl rows)"
    using assms(2) by (simp_all add: meta_in_order_def rows_def meta_def)
  obtain act where act: "act \<in> set rows" "mr_active act = Some True" "mr_compacted act \<noteq> Some True"
    and only: "\<And>row. row \<in> set rows \<Longrightarrow> mr_active row = Some True \<Longrightarrow> row = act"
    using assms(2) unfolding meta_in_order_def rows_def meta_def by blast
  have same_tbl: "row = row'" if "row \<in> set rows" "row' \<in> set rows" "mr_tbl row = mr_tbl row'" for row row'
    using dist that by (auto simp: distinct_map inj_on_def)
  show ?thesis
  proof (cases "OidIsValid (get_oldest_inactive_linked_list rows)")
    case True
    obtain row where row: "row \<in> set rows" "inactive_row row" "mr_tbl row = get_oldest_inactive_linked_list rows"
      using get_oldest_row[OF True] by blast
    obtain row' where row': "row' \<in> set rows" "mr_active row' = Some True" "first_active rows = mr_tbl row'"
      using first_active_row[OF act(1,2)] by blast
    have "first_active rows \<noteq> mr_tbl row"
    proof
      assume "first_active rows = mr_tbl row"
      then have "row = row'" using same_tbl[OF row(1) row'(1)] row'(3) by metis
      then show False using row(2) row'(2) unfolding inactive_row_def by metis
    qed
    then have "get_active_linked_list_oid cat meta \<noteq> mr_tbl row"
      using assms(4) by (simp add: get_active_linked_list_oid_def rows_def meta_def)
    moreover have "choose_oldest_list ddl cat graph_id label_id lab namespace = Inr (mr_tbl row, cat)"
      using True unfolding row(3) by (simp add: choose_oldest_list_def rows_def meta_def)
    moreover have "mr_compacted row \<noteq> Some True" using row(2) by (simp add: inactive_row_def)
    ultimately show ?thesis using row(1) unfolding rows_def meta_def by blast
  next
    case False
    obtain part cat1 where next_id: "ddl_nextval ddl cat (lc_linked_list_seq lab) = (part, cat1)"
      by (cases "ddl_nextval ddl cat (lc_linked_list_seq lab)")
    obtain tbl cat2 where create: "ddl_create ddl cat1 namespace (graph_id, label_id, part) = (tbl, cat2)"
      by (cases "ddl_create ddl cat1 namespace (graph_id, label_id, part)")
    have "cat_meta (snd (ddl_nextval ddl cat (lc_linked_list_seq lab))) = cat_meta cat"
      using assms(1) unfolding ddl_laws_def by blast
    then have cat1: "cat_meta cat1 = cat_meta cat" by (simp add: next_id)
    have "cat_meta (snd (ddl_create ddl cat1 namespace (graph_id, label_id, part))) = cat_meta cat
        \<and> OidIsValid (fst (ddl_create ddl cat1 namespace (graph_id, label_id, part)))
        \<and> (\<forall>meta. \<forall>row \<in> set (cat_meta cat meta).
             mr_tbl row \<noteq> fst (ddl_create ddl cat1 namespace (graph_id, label_id, part)))"
      using assms(1) cat1 unfolding ddl_laws_def by blast
    then have cat2: "cat_meta cat2 = cat_meta cat" and tbl: "OidIsValid tbl" "\<And>row. row \<in> set rows \<Longrightarrow> mr_tbl row \<noteq> tbl"
      by (auto simp: rows_def create)
    have found: "find (\<lambda>row. mr_active row = Some True) rows = Some act"
    proof (cases "find (\<lambda>row. mr_active row = Some True) rows")
      case None
      then show ?thesis using act by (simp add: find_None_iff)
    next
      case (Some row)
      then have "row \<in> set rows" "mr_active row = Some True" by (auto simp: find_Some_iff)
      then have "row = act" by (rule only)
      then show ?thesis using Some by simp
    qed
    define act' where "act' = act \<lparr> mr_active := Some False \<rparr>"
    define new where "new = \<lparr> mr_id = scast part, mr_tbl = tbl, mr_active = Some True, mr_compacted = Some False \<rparr>"
    obtain rows1 where upd: "ddl_update ddl rows act act' = Some rows1"
      and rows1: "mset rows1 = add_mset act' (mset rows - {#act#})"
      using assms(1) act(1) unfolding ddl_laws_def catalog_updates_def by blast
    define rows2 where "rows2 = ddl_insert ddl rows1 new"
    define cat' where "cat' = cat2 \<lparr> cat_meta := (cat_meta cat2)(meta := rows2) \<rparr>"
    have rows2: "mset rows2 = add_mset new (add_mset act' (mset rows - {#act#}))"
      using assms(1) unfolding ddl_laws_def by (simp add: rows2_def rows1)
    have set2: "row = new \<or> row = act' \<or> row \<in> set rows \<and> row \<noteq> act" if "row \<in> set rows2" for row
    proof -
      have "row \<in># mset rows2" using that by simp
      then have "row = new \<or> row = act' \<or> row \<in># mset rows - {#act#}" by (simp add: rows2)
      moreover have "act \<notin># mset rows - {#act#}"
        using conjunct1[OF dist[unfolded distinct_map]]
        by (simp add: not_in_iff distinct_count_atmost_1 act(1))
      moreover have "x \<in># mset rows - {#act#} \<Longrightarrow> x \<in> set rows" for x using in_diffD by fastforce
      ultimately show ?thesis by blast
    qed
    have in2: "new \<in> set rows2" "act' \<in> set rows2"
      using arg_cong[OF rows2, of set_mset] by auto
    have tbl_of: "OidIsValid (mr_tbl row)" if "row \<in> set rows2" for row
      using set2[OF that] tbl(1) valid act(1) by (auto simp: new_def act'_def)
    have "inactive_row act'" "sint (mr_id act') < 0x7FFFFFFFFFFFFFFF"
      using act valid[OF act(1)] by (simp_all add: inactive_row_def act'_def)
    then have oldest: "OidIsValid (get_oldest_inactive_linked_list rows2)"
      using tbl_of in2(2) by (intro oldest_among) auto
    obtain row where row: "row \<in> set rows2" "inactive_row row" "mr_tbl row = get_oldest_inactive_linked_list rows2"
      using get_oldest_row[OF oldest] by blast
    have old: "\<exists>row' \<in> set rows. mr_tbl row' = mr_tbl row \<and> mr_compacted row' \<noteq> Some True"
      using set2[OF row(1)] row(2) act by (auto simp: inactive_row_def new_def act'_def)
    obtain row' where row': "row' \<in> set rows2" "mr_active row' = Some True" "first_active rows2 = mr_tbl row'"
      using first_active_row[OF in2(1)] by (auto simp: new_def)
    have "row' = new" using set2[OF row'(1)] row'(2) only by (auto simp: act'_def)
    then have "first_active rows2 \<noteq> mr_tbl row" using row'(3) old tbl(2) by (auto simp: new_def)
    moreover have "create_new_active_linked_list ddl cat graph_id label_id (lc_linked_list_seq lab) meta namespace =
        Inr (tbl, cat')"
      using assms(3,4) tbl(1) found upd
      by (simp add: create_new_active_linked_list_def next_id create update_meta_def cat2 cat'_def rows2_def
          new_def act'_def flip: meta_def rows_def)
    moreover have "cat_meta cat' meta = rows2" by (simp add: cat'_def)
    ultimately have "get_active_linked_list_oid cat' meta \<noteq> mr_tbl row"
      and "choose_oldest_list ddl cat graph_id label_id lab namespace = Inr (mr_tbl row, cat')"
      using assms(4) False oldest unfolding row(3)
      by (simp_all add: get_active_linked_list_oid_def choose_oldest_list_def rows_def meta_def)
    then show ?thesis using old unfolding rows_def meta_def by metis
  qed
qed

subsection \<open>A small label\<close>

text \<open>Two vertices with one record each in the inactive list 14, the first of them with a block behind.\<close>

definition example_record :: "64 word \<Rightarrow> oid \<Rightarrow> item_pointer \<Rightarrow> NeoLinkedListRecord" where
  "example_record owner tbl tid =
     \<lparr> mv_xmin = 900, mv_xmax = 0, mv_cmin = 0, mv_cmax = 0, ll_id = 40 + owner, ll_edge_lid = 2, ll_dir = 0,
       ll_owner_id = owner, ll_other_id = 3, ll_other_lid = 1, ll_next_tbl = tbl, ll_next_itemptr = tid,
       ll_prev_tbl = InvalidOid, ll_prev_itemptr = InvalidItemPointer \<rparr>"

definition example_block :: NeoArrayListRecord where
  "example_block = array_block 800 0 1 \<lparr> al_maxitems = 1,
     al_data = [member_of_record (example_record 1 0 InvalidItemPointer)] \<rparr> 14 (slot_tid 1) InvalidItemPointer"

definition example_old_graph :: "list_page db" where
  "example_old_graph = (\<lambda>_. [])
     (11 := [Some [PhysMap (empty_pad \<lparr> pm_e_tbl_id := 14, pm_e_itemptr := slot_tid 1 \<rparr>),
                   PhysMap (empty_pad \<lparr> pm_e_tbl_id := 14, pm_e_itemptr := slot_tid 2 \<rparr>)]],
      12 := [Some [ArrayBlock example_block]],
      14 := [Some [Linked (example_record 1 12 (slot_tid 1)),
                   Linked (example_record 2 InvalidOid InvalidItemPointer)]])"

definition example_rows :: "meta_row list" where
  "example_rows = [\<lparr> mr_id = 1, mr_tbl = 14, mr_active = Some False, mr_compacted = Some False \<rparr>,
     \<lparr> mr_id = 2, mr_tbl = 15, mr_active = Some True, mr_compacted = Some False \<rparr>]"

definition example_old_catalog :: catalog where
  "example_old_catalog = example_catalog \<lparr> cat_meta := (\<lambda>_. example_rows) \<rparr>"

definition example_ddl :: ddl_api where
  "example_ddl = \<lparr>
     ddl_update = (\<lambda>rows old new. if old \<in> set rows then Some (remove1 old rows @ [new]) else None),
     ddl_insert = (\<lambda>rows new. rows @ [new]),
     ddl_nextval = (\<lambda>cat _. (3, cat)), ddl_create = (\<lambda>cat _ _. (16, cat)) \<rparr>"

lemma example_ddl_updates: "catalog_updates example_ddl"
  by (simp add: catalog_updates_def example_ddl_def)

text \<open>With one list, which is active, a second one is created and the first one is chosen.\<close>

lemma list_to_compact_found_witness:
  "\<exists>L cat'. choose_oldest_list example_ddl example_catalog 1 1
       (example_vertex_label \<lparr> lc_linked_list_seq := 17 \<rparr>) 2200 = Inr (L, cat')
    \<and> L = 14 \<and> get_active_linked_list_oid cat' 13 \<noteq> 14"
proof -
  have "ddl_laws example_ddl example_catalog"
    unfolding ddl_laws_def using example_ddl_updates
    by (simp add: example_ddl_def example_catalog_def OidIsValid_def InvalidOid_def)
  moreover have "meta_in_order (cat_meta example_catalog 13)"
    by (simp add: meta_in_order_def example_catalog_def OidIsValid_def InvalidOid_def)
  ultimately show ?thesis
    using list_to_compact_found[of example_ddl example_catalog "example_vertex_label \<lparr> lc_linked_list_seq := 17 \<rparr>" 1 1 2200]
    by (auto simp: example_vertex_label_def example_catalog_def OidIsValid_def InvalidOid_def)
qed

lemma example_old_fetch:
  "fetch_item list_page_api example_old_graph (t, \<lparr> ip_blkid = b, ip_posid = p \<rparr>) =
     (if b = 0 \<and> t = 11 \<and> p = 1 then Some (PhysMap (empty_pad \<lparr> pm_e_tbl_id := 14, pm_e_itemptr := slot_tid 1 \<rparr>))
      else if b = 0 \<and> t = 11 \<and> p = 2 then Some (PhysMap (empty_pad \<lparr> pm_e_tbl_id := 14, pm_e_itemptr := slot_tid 2 \<rparr>))
      else if b = 0 \<and> t = 12 \<and> p = 1 then Some (ArrayBlock example_block)
      else if b = 0 \<and> t = 14 \<and> p = 1 then Some (Linked (example_record 1 12 (slot_tid 1)))
      else if b = 0 \<and> t = 14 \<and> p = 2 then Some (Linked (example_record 2 InvalidOid InvalidItemPointer))
      else None)"
  using posid_small[of p]
  by (auto simp: fetch_item_def example_old_graph_def list_page_api_def nth_Cons' unat_eq_0)

lemma example_old_ok: "store_ok list_page_api example_old_graph"
proof -
  have "db_ok list_page_api example_old_graph"
    by (auto simp: db_ok_def page_ok_def dense_def example_old_graph_def list_page_api_def
        used_space_def maxalign_def SizeOfNeoPhysMapRecord_def SizeOfNeoArrayListRecord_def
        SizeOfAdjListMember_def example_block_def array_block_def split: if_splits)
  then show ?thesis by (simp add: store_ok_def)
qed

lemma example_compactable:
  "label_compactable list_page_api example_old_catalog example_old_graph 12 14 11 {1, 2}
     (\<lambda>_. []) (\<lambda>v. [(14, slot_tid (ucast v))]) (\<lambda>v. if v = 1 then [(12, slot_tid 1)] else [])"
proof -
  have rec: "fetch_item list_page_api example_old_graph (12, slot_tid 1) = Some (ArrayBlock example_block)"
    by (simp add: slot_tid_def example_old_fetch)
  have ready: "list_ready example_old_catalog 12 14 11 (fetch_item list_page_api example_old_graph) v [] 
      [(14, slot_tid (ucast v))] (if v = 1 then [(12, slot_tid 1)] else [])" if "v = 1 \<or> v = 2" for v :: "64 word"
    using that
    by (auto simp: list_ready_def linked_part_def block_list_def vertex_slot_12 vertex_slot_2 example_old_fetch
        slot_tid_def empty_pad_def example_record_def no_address_def OidIsValid_def InvalidOid_def
        ItemPointerIsValid_def InvalidItemPointer_def example_block_def array_block_def valid_or_invalid_def)
  have small: "moved (fetch_item list_page_api example_old_graph) [(14, slot_tid (ucast v))]
      (if v = 1 then [(12, slot_tid 1)] else []) \<le> 2" for v :: "64 word"
    by (simp add: moved_def chain_members_def rec example_block_def array_block_def)
  have cover: "\<exists>v \<in> {1, 2}. a \<in> set [(14 :: oid, slot_tid (ucast (v :: 64 word)))]"
    if "fst a = 14" "fetch_item list_page_api example_old_graph a \<noteq> None" for a
    using that by (cases a; cases "snd a") (auto simp: example_old_fetch slot_tid_def split: if_splits)
  have apart: "apart (\<lambda>v. footprint 11 v ([] @ [(14, slot_tid (ucast v))])
      (if v = 1 then [(12, slot_tid 1)] else [])) {1, 2}"
    by (simp add: apart_def footprint_def vertex_slot_12 vertex_slot_2 slot_tid_def)
  have "(\<Sum>v \<in> {1, 2 :: 64 word}. moved (fetch_item list_page_api example_old_graph) [(14, slot_tid (ucast v))]
      (if v = 1 then [(12, slot_tid 1)] else [])) \<le> 4"
    using small[of 1] small[of 2] by simp
  moreover have "length (example_old_graph 12) = 1" by (simp add: example_old_graph_def)
  ultimately show ?thesis unfolding label_compactable_def
    using ready small cover apart order_trans[OF small, of _ "2 ^ 24"]
    by (intro conjI ballI allI impI) (auto simp: OidIsValid_def InvalidOid_def)
qed

lemma compaction_keeps_members_witness:
  "\<exists>db' cat' bs. compact_oldest_linked_list_table list_page_api example_ddl (\<lambda>_ _. Some 1) (\<lambda>hash. hash) 1005 0
       example_old_catalog example_old_graph 2200 ''g'' 1 = Inr (db', cat')
    \<and> mset (chain_versions (fetch_item list_page_api db') (bs 1)) =
        mset (chain_versions (fetch_item list_page_api example_old_graph) [(14, slot_tid 1), (12, slot_tid 1)])"
proof -
  have lab: "cat_vertex_label example_old_catalog 1 1 = Some example_vertex_label"
    by (simp add: example_old_catalog_def example_catalog_def)
  have "get_oldest_inactive_linked_list example_rows = 14"
    by (simp add: get_oldest_inactive_linked_list_def example_rows_def oldest_step_def)
  then have L: "choose_oldest_list example_ddl example_old_catalog 1 1 example_vertex_label 2200 =
      Inr (14, example_old_catalog)"
    by (simp add: choose_oldest_list_def example_old_catalog_def OidIsValid_def InvalidOid_def)
  have label: "lc_arraylist example_vertex_label = 12" "lc_phys_map example_vertex_label = 11"
    by (simp_all add: example_vertex_label_def)
  show ?thesis
    using compaction_keeps_members[OF example_old_ok _ lab L, of "\<lambda>_ _. Some 1" "''g''" "{1, 2}" "\<lambda>_. []"
        "\<lambda>v. [(14, slot_tid (ucast v))]" "\<lambda>v. if v = 1 then [(12, slot_tid 1)] else []" "\<lambda>hash. hash" 1005 0]
      example_compactable example_ddl_updates
    unfolding label list_compacted_def by fastforce
qed

end
