(* ===== verification/Np_Update.thy ===== *)
theory Np_Update
  imports Np_Insert
begin

text \<open>
  Updating the properties of vertices and edges (\<open>src/src/backend/dml/dml_update.c\<close>): the current
  version is found through the physical map and tested, a new version is written that points back to
  it, the map is redirected, and the old version is ended.
\<close>

subsection \<open>The current version of an entity\<close>

text \<open>The lookup of a map entry that the routines of \<open>dml_update.c\<close> and \<open>dml_delete.c\<close> share.\<close>

definition read_map_entry ::
  "'p page_api \<Rightarrow> 'p db \<Rightarrow> oid \<Rightarrow> item_pointer \<Rightarrow> store_error + item" where
  "read_map_entry api db pmap_rel phys_map_tid =
     (if RelationGetNumberOfBlocks db pmap_rel \<le> unat (ip_blkid phys_map_tid)
      then Inl (Raised ''Vertex ID not found in phys_map (table empty)'')
      else sum_bind (read_item api db pmap_rel phys_map_tid) (\<lambda>found.
        case found of
          None \<Rightarrow> Inl (Raised ''Vertex ID not found in phys_map'')
        | Some x \<Rightarrow> Inr x))"

text \<open>The version the map leads to, when nobody has deleted or is changing it.  A padding entry leads to
  block \<open>0xFFFFFFFF\<close>, for which \<open>ReadBuffer\<close> adds an empty page; the line pointer test then fails, so
  there is an error in either case.\<close>

definition current_version ::
  "'p page_api \<Rightarrow> xact_env \<Rightarrow> 'p db \<Rightarrow> oid \<Rightarrow> item_pointer \<Rightarrow> store_error + NPEntityTupleHeaderData" where
  "current_version api env db rel tid =
     sum_bind (read_item api db rel tid) (\<lambda>found.
       case found of
         None \<Rightarrow> Inl (Raised ''Corrupted phys_map: Pointer to empty line pointer'')
       | Some (Entity hdr) \<Rightarrow>
           if \<not> np_entity_tuple_is_live env hdr \<or> np_entity_tuple_xmax_other env hdr
           then Inl (Raised ''concurrently deleted or updated'') else Inr hdr
       | Some _ \<Rightarrow> Inl WrongRecord)"

text \<open>The members of the structs, at their offsets.\<close>

definition vertex_dictionary_id :: "bytes \<Rightarrow> 16 word" where
  "vertex_dictionary_id bs = le_word (load_bytes (mem_of bs) 24 2)"

definition edge_start_label :: "bytes \<Rightarrow> 32 word" where "edge_start_label bs = ld32 (mem_of bs) 28"
definition edge_start_id :: "bytes \<Rightarrow> 64 word" where "edge_start_id bs = ld64 (mem_of bs) 32"
definition edge_end_label :: "bytes \<Rightarrow> 32 word" where "edge_end_label bs = ld32 (mem_of bs) 40"
definition edge_end_id :: "bytes \<Rightarrow> 64 word" where "edge_end_id bs = ld64 (mem_of bs) 48"

subsection \<open>The routines\<close>

text \<open>\<open>update_vertex\<close> does not zero the tuple: \<open>junk\<close> shows in its padding.\<close>

definition unzeroed_entity ::
  "memory \<Rightarrow> full_xid \<Rightarrow> command_id \<Rightarrow> item_pointer \<Rightarrow> 64 word \<Rightarrow> bytes \<Rightarrow> bytes
    \<Rightarrow> NPEntityTupleHeaderData" where
  "unzeroed_entity junk fxid cid prev i meta props =
     (let actual_payload_size = np_entity_pack_size meta props;
          total_tuple_size = maxalign (SizeOfNPEntityTupleHeader + actual_payload_size);
          dest = load_bytes junk 0 (total_tuple_size - SizeOfNPEntityTupleHeader)
      in \<lparr> mv_xmin = fxid, mv_xmax = InvalidFullTransactionId, mv_cmin = cid, mv_cmax = InvalidCommandId,
           en_prev_itemptr = prev, en_flags = 0, en_id = i,
           en_serialized_entity = np_entity_pack dest meta props \<rparr>)"

definition update_vertex ::
  "'p page_api \<Rightarrow> catalog \<Rightarrow> xact_env \<Rightarrow> memory \<Rightarrow> full_xid \<Rightarrow> command_id \<Rightarrow> 'p db \<Rightarrow> 64 word \<Rightarrow> 32 word
    \<Rightarrow> 32 word \<Rightarrow> bytes \<Rightarrow> store_error + 'p db" where
  "update_vertex api cat env junk fxid cid db i label_id graph_id new_properties =
     (case cat_vertex_label cat graph_id label_id of
        None \<Rightarrow> Inl (Raised ''label not found'')
      | Some label_cache \<Rightarrow>
          let phys_map_tid = np_id_to_tid i (pmap_tuples_per_page SizeOfNeoPhysMapRecord);
              rel = lc_vertex_tbl label_cache in
          sum_bind (read_map_entry api db (lc_phys_map label_cache) phys_map_tid) (\<lambda>entry.
          case entry of
            PhysMap current_pmap_rec \<Rightarrow>
              let old_vertex_tid = pm_v_itemptr current_pmap_rec in
              sum_bind (current_version api env db rel old_vertex_tid) (\<lambda>old_hdr.
              let current_dictionary_id = vertex_dictionary_id (en_serialized_entity old_hdr);
                  new_v = build_vertex_internal i graph_id label_id current_dictionary_id in
              sum_bind (np_write_record_to_page api db rel (Entity
                  (unzeroed_entity junk fxid cid old_vertex_tid i (vertex_datum new_v) new_properties)))
                (\<lambda>(new_vertex_tid, db).
              sum_bind (np_overwrite_physmap_in_page api db (lc_phys_map label_cache) phys_map_tid
                  (current_pmap_rec \<lparr> pm_v_itemptr := new_vertex_tid \<rparr>)) (\<lambda>db.
              modify_item api (end_version fxid cid) db rel old_vertex_tid)))
          | _ \<Rightarrow> Inl WrongRecord))"

text \<open>\<open>memcpy\<close> of the struct and \<open>SET_VARSIZE\<close>; a record shorter than the struct would be read over its
  end.\<close>

definition copied_edge :: "bytes \<Rightarrow> store_error + bytes" where
  "copied_edge bs =
     (if length bs < 56 then Inl WildItem else Inr (varlena_header 56 @ drop 4 (take 56 bs)))"

text \<open>The second pointer of the map entry is not set here either.\<close>

definition update_edge ::
  "'p page_api \<Rightarrow> catalog \<Rightarrow> xact_env \<Rightarrow> item_pointer \<Rightarrow> full_xid \<Rightarrow> command_id \<Rightarrow> 'p db \<Rightarrow> 64 word
    \<Rightarrow> 32 word \<Rightarrow> 32 word \<Rightarrow> bytes \<Rightarrow> store_error + 'p db" where
  "update_edge api cat env junk fxid cid db edge_id label_id graph_id new_properties =
     (case cat_edge_label cat graph_id label_id of
        None \<Rightarrow> Inl (Raised ''edge label not found'')
      | Some label_cache \<Rightarrow>
          if \<not> OidIsValid (lc_vertex_tbl label_cache) then Inl (Raised ''edge label not found'')
          else
          let phys_map_tid = np_id_to_tid edge_id (pmap_tuples_per_page SizeOfNeoEdgePhysMapRecord);
              rel = lc_vertex_tbl label_cache in
          sum_bind (read_map_entry api db (lc_phys_map label_cache) phys_map_tid) (\<lambda>entry.
          sum_bind (edge_map_e_itemptr entry) (\<lambda>old_edge_tid.
          sum_bind (current_version api env db rel old_edge_tid) (\<lambda>old_hdr.
          sum_bind (copied_edge (en_serialized_entity old_hdr)) (\<lambda>new_e.
          sum_bind (np_write_record_to_page api db rel
              (Entity (new_entity fxid cid old_edge_tid edge_id new_e (Some new_properties))))
            (\<lambda>(new_edge_tid, db).
          sum_bind (np_set_edge_physmap_record api db (lc_phys_map label_cache) phys_map_tid
              \<lparr> ep_e_itemptr = new_edge_tid, ep_a_itemptr = junk \<rparr>) (\<lambda>db.
          modify_item api (end_version fxid cid) db rel old_edge_tid)))))))"

subsection \<open>Packing over uninitialised memory\<close>

lemma packed_over:
  assumes "is_varlena meta" "is_varlena props"
    "maxalign (length meta) + length props \<le> length dest"
  shows "\<exists>gap z. np_entity_pack dest meta props = meta @ gap @ props @ z
    \<and> length gap = maxalign (length meta) - length meta
    \<and> length (np_entity_pack dest meta props) = length dest"
proof -
  let ?m = "maxalign (length meta)"
  have m: "length meta \<le> ?m" by (rule maxalign_ge)
  have len: "VARSIZE meta = length meta" "VARSIZE props = length props"
    using assms(1,2) by (simp_all add: is_varlena_def)
  have "np_entity_pack dest meta props = meta @ drop (length meta) (take ?m dest) @ props
      @ drop (?m + length props) dest"
    using m assms(3) by (simp add: np_entity_pack_def len poke_def Let_def drop_take min_def)
  then show ?thesis using m assms(3) by auto
qed

lemma unzeroed_props:
  assumes "is_varlena meta" "is_varlena props"
  shows "np_entity_get_props (unzeroed_entity junk fxid cid prev i meta props) = props"
    "length (en_serialized_entity (unzeroed_entity junk fxid cid prev i meta props)) =
       length (packed_entity meta (Some props))"
proof -
  have len: "VARSIZE meta = length meta" "VARSIZE props = length props" "4 \<le> length meta" "4 \<le> length props"
    using assms by (simp_all add: is_varlena_def)
  let ?n = "maxalign (40 + (maxalign (length meta) + length props)) - 40"
  have n: "maxalign (length meta) + length props \<le> ?n"
    using maxalign_ge[of "40 + (maxalign (length meta) + length props)"] by simp
  obtain gap z where g: "np_entity_pack (load_bytes junk 0 ?n) meta props = meta @ gap @ props @ z"
    "length gap = maxalign (length meta) - length meta"
    "length (np_entity_pack (load_bytes junk 0 ?n) meta props) = ?n"
    using packed_over[OF assms, of "load_bytes junk 0 ?n"] n by auto
  have hdr: "en_serialized_entity (unzeroed_entity junk fxid cid prev i meta props) = meta @ gap @ props @ z"
    using g(1) by (simp add: unzeroed_entity_def np_entity_pack_size_def len SizeOfNPEntityTupleHeader_def
        Let_def)
  have "drop (maxalign (length meta)) (meta @ gap @ props @ z) = props @ z"
    using maxalign_ge[of "length meta"] g(2) by simp
  then show "np_entity_get_props (unzeroed_entity junk fxid cid prev i meta props) = props"
    by (simp add: np_entity_get_props_def hdr varlena_at_def VARSIZE_append len)
  show "length (en_serialized_entity (unzeroed_entity junk fxid cid prev i meta props)) =
       length (packed_entity meta (Some props))"
    using g(1,3) maxalign_ge[of "length meta"] n by (simp add: hdr packed_entity_eq[OF assms] zeros_def)
qed

lemma edge_members:
  assumes "bs = edge_datum e @ rest"
  shows "edge_start_label bs = ed_start_label e" "edge_start_id bs = ed_start_id e"
    "edge_end_label bs = ed_end_label e" "edge_end_id bs = ed_end_id e"
proof -
  have "holds (mem_of bs) 0 (edge_datum e)"
    using holds_mem_of[of bs] by (simp add: assms holds_append)
  then have "holds (mem_of bs) 28 (le32 (ed_start_label e))" "holds (mem_of bs) 32 (le64 (ed_start_id e))"
    "holds (mem_of bs) 40 (le32 (ed_end_label e))" "holds (mem_of bs) 48 (le64 (ed_end_id e))"
    by (simp_all add: edge_datum_def holds_append zeros_def del: le_bytes_numeral)
  then show "edge_start_label bs = ed_start_label e" "edge_start_id bs = ed_start_id e"
    "edge_end_label bs = ed_end_label e" "edge_end_id bs = ed_end_id e"
    by (simp_all add: edge_start_label_def edge_start_id_def edge_end_label_def edge_end_id_def
        ld32_holds ld64_holds)
qed

lemma copied_edge_datum: "copied_edge (edge_datum e @ rest) = Inr (edge_datum e)"
  by (simp add: copied_edge_def length_datums) (simp add: edge_datum_def zeros_def)

subsection \<open>Updating a vertex\<close>

lemma read_map_entry_fetch:
  assumes "fetch_item api db (rel, tid) = Some x"
  shows "read_map_entry api db rel tid = Inr x"
proof -
  have "unat (ip_blkid tid) < length (db rel)" using assms by (simp add: fetch_item_def split: if_splits)
  then show ?thesis
    by (simp add: read_map_entry_def RelationGetNumberOfBlocks_def read_item_fetch[OF assms])
qed

lemma current_version_fetch:
  "fetch_item api db (rel, tid) = Some (Entity old) \<Longrightarrow> current_version api env db rel tid =
     (if \<not> np_entity_tuple_is_live env old \<or> np_entity_tuple_xmax_other env old
      then Inl (Raised ''concurrently deleted or updated'') else Inr old)"
  by (simp add: current_version_def read_item_fetch)

text \<open>Ending a version, in the transaction of the caller.\<close>

lemma ended_not_live:
  assumes "FullTransactionIdIsValid fxid" "xe_current env (XidFromFullTransactionId fxid)"
  shows "\<not> np_entity_tuple_is_live env (old \<lparr> mv_xmax := fxid, mv_cmax := cid \<rparr>)"
  using assms by (simp add: np_entity_tuple_is_live_def Let_def)

lemma end_version_at:
  assumes "store_ok api db" "fetch_item api db (rel, tid) = Some (Entity old)"
  shows "\<exists>db'. modify_item api (end_version fxid cid) db rel tid = Inr db' \<and> store_ok api db'
    \<and> fetch_item api db' = (fetch_item api db)((rel, tid) \<mapsto> Entity (old \<lparr> mv_xmax := fxid, mv_cmax := cid \<rparr>))"
proof -
  have y: "end_version fxid cid (Entity old) = Some (Entity (old \<lparr> mv_xmax := fxid, mv_cmax := cid \<rparr>))"
    by (simp add: end_version_def)
  obtain db' where m: "modify_item api (end_version fxid cid) db rel tid = Inr db'"
    using np.modify_total[where f = "end_version fxid cid", OF assms(2) y] by blast
  then show ?thesis
    using np.modify_ok[OF assms(1) m] np.modify_fetch[OF assms(1) m] end_version_size y assms(2) by fastforce
qed

lemma overwrite_map_at:
  assumes "store_ok api db" "fetch_item api db (rel, tid) = Some (PhysMap r)"
  shows "\<exists>db'. np_overwrite_physmap_in_page api db rel tid r' = Inr db' \<and> store_ok api db'
    \<and> fetch_item api db' = (fetch_item api db)((rel, tid) \<mapsto> PhysMap r')"
proof -
  have y: "overwrite_physmap r' (PhysMap r) = Some (PhysMap r')" by (simp add: overwrite_physmap_def)
  have size: "overwrite_physmap r' x = Some z \<Longrightarrow> item_size z = item_size x" for x z
    by (auto simp: overwrite_physmap_def split: item.splits)
  obtain db' where m: "modify_item api (overwrite_physmap r') db rel tid = Inr db'"
    using np.modify_total[where f = "overwrite_physmap r'", OF assms(2) y] by blast
  then show ?thesis
    using np.modify_ok[OF assms(1) m] np.modify_fetch[OF assms(1) m] size y assms(2)
    unfolding np_overwrite_physmap_in_page_def by fastforce
qed

lemma fetch_vertex_properties_at:
  assumes "search_label (vx_graph_id v) (vx_label_id v) = Some lab" "vx_graph_id v \<noteq> 0" "vx_label_id v \<noteq> 0"
    "OidIsValid (lc_vertex_tbl lab)" "OidIsValid (lc_phys_map lab)"
    "fetch_item api db (lc_phys_map lab, vertex_slot (vx_id v)) = Some (PhysMap r)"
    "ItemPointerIsValid (pm_v_itemptr r)"
    "fetch_item api db (lc_vertex_tbl lab, pm_v_itemptr r) = Some (Entity hdr)"
    "np_entity_tuple_is_live env hdr"
  shows "np_fetch_vertex_properties api env search_label none db v = Inr (np_entity_get_props hdr)"
proof -
  have "unat (ip_blkid (vertex_slot (vx_id v))) < length (db (lc_phys_map lab))"
    using assms(6) by (simp add: fetch_item_def split: if_splits)
  then show ?thesis
    using assms(1-5,7,9) read_item_fetch[OF assms(6)] read_item_fetch[OF assms(8)]
    by (simp add: np_fetch_vertex_properties_def RelationGetNumberOfBlocks_def fetch_live_props_def
        np_entity_copy_props_def flip: vertex_slot_def)
qed

text \<open>A vertex whose entry leads to a version.\<close>

definition vertex_version ::
  "'p page_api \<Rightarrow> 'p db \<Rightarrow> label_cache_data \<Rightarrow> 64 word \<Rightarrow> NeoPhysMapRecord \<Rightarrow> NPEntityTupleHeaderData \<Rightarrow> bool" where
  "vertex_version api db lab i r hdr \<longleftrightarrow> OidIsValid (lc_vertex_tbl lab) \<and> OidIsValid (lc_phys_map lab)
     \<and> lc_vertex_tbl lab \<noteq> lc_phys_map lab
     \<and> fetch_item api db (lc_phys_map lab, vertex_slot i) = Some (PhysMap r)
     \<and> fetch_item api db (lc_vertex_tbl lab, pm_v_itemptr r) = Some (Entity hdr)"

lemma unzeroed_fits:
  assumes "is_varlena meta" "is_varlena props"
    "item_fits (Entity (new_entity fxid cid prev i meta (Some props)))"
  shows "item_fits (Entity (unzeroed_entity junk fxid cid prev i meta props))"
  using assms(3) unzeroed_props(2)[OF assms(1,2)] by (simp add: item_fits_def new_entity_def)

text \<open>A change that keeps the records of chains keeps the chain of a vertex whose head is the same.\<close>

lemma chain_kept:
  assumes "vertex_chain api db pmap i r as"
    "fetch_item api db' (pmap, vertex_slot i) = Some (PhysMap r')"
    "pm_e_tbl_id r' = pm_e_tbl_id r" "pm_e_itemptr r' = pm_e_itemptr r"
    "\<And>a x. fetch_item api db a = Some x \<Longrightarrow> links (fst a) x \<noteq> None \<Longrightarrow> fetch_item api db' a = Some x"
  shows "vertex_chain api db' pmap i r' as"
    "chain_versions (fetch_item api db') as = chain_versions (fetch_item api db) as"
proof -
  have same: "fetch_item api db' a = fetch_item api db a" if "a \<in> set as" for a
    using bspec[OF vertex_chain_links[OF assms(1)] that] assms(5)[of a] by auto
  show "vertex_chain api db' pmap i r' as"
    using assms(1-4) adjacency_frame(1)[where F = "fetch_item api db" and F' = "fetch_item api db'", OF _ same]
    by (simp add: vertex_chain_def)
  show "chain_versions (fetch_item api db') as = chain_versions (fetch_item api db) as"
    by (rule chain_versions_frame) (rule same)
qed

text \<open>The three writes of \<open>update_vertex\<close>.\<close>

lemma update_vertex_writes:
  assumes "store_ok api db" "vertex_version api db lab i r old" "has_room db (lc_vertex_tbl lab)"
    "item_fits (Entity new)"
  shows "\<exists>t db1 db2 db'. np_write_record_to_page api db (lc_vertex_tbl lab) (Entity new) = Inr (t, db1)
    \<and> np_overwrite_physmap_in_page api db1 (lc_phys_map lab) (vertex_slot i) (r \<lparr> pm_v_itemptr := t \<rparr>) = Inr db2
    \<and> modify_item api (end_version fxid cid) db2 (lc_vertex_tbl lab) (pm_v_itemptr r) = Inr db'
    \<and> store_ok api db' \<and> ItemPointerIsValid t \<and> t \<noteq> pm_v_itemptr r \<and> fetch_item api db (lc_vertex_tbl lab, t) = None
    \<and> fetch_item api db' = (fetch_item api db)((lc_vertex_tbl lab, t) \<mapsto> Entity new,
        (lc_phys_map lab, vertex_slot i) \<mapsto> PhysMap (r \<lparr> pm_v_itemptr := t \<rparr>),
        (lc_vertex_tbl lab, pm_v_itemptr r) \<mapsto> Entity (old \<lparr> mv_xmax := fxid, mv_cmax := cid \<rparr>))"
proof -
  let ?tbl = "lc_vertex_tbl lab" and ?pmap = "lc_phys_map lab" and ?o = "pm_v_itemptr r"
  have lab: "?tbl \<noteq> ?pmap" and slot: "fetch_item api db (?pmap, vertex_slot i) = Some (PhysMap r)"
    and old: "fetch_item api db (?tbl, ?o) = Some (Entity old)"
    using assms(2) by (simp_all add: vertex_version_def)
  obtain t db1 where w: "np_write_record_to_page api db ?tbl (Entity new) = Inr (t, db1)"
    using np.store_total[OF assms(1,4,3)] by (metis prod.exhaust)
  note ok1 = np.store_ok[OF assms(1) w] and f1 = np.store_fetch[OF assms(1) w]
    and fresh = np.store_fresh[OF assms(1) w] and valid = np.store_valid[OF assms(1) w]
  have ne: "t \<noteq> ?o" using fresh old by auto
  have "fetch_item api db1 (?pmap, vertex_slot i) = Some (PhysMap r)" using slot lab by (simp add: f1)
  from overwrite_map_at[OF ok1 this, of "r \<lparr> pm_v_itemptr := t \<rparr>"] obtain db2
    where o: "np_overwrite_physmap_in_page api db1 ?pmap (vertex_slot i) (r \<lparr> pm_v_itemptr := t \<rparr>) = Inr db2"
    "store_ok api db2" and f2: "fetch_item api db2 = (fetch_item api db1)((?pmap, vertex_slot i) \<mapsto> PhysMap (r \<lparr> pm_v_itemptr := t \<rparr>))"
    by blast
  have "fetch_item api db2 (?tbl, ?o) = Some (Entity old)" using old lab ne by (simp add: f1 f2)
  from end_version_at[OF o(2) this, of fxid cid] obtain db3
    where "modify_item api (end_version fxid cid) db2 ?tbl ?o = Inr db3" "store_ok api db3"
    "fetch_item api db3 = (fetch_item api db2)((?tbl, ?o) \<mapsto> Entity (old \<lparr> mv_xmax := fxid, mv_cmax := cid \<rparr>))"
    by blast
  then show ?thesis using w o valid ne fresh by (auto simp: f1 f2)
qed

text \<open>C9. An update of a vertex is refused when the current version is not live or
  another transaction is changing it.  Otherwise the new properties are the ones fetched, the old
  version is not live any more, nothing but the old version and the version pointer of the vertex
  changes, and the adjacency list is the one before.\<close>
theorem update_vertex_then_fetch:
  assumes "store_ok api db" "cat_vertex_label cat g l = Some lab" "g \<noteq> 0" "l \<noteq> 0"
    "vertex_version api db lab i r old" "has_room db (lc_vertex_tbl lab)" "is_varlena props"
    "\<forall>v. item_fits (Entity (new_entity fxid cid (pm_v_itemptr r) i (vertex_datum v) (Some props)))"
    "FullTransactionIdIsValid fxid" "xe_current env (XidFromFullTransactionId fxid)"
  shows "if \<not> np_entity_tuple_is_live env old \<or> np_entity_tuple_xmax_other env old
    then update_vertex api cat env junk fxid cid db i l g props = Inl (Raised ''concurrently deleted or updated'')
    else \<exists>db' t new old'. update_vertex api cat env junk fxid cid db i l g props = Inr db' \<and> store_ok api db'
      \<and> (\<forall>d. np_fetch_vertex_properties api env (cat_vertex_label cat) none db'
            (build_vertex_internal i g l d) = Inr props)
      \<and> fetch_item api db (lc_vertex_tbl lab, t) = None
      \<and> fetch_item api db' = (fetch_item api db)((lc_vertex_tbl lab, t) \<mapsto> Entity new,
          (lc_phys_map lab, vertex_slot i) \<mapsto> PhysMap (r \<lparr> pm_v_itemptr := t \<rparr>),
          (lc_vertex_tbl lab, pm_v_itemptr r) \<mapsto> Entity old')
      \<and> en_prev_itemptr new = pm_v_itemptr r \<and> np_entity_tuple_is_live env new
      \<and> old' = old \<lparr> mv_xmax := fxid, mv_cmax := cid \<rparr> \<and> \<not> np_entity_tuple_is_live env old'
      \<and> (\<forall>as. vertex_chain api db (lc_phys_map lab) i r as \<longrightarrow>
            vertex_chain api db' (lc_phys_map lab) i (r \<lparr> pm_v_itemptr := t \<rparr>) as
            \<and> chain_versions (fetch_item api db') as = chain_versions (fetch_item api db) as)"
proof (cases "\<not> np_entity_tuple_is_live env old \<or> np_entity_tuple_xmax_other env old")
  let ?tbl = "lc_vertex_tbl lab" and ?pmap = "lc_phys_map lab" and ?o = "pm_v_itemptr r"
  have lab: "OidIsValid ?tbl" "OidIsValid ?pmap" "?tbl \<noteq> ?pmap"
    and slot: "fetch_item api db (?pmap, vertex_slot i) = Some (PhysMap r)"
    and old: "fetch_item api db (?tbl, ?o) = Some (Entity old)"
    using assms(5) by (simp_all add: vertex_version_def)
  note start = update_vertex_def assms(2) Let_def vertex_slot_def[symmetric] read_map_entry_fetch[OF slot]
    current_version_fetch[OF old]
  {
    case True
    then show ?thesis by (simp add: start)
  next
    case False
    define d where "d = vertex_dictionary_id (en_serialized_entity old)"
    define v where "v = build_vertex_internal i g l d"
    define new where "new = unzeroed_entity junk fxid cid ?o i (vertex_datum v) props"
    have fits: "item_fits (Entity new)"
      unfolding new_def by (rule unzeroed_fits[OF vertex_datum_varlena assms(7)]) (rule assms(8)[rule_format])
    obtain t db1 db2 db' where w: "np_write_record_to_page api db ?tbl (Entity new) = Inr (t, db1)"
      "np_overwrite_physmap_in_page api db1 ?pmap (vertex_slot i) (r \<lparr> pm_v_itemptr := t \<rparr>) = Inr db2"
      "modify_item api (end_version fxid cid) db2 ?tbl ?o = Inr db'"
      and ok: "store_ok api db'" and t: "ItemPointerIsValid t" "t \<noteq> ?o" "fetch_item api db (?tbl, t) = None"
      and f: "fetch_item api db' = (fetch_item api db)((?tbl, t) \<mapsto> Entity new,
        (?pmap, vertex_slot i) \<mapsto> PhysMap (r \<lparr> pm_v_itemptr := t \<rparr>),
        (?tbl, ?o) \<mapsto> Entity (old \<lparr> mv_xmax := fxid, mv_cmax := cid \<rparr>))"
      using update_vertex_writes[OF assms(1,5,6) fits, of fxid cid] by blast
    have run: "update_vertex api cat env junk fxid cid db i l g props = Inr db'"
      using w False by (simp add: start flip: d_def v_def new_def)
    have live: "np_entity_tuple_is_live env new"
      using new_version_live[OF assms(9,10), of cid ?o i "[]" None]
      by (simp add: new_def unzeroed_entity_def new_entity_def Let_def np_entity_tuple_is_live_def)
    have "np_fetch_vertex_properties api env (cat_vertex_label cat) none db' (build_vertex_internal i g l d) =
        Inr (np_entity_get_props new)" for d
      by (rule fetch_vertex_properties_at[where lab = lab and r = "r \<lparr> pm_v_itemptr := t \<rparr>"])
        (use assms(2-4) lab t live in \<open>simp_all add: build_vertex_internal_def f\<close>)
    moreover have "np_entity_get_props new = props"
      using unzeroed_props(1)[OF vertex_datum_varlena assms(7)] by (simp add: new_def)
    moreover have "vertex_chain api db' ?pmap i (r \<lparr> pm_v_itemptr := t \<rparr>) as
        \<and> chain_versions (fetch_item api db') as = chain_versions (fetch_item api db) as"
      if vc: "vertex_chain api db ?pmap i r as" for as
    proof -
      have kept: "fetch_item api db' a = Some x" if "fetch_item api db a = Some x" "links (fst a) x \<noteq> None" for a x
      proof -
        have "a \<noteq> (?tbl, t)" "a \<noteq> (?pmap, vertex_slot i)" "a \<noteq> (?tbl, ?o)"
          using that slot old t(3) by auto
        then show ?thesis using that(1) by (simp add: f)
      qed
      have "fetch_item api db' (?pmap, vertex_slot i) = Some (PhysMap (r \<lparr> pm_v_itemptr := t \<rparr>))"
        using lab(3) by (simp add: f)
      from chain_kept[OF vc this _ _ kept] show ?thesis by simp
    qed
    moreover have "en_prev_itemptr new = ?o" by (simp add: new_def unzeroed_entity_def Let_def)
    ultimately show ?thesis
      using False run ok t(3) f live ended_not_live[OF assms(9,10), of cid old]
      by auto
  }
qed

text \<open>A vertex with its first version.\<close>

definition example_first :: NPEntityTupleHeaderData where
  "example_first = new_entity 900 0 InvalidItemPointer 1 (vertex_datum (example_vertex 1)) (Some example_props)"

definition example_stored :: "list_page db" where
  "example_stored = (\<lambda>_. [])(10 := [Some [Entity example_first]],
     11 := [Some [PhysMap (empty_pad \<lparr> pm_v_itemptr := \<lparr> ip_blkid = 0, ip_posid = 1 \<rparr> \<rparr>)]])"

lemma example_stored_ok: "store_ok list_page_api example_stored"
proof -
  have "db_ok list_page_api example_stored"
    by (auto simp: db_ok_def page_ok_def dense_def example_stored_def list_page_api_def used_space_def
        maxalign_def SizeOfNeoPhysMapRecord_def SizeOfNPEntityTupleHeader_def example_first_def new_entity_def
        length_packed_entity vertex_datum_varlena example_props_varlena length_datums split: if_splits)
  then show ?thesis by (simp add: store_ok_def)
qed

lemma example_first_live:
  "np_entity_tuple_is_live example_env example_first" "\<not> np_entity_tuple_xmax_other example_env example_first"
  by (simp_all add: np_entity_tuple_is_live_def np_entity_tuple_xmax_other_def new_entity_def example_first_def
      example_env_def FullTransactionIdIsValid_def XidFromFullTransactionId_def InvalidFullTransactionId_def)

lemma example_stored_version:
  "vertex_version list_page_api example_stored example_vertex_label 1
     (empty_pad \<lparr> pm_v_itemptr := \<lparr> ip_blkid = 0, ip_posid = 1 \<rparr> \<rparr>) example_first"
  by (simp add: vertex_version_def example_vertex_label_def OidIsValid_def InvalidOid_def vertex_slot_12
      fetch_item_def example_stored_def list_page_api_def)

lemma update_vertex_then_fetch_witness:
  "\<exists>db. update_vertex list_page_api example_catalog example_env (\<lambda>_. 0xAA) 1005 0 example_stored 1 1 1
      example_props = Inr db
    \<and> np_fetch_vertex_properties list_page_api example_env (cat_vertex_label example_catalog) [] db
        (example_vertex 1) = Inr example_props"
proof -
  have lab: "cat_vertex_label example_catalog 1 1 = Some example_vertex_label"
    by (simp add: example_catalog_def)
  have room: "has_room example_stored (lc_vertex_tbl example_vertex_label)"
    by (simp add: has_room_def example_stored_def example_vertex_label_def)
  have own: "FullTransactionIdIsValid 1005" "xe_current example_env (XidFromFullTransactionId 1005)"
    by (simp_all add: FullTransactionIdIsValid_def XidFromFullTransactionId_def example_env_def)
  have v: "build_vertex_internal 1 1 1 0 = example_vertex 1"
    by (simp add: build_vertex_internal_def example_vertex_def)
  from update_vertex_then_fetch[OF example_stored_ok lab _ _ example_stored_version room example_props_varlena _ own,
      of 0 "\<lambda>_. 0xAA" "[]"] example_first_live example_entities_fit(1)
  show ?thesis by (metis one_neq_zero v)
qed

end
