(* ===== verification/Np_Delete.thy ===== *)
theory Np_Delete
  imports Np_Update "HOL-Library.Multiset"
begin

text \<open>
  Deleting edges and vertices (\<open>src/src/backend/dml/dml_delete.c\<close>).  Nothing is removed: the entity is
  ended, and so is the record of the edge in the adjacency lists of its two ends.  The routines walk
  along a list whose links may form a cycle; they are partial functions, which are \<open>None\<close> where the
  code does not return.
\<close>

subsection \<open>Ending the record of an edge in a list\<close>

definition end_linked :: "full_xid \<Rightarrow> command_id \<Rightarrow> item \<Rightarrow> item option" where
  "end_linked fxid cid x = (case x of
     Linked rec \<Rightarrow> Some (Linked (rec \<lparr> mv_xmax := fxid, mv_cmax := cid \<rparr>)) | _ \<Rightarrow> None)"

definition is_target :: "64 word \<Rightarrow> AdjListMember \<Rightarrow> bool" where
  "is_target target_edge_id m \<longleftrightarrow>
     am_edge_id m = target_edge_id \<and> \<not> FullTransactionIdIsValid (mv_xmax m)"

fun end_member ::
  "full_xid \<Rightarrow> command_id \<Rightarrow> 64 word \<Rightarrow> AdjListMember list \<Rightarrow> AdjListMember list" where
  "end_member fxid cid target_edge_id [] = []"
| "end_member fxid cid target_edge_id (m # ms) =
     (if is_target target_edge_id m then m \<lparr> mv_xmax := fxid, mv_cmax := cid \<rparr> # ms
      else m # end_member fxid cid target_edge_id ms)"

definition end_in_block :: "full_xid \<Rightarrow> command_id \<Rightarrow> 64 word \<Rightarrow> item \<Rightarrow> item option" where
  "end_in_block fxid cid target_edge_id x = (case x of
     ArrayBlock rec \<Rightarrow> Some (ArrayBlock (rec \<lparr> ar_adj_list := (ar_adj_list rec)
       \<lparr> al_data := end_member fxid cid target_edge_id (al_data (ar_adj_list rec)) \<rparr> \<rparr>))
   | _ \<Rightarrow> None)"

text \<open>The loop of \<open>np_delete_edge_from_adj_list\<close>.\<close>

partial_function (option) end_in_list ::
  "'p page_api \<Rightarrow> catalog \<Rightarrow> full_xid \<Rightarrow> command_id \<Rightarrow> 64 word \<Rightarrow> 'p db \<Rightarrow> oid \<Rightarrow> item_pointer
    \<Rightarrow> (store_error + 'p db) option" where
  "end_in_list api cat fxid cid target_edge_id db current_tbl current_tid =
     (if ItemPointerIsValid current_tid \<and> OidIsValid current_tbl then
        (case read_item api db current_tbl current_tid of
           Inl e \<Rightarrow> Some (Inl e)
         | Inr None \<Rightarrow> Some (Inl NotNormal)
         | Inr (Some x) \<Rightarrow>
             if cat_natts cat current_tbl = 10 then
               (case x of
                  Linked rec \<Rightarrow>
                    if ll_id rec = target_edge_id \<and> \<not> FullTransactionIdIsValid (mv_xmax rec)
                    then Some (modify_item api (end_linked fxid cid) db current_tbl current_tid)
                    else end_in_list api cat fxid cid target_edge_id db (ll_next_tbl rec) (ll_next_itemptr rec)
                | _ \<Rightarrow> Some (Inl WrongRecord))
             else if cat_natts cat current_tbl = 5 then
               (case x of
                  ArrayBlock rec \<Rightarrow>
                    if \<exists>m \<in> set (al_data (ar_adj_list rec)). is_target target_edge_id m
                    then Some (modify_item api (end_in_block fxid cid target_edge_id) db current_tbl current_tid)
                    else end_in_list api cat fxid cid target_edge_id db current_tbl (ar_next_itemptr rec)
                | _ \<Rightarrow> Some (Inl WrongRecord))
             else Some (Inl (Raised ''NeoPostGraph: Unknown adjacency list table format'')))
      else Some (Inr db))"

definition np_delete_edge_from_adj_list ::
  "'p page_api \<Rightarrow> catalog \<Rightarrow> full_xid \<Rightarrow> command_id \<Rightarrow> 'p db \<Rightarrow> 32 word \<Rightarrow> 64 word \<Rightarrow> 32 word \<Rightarrow> 64 word
    \<Rightarrow> (store_error + 'p db) option" where
  "np_delete_edge_from_adj_list api cat current_fxid cid db graph_id vertex_id vertex_label_id target_edge_id =
     (case cat_vertex_label cat graph_id vertex_label_id of
        None \<Rightarrow> Some (Inr db)
      | Some v_label \<Rightarrow>
          if \<not> OidIsValid (lc_phys_map v_label) then Some (Inr db)
          else (case get_current_head_tid api db (lc_phys_map v_label) vertex_id of
              Inl e \<Rightarrow> Some (Inl e)
            | Inr (current_tbl, current_tid) \<Rightarrow>
                end_in_list api cat current_fxid cid target_edge_id db current_tbl current_tid))"

subsection \<open>Edges\<close>

text \<open>Ending the entity: lookup, tests and tombstone; the struct of the edge is read before.\<close>

definition end_edge_entity ::
  "'p page_api \<Rightarrow> xact_env \<Rightarrow> full_xid \<Rightarrow> command_id \<Rightarrow> 'p db \<Rightarrow> label_cache_data \<Rightarrow> 64 word
    \<Rightarrow> store_error + (bytes \<times> 'p db)" where
  "end_edge_entity api env current_fxid cid db label_cache edge_id =
     sum_bind (read_map_entry api db (lc_phys_map label_cache)
         (np_id_to_tid edge_id (pmap_tuples_per_page SizeOfNeoEdgePhysMapRecord))) (\<lambda>entry.
     sum_bind (edge_map_e_itemptr entry) (\<lambda>target_edge_tid.
     sum_bind (current_version api env db (lc_vertex_tbl label_cache) target_edge_tid) (\<lambda>wal_hdr.
     sum_bind (modify_item api (end_version current_fxid cid) db (lc_vertex_tbl label_cache) target_edge_tid)
       (\<lambda>db. Inr (en_serialized_entity wal_hdr, db)))))"

definition np_internal_delete_edge ::
  "'p page_api \<Rightarrow> catalog \<Rightarrow> xact_env \<Rightarrow> full_xid \<Rightarrow> command_id \<Rightarrow> 'p db \<Rightarrow> 32 word \<Rightarrow> 32 word \<Rightarrow> 64 word
    \<Rightarrow> (store_error + 'p db) option" where
  "np_internal_delete_edge api cat env current_fxid cid db graph_id label_id edge_id =
     (case cat_edge_label cat graph_id label_id of
        None \<Rightarrow> Some (Inl (Raised ''edge label not found''))
      | Some label_cache \<Rightarrow>
          if \<not> OidIsValid (lc_vertex_tbl label_cache) then Some (Inl (Raised ''edge label not found''))
          else (case end_edge_entity api env current_fxid cid db label_cache edge_id of
              Inl e \<Rightarrow> Some (Inl e)
            | Inr (deleted_e, db) \<Rightarrow>
                (case np_delete_edge_from_adj_list api cat current_fxid cid db graph_id
                   (edge_start_id deleted_e) (edge_start_label deleted_e) edge_id of
                   None \<Rightarrow> None
                 | Some (Inl e) \<Rightarrow> Some (Inl e)
                 | Some (Inr db) \<Rightarrow> np_delete_edge_from_adj_list api cat current_fxid cid db graph_id
                     (edge_end_id deleted_e) (edge_end_label deleted_e) edge_id)))"

subsection \<open>Vertices\<close>

text \<open>The edges of a list that are not ended, for \<open>DETACH DELETE\<close>; without \<open>detach\<close> the first one is an
  error.  The routine reads a block of an array list with \<open>heap_deform_tuple\<close>, as if it were a tuple of
  PostgreSQL's heap: the attribute count of such a tuple lies in the low eleven bits of the 16-bit
  word at byte 18, which in a block is the high half of \<open>cmin\<close>.  \<open>heap_deform_tuple\<close> is PostgreSQL's; it
  is the parameter \<open>deform\<close>, which gives the fourth column (the members) and the fifth (the next block)
  or \<open>None\<close> for a null.  A tuple with no attributes has only nulls: that is \<open>deform_ok\<close>.\<close>

type_synonym deform_tuple = "NeoArrayListRecord \<Rightarrow> AdjListMember list option \<times> item_pointer option"

definition block_natts :: "NeoArrayListRecord \<Rightarrow> nat" where
  "block_natts b = unat (take_bit 11 (drop_bit 16 (mv_cmin b)))"

definition deform_ok :: "deform_tuple \<Rightarrow> bool" where
  "deform_ok deform \<longleftrightarrow> (\<forall>b. block_natts b = 0 \<longrightarrow> deform b = (None, None))"

text \<open>The members that are not ended of a block.  Where the linked list grows its array with \<open>palloc\<close> at
  first, the block always calls \<open>repalloc\<close>, with a null pointer if no edge has been collected before.\<close>

fun collect_members ::
  "bool \<Rightarrow> AdjListMember list \<Rightarrow> (64 word \<times> 32 word) list \<Rightarrow> store_error + (64 word \<times> 32 word) list" where
  "collect_members detach [] edges_to_delete = Inr edges_to_delete"
| "collect_members detach (m # ms) edges_to_delete =
     (if FullTransactionIdIsValid (mv_xmax m) then collect_members detach ms edges_to_delete
      else if \<not> detach
      then Inl (Raised ''Cannot delete vertex because it still has active edges. Use DETACH DELETE.'')
      else if edges_to_delete = [] then Inl NullPointer
      else collect_members detach ms (edges_to_delete @ [(am_edge_id m, am_edge_lid m)]))"

text \<open>Neither branch tests the line pointer.\<close>

partial_function (option) collect_edges ::
  "'p page_api \<Rightarrow> deform_tuple \<Rightarrow> oid \<Rightarrow> bool \<Rightarrow> 'p db \<Rightarrow> (64 word \<times> 32 word) list \<Rightarrow> oid \<Rightarrow> item_pointer
    \<Rightarrow> (store_error + (64 word \<times> 32 word) list) option" where
  "collect_edges api deform arraylist detach db edges_to_delete current_tbl current_tid =
     (if ItemPointerIsValid current_tid \<and> OidIsValid current_tbl then
        if current_tbl = arraylist
        then (case read_item api db current_tbl current_tid of
           Inl e \<Rightarrow> Some (Inl e)
         | Inr (Some (ArrayBlock b)) \<Rightarrow>
             (case collect_members detach (case fst (deform b) of None \<Rightarrow> [] | Some ms \<Rightarrow> ms) edges_to_delete of
                Inl e \<Rightarrow> Some (Inl e)
              | Inr edges_to_delete \<Rightarrow> collect_edges api deform arraylist detach db edges_to_delete current_tbl
                  (case snd (deform b) of None \<Rightarrow> InvalidItemPointer | Some next_tid \<Rightarrow> next_tid))
         | Inr (Some _) \<Rightarrow> Some (Inl WrongRecord)
         | Inr None \<Rightarrow> Some (Inl WildItem))
        else (case read_item api db current_tbl current_tid of
           Inl e \<Rightarrow> Some (Inl e)
         | Inr (Some (Linked rec)) \<Rightarrow>
             if FullTransactionIdIsValid (mv_xmax rec)
             then collect_edges api deform arraylist detach db edges_to_delete (ll_next_tbl rec) (ll_next_itemptr rec)
             else if \<not> detach
             then Some (Inl (Raised ''Cannot delete vertex because it still has active edges. Use DETACH DELETE.''))
             else collect_edges api deform arraylist detach db (edges_to_delete @ [(ll_id rec, ll_edge_lid rec)])
               (ll_next_tbl rec) (ll_next_itemptr rec)
         | Inr (Some _) \<Rightarrow> Some (Inl WrongRecord)
         | Inr None \<Rightarrow> Some (Inl WildItem))
      else Some (Inr edges_to_delete))"

fun delete_edges ::
  "'p page_api \<Rightarrow> catalog \<Rightarrow> xact_env \<Rightarrow> full_xid \<Rightarrow> command_id \<Rightarrow> 32 word \<Rightarrow> (64 word \<times> 32 word) list
    \<Rightarrow> 'p db \<Rightarrow> (store_error + 'p db) option" where
  "delete_edges api cat env current_fxid cid graph_id [] db = Some (Inr db)"
| "delete_edges api cat env current_fxid cid graph_id ((edge_id, edge_lid) # edges) db =
     (case np_internal_delete_edge api cat env current_fxid cid db graph_id edge_lid edge_id of
        Some (Inr db) \<Rightarrow> delete_edges api cat env current_fxid cid graph_id edges db
      | r \<Rightarrow> r)"

definition tombstone_vertex ::
  "'p page_api \<Rightarrow> xact_env \<Rightarrow> full_xid \<Rightarrow> command_id \<Rightarrow> 'p db \<Rightarrow> oid \<Rightarrow> item_pointer \<Rightarrow> store_error + 'p db" where
  "tombstone_vertex api env current_fxid cid db rel target_vertex_tid =
     sum_bind (current_version api env db rel target_vertex_tid)
       (\<lambda>_. modify_item api (end_version current_fxid cid) db rel target_vertex_tid)"

definition delete_vertex ::
  "'p page_api \<Rightarrow> deform_tuple \<Rightarrow> catalog \<Rightarrow> xact_env \<Rightarrow> full_xid \<Rightarrow> command_id \<Rightarrow> 'p db \<Rightarrow> 64 word \<Rightarrow> 32 word \<Rightarrow> 32 word
    \<Rightarrow> bool \<Rightarrow> (store_error + 'p db) option" where
  "delete_vertex api deform cat env current_fxid cid db vertex_id label_id graph_id detach =
     (case cat_vertex_label cat graph_id label_id of
        None \<Rightarrow> Some (Inl (Raised ''Vertex label not found''))
      | Some v_label \<Rightarrow>
          if \<not> OidIsValid (lc_vertex_tbl v_label) then Some (Inl (Raised ''Vertex label not found''))
          else (case read_map_entry api db (lc_phys_map v_label)
                (np_id_to_tid vertex_id (pmap_tuples_per_page SizeOfNeoPhysMapRecord)) of
              Inl e \<Rightarrow> Some (Inl e)
            | Inr (PhysMap rec) \<Rightarrow>
                (case collect_edges api deform (lc_arraylist v_label) detach db [] (pm_e_tbl_id rec) (pm_e_itemptr rec) of
                   None \<Rightarrow> None
                 | Some (Inl e) \<Rightarrow> Some (Inl e)
                 | Some (Inr edges_to_delete) \<Rightarrow>
                (case delete_edges api cat env current_fxid cid graph_id edges_to_delete db of
                   Some (Inr db) \<Rightarrow>
                     Some (tombstone_vertex api env current_fxid cid db (lc_vertex_tbl v_label) (pm_v_itemptr rec))
                 | r \<Rightarrow> r))
            | Inr _ \<Rightarrow> Some (Inl WrongRecord)))"

subsection \<open>What ending does to the versions of a list\<close>

fun end_first ::
  "full_xid \<Rightarrow> command_id \<Rightarrow> 64 word \<Rightarrow> (half_edge \<times> mvcc) list \<Rightarrow> (half_edge \<times> mvcc) list" where
  "end_first fxid cid i [] = []"
| "end_first fxid cid i ((h, m) # hs) =
     (if he_id h = i \<and> \<not> FullTransactionIdIsValid (mv_xmax m)
      then (h, m \<lparr> mv_xmax := fxid, mv_cmax := cid \<rparr>) # hs else (h, m) # end_first fxid cid i hs)"

definition unended :: "64 word \<Rightarrow> half_edge \<times> mvcc \<Rightarrow> bool" where
  "unended i hm \<longleftrightarrow> he_id (fst hm) = i \<and> \<not> FullTransactionIdIsValid (mv_xmax (snd hm))"

lemma end_first_Cons: "end_first fxid cid i (x # xs) =
    (if unended i x then (fst x, snd x \<lparr> mv_xmax := fxid, mv_cmax := cid \<rparr>) # xs
     else x # end_first fxid cid i xs)"
  by (cases x) (simp add: unended_def)

lemma end_first_append:
  "end_first fxid cid i (xs @ ys) =
     (if \<exists>x \<in> set xs. unended i x then end_first fxid cid i xs @ ys else xs @ end_first fxid cid i ys)"
  by (induction xs) (simp_all add: end_first_Cons)

definition member_version :: "AdjListMember \<Rightarrow> half_edge \<times> mvcc" where
  "member_version m = (half_of_member m, mvcc.truncate m)"

lemma is_target_unended: "is_target i m \<longleftrightarrow> unended i (member_version m)"
  by (simp add: is_target_def unended_def member_version_def half_of_member_def mvcc.truncate_def)

lemma end_member_versions:
  "map member_version (end_member fxid cid i ms) = end_first fxid cid i (map member_version ms)"
  by (induction ms)
    (auto simp: is_target_def member_version_def half_of_member_def mvcc.truncate_def)

lemma length_end_member [simp]: "length (end_member fxid cid i ms) = length ms"
  by (induction ms) simp_all

lemma block_versions:
  "item_versions (Some (ArrayBlock b)) = map member_version (al_data (ar_adj_list b))"
  by (simp add: member_version_def)

text \<open>A change of one record that only ends versions: size, kind and links stay.\<close>

definition only_ends :: "(item \<Rightarrow> item option) \<Rightarrow> bool" where
  "only_ends f \<longleftrightarrow> (\<forall>x y. f x = Some y \<longrightarrow> item_size y = item_size x \<and> item_natts y = item_natts x
     \<and> (\<forall>tbl. links tbl y = links tbl x))"

lemma only_ends_linked: "only_ends (end_linked fxid cid)"
  by (auto simp: only_ends_def end_linked_def split: item.splits)

lemma only_ends_block: "only_ends (end_in_block fxid cid i)"
  by (auto simp: only_ends_def end_in_block_def split: item.splits)

lemma only_ends_entity: "only_ends (end_version fxid cid)"
  by (auto simp: only_ends_def end_version_def split: item.splits)

context record_store
begin

lemma ends_in_chain:
  assumes "ok db" "only_ends f" "fetch db c = Some x" "f x = Some y"
  shows "\<exists>db'. modify f db (fst c) (snd c) = Inr db' \<and> ok db' \<and> fetch db' = (fetch db)(c \<mapsto> y)"
proof -
  have c: "fetch db (fst c, snd c) = Some x" using assms(3) by simp
  obtain db' where m: "modify f db (fst c) (snd c) = Inr db'"
    using modify_total[where f = f, OF c assms(4)] by blast
  have size: "f x = Some y \<Longrightarrow> item_size y = item_size x" for x y using assms(2) by (simp add: only_ends_def)
  show ?thesis using m modify_ok[OF assms(1) m size] modify_fetch[OF assms(1) m size] c assms(4) by auto
qed

end

lemma chain_upd_links:
  assumes "F a = Some x" "links (fst a) y = links (fst a) x"
  shows "chain (F(a \<mapsto> y)) p c as = chain F p c as"
  using assms by (induction as arbitrary: p c) (auto split: option.splits)

text \<open>One round of the loop.\<close>

lemma end_in_list_linked:
  assumes "ItemPointerIsValid tid" "OidIsValid tbl" "read_item api db tbl tid = Inr (Some (Linked r))"
    "cat_natts cat tbl = 10"
  shows "end_in_list api cat fxid cid i db tbl tid =
    (if \<exists>hm \<in> set (item_versions (Some (Linked r))). unended i hm
     then Some (modify_item api (end_linked fxid cid) db tbl tid)
     else end_in_list api cat fxid cid i db (ll_next_tbl r) (ll_next_itemptr r))"
  using assms
  by (simp add: end_in_list.simps[of api cat fxid cid i db tbl tid] unended_def half_of_linked_def
      mvcc.truncate_def)

lemma end_in_list_block:
  assumes "ItemPointerIsValid tid" "OidIsValid tbl" "read_item api db tbl tid = Inr (Some (ArrayBlock b))"
    "cat_natts cat tbl = 5"
  shows "end_in_list api cat fxid cid i db tbl tid =
    (if \<exists>hm \<in> set (item_versions (Some (ArrayBlock b))). unended i hm
     then Some (modify_item api (end_in_block fxid cid i) db tbl tid)
     else end_in_list api cat fxid cid i db tbl (ar_next_itemptr b))"
  using assms
  by (simp add: end_in_list.simps[of api cat fxid cid i db tbl tid] block_versions is_target_unended
      del: item_versions.simps)

lemma end_in_list_round:
  assumes "ItemPointerIsValid tid" "OidIsValid tbl" "read_item api db tbl tid = Inr (Some x)"
    "\<And>n. item_natts x = Some n \<Longrightarrow> cat_natts cat tbl = n" "links tbl x = Some (prev, nxt)"
  shows "\<exists>f y. only_ends f \<and> f x = Some y
    \<and> ((\<exists>hm \<in> set (item_versions (Some x)). unended i hm)
        \<longrightarrow> item_versions (Some y) = end_first fxid cid i (item_versions (Some x)))
    \<and> end_in_list api cat fxid cid i db tbl tid =
        (if \<exists>hm \<in> set (item_versions (Some x)). unended i hm then Some (modify_item api f db tbl tid)
         else end_in_list api cat fxid cid i db (fst nxt) (snd nxt))"
proof (cases x)
  case (Linked r)
  show ?thesis
  proof (intro exI conjI)
    show "end_linked fxid cid x = Some (Linked (r \<lparr> mv_xmax := fxid, mv_cmax := cid \<rparr>))"
      by (simp add: Linked end_linked_def)
    show "(\<exists>hm \<in> set (item_versions (Some x)). unended i hm) \<longrightarrow>
      item_versions (Some (Linked (r \<lparr> mv_xmax := fxid, mv_cmax := cid \<rparr>))) =
      end_first fxid cid i (item_versions (Some x))"
      by (simp add: Linked unended_def half_of_linked_def mvcc.truncate_def)
    show "end_in_list api cat fxid cid i db tbl tid =
        (if \<exists>hm \<in> set (item_versions (Some x)). unended i hm
         then Some (modify_item api (end_linked fxid cid) db tbl tid)
         else end_in_list api cat fxid cid i db (fst nxt) (snd nxt))"
      using end_in_list_linked[OF assms(1,2) assms(3)[unfolded Linked]] assms(4,5) Linked by auto
  qed (rule only_ends_linked)
next
  case (ArrayBlock b)
  show ?thesis
  proof (intro exI conjI)
    show "end_in_block fxid cid i x = Some (ArrayBlock (b \<lparr> ar_adj_list := (ar_adj_list b)
       \<lparr> al_data := end_member fxid cid i (al_data (ar_adj_list b)) \<rparr> \<rparr>))"
      by (simp add: ArrayBlock end_in_block_def)
    show "(\<exists>hm \<in> set (item_versions (Some x)). unended i hm) \<longrightarrow>
      item_versions (Some (ArrayBlock (b \<lparr> ar_adj_list := (ar_adj_list b)
       \<lparr> al_data := end_member fxid cid i (al_data (ar_adj_list b)) \<rparr> \<rparr>))) =
      end_first fxid cid i (item_versions (Some x))"
      by (simp add: ArrayBlock block_versions end_member_versions del: item_versions.simps)
    show "end_in_list api cat fxid cid i db tbl tid =
        (if \<exists>hm \<in> set (item_versions (Some x)). unended i hm
         then Some (modify_item api (end_in_block fxid cid i) db tbl tid)
         else end_in_list api cat fxid cid i db (fst nxt) (snd nxt))"
      using end_in_list_block[OF assms(1,2) assms(3)[unfolded ArrayBlock]] assms(4,5) ArrayBlock by auto
  qed (rule only_ends_block)
qed (use assms(5) in simp_all)

text \<open>Ending in a list: the loop reaches the end or the record, and ends the first one that is not
  ended and has the id of the edge.\<close>

definition ended_one :: "address list \<Rightarrow> (address \<Rightarrow> item option) \<Rightarrow> (address \<Rightarrow> item option) \<Rightarrow> bool" where
  "ended_one as F F' \<longleftrightarrow> F' = F \<or> (\<exists>a x y. a \<in> set as \<and> F a = Some x \<and> item_natts y = item_natts x
     \<and> (\<forall>tbl. links tbl y = links tbl x) \<and> F' = F(a \<mapsto> y))"

lemma end_in_list_chain:
  assumes "store_ok api db" "natts_ok cat (fetch_item api db)"
    "chain (fetch_item api db) p c as" "distinct as"
  shows "\<exists>db'. end_in_list api cat fxid cid i db (fst c) (snd c) = Some (Inr db') \<and> store_ok api db'
    \<and> chain_versions (fetch_item api db') as = end_first fxid cid i (chain_versions (fetch_item api db) as)
    \<and> ended_one as (fetch_item api db) (fetch_item api db')"
  using assms(3,4)
proof (induction as arbitrary: p c)
  case Nil
  then show ?case using assms(1)
    by (subst end_in_list.simps) (simp add: chain_versions_def ended_one_def)
next
  case (Cons a as)
  obtain x nxt where a: "a = c" "ItemPointerIsValid (snd c)" "OidIsValid (fst c)"
    and x: "fetch_item api db c = Some x" "links (fst c) x = Some (p, nxt)"
    and tail: "chain (fetch_item api db) c nxt as"
    using Cons.prems(1) by (auto split: option.splits prod.splits)
  have na: "c \<notin> set as" "distinct as" using Cons.prems(2) a(1) by simp_all
  have read: "read_item api db (fst c) (snd c) = Inr (Some x)" using x(1) by (simp add: read_item_fetch)
  have natts: "item_natts x = Some n \<Longrightarrow> cat_natts cat (fst c) = n" for n
    using assms(2) x(1) unfolding natts_ok_def by blast
  have vs: "chain_versions F (a # as) = item_versions (F c) @ chain_versions F as" for F
    by (simp add: chain_versions_def a(1))
  obtain f y where f: "only_ends f" "f x = Some y"
    and y: "(\<exists>hm \<in> set (item_versions (Some x)). unended i hm)
      \<longrightarrow> item_versions (Some y) = end_first fxid cid i (item_versions (Some x))"
    and run: "end_in_list api cat fxid cid i db (fst c) (snd c) =
        (if \<exists>hm \<in> set (item_versions (Some x)). unended i hm then Some (modify_item api f db (fst c) (snd c))
         else end_in_list api cat fxid cid i db (fst nxt) (snd nxt))"
    using end_in_list_round[OF a(2,3) read natts x(2), of i fxid cid] by blast
  show ?case
  proof (cases "\<exists>hm \<in> set (item_versions (Some x)). unended i hm")
    case True
    obtain db' where m: "modify_item api f db (fst c) (snd c) = Inr db'" "store_ok api db'"
      and F': "fetch_item api db' = (fetch_item api db)(c \<mapsto> y)"
      using np.ends_in_chain[OF assms(1) f(1) x(1) f(2)] by blast
    have "chain_versions (fetch_item api db') as = chain_versions (fetch_item api db) as"
      by (rule chain_versions_frame) (use na(1) F' in \<open>metis fun_upd_other\<close>)
    moreover have "ended_one (a # as) (fetch_item api db) (fetch_item api db')"
      using f x(1) unfolding ended_one_def only_ends_def F' a(1) by (metis list.set_intros(1))
    ultimately show ?thesis using run True m y x(1) by (simp add: vs end_first_append F')
  next
    case False
    obtain db' where ih: "end_in_list api cat fxid cid i db (fst nxt) (snd nxt) = Some (Inr db')" "store_ok api db'"
      "chain_versions (fetch_item api db') as = end_first fxid cid i (chain_versions (fetch_item api db) as)"
      "ended_one as (fetch_item api db) (fetch_item api db')"
      using Cons.IH[OF tail na(2)] by blast
    have "fetch_item api db' c = Some x" using ih(4) x(1) na(1) by (auto simp: ended_one_def)
    moreover have "ended_one (a # as) (fetch_item api db) (fetch_item api db')"
      using ih(4) unfolding ended_one_def by (metis list.set_intros(2))
    ultimately show ?thesis using run ih(1-3) False x(1) by (simp add: vs end_first_append)
  qed
qed

subsection \<open>The vertices of a graph and their lists\<close>

type_synonym vertex_key = "32 word \<times> 64 word"

text \<open>Vertices, by label and id, with their map entries \<open>r\<close> and the lists \<open>as\<close> of their records, which
  do not meet.\<close>

definition vertex_at ::
  "'p page_api \<Rightarrow> catalog \<Rightarrow> 'p db \<Rightarrow> 32 word \<Rightarrow> vertex_key \<Rightarrow> NeoPhysMapRecord \<Rightarrow> address list \<Rightarrow> bool" where
  "vertex_at api cat db g k r as \<longleftrightarrow> (\<exists>lab. cat_vertex_label cat g (fst k) = Some lab
     \<and> OidIsValid (lc_phys_map lab) \<and> 0 < snd k \<and> snd k \<le> 157
     \<and> vertex_chain api db (lc_phys_map lab) (snd k) r as)"

definition graph_ok ::
  "'p page_api \<Rightarrow> catalog \<Rightarrow> 'p db \<Rightarrow> 32 word \<Rightarrow> vertex_key set \<Rightarrow> (vertex_key \<Rightarrow> NeoPhysMapRecord)
    \<Rightarrow> (vertex_key \<Rightarrow> address list) \<Rightarrow> bool" where
  "graph_ok api cat db g K r as \<longleftrightarrow> store_ok api db \<and> natts_ok cat (fetch_item api db)
     \<and> (\<forall>k \<in> K. vertex_at api cat db g k (r k) (as k))
     \<and> (\<forall>k \<in> K. \<forall>k' \<in> K. k \<noteq> k' \<longrightarrow> set (as k) \<inter> set (as k') = {})"

text \<open>What deleting changes in the store: records keep their kind and links, and what is neither in one
  of the lists nor at \<open>e\<close> stays as it is.\<close>

definition keeps_links :: "(address \<Rightarrow> item option) \<Rightarrow> (address \<Rightarrow> item option) \<Rightarrow> bool" where
  "keeps_links F F' \<longleftrightarrow> (\<forall>a. case F a of
       None \<Rightarrow> F' a = None
     | Some x \<Rightarrow> (\<exists>y. F' a = Some y \<and> item_natts y = item_natts x \<and> (\<forall>tbl. links tbl y = links tbl x)
         \<and> ((\<forall>hdr. x \<noteq> Entity hdr) \<longrightarrow> links 0 x = None \<longrightarrow> y = x)))"

lemma keeps_linksD:
  assumes "keeps_links F F'" "F a = Some x"
  obtains y where "F' a = Some y" "item_natts y = item_natts x" "\<And>tbl. links tbl y = links tbl x"
    "(\<forall>hdr. x \<noteq> Entity hdr) \<Longrightarrow> links 0 x = None \<Longrightarrow> y = x"
  using assms(1)[unfolded keeps_links_def, rule_format, of a] assms(2) by auto

lemma keeps_links_map: "keeps_links F F' \<Longrightarrow> F a = Some (PhysMap r) \<Longrightarrow> F' a = Some (PhysMap r)"
  "keeps_links F F' \<Longrightarrow> F a = Some (EdgePhysMap p) \<Longrightarrow> F' a = Some (EdgePhysMap p)"
  by (erule keeps_linksD, assumption, simp)+

lemma keeps_links_chain: "keeps_links F F' \<Longrightarrow> chain F p c as \<Longrightarrow> chain F' p c as"
proof (induction as arbitrary: p c)
  case (Cons a as)
  then obtain x nxt where x: "F c = Some x" "links (fst c) x = Some (p, nxt)" "chain F c nxt as"
    and a: "a = c" "ItemPointerIsValid (snd c)" "OidIsValid (fst c)"
    by (auto split: option.splits prod.splits)
  obtain y where "F' c = Some y" "links (fst c) y = links (fst c) x"
    using keeps_linksD[OF Cons.prems(1) x(1)] by metis
  then show ?case using Cons.IH[OF Cons.prems(1) x(3)] x(2) a by simp
qed simp

lemma keeps_links_natts: "keeps_links F F' \<Longrightarrow> natts_ok cat F \<Longrightarrow> natts_ok cat F'"
  unfolding natts_ok_def
proof (intro allI impI)
  fix a x n assume k: "keeps_links F F'" and n: "\<forall>a x n. F a = Some x \<longrightarrow> item_natts x = Some n \<longrightarrow> cat_natts cat (fst a) = n"
    and x: "F' a = Some x" "item_natts x = Some n"
  have "F a \<noteq> None" using k[unfolded keeps_links_def, rule_format, of a] x(1) by (cases "F a") auto
  then obtain z where z: "F a = Some z" by blast
  obtain y where "F' a = Some y" "item_natts y = item_natts z" using keeps_linksD[OF k z] by metis
  then show "cat_natts cat (fst a) = n" using n[rule_format, OF z] x by simp
qed

lemma keeps_links_graph:
  assumes "graph_ok api cat db g K r as" "keeps_links (fetch_item api db) (fetch_item api db')" "store_ok api db'"
  shows "graph_ok api cat db' g K r as"
proof -
  have "vertex_chain api db' pmap i s bs" if "vertex_chain api db pmap i s bs" for pmap i s bs
    using that keeps_links_chain[OF assms(2)] keeps_links_map(1)[OF assms(2)]
    by (auto simp: vertex_chain_def adjacency_def)
  then have "vertex_at api cat db' g k s bs" if "vertex_at api cat db g k s bs" for k s bs
    using that unfolding vertex_at_def by blast
  then show ?thesis using assms(1,3) keeps_links_natts[OF assms(2)] by (simp add: graph_ok_def)
qed

lemma keeps_links_upd:
  assumes "F a = Some x" "item_natts y = item_natts x" "\<forall>tbl. links tbl y = links tbl x"
    "links 0 x \<noteq> None \<or> (\<exists>hdr. x = Entity hdr)"
  shows "keeps_links F (F(a \<mapsto> y))"
  using assms by (auto simp: keeps_links_def split: option.splits)

lemma keeps_links_trans: "keeps_links F G \<Longrightarrow> keeps_links G H \<Longrightarrow> keeps_links F H"
  unfolding keeps_links_def
proof (intro allI)
  fix a assume 1: "\<forall>a. case F a of None \<Rightarrow> G a = None
     | Some x \<Rightarrow> (\<exists>y. G a = Some y \<and> item_natts y = item_natts x \<and> (\<forall>tbl. links tbl y = links tbl x)
         \<and> ((\<forall>hdr. x \<noteq> Entity hdr) \<longrightarrow> links 0 x = None \<longrightarrow> y = x))"
    and 2: "\<forall>a. case G a of None \<Rightarrow> H a = None
     | Some x \<Rightarrow> (\<exists>y. H a = Some y \<and> item_natts y = item_natts x \<and> (\<forall>tbl. links tbl y = links tbl x)
         \<and> ((\<forall>hdr. x \<noteq> Entity hdr) \<longrightarrow> links 0 x = None \<longrightarrow> y = x))"
  show "case F a of None \<Rightarrow> H a = None
     | Some x \<Rightarrow> (\<exists>y. H a = Some y \<and> item_natts y = item_natts x \<and> (\<forall>tbl. links tbl y = links tbl x)
         \<and> ((\<forall>hdr. x \<noteq> Entity hdr) \<longrightarrow> links 0 x = None \<longrightarrow> y = x))"
    using spec[OF 1, of a] spec[OF 2, of a] by (cases "F a") auto
qed

lemma links_kind: "links t x = None \<longleftrightarrow> links t' x = None"
  by (cases x) simp_all

text \<open>Ending the record of an edge at one vertex.\<close>

lemma delete_from_vertex:
  assumes "graph_ok api cat db g K r as" "k \<in> K"
  shows "\<exists>db'. np_delete_edge_from_adj_list api cat fxid cid db g (snd k) (fst k) i = Some (Inr db')
    \<and> graph_ok api cat db' g K r as \<and> keeps_links (fetch_item api db) (fetch_item api db')
    \<and> (\<forall>a hdr. fetch_item api db a = Some (Entity hdr) \<longrightarrow> fetch_item api db' a = Some (Entity hdr))
    \<and> (\<forall>k' \<in> K. chain_versions (fetch_item api db') (as k') =
          (if k' = k then end_first fxid cid i (chain_versions (fetch_item api db) (as k'))
           else chain_versions (fetch_item api db) (as k')))"
proof -
  have ok: "store_ok api db" "natts_ok cat (fetch_item api db)"
    and apart: "\<And>k'. k' \<in> K \<Longrightarrow> k' \<noteq> k \<Longrightarrow> set (as k) \<inter> set (as k') = {}"
    using assms unfolding graph_ok_def by blast+
  obtain lab where lab: "cat_vertex_label cat g (fst k) = Some lab" "OidIsValid (lc_phys_map lab)"
    and small: "0 < snd k" "snd k \<le> 157"
    and vc: "vertex_chain api db (lc_phys_map lab) (snd k) (r k) (as k)"
    using assms unfolding graph_ok_def vertex_at_def by blast
  have slot: "fetch_item api db (lc_phys_map lab, vertex_slot (snd k)) = Some (PhysMap (r k))"
    and ch: "chain (fetch_item api db) no_address (pm_e_tbl_id (r k), pm_e_itemptr (r k)) (as k)" "distinct (as k)"
    using vc by (simp_all add: vertex_chain_def adjacency_def)
  obtain db' where run: "end_in_list api cat fxid cid i db (pm_e_tbl_id (r k)) (pm_e_itemptr (r k)) = Some (Inr db')"
    and ok': "store_ok api db'"
    and vs: "chain_versions (fetch_item api db') (as k) = end_first fxid cid i (chain_versions (fetch_item api db) (as k))"
    and one: "ended_one (as k) (fetch_item api db) (fetch_item api db')"
    using end_in_list_chain[OF ok ch, of fxid cid i] by auto
  have linked: "links 0 x \<noteq> None" if "a \<in> set (as k)" "fetch_item api db a = Some x" for a x
    using bspec[OF vertex_chain_links[OF vc] that(1)] that(2) links_kind[of "fst a" x 0] by auto
  have keeps: "keeps_links (fetch_item api db) (fetch_item api db')"
  proof (cases "fetch_item api db' = fetch_item api db")
    case True
    then show ?thesis by (simp add: keeps_links_def split: option.splits)
  next
    case False
    then obtain a x y where "a \<in> set (as k)" "fetch_item api db a = Some x" "item_natts y = item_natts x"
      "\<forall>tbl. links tbl y = links tbl x" "fetch_item api db' = (fetch_item api db)(a \<mapsto> y)"
      using one unfolding ended_one_def by blast
    then show ?thesis using keeps_links_upd linked by metis
  qed
  have other: "fetch_item api db' a = fetch_item api db a" if "a \<notin> set (as k)" for a
    using one that unfolding ended_one_def by auto
  have ents: "fetch_item api db' a = Some (Entity hdr)" if "fetch_item api db a = Some (Entity hdr)" for a hdr
    using other[of a] linked[of a] that by fastforce
  have "chain_versions (fetch_item api db') (as k') = chain_versions (fetch_item api db) (as k')"
    if "k' \<in> K" "k' \<noteq> k" for k'
  proof -
    have "fetch_item api db' a = fetch_item api db a" if "a \<in> set (as k')" for a
      using apart[OF \<open>k' \<in> K\<close> \<open>k' \<noteq> k\<close>] other[of a] that by blast
    then show ?thesis by (rule chain_versions_frame)
  qed
  moreover have "np_delete_edge_from_adj_list api cat fxid cid db g (snd k) (fst k) i = Some (Inr db')"
    using run by (simp add: np_delete_edge_from_adj_list_def lab get_current_head_fetch[OF small slot])
  ultimately show ?thesis
    using keeps_links_graph[OF assms(1) keeps ok'] keeps ents vs by auto
qed

subsection \<open>Edges in a graph\<close>

text \<open>An edge is known by its id and label.  Its entity lies at \<open>a\<close> and is the version \<open>hdr\<close>, which holds
  the struct \<open>e\<close>.\<close>

type_synonym edge_key = "64 word \<times> 32 word"

definition edge_at ::
  "'p page_api \<Rightarrow> catalog \<Rightarrow> 'p db \<Rightarrow> 32 word \<Rightarrow> edge_key \<Rightarrow> address \<Rightarrow> NPEntityTupleHeaderData \<Rightarrow> bool" where
  "edge_at api cat db g x a hdr \<longleftrightarrow> (\<exists>elab p. cat_edge_label cat g (snd x) = Some elab
     \<and> OidIsValid (lc_vertex_tbl elab) \<and> a = (lc_vertex_tbl elab, ep_e_itemptr p)
     \<and> fetch_item api db (lc_phys_map elab, edge_slot (fst x)) = Some (EdgePhysMap p)
     \<and> fetch_item api db a = Some (Entity hdr))"

definition changeable :: "xact_env \<Rightarrow> 'a mvcc_scheme \<Rightarrow> bool" where
  "changeable env hdr \<longleftrightarrow> np_entity_tuple_is_live env hdr \<and> \<not> np_entity_tuple_xmax_other env hdr"

definition ended :: "full_xid \<Rightarrow> command_id \<Rightarrow> NPEntityTupleHeaderData \<Rightarrow> NPEntityTupleHeaderData" where
  "ended fxid cid hdr = hdr \<lparr> mv_xmax := fxid, mv_cmax := cid \<rparr>"

definition start_key :: "edge \<Rightarrow> vertex_key" where "start_key e = (ed_start_label e, ed_start_id e)"
definition end_key :: "edge \<Rightarrow> vertex_key" where "end_key e = (ed_end_label e, ed_end_id e)"

definition end_at :: "full_xid \<Rightarrow> command_id \<Rightarrow> 64 word \<Rightarrow> bool \<Rightarrow> (half_edge \<times> mvcc) list \<Rightarrow> (half_edge \<times> mvcc) list" where
  "end_at fxid cid i here vs = (if here then end_first fxid cid i vs else vs)"

text \<open>Deleting an edge: its entity and one record in the list of each end are ended.\<close>

lemma entity_not_in_list:
  assumes "graph_ok api cat db g K r as" "k \<in> K" "fetch_item api db a = Some (Entity hdr)"
  shows "a \<notin> set (as k)"
proof
  assume a: "a \<in> set (as k)"
  have "vertex_at api cat db g k (r k) (as k)" using assms(1,2) by (simp add: graph_ok_def)
  then obtain pm where "vertex_chain api db pm (snd k) (r k) (as k)" unfolding vertex_at_def by blast
  from bspec[OF vertex_chain_links[OF this] a] assms(3) show False by simp
qed

lemma delete_edge_step:
  assumes "graph_ok api cat db g K r as" "edge_at api cat db g x a hdr"
    "en_serialized_entity hdr = edge_datum e @ rest" "start_key e \<in> K" "end_key e \<in> K" "changeable env hdr"
  shows "\<exists>db'. np_internal_delete_edge api cat env fxid cid db g (snd x) (fst x) = Some (Inr db')
    \<and> graph_ok api cat db' g K r as \<and> keeps_links (fetch_item api db) (fetch_item api db')
    \<and> (\<forall>b h. fetch_item api db b = Some (Entity h) \<longrightarrow>
          fetch_item api db' b = Some (Entity (if b = a then ended fxid cid hdr else h)))
    \<and> (\<forall>k \<in> K. chain_versions (fetch_item api db') (as k) = end_at fxid cid (fst x) (k = end_key e)
          (end_at fxid cid (fst x) (k = start_key e) (chain_versions (fetch_item api db) (as k))))"
proof -
  have ok: "store_ok api db" using assms(1) by (simp add: graph_ok_def)
  obtain elab p where lab: "cat_edge_label cat g (snd x) = Some elab" "OidIsValid (lc_vertex_tbl elab)"
    and a: "a = (lc_vertex_tbl elab, ep_e_itemptr p)"
    and slot: "fetch_item api db (lc_phys_map elab, edge_slot (fst x)) = Some (EdgePhysMap p)"
    and hdr: "fetch_item api db (lc_vertex_tbl elab, ep_e_itemptr p) = Some (Entity hdr)"
    using assms(2) unfolding edge_at_def by blast
  obtain db1 where m: "modify_item api (end_version fxid cid) db (lc_vertex_tbl elab) (ep_e_itemptr p) = Inr db1"
    and ok1: "store_ok api db1" and f1: "fetch_item api db1 = (fetch_item api db)(a \<mapsto> Entity (ended fxid cid hdr))"
    using end_version_at[OF ok hdr, of fxid cid] unfolding ended_def a by blast
  have k1: "keeps_links (fetch_item api db) (fetch_item api db1)"
    unfolding f1 by (rule keeps_links_upd[where x = "Entity hdr"]) (unfold a, rule hdr, simp_all)
  note g1 = keeps_links_graph[OF assms(1) k1 ok1]
  have v1: "chain_versions (fetch_item api db1) (as k) = chain_versions (fetch_item api db) (as k)" if "k \<in> K" for k
  proof -
    have n: "a \<notin> set (as k)" by (rule entity_not_in_list[OF assms(1) that]) (unfold a, rule hdr)
    have "fetch_item api db1 b = fetch_item api db b" if "b \<in> set (as k)" for b
    proof -
      have "b \<noteq> a" using that n by blast
      then show ?thesis unfolding f1 by (rule fun_upd_other)
    qed
    then show ?thesis by (rule chain_versions_frame)
  qed
  obtain db2 where d2: "np_delete_edge_from_adj_list api cat fxid cid db1 g (ed_start_id e) (ed_start_label e) (fst x) = Some (Inr db2)"
    and g2: "graph_ok api cat db2 g K r as" "keeps_links (fetch_item api db1) (fetch_item api db2)"
    and e2: "\<forall>b h. fetch_item api db1 b = Some (Entity h) \<longrightarrow> fetch_item api db2 b = Some (Entity h)"
    and v2: "\<forall>k \<in> K. chain_versions (fetch_item api db2) (as k) =
      end_at fxid cid (fst x) (k = start_key e) (chain_versions (fetch_item api db1) (as k))"
    using delete_from_vertex[OF g1 assms(4), of fxid cid "fst x"] unfolding end_at_def start_key_def fst_conv snd_conv by blast
  obtain db3 where d3: "np_delete_edge_from_adj_list api cat fxid cid db2 g (ed_end_id e) (ed_end_label e) (fst x) = Some (Inr db3)"
    and g3: "graph_ok api cat db3 g K r as" "keeps_links (fetch_item api db2) (fetch_item api db3)"
    and e3: "\<forall>b h. fetch_item api db2 b = Some (Entity h) \<longrightarrow> fetch_item api db3 b = Some (Entity h)"
    and v3: "\<forall>k \<in> K. chain_versions (fetch_item api db3) (as k) =
      end_at fxid cid (fst x) (k = end_key e) (chain_versions (fetch_item api db2) (as k))"
    using delete_from_vertex[OF g2(1) assms(5), of fxid cid "fst x"] unfolding end_at_def end_key_def fst_conv snd_conv by blast
  have "end_edge_entity api env fxid cid db elab (fst x) = Inr (en_serialized_entity hdr, db1)"
    using m assms(6) by (simp add: end_edge_entity_def read_map_entry_fetch[OF slot] current_version_fetch[OF hdr]
        changeable_def flip: edge_slot_def)
  then have "np_internal_delete_edge api cat env fxid cid db g (snd x) (fst x) = Some (Inr db3)"
    using d2 d3 by (simp add: np_internal_delete_edge_def lab edge_members[OF assms(3)])
  moreover have "fetch_item api db1 b = Some (Entity (if b = a then ended fxid cid hdr else h))"
    if "fetch_item api db b = Some (Entity h)" for b h using that by (simp add: f1)
  ultimately show ?thesis
    using g3(1) keeps_links_trans[OF keeps_links_trans[OF k1 g2(2)] g3(2)] v1 v2 v3 e2 e3 by auto
qed

lemma delete_edge_refused:
  assumes "edge_at api cat db g x a hdr" "\<not> changeable env hdr"
  shows "np_internal_delete_edge api cat env fxid cid db g (snd x) (fst x) =
    Some (Inl (Raised ''concurrently deleted or updated''))"
proof -
  obtain elab p where lab: "cat_edge_label cat g (snd x) = Some elab" "OidIsValid (lc_vertex_tbl elab)"
    and slot: "fetch_item api db (lc_phys_map elab, edge_slot (fst x)) = Some (EdgePhysMap p)"
    and hdr: "fetch_item api db (lc_vertex_tbl elab, ep_e_itemptr p) = Some (Entity hdr)"
    using assms(1) unfolding edge_at_def by blast
  show ?thesis using assms(2)
    by (simp add: np_internal_delete_edge_def lab end_edge_entity_def read_map_entry_fetch[OF slot]
        current_version_fetch[OF hdr] changeable_def flip: edge_slot_def)
qed

subsection \<open>The edges of a vertex\<close>

definition is_open :: "half_edge \<times> mvcc \<Rightarrow> bool" where
  "is_open hm \<longleftrightarrow> \<not> FullTransactionIdIsValid (mv_xmax (snd hm))"

text \<open>The edges that are not ended along a list, and their ids.\<close>

definition open_edges :: "(half_edge \<times> mvcc) list \<Rightarrow> edge_key list" where
  "open_edges vs = map (\<lambda>hm. (he_id (fst hm), he_lid (fst hm))) (filter is_open vs)"

definition open_ids :: "(half_edge \<times> mvcc) list \<Rightarrow> 64 word multiset" where
  "open_ids vs = mset (map fst (open_edges vs))"

lemma open_ids_simps [simp]:
  "open_ids [] = {#}"
  "open_ids (hm # vs) = (if is_open hm then add_mset (he_id (fst hm)) (open_ids vs) else open_ids vs)"
  by (simp_all add: open_ids_def open_edges_def)

lemma open_ids_end_first:
  assumes "FullTransactionIdIsValid fxid"
  shows "open_ids (end_first fxid cid i vs) = open_ids vs - {#i#}"
  by (induction vs) (auto simp: end_first_Cons unended_def is_open_def assms)

text \<open>The ids of edges, once for every end at the vertex \<open>k\<close>.\<close>

definition ids_at :: "(edge_key \<Rightarrow> edge) \<Rightarrow> vertex_key \<Rightarrow> edge_key list \<Rightarrow> 64 word list" where
  "ids_at E k xs = concat (map (\<lambda>x. (if k = start_key (E x) then [fst x] else [])
     @ (if k = end_key (E x) then [fst x] else [])) xs)"

lemma open_ids_end_at:
  assumes "FullTransactionIdIsValid fxid"
  shows "open_ids (end_at fxid cid (fst x) (k = end_key (E x)) (end_at fxid cid (fst x) (k = start_key (E x)) vs)) =
    open_ids vs - mset (ids_at E k [x])"
  by (simp add: end_at_def ids_at_def open_ids_end_first[OF assms])

lemma ids_at_Cons: "mset (ids_at E k (x # xs)) = mset (ids_at E k [x]) + mset (ids_at E k xs)"
  by (simp add: ids_at_def)

text \<open>The edges \<open>xs\<close> with their structs \<open>E\<close>, the addresses \<open>A\<close> of their entities and the versions \<open>H\<close>.\<close>

definition edges_at ::
  "'p page_api \<Rightarrow> catalog \<Rightarrow> 'p db \<Rightarrow> 32 word \<Rightarrow> vertex_key set \<Rightarrow> (edge_key \<Rightarrow> edge) \<Rightarrow> (edge_key \<Rightarrow> address)
    \<Rightarrow> (edge_key \<Rightarrow> NPEntityTupleHeaderData) \<Rightarrow> edge_key set \<Rightarrow> bool" where
  "edges_at api cat db g K E A H X \<longleftrightarrow> inj_on A X \<and> (\<forall>x \<in> X. edge_at api cat db g x (A x) (H x)
     \<and> (\<exists>rest. en_serialized_entity (H x) = edge_datum (E x) @ rest) \<and> start_key (E x) \<in> K \<and> end_key (E x) \<in> K)"

lemma ended_unchangeable:
  assumes "FullTransactionIdIsValid fxid" "xe_current env (XidFromFullTransactionId fxid)"
  shows "\<not> changeable env (ended fxid cid hdr)"
  using ended_not_live[OF assms, of cid hdr] by (simp add: changeable_def ended_def)

lemma edges_at_step:
  assumes "edges_at api cat db g K E A H X" "x \<in> X"
    "\<forall>b h. fetch_item api db b = Some (Entity h) \<longrightarrow>
        fetch_item api db' b = Some (Entity (if b = A x then ended fxid cid (H x) else h))"
    "keeps_links (fetch_item api db) (fetch_item api db')"
  shows "edges_at api cat db' g K E A (H(x := ended fxid cid (H x))) X"
  unfolding edges_at_def
proof (intro conjI ballI)
  show "inj_on A X" using assms(1) by (simp add: edges_at_def)
  fix y assume y: "y \<in> X"
  have e: "edge_at api cat db g y (A y) (H y)" using assms(1) y by (simp add: edges_at_def)
  have "A y = A x \<longleftrightarrow> y = x" using assms(1,2) y by (auto simp: edges_at_def inj_on_def)
  then show "edge_at api cat db' g y (A y) ((H(x := ended fxid cid (H x))) y)"
    using e assms(3) keeps_links_map(2)[OF assms(4)] unfolding edge_at_def by fastforce
  show "\<exists>rest. en_serialized_entity ((H(x := ended fxid cid (H x))) y) = edge_datum (E y) @ rest"
    "start_key (E y) \<in> K" "end_key (E y) \<in> K"
    using assms(1) y unfolding edges_at_def by (auto simp: ended_def)
qed

lemma delete_edges_run:
  assumes "graph_ok api cat db g K r as" "edges_at api cat db g K E A H (set xs)"
    and own: "FullTransactionIdIsValid fxid" "xe_current env (XidFromFullTransactionId fxid)"
  shows "if (\<forall>x \<in> set xs. changeable env (H x)) \<and> distinct xs
    then \<exists>db'. delete_edges api cat env fxid cid g xs db = Some (Inr db') \<and> graph_ok api cat db' g K r as
      \<and> keeps_links (fetch_item api db) (fetch_item api db')
      \<and> (\<forall>k \<in> K. open_ids (chain_versions (fetch_item api db') (as k)) =
            open_ids (chain_versions (fetch_item api db) (as k)) - mset (ids_at E k xs))
      \<and> (\<forall>b h. fetch_item api db b = Some (Entity h) \<longrightarrow> fetch_item api db' b =
            Some (Entity (if b \<in> A ` set xs then ended fxid cid h else h)))
    else delete_edges api cat env fxid cid g xs db = Some (Inl (Raised ''concurrently deleted or updated''))"
  using assms(1,2)
proof (induction xs arbitrary: db H)
  case Nil
  have "keeps_links F F" for F by (simp add: keeps_links_def split: option.splits)
  then show ?case using Nil by (simp add: ids_at_def)
next
  case (Cons x xs)
  have x: "edge_at api cat db g x (A x) (H x)" "start_key (E x) \<in> K" "end_key (E x) \<in> K"
    using Cons.prems(2) by (simp_all add: edges_at_def)
  obtain rest where rest: "en_serialized_entity (H x) = edge_datum (E x) @ rest"
    using Cons.prems(2) by (auto simp: edges_at_def)
  have del: "delete_edges api cat env fxid cid g (x # xs) db =
      (case np_internal_delete_edge api cat env fxid cid db g (snd x) (fst x) of
        Some (Inr db) \<Rightarrow> delete_edges api cat env fxid cid g xs db | r \<Rightarrow> r)"
    by (cases x) simp
  show ?case
  proof (cases "changeable env (H x)")
    case False
    then show ?thesis using delete_edge_refused[OF x(1) False] by (simp add: del)
  next
    case True
    obtain db1 where d: "np_internal_delete_edge api cat env fxid cid db g (snd x) (fst x) = Some (Inr db1)"
      and g1: "graph_ok api cat db1 g K r as" and k1: "keeps_links (fetch_item api db) (fetch_item api db1)"
      and e1: "\<forall>b h. fetch_item api db b = Some (Entity h) \<longrightarrow>
          fetch_item api db1 b = Some (Entity (if b = A x then ended fxid cid (H x) else h))"
      and v1: "\<forall>k \<in> K. chain_versions (fetch_item api db1) (as k) = end_at fxid cid (fst x) (k = end_key (E x))
          (end_at fxid cid (fst x) (k = start_key (E x)) (chain_versions (fetch_item api db) (as k)))"
      using delete_edge_step[OF Cons.prems(1) x(1) rest x(2,3) True, of fxid cid] by blast
    define H1 where "H1 = H(x := ended fxid cid (H x))"
    have "edges_at api cat db1 g K E A H1 (set (x # xs))"
      unfolding H1_def by (rule edges_at_step[OF Cons.prems(2) _ e1 k1]) simp
    then have at1: "edges_at api cat db1 g K E A H1 (set xs)" by (auto simp: edges_at_def)
    have same: "((\<forall>y \<in> set xs. changeable env (H1 y)) \<and> distinct xs) =
        ((\<forall>y \<in> set (x # xs). changeable env (H y)) \<and> distinct (x # xs))"
      using True ended_unchangeable[OF own, of cid "H x"] by (auto simp: H1_def)
    note ih = Cons.IH[OF g1 at1, unfolded same]
    show ?thesis
    proof (cases "(\<forall>y \<in> set (x # xs). changeable env (H y)) \<and> distinct (x # xs)")
      case False
      then show ?thesis using ih d by (simp only: del if_False) simp
    next
      case True
      obtain db2 where r: "delete_edges api cat env fxid cid g xs db1 = Some (Inr db2)" "graph_ok api cat db2 g K r as"
        and k2: "keeps_links (fetch_item api db1) (fetch_item api db2)"
        and v2: "\<forall>k \<in> K. open_ids (chain_versions (fetch_item api db2) (as k)) =
            open_ids (chain_versions (fetch_item api db1) (as k)) - mset (ids_at E k xs)"
        and e2: "\<forall>b h. fetch_item api db1 b = Some (Entity h) \<longrightarrow> fetch_item api db2 b =
            Some (Entity (if b \<in> A ` set xs then ended fxid cid h else h))"
        using ih unfolding if_P[OF True] by blast
      have Ax: "A x \<notin> A ` set xs" using Cons.prems(2) True by (auto simp: edges_at_def inj_on_def)
      have hx: "fetch_item api db (A x) = Some (Entity (H x))" using x(1) unfolding edge_at_def by blast
      have "fetch_item api db2 b = Some (Entity (if b \<in> A ` set (x # xs) then ended fxid cid h else h))"
        if b: "fetch_item api db b = Some (Entity h)" for b h
      proof (cases "b = A x")
        case True
        then have "h = H x" using b hx by simp
        then show ?thesis using e2[rule_format, OF e1[rule_format, OF b]] True Ax by simp
      next
        case False
        then show ?thesis using e2[rule_format, OF e1[rule_format, OF b]] by simp
      qed
      moreover have "open_ids (chain_versions (fetch_item api db2) (as k)) =
          open_ids (chain_versions (fetch_item api db) (as k)) - mset (ids_at E k (x # xs))" if "k \<in> K" for k
        unfolding v2[rule_format, OF that] v1[rule_format, OF that] open_ids_end_at[OF own(1)] ids_at_Cons[of E k x xs]
        by (rule diff_diff_add_mset)
      moreover have "delete_edges api cat env fxid cid g (x # xs) db = Some (Inr db2)" using d r(1) by (simp add: del)
      ultimately show ?thesis unfolding if_P[OF True] using r(2) keeps_links_trans[OF k1 k2] by blast
    qed
  qed
qed

text \<open>C8. Deleting an edge is refused when its entity is not live or another
  transaction is changing it.  Otherwise the entity is ended and, in the list of each end, the first
  record that is not ended and carries the id of the edge; all records keep their places and links,
  all other entities stay, and the lists of all other vertices have the versions they had.  The
  vertices have ids up to 157; behind them see C32.\<close>
theorem delete_edge_both_ends:
  assumes "graph_ok api cat db g K r as" "edge_at api cat db g x a hdr"
    "en_serialized_entity hdr = edge_datum e @ rest" "start_key e \<in> K" "end_key e \<in> K"
    "FullTransactionIdIsValid fxid" "xe_current env (XidFromFullTransactionId fxid)"
  shows "if \<not> changeable env hdr
    then np_internal_delete_edge api cat env fxid cid db g (snd x) (fst x) =
      Some (Inl (Raised ''concurrently deleted or updated''))
    else \<exists>db'. np_internal_delete_edge api cat env fxid cid db g (snd x) (fst x) = Some (Inr db')
      \<and> graph_ok api cat db' g K r as \<and> keeps_links (fetch_item api db) (fetch_item api db')
      \<and> \<not> np_entity_tuple_is_live env (ended fxid cid hdr)
      \<and> (\<forall>b h. fetch_item api db b = Some (Entity h) \<longrightarrow>
            fetch_item api db' b = Some (Entity (if b = a then ended fxid cid hdr else h)))
      \<and> (\<forall>k \<in> K. chain_versions (fetch_item api db') (as k) = end_at fxid cid (fst x) (k = end_key e)
            (end_at fxid cid (fst x) (k = start_key e) (chain_versions (fetch_item api db) (as k))))"
  using delete_edge_step[OF assms(1-5), of env fxid cid] delete_edge_refused[OF assms(2), of env fxid cid]
    ended_not_live[OF assms(6,7), of cid hdr] unfolding ended_def by auto

subsection \<open>Deleting a vertex\<close>

text \<open>A list of linked-list records, followed or interrupted by blocks of the label's array list that
  \<open>heap_deform_tuple\<close> takes for tuples without attributes; and the part of it before the first block.\<close>

definition deformable :: "oid \<Rightarrow> (address \<Rightarrow> item option) \<Rightarrow> address list \<Rightarrow> bool" where
  "deformable arraylist F as \<longleftrightarrow> (\<forall>a \<in> set as.
     if fst a = arraylist then \<exists>b. F a = Some (ArrayBlock b) \<and> block_natts b = 0
     else \<exists>rec. F a = Some (Linked rec))"

definition linked_part :: "oid \<Rightarrow> address list \<Rightarrow> address list" where
  "linked_part arraylist as = takeWhile (\<lambda>a. fst a \<noteq> arraylist) as"

definition compacted_part :: "oid \<Rightarrow> address list \<Rightarrow> address list" where
  "compacted_part arraylist as = dropWhile (\<lambda>a. fst a \<noteq> arraylist) as"

text \<open>A block written by a command below 65536 has no attributes.\<close>

lemma early_block_natts: "mv_cmin b < 65536 \<Longrightarrow> block_natts b = 0"
proof -
  assume "mv_cmin b < 65536"
  then have "unat (mv_cmin b) < 65536" by (simp add: word_less_nat_alt)
  then have "unat (mv_cmin b div 2 ^ 16) = 0" by (simp only: unat_div) simp
  then show ?thesis by (simp add: block_natts_def drop_bit_eq_div unat_eq_0)
qed

lemma collect_edges_chain:
  assumes "chain (fetch_item api db) p c as" "deformable arraylist (fetch_item api db) as" "deform_ok deform"
  shows "collect_edges api deform arraylist detach db xs (fst c) (snd c) = Some
    (if \<not> detach \<and> open_edges (chain_versions (fetch_item api db) (linked_part arraylist as)) \<noteq> []
     then Inl (Raised ''Cannot delete vertex because it still has active edges. Use DETACH DELETE.'')
     else Inr (xs @ open_edges (chain_versions (fetch_item api db) (linked_part arraylist as))))"
  using assms(1,2)
proof (induction as arbitrary: p c xs)
  case Nil
  then show ?case
    by (subst collect_edges.simps) (simp add: chain_versions_def open_edges_def linked_part_def)
next
  case (Cons a as)
  have a: "a = c" "ItemPointerIsValid (snd c)" "OidIsValid (fst c)"
    using Cons.prems(1) by (auto split: option.splits)
  show ?case
  proof (cases "fst c = arraylist")
    case True
    then obtain b where b: "fetch_item api db c = Some (ArrayBlock b)" "deform b = (None, None)"
      using Cons.prems(2) a(1) assms(3) by (auto simp: deformable_def deform_ok_def)
    have "read_item api db (fst c) (snd c) = Inr (Some (ArrayBlock b))" using b(1) by (simp add: read_item_fetch)
    moreover have "collect_edges api deform arraylist detach db xs (fst c) InvalidItemPointer = Some (Inr xs)"
      by (subst collect_edges.simps) (simp add: ItemPointerIsValid_def InvalidItemPointer_def)
    ultimately show ?thesis using True a
      by (subst collect_edges.simps) (simp add: b(2) linked_part_def chain_versions_def open_edges_def)
  next
    case False
    obtain rec where rec: "fetch_item api db c = Some (Linked rec)"
      and tail: "chain (fetch_item api db) c (ll_next_tbl rec, ll_next_itemptr rec) as"
        "deformable arraylist (fetch_item api db) as"
      using Cons.prems a(1) False by (auto simp: deformable_def split: option.splits)
    have "read_item api db (fst c) (snd c) = Inr (Some (Linked rec))" using rec by (simp add: read_item_fetch)
    moreover have "open_edges (chain_versions (fetch_item api db) (linked_part arraylist (a # as))) =
        (if FullTransactionIdIsValid (mv_xmax rec) then [] else [(ll_id rec, ll_edge_lid rec)])
        @ open_edges (chain_versions (fetch_item api db) (linked_part arraylist as))"
      using False by (simp add: linked_part_def chain_versions_def a(1) rec open_edges_def is_open_def
          half_of_linked_def mvcc.truncate_def)
    ultimately show ?thesis
      using a False Cons.IH[OF tail, unfolded fst_conv snd_conv]
      by (cases detach) (simp_all add: collect_edges.simps[of api deform arraylist True db xs "fst c" "snd c"]
          collect_edges.simps[of api deform arraylist False db xs "fst c" "snd c"])
  qed
qed

lemma open_ids_parts:
  "open_ids (chain_versions F as) = open_ids (chain_versions F (linked_part arraylist as))
     + open_ids (chain_versions F (compacted_part arraylist as))"
proof -
  have "chain_versions F as = chain_versions F (linked_part arraylist as)
      @ chain_versions F (compacted_part arraylist as)"
    by (simp add: chain_versions_def linked_part_def compacted_part_def
        flip: concat_append map_append)
  then show ?thesis by (simp add: open_ids_def open_edges_def)
qed

lemma diff_cover_subset:
  fixes R :: "'a multiset"
  assumes "X \<subseteq># Y"
  shows "(X + R) - Y \<subseteq># R"
proof (rule mset_subset_eqI)
  fix a
  have "count X a \<le> count Y a" using assms by (rule mset_subset_eq_count)
  then show "count ((X + R) - Y) a \<le> count R a" by simp
qed

lemma incident_ids:
  assumes "\<forall>x \<in> set xs. k = start_key (E x) \<or> k = end_key (E x)"
  shows "mset (map fst xs) \<subseteq># mset (ids_at E k xs)"
  using assms
proof (induction xs)
  case (Cons x xs)
  have "{#fst x#} \<subseteq># mset (ids_at E k [x])" using Cons.prems by (auto simp: ids_at_def)
  moreover have "mset (map fst xs) \<subseteq># mset (ids_at E k xs)" using Cons by simp
  ultimately have "{#fst x#} + mset (map fst xs) \<subseteq># mset (ids_at E k (x # xs))"
    unfolding ids_at_Cons[of E k x xs] by (rule subset_mset.add_mono)
  then show ?case by simp
qed simp

lemma end_vertex_entity:
  assumes "graph_ok api cat db g K r as" "fetch_item api db (tbl, tid) = Some (Entity old)" "changeable env old"
  shows "\<exists>db'. tombstone_vertex api env fxid cid db tbl tid = Inr db'
    \<and> graph_ok api cat db' g K r as
    \<and> fetch_item api db' = (fetch_item api db)((tbl, tid) \<mapsto> Entity (ended fxid cid old))
    \<and> (\<forall>k \<in> K. chain_versions (fetch_item api db') (as k) = chain_versions (fetch_item api db) (as k))"
proof -
  have ok: "store_ok api db" using assms(1) by (simp add: graph_ok_def)
  obtain db' where m: "modify_item api (end_version fxid cid) db tbl tid = Inr db'" "store_ok api db'"
    and f: "fetch_item api db' = (fetch_item api db)((tbl, tid) \<mapsto> Entity (ended fxid cid old))"
    using end_version_at[OF ok assms(2), of fxid cid] unfolding ended_def by blast
  have k: "keeps_links (fetch_item api db) (fetch_item api db')"
    unfolding f by (rule keeps_links_upd[where x = "Entity old"]) (use assms(2) in simp_all)
  have "chain_versions (fetch_item api db') (as k) = chain_versions (fetch_item api db) (as k)" if "k \<in> K" for k
  proof (rule chain_versions_frame)
    fix b assume "b \<in> set (as k)"
    then have "b \<noteq> (tbl, tid)" using entity_not_in_list[OF assms(1) that assms(2)] by blast
    then show "fetch_item api db' b = fetch_item api db b" unfolding f by (rule fun_upd_other)
  qed
  moreover have "tombstone_vertex api env fxid cid db tbl tid = Inr db'"
    using assms(3) m(1) by (simp add: tombstone_vertex_def current_version_fetch[OF assms(2)] changeable_def)
  ultimately show ?thesis using keeps_links_graph[OF assms(1) k m(2)] f by blast
qed

text \<open>C7. Deleting a vertex looks at the edges of its list up to the first block of
  the array list.  If one of them is open, the vertex is not deleted without \<open>DETACH\<close>.  With it these
  edges are deleted at both ends and the vertex is ended, unless an edge is met twice, as one
  from the vertex to itself is: then the deletion fails.  The edges that compaction has moved into
  blocks are not seen: they neither keep the vertex from being deleted nor are they deleted with it.
  No other entity changes, and what is still open in the list afterwards is in its compacted part.
  The blocks are those of commands with the high half of their number zero (\<open>early_block_natts\<close>); the
  vertices have ids up to 157 (see C32).\<close>
theorem delete_vertex_detaches:
  assumes "graph_ok api cat db g K r as" "(l, i) \<in> K" "cat_vertex_label cat g l = Some lab"
    "OidIsValid (lc_vertex_tbl lab)" "v = (lc_vertex_tbl lab, pm_v_itemptr (r (l, i)))"
    "fetch_item api db v = Some (Entity old)" "changeable env old"
    "deformable (lc_arraylist lab) (fetch_item api db) (as (l, i))"
    "xs = open_edges (chain_versions (fetch_item api db) (linked_part (lc_arraylist lab) (as (l, i))))"
    "edges_at api cat db g K E A H (set xs)" "v \<notin> A ` set xs"
    "\<forall>x \<in> set xs. changeable env (H x) \<and> (start_key (E x) = (l, i) \<or> end_key (E x) = (l, i))"
    "FullTransactionIdIsValid fxid" "xe_current env (XidFromFullTransactionId fxid)" "deform_ok deform"
  shows "if \<not> detach \<and> xs \<noteq> []
    then delete_vertex api deform cat env fxid cid db i l g detach = Some (Inl
      (Raised ''Cannot delete vertex because it still has active edges. Use DETACH DELETE.''))
    else if \<not> distinct xs
    then delete_vertex api deform cat env fxid cid db i l g detach =
      Some (Inl (Raised ''concurrently deleted or updated''))
    else \<exists>db'. delete_vertex api deform cat env fxid cid db i l g detach = Some (Inr db')
      \<and> graph_ok api cat db' g K r as
      \<and> \<not> np_entity_tuple_is_live env (ended fxid cid old)
      \<and> (\<forall>b h. fetch_item api db b = Some (Entity h) \<longrightarrow> fetch_item api db' b =
            Some (Entity (if b = v \<or> b \<in> A ` set xs then ended fxid cid h else h)))
      \<and> (\<forall>k \<in> K. open_ids (chain_versions (fetch_item api db') (as k)) =
            open_ids (chain_versions (fetch_item api db) (as k)) - mset (ids_at E k xs))
      \<and> open_ids (chain_versions (fetch_item api db') (as (l, i))) \<subseteq>#
            open_ids (chain_versions (fetch_item api db) (compacted_part (lc_arraylist lab) (as (l, i))))"
proof -
  let ?k = "(l, i)" and ?tbl = "lc_vertex_tbl lab" and ?ptr = "pm_v_itemptr (r (l, i))"
  have "vertex_at api cat db g ?k (r ?k) (as ?k)" using assms(1,2) by (simp add: graph_ok_def)
  then have small: "0 < i" "i \<le> 157" and vc: "vertex_chain api db (lc_phys_map lab) i (r ?k) (as ?k)"
    using assms(3) by (auto simp: vertex_at_def)
  have slot: "fetch_item api db (lc_phys_map lab, vertex_slot i) = Some (PhysMap (r ?k))"
    and ch: "chain (fetch_item api db) no_address (pm_e_tbl_id (r ?k), pm_e_itemptr (r ?k)) (as ?k)"
    using vc by (simp_all add: vertex_chain_def adjacency_def)
  have start: "delete_vertex api deform cat env fxid cid db i l g detach =
      (if \<not> detach \<and> xs \<noteq> []
       then Some (Inl (Raised ''Cannot delete vertex because it still has active edges. Use DETACH DELETE.''))
       else case delete_edges api cat env fxid cid g xs db of
         Some (Inr db) \<Rightarrow> Some (tombstone_vertex api env fxid cid db ?tbl ?ptr)
       | res \<Rightarrow> res)"
    by (simp add: delete_vertex_def assms(3,4) read_map_entry_fetch[OF slot]
        collect_edges_chain[OF ch assms(8,15), unfolded fst_conv snd_conv] flip: vertex_slot_def assms(9))
  note run = delete_edges_run[OF assms(1,10,13,14), of cid]
  consider "\<not> detach \<and> xs \<noteq> []" | "\<not> (\<not> detach \<and> xs \<noteq> [])" "\<not> distinct xs" | "\<not> (\<not> detach \<and> xs \<noteq> [])" "distinct xs"
    by blast
  then show ?thesis
  proof cases
    case 1
    show ?thesis unfolding start if_P[OF 1] by (rule refl)
  next
    case 2
    show ?thesis unfolding start if_not_P[OF 2(1)] using run 2(2) by simp
  next
    case 3
    have "(\<forall>x \<in> set xs. changeable env (H x)) \<and> distinct xs" using 3 assms(12) by blast
    from run[unfolded if_P[OF this]] obtain db1 where d: "delete_edges api cat env fxid cid g xs db = Some (Inr db1)"
      and g1: "graph_ok api cat db1 g K r as"
      and o1: "\<forall>k \<in> K. open_ids (chain_versions (fetch_item api db1) (as k)) =
            open_ids (chain_versions (fetch_item api db) (as k)) - mset (ids_at E k xs)"
      and e1: "\<forall>b h. fetch_item api db b = Some (Entity h) \<longrightarrow> fetch_item api db1 b =
            Some (Entity (if b \<in> A ` set xs then ended fxid cid h else h))" by blast
    have "fetch_item api db1 (?tbl, ?ptr) = Some (Entity old)"
      using e1[rule_format, OF assms(6)] assms(5,11) by simp
    from end_vertex_entity[OF g1 this assms(7), of fxid cid] obtain db2
      where m: "tombstone_vertex api env fxid cid db1 ?tbl ?ptr = Inr db2"
      and g2: "graph_ok api cat db2 g K r as"
      and f2: "fetch_item api db2 = (fetch_item api db1)(v \<mapsto> Entity (ended fxid cid old))"
      and v2: "\<forall>k \<in> K. chain_versions (fetch_item api db2) (as k) = chain_versions (fetch_item api db1) (as k)"
      unfolding assms(5)[symmetric] by blast
    have "delete_vertex api deform cat env fxid cid db i l g detach = Some (Inr db2)"
      unfolding start if_not_P[OF 3(1)] by (simp add: d m)
    moreover have "\<not> np_entity_tuple_is_live env (ended fxid cid old)"
      using ended_not_live[OF assms(13,14), of cid old] by (simp add: ended_def)
    moreover have "fetch_item api db2 b =
        Some (Entity (if b = v \<or> b \<in> A ` set xs then ended fxid cid h else h))"
      if "fetch_item api db b = Some (Entity h)" for b h
      using e1[rule_format, OF that] that assms(6) by (cases "b = v") (simp_all add: f2)
    moreover have o2: "\<forall>k \<in> K. open_ids (chain_versions (fetch_item api db2) (as k)) =
            open_ids (chain_versions (fetch_item api db) (as k)) - mset (ids_at E k xs)"
      using o1 v2 by simp
    moreover have "open_ids (chain_versions (fetch_item api db2) (as ?k)) \<subseteq>#
        open_ids (chain_versions (fetch_item api db) (compacted_part (lc_arraylist lab) (as ?k)))"
    proof -
      have "mset (map fst xs) \<subseteq># mset (ids_at E ?k xs)"
        by (rule incident_ids) (use assms(12) in auto)
      then have cover: "open_ids (chain_versions (fetch_item api db) (linked_part (lc_arraylist lab) (as ?k)))
          \<subseteq># mset (ids_at E ?k xs)" by (simp add: open_ids_def assms(9))
      show ?thesis
        unfolding o2[rule_format, OF assms(2)] open_ids_parts[of "fetch_item api db" "as ?k" "lc_arraylist lab"]
        by (rule diff_cover_subset[OF cover])
    qed
    ultimately show ?thesis unfolding if_not_P[OF 3(1)] using 3(2) g2 by auto
  qed
qed

text \<open>Two vertices and an edge from the first to the second; and a third vertex, whose list is a block of
  the array list with one open edge.\<close>

definition joining_edge :: edge where
  "joining_edge = edge_build 1 1 2 0 (example_vertex 1) (example_vertex 2)"

definition joining_entity :: NPEntityTupleHeaderData where
  "joining_entity = new_entity 900 0 InvalidItemPointer 1 (edge_datum joining_edge) (Some example_props)"

definition joining_record :: "64 word \<Rightarrow> 64 word \<Rightarrow> byte \<Rightarrow> NeoLinkedListRecord" where
  "joining_record v w d = linked_of_row (new_version 900 0)
     (edge_row (example_vertex v) (example_vertex w) joining_edge d no_address)"

definition joined_head :: "16 word \<Rightarrow> NeoPhysMapRecord" where
  "joined_head k = empty_pad \<lparr> pm_v_itemptr := slot_tid k, pm_e_tbl_id := (if k = 3 then 12 else 14),
     pm_e_itemptr := slot_tid (if k = 3 then 1 else k) \<rparr>"

definition joining_block :: NeoArrayListRecord where
  "joining_block = \<lparr> mv_xmin = 900, mv_xmax = InvalidFullTransactionId, mv_cmin = 0, mv_cmax = InvalidCommandId,
     ar_flags = 0, ar_owner_id = 3, ar_prev_tbl = fst no_address, ar_prev_itemptr = snd no_address,
     ar_next_itemptr = InvalidItemPointer, ar_adj_list = \<lparr> al_maxitems = 1, al_data =
       [\<lparr> mv_xmin = 900, mv_xmax = InvalidFullTransactionId, mv_cmin = 0, mv_cmax = InvalidCommandId,
          am_edge_id = 5, am_edge_lid = 2, am_other_id = 2, am_other_lid = 1, am_dir = 0, am_flags = 0 \<rparr>] \<rparr> \<rparr>"

definition joined_graph :: "list_page db" where
  "joined_graph = (\<lambda>_. [])(10 := [Some [Entity example_first, Entity example_first, Entity example_first]],
     11 := [Some [PhysMap (joined_head 1), PhysMap (joined_head 2), PhysMap (joined_head 3)]],
     12 := [Some [ArrayBlock joining_block]],
     14 := [Some [Linked (joining_record 1 2 0), Linked (joining_record 2 1 1)]],
     20 := [Some [Entity joining_entity]],
     21 := [Some [EdgePhysMap \<lparr> ep_e_itemptr = slot_tid 1, ep_a_itemptr = ZeroItemPointer \<rparr>]])"

lemma third_slot:
  "0 < unat (p :: 16 word) \<and> unat p \<le> 3 \<longleftrightarrow> p = 1 \<or> p = 2 \<or> p = 3"
  "vertex_slot 3 = \<lparr> ip_blkid = 0, ip_posid = 3 \<rparr>"
proof -
  have "unat p = 1 \<longleftrightarrow> p = 1" "unat p = 2 \<longleftrightarrow> p = 2" "unat p = 3 \<longleftrightarrow> p = 3"
    using word_unat_eq_iff[of p 1] word_unat_eq_iff[of p 2] word_unat_eq_iff[of p 3] by simp_all
  then show "0 < unat p \<and> unat p \<le> 3 \<longleftrightarrow> p = 1 \<or> p = 2 \<or> p = 3" by auto
  show "vertex_slot 3 = \<lparr> ip_blkid = 0, ip_posid = 3 \<rparr>"
    by (simp add: vertex_slot_def tuples_per_page_numbers np_id_to_tid_def)
qed

lemma joined_fetch:
  "fetch_item list_page_api joined_graph (t, \<lparr> ip_blkid = b, ip_posid = p \<rparr>) =
     (if b \<noteq> 0 then None
      else if t = 10 \<and> (p = 1 \<or> p = 2 \<or> p = 3) then Some (Entity example_first)
      else if t = 11 \<and> (p = 1 \<or> p = 2 \<or> p = 3) then Some (PhysMap (joined_head p))
      else if t = 12 \<and> p = 1 then Some (ArrayBlock joining_block)
      else if t = 14 \<and> p = 1 then Some (Linked (joining_record 1 2 0))
      else if t = 14 \<and> p = 2 then Some (Linked (joining_record 2 1 1))
      else if t = 20 \<and> p = 1 then Some (Entity joining_entity)
      else if t = 21 \<and> p = 1 then Some (EdgePhysMap \<lparr> ep_e_itemptr = slot_tid 1, ep_a_itemptr = ZeroItemPointer \<rparr>)
      else None)"
  using posid_small[of p] third_slot(1)[of p]
  by (auto simp: fetch_item_def joined_graph_def list_page_api_def nth_Cons' unat_eq_0)

lemma joined_ok: "store_ok list_page_api joined_graph"
proof -
  have "db_ok list_page_api joined_graph"
    by (auto simp: db_ok_def page_ok_def dense_def joined_graph_def list_page_api_def used_space_def
        maxalign_def SizeOfNeoPhysMapRecord_def SizeOfNeoEdgePhysMapRecord_def SizeOfNPEntityTupleHeader_def
        SizeOfNeoArrayListRecord_def SizeOfAdjListMember_def joining_block_def
        example_first_def joining_entity_def new_entity_def length_packed_entity vertex_datum_varlena
        edge_datum_varlena example_props_varlena length_datums split: if_splits)
  then show ?thesis by (simp add: store_ok_def)
qed

text \<open>The vertices 1, 2 and 3 of label 1, with one record each.\<close>

definition joined_keys :: "vertex_key set" where "joined_keys = {(1, 1), (1, 2), (1, 3)}"

definition joined_list :: "vertex_key \<Rightarrow> address list" where
  "joined_list k = [if snd k = 3 then (12, slot_tid 1) else (14, slot_tid (ucast (snd k)))]"

lemma joined_graph_ok:
  "graph_ok list_page_api example_catalog joined_graph 1 joined_keys (\<lambda>k. joined_head (ucast (snd k))) joined_list"
proof -
  have natts: "natts_ok example_catalog (fetch_item list_page_api joined_graph)"
    unfolding natts_ok_def
  proof (intro allI impI)
    fix a x n assume "fetch_item list_page_api joined_graph a = Some x" "item_natts x = Some n"
    then show "cat_natts example_catalog (fst a) = n"
      by (cases a; cases "snd a") (auto simp: joined_fetch example_catalog_def split: if_splits)
  qed
  have "vertex_chain list_page_api joined_graph 11 i (joined_head (ucast i)) (joined_list (1, i))"
    if "i = 1 \<or> i = 2 \<or> i = 3" for i
    using that by (auto simp: vertex_chain_def vertex_slot_12 vertex_slot_2 third_slot(2) joining_block_def joined_fetch adjacency_def
        joined_head_def joined_list_def slot_tid_def joining_record_def linked_of_row_def edge_row_def
        no_address_def OidIsValid_def InvalidOid_def ItemPointerIsValid_def InvalidItemPointer_def)
  from this[of 1] this[of 2] this[of 3]
  have "vertex_at list_page_api example_catalog joined_graph 1 k (joined_head (ucast (snd k))) (joined_list k)"
    if "k \<in> joined_keys" for k
    using that by (auto simp: vertex_at_def joined_keys_def example_catalog_def example_vertex_label_def
        OidIsValid_def InvalidOid_def)
  then show ?thesis using joined_ok natts
    by (auto simp: graph_ok_def joined_keys_def joined_list_def slot_tid_def)
qed

lemma joining_changeable: "changeable example_env joining_entity" "changeable example_env example_first"
  using example_first_live
  by (simp_all add: changeable_def np_entity_tuple_is_live_def np_entity_tuple_xmax_other_def new_entity_def
      joining_entity_def example_env_def FullTransactionIdIsValid_def XidFromFullTransactionId_def
      InvalidFullTransactionId_def)

lemma joining_edge_at:
  "edge_at list_page_api example_catalog joined_graph 1 (1, 2) (20, slot_tid 1) joining_entity"
proof -
  have "edge_slot 1 = \<lparr> ip_blkid = 0, ip_posid = 1 \<rparr>"
    by (simp add: edge_slot_def tuples_per_page_numbers np_id_to_tid_def)
  then show ?thesis
    by (simp add: edge_at_def example_catalog_def example_edge_label_def OidIsValid_def InvalidOid_def
        joined_fetch slot_tid_def)
qed

lemma joining_struct: "\<exists>rest. en_serialized_entity joining_entity = edge_datum joining_edge @ rest"
  by (simp add: joining_entity_def new_entity_def packed_entity_eq edge_datum_varlena example_props_varlena)

lemma joining_keys:
  "start_key joining_edge = (1, 1)" "end_key joining_edge = (1, 2)"
  by (simp_all add: start_key_def end_key_def joining_edge_def edge_build_def example_vertex_def)

lemma own_1005: "FullTransactionIdIsValid 1005" "xe_current example_env (XidFromFullTransactionId 1005)"
  by (simp_all add: FullTransactionIdIsValid_def XidFromFullTransactionId_def example_env_def)

lemma joined_versions:
  "chain_versions (fetch_item list_page_api joined_graph) (joined_list (1, 1)) =
     [(half_of (example_vertex 2) joining_edge 0, new_version 900 0)]"
  by (simp add: chain_versions_def joined_list_def slot_tid_def joined_fetch joining_record_def
      linked_of_row_def edge_row_def half_of_linked_def half_of_def mvcc.truncate_def new_version_def)

lemma delete_edge_both_ends_witness:
  "\<exists>db. np_internal_delete_edge list_page_api example_catalog example_env 1005 0 joined_graph 1 2 1 = Some (Inr db)
    \<and> chain_versions (fetch_item list_page_api db) (joined_list (1, 1)) =
        [(half_of (example_vertex 2) joining_edge 0, (new_version 900 0) \<lparr> mv_xmax := 1005, mv_cmax := 0 \<rparr>)]"
proof -
  obtain rest where rest: "en_serialized_entity joining_entity = edge_datum joining_edge @ rest"
    using joining_struct by blast
  have keys: "start_key joining_edge \<in> joined_keys" "end_key joining_edge \<in> joined_keys" "(1, 1) \<in> joined_keys"
    by (simp_all add: joining_keys joined_keys_def)
  have "he_id (half_of (example_vertex 2) joining_edge 0) = 1" "\<not> FullTransactionIdIsValid (mv_xmax (new_version 900 0))"
    by (simp_all add: half_of_def joining_edge_def edge_build_def new_version_def FullTransactionIdIsValid_def
        InvalidFullTransactionId_def XidFromFullTransactionId_def)
  then have "end_at 1005 0 1 ((1, 1) = end_key joining_edge) (end_at 1005 0 1 ((1, 1) = start_key joining_edge)
      (chain_versions (fetch_item list_page_api joined_graph) (joined_list (1, 1)))) =
      [(half_of (example_vertex 2) joining_edge 0, (new_version 900 0) \<lparr> mv_xmax := 1005, mv_cmax := 0 \<rparr>)]"
    by (simp add: end_at_def joining_keys joined_versions)
  note vs = this
  have c: "\<not> (\<not> changeable example_env joining_entity)" using joining_changeable by simp
  from delete_edge_both_ends[OF joined_graph_ok joining_edge_at rest keys(1,2) own_1005, of 0, unfolded if_not_P[OF c] fst_conv snd_conv]
  obtain db where "np_internal_delete_edge list_page_api example_catalog example_env 1005 0 joined_graph 1 2 1 = Some (Inr db)"
    "\<forall>k \<in> joined_keys. chain_versions (fetch_item list_page_api db) (joined_list k) = end_at 1005 0 1 (k = end_key joining_edge)
        (end_at 1005 0 1 (k = start_key joining_edge) (chain_versions (fetch_item list_page_api joined_graph) (joined_list k)))"
    by blast
  then show ?thesis using keys(3) vs by metis
qed

lemma joined_versions_3:
  "chain_versions (fetch_item list_page_api joined_graph) (joined_list (1, 3)) =
     [(half_of_member (hd (al_data (ar_adj_list joining_block))), new_version 900 0)]"
  by (simp add: chain_versions_def joined_list_def slot_tid_def joined_fetch joining_block_def
      mvcc.truncate_def new_version_def half_of_member_def)

text \<open>The first vertex is deleted with \<open>DETACH\<close> only; the third one always, and its edge stays open.\<close>

lemma delete_vertex_detaches_witness:
  "delete_vertex list_page_api (\<lambda>_. (None, None)) example_catalog example_env 1005 0 joined_graph 1 1 1 False = Some (Inl
     (Raised ''Cannot delete vertex because it still has active edges. Use DETACH DELETE.''))
   \<and> (\<exists>db. delete_vertex list_page_api (\<lambda>_. (None, None)) example_catalog example_env 1005 0 joined_graph 1 1 1 True =
        Some (Inr db)
      \<and> open_ids (chain_versions (fetch_item list_page_api db) (joined_list (1, 1))) = {#})
   \<and> (\<exists>db. delete_vertex list_page_api (\<lambda>_. (None, None)) example_catalog example_env 1005 0 joined_graph 3 1 1 False =
        Some (Inr db)
      \<and> open_ids (chain_versions (fetch_item list_page_api db) (joined_list (1, 3))) = {#5#})"
proof -
  let ?r = "\<lambda>k :: vertex_key. joined_head (ucast (snd k))" and ?v = "\<lambda>p. (10 :: oid, slot_tid p)"
  let ?F = "fetch_item list_page_api joined_graph" and ?part = "linked_part (lc_arraylist example_vertex_label)"
  have lab: "cat_vertex_label example_catalog 1 1 = Some example_vertex_label"
    "OidIsValid (lc_vertex_tbl example_vertex_label)"
    by (simp_all add: example_catalog_def example_vertex_label_def OidIsValid_def InvalidOid_def)
  have v: "?v 1 = (lc_vertex_tbl example_vertex_label, pm_v_itemptr (?r (1, 1)))"
    "?v 3 = (lc_vertex_tbl example_vertex_label, pm_v_itemptr (?r (1, 3)))"
    by (simp_all add: example_vertex_label_def joined_head_def)
  have old: "?F (?v 1) = Some (Entity example_first)" "?F (?v 3) = Some (Entity example_first)"
    by (simp_all add: slot_tid_def joined_fetch)
  have list: "deformable (lc_arraylist example_vertex_label) ?F (joined_list (1, 1))"
    "deformable (lc_arraylist example_vertex_label) ?F (joined_list (1, 3))"
    by (simp_all add: deformable_def example_vertex_label_def joined_list_def slot_tid_def joined_fetch
        joining_block_def early_block_natts)
  have part: "?part (joined_list (1, 1)) = joined_list (1, 1)" "?part (joined_list (1, 3)) = []"
    by (simp_all add: linked_part_def joined_list_def example_vertex_label_def)
  have xs: "[(1, 2)] = open_edges (chain_versions ?F (?part (joined_list (1, 1))))"
    "[] = open_edges (chain_versions ?F (?part (joined_list (1, 3))))"
    unfolding part joined_versions
    by (simp_all add: open_edges_def is_open_def half_of_def joining_edge_def edge_build_def
        new_version_def FullTransactionIdIsValid_def InvalidFullTransactionId_def XidFromFullTransactionId_def
        chain_versions_def)
  have rest: "compacted_part (lc_arraylist example_vertex_label) (joined_list (1, 1)) = []"
    by (simp add: compacted_part_def joined_list_def example_vertex_label_def)
  have five: "open_ids (chain_versions ?F (joined_list (1, 3))) = {#5#}"
    by (simp add: joined_versions_3 is_open_def half_of_member_def joining_block_def new_version_def
        FullTransactionIdIsValid_def InvalidFullTransactionId_def XidFromFullTransactionId_def)
  have at: "edges_at list_page_api example_catalog joined_graph 1 joined_keys (\<lambda>_. joining_edge)
      (\<lambda>_. (20, slot_tid 1)) (\<lambda>_. joining_entity) (set [(1, 2)])"
    "edges_at list_page_api example_catalog joined_graph 1 joined_keys (\<lambda>_. joining_edge)
      (\<lambda>_. (20, slot_tid 1)) (\<lambda>_. joining_entity) (set [])"
    using joining_edge_at joining_struct by (simp_all add: edges_at_def joining_keys joined_keys_def)
  have keys: "(1, 1) \<in> joined_keys" "(1, 3) \<in> joined_keys" by (simp_all add: joined_keys_def)
  have deform: "deform_ok (\<lambda>_. (None, None))" by (simp add: deform_ok_def)
  have side: "?v 1 \<notin> (\<lambda>_. (20, slot_tid 1)) ` set [(1, 2)]"
    "\<forall>x \<in> set [(1 :: 64 word, 2 :: 32 word)]. changeable example_env joining_entity
       \<and> (start_key joining_edge = (1, 1) \<or> end_key joining_edge = (1, 1))"
    using joining_changeable(1) joining_keys(1) by simp_all
  note one = delete_vertex_detaches[OF joined_graph_ok keys(1) lab v(1) old(1) joining_changeable(2) list(1) xs(1)
      at(1) side own_1005 deform, where cid = 0]
  have three: "\<exists>db. delete_vertex list_page_api (\<lambda>_. (None, None)) example_catalog example_env 1005 0 joined_graph 3 1 1 False =
        Some (Inr db)
      \<and> open_ids (chain_versions (fetch_item list_page_api db) (joined_list (1, 3))) =
        open_ids (chain_versions ?F (joined_list (1, 3)))"
    using delete_vertex_detaches[OF joined_graph_ok keys(2) lab v(2) old(2) joining_changeable(2) list(2) xs(2)
      at(2) _ _ own_1005 deform, where cid = 0 and detach = False] keys(2)
    by (auto simp: ids_at_def)
  have none: "chain_versions F [] = []" for F by (simp add: chain_versions_def)
  show ?thesis using one[where detach = False] one[where detach = True] three
    by (auto simp: five rest none)
qed

end
