(* ===== verification/Np_Catalog_Heap.thy ===== *)
theory Np_Catalog_Heap
  imports Np_Entity
begin

text \<open>
  The access method of the catalog tables (\<open>src/src/backend/access/np_catalog_heap.c\<close>): tuples of
  PostgreSQL's heap behind a version header with full transaction ids.  Updates write a new version;
  the old one is ended and names the new one in \<open>t_ctid\<close>.  Besides the operations on single tuples
  this models the scans, the building and validating of indexes and the estimate for toast tables.
\<close>

subsection \<open>Visibility\<close>

datatype snapshot_type = SNAPSHOT_MVCC | SNAPSHOT_SELF | SNAPSHOT_ANY | SNAPSHOT_TOAST | SNAPSHOT_DIRTY
  | SNAPSHOT_HISTORIC_MVCC | SNAPSHOT_NON_VACUUMABLE

text \<open>A null pointer is no snapshot.\<close>

type_synonym any_snapshot = "(snapshot_type \<times> snapshot) option"

definition np_catalog_tuple_visible :: "xact_env \<Rightarrow> any_snapshot \<Rightarrow> 'a mvcc_scheme \<Rightarrow> bool" where
  "np_catalog_tuple_visible env any hdr = (case any of
     None \<Rightarrow> np_entity_tuple_is_live env hdr
   | Some (snapshot_type, snapshot) \<Rightarrow>
       if snapshot_type \<in> {SNAPSHOT_ANY, SNAPSHOT_TOAST} then np_entity_tuple_is_live env hdr
       else if snapshot_type \<in> {SNAPSHOT_SELF, SNAPSHOT_DIRTY} then np_entity_tuple_is_live env hdr
       else
         let fxmin = mv_xmin hdr; fxmax = mv_xmax hdr;
             xmin = XidFromFullTransactionId fxmin; xmax = XidFromFullTransactionId fxmax in
         if \<not> FullTransactionIdIsValid fxmin then False
         else if xe_current env xmin then
           (if mv_cmin hdr \<ge> sn_curcid snapshot then False
            else if FullTransactionIdIsValid fxmax \<and> xe_current env xmax then
              (if mv_cmax hdr \<ge> sn_curcid snapshot then True else False)
            else True)
         else if sn_in snapshot xmin then False
         else if xe_in_progress env xmin \<or> \<not> xe_did_commit env xmin then False
         else if \<not> FullTransactionIdIsValid fxmax then True
         else if xe_current env xmax then
           (if mv_cmax hdr \<ge> sn_curcid snapshot then True else False)
         else if sn_in snapshot xmax then True
         else if xe_in_progress env xmax \<or> \<not> xe_did_commit env xmax then True
         else False)"

subsection \<open>Items\<close>

text \<open>\<open>np_catalog_item_is_fetchable\<close> and \<open>np_catalog_item_header\<close>: an offset on the page, a line pointer in
  use, and an item that is long enough.\<close>

definition np_catalog_item ::
  "'p page_api \<Rightarrow> 'p \<Rightarrow> nat \<Rightarrow> store_error + NPCatalogItemHeaderData option" where
  "np_catalog_item api page off =
     (if off < 1 \<or> PageGetMaxOffsetNumber api page < off then Inr None
      else case pg_item api page off of
        None \<Rightarrow> Inr None
      | Some x \<Rightarrow>
          if item_size x < SizeOfNPCatalogItemHeader + SizeofHeapTupleHeader then Inr None
          else (case x of CatalogItem hdr \<Rightarrow> Inr (Some hdr) | _ \<Rightarrow> Inl WrongRecord))"

text \<open>What \<open>np_catalog_store_heap_tuple\<close> leaves in a slot.\<close>

record catalog_row =
  cr_tid :: item_pointer
  cr_tableoid :: oid
  cr_tuple :: heap_tuple

definition np_catalog_store_heap_tuple ::
  "NPCatalogItemHeaderData \<Rightarrow> item_pointer \<Rightarrow> oid \<Rightarrow> catalog_row" where
  "np_catalog_store_heap_tuple hdr tid reloid =
     \<lparr> cr_tid = tid, cr_tableoid = reloid, cr_tuple = ct_heap_tuple hdr \<rparr>"

definition np_catalog_pack_size :: "heap_tuple \<Rightarrow> nat" where
  "np_catalog_pack_size tuple = SizeOfNPCatalogItemHeader + t_len tuple"

definition np_catalog_pack_item ::
  "heap_tuple \<Rightarrow> full_xid \<Rightarrow> full_xid \<Rightarrow> command_id \<Rightarrow> command_id \<Rightarrow> item_pointer option
    \<Rightarrow> NPCatalogItemHeaderData" where
  "np_catalog_pack_item tuple xmin xmax cmin cmax prev = \<lparr> mv_xmin = xmin, mv_xmax = xmax,
     mv_cmin = cmin, mv_cmax = cmax,
     ct_prev_itemptr = (case prev of Some p \<Rightarrow> p | None \<Rightarrow> InvalidItemPointer),
     ct_flags = 0, ct_heap_tuple = tuple \<rparr>"

subsection \<open>Writing\<close>

text \<open>\<open>HeapTupleHeaderSetXmin\<close>, \<open>SetCmin\<close>, which clears \<open>HEAP_COMBOCID\<close> in the third byte of the rest, and
  \<open>SetXmax\<close>.\<close>

definition stamped :: "full_xid \<Rightarrow> command_id \<Rightarrow> heap_tuple \<Rightarrow> heap_tuple" where
  "stamped fxid cid tuple = tuple \<lparr> ht_xmin := XidFromFullTransactionId fxid, ht_cid := cid,
     ht_rest := (ht_rest tuple)[2 := ht_rest tuple ! 2 AND 0xDF], ht_xmax := 0 \<rparr>"

definition np_catalog_tuple_insert ::
  "'p page_api \<Rightarrow> full_xid \<Rightarrow> 'p db \<Rightarrow> oid \<Rightarrow> heap_tuple \<Rightarrow> command_id
    \<Rightarrow> store_error + (item_pointer \<times> 'p db)" where
  "np_catalog_tuple_insert api fxid db rel tuple cid =
     np_write_record_to_page api db rel (CatalogItem (np_catalog_pack_item (stamped fxid cid tuple) fxid
       InvalidFullTransactionId cid InvalidCommandId None))"

fun np_catalog_multi_insert ::
  "'p page_api \<Rightarrow> full_xid \<Rightarrow> 'p db \<Rightarrow> oid \<Rightarrow> heap_tuple list \<Rightarrow> command_id \<Rightarrow> store_error + 'p db" where
  "np_catalog_multi_insert api fxid db rel [] cid = Inr db"
| "np_catalog_multi_insert api fxid db rel (tuple # tuples) cid =
     sum_bind (np_catalog_tuple_insert api fxid db rel tuple cid)
       (\<lambda>(_, db). np_catalog_multi_insert api fxid db rel tuples cid)"

definition end_catalog_version :: "full_xid \<Rightarrow> command_id \<Rightarrow> item_pointer option \<Rightarrow> item \<Rightarrow> item option" where
  "end_catalog_version fxid cid new_tid x = (case x of
     CatalogItem hdr \<Rightarrow> Some (CatalogItem (hdr \<lparr> mv_xmax := fxid, mv_cmax := cid,
       ct_heap_tuple := (case new_tid of None \<Rightarrow> ct_heap_tuple hdr
         | Some t \<Rightarrow> (ct_heap_tuple hdr) \<lparr> ht_ctid := t \<rparr>) \<rparr>))
   | _ \<Rightarrow> None)"

text \<open>The line pointer of the old version is not tested.\<close>

definition np_catalog_tuple_update ::
  "'p page_api \<Rightarrow> xact_env \<Rightarrow> full_xid \<Rightarrow> 'p db \<Rightarrow> oid \<Rightarrow> item_pointer \<Rightarrow> heap_tuple \<Rightarrow> command_id
    \<Rightarrow> store_error + (TM_Result \<times> item_pointer option \<times> 'p db)" where
  "np_catalog_tuple_update api env fxid db rel otid tuple cid =
     sum_bind (read_item api db rel otid) (\<lambda>found.
       case found of
         None \<Rightarrow> Inl WildItem
       | Some (CatalogItem old_hdr) \<Rightarrow>
           if \<not> np_entity_tuple_is_live env old_hdr then Inr (TM_Invisible, None, db)
           else if np_entity_tuple_xmax_other env old_hdr then Inr (TM_Updated, None, db)
           else sum_bind (np_write_record_to_page api db rel (CatalogItem (np_catalog_pack_item
                  (stamped fxid cid tuple) fxid InvalidFullTransactionId cid InvalidCommandId (Some otid))))
               (\<lambda>(new_tid, db).
             sum_bind (modify_item api (end_catalog_version fxid cid (Some new_tid)) db rel otid) (\<lambda>db.
               Inr (TM_Ok, Some new_tid, db)))
       | Some _ \<Rightarrow> Inl WrongRecord)"

definition np_catalog_tuple_delete ::
  "'p page_api \<Rightarrow> xact_env \<Rightarrow> full_xid \<Rightarrow> 'p db \<Rightarrow> oid \<Rightarrow> item_pointer \<Rightarrow> command_id
    \<Rightarrow> store_error + (TM_Result \<times> 'p db)" where
  "np_catalog_tuple_delete api env fxid db rel tid cid =
     sum_bind (read_item api db rel tid) (\<lambda>found.
       case found of
         None \<Rightarrow> Inl WildItem
       | Some (CatalogItem hdr) \<Rightarrow>
           if \<not> np_entity_tuple_is_live env hdr then Inr (TM_Invisible, db)
           else if np_entity_tuple_xmax_other env hdr then Inr (TM_Updated, db)
           else sum_bind (modify_item api (end_catalog_version fxid cid None) db rel tid)
             (\<lambda>db. Inr (TM_Ok, db))
       | Some _ \<Rightarrow> Inl WrongRecord)"

subsection \<open>Reading\<close>

definition np_catalog_fetch_row_version ::
  "'p page_api \<Rightarrow> xact_env \<Rightarrow> any_snapshot \<Rightarrow> 'p db \<Rightarrow> oid \<Rightarrow> item_pointer
    \<Rightarrow> store_error + catalog_row option" where
  "np_catalog_fetch_row_version api env any db rel tid =
     sum_bind (ReadBuffer db rel (ip_blkid tid)) (\<lambda>page.
     sum_bind (np_catalog_item api page (unat (ip_posid tid))) (\<lambda>item.
       case item of
         None \<Rightarrow> Inr None
       | Some hdr \<Rightarrow> if \<not> np_catalog_tuple_visible env any hdr then Inr None
           else Inr (Some (np_catalog_store_heap_tuple hdr tid rel))))"

text \<open>The copy of it that locks nothing.\<close>

definition np_catalog_tuple_lock ::
  "'p page_api \<Rightarrow> xact_env \<Rightarrow> any_snapshot \<Rightarrow> 'p db \<Rightarrow> oid \<Rightarrow> item_pointer
    \<Rightarrow> store_error + (TM_Result \<times> catalog_row option)" where
  "np_catalog_tuple_lock api env any db rel tid =
     sum_bind (ReadBuffer db rel (ip_blkid tid)) (\<lambda>page.
     sum_bind (np_catalog_item api page (unat (ip_posid tid))) (\<lambda>item.
       case item of
         None \<Rightarrow> Inr (TM_Invisible, None)
       | Some hdr \<Rightarrow> if \<not> np_catalog_tuple_visible env any hdr then Inr (TM_Invisible, None)
           else Inr (TM_Ok, Some (np_catalog_store_heap_tuple hdr tid rel))))"

text \<open>The row that an index entry leads to, and whether the entry is dead to everybody.\<close>

definition np_catalog_index_fetch_tuple ::
  "'p page_api \<Rightarrow> xact_env \<Rightarrow> any_snapshot \<Rightarrow> 'p db \<Rightarrow> oid \<Rightarrow> item_pointer
    \<Rightarrow> store_error + (catalog_row option \<times> bool)" where
  "np_catalog_index_fetch_tuple api env any db rel tid =
     sum_bind (ReadBuffer db rel (ip_blkid tid)) (\<lambda>page.
     sum_bind (np_catalog_item api page (unat (ip_posid tid))) (\<lambda>item.
       case item of
         None \<Rightarrow> Inr (None, True)
       | Some hdr \<Rightarrow>
           if \<not> np_entity_tuple_is_live env hdr then Inr (None, True)
           else if \<not> np_catalog_tuple_visible env any hdr then Inr (None, False)
           else Inr (Some (np_catalog_store_heap_tuple hdr tid rel), False)))"

text \<open>Following the versions; the links may form a cycle.\<close>

partial_function (option) np_catalog_get_latest_tid ::
  "'p page_api \<Rightarrow> xact_env \<Rightarrow> any_snapshot \<Rightarrow> 'p db \<Rightarrow> oid \<Rightarrow> item_pointer \<Rightarrow> item_pointer
    \<Rightarrow> (store_error + item_pointer) option" where
  "np_catalog_get_latest_tid api env any db rel ctid tid =
     (case ReadBuffer db rel (ip_blkid ctid) of
        Inl e \<Rightarrow> Some (Inl e)
      | Inr page \<Rightarrow>
     (case np_catalog_item api page (unat (ip_posid ctid)) of
        Inl e \<Rightarrow> Some (Inl e)
      | Inr None \<Rightarrow> Some (Inr tid)
      | Inr (Some hdr) \<Rightarrow>
          let tid = (if np_catalog_tuple_visible env any hdr then ctid else tid);
              nxt = ht_ctid (ct_heap_tuple hdr)
          in if \<not> ItemPointerIsValid nxt \<or> ctid = nxt then Some (Inr tid)
             else np_catalog_get_latest_tid api env any db rel nxt tid))"

definition np_catalog_tuple_tid_valid :: "nat \<Rightarrow> item_pointer \<Rightarrow> bool" where
  "np_catalog_tuple_tid_valid nblocks tid \<longleftrightarrow> ItemPointerIsValid tid \<and> unat (ip_blkid tid) < nblocks"

text \<open>A slot is empty or holds a row.\<close>

definition np_catalog_tuple_satisfies_snapshot ::
  "'p page_api \<Rightarrow> xact_env \<Rightarrow> any_snapshot \<Rightarrow> 'p db \<Rightarrow> oid \<Rightarrow> catalog_row option \<Rightarrow> store_error + bool" where
  "np_catalog_tuple_satisfies_snapshot api env any db rel slot = (case slot of
     None \<Rightarrow> Inr False
   | Some row \<Rightarrow>
       if \<not> ItemPointerIsValid (cr_tid row) then Inr False
       else sum_bind (ReadBuffer db rel (ip_blkid (cr_tid row))) (\<lambda>page.
         sum_bind (np_catalog_item api page (unat (ip_posid (cr_tid row)))) (\<lambda>item.
           case item of None \<Rightarrow> Inr False | Some hdr \<Rightarrow> Inr (np_catalog_tuple_visible env any hdr))))"

text \<open>The index entries that can be deleted.\<close>

fun np_catalog_index_delete_tuples ::
  "'p page_api \<Rightarrow> xact_env \<Rightarrow> 'p db \<Rightarrow> oid \<Rightarrow> item_pointer list \<Rightarrow> store_error + bool list" where
  "np_catalog_index_delete_tuples api env db rel [] = Inr []"
| "np_catalog_index_delete_tuples api env db rel (tid # tids) =
     sum_bind (ReadBuffer db rel (ip_blkid tid)) (\<lambda>page.
     sum_bind (np_catalog_item api page (unat (ip_posid tid))) (\<lambda>item.
     sum_bind (np_catalog_index_delete_tuples api env db rel tids) (\<lambda>known.
       Inr ((case item of None \<Rightarrow> True | Some hdr \<Rightarrow> \<not> np_entity_tuple_is_live env hdr) # known))))"

end
