(* ===== verification/Np_Catalog_Scan.thy ===== *)
theory Np_Catalog_Scan
  imports Np_Catalog_Heap
begin

text \<open>
  The scans of the catalog tables (\<open>src/src/backend/access/np_catalog_heap.c\<close>): sequential scans and
  ranges of addresses, bitmap and sample scans, statistics, copying a table, and building and
  validating an index.  PostgreSQL's bitmaps, sampling methods, scan keys, predicates and indexes
  are parameters.
\<close>

subsection \<open>Sequential scans\<close>

text \<open>A scan without keys tests none.\<close>

definition catalog_view ::
  "xact_env \<Rightarrow> any_snapshot \<Rightarrow> (heap_tuple \<Rightarrow> bool) option \<Rightarrow> heap_tuple view" where
  "catalog_view env any HeapKeyTest x =
     (if item_size x < SizeOfNPCatalogItemHeader + SizeofHeapTupleHeader then Inr None
      else case x of
        CatalogItem hdr \<Rightarrow>
          Inr (if \<not> np_catalog_tuple_visible env any hdr then None
               else case HeapKeyTest of
                 Some keys \<Rightarrow> if \<not> keys (ct_heap_tuple hdr) then None else Some (ct_heap_tuple hdr)
               | None \<Rightarrow> Some (ct_heap_tuple hdr))
      | _ \<Rightarrow> Inl WrongRecord)"

definition np_catalog_scan_begin :: "'p db \<Rightarrow> oid \<Rightarrow> entity_scan" where
  "np_catalog_scan_begin db rel = \<lparr> es_nblocks = RelationGetNumberOfBlocks db rel, es_cblock = 0,
     es_coffset = 1, es_cbuf = False \<rparr>"

definition np_catalog_scan_rescan :: "'p db \<Rightarrow> oid \<Rightarrow> entity_scan \<Rightarrow> entity_scan" where
  "np_catalog_scan_rescan db rel sscan = sscan \<lparr> es_cbuf := False,
     es_nblocks := RelationGetNumberOfBlocks db rel, es_cblock := 0, es_coffset := 1 \<rparr>"

definition np_catalog_scan_getnextslot where
  "np_catalog_scan_getnextslot api env any keys = scan_buffered api (catalog_view env any keys)"

subsection \<open>Ranges of addresses\<close>

definition ItemPointerCompare :: "item_pointer \<Rightarrow> item_pointer \<Rightarrow> int" where
  "ItemPointerCompare a b =
     (if ip_blkid a < ip_blkid b then -1 else if ip_blkid b < ip_blkid a then 1
      else if ip_posid a < ip_posid b then -1 else if ip_posid b < ip_posid a then 1 else 0)"

record tid_scan =
  ts_desc :: entity_scan
  ts_mintid :: item_pointer
  ts_maxtid :: item_pointer

definition MaxOffsetNumber :: "16 word" where "MaxOffsetNumber = 2048"

definition np_catalog_scan_set_tidrange ::
  "item_pointer \<Rightarrow> item_pointer \<Rightarrow> tid_scan \<Rightarrow> tid_scan" where
  "np_catalog_scan_set_tidrange mintid maxtid sscan =
     (if es_nblocks (ts_desc sscan) = 0 then sscan
      else
        let highest = \<lparr> ip_blkid = of_nat (es_nblocks (ts_desc sscan) - 1), ip_posid = MaxOffsetNumber \<rparr>;
            lowest = \<lparr> ip_blkid = 0, ip_posid = 1 \<rparr>;
            highest = (if ItemPointerCompare maxtid highest < 0 then maxtid else highest);
            lowest = (if ItemPointerCompare mintid lowest > 0 then mintid else lowest)
        in if ItemPointerCompare highest lowest < 0
           then sscan \<lparr> ts_desc := (ts_desc sscan) \<lparr> es_cblock := 0, es_nblocks := 0 \<rparr> \<rparr>
           else \<lparr> ts_desc = (ts_desc sscan) \<lparr> es_cblock := unat (ip_blkid lowest), es_coffset := 1,
                    es_nblocks := unat (ip_blkid highest) + 1 \<rparr>,
                  ts_mintid = lowest, ts_maxtid = highest \<rparr>)"

datatype ScanDirection = BackwardScanDirection | NoMovementScanDirection | ForwardScanDirection

text \<open>The scan goes forward whatever the direction.\<close>

partial_function (option) np_catalog_scan_getnextslot_tidrange ::
  "'p page_api \<Rightarrow> xact_env \<Rightarrow> any_snapshot \<Rightarrow> (heap_tuple \<Rightarrow> bool) option \<Rightarrow> 'p db \<Rightarrow> oid \<Rightarrow> ScanDirection
    \<Rightarrow> tid_scan \<Rightarrow> (store_error + ((item_pointer \<times> heap_tuple) option \<times> tid_scan)) option" where
  "np_catalog_scan_getnextslot_tidrange api env any keys db rel direction sscan =
     (case np_catalog_scan_getnextslot api env any keys db rel (ts_desc sscan) of
        Inl e \<Rightarrow> Some (Inl e)
      | Inr (None, desc) \<Rightarrow> Some (Inr (None, sscan \<lparr> ts_desc := desc \<rparr>))
      | Inr (Some row, desc) \<Rightarrow>
          if ItemPointerCompare (fst row) (ts_mintid sscan) < 0 then
            if direction = BackwardScanDirection then Some (Inr (None, sscan \<lparr> ts_desc := desc \<rparr>))
            else np_catalog_scan_getnextslot_tidrange api env any keys db rel direction (sscan \<lparr> ts_desc := desc \<rparr>)
          else if ItemPointerCompare (fst row) (ts_maxtid sscan) > 0 then
            if direction = ForwardScanDirection then Some (Inr (None, sscan \<lparr> ts_desc := desc \<rparr>))
            else np_catalog_scan_getnextslot_tidrange api env any keys db rel direction (sscan \<lparr> ts_desc := desc \<rparr>)
          else Some (Inr (Some row, sscan \<lparr> ts_desc := desc \<rparr>)))"

subsection \<open>Bitmap scans\<close>

text \<open>The visible ones among given offsets of a page.\<close>

fun visible_offsets ::
  "'p page_api \<Rightarrow> xact_env \<Rightarrow> any_snapshot \<Rightarrow> 'p \<Rightarrow> nat list \<Rightarrow> store_error + nat list" where
  "visible_offsets api env any page [] = Inr []"
| "visible_offsets api env any page (off # offsets) =
     sum_bind (np_catalog_item api page off) (\<lambda>item.
     sum_bind (visible_offsets api env any page offsets) (\<lambda>rest.
       Inr (case item of
          None \<Rightarrow> rest
        | Some hdr \<Rightarrow> if \<not> np_catalog_tuple_visible env any hdr then rest else off # rest)))"

text \<open>An entry of a bitmap: the block, its offsets, none when the entry is lossy, and whether the rows
  have to be checked again.\<close>

record tbm_entry =
  tbm_blockno :: "32 word"
  tbm_offsets :: "nat list option"
  tbm_recheck :: bool

record bitmap_scan =
  bs_bitmap :: "tbm_entry list"
  bs_cblock :: "32 word"
  bs_cindex :: nat
  bs_vistuples :: "nat list"
  bs_recheck :: bool
  bs_lossy_pages :: "64 word"
  bs_exact_pages :: "64 word"

definition np_catalog_bitmap_next_block ::
  "'p page_api \<Rightarrow> xact_env \<Rightarrow> any_snapshot \<Rightarrow> 'p db \<Rightarrow> oid \<Rightarrow> bitmap_scan \<Rightarrow> store_error + (bool \<times> bitmap_scan)" where
  "np_catalog_bitmap_next_block api env any db rel sscan = (case bs_bitmap sscan of
     [] \<Rightarrow> Inr (False, sscan)
   | tbmres # bitmap \<Rightarrow>
       sum_bind (ReadBuffer db rel (tbm_blockno tbmres)) (\<lambda>page.
       sum_bind (visible_offsets api env any page
           (case tbm_offsets tbmres of
              Some offsets \<Rightarrow> offsets
            | None \<Rightarrow> [1..<Suc (PageGetMaxOffsetNumber api page)])) (\<lambda>vistuples.
         Inr (True, sscan \<lparr> bs_bitmap := bitmap, bs_cblock := tbm_blockno tbmres, bs_cindex := 0,
           bs_vistuples := vistuples, bs_recheck := tbm_recheck tbmres,
           bs_lossy_pages := bs_lossy_pages sscan + (if tbm_offsets tbmres = None then 1 else 0),
           bs_exact_pages := bs_exact_pages sscan + (if tbm_offsets tbmres = None then 0 else 1) \<rparr>))))"

text \<open>The item is not tested again.\<close>

definition bitmap_row :: "'p page_api \<Rightarrow> 'p db \<Rightarrow> oid \<Rightarrow> bitmap_scan \<Rightarrow> store_error + (catalog_row \<times> bitmap_scan)" where
  "bitmap_row api db rel sscan =
     (let off = bs_vistuples sscan ! bs_cindex sscan;
          tid = \<lparr> ip_blkid = bs_cblock sscan, ip_posid = of_nat off \<rparr> in
      sum_bind (ReadBuffer db rel (bs_cblock sscan)) (\<lambda>page.
        case pg_item api page off of
          Some (CatalogItem hdr) \<Rightarrow>
            Inr (np_catalog_store_heap_tuple hdr tid rel, sscan \<lparr> bs_cindex := bs_cindex sscan + 1 \<rparr>)
        | Some _ \<Rightarrow> Inl WrongRecord
        | None \<Rightarrow> Inl WildItem))"

function np_catalog_scan_bitmap_next_tuple ::
  "'p page_api \<Rightarrow> xact_env \<Rightarrow> any_snapshot \<Rightarrow> 'p db \<Rightarrow> oid \<Rightarrow> bitmap_scan
    \<Rightarrow> store_error + (catalog_row option \<times> bitmap_scan)" where
  "np_catalog_scan_bitmap_next_tuple api env any db rel sscan =
     (if bs_cindex sscan < length (bs_vistuples sscan)
      then sum_bind (bitmap_row api db rel sscan) (\<lambda>(row, sscan). Inr (Some row, sscan))
      else case np_catalog_bitmap_next_block api env any db rel sscan of
        Inl e \<Rightarrow> Inl e
      | Inr (False, sscan) \<Rightarrow> Inr (None, sscan)
      | Inr (True, sscan) \<Rightarrow> np_catalog_scan_bitmap_next_tuple api env any db rel sscan)"
  by pat_completeness auto
termination
  by (relation "measure (\<lambda>(api, env, any, db, rel, sscan). length (bs_bitmap sscan))")
    (auto simp: np_catalog_bitmap_next_block_def split: list.splits)

declare np_catalog_scan_bitmap_next_tuple.simps [simp del]

subsection \<open>Sample scans\<close>

text \<open>A sampling method with its state; the invalid offset 0 ends a block.  \<open>None\<close> stands for a method
  without \<open>NextSampleBlock\<close>.\<close>

record 't tsm_routine =
  NextSampleBlock :: "('t \<Rightarrow> nat \<Rightarrow> nat option \<times> 't) option"
  NextSampleTuple :: "'t \<Rightarrow> nat \<Rightarrow> nat \<Rightarrow> nat \<times> 't"

record sample_scan =
  ss_nblocks :: nat
  ss_startblock :: nat
  ss_cblock :: nat
  ss_inited :: bool

definition np_catalog_scan_sample_next_block ::
  "'t tsm_routine \<Rightarrow> 't \<Rightarrow> sample_scan \<Rightarrow> bool \<times> 't \<times> sample_scan" where
  "np_catalog_scan_sample_next_block tsm state sscan =
     (if ss_nblocks sscan = 0 then (False, state, sscan)
      else
        let (blockno, state) =
              (case NextSampleBlock tsm of
                 Some f \<Rightarrow> f state (ss_nblocks sscan)
               | None \<Rightarrow>
                   (if \<not> ss_inited sscan then Some (ss_startblock sscan)
                    else let blockno = ss_cblock sscan + 1;
                             blockno = (if ss_nblocks sscan \<le> blockno then 0 else blockno)
                         in if blockno = ss_startblock sscan then None else Some blockno, state))
        in case blockno of
             None \<Rightarrow> (False, state, sscan \<lparr> ss_cblock := 0xFFFFFFFF, ss_inited := False \<rparr>)
           | Some b \<Rightarrow> (True, state, sscan \<lparr> ss_cblock := b, ss_inited := True \<rparr>))"

partial_function (option) np_catalog_scan_sample_next_tuple ::
  "'p page_api \<Rightarrow> xact_env \<Rightarrow> any_snapshot \<Rightarrow> oid \<Rightarrow> 't tsm_routine \<Rightarrow> 'p \<Rightarrow> nat \<Rightarrow> 't
    \<Rightarrow> (store_error + (catalog_row option \<times> 't)) option" where
  "np_catalog_scan_sample_next_tuple api env any rel tsm page cblock state =
     (case NextSampleTuple tsm state cblock (PageGetMaxOffsetNumber api page) of
        (tupoffset, state) \<Rightarrow>
          if tupoffset = 0 then Some (Inr (None, state))
          else (case np_catalog_item api page tupoffset of
             Inl e \<Rightarrow> Some (Inl e)
           | Inr None \<Rightarrow> np_catalog_scan_sample_next_tuple api env any rel tsm page cblock state
           | Inr (Some hdr) \<Rightarrow>
               if \<not> np_catalog_tuple_visible env any hdr
               then np_catalog_scan_sample_next_tuple api env any rel tsm page cblock state
               else Some (Inr (Some (np_catalog_store_heap_tuple hdr
                 \<lparr> ip_blkid = of_nat cblock, ip_posid = of_nat tupoffset \<rparr> rel), state))))"

subsection \<open>Statistics and sizes\<close>

text \<open>The next live tuple of a block, counting the dead ones before it.\<close>

function np_catalog_scan_analyze_next_tuple ::
  "'p page_api \<Rightarrow> xact_env \<Rightarrow> oid \<Rightarrow> 'p \<Rightarrow> nat \<Rightarrow> nat \<Rightarrow> nat \<Rightarrow> nat
    \<Rightarrow> store_error + (catalog_row option \<times> nat \<times> nat \<times> nat)" where
  "np_catalog_scan_analyze_next_tuple api env rel page cblock cindex deadrows livetuples =
     (if PageGetMaxOffsetNumber api page < cindex then Inr (None, cindex, deadrows, livetuples)
      else case np_catalog_item api page cindex of
        Inl e \<Rightarrow> Inl e
      | Inr None \<Rightarrow>
          np_catalog_scan_analyze_next_tuple api env rel page cblock (cindex + 1) deadrows livetuples
      | Inr (Some hdr) \<Rightarrow>
          if \<not> np_entity_tuple_is_live env hdr
          then np_catalog_scan_analyze_next_tuple api env rel page cblock (cindex + 1) (deadrows + 1) livetuples
          else Inr (Some (np_catalog_store_heap_tuple hdr
              \<lparr> ip_blkid = of_nat cblock, ip_posid = of_nat cindex \<rparr> rel), cindex + 1, deadrows, livetuples + 1))"
  by pat_completeness auto
termination
  by (relation "measure (\<lambda>(api, env, rel, page, cblock, cindex, dead, live).
        Suc (PageGetMaxOffsetNumber api page) - cindex)") auto

declare np_catalog_scan_analyze_next_tuple.simps [simp del]

text \<open>The attributes of a table; \<open>at_maxlen\<close> is \<open>type_maximum_size\<close>, negative when there is none, and
  \<open>at_align\<close> the alignment in bytes, a power of two.\<close>

record attribute =
  at_isdropped :: bool
  at_virtual :: bool
  at_len :: "16 word"
  at_align :: "32 word"
  at_plain :: bool
  at_maxlen :: "32 word"

definition type_align :: "32 word \<Rightarrow> 32 word \<Rightarrow> 32 word" where
  "type_align a w = and (w + (a - 1)) (not (a - 1))"

fun attribute_sizes :: "attribute list \<Rightarrow> 32 word \<times> bool \<times> bool \<Rightarrow> 32 word \<times> bool \<times> bool" where
  "attribute_sizes [] acc = acc"
| "attribute_sizes (att # atts) (data_length, maxlength_unknown, has_toastable_attrs) =
     attribute_sizes atts
       (if at_isdropped att \<or> at_virtual att then (data_length, maxlength_unknown, has_toastable_attrs)
        else let data_length = type_align (at_align att) data_length in
          if sint (at_len att) > 0
          then (data_length + scast (at_len att), maxlength_unknown, has_toastable_attrs)
          else (if sint (at_maxlen att) < 0 then data_length else data_length + at_maxlen att,
                maxlength_unknown \<or> sint (at_maxlen att) < 0,
                has_toastable_attrs \<or> \<not> at_plain att))"

text \<open>\<open>TOAST_TUPLE_THRESHOLD\<close> is 2032.\<close>

definition np_catalog_relation_needs_toast_table :: "attribute list \<Rightarrow> bool" where
  "np_catalog_relation_needs_toast_table atts =
     (case attribute_sizes atts (0, False, False) of (data_length, maxlength_unknown, has_toastable_attrs) \<Rightarrow>
        if \<not> has_toastable_attrs then False
        else if maxlength_unknown then True
        else let tuple_length = type_align 8 (of_nat (SizeOfNPCatalogItemHeader + SizeofHeapTupleHeader
                   + (length atts + 7) div 8)) + type_align 8 data_length
             in sint tuple_length > 2032)"

subsection \<open>Copying a table\<close>

text \<open>\<open>SnapshotAny\<close> is static and zeroed.\<close>

definition SnapshotAny :: any_snapshot where
  "SnapshotAny = Some (SNAPSHOT_ANY, \<lparr> sn_xmin = 0, sn_curcid = 0, sn_in = (\<lambda>_. False) \<rparr>)"

partial_function (option) copy_rows ::
  "'p page_api \<Rightarrow> xact_env \<Rightarrow> full_xid \<Rightarrow> command_id \<Rightarrow> oid \<Rightarrow> oid \<Rightarrow> entity_scan \<Rightarrow> nat \<Rightarrow> 'p db
    \<Rightarrow> (store_error + (nat \<times> 'p db)) option" where
  "copy_rows api env fxid cid OldHeap NewHeap sscan n db =
     (case np_catalog_scan_getnextslot api env SnapshotAny None db OldHeap sscan of
        Inl e \<Rightarrow> Some (Inl e)
      | Inr (None, _) \<Rightarrow> Some (Inr (n, db))
      | Inr (Some row, sscan) \<Rightarrow>
          (case np_catalog_tuple_insert api fxid db NewHeap (snd row) cid of
             Inl e \<Rightarrow> Some (Inl e)
           | Inr (_, db) \<Rightarrow> copy_rows api env fxid cid OldHeap NewHeap sscan (n + 1) db))"

text \<open>The number of rows that were copied and the store.\<close>

definition np_catalog_relation_copy_for_cluster ::
  "'p page_api \<Rightarrow> xact_env \<Rightarrow> full_xid \<Rightarrow> command_id \<Rightarrow> oid \<Rightarrow> oid \<Rightarrow> 'p db
    \<Rightarrow> (store_error + (nat \<times> 'p db)) option" where
  "np_catalog_relation_copy_for_cluster api env fxid cid OldHeap NewHeap db =
     copy_rows api env fxid cid OldHeap NewHeap (np_catalog_scan_begin db OldHeap) 0 db"

subsection \<open>Indexes\<close>

text \<open>An index is a state that \<open>callback\<close> and \<open>index_insert\<close> change; forming the columns is left to them.
  A table without predicate has \<open>None\<close>.\<close>

definition ExecQual :: "(heap_tuple \<Rightarrow> bool) option \<Rightarrow> heap_tuple \<Rightarrow> bool" where
  "ExecQual predicate tuple = (case predicate of None \<Rightarrow> True | Some p \<Rightarrow> p tuple)"

partial_function (option) build_rows ::
  "'p page_api \<Rightarrow> xact_env \<Rightarrow> (heap_tuple \<Rightarrow> bool) option \<Rightarrow> ('s \<Rightarrow> item_pointer \<Rightarrow> heap_tuple \<Rightarrow> 's) \<Rightarrow> 'p db
    \<Rightarrow> oid \<Rightarrow> entity_scan \<Rightarrow> nat \<Rightarrow> 's \<Rightarrow> (store_error + (nat \<times> 's)) option" where
  "build_rows api env predicate callback db rel sscan reltuples state =
     (case np_catalog_scan_getnextslot api env SnapshotAny None db rel sscan of
        Inl e \<Rightarrow> Some (Inl e)
      | Inr (None, _) \<Rightarrow> Some (Inr (reltuples, state))
      | Inr (Some (tid, tuple), sscan) \<Rightarrow>
          if \<not> ExecQual predicate tuple
          then build_rows api env predicate callback db rel sscan reltuples state
          else build_rows api env predicate callback db rel sscan (reltuples + 1) (callback state tid tuple))"

definition np_catalog_index_build_range_scan ::
  "'p page_api \<Rightarrow> xact_env \<Rightarrow> (heap_tuple \<Rightarrow> bool) option \<Rightarrow> ('s \<Rightarrow> item_pointer \<Rightarrow> heap_tuple \<Rightarrow> 's) \<Rightarrow> 'p db
    \<Rightarrow> oid \<Rightarrow> 's \<Rightarrow> (store_error + (nat \<times> 's)) option" where
  "np_catalog_index_build_range_scan api env predicate callback db rel state =
     build_rows api env predicate callback db rel (np_catalog_scan_begin db rel) 0 state"

text \<open>Validating an index: \<open>sorted_tids\<close> are the addresses the index has, in order, of which some have
  been read; the cursor is the last one, none at the start and behind the end.\<close>

record validation =
  va_cursor :: "item_pointer option"
  va_empty :: bool
  va_sorted_tids :: "item_pointer list"

fun advance_cursor :: "item_pointer \<Rightarrow> item_pointer option \<Rightarrow> bool \<Rightarrow> item_pointer list \<Rightarrow> validation" where
  "advance_cursor heapcursor cursor True tids =
     \<lparr> va_cursor = cursor, va_empty = True, va_sorted_tids = tids \<rparr>"
| "advance_cursor heapcursor cursor False tids =
     (if cursor = None \<or> ItemPointerCompare (the cursor) heapcursor < 0
      then case tids of
        [] \<Rightarrow> \<lparr> va_cursor = None, va_empty = True, va_sorted_tids = [] \<rparr>
      | t # ts \<Rightarrow> advance_cursor heapcursor (Some t) False ts
      else \<lparr> va_cursor = cursor, va_empty = False, va_sorted_tids = tids \<rparr>)"

text \<open>One row of the table: the address is inserted when the index does not have it.\<close>

definition validate_row ::
  "(heap_tuple \<Rightarrow> bool) option \<Rightarrow> ('s \<Rightarrow> item_pointer \<Rightarrow> heap_tuple \<Rightarrow> 's) \<Rightarrow> item_pointer \<times> heap_tuple
    \<Rightarrow> validation \<times> nat \<times> 's \<Rightarrow> validation \<times> nat \<times> 's" where
  "validate_row predicate index_insert row st = (case st of (va, tups_inserted, index) \<Rightarrow>
     let va = advance_cursor (fst row) (va_cursor va) (va_empty va) (va_sorted_tids va)
     in if (va_empty va \<or> ItemPointerCompare (the (va_cursor va)) (fst row) > 0) \<and> ExecQual predicate (snd row)
        then (va, tups_inserted + 1, index_insert index (fst row) (snd row))
        else (va, tups_inserted, index))"

partial_function (option) validate_rows ::
  "'p page_api \<Rightarrow> xact_env \<Rightarrow> any_snapshot \<Rightarrow> (heap_tuple \<Rightarrow> bool) option
    \<Rightarrow> ('s \<Rightarrow> item_pointer \<Rightarrow> heap_tuple \<Rightarrow> 's) \<Rightarrow> 'p db \<Rightarrow> oid \<Rightarrow> entity_scan \<Rightarrow> validation \<times> nat \<times> 's
    \<Rightarrow> (store_error + (nat \<times> 's)) option" where
  "validate_rows api env any predicate index_insert db rel sscan st =
     (case np_catalog_scan_getnextslot api env any None db rel sscan of
        Inl e \<Rightarrow> Some (Inl e)
      | Inr (None, _) \<Rightarrow> Some (Inr (snd st))
      | Inr (Some row, sscan) \<Rightarrow>
          validate_rows api env any predicate index_insert db rel sscan
            (validate_row predicate index_insert row st))"

definition np_catalog_index_validate_scan ::
  "'p page_api \<Rightarrow> xact_env \<Rightarrow> any_snapshot \<Rightarrow> (heap_tuple \<Rightarrow> bool) option
    \<Rightarrow> ('s \<Rightarrow> item_pointer \<Rightarrow> heap_tuple \<Rightarrow> 's) \<Rightarrow> 'p db \<Rightarrow> oid \<Rightarrow> item_pointer list \<Rightarrow> 's
    \<Rightarrow> (store_error + (nat \<times> 's)) option" where
  "np_catalog_index_validate_scan api env any predicate index_insert db rel sorted_tids index =
     validate_rows api env any predicate index_insert db rel (np_catalog_scan_begin db rel)
       (\<lparr> va_cursor = None, va_empty = False, va_sorted_tids = sorted_tids \<rparr>, 0, index)"

end
