(* ===== verification/Np_Catalog_Update.thy ===== *)
theory Np_Catalog_Update
  imports Np_Catalog_Heap
begin

text \<open>
  What the catalog's access method promises (\<open>src/src/backend/access/np_catalog_heap.c\<close>): its test of
  visibility is that of multi-version concurrency control, what an update makes of the store and of
  the visibility of the two versions, and where the fetch through an index departs from it.
\<close>

subsection \<open>Visibility as a specification\<close>

text \<open>The 32-bit tests answer for the full transaction ids from \<open>old\<close> on: \<open>XidInMVCCSnapshot\<close> compares
  modulo \<open>2 ^ 32\<close>.  A transaction that is in progress and not the backend's own was so when the
  snapshot was taken, or has begun since.\<close>

definition answers_since :: "xact_env \<Rightarrow> snapshot \<Rightarrow> history \<Rightarrow> full_xid \<Rightarrow> bool" where
  "answers_since env snapshot h old \<longleftrightarrow> (\<forall>f. old \<le> f \<longrightarrow> f < xe_next env \<longrightarrow>
     xe_current env (XidFromFullTransactionId f) = h_own h f
     \<and> sn_in snapshot (XidFromFullTransactionId f) = h_running h f
     \<and> xe_did_commit env (XidFromFullTransactionId f) = h_committed h f
     \<and> (xe_in_progress env (XidFromFullTransactionId f) \<longrightarrow> h_own h f \<or> h_running h f))"

text \<open>Who wrote a version is not older, and only the creator of a version ends it before it commits.\<close>

definition recent_version :: "xact_env \<Rightarrow> history \<Rightarrow> full_xid \<Rightarrow> 'a mvcc_scheme \<Rightarrow> bool" where
  "recent_version env h old r \<longleftrightarrow>
     (\<forall>f \<in> {mv_xmin r, mv_xmax r}. FullTransactionIdIsValid f \<longrightarrow> old \<le> f \<and> f < xe_next env)
     \<and> (FullTransactionIdIsValid (mv_xmin r) \<longrightarrow> FullTransactionIdIsValid (mv_xmax r) \<longrightarrow>
          h_own h (mv_xmin r) \<longrightarrow> h_own h (mv_xmax r))"

text \<open>What the code asks of a writer.\<close>

definition code_takes_effect :: "xact_env \<Rightarrow> snapshot \<Rightarrow> full_xid \<Rightarrow> command_id \<Rightarrow> bool" where
  "code_takes_effect env snapshot f cid \<longleftrightarrow> FullTransactionIdIsValid f
     \<and> (if xe_current env (XidFromFullTransactionId f) then cid < sn_curcid snapshot
        else \<not> sn_in snapshot (XidFromFullTransactionId f)
          \<and> xe_did_commit env (XidFromFullTransactionId f))"

text \<open>Both decisions, as functions of the answers about the two transactions.\<close>

lemma catalog_visible_answers:
  assumes "xe_in_progress env (XidFromFullTransactionId (mv_xmin r)) \<longrightarrow>
      xe_current env (XidFromFullTransactionId (mv_xmin r)) \<or> sn_in snapshot (XidFromFullTransactionId (mv_xmin r))"
    "FullTransactionIdIsValid (mv_xmax r) \<longrightarrow>
      (xe_in_progress env (XidFromFullTransactionId (mv_xmax r)) \<longrightarrow>
        xe_current env (XidFromFullTransactionId (mv_xmax r)) \<or> sn_in snapshot (XidFromFullTransactionId (mv_xmax r)))
      \<and> (xe_current env (XidFromFullTransactionId (mv_xmin r)) \<longrightarrow>
           xe_current env (XidFromFullTransactionId (mv_xmax r)))"
  shows "np_catalog_tuple_visible env (Some (SNAPSHOT_MVCC, snapshot)) r \<longleftrightarrow>
    code_takes_effect env snapshot (mv_xmin r) (mv_cmin r)
    \<and> \<not> code_takes_effect env snapshot (mv_xmax r) (mv_cmax r)"
  using assms unfolding np_catalog_tuple_visible_def code_takes_effect_def Let_def
  by (cases "FullTransactionIdIsValid (mv_xmin r)"; cases "FullTransactionIdIsValid (mv_xmax r)";
      cases "xe_current env (XidFromFullTransactionId (mv_xmin r))";
      cases "xe_current env (XidFromFullTransactionId (mv_xmax r))") (simp_all add: not_le not_less)

lemma catalog_visible_mvcc:
  assumes "answers_since env snapshot h old" "recent_version env h old r"
  shows "np_catalog_tuple_visible env (Some (SNAPSHOT_MVCC, snapshot)) r =
    mvcc_visible h (sn_curcid snapshot) r"
proof (cases "FullTransactionIdIsValid (mv_xmin r)")
  case True
  have ans: "xe_current env (XidFromFullTransactionId f) = h_own h f"
    "sn_in snapshot (XidFromFullTransactionId f) = h_running h f"
    "xe_did_commit env (XidFromFullTransactionId f) = h_committed h f"
    "xe_in_progress env (XidFromFullTransactionId f) \<longrightarrow> h_own h f \<or> h_running h f"
    if "FullTransactionIdIsValid f" "f = mv_xmin r \<or> f = mv_xmax r" for f
  proof -
    have "old \<le> f" "f < xe_next env" using assms(2) that by (auto simp: recent_version_def)
    then show "xe_current env (XidFromFullTransactionId f) = h_own h f"
      "sn_in snapshot (XidFromFullTransactionId f) = h_running h f"
      "xe_did_commit env (XidFromFullTransactionId f) = h_committed h f"
      "xe_in_progress env (XidFromFullTransactionId f) \<longrightarrow> h_own h f \<or> h_running h f"
      using assms(1) by (simp_all add: answers_since_def)
  qed
  have effect: "code_takes_effect env snapshot f cid = took_effect h (sn_curcid snapshot) f cid"
    if "f = mv_xmin r \<or> f = mv_xmax r" for f cid
    using ans that by (cases "FullTransactionIdIsValid f") (simp_all add: code_takes_effect_def took_effect_def)
  show ?thesis unfolding mvcc_visible_def effect[symmetric, OF disjI1[OF refl]] effect[symmetric, OF disjI2[OF refl]]
  proof (rule catalog_visible_answers)
    show "xe_in_progress env (XidFromFullTransactionId (mv_xmin r)) \<longrightarrow>
      xe_current env (XidFromFullTransactionId (mv_xmin r)) \<or> sn_in snapshot (XidFromFullTransactionId (mv_xmin r))"
      using ans[OF True] by simp
    show "FullTransactionIdIsValid (mv_xmax r) \<longrightarrow>
      (xe_in_progress env (XidFromFullTransactionId (mv_xmax r)) \<longrightarrow>
        xe_current env (XidFromFullTransactionId (mv_xmax r)) \<or> sn_in snapshot (XidFromFullTransactionId (mv_xmax r)))
      \<and> (xe_current env (XidFromFullTransactionId (mv_xmin r)) \<longrightarrow>
           xe_current env (XidFromFullTransactionId (mv_xmax r)))"
      using ans[of "mv_xmax r"] ans[of "mv_xmin r"] True assms(2) by (simp add: recent_version_def)
  qed
qed (simp add: np_catalog_tuple_visible_def Let_def mvcc_visible_def took_effect_def)

subsection \<open>Reading a row\<close>

text \<open>The item behind an address, as the readers see it.\<close>

definition catalog_item_at :: "'p page_api \<Rightarrow> 'p db \<Rightarrow> oid \<times> item_pointer \<Rightarrow> NPCatalogItemHeaderData option" where
  "catalog_item_at api db a = (case fetch_item api db a of
     Some (CatalogItem hdr) \<Rightarrow> Some hdr | _ \<Rightarrow> None)"

definition has_heap_header :: "heap_tuple \<Rightarrow> bool" where
  "has_heap_header tuple \<longleftrightarrow> SizeofHeapTupleHeader \<le> t_len tuple"

lemma catalog_item_fetch:
  assumes "store_ok api db" "fetch_item api db (rel, tid) = Some (CatalogItem hdr)"
    "has_heap_header (ct_heap_tuple hdr)"
  shows "\<exists>page. ReadBuffer db rel (ip_blkid tid) = Inr page
    \<and> np_catalog_item api page (unat (ip_posid tid)) = Inr (Some hdr)"
proof -
  let ?page = "db rel ! unat (ip_blkid tid)"
  have blk: "unat (ip_blkid tid) < length (db rel)"
    and it: "pg_item api ?page (unat (ip_posid tid)) = Some (CatalogItem hdr)"
    using assms(2) by (simp_all add: fetch_item_def split: if_splits)
  have "page_ok api ?page" using assms(1) blk by (simp add: store_ok_def db_ok_page)
  then have d: "(pg_item api ?page k = None) = (k = 0 \<or> PageGetMaxOffsetNumber api ?page < k)" for k
    by (simp add: page_ok_def dense_def)
  have "\<not> (unat (ip_posid tid) = 0 \<or> PageGetMaxOffsetNumber api ?page < unat (ip_posid tid))"
    using d[of "unat (ip_posid tid)"] it by simp
  then have "np_catalog_item api ?page (unat (ip_posid tid)) = Inr (Some hdr)"
    using it assms(3) by (auto simp: np_catalog_item_def has_heap_header_def)
  then show ?thesis using blk by (simp add: ReadBuffer_def)
qed

lemma catalog_fetch_row:
  assumes "store_ok api db" "fetch_item api db (rel, tid) = Some (CatalogItem hdr)"
    "has_heap_header (ct_heap_tuple hdr)"
  shows "np_catalog_fetch_row_version api env any db rel tid =
    Inr (if np_catalog_tuple_visible env any hdr
         then Some \<lparr> cr_tid = tid, cr_tableoid = rel, cr_tuple = ct_heap_tuple hdr \<rparr> else None)"
  using catalog_item_fetch[OF assms]
  by (auto simp: np_catalog_fetch_row_version_def np_catalog_store_heap_tuple_def)

lemma catalog_index_fetch:
  assumes "store_ok api db" "fetch_item api db (rel, tid) = Some (CatalogItem hdr)"
    "has_heap_header (ct_heap_tuple hdr)"
  shows "np_catalog_index_fetch_tuple api env any db rel tid =
    Inr (if \<not> np_entity_tuple_is_live env hdr then (None, True)
         else (if np_catalog_tuple_visible env any hdr
           then Some \<lparr> cr_tid = tid, cr_tableoid = rel, cr_tuple = ct_heap_tuple hdr \<rparr> else None, False))"
  using catalog_item_fetch[OF assms]
  by (auto simp: np_catalog_index_fetch_tuple_def np_catalog_store_heap_tuple_def)

subsection \<open>An update\<close>

definition new_catalog_version :: "full_xid \<Rightarrow> command_id \<Rightarrow> item_pointer option \<Rightarrow> heap_tuple \<Rightarrow> NPCatalogItemHeaderData" where
  "new_catalog_version fxid cid prev tuple = np_catalog_pack_item (stamped fxid cid tuple) fxid
     InvalidFullTransactionId cid InvalidCommandId prev"

definition ended_version :: "full_xid \<Rightarrow> command_id \<Rightarrow> item_pointer \<Rightarrow> NPCatalogItemHeaderData \<Rightarrow> NPCatalogItemHeaderData" where
  "ended_version fxid cid t old = old \<lparr> mv_xmax := fxid, mv_cmax := cid,
     ct_heap_tuple := (ct_heap_tuple old) \<lparr> ht_ctid := t \<rparr> \<rparr>"

lemma end_catalog_version_size:
  "end_catalog_version fxid cid new_tid x = Some y \<Longrightarrow> item_size y = item_size x"
  by (auto simp: end_catalog_version_def t_len_def split: item.splits option.splits)

lemma catalog_update_effect:
  assumes "store_ok api db" "fetch_item api db (rel, otid) = Some (CatalogItem old)"
    "np_entity_tuple_is_live env old" "\<not> np_entity_tuple_xmax_other env old"
    "item_fits (CatalogItem (new_catalog_version fxid cid (Some otid) tuple))" "has_room db rel"
  shows "\<exists>t db'. np_catalog_tuple_update api env fxid db rel otid tuple cid = Inr (TM_Ok, Some t, db')
    \<and> store_ok api db' \<and> ItemPointerIsValid t \<and> fetch_item api db (rel, t) = None
    \<and> fetch_item api db' = (fetch_item api db)
        ((rel, t) \<mapsto> CatalogItem (new_catalog_version fxid cid (Some otid) tuple),
         (rel, otid) \<mapsto> CatalogItem (ended_version fxid cid t old))"
proof -
  let ?new = "CatalogItem (new_catalog_version fxid cid (Some otid) tuple)"
  obtain t db1 where w: "np_write_record_to_page api db rel ?new = Inr (t, db1)"
    using np.store_total[OF assms(1,5,6)] by (metis prod.exhaust)
  note ok1 = np.store_ok[OF assms(1) w]
  have fresh: "fetch_item api db (rel, t) = None" by (rule np.store_fresh[OF assms(1) w])
  have f1: "fetch_item api db1 = (fetch_item api db)((rel, t) \<mapsto> ?new)" by (rule np.store_fetch[OF assms(1) w])
  have "t \<noteq> otid" using fresh assms(2) by auto
  then have o1: "fetch_item api db1 (rel, otid) = Some (CatalogItem old)" using assms(2) by (simp add: f1)
  have y: "end_catalog_version fxid cid (Some t) (CatalogItem old) = Some (CatalogItem (ended_version fxid cid t old))"
    by (simp add: end_catalog_version_def ended_version_def)
  obtain db2 where m: "modify_item api (end_catalog_version fxid cid (Some t)) db1 rel otid = Inr db2"
    using np.modify_total[where f = "end_catalog_version fxid cid (Some t)", OF o1 y] by blast
  have ok2: "store_ok api db2" using np.modify_ok[OF ok1 m] end_catalog_version_size by blast
  have f2: "fetch_item api db2 = (fetch_item api db1)((rel, otid) \<mapsto> CatalogItem (ended_version fxid cid t old))"
    using np.modify_fetch[OF ok1 m] end_catalog_version_size y o1 by force
  have "ItemPointerIsValid t" using w assms(1) np_write_record_to_page_Inr by (metis store_ok_def)
  then show ?thesis
    using assms(3,4) w m ok2 fresh f1 f2
    by (simp add: np_catalog_tuple_update_def read_item_fetch[OF assms(2)] new_catalog_version_def)
qed

lemmas catalog_visible_simps = np_catalog_tuple_visible_def np_entity_tuple_is_live_def
  np_entity_tuple_xmax_other_def Let_def

lemma ended_version_visible:
  assumes "np_entity_tuple_is_live env old" "\<not> np_entity_tuple_xmax_other env old"
    "FullTransactionIdIsValid fxid" "xe_current env (XidFromFullTransactionId fxid)"
  shows "np_catalog_tuple_visible env (Some (SNAPSHOT_MVCC, snapshot)) (ended_version fxid cid t old) \<longleftrightarrow>
    sn_curcid snapshot \<le> cid \<and> np_catalog_tuple_visible env (Some (SNAPSHOT_MVCC, snapshot)) old"
proof (cases "xe_current env (XidFromFullTransactionId (mv_xmin old))")
  case True
  with assms show ?thesis
    by (auto simp: catalog_visible_simps ended_version_def not_le split: if_splits)
next
  case False
  with assms show ?thesis
    by (auto simp: catalog_visible_simps ended_version_def not_le split: if_splits)
qed

lemma new_version_visible:
  assumes "FullTransactionIdIsValid fxid" "xe_current env (XidFromFullTransactionId fxid)"
  shows "np_catalog_tuple_visible env (Some (SNAPSHOT_MVCC, snapshot)) (new_catalog_version fxid cid prev tuple) \<longleftrightarrow>
    cid < sn_curcid snapshot"
  using assms
  by (auto simp: catalog_visible_simps new_catalog_version_def np_catalog_pack_item_def
      FullTransactionIdIsValid_def InvalidFullTransactionId_def XidFromFullTransactionId_def)


lemma catalog_fetch_row_iff:
  assumes "store_ok api db"
  shows "np_catalog_fetch_row_version api env any db rel tid = Inr (Some row) \<longleftrightarrow>
    (\<exists>hdr. fetch_item api db (rel, tid) = Some (CatalogItem hdr) \<and> has_heap_header (ct_heap_tuple hdr)
       \<and> np_catalog_tuple_visible env any hdr
       \<and> row = \<lparr> cr_tid = tid, cr_tableoid = rel, cr_tuple = ct_heap_tuple hdr \<rparr>)"
proof
  assume l: "np_catalog_fetch_row_version api env any db rel tid = Inr (Some row)"
  then obtain page hdr where p: "ReadBuffer db rel (ip_blkid tid) = Inr page"
      "np_catalog_item api page (unat (ip_posid tid)) = Inr (Some hdr)"
    by (auto simp: np_catalog_fetch_row_version_def split: option.splits if_splits)
  then have "fetch_item api db (rel, tid) = Some (CatalogItem hdr)" "has_heap_header (ct_heap_tuple hdr)"
    by (auto simp: np_catalog_item_def fetch_item_def ReadBuffer_def has_heap_header_def
        split: if_splits option.splits item.splits)
  moreover from l p have "np_catalog_tuple_visible env any hdr"
    "row = \<lparr> cr_tid = tid, cr_tableoid = rel, cr_tuple = ct_heap_tuple hdr \<rparr>"
    by (auto simp: np_catalog_fetch_row_version_def np_catalog_store_heap_tuple_def split: if_splits)
  ultimately show "\<exists>hdr. fetch_item api db (rel, tid) = Some (CatalogItem hdr) \<and> has_heap_header (ct_heap_tuple hdr)
       \<and> np_catalog_tuple_visible env any hdr
       \<and> row = \<lparr> cr_tid = tid, cr_tableoid = rel, cr_tuple = ct_heap_tuple hdr \<rparr>" by blast
qed (auto simp: catalog_fetch_row[OF assms])

text \<open>One step of the walk along the versions.\<close>

lemma latest_tid_step:
  assumes "store_ok api db" "fetch_item api db (rel, ctid) = Some (CatalogItem hdr)"
    "has_heap_header (ct_heap_tuple hdr)"
  shows "np_catalog_get_latest_tid api env any db rel ctid tid =
    (let tid = if np_catalog_tuple_visible env any hdr then ctid else tid;
         nxt = ht_ctid (ct_heap_tuple hdr)
     in if \<not> ItemPointerIsValid nxt \<or> ctid = nxt then Some (Inr tid)
        else np_catalog_get_latest_tid api env any db rel nxt tid)"
  using catalog_item_fetch[OF assms] by (subst np_catalog_get_latest_tid.simps) auto

lemma version_headers [simp]:
  "has_heap_header (ct_heap_tuple (new_catalog_version fxid cid prev tuple)) = has_heap_header tuple"
  "has_heap_header (ct_heap_tuple (ended_version fxid cid t old)) = has_heap_header (ct_heap_tuple old)"
  "ht_ctid (ct_heap_tuple (new_catalog_version fxid cid prev tuple)) = ht_ctid tuple"
  "ht_ctid (ct_heap_tuple (ended_version fxid cid t old)) = t"
  by (simp_all add: has_heap_header_def t_len_def new_catalog_version_def np_catalog_pack_item_def
      stamped_def ended_version_def)

text \<open>A version that the snapshot sees but that is not live is lost to the index, and its entry is
  reported as dead to everybody: the fetch through an index asks first whether the version is live.\<close>

lemma index_fetch_loses_version:
  assumes "store_ok api db" "fetch_item api db (rel, tid) = Some (CatalogItem hdr)"
    "has_heap_header (ct_heap_tuple hdr)" "np_catalog_tuple_visible env any hdr"
    "\<not> np_entity_tuple_is_live env hdr"
  shows "np_catalog_fetch_row_version api env any db rel tid =
      Inr (Some \<lparr> cr_tid = tid, cr_tableoid = rel, cr_tuple = ct_heap_tuple hdr \<rparr>)
    \<and> np_catalog_index_fetch_tuple api env any db rel tid = Inr (None, True)"
  using assms by (simp add: catalog_fetch_row catalog_index_fetch)

text \<open>A table with one row.\<close>

definition example_tuple :: "byte \<Rightarrow> heap_tuple" where
  "example_tuple b = \<lparr> ht_xmin = 900, ht_xmax = 0, ht_cid = 0, ht_ctid = InvalidItemPointer,
     ht_rest = [1, 0, 0, 8, 24, 0, b, 0] \<rparr>"

definition example_row :: NPCatalogItemHeaderData where
  "example_row = new_catalog_version 900 0 None (example_tuple 7)"

definition example_table :: "list_page db" where
  "example_table = (\<lambda>_. [])(1 := [Some [CatalogItem example_row]])"

lemma example_table_db_ok: "db_ok list_page_api example_table"
  by (auto simp: db_ok_def page_ok_def dense_def list_page_api_def used_space_def maxalign_def
      SizeOfNPCatalogItemHeader_def t_len_def example_table_def example_row_def new_catalog_version_def
      np_catalog_pack_item_def stamped_def example_tuple_def split: if_splits)

lemma example_table_ok: "store_ok list_page_api example_table"
  by (simp add: store_ok_def example_table_db_ok)

lemma example_row_facts:
  "fetch_item list_page_api example_table (1, \<lparr> ip_blkid = 0, ip_posid = 1 \<rparr>) = Some (CatalogItem example_row)"
  "has_heap_header (ct_heap_tuple example_row)" "has_heap_header (example_tuple b)"
  "np_entity_tuple_is_live example_env example_row" "\<not> np_entity_tuple_xmax_other example_env example_row"
  "item_fits (CatalogItem (new_catalog_version f c p (example_tuple b)))" "has_room example_table 1"
  by (simp_all add: fetch_item_def list_page_api_def example_table_def example_row_def has_heap_header_def
      SizeofHeapTupleHeader_def t_len_def example_tuple_def np_entity_tuple_is_live_def
      np_entity_tuple_xmax_other_def example_env_def FullTransactionIdIsValid_def XidFromFullTransactionId_def
      InvalidFullTransactionId_def item_fits_def maxalign_def SizeOfNPCatalogItemHeader_def has_room_def
      new_catalog_version_def np_catalog_pack_item_def stamped_def)

end
