(* ===== verification/Np_Catalog_Complete.thy ===== *)
theory Np_Catalog_Complete
  imports Np_Catalog_Scan Np_Catalog_Update
begin

text \<open>
  The scans of the catalog tables return the rows they have to: a sequential scan those that are
  visible, before and after an update, and the routine that validates an index inserts those that the
  index lacks.
\<close>

subsection \<open>The sequential scan\<close>

lemma relation_rows_cong:
  assumes "\<And>page k x. page \<in> set (db rel) \<Longrightarrow> pg_item api page k = Some x \<Longrightarrow> view x = view' x"
  shows "relation_rows api view db rel = relation_rows api view' db rel"
proof -
  have "row_at api view page = row_at api view' page" if "page \<in> set (db rel)" for page
    using assms[OF that] by (auto simp: row_at_def fun_eq_iff split: option.split)
  then show ?thesis
    by (auto simp: relation_rows_def block_rows_def page_rows_def intro!: arg_cong[where f = concat] map_cong)
qed

text \<open>The row that an item has to give: its tuple, when multi-version visibility holds and the keys match.\<close>

definition mvcc_row :: "history \<Rightarrow> command_id \<Rightarrow> (heap_tuple \<Rightarrow> bool) option \<Rightarrow> heap_tuple view" where
  "mvcc_row h curcid keys x = Inr (case x of
     CatalogItem hdr \<Rightarrow>
       if mvcc_visible h curcid hdr \<and> (\<forall>k. keys = Some k \<longrightarrow> k (ct_heap_tuple hdr))
       then Some (ct_heap_tuple hdr) else None
   | _ \<Rightarrow> None)"

definition catalog_relation :: "'p page_api \<Rightarrow> xact_env \<Rightarrow> history \<Rightarrow> full_xid \<Rightarrow> 'p db \<Rightarrow> oid \<Rightarrow> bool" where
  "catalog_relation api env h old db rel \<longleftrightarrow>
     (\<forall>page \<in> set (db rel). \<forall>k x. pg_item api page k = Some x \<longrightarrow>
        (\<exists>hdr. x = CatalogItem hdr \<and> has_heap_header (ct_heap_tuple hdr) \<and> recent_version env h old hdr))"

lemma catalog_view_item:
  "has_heap_header (ct_heap_tuple hdr) \<Longrightarrow> catalog_view env any keys (CatalogItem hdr) =
    Inr (if \<not> np_catalog_tuple_visible env any hdr then None
         else case keys of
           Some keys \<Rightarrow> if \<not> keys (ct_heap_tuple hdr) then None else Some (ct_heap_tuple hdr)
         | None \<Rightarrow> Some (ct_heap_tuple hdr))"
  by (simp add: catalog_view_def has_heap_header_def)

lemma catalog_view_mvcc:
  assumes "answers_since env snapshot h old" "recent_version env h old hdr"
    "has_heap_header (ct_heap_tuple hdr)"
  shows "catalog_view env (Some (SNAPSHOT_MVCC, snapshot)) keys (CatalogItem hdr) =
    mvcc_row h (sn_curcid snapshot) keys (CatalogItem hdr)"
  by (simp add: catalog_view_item assms(3) mvcc_row_def catalog_visible_mvcc[OF assms(1,2)] split: option.split)

text \<open>C11. Asking the sequential scan of a catalog table for \<open>n\<close> rows gives the
  first \<open>n\<close> of the rows that multi-version visibility and the scan keys select, in physical order,
  each with its address, as long as no transaction that wrote a version is so old that the 32-bit
  tests mistake it.\<close>
theorem catalog_scan_complete:
  assumes "db_ok api db" "answers_since env snapshot h old" "catalog_relation api env h old db rel"
  shows "scan_take n (np_catalog_scan_getnextslot api env (Some (SNAPSHOT_MVCC, snapshot)) keys db rel)
      (np_catalog_scan_begin db rel) =
    Inr (take n (relation_rows api (mvcc_row h (sn_curcid snapshot) keys) db rel))"
proof -
  let ?view = "catalog_view env (Some (SNAPSHOT_MVCC, snapshot)) keys"
  have view: "?view x = mvcc_row h (sn_curcid snapshot) keys x"
    if page: "page \<in> set (db rel)" "pg_item api page k = Some x" for page k x
  proof -
    obtain hdr where x: "x = CatalogItem hdr" "has_heap_header (ct_heap_tuple hdr)" "recent_version env h old hdr"
      using assms(3) page unfolding catalog_relation_def by blast
    show ?thesis unfolding x(1) by (rule catalog_view_mvcc[OF assms(2) x(3,2)])
  qed
  have "view_total api ?view db rel" unfolding view_total_def using view by (auto simp: mvcc_row_def)
  then have "scan_take n (scan_buffered api ?view db rel) (np_entity_store_scan_begin db rel) =
      Inr (take n (relation_rows api ?view db rel))"
    by (rule scan_buffered_complete[OF assms(1)])
  also have "relation_rows api ?view db rel = relation_rows api (mvcc_row h (sn_curcid snapshot) keys) db rel"
    by (rule relation_rows_cong) (rule view)
  also have "np_entity_store_scan_begin db rel = np_catalog_scan_begin db rel"
    by (simp add: np_entity_store_scan_begin_def np_catalog_scan_begin_def)
  finally show ?thesis by (simp add: np_catalog_scan_getnextslot_def)
qed


lemma example_answers: "answers_since example_env example_snapshot (example_history
    \<lparr> h_running := (\<lambda>f. f = 1003), h_committed := (\<lambda>f. f \<noteq> 1004) \<rparr>) 900"
proof -
  have low: "(ucast f = (x :: xid)) = (f = ucast x)" if "f < 1010" for f :: full_xid and x
  proof -
    have "uint f < 1010" using that by (simp add: word_less_def)
    then have "take_bit 32 (uint f) = uint f" by (simp add: take_bit_int_eq_self)
    then have "uint (ucast f :: xid) = uint f" by (simp add: unsigned_ucast_eq)
    moreover have "take_bit 64 (uint x) = uint x" using uint_lt2p[of x] by (simp add: take_bit_int_eq_self)
    ultimately show ?thesis by (simp add: word_uint_eq_iff unsigned_ucast_eq)
  qed
  show ?thesis
    by (auto simp: answers_since_def example_env_def example_snapshot_def example_history_def
        XidFromFullTransactionId_def low)
qed

lemma catalog_scan_complete_witness:
  "scan_take 5 (np_catalog_scan_getnextslot list_page_api example_env (Some (SNAPSHOT_MVCC, example_snapshot))
      None example_table 1) (np_catalog_scan_begin example_table 1) =
   Inr [(\<lparr> ip_blkid = 0, ip_posid = 1 \<rparr>, ct_heap_tuple example_row)]"
proof -
  let ?h = "example_history \<lparr> h_running := (\<lambda>f. f = 1003), h_committed := (\<lambda>f. f \<noteq> 1004) \<rparr>"
  have row: "mv_xmin example_row = 900" "mv_xmax example_row = 0"
    by (simp_all add: example_row_def new_catalog_version_def np_catalog_pack_item_def InvalidFullTransactionId_def)
  have "recent_version example_env ?h 900 example_row"
    by (simp add: recent_version_def row example_env_def FullTransactionIdIsValid_def XidFromFullTransactionId_def)
  then have "catalog_relation list_page_api example_env ?h 900 example_table 1"
    using example_row_facts(2)
    by (auto simp: catalog_relation_def example_table_def list_page_api_def split: if_splits)
  note complete = catalog_scan_complete[OF example_table_db_ok example_answers this, of 5 None]
  have "mvcc_visible ?h (sn_curcid example_snapshot) example_row"
    by (simp add: mvcc_visible_def took_effect_def row example_history_def FullTransactionIdIsValid_def
        XidFromFullTransactionId_def)
  then show ?thesis unfolding complete
    by (simp add: relation_rows_def block_rows_def tid_rows_def page_rows_def row_at_def mvcc_row_def
        example_table_def list_page_api_def upt_rec)
qed

subsection \<open>Addresses in order\<close>

definition tid_key :: "item_pointer \<Rightarrow> nat" where
  "tid_key tid = unat (ip_blkid tid) * 65536 + unat (ip_posid tid)"

lemma posid_bound: "unat (p :: 16 word) < 65536"
  using unsigned_less[of p] by simp

lemma tid_key_less:
  "tid_key a < tid_key b \<longleftrightarrow>
     ip_blkid a < ip_blkid b \<or> ip_blkid a = ip_blkid b \<and> ip_posid a < ip_posid b"
proof -
  have "unat (ip_blkid a) < unat (ip_blkid b) \<or>
      unat (ip_blkid a) = unat (ip_blkid b) \<or> unat (ip_blkid b) < unat (ip_blkid a)" by linarith
  then show ?thesis
    unfolding tid_key_def word_less_nat_alt word_unat_eq_iff
    using posid_bound[of "ip_posid a"] posid_bound[of "ip_posid b"] by linarith
qed

lemma ItemPointerCompare_key:
  "ItemPointerCompare a b < 0 \<longleftrightarrow> tid_key a < tid_key b"
  "ItemPointerCompare a b > 0 \<longleftrightarrow> tid_key b < tid_key a"
  by (auto simp: ItemPointerCompare_def tid_key_less)

lemma tid_key_inj: "tid_key a = tid_key b \<longleftrightarrow> a = b"
proof
  assume "tid_key a = tid_key b"
  then have "\<not> tid_key a < tid_key b" "\<not> tid_key b < tid_key a" by simp_all
  then have "ip_blkid a = ip_blkid b" "ip_posid a = ip_posid b" unfolding tid_key_less by auto
  then show "a = b" by (cases a; cases b) simp
qed simp

definition tids_sorted :: "item_pointer list \<Rightarrow> bool" where
  "tids_sorted = sorted_wrt (\<lambda>a b. tid_key a < tid_key b)"

subsection \<open>Validating an index\<close>

text \<open>The entries of the index that are still to be compared.\<close>

definition tids_left :: "validation \<Rightarrow> item_pointer list" where
  "tids_left va = (if va_empty va then []
     else (case va_cursor va of None \<Rightarrow> [] | Some c \<Rightarrow> [c]) @ va_sorted_tids va)"

lemma advance_cursor_left:
  "tids_left (advance_cursor r cursor e tids) =
     dropWhile (\<lambda>t. tid_key t < tid_key r)
       (tids_left \<lparr> va_cursor = cursor, va_empty = e, va_sorted_tids = tids \<rparr>)
   \<and> (let va = advance_cursor r cursor e tids in
      va_empty va \<or> va_cursor va \<noteq> None)"
proof (induction r cursor e tids rule: advance_cursor.induct)
  case (2 r cursor tids)
  then show ?case
    by (cases cursor; cases tids) (auto simp: tids_left_def ItemPointerCompare_key Let_def)
qed (simp add: tids_left_def)

lemma dropWhile_member:
  assumes "sorted_wrt (\<lambda>a b. tid_key a \<le> tid_key b) tids" "tid_key r \<le> tid_key r'"
  shows "r' \<in> set (dropWhile (\<lambda>t. tid_key t < tid_key r) tids) \<longleftrightarrow> r' \<in> set tids"
  using assms by (induction tids) auto

lemma dropWhile_key:
  assumes "sorted_wrt (\<lambda>a b. tid_key a \<le> tid_key b) tids"
  shows "r \<in> set tids \<longleftrightarrow> (case dropWhile (\<lambda>t. tid_key t < tid_key r) tids of
    [] \<Rightarrow> False | t # _ \<Rightarrow> \<not> tid_key r < tid_key t)"
  using assms
proof (induction tids)
  case (Cons t tids)
  then show ?case using tid_key_inj[of t r] by (auto simp: not_less split: list.split)
qed simp

lemma sorted_dropWhile: "sorted_wrt R xs \<Longrightarrow> sorted_wrt R (dropWhile P xs)"
  by (induction xs) auto

definition missing_rows ::
  "(heap_tuple \<Rightarrow> bool) option \<Rightarrow> item_pointer list \<Rightarrow> (item_pointer \<times> heap_tuple) list
    \<Rightarrow> (item_pointer \<times> heap_tuple) list" where
  "missing_rows predicate tids rows = filter (\<lambda>row. fst row \<notin> set tids \<and> ExecQual predicate (snd row)) rows"

lemma validate_row_step:
  assumes "sorted_wrt (\<lambda>a b. tid_key a \<le> tid_key b) (tids_left va)"
  shows "\<exists>va'. validate_row predicate ins row (va, n, index) =
      (if fst row \<notin> set (tids_left va) \<and> ExecQual predicate (snd row)
       then (va', n + 1, ins index (fst row) (snd row)) else (va', n, index))
    \<and> tids_left va' = dropWhile (\<lambda>t. tid_key t < tid_key (fst row)) (tids_left va)"
proof -
  define va' where "va' = advance_cursor (fst row) (va_cursor va) (va_empty va) (va_sorted_tids va)"
  have left: "tids_left va' = dropWhile (\<lambda>t. tid_key t < tid_key (fst row)) (tids_left va)"
    and cursor: "va_empty va' \<or> va_cursor va' \<noteq> None"
    using advance_cursor_left[of "fst row" "va_cursor va" "va_empty va" "va_sorted_tids va"]
    by (simp_all add: va'_def Let_def tids_left_def)
  have "(va_empty va' \<or> ItemPointerCompare (the (va_cursor va')) (fst row) > 0) = (fst row \<notin> set (tids_left va))"
    unfolding dropWhile_key[OF assms, of "fst row"] left[symmetric] ItemPointerCompare_key
    using cursor by (auto simp: tids_left_def split: option.split)
  then show ?thesis using left by (auto simp: validate_row_def Let_def simp flip: va'_def)
qed

lemma validate_rows_fold:
  assumes "sorted_wrt (\<lambda>a b. tid_key a \<le> tid_key b) (tids_left va)" "tids_sorted (map fst rows)"
  shows "snd (fold (validate_row predicate ins) rows (va, n, index)) =
    (n + length (missing_rows predicate (tids_left va) rows),
     fold (\<lambda>row index. ins index (fst row) (snd row)) (missing_rows predicate (tids_left va) rows) index)"
  using assms
proof (induction rows arbitrary: va n index)
  case (Cons row rows)
  obtain va' where step: "validate_row predicate ins row (va, n, index) =
      (if fst row \<notin> set (tids_left va) \<and> ExecQual predicate (snd row)
       then (va', n + 1, ins index (fst row) (snd row)) else (va', n, index))"
    and left: "tids_left va' = dropWhile (\<lambda>t. tid_key t < tid_key (fst row)) (tids_left va)"
    using validate_row_step[OF Cons.prems(1), of predicate ins row n index] by (elim exE conjE) rule
  have later: "\<And>r. r \<in> set rows \<Longrightarrow> tid_key (fst row) \<le> tid_key (fst r)"
    using Cons.prems(2) by (auto simp: tids_sorted_def less_imp_le)
  have same: "missing_rows predicate (tids_left va') rows = missing_rows predicate (tids_left va) rows"
    unfolding missing_rows_def left
    by (rule filter_cong[OF refl]) (simp add: dropWhile_member[OF Cons.prems(1) later])
  have sorted: "sorted_wrt (\<lambda>a b. tid_key a \<le> tid_key b) (tids_left va')"
    unfolding left by (rule sorted_dropWhile[OF Cons.prems(1)])
  have rest: "tids_sorted (map fst rows)" using Cons.prems(2) by (simp add: tids_sorted_def)
  show ?case
    by (simp add: step Cons.IH[OF sorted rest] same) (simp add: missing_rows_def)
qed (simp add: missing_rows_def)


text \<open>A loop that asks a scan for rows until there are none, as a fold over the rows.\<close>

lemma scan_loop_fold:
  assumes loop: "\<And>sscan st. loop sscan st = (case step sscan of
      Inl e \<Rightarrow> Some (Inl e)
    | Inr (None, sscan') \<Rightarrow> Some (Inr (finish st))
    | Inr (Some row, sscan') \<Rightarrow> loop sscan' (body row st))"
    and rows: "scan_take (Suc (length rows)) step sscan = Inr rows"
  shows "loop sscan st = Some (Inr (finish (fold body rows st)))"
  using rows
proof (induction rows arbitrary: sscan st)
  case Nil
  then show ?case by (subst loop) (auto split: option.splits)
next
  case (Cons row rows)
  then obtain sscan' where "step sscan = Inr (Some row, sscan')"
      "scan_take (Suc (length rows)) step sscan' = Inr rows"
    by (auto split: option.splits)
  then show ?case by (subst loop) (simp add: Cons.IH)
qed

text \<open>The addresses of the rows of a relation are in order.\<close>

lemma page_rows_offsets:
  "map fst (page_rows api view page 1) = filter (\<lambda>k. row_at api view page k \<noteq> None)
     [1..<Suc (PageGetMaxOffsetNumber api page)]"
proof -
  have offsets: "map fst (List.map_filter (\<lambda>k. map_option (Pair k) (f k)) ks) = filter (\<lambda>k. f k \<noteq> None) ks"
    for f :: "nat \<Rightarrow> 'r option" and ks
    by (induction ks) (auto simp: List.map_filter_def)
  show ?thesis unfolding page_rows_def by (rule offsets)
qed

lemma block_rows_in_block:
  assumes "db_ok api db" "blk < length (db rel)" "tid \<in> set (map fst (block_rows api view db rel blk))"
  shows "unat (ip_blkid tid) = blk"
proof -
  have "length (db rel) \<le> 0xFFFFFFFF" using assms(1) by (simp add: db_ok_def)
  then have "unat (of_nat blk :: 32 word) = blk" using assms(2) by (simp add: unat_of_nat)
  then show ?thesis using assms(3) by (auto simp: block_rows_def tid_rows_def)
qed

lemma block_rows_sorted:
  assumes "db_ok api db" "blk < length (db rel)"
  shows "tids_sorted (map fst (block_rows api view db rel blk))"
proof -
  let ?page = "db rel ! blk" and ?tid = "\<lambda>k. \<lparr> ip_blkid = of_nat blk, ip_posid = of_nat k \<rparr>"
  have max: "PageGetMaxOffsetNumber api ?page \<le> 680"
    by (rule page_max_le[OF db_ok_page[OF assms]])
  have map: "map fst (block_rows api view db rel blk) = map ?tid (map fst (page_rows api view ?page 1))"
    by (simp add: block_rows_def tid_rows_def case_prod_unfold comp_def)
  have less: "tid_key (?tid j) < tid_key (?tid k)" if "j < k" "k \<le> 680" for j k
  proof -
    have "unat (of_nat j :: 16 word) = j" "unat (of_nat k :: 16 word) = k"
      using that by (simp_all add: unat_of_nat)
    then show ?thesis using that by (simp add: tid_key_def)
  qed
  have "sorted_wrt (<) (map fst (page_rows api view ?page 1))"
    unfolding page_rows_offsets by (rule sorted_wrt_filter) (rule sorted_wrt_upt)
  moreover have "\<forall>k \<in> set (map fst (page_rows api view ?page 1)). k \<le> 680"
    unfolding page_rows_offsets using max by auto
  ultimately have "sorted_wrt (\<lambda>j k. tid_key (?tid j) < tid_key (?tid k)) (map fst (page_rows api view ?page 1))"
    using less by (blast intro: sorted_wrt_mono_rel[rotated])
  then show ?thesis unfolding tids_sorted_def map sorted_wrt_map[of _ ?tid] .
qed

lemma relation_rows_sorted:
  assumes "db_ok api db"
  shows "tids_sorted (map fst (relation_rows api view db rel))"
proof -
  have "tids_sorted (map fst (concat (map (block_rows api view db rel) [0..<n])))"
    if "n \<le> length (db rel)" for n
    using that
  proof (induction n)
    case (Suc n)
    have early: "unat (ip_blkid t) < n"
      if "t \<in> set (map fst (concat (map (block_rows api view db rel) [0..<n])))" for t
    proof -
      obtain blk where blk: "blk < n" "t \<in> set (map fst (block_rows api view db rel blk))"
        using \<open>t \<in> _\<close> by force
      then show ?thesis using block_rows_in_block[OF assms _ blk(2)] Suc.prems by simp
    qed
    have late: "unat (ip_blkid t) = n" if "t \<in> set (map fst (block_rows api view db rel n))" for t
      using block_rows_in_block[OF assms _ that] Suc.prems by simp
    have "tid_key a < tid_key b" if "unat (ip_blkid a) < n" "unat (ip_blkid b) = n" for a b
      using that by (simp add: tid_key_less word_less_nat_alt)
    then show ?case using Suc early late block_rows_sorted[OF assms, of n rel view]
      by (fastforce simp: tids_sorted_def sorted_wrt_append)
  qed (simp add: tids_sorted_def)
  then show ?thesis by (simp add: relation_rows_def)
qed

text \<open>C12. Validating an index adds, in physical order, exactly the rows that the
  snapshot sees, that satisfy the predicate and whose addresses the index does not have, and counts
  them; the addresses of the index come in order, repetitions allowed.\<close>
theorem index_validate_completes:
  assumes "db_ok api db" "view_total api (catalog_view env any None) db rel"
    "sorted_wrt (\<lambda>a b. tid_key a \<le> tid_key b) sorted_tids"
  shows "np_catalog_index_validate_scan api env any predicate index_insert db rel sorted_tids index =
    (let missing = missing_rows predicate sorted_tids (relation_rows api (catalog_view env any None) db rel)
     in Some (Inr (length missing, fold (\<lambda>row index. index_insert index (fst row) (snd row)) missing index)))"
proof -
  let ?rows = "relation_rows api (catalog_view env any None) db rel"
  let ?va = "\<lparr> va_cursor = None, va_empty = False, va_sorted_tids = sorted_tids \<rparr>"
  have left: "tids_left ?va = sorted_tids" by (simp add: tids_left_def)
  have "np_entity_store_scan_begin db rel = np_catalog_scan_begin db rel"
    by (simp add: np_entity_store_scan_begin_def np_catalog_scan_begin_def)
  then have "scan_take (Suc (length ?rows)) (np_catalog_scan_getnextslot api env any None db rel)
      (np_catalog_scan_begin db rel) = Inr ?rows"
    using scan_buffered_complete[OF assms(1,2), of "Suc (length ?rows)"]
    by (simp add: np_catalog_scan_getnextslot_def)
  then have "validate_rows api env any predicate index_insert db rel (np_catalog_scan_begin db rel) (?va, 0, index)
      = Some (Inr (snd (fold (validate_row predicate index_insert) ?rows (?va, 0, index))))"
    by (rule scan_loop_fold[where step = "np_catalog_scan_getnextslot api env any None db rel"
          and loop = "validate_rows api env any predicate index_insert db rel" and finish = snd
          and body = "validate_row predicate index_insert", OF validate_rows.simps])
  also have "snd (fold (validate_row predicate index_insert) ?rows (?va, 0, index)) =
    (0 + length (missing_rows predicate sorted_tids ?rows),
     fold (\<lambda>row index. index_insert index (fst row) (snd row)) (missing_rows predicate sorted_tids ?rows) index)"
    by (rule validate_rows_fold[of ?va, unfolded left, OF assms(3) relation_rows_sorted[OF assms(1)]])
  finally show ?thesis by (simp add: np_catalog_index_validate_scan_def Let_def)
qed


lemma index_validate_completes_witness:
  "np_catalog_index_validate_scan list_page_api example_env None None (\<lambda>index tid tuple. tid # index)
      example_table 1 [\<lparr> ip_blkid = 0, ip_posid = 0 \<rparr>] [] =
    Some (Inr (1, [\<lparr> ip_blkid = 0, ip_posid = 1 \<rparr>]))"
proof -
  have "view_total list_page_api (catalog_view example_env None None) example_table 1"
    by (auto simp: view_total_def catalog_view_def example_table_def list_page_api_def split: if_splits)
  from index_validate_completes[OF example_table_db_ok this, of "[\<lparr> ip_blkid = 0, ip_posid = 0 \<rparr>]" None
      "\<lambda>index tid tuple. tid # index" "[]"]
  show ?thesis
    using example_row_facts(4)
    by (simp add: relation_rows_def block_rows_def tid_rows_def page_rows_def row_at_def catalog_view_item
        example_row_facts(2) np_catalog_tuple_visible_def missing_rows_def ExecQual_def
        example_table_def list_page_api_def upt_rec)
qed

subsection \<open>Scans before and after an update\<close>

text \<open>Lists of rows in the order of their addresses are equal if they have the same rows.\<close>

lemma tids_sorted_unique:
  assumes "tids_sorted (map fst xs)" "tids_sorted (map fst ys)" "set xs = set ys"
  shows "xs = ys"
proof -
  let ?key = "\<lambda>row. tid_key (fst row)"
  have sorted: "sorted_wrt (<) (map ?key zs)" if "tids_sorted (map fst zs)" for zs :: "(item_pointer \<times> 'a) list"
    using that by (simp add: tids_sorted_def sorted_wrt_map)
  have "map ?key xs = map ?key ys"
    by (rule strict_sorted_equal[OF sorted[OF assms(2)] sorted[OF assms(1)]]) (simp add: assms(3))
  moreover have "inj_on ?key (set xs \<union> set ys)"
    using sorted[OF assms(1)] by (simp add: assms(3)[symmetric] strict_sorted_iff distinct_map)
  ultimately show ?thesis by (rule map_inj_on)
qed

text \<open>The rows of a relation, item by item.\<close>

lemma relation_rows_mem:
  assumes "db_ok api db"
  shows "(tid, r) \<in> set (relation_rows api view db rel) \<longleftrightarrow>
    (\<exists>x. fetch_item api db (rel, tid) = Some x \<and> view x = Inr (Some r))"
proof -
  have blocks: "length (db rel) \<le> 0xFFFFFFFF" using assms by (simp add: db_ok_def)
  have at: "row_at api view page k = Some r \<longleftrightarrow> (\<exists>x. pg_item api page k = Some x \<and> view x = Inr (Some r))"
    for page k r by (auto simp: row_at_def split: option.splits sum.splits)
  have page: "(k, r) \<in> set (page_rows api view page 1) \<longleftrightarrow>
      1 \<le> k \<and> k \<le> PageGetMaxOffsetNumber api page \<and> row_at api view page k = Some r" for page k r
    by (force simp: page_rows_def List.map_filter_def simp del: upt_Suc)
  have used: "1 \<le> k \<and> k \<le> PageGetMaxOffsetNumber api (db rel ! blk) \<and> k \<le> 680"
    if "blk < length (db rel)" "pg_item api (db rel ! blk) k = Some x" for blk k x
  proof -
    have ok: "page_ok api (db rel ! blk)" by (rule db_ok_page[OF assms that(1)])
    then have "\<not> (k = 0 \<or> PageGetMaxOffsetNumber api (db rel ! blk) < k)"
      using that(2) by (metis dense_def option.distinct(1) page_ok_def)
    then show ?thesis using page_max_le[OF ok] by simp
  qed
  have "(tid, r) \<in> set (relation_rows api view db rel) \<longleftrightarrow>
      (\<exists>blk < length (db rel). \<exists>k. tid = \<lparr> ip_blkid = of_nat blk, ip_posid = of_nat k \<rparr>
         \<and> (k, r) \<in> set (page_rows api view (db rel ! blk) 1))"
    by (auto simp: relation_rows_def block_rows_def tid_rows_def)
  also have "\<dots> \<longleftrightarrow> (\<exists>blk < length (db rel). \<exists>k x. tid = \<lparr> ip_blkid = of_nat blk, ip_posid = of_nat k \<rparr>
      \<and> pg_item api (db rel ! blk) k = Some x \<and> view x = Inr (Some r))"
    unfolding page at using used by blast
  also have "\<dots> \<longleftrightarrow> (\<exists>x. fetch_item api db (rel, tid) = Some x \<and> view x = Inr (Some r))"
  proof
    assume "\<exists>blk < length (db rel). \<exists>k x. tid = \<lparr> ip_blkid = of_nat blk, ip_posid = of_nat k \<rparr>
      \<and> pg_item api (db rel ! blk) k = Some x \<and> view x = Inr (Some r)"
    then obtain blk k x where b: "blk < length (db rel)" and k: "pg_item api (db rel ! blk) k = Some x"
      and tid: "tid = \<lparr> ip_blkid = of_nat blk, ip_posid = of_nat k \<rparr>" and r: "view x = Inr (Some r)" by blast
    have "unat (of_nat blk :: 32 word) = blk" "unat (of_nat k :: 16 word) = k"
      using b blocks used[OF b k] by (simp_all add: unat_of_nat)
    then show "\<exists>x. fetch_item api db (rel, tid) = Some x \<and> view x = Inr (Some r)"
      using b k r by (simp add: tid fetch_item_def)
  next
    assume "\<exists>x. fetch_item api db (rel, tid) = Some x \<and> view x = Inr (Some r)"
    then obtain x where "unat (ip_blkid tid) < length (db rel)"
      "pg_item api (db rel ! unat (ip_blkid tid)) (unat (ip_posid tid)) = Some x" "view x = Inr (Some r)"
      by (auto simp: fetch_item_def split: if_splits)
    moreover have "tid = \<lparr> ip_blkid = of_nat (unat (ip_blkid tid)), ip_posid = of_nat (unat (ip_posid tid)) \<rparr>"
      by (cases tid) simp
    ultimately show "\<exists>blk < length (db rel). \<exists>k x. tid = \<lparr> ip_blkid = of_nat blk, ip_posid = of_nat k \<rparr>
      \<and> pg_item api (db rel ! blk) k = Some x \<and> view x = Inr (Some r)" by blast
  qed
  finally show ?thesis .
qed

definition catalog_only :: "(oid \<times> item_pointer \<Rightarrow> item option) \<Rightarrow> oid \<Rightarrow> bool" where
  "catalog_only F rel \<longleftrightarrow> (\<forall>tid x. F (rel, tid) = Some x \<longrightarrow> (\<exists>hdr. x = CatalogItem hdr))"

definition catalog_rows ::
  "'p page_api \<Rightarrow> xact_env \<Rightarrow> snapshot \<Rightarrow> (heap_tuple \<Rightarrow> bool) option \<Rightarrow> 'p db \<Rightarrow> oid \<Rightarrow> (item_pointer \<times> heap_tuple) list" where
  "catalog_rows api env snapshot keys db rel =
     relation_rows api (catalog_view env (Some (SNAPSHOT_MVCC, snapshot)) keys) db rel"

definition passes :: "(heap_tuple \<Rightarrow> bool) option \<Rightarrow> heap_tuple \<Rightarrow> bool" where
  "passes keys tuple \<longleftrightarrow> (\<forall>k. keys = Some k \<longrightarrow> k tuple)"

lemma catalog_rows_mem:
  assumes "db_ok api db"
  shows "(tid, tuple) \<in> set (catalog_rows api env snapshot keys db rel) \<longleftrightarrow>
    (\<exists>hdr. fetch_item api db (rel, tid) = Some (CatalogItem hdr) \<and> has_heap_header (ct_heap_tuple hdr)
       \<and> np_catalog_tuple_visible env (Some (SNAPSHOT_MVCC, snapshot)) hdr \<and> passes keys (ct_heap_tuple hdr)
       \<and> tuple = ct_heap_tuple hdr)"
proof -
  have view: "catalog_view env any keys x = Inr (Some tuple) \<longleftrightarrow> (\<exists>hdr. x = CatalogItem hdr
      \<and> has_heap_header (ct_heap_tuple hdr) \<and> np_catalog_tuple_visible env any hdr
      \<and> passes keys (ct_heap_tuple hdr) \<and> tuple = ct_heap_tuple hdr)" for any x
  proof (cases "\<exists>hdr. x = CatalogItem hdr \<and> has_heap_header (ct_heap_tuple hdr)")
    case True
    then obtain hdr where x: "x = CatalogItem hdr" "has_heap_header (ct_heap_tuple hdr)" by blast
    then show ?thesis by (cases keys) (auto simp: catalog_view_item passes_def)
  next
    case False
    then have "catalog_view env any keys x = Inr None \<or> (\<exists>e. catalog_view env any keys x = Inl e)"
      by (cases x) (simp_all add: catalog_view_def has_heap_header_def)
    then show ?thesis using False by auto
  qed
  show ?thesis unfolding catalog_rows_def relation_rows_mem[OF assms] view by auto
qed

lemma catalog_rows_scan:
  assumes "db_ok api db" "catalog_only (fetch_item api db) rel"
  shows "scan_take n (np_catalog_scan_getnextslot api env (Some (SNAPSHOT_MVCC, snapshot)) keys db rel)
      (np_catalog_scan_begin db rel) = Inr (take n (catalog_rows api env snapshot keys db rel))"
proof -
  let ?view = "catalog_view env (Some (SNAPSHOT_MVCC, snapshot)) keys"
  have "\<exists>r. ?view x = Inr r" if page: "page \<in> set (db rel)" and k: "pg_item api page k = Some x" for page k x
  proof -
    obtain blk where b: "blk < length (db rel)" "page = db rel ! blk"
      using page unfolding in_set_conv_nth by blast
    have ok: "page_ok api page" using db_ok_page[OF assms(1) b(1)] b(2) by simp
    then have "\<not> (k = 0 \<or> PageGetMaxOffsetNumber api page < k)"
      using k by (metis dense_def option.distinct(1) page_ok_def)
    then have "unat (of_nat k :: 16 word) = k" using page_max_le[OF ok] by (simp add: unat_of_nat)
    moreover have "unat (of_nat blk :: 32 word) = blk"
    proof -
      have "length (db rel) \<le> 0xFFFFFFFF" using assms(1) by (simp add: db_ok_def)
      then show ?thesis using b(1) by (simp add: unat_of_nat)
    qed
    ultimately have "fetch_item api db (rel, \<lparr> ip_blkid = of_nat blk, ip_posid = of_nat k \<rparr>) = Some x"
      using b k by (simp add: fetch_item_def)
    then obtain hdr where "x = CatalogItem hdr" using assms(2) by (auto simp: catalog_only_def)
    then show ?thesis by (simp add: catalog_view_def)
  qed
  then have "view_total api ?view db rel" unfolding view_total_def by blast
  from scan_buffered_complete[OF assms(1) this] show ?thesis
    by (simp add: np_catalog_scan_getnextslot_def catalog_rows_def np_entity_store_scan_begin_def
        np_catalog_scan_begin_def)
qed


text \<open>The link that the update leaves in the old version.\<close>

definition relinked :: "item_pointer \<Rightarrow> item_pointer \<Rightarrow> item_pointer \<times> heap_tuple \<Rightarrow> item_pointer \<times> heap_tuple" where
  "relinked otid t = (\<lambda>(tid, tuple). (tid, if tid = otid then tuple \<lparr> ht_ctid := t \<rparr> else tuple))"

text \<open>Scan keys compare attributes, which \<open>t_ctid\<close> is not.\<close>

definition blind_to_links :: "(heap_tuple \<Rightarrow> bool) option \<Rightarrow> bool" where
  "blind_to_links keys \<longleftrightarrow> (\<forall>tuple t. passes keys (tuple \<lparr> ht_ctid := t \<rparr>) = passes keys tuple)"

lemma catalog_rows_sorted: "db_ok api db \<Longrightarrow> tids_sorted (map fst (catalog_rows api env snapshot keys db rel))"
  unfolding catalog_rows_def by (rule relation_rows_sorted)

text \<open>C10. Let a catalog row that is live and that nobody else changes be updated.  The
  sequential scans of the same or of an earlier command of the transaction give the same rows as
  before, at the same addresses, in the same order and with the same contents, except that the tuple
  header of the updated one carries the link to its successor; so a scan that updates what it finds
  does not meet its own new versions.  The scans of the commands after it give the same rows without
  the old version and, if the keys select it, with the new one, all in the order of their addresses;
  a fetch at the old address finds nothing, one at the new address the new tuple, and from the old
  address the links lead there.  The new tuple is one just formed: it has no link.\<close>
theorem catalog_update_switches:
  assumes "store_ok api db" "fetch_item api db (rel, otid) = Some (CatalogItem old)"
    "has_heap_header (ct_heap_tuple old)" "has_heap_header tuple"
    "np_entity_tuple_is_live env old" "\<not> np_entity_tuple_xmax_other env old"
    "item_fits (CatalogItem (new_catalog_version fxid cid (Some otid) tuple))" "has_room db rel"
    "FullTransactionIdIsValid fxid" "xe_current env (XidFromFullTransactionId fxid)"
    "\<not> ItemPointerIsValid (ht_ctid tuple)" "catalog_only (fetch_item api db) rel" "blind_to_links keys"
  shows "\<exists>t db'. np_catalog_tuple_update api env fxid db rel otid tuple cid = Inr (TM_Ok, Some t, db')
    \<and> (\<forall>snapshot. \<exists>rows rows'.
        (\<forall>n. scan_take n (np_catalog_scan_getnextslot api env (Some (SNAPSHOT_MVCC, snapshot)) keys db rel)
            (np_catalog_scan_begin db rel) = Inr (take n rows))
      \<and> (\<forall>n. scan_take n (np_catalog_scan_getnextslot api env (Some (SNAPSHOT_MVCC, snapshot)) keys db' rel)
            (np_catalog_scan_begin db' rel) = Inr (take n rows'))
      \<and> (if sn_curcid snapshot \<le> cid then rows' = map (relinked otid t) rows
         else tids_sorted (map fst rows')
          \<and> set rows' = {row \<in> set rows. fst row \<noteq> otid}
              \<union> (if passes keys (stamped fxid cid tuple) then {(t, stamped fxid cid tuple)} else {})
          \<and> np_catalog_fetch_row_version api env (Some (SNAPSHOT_MVCC, snapshot)) db' rel otid = Inr None
          \<and> np_catalog_fetch_row_version api env (Some (SNAPSHOT_MVCC, snapshot)) db' rel t =
              Inr (Some \<lparr> cr_tid = t, cr_tableoid = rel, cr_tuple = stamped fxid cid tuple \<rparr>)
          \<and> np_catalog_get_latest_tid api env (Some (SNAPSHOT_MVCC, snapshot)) db' rel otid otid =
              Some (Inr t)))"
proof -
  obtain t db' where u: "np_catalog_tuple_update api env fxid db rel otid tuple cid = Inr (TM_Ok, Some t, db')"
    and ok: "store_ok api db'" and t: "ItemPointerIsValid t" "fetch_item api db (rel, t) = None"
    and f: "fetch_item api db' = (fetch_item api db)
        ((rel, t) \<mapsto> CatalogItem (new_catalog_version fxid cid (Some otid) tuple),
         (rel, otid) \<mapsto> CatalogItem (ended_version fxid cid t old))"
    using catalog_update_effect[OF assms(1,2,5,6,7,8)] by blast
  let ?new = "new_catalog_version fxid cid (Some otid) tuple" and ?old = "ended_version fxid cid t old"
  have ne: "t \<noteq> otid" using t(2) assms(2) by auto
  have f_old: "fetch_item api db' (rel, otid) = Some (CatalogItem ?old)" by (simp add: f)
  have f_new: "fetch_item api db' (rel, t) = Some (CatalogItem ?new)" using ne by (simp add: f)
  have f_other: "fetch_item api db' (rel, tid) = fetch_item api db (rel, tid)" if "tid \<noteq> otid" "tid \<noteq> t" for tid
    using that by (simp add: f)
  note vis_old = ended_version_visible[OF assms(5,6,9,10)]
  note vis_new = new_version_visible[OF assms(9,10)]
  have ok0: "db_ok api db" "db_ok api db'" using assms(1) ok by (simp_all add: store_ok_def)
  have only: "catalog_only (fetch_item api db') rel"
    using assms(12) by (auto simp: catalog_only_def f)
  have tuples: "ct_heap_tuple ?new = stamped fxid cid tuple" "ct_heap_tuple ?old = (ct_heap_tuple old) \<lparr> ht_ctid := t \<rparr>"
    by (simp_all add: new_catalog_version_def np_catalog_pack_item_def ended_version_def)
  have keys: "passes keys (ct_heap_tuple ?old) = passes keys (ct_heap_tuple old)"
    using assms(13) by (simp add: blind_to_links_def tuples)
  define before where "before = (\<lambda>snapshot. catalog_rows api env snapshot keys db rel)"
  define after where "after = (\<lambda>snapshot. catalog_rows api env snapshot keys db' rel)"
  have rows: "catalog_rows api env snapshot keys db rel = before snapshot"
    "catalog_rows api env snapshot keys db' rel = after snapshot" for snapshot
    by (simp_all add: before_def after_def)
  note mem = catalog_rows_mem[where keys = keys and env = env and rel = rel, OF ok0(1), unfolded rows]
  note mem' = catalog_rows_mem[where keys = keys and env = env and rel = rel, OF ok0(2), unfolded rows]
  have mem_otid: "(otid, r) \<in> set (before snapshot) \<longleftrightarrow>
      np_catalog_tuple_visible env (Some (SNAPSHOT_MVCC, snapshot)) old \<and> passes keys (ct_heap_tuple old)
      \<and> r = ct_heap_tuple old" for r snapshot
    by (simp add: mem assms(2,3))
  have mem_t: "(t, r) \<notin> set (before snapshot)" for r snapshot by (simp add: mem t(2))
  have mem'_otid: "(otid, r) \<in> set (after snapshot) \<longleftrightarrow> sn_curcid snapshot \<le> cid
      \<and> np_catalog_tuple_visible env (Some (SNAPSHOT_MVCC, snapshot)) old \<and> passes keys (ct_heap_tuple old)
      \<and> r = (ct_heap_tuple old) \<lparr> ht_ctid := t \<rparr>" for r snapshot
    by (simp add: mem' f_old assms(3) vis_old keys) (simp add: tuples)
  have mem'_t: "(t, r) \<in> set (after snapshot) \<longleftrightarrow> cid < sn_curcid snapshot
      \<and> passes keys (stamped fxid cid tuple) \<and> r = stamped fxid cid tuple" for r snapshot
    by (simp add: mem' f_new assms(4) vis_new) (simp add: tuples)
  have mem'_other: "(tid, r) \<in> set (after snapshot) \<longleftrightarrow> (tid, r) \<in> set (before snapshot)"
    if "tid \<noteq> otid" "tid \<noteq> t" for tid r snapshot
    by (simp add: mem mem' f_other[OF that])
  have same: "after snapshot = map (relinked otid t) (before snapshot)" if le: "sn_curcid snapshot \<le> cid" for snapshot
  proof (rule tids_sorted_unique)
    show "tids_sorted (map fst (after snapshot))"
      unfolding after_def by (rule catalog_rows_sorted[OF ok0(2)])
    have "map fst (map (relinked otid t) rows) = map fst rows" for rows
      by (simp add: relinked_def case_prod_unfold comp_def)
    then show "tids_sorted (map fst (map (relinked otid t) (before snapshot)))"
      unfolding before_def using catalog_rows_sorted[OF ok0(1)] by metis
    have "(tid, r) \<in> set (after snapshot) \<longleftrightarrow> (tid, r) \<in> relinked otid t ` set (before snapshot)" for tid r
    proof -
      have "(tid, r) \<in> relinked otid t ` set (before snapshot) \<longleftrightarrow> (\<exists>r0. (tid, r0) \<in> set (before snapshot)
          \<and> r = (if tid = otid then r0 \<lparr> ht_ctid := t \<rparr> else r0))"
        by (auto simp: relinked_def image_iff Bex_def split: prod.splits)
      then show ?thesis using le ne
        by (cases "tid = otid"; cases "tid = t") (auto simp: mem'_otid mem'_t mem_otid mem_t mem'_other not_less)
    qed
    then show "set (after snapshot) = set (map (relinked otid t) (before snapshot))" by auto
  qed
  have later: "set (after snapshot) = {row \<in> set (before snapshot). fst row \<noteq> otid}
              \<union> (if passes keys (stamped fxid cid tuple) then {(t, stamped fxid cid tuple)} else {})"
    if "\<not> sn_curcid snapshot \<le> cid" for snapshot
  proof -
    have "(tid, r) \<in> set (after snapshot) \<longleftrightarrow> (tid, r) \<in> {row \<in> set (before snapshot). fst row \<noteq> otid}
              \<union> (if passes keys (stamped fxid cid tuple) then {(t, stamped fxid cid tuple)} else {})" for tid r
      using that ne by (cases "tid = otid"; cases "tid = t") (auto simp: mem'_otid mem'_t mem_t mem'_other)
    then show ?thesis by auto
  qed
  have fetch: "np_catalog_fetch_row_version api env (Some (SNAPSHOT_MVCC, snapshot)) db' rel otid = Inr None
      \<and> np_catalog_fetch_row_version api env (Some (SNAPSHOT_MVCC, snapshot)) db' rel t =
          Inr (Some \<lparr> cr_tid = t, cr_tableoid = rel, cr_tuple = stamped fxid cid tuple \<rparr>)
      \<and> np_catalog_get_latest_tid api env (Some (SNAPSHOT_MVCC, snapshot)) db' rel otid otid = Some (Inr t)"
    if "\<not> sn_curcid snapshot \<le> cid" for snapshot
  proof (intro conjI)
    show "np_catalog_fetch_row_version api env (Some (SNAPSHOT_MVCC, snapshot)) db' rel otid = Inr None"
      using that assms(3) by (simp add: catalog_fetch_row[OF ok f_old] vis_old)
    show "np_catalog_fetch_row_version api env (Some (SNAPSHOT_MVCC, snapshot)) db' rel t =
          Inr (Some \<lparr> cr_tid = t, cr_tableoid = rel, cr_tuple = stamped fxid cid tuple \<rparr>)"
      using that assms(4) by (simp add: catalog_fetch_row[OF ok f_new] vis_new tuples(1)[symmetric])
    show "np_catalog_get_latest_tid api env (Some (SNAPSHOT_MVCC, snapshot)) db' rel otid otid = Some (Inr t)"
      using that t(1) ne assms(3,4,11)
      by (simp add: latest_tid_step[OF ok f_old] latest_tid_step[OF ok f_new] vis_old vis_new Let_def)
  qed
  have sorted: "tids_sorted (map fst (after snapshot))" for snapshot
    unfolding after_def by (rule catalog_rows_sorted[OF ok0(2)])
  note scans = catalog_rows_scan[where keys = keys and env = env, OF ok0(1) assms(12), unfolded rows]
    catalog_rows_scan[where keys = keys and env = env, OF ok0(2) only, unfolded rows]
  show ?thesis
  proof (rule exI[of _ t], rule exI[of _ db'], intro conjI allI)
    fix snapshot
    show "\<exists>rows rows'.
        (\<forall>n. scan_take n (np_catalog_scan_getnextslot api env (Some (SNAPSHOT_MVCC, snapshot)) keys db rel)
            (np_catalog_scan_begin db rel) = Inr (take n rows))
      \<and> (\<forall>n. scan_take n (np_catalog_scan_getnextslot api env (Some (SNAPSHOT_MVCC, snapshot)) keys db' rel)
            (np_catalog_scan_begin db' rel) = Inr (take n rows'))
      \<and> (if sn_curcid snapshot \<le> cid then rows' = map (relinked otid t) rows
         else tids_sorted (map fst rows')
          \<and> set rows' = {row \<in> set rows. fst row \<noteq> otid}
              \<union> (if passes keys (stamped fxid cid tuple) then {(t, stamped fxid cid tuple)} else {})
          \<and> np_catalog_fetch_row_version api env (Some (SNAPSHOT_MVCC, snapshot)) db' rel otid = Inr None
          \<and> np_catalog_fetch_row_version api env (Some (SNAPSHOT_MVCC, snapshot)) db' rel t =
              Inr (Some \<lparr> cr_tid = t, cr_tableoid = rel, cr_tuple = stamped fxid cid tuple \<rparr>)
          \<and> np_catalog_get_latest_tid api env (Some (SNAPSHOT_MVCC, snapshot)) db' rel otid otid =
              Some (Inr t))"
      by (rule exI[of _ "before snapshot"], rule exI[of _ "after snapshot"])
        (cases "sn_curcid snapshot \<le> cid", simp_all only: scans same later fetch sorted if_True if_False simp_thms)
  qed (rule u)
qed

lemma catalog_update_switches_witness:
  "\<exists>t db'. np_catalog_tuple_update list_page_api example_env 1005 example_table 1
      \<lparr> ip_blkid = 0, ip_posid = 1 \<rparr> (example_tuple 8) 3 = Inr (TM_Ok, Some t, db')
    \<and> scan_take 5 (np_catalog_scan_getnextslot list_page_api example_env (Some (SNAPSHOT_MVCC, example_snapshot))
        None db' 1) (np_catalog_scan_begin db' 1) =
      Inr [(\<lparr> ip_blkid = 0, ip_posid = 1 \<rparr>, (ct_heap_tuple example_row) \<lparr> ht_ctid := t \<rparr>)]"
proof -
  have link: "\<not> ItemPointerIsValid (ht_ctid (example_tuple 8))" by (simp add: example_tuple_def)
  have own: "FullTransactionIdIsValid 1005" "xe_current example_env (XidFromFullTransactionId 1005)"
    by (simp_all add: FullTransactionIdIsValid_def XidFromFullTransactionId_def example_env_def)
  have only: "catalog_only (fetch_item list_page_api example_table) 1"
    by (auto simp: catalog_only_def fetch_item_def example_table_def list_page_api_def nth_Cons' split: if_splits)
  have blind: "blind_to_links None" by (simp add: blind_to_links_def passes_def)
  have cur: "sn_curcid example_snapshot \<le> 3" by (simp add: example_snapshot_def)
  obtain t db' where u: "np_catalog_tuple_update list_page_api example_env 1005 example_table 1
      \<lparr> ip_blkid = 0, ip_posid = 1 \<rparr> (example_tuple 8) 3 = Inr (TM_Ok, Some t, db')"
    and "\<exists>rows rows'. (\<forall>n. scan_take n (np_catalog_scan_getnextslot list_page_api example_env
          (Some (SNAPSHOT_MVCC, example_snapshot)) None example_table 1) (np_catalog_scan_begin example_table 1) =
        Inr (take n rows))
      \<and> (\<forall>n. scan_take n (np_catalog_scan_getnextslot list_page_api example_env
          (Some (SNAPSHOT_MVCC, example_snapshot)) None db' 1) (np_catalog_scan_begin db' 1) = Inr (take n rows'))
      \<and> rows' = map (relinked \<lparr> ip_blkid = 0, ip_posid = 1 \<rparr> t) rows"
    using catalog_update_switches[OF example_table_ok example_row_facts(1-5) example_row_facts(6,7) own link only blind]
      cur by (fastforce dest: spec[of _ example_snapshot])
  then obtain rows rows' where
    s: "\<And>n. scan_take n (np_catalog_scan_getnextslot list_page_api example_env (Some (SNAPSHOT_MVCC, example_snapshot))
        None example_table 1) (np_catalog_scan_begin example_table 1) = Inr (take n rows)"
    and s': "\<And>n. scan_take n (np_catalog_scan_getnextslot list_page_api example_env (Some (SNAPSHOT_MVCC, example_snapshot))
        None db' 1) (np_catalog_scan_begin db' 1) = Inr (take n rows')"
    and r: "rows' = map (relinked \<lparr> ip_blkid = 0, ip_posid = 1 \<rparr> t) rows" by blast
  have "example_table 1 = [Some [CatalogItem example_row]]" by (simp add: example_table_def)
  moreover have "np_catalog_tuple_visible example_env (Some (SNAPSHOT_MVCC, example_snapshot)) example_row"
    by (simp add: np_catalog_tuple_visible_def example_row_def new_catalog_version_def np_catalog_pack_item_def
        FullTransactionIdIsValid_def XidFromFullTransactionId_def InvalidFullTransactionId_def
        example_env_def example_snapshot_def)
  ultimately have "catalog_rows list_page_api example_env example_snapshot None example_table 1 =
      [(\<lparr> ip_blkid = 0, ip_posid = 1 \<rparr>, ct_heap_tuple example_row)]"
    by (simp add: catalog_rows_def relation_rows_def block_rows_def tid_rows_def page_rows_def row_at_def
        list_page_api_def upt_rec catalog_view_item example_row_facts)
  then have "take n rows = take n [(\<lparr> ip_blkid = 0, ip_posid = 1 \<rparr>, ct_heap_tuple example_row)]" for n
    using s[of n] catalog_rows_scan[OF example_table_db_ok only, where env = example_env
        and snapshot = example_snapshot and keys = None and n = n] by simp
  from this[of "Suc (length rows)"] have "rows = [(\<lparr> ip_blkid = 0, ip_posid = 1 \<rparr>, ct_heap_tuple example_row)]" by simp
  then have "rows' = [(\<lparr> ip_blkid = 0, ip_posid = 1 \<rparr>, (ct_heap_tuple example_row) \<lparr> ht_ctid := t \<rparr>)]"
    by (simp add: r relinked_def)
  then show ?thesis using u s'[of 5] by (intro exI[of _ t] exI[of _ db']) simp
qed

end
