(* ===== verification/Np_Cache.thy ===== *)
theory Np_Cache
  imports Np_Insert "HOL-Library.AList"
begin

text \<open>
  The caches of graphs, labels and dictionaries (\<open>src/src/backend/utils/np_cache.c\<close>): hash tables in
  shared memory that are filled from the catalog.  A hash table of PostgreSQL is the list of its
  entries, in the order of \<open>hash_seq_search\<close>.
\<close>

subsection \<open>Hash tables\<close>

type_synonym ('k, 'd) htab = "('k \<times> 'd) list"

definition hash_find :: "('k, 'd) htab \<Rightarrow> 'k \<Rightarrow> 'd option" where
  "hash_find tab key = map_of tab key"

text \<open>\<open>HASH_ENTER\<close> and the filling of the entry; a new entry keeps of the key what \<open>keysize\<close> covers.\<close>

definition hash_enter :: "('k \<Rightarrow> 'k) \<Rightarrow> ('k, 'd) htab \<Rightarrow> 'k \<Rightarrow> 'd \<Rightarrow> ('k, 'd) htab" where
  "hash_enter stored tab key d =
     (if hash_find tab key \<noteq> None then AList.update key d tab else tab @ [(stored key, d)])"

fun hash_remove :: "('k, 'd) htab \<Rightarrow> 'k \<Rightarrow> ('k, 'd) htab" where
  "hash_remove [] key = []"
| "hash_remove ((k, d) # tab) key = (if k = key then tab else (k, d) # hash_remove tab key)"

text \<open>The loops that empty a table.\<close>

fun flush_entries :: "('k, 'd) htab \<Rightarrow> ('k, 'd) htab \<Rightarrow> store_error + ('k, 'd) htab" where
  "flush_entries [] tab = Inr tab"
| "flush_entries ((key, d) # entries) tab =
     (if hash_find tab key = None then Inl (Raised ''cache corrupted'')
      else flush_entries entries (hash_remove tab key))"

definition hash_flush :: "('k, 'd) htab \<Rightarrow> store_error + ('k, 'd) htab" where
  "hash_flush tab = flush_entries tab tab"

subsection \<open>The catalog and the caches\<close>

text \<open>A row of \<open>np_vertex_label_<graph>\<close>, or of \<open>np_edge_label_<graph>\<close>, which lacks the three columns on
  adjacency lists.  A label is an \<open>ltree\<close>, represented by its text.\<close>

record label_row =
  lb_id :: "32 word"
  lb_label :: string
  lb_tbl :: oid
  lb_phys_map :: oid
  lb_linked_list_meta :: oid
  lb_linked_list_seq :: oid
  lb_arraylist :: oid
  lb_annotations_tbl :: "oid option"
  lb_annotation_map :: "string option list option"
  lb_is_primary :: bool

text \<open>\<open>label_cache_data\<close> with the columns that the storage layer does not read; \<open>label_string\<close> is not set
  for an edge label.\<close>

record label_entry = label_cache_data +
  le_id :: "32 word"
  le_label :: string
  le_label_string :: "string option"
  le_annotation_byte_size :: nat

text \<open>The tables of the catalog in the order of a sequential scan; a table need not exist.\<close>

record 'd np_tables =
  nt_graphs :: "graph_cache_data list"
  nt_vertex_label :: "32 word \<Rightarrow> label_row list option"
  nt_edge_label :: "32 word \<Rightarrow> label_row list option"
  nt_dictionary :: "32 word \<Rightarrow> 32 word \<Rightarrow> (32 word \<times> 'd) list option"

type_synonym graph_key = "string \<times> oid"
type_synonym label_key = "32 word \<times> 32 word"
type_synonym dict_key = "32 word \<times> 32 word \<times> 32 word"

record 'd caches =
  ca_initialized :: bool
  ca_graph :: "(graph_key, graph_cache_data) htab"
  ca_vertex_label :: "(label_key, label_entry) htab"
  ca_edge_label :: "(label_key, label_entry) htab"
  ca_dictionary :: "(dict_key, 32 word \<times> 'd) htab"

definition initialize_caches :: "'d caches \<Rightarrow> 'd caches" where
  "initialize_caches ca = ca \<lparr> ca_initialized := True \<rparr>"

text \<open>\<open>namestrcpy\<close> keeps 63 bytes.\<close>

definition namestrcpy :: "string \<Rightarrow> string" where
  "namestrcpy s = take 63 s"

subsection \<open>Filling an entry\<close>

definition label_string :: "string \<Rightarrow> string" where
  "label_string raw_str =
     (let start = (if take 2 raw_str = ''_.'' then drop 2 raw_str
                   else if raw_str = ''_'' then '''' else raw_str)
      in map (\<lambda>c. if c = CHR ''.'' then CHR '':'' else c) start)"

definition fill_vertex_label_cache_data :: "label_row \<Rightarrow> label_entry" where
  "fill_vertex_label_cache_data row =
     \<lparr> lc_vertex_tbl = lb_tbl row, lc_phys_map = lb_phys_map row, lc_arraylist = lb_arraylist row,
       lc_linked_list_meta = lb_linked_list_meta row, lc_linked_list_seq = lb_linked_list_seq row,
       lc_annotations_tbl = (case lb_annotations_tbl row of None \<Rightarrow> InvalidOid | Some t \<Rightarrow> t),
       lc_annotation_map = lb_annotation_map row,
       le_id = lb_id row, le_label = lb_label row, le_label_string = Some (label_string (lb_label row)),
       le_annotation_byte_size =
         (case lb_annotation_map row of None \<Rightarrow> 0 | Some m \<Rightarrow> (length m + 7) div 8) \<rparr>"

text \<open>The datum of a null column is zero.\<close>

definition fill_edge_label_cache_data :: "label_row \<Rightarrow> label_entry" where
  "fill_edge_label_cache_data row =
     \<lparr> lc_vertex_tbl = lb_tbl row, lc_phys_map = lb_phys_map row, lc_arraylist = InvalidOid,
       lc_linked_list_meta = InvalidOid, lc_linked_list_seq = InvalidOid,
       lc_annotations_tbl = (case lb_annotations_tbl row of None \<Rightarrow> 0 | Some t \<Rightarrow> t),
       lc_annotation_map = lb_annotation_map row,
       le_id = lb_id row, le_label = lb_label row, le_label_string = None,
       le_annotation_byte_size = 0 \<rparr>"

definition fill_graph_cache_data :: "graph_cache_data \<Rightarrow> graph_cache_data" where
  "fill_graph_cache_data row = row \<lparr> gc_name := namestrcpy (gc_name row) \<rparr>"

subsection \<open>Searching\<close>

text \<open>The routines that are called after a miss have the key as a pointer and give \<open>hash_search\<close> the address of
  that pointer: what is entered is the key that lies there on the stack, \<open>stack_key\<close>.  A scan through
  an index on the id gives the first row with it.\<close>

definition search_label_cache_miss ::
  "('d caches \<Rightarrow> (label_key, label_entry) htab)
    \<Rightarrow> (((label_key, label_entry) htab \<Rightarrow> (label_key, label_entry) htab) \<Rightarrow> 'd caches \<Rightarrow> 'd caches)
    \<Rightarrow> (label_row \<Rightarrow> label_entry) \<Rightarrow> label_row list option \<Rightarrow> label_key \<Rightarrow> label_key \<Rightarrow> 'd caches
    \<Rightarrow> (store_error + label_entry option) \<times> 'd caches" where
  "search_label_cache_miss get upd fill rows stack_key key ca = (case rows of
     None \<Rightarrow> (Inl (Raised ''relation does not exist''), ca)
   | Some rows \<Rightarrow> (case find (\<lambda>row. lb_id row = snd key) rows of
       None \<Rightarrow> (Inr None, ca)
     | Some row \<Rightarrow>
         (Inr (Some (fill row)), upd (\<lambda>tab. hash_enter id tab stack_key (fill row)) ca)))"

definition search_vertex_label_cache_miss ::
  "'d np_tables \<Rightarrow> label_key \<Rightarrow> label_key \<Rightarrow> 'd caches \<Rightarrow> (store_error + label_entry option) \<times> 'd caches" where
  "search_vertex_label_cache_miss nt stack_key key =
     search_label_cache_miss ca_vertex_label ca_vertex_label_update fill_vertex_label_cache_data
       (nt_vertex_label nt (fst key)) stack_key key"

definition search_edge_label_cache_miss ::
  "'d np_tables \<Rightarrow> label_key \<Rightarrow> label_key \<Rightarrow> 'd caches \<Rightarrow> (store_error + label_entry option) \<times> 'd caches" where
  "search_edge_label_cache_miss nt stack_key key =
     search_label_cache_miss ca_edge_label ca_edge_label_update fill_edge_label_cache_data
       (nt_edge_label nt (fst key)) stack_key key"

definition search_vertex_label_graph_id_label_id_cache ::
  "'d np_tables \<Rightarrow> label_key \<Rightarrow> 32 word \<Rightarrow> 32 word \<Rightarrow> 'd caches
    \<Rightarrow> (store_error + label_entry option) \<times> 'd caches" where
  "search_vertex_label_graph_id_label_id_cache nt stack_key graph_id label_id ca =
     (let ca = initialize_caches ca in
      case hash_find (ca_vertex_label ca) (graph_id, label_id) of
        Some entry \<Rightarrow> (Inr (Some entry), ca)
      | None \<Rightarrow> search_vertex_label_cache_miss nt stack_key (graph_id, label_id) ca)"

definition search_edge_label_graph_id_label_id_cache ::
  "'d np_tables \<Rightarrow> label_key \<Rightarrow> 32 word \<Rightarrow> 32 word \<Rightarrow> 'd caches
    \<Rightarrow> (store_error + label_entry option) \<times> 'd caches" where
  "search_edge_label_graph_id_label_id_cache nt stack_key graph_id label_id ca =
     (let ca = initialize_caches ca in
      case hash_find (ca_edge_label ca) (graph_id, label_id) of
        Some entry \<Rightarrow> (Inr (Some entry), ca)
      | None \<Rightarrow> search_edge_label_cache_miss nt stack_key (graph_id, label_id) ca)"

definition search_vertex_dictionary_cache_miss ::
  "'d np_tables \<Rightarrow> dict_key \<Rightarrow> dict_key \<Rightarrow> 'd caches
    \<Rightarrow> (store_error + (32 word \<times> 'd) option) \<times> 'd caches" where
  "search_vertex_dictionary_cache_miss nt stack_key key ca =
     (case nt_dictionary nt (fst key) (fst (snd key)) of
       None \<Rightarrow> (Inl (Raised ''relation does not exist''), ca)
     | Some rows \<Rightarrow> (case find (\<lambda>row. fst row = snd (snd key)) rows of
         None \<Rightarrow> (Inr None, ca)
       | Some row \<Rightarrow>
           (Inr (Some row), ca_dictionary_update (\<lambda>tab. hash_enter id tab stack_key row) ca)))"

definition search_vertex_dictionary_cache ::
  "'d np_tables \<Rightarrow> dict_key \<Rightarrow> 32 word \<Rightarrow> 32 word \<Rightarrow> 32 word \<Rightarrow> 'd caches
    \<Rightarrow> (store_error + (32 word \<times> 'd) option) \<times> 'd caches" where
  "search_vertex_dictionary_cache nt stack_key graph_id label_id dictionary_id ca =
     (let ca = initialize_caches ca in
      case hash_find (ca_dictionary ca) (graph_id, label_id, dictionary_id) of
        Some entry \<Rightarrow> (Inr (Some entry), ca)
      | None \<Rightarrow> search_vertex_dictionary_cache_miss nt stack_key (graph_id, label_id, dictionary_id) ca)"

text \<open>The key of a graph is a name and a namespace, but \<open>keysize\<close> is that of the name: a new entry does not
  have the namespace of its key but \<open>old_namespace\<close>, what the memory of the entry held.\<close>

definition stored_graph_key :: "oid \<Rightarrow> graph_key \<Rightarrow> graph_key" where
  "stored_graph_key old_namespace key = (fst key, old_namespace)"

definition search_graph_name_namespace_cache_miss ::
  "'d np_tables \<Rightarrow> oid \<Rightarrow> graph_key \<Rightarrow> graph_key \<Rightarrow> 'd caches \<Rightarrow> graph_cache_data option \<times> 'd caches" where
  "search_graph_name_namespace_cache_miss nt old_namespace stack_key key ca =
     (case find (\<lambda>row. gc_name row = fst key \<and> gc_namespace row = snd key) (nt_graphs nt) of
        None \<Rightarrow> (None, ca)
      | Some row \<Rightarrow> (Some (fill_graph_cache_data row),
          ca_graph_update (\<lambda>tab. hash_enter (stored_graph_key old_namespace) tab stack_key
            (fill_graph_cache_data row)) ca))"

definition search_graph_name_namespace_cache ::
  "'d np_tables \<Rightarrow> oid \<Rightarrow> graph_key \<Rightarrow> string \<Rightarrow> oid \<Rightarrow> 'd caches \<Rightarrow> graph_cache_data option \<times> 'd caches" where
  "search_graph_name_namespace_cache nt old_namespace stack_key name namespace ca =
     (let ca = initialize_caches ca; key = (namestrcpy name, namespace) in
      case hash_find (ca_graph ca) key of
        Some entry \<Rightarrow> (Some entry, ca)
      | None \<Rightarrow> search_graph_name_namespace_cache_miss nt old_namespace stack_key key ca)"

text \<open>The search by id goes through all entries, and then through the table; here the key is right.\<close>

definition search_graph_id_cache ::
  "'d np_tables \<Rightarrow> oid \<Rightarrow> 32 word \<Rightarrow> 'd caches \<Rightarrow> graph_cache_data option \<times> 'd caches" where
  "search_graph_id_cache nt old_namespace graph_id ca =
     (let ca = initialize_caches ca in
      case find (\<lambda>entry. gc_id (snd entry) = graph_id) (ca_graph ca) of
        Some entry \<Rightarrow> (Some (snd entry), ca)
      | None \<Rightarrow> (case find (\<lambda>row. gc_id row = graph_id) (nt_graphs nt) of
          None \<Rightarrow> (None, ca)
        | Some row \<Rightarrow> (Some (fill_graph_cache_data row),
            ca_graph_update (\<lambda>tab. hash_enter (stored_graph_key old_namespace) tab
              (namestrcpy (gc_name row), gc_namespace row) (fill_graph_cache_data row)) ca)))"

subsection \<open>Invalidation\<close>

definition invalidate_graph_name_namespace_cache_entry :: "string \<Rightarrow> oid \<Rightarrow> 'd caches \<Rightarrow> 'd caches" where
  "invalidate_graph_name_namespace_cache_entry name namespace ca =
     ca_graph_update (\<lambda>tab. hash_remove tab (namestrcpy name, namespace)) (initialize_caches ca)"

definition invalidate_vertex_label_graph_id_label_id_cache_entry ::
  "32 word \<Rightarrow> 32 word \<Rightarrow> 'd caches \<Rightarrow> 'd caches" where
  "invalidate_vertex_label_graph_id_label_id_cache_entry graph_id label_id ca =
     ca_vertex_label_update (\<lambda>tab. hash_remove tab (graph_id, label_id)) (initialize_caches ca)"

definition invalidate_edge_label_graph_id_label_id_cache_entry ::
  "32 word \<Rightarrow> 32 word \<Rightarrow> 'd caches \<Rightarrow> 'd caches" where
  "invalidate_edge_label_graph_id_label_id_cache_entry graph_id label_id ca =
     ca_edge_label_update (\<lambda>tab. hash_remove tab (graph_id, label_id)) (initialize_caches ca)"

text \<open>The flushes do nothing before the tables have been set up.\<close>

definition flush_graph_name_namespace_cache :: "'d caches \<Rightarrow> store_error + 'd caches" where
  "flush_graph_name_namespace_cache ca = (if \<not> ca_initialized ca then Inr ca
     else sum_bind (hash_flush (ca_graph ca)) (\<lambda>tab. Inr (ca \<lparr> ca_graph := tab \<rparr>)))"

definition flush_vertex_label_cache :: "'d caches \<Rightarrow> store_error + 'd caches" where
  "flush_vertex_label_cache ca = (if \<not> ca_initialized ca then Inr ca
     else sum_bind (hash_flush (ca_vertex_label ca)) (\<lambda>tab. Inr (ca \<lparr> ca_vertex_label := tab \<rparr>)))"

definition flush_edge_label_cache :: "'d caches \<Rightarrow> store_error + 'd caches" where
  "flush_edge_label_cache ca = (if \<not> ca_initialized ca then Inr ca
     else sum_bind (hash_flush (ca_edge_label ca)) (\<lambda>tab. Inr (ca \<lparr> ca_edge_label := tab \<rparr>)))"

definition flush_dictionary_cache :: "'d caches \<Rightarrow> store_error + 'd caches" where
  "flush_dictionary_cache ca = (if \<not> ca_initialized ca then Inr ca
     else sum_bind (hash_flush (ca_dictionary ca)) (\<lambda>tab. Inr (ca \<lparr> ca_dictionary := tab \<rparr>)))"

text \<open>Of the label caches, the callback on changes of a namespace empties the one of vertices only.\<close>

definition invalidate_graph_caches :: "'d caches \<Rightarrow> store_error + 'd caches" where
  "invalidate_graph_caches = flush_graph_name_namespace_cache"

definition invalidate_label_caches :: "'d caches \<Rightarrow> store_error + 'd caches" where
  "invalidate_label_caches = flush_vertex_label_cache"

definition invalidate_dictionary_caches :: "'d caches \<Rightarrow> store_error + 'd caches" where
  "invalidate_dictionary_caches = flush_dictionary_cache"

datatype XactEvent = XACT_EVENT_ABORT | XACT_EVENT_PARALLEL_ABORT | XACT_EVENT_COMMIT | XACT_EVENT_OTHER

definition np_cache_xact_callback :: "XactEvent \<Rightarrow> 'd caches \<Rightarrow> store_error + 'd caches" where
  "np_cache_xact_callback event ca =
     (if event = XACT_EVENT_ABORT \<or> event = XACT_EVENT_PARALLEL_ABORT
      then sum_bind (flush_graph_name_namespace_cache ca) (\<lambda>ca.
           sum_bind (flush_vertex_label_cache ca) (\<lambda>ca.
           sum_bind (flush_edge_label_cache ca) flush_dictionary_cache))
      else Inr ca)"


subsection \<open>Emptying a table\<close>

lemma hash_remove_head: "hash_remove ((k, d) # tab) k = tab"
  by simp

lemma flush_all: "flush_entries tab tab = Inr []"
  by (induction tab) (auto simp: hash_find_def)

text \<open>After an abort nothing is cached.\<close>

lemma abort_empties:
  assumes "ca_initialized ca" "event \<in> {XACT_EVENT_ABORT, XACT_EVENT_PARALLEL_ABORT}"
  shows "np_cache_xact_callback event ca =
    Inr (ca \<lparr> ca_graph := [], ca_vertex_label := [], ca_edge_label := [], ca_dictionary := [] \<rparr>)"
  using assms
  by (auto simp: np_cache_xact_callback_def flush_graph_name_namespace_cache_def
      flush_vertex_label_cache_def flush_edge_label_cache_def flush_dictionary_cache_def hash_flush_def
      flush_all)

subsection \<open>Keys\<close>

lemma hash_enter_keys: "fst ` set (hash_enter id tab key d) = insert key (fst ` set tab)"
  by (auto simp: hash_enter_def hash_find_def dom_update domIff image_iff
      simp flip: set_map dest: map_of_SomeD) (auto simp: update_keys split: if_splits)

lemma hash_remove_subset: "set (hash_remove tab key) \<subseteq> set tab"
  by (induction tab key rule: hash_remove.induct) auto

lemma hash_find_none: "key \<notin> fst ` set tab \<Longrightarrow> hash_find tab key = None"
  by (simp add: hash_find_def map_of_eq_None_iff)


text \<open>The keys in the tables of labels are bytes of the stack.\<close>

definition keys_on_stack :: "label_key set \<Rightarrow> 'd caches \<Rightarrow> bool" where
  "keys_on_stack A ca \<longleftrightarrow> fst ` set (ca_vertex_label ca) \<subseteq> A \<and> fst ` set (ca_edge_label ca) \<subseteq> A"

lemma keys_on_stack_initialize [simp]: "keys_on_stack A (initialize_caches ca) = keys_on_stack A ca"
  by (simp add: keys_on_stack_def initialize_caches_def)

lemma keys_on_stack_invalidate:
  assumes "keys_on_stack A ca"
  shows "keys_on_stack A (invalidate_vertex_label_graph_id_label_id_cache_entry g l ca)"
    "keys_on_stack A (invalidate_edge_label_graph_id_label_id_cache_entry g l ca)"
  using assms
  by (auto simp: keys_on_stack_def invalidate_vertex_label_graph_id_label_id_cache_entry_def
      invalidate_edge_label_graph_id_label_id_cache_entry_def initialize_caches_def
      dest!: subsetD[OF hash_remove_subset])

text \<open>What the catalog says of a label.\<close>

definition catalog_label :: "(label_row \<Rightarrow> label_entry) \<Rightarrow> label_row list option \<Rightarrow> 32 word \<Rightarrow> store_error + label_entry option" where
  "catalog_label fill rows label_id = (case rows of
     None \<Rightarrow> Inl (Raised ''relation does not exist'')
   | Some rows \<Rightarrow> Inr (map_option fill (find (\<lambda>row. lb_id row = label_id) rows)))"

lemma search_vertex_label_keys:
  assumes "keys_on_stack A ca" "stack_key \<in> A" "(graph_id, label_id) \<notin> A"
  shows "fst (search_vertex_label_graph_id_label_id_cache nt stack_key graph_id label_id ca) =
      catalog_label fill_vertex_label_cache_data (nt_vertex_label nt graph_id) label_id
    \<and> keys_on_stack A (snd (search_vertex_label_graph_id_label_id_cache nt stack_key graph_id label_id ca))"
proof -
  have "hash_find (ca_vertex_label ca) (graph_id, label_id) = None"
    using assms(1,3) by (intro hash_find_none) (auto simp: keys_on_stack_def)
  then show ?thesis using assms(1,2)
    by (simp add: search_vertex_label_graph_id_label_id_cache_def search_vertex_label_cache_miss_def
        search_label_cache_miss_def catalog_label_def initialize_caches_def keys_on_stack_def
        hash_enter_keys Let_def split: option.split)
qed

lemma search_edge_label_keys:
  assumes "keys_on_stack A ca" "stack_key \<in> A" "(graph_id, label_id) \<notin> A"
  shows "fst (search_edge_label_graph_id_label_id_cache nt stack_key graph_id label_id ca) =
      catalog_label fill_edge_label_cache_data (nt_edge_label nt graph_id) label_id
    \<and> keys_on_stack A (snd (search_edge_label_graph_id_label_id_cache nt stack_key graph_id label_id ca))"
proof -
  have "hash_find (ca_edge_label ca) (graph_id, label_id) = None"
    using assms(1,3) by (intro hash_find_none) (auto simp: keys_on_stack_def)
  then show ?thesis using assms(1,2)
    by (simp add: search_edge_label_graph_id_label_id_cache_def search_edge_label_cache_miss_def
        search_label_cache_miss_def catalog_label_def initialize_caches_def keys_on_stack_def
        hash_enter_keys Let_def split: option.split)
qed

text \<open>C14. Whatever the caches have been asked before, a search for a label
  gives what the catalog says now, as long as its ids are not an address of the stack: labels are entered under
  the address of their key and never found again, so each search is a scan of the catalog.  The
  keys stay addresses.\<close>
theorem label_search_reads_catalog:
  assumes "keys_on_stack A ca" "stack_key \<in> A" "(graph_id, label_id) \<notin> A"
  shows "case search_vertex_label_graph_id_label_id_cache nt stack_key graph_id label_id ca of
      (vertex_label, ca') \<Rightarrow> vertex_label = catalog_label fill_vertex_label_cache_data (nt_vertex_label nt graph_id) label_id
        \<and> keys_on_stack A ca'
        \<and> (case search_edge_label_graph_id_label_id_cache nt stack_key graph_id label_id ca' of
             (edge_label, ca'') \<Rightarrow> edge_label = catalog_label fill_edge_label_cache_data (nt_edge_label nt graph_id) label_id
               \<and> keys_on_stack A ca'')"
  using search_vertex_label_keys[OF assms, of nt] search_edge_label_keys[OF _ assms(2,3), of _ nt]
  by (simp add: split_beta)

definition no_caches :: "'d caches" where
  "no_caches = \<lparr> ca_initialized = False, ca_graph = [], ca_vertex_label = [], ca_edge_label = [],
     ca_dictionary = [] \<rparr>"

definition example_label_row :: label_row where
  "example_label_row = \<lparr> lb_id = 1, lb_label = ''_.person'', lb_tbl = 10, lb_phys_map = 11,
     lb_linked_list_meta = 13, lb_linked_list_seq = 0, lb_arraylist = 12, lb_annotations_tbl = None,
     lb_annotation_map = None, lb_is_primary = True \<rparr>"

definition example_graph_row :: graph_cache_data where
  "example_graph_row = \<lparr> gc_id = 1, gc_name = ''g'', gc_namespace = 2200, gc_vertex_labels = 3,
     gc_vertex_id_seq = 4, gc_edge_labels = 5, gc_edge_id_seq = 6, gc_annot_schema_tbl = 7,
     gc_annot_schema_phys_map = 8 \<rparr>"

definition example_tables :: "unit np_tables" where
  "example_tables = \<lparr> nt_graphs = [example_graph_row],
     nt_vertex_label = (\<lambda>g. if g = 1 then Some [example_label_row] else None),
     nt_edge_label = (\<lambda>g. if g = 1 then Some [] else None), nt_dictionary = (\<lambda>_ _. None) \<rparr>"

lemma label_search_reads_catalog_witness:
  "map_sum id (map_option le_label_string)
     (fst (search_vertex_label_graph_id_label_id_cache example_tables (0x7FFC1000, 0x7F) 1 1 no_caches)) =
   Inr (Some (Some ''person''))"
proof -
  have "keys_on_stack {(0x7FFC1000, 0x7F)} (no_caches :: unit caches)"
    by (simp add: keys_on_stack_def no_caches_def)
  from label_search_reads_catalog[OF this, of "(0x7FFC1000, 0x7F)" 1 1 example_tables]
  show ?thesis
    by (simp add: split_beta catalog_label_def example_tables_def example_label_row_def
        fill_vertex_label_cache_data_def label_string_def)
qed

subsection \<open>A graph that was dropped\<close>

text \<open>C15. A graph that was looked up by name stays in the cache when its entry
  is invalidated: the entry has another key than the one that is removed.  A search by id still finds the graph,
  whatever the catalog says then.\<close>
theorem invalidated_graph_found:
  assumes "find (\<lambda>row. gc_name row = namestrcpy name \<and> gc_namespace row = nsp) (nt_graphs nt) = Some row"
    "ca_graph ca = []" "(fst stack_key, old_namespace) \<noteq> (namestrcpy name, nsp)"
    "search_graph_name_namespace_cache nt old_namespace stack_key name nsp ca = (found, ca')"
  shows "found = Some (fill_graph_cache_data row)
    \<and> fst (search_graph_id_cache nt' old_namespace' (gc_id row)
        (invalidate_graph_name_namespace_cache_entry name nsp ca')) = Some (fill_graph_cache_data row)"
proof -
  have "found = Some (fill_graph_cache_data row)"
    "ca_graph ca' = [((fst stack_key, old_namespace), fill_graph_cache_data row)]"
    using assms(1,2,4)
    by (auto simp: search_graph_name_namespace_cache_def search_graph_name_namespace_cache_miss_def
        Let_def initialize_caches_def hash_enter_def hash_find_def stored_graph_key_def)
  moreover have "\<not> (fst stack_key = namestrcpy name \<and> old_namespace = nsp)" using assms(3) by simp
  ultimately show ?thesis
    by (auto simp: search_graph_id_cache_def invalidate_graph_name_namespace_cache_entry_def
        initialize_caches_def fill_graph_cache_data_def Let_def)
qed

lemma invalidated_graph_found_witness:
  "fst (search_graph_id_cache (example_tables \<lparr> nt_graphs := [] \<rparr>) 0 1
     (invalidate_graph_name_namespace_cache_entry ''g'' 2200
       (snd (search_graph_name_namespace_cache example_tables 0 (''stack'', 0) ''g'' 2200 no_caches)))) =
   Some example_graph_row"
proof -
  obtain found ca' where s: "search_graph_name_namespace_cache example_tables 0 (''stack'', 0) ''g'' 2200
      (no_caches :: unit caches) = (found, ca')"
    by (cases "search_graph_name_namespace_cache example_tables 0 (''stack'', 0) ''g'' 2200
      (no_caches :: unit caches)")
  have row: "find (\<lambda>row. gc_name row = namestrcpy ''g'' \<and> gc_namespace row = 2200) (nt_graphs example_tables) =
      Some example_graph_row"
    by (simp add: example_tables_def example_graph_row_def namestrcpy_def)
  have "fst (search_graph_id_cache (example_tables \<lparr> nt_graphs := [] \<rparr>) 0 (gc_id example_graph_row)
     (invalidate_graph_name_namespace_cache_entry ''g'' 2200 ca')) = Some (fill_graph_cache_data example_graph_row)"
    using invalidated_graph_found[OF row _ _ s] by (simp add: no_caches_def)
  then show ?thesis by (simp add: s fill_graph_cache_data_def example_graph_row_def namestrcpy_def)
qed

end
