(* ===== verification/Np_Annotation.thy ===== *)
theory Np_Annotation
  imports Np_Update Np_Cache
begin

text \<open>
  The annotations of a vertex or an edge (\<open>add_vertex_annotation_label\<close> and its relatives in
  \<open>src/src/backend/catalog/np_label.c\<close>): a bit set in the annotation table of the label, one bit for
  each name in the annotation map of the label.  A change writes a new bit set, redirects the physical
  map and ends the old one.  The loop that reads the names back is that of \<open>set_vertex_label\<close>
  (\<open>src/src/backend/dml/dml_labels.c\<close>).
\<close>

subsection \<open>Bits\<close>

definition clear_annotation_bit :: "nat \<Rightarrow> bytes \<Rightarrow> bytes" where
  "clear_annotation_bit bit_pos bits =
     bits[bit_pos div 8 := bits ! (bit_pos div 8) AND NOT (push_bit (bit_pos mod 8) 1)]"

text \<open>The names whose bits are set; a bit behind the end of the set would be read there, which is an
  error of the model.\<close>

fun extract_annotations :: "string option list \<Rightarrow> nat \<Rightarrow> bytes \<Rightarrow> store_error + string list" where
  "extract_annotations [] i bits = Inr []"
| "extract_annotations (None # map_d) i bits = extract_annotations map_d (Suc i) bits"
| "extract_annotations (Some s # map_d) i bits =
     (if length bits \<le> i div 8 then Inl WildItem
      else sum_bind (extract_annotations map_d (Suc i) bits) (\<lambda>extracted.
        Inr (if bit (bits ! (i div 8)) (i mod 8) then s # extracted else extracted)))"

subsection \<open>The schema\<close>

text \<open>The newest annotation map of a label in the entity store of the graph; a block that does not exist
  is tested for.\<close>

definition latest_schema ::
  "'p page_api \<Rightarrow> (bytes \<Rightarrow> string option list) \<Rightarrow> 'p db \<Rightarrow> oid \<Rightarrow> oid \<Rightarrow> 32 word
    \<Rightarrow> store_error + string option list option" where
  "latest_schema api array_of db schema_pmap schema_tbl label_id =
     (let schema_pmap_tid = np_id_to_tid (scast label_id) (pmap_tuples_per_page SizeOfNeoPhysMapRecord)
      in if RelationGetNumberOfBlocks db schema_pmap \<le> unat (ip_blkid schema_pmap_tid) then Inr None
         else sum_bind (read_item api db schema_pmap schema_pmap_tid) (\<lambda>found.
           sum_bind (case found of None \<Rightarrow> Inr InvalidItemPointer | Some x \<Rightarrow> phys_map_v_itemptr x)
             (\<lambda>latest_schema_tid.
               if \<not> ItemPointerIsValid latest_schema_tid then Inr None
               else sum_bind (read_item api db schema_tbl latest_schema_tid) (\<lambda>found.
                 case found of
                   None \<Rightarrow> Inr None
                 | Some (Entity hdr) \<Rightarrow> Inr (Some (array_of (en_serialized_entity hdr)))
                 | Some _ \<Rightarrow> Inl WrongRecord))))"

definition checked_annotation_map ::
  "'p page_api \<Rightarrow> (bytes \<Rightarrow> string option list) \<Rightarrow> ('g \<Rightarrow> graph_cache_data option) \<Rightarrow> 'p db \<Rightarrow> 'g
    \<Rightarrow> 32 word \<Rightarrow> store_error + string option list option" where
  "checked_annotation_map api array_of search_graph db graph_id label_id =
     (case search_graph graph_id of
        None \<Rightarrow> Inr None
      | Some graph_cache \<Rightarrow>
          if \<not> OidIsValid (gc_annot_schema_phys_map graph_cache)
             \<or> \<not> OidIsValid (gc_annot_schema_tbl graph_cache) then Inr None
          else latest_schema api array_of db (gc_annot_schema_phys_map graph_cache)
            (gc_annot_schema_tbl graph_cache) label_id)"

text \<open>A new version of the map of a label.\<close>

definition insert_annotation_schema ::
  "'p page_api \<Rightarrow> (string option list \<Rightarrow> bytes) \<Rightarrow> full_xid \<Rightarrow> command_id \<Rightarrow> 'p db \<Rightarrow> 32 word
    \<Rightarrow> string option list \<Rightarrow> oid \<Rightarrow> oid \<Rightarrow> store_error + 'p db" where
  "insert_annotation_schema api array_bytes fxid cid db label_id annot_array schema_tbl schema_pmap =
     sum_bind (np_write_record_to_page api db schema_tbl
         (Entity (new_entity fxid cid InvalidItemPointer (scast label_id) (array_bytes annot_array) None)))
       (\<lambda>(schema_tid, db).
         np_place_physmap_record api db schema_pmap
           (np_id_to_tid (scast label_id) (pmap_tuples_per_page SizeOfNeoPhysMapRecord))
           \<lparr> pm_v_itemptr = schema_tid, pm_e_tbl_id = InvalidOid, pm_e_itemptr = InvalidItemPointer,
             pm_a_itemptr = InvalidItemPointer \<rparr>)"

subsection \<open>Changing the annotations of a vertex\<close>

text \<open>The bits of the old bit set, as many as the map has now.\<close>

definition existing_bits ::
  "'p page_api \<Rightarrow> xact_env \<Rightarrow> 'p db \<Rightarrow> oid \<Rightarrow> nat \<Rightarrow> item_pointer \<Rightarrow> store_error + bytes" where
  "existing_bits api env db annot_rel byte_size old_annot_tid =
     (if ItemPointerIsValid old_annot_tid then
        sum_bind (read_item api db annot_rel old_annot_tid) (\<lambda>found.
          case found of
            None \<Rightarrow> Inr (zeros byte_size)
          | Some (Entity old_hdr) \<Rightarrow>
              if \<not> np_entity_tuple_is_live env old_hdr \<or> np_entity_tuple_xmax_other env old_hdr
              then Inl (Raised ''annotation bitset was concurrently updated'')
              else
                let old_bitset = en_serialized_entity old_hdr in
                if VARSIZE old_bitset < 4 then Inl WildWrite
                else
                  let old_len = VARSIZE old_bitset - 4
                  in Inr (poke (zeros byte_size) 0
                       (take (if old_len > byte_size then byte_size else old_len) (drop 4 old_bitset)))
          | Some _ \<Rightarrow> Inl WrongRecord)
      else Inr (zeros byte_size))"

definition write_bitset ::
  "'p page_api \<Rightarrow> full_xid \<Rightarrow> command_id \<Rightarrow> 'p db \<Rightarrow> oid \<Rightarrow> item_pointer \<Rightarrow> 64 word \<Rightarrow> bytes
    \<Rightarrow> store_error + (item_pointer \<times> 'p db)" where
  "write_bitset api fxid cid db annot_rel old_annot_tid i bits =
     np_write_record_to_page api db annot_rel (Entity (new_entity fxid cid old_annot_tid i
       (varlena_header (4 + length bits) @ bits) None))"

definition end_bitset ::
  "'p page_api \<Rightarrow> full_xid \<Rightarrow> command_id \<Rightarrow> 'p db \<Rightarrow> oid \<Rightarrow> item_pointer \<Rightarrow> store_error + 'p db" where
  "end_bitset api fxid cid db annot_rel old_annot_tid =
     (if ItemPointerIsValid old_annot_tid then modify_item api (end_version fxid cid) db annot_rel old_annot_tid
      else Inr db)"

text \<open>The two routines differ in step 7.\<close>

definition change_vertex_annotation ::
  "(nat \<Rightarrow> bytes \<Rightarrow> bytes) \<Rightarrow> 'p page_api \<Rightarrow> catalog \<Rightarrow> (bytes \<Rightarrow> string option list)
    \<Rightarrow> (32 word \<Rightarrow> graph_cache_data option) \<Rightarrow> xact_env \<Rightarrow> full_xid \<Rightarrow> command_id \<Rightarrow> 'p db \<Rightarrow> 64 word
    \<Rightarrow> 32 word \<Rightarrow> 32 word \<Rightarrow> string \<Rightarrow> store_error + 'p db" where
  "change_vertex_annotation change api cat array_of search_graph env fxid cid db vertex_id label_id graph_id annot_str =
     (case cat_vertex_label cat graph_id label_id of
        None \<Rightarrow> Inl (Raised ''Structural label does not support annotations'')
      | Some label_cache \<Rightarrow>
          if \<not> OidIsValid (lc_annotations_tbl label_cache)
          then Inl (Raised ''Structural label does not support annotations'')
          else sum_bind (schema_annotation_map api array_of search_graph db graph_id label_id) (\<lambda>map_array.
            case (case map_array of None \<Rightarrow> lc_annotation_map label_cache | Some m \<Rightarrow> Some m) of
              None \<Rightarrow> Inl (Raised ''No annotation schema defined for this structural label'')
            | Some map_array \<Rightarrow>
                (case annotation_position annot_str map_array of
                   None \<Rightarrow> Inl (Raised ''Annotation label is not valid for this structural label'')
                 | Some bit_pos \<Rightarrow>
                     let byte_size = (length map_array + 7) div 8;
                         phys_map_tid = np_id_to_tid vertex_id (pmap_tuples_per_page SizeOfNeoPhysMapRecord);
                         annot_rel = lc_annotations_tbl label_cache in
                     sum_bind (read_map_entry api db (lc_phys_map label_cache) phys_map_tid) (\<lambda>entry.
                       case entry of
                         PhysMap current_pmap_rec \<Rightarrow>
                           let old_annot_tid = pm_a_itemptr current_pmap_rec in
                           sum_bind (existing_bits api env db annot_rel byte_size old_annot_tid) (\<lambda>bits.
                           sum_bind (write_bitset api fxid cid db annot_rel old_annot_tid vertex_id
                               (change bit_pos bits)) (\<lambda>(new_annot_tid, db).
                           sum_bind (np_overwrite_physmap_in_page api db (lc_phys_map label_cache) phys_map_tid
                               (current_pmap_rec \<lparr> pm_a_itemptr := new_annot_tid \<rparr>)) (\<lambda>db.
                           end_bitset api fxid cid db annot_rel old_annot_tid)))
                       | _ \<Rightarrow> Inl WrongRecord))))"

definition add_vertex_annotation_label where
  "add_vertex_annotation_label = change_vertex_annotation set_annotation_bit"

definition remove_vertex_annotation_label where
  "remove_vertex_annotation_label = change_vertex_annotation clear_annotation_bit"

text \<open>The annotations that \<open>set_vertex_label\<close> takes along to the new vertex: those of the bit set that the map
  leads to, whether it is live or not.\<close>

definition ported_annotations ::
  "'p page_api \<Rightarrow> (bytes \<Rightarrow> string option list) \<Rightarrow> (32 word \<Rightarrow> graph_cache_data option) \<Rightarrow> 'p db \<Rightarrow> 32 word
    \<Rightarrow> 32 word \<Rightarrow> label_cache_data \<Rightarrow> NeoPhysMapRecord \<Rightarrow> store_error + string list option" where
  "ported_annotations api array_of search_graph db graph_id label_id label_cache pmap_rec =
     (if ItemPointerIsValid (pm_a_itemptr pmap_rec) \<and> OidIsValid (lc_annotations_tbl label_cache) then
        sum_bind (read_item api db (lc_annotations_tbl label_cache) (pm_a_itemptr pmap_rec)) (\<lambda>found.
          case found of
            None \<Rightarrow> Inl WildItem
          | Some (Entity old_annot_hdr) \<Rightarrow>
              let old_bitset = en_serialized_entity old_annot_hdr in
              sum_bind (checked_annotation_map api array_of search_graph db graph_id label_id) (\<lambda>map_array.
                case (case map_array of None \<Rightarrow> lc_annotation_map label_cache | Some m \<Rightarrow> Some m) of
                  None \<Rightarrow> Inr None
                | Some old_map_array \<Rightarrow>
                    sum_bind (extract_annotations old_map_array 0 (take (VARSIZE old_bitset - 4) (drop 4 old_bitset)))
                      (\<lambda>extracted. Inr (if extracted = [] then None else Some extracted)))
          | Some _ \<Rightarrow> Inl WrongRecord)
      else Inr None)"

subsection \<open>Changing the annotations of an edge\<close>

definition np_resolve_edge_annotations_tbl :: "label_row list \<Rightarrow> label_cache_data option \<Rightarrow> 32 word \<Rightarrow> oid" where
  "np_resolve_edge_annotations_tbl rows cache label_id =
     (if (case cache of None \<Rightarrow> False | Some c \<Rightarrow> OidIsValid (lc_annotations_tbl c))
      then lc_annotations_tbl (the cache)
      else (case find (\<lambda>row. lb_id row = label_id) rows of
          None \<Rightarrow> InvalidOid
        | Some row \<Rightarrow> (case lb_annotations_tbl row of None \<Rightarrow> InvalidOid | Some t \<Rightarrow> t)))"

definition redirect_edge_annotation :: "item_pointer \<Rightarrow> item \<Rightarrow> item option" where
  "redirect_edge_annotation new_annot_tid x = (case x of
     EdgePhysMap rec \<Rightarrow> Some (EdgePhysMap (rec \<lparr> ep_a_itemptr := new_annot_tid \<rparr>)) | _ \<Rightarrow> None)"

text \<open>The pointer of an edge may never have been set: one that leads behind the end of the table is
  taken for none.\<close>

definition change_edge_annotation ::
  "(nat \<Rightarrow> bytes \<Rightarrow> bytes) \<Rightarrow> 'p page_api \<Rightarrow> catalog \<Rightarrow> label_row list \<Rightarrow> (bytes \<Rightarrow> string option list)
    \<Rightarrow> (32 word \<Rightarrow> graph_cache_data option) \<Rightarrow> xact_env \<Rightarrow> full_xid \<Rightarrow> command_id \<Rightarrow> 'p db \<Rightarrow> 64 word
    \<Rightarrow> 32 word \<Rightarrow> 32 word \<Rightarrow> string \<Rightarrow> store_error + 'p db" where
  "change_edge_annotation change api cat rows array_of search_graph env fxid cid db edge_id label_id graph_id annot_str =
     (let label_cache = cat_edge_label cat graph_id label_id;
          annotations_tbl = np_resolve_edge_annotations_tbl rows label_cache label_id in
      if label_cache = None \<or> \<not> OidIsValid annotations_tbl
      then Inl (Raised ''Structural edge label does not support annotations'')
      else sum_bind (checked_annotation_map api array_of search_graph db graph_id label_id) (\<lambda>map_array.
        case (case map_array of None \<Rightarrow> lc_annotation_map (the label_cache) | Some m \<Rightarrow> Some m) of
          None \<Rightarrow> Inl (Raised ''No annotation schema defined for this structural edge label'')
        | Some map_array \<Rightarrow>
            (case annotation_position annot_str map_array of
               None \<Rightarrow> Inl (Raised ''Annotation label is not valid for this structural edge label'')
             | Some bit_pos \<Rightarrow>
                 let byte_size = (length map_array + 7) div 8; pmap_rel = lc_phys_map (the label_cache);
                     phys_map_tid = np_id_to_tid edge_id (pmap_tuples_per_page SizeOfNeoEdgePhysMapRecord) in
                 sum_bind (read_map_entry api db pmap_rel phys_map_tid) (\<lambda>entry.
                   case entry of
                     EdgePhysMap current_pmap_rec \<Rightarrow>
                       let old_annot_tid = ep_a_itemptr current_pmap_rec;
                           old_annot_tid =
                             (if ItemPointerIsValid old_annot_tid
                                \<and> RelationGetNumberOfBlocks db annotations_tbl \<le> unat (ip_blkid old_annot_tid)
                              then InvalidItemPointer else old_annot_tid) in
                       sum_bind (existing_bits api env db annotations_tbl byte_size old_annot_tid) (\<lambda>bits.
                       sum_bind (write_bitset api fxid cid db annotations_tbl old_annot_tid edge_id
                           (change bit_pos bits)) (\<lambda>(new_annot_tid, db).
                       sum_bind (modify_item api (redirect_edge_annotation new_annot_tid) db pmap_rel phys_map_tid)
                         (\<lambda>db. end_bitset api fxid cid db annotations_tbl old_annot_tid)))
                   | _ \<Rightarrow> Inl WrongRecord))))"

definition add_edge_annotation where
  "add_edge_annotation = change_edge_annotation set_annotation_bit"

definition remove_edge_annotation where
  "remove_edge_annotation = change_edge_annotation clear_annotation_bit"

subsection \<open>Names and bits\<close>

definition annotated :: "string option list \<Rightarrow> bytes \<Rightarrow> string set" where
  "annotated ms bits = {s. \<exists>j. j < length ms \<and> ms ! j = Some s \<and> annotation_bit bits j}"

definition covers :: "string option list \<Rightarrow> bytes \<Rightarrow> bool" where
  "covers ms bits \<longleftrightarrow> (\<forall>j < length ms. ms ! j \<noteq> None \<longrightarrow> j div 8 < length bits)"

lemma extract_annotations_spec:
  "case extract_annotations ms i bits of
     Inl e \<Rightarrow> \<not> (\<forall>j < length ms. ms ! j \<noteq> None \<longrightarrow> (i + j) div 8 < length bits)
   | Inr names \<Rightarrow> (\<forall>j < length ms. ms ! j \<noteq> None \<longrightarrow> (i + j) div 8 < length bits)
       \<and> set names = {s. \<exists>j. j < length ms \<and> ms ! j = Some s \<and> annotation_bit bits (i + j)}"
proof (induction ms i bits rule: extract_annotations.induct)
  case (1 i bits)
  then show ?case by simp
next
  case (2 ms i bits)
  then show ?case by (simp add: All_less_Suc2 Ex_less_Suc2 split: sum.splits)
next
  case (3 s ms i bits)
  show ?case
  proof (cases "length bits \<le> i div 8")
    case True
    then show ?thesis by (simp add: All_less_Suc2)
  next
    case False
    have "{t. (s = t \<and> annotation_bit bits i) \<or> P t} = (if annotation_bit bits i then insert s {t. P t} else {t. P t})"
      for P by auto
    with False 3[OF False] show ?thesis
      by (simp add: All_less_Suc2 Ex_less_Suc2 annotation_bit_def[of bits i] split: sum.splits)
  qed
qed

lemma extract_annotations_iff:
  "(\<exists>names. extract_annotations ms 0 bits = Inr names \<and> set names = annotated ms bits) \<longleftrightarrow> covers ms bits"
  using extract_annotations_spec[of ms 0 bits]
  by (auto simp: annotated_def covers_def split: sum.splits)

lemma extract_annotations_Inr:
  "extract_annotations ms 0 bits = Inr names \<Longrightarrow> covers ms bits \<and> set names = annotated ms bits"
  using extract_annotations_spec[of ms 0 bits] by (auto simp: annotated_def covers_def)

lemma annotation_bit_clear:
  assumes "q div 8 < length bits"
  shows "annotation_bit (clear_annotation_bit q bits) p = (p \<noteq> q \<and> annotation_bit bits p)"
proof (cases "p div 8 = q div 8")
  case True
  then have "p = q \<longleftrightarrow> p mod 8 = q mod 8" by (metis div_mult_mod_eq)
  then show ?thesis using assms True
    by (auto simp: annotation_bit_def clear_annotation_bit_def bit_and_iff bit_not_iff bit_exp_iff
        dest: bit_imp_possible_bit)
next
  case False
  then show ?thesis by (auto simp: annotation_bit_def clear_annotation_bit_def)
qed

lemma length_clear_annotation_bit [simp]: "length (clear_annotation_bit q bits) = length bits"
  by (simp add: clear_annotation_bit_def)

text \<open>No two annotations of a label have the same name.\<close>

definition names_distinct :: "string option list \<Rightarrow> bool" where
  "names_distinct ms \<longleftrightarrow> distinct (filter (\<lambda>m. m \<noteq> None) ms)"

lemma names_distinct_pos:
  assumes "names_distinct ms" "i < length ms" "j < length ms" "ms ! i = Some s" "ms ! j = Some s"
  shows "i = j"
  using assms unfolding names_distinct_def
proof (induction ms arbitrary: i j)
  case (Cons m ms)
  have "Some s \<in> set ms" if "k < length ms" "ms ! k = Some s" for k
    using that by (metis nth_mem)
  then show ?case using Cons by (cases i; cases j) (auto split: if_splits)
qed simp

lemma annotated_set:
  assumes "names_distinct ms" "annotation_position s ms = Some q" "q div 8 < length bits"
  shows "annotated ms (set_annotation_bit q bits) = insert s (annotated ms bits)"
    "annotated ms (clear_annotation_bit q bits) = annotated ms bits - {s}"
  using annotation_position_Some[OF assms(2)] names_distinct_pos[OF assms(1)]
  by (auto simp: annotated_def annotation_bit_set[OF assms(3)] annotation_bit_clear[OF assms(3)])

subsection \<open>Bit sets on disk\<close>

lemma bitset_stored:
  assumes "length bits \<le> 8116"
  shows "take (VARSIZE (packed_entity (varlena_header (4 + length bits) @ bits) None) - 4)
      (drop 4 (packed_entity (varlena_header (4 + length bits) @ bits) None)) = bits"
    "item_fits (Entity (new_entity fxid cid prev i (varlena_header (4 + length bits) @ bits) None))"
proof -
  let ?b = "varlena_header (4 + length bits) @ bits"
  have v: "VARSIZE (varlena_header (4 + length bits) @ xs) = 4 + length bits" for xs
    by (rule VARSIZE_header) (use assms in simp)
  define n where "n = maxalign (40 + (4 + length bits)) - 40"
  have n: "4 + length bits \<le> n" "n \<le> 11 + length bits"
    using maxalign_ge[of "44 + length bits"] by (simp_all add: n_def maxalign_def)
  have e: "packed_entity ?b None = ?b @ zeros (n - (4 + length bits))"
    using n by (simp add: packed_entity_def v Let_def SizeOfNPEntityTupleHeader_def poke_def zeros_def n_def)
  show "take (VARSIZE (packed_entity ?b None) - 4) (drop 4 (packed_entity ?b None)) = bits"
    by (simp add: e v)
  have "length (packed_entity ?b None) = n" using n by (simp add: e zeros_def)
  moreover have "maxalign (40 + n) \<le> 8160"
    using assms by (simp add: n_def maxalign_def)
  ultimately show "item_fits (Entity (new_entity fxid cid prev i ?b None))"
    by (simp add: item_fits_def new_entity_def SizeOfNPEntityTupleHeader_def)
qed

lemma modify_item_other:
  assumes "modify_item api f db rel tid = Inr db'" "rel' \<noteq> rel"
  shows "db' rel' = db rel'"
proof -
  obtain page where page: "ReadBuffer db rel (ip_blkid tid) = Inr page"
    using assms(1) by (cases "ReadBuffer db rel (ip_blkid tid)") (auto simp: modify_item_def)
  obtain x where x: "pg_item api page (unat (ip_posid tid)) = Some x"
    using assms(1) by (cases "pg_item api page (unat (ip_posid tid))") (auto simp: modify_item_def page)
  show ?thesis using assms by (cases "f x") (auto simp: modify_item_def page x put_page_def)
qed

definition bitset_bits :: "NPEntityTupleHeaderData \<Rightarrow> bytes" where
  "bitset_bits hdr = take (VARSIZE (en_serialized_entity hdr) - 4) (drop 4 (en_serialized_entity hdr))"

lemma existing_bits_live:
  assumes "ItemPointerIsValid tid" "fetch_item api db (rel, tid) = Some (Entity old)"
    "np_entity_tuple_is_live env old" "\<not> np_entity_tuple_xmax_other env old"
    "4 \<le> VARSIZE (en_serialized_entity old)"
  shows "existing_bits api env db rel n tid = Inr (poke (zeros n) 0 (take n (bitset_bits old)))"
  using assms by (simp add: existing_bits_def read_item_fetch[OF assms(2)] Let_def bitset_bits_def min_def)

lemma kept_bits:
  "length (poke (zeros n) 0 (take n bs)) = n"
  "p div 8 < n \<Longrightarrow> p div 8 < length bs \<Longrightarrow> annotation_bit (poke (zeros n) 0 (take n bs)) p = annotation_bit bs p"
  by (simp_all add: poke_def zeros_def annotation_bit_def nth_append)

lemma no_bits: "p div 8 < n \<Longrightarrow> \<not> annotation_bit (zeros n) p"
  by (simp add: annotation_bit_def zeros_def)

subsection \<open>The writes of a change\<close>

lemma change_writes:
  assumes "store_ok api db" "has_room db annot" "annot \<noteq> pmap" "length bits \<le> 8116"
    "fetch_item api db (pmap, slot) = Some (PhysMap r)"
    "ItemPointerIsValid (pm_a_itemptr r) \<Longrightarrow> fetch_item api db (annot, pm_a_itemptr r) = Some (Entity old)"
  shows "\<exists>t db1 db2 db'. write_bitset api fxid cid db annot (pm_a_itemptr r) i bits = Inr (t, db1)
    \<and> np_overwrite_physmap_in_page api db1 pmap slot (r \<lparr> pm_a_itemptr := t \<rparr>) = Inr db2
    \<and> end_bitset api fxid cid db2 annot (pm_a_itemptr r) = Inr db'
    \<and> store_ok api db' \<and> ItemPointerIsValid t \<and> fetch_item api db (annot, t) = None
    \<and> fetch_item api db' = (\<lambda>a.
        if a = (annot, t) then Some (Entity (new_entity fxid cid (pm_a_itemptr r) i (varlena_header (4 + length bits) @ bits) None))
        else if a = (pmap, slot) then Some (PhysMap (r \<lparr> pm_a_itemptr := t \<rparr>))
        else if ItemPointerIsValid (pm_a_itemptr r) \<and> a = (annot, pm_a_itemptr r)
        then Some (Entity (old \<lparr> mv_xmax := fxid, mv_cmax := cid \<rparr>)) else fetch_item api db a)
    \<and> (\<forall>rel. rel \<noteq> annot \<longrightarrow> rel \<noteq> pmap \<longrightarrow> db' rel = db rel)"
proof -
  let ?o = "pm_a_itemptr r"
  let ?new = "Entity (new_entity fxid cid ?o i (varlena_header (4 + length bits) @ bits) None)"
  obtain t db1 where w: "np_write_record_to_page api db annot ?new = Inr (t, db1)"
    using np.store_total[OF assms(1) bitset_stored(2)[OF assms(4)] assms(2)] by (metis prod.exhaust)
  note ok1 = np.store_ok[OF assms(1) w] and f1 = np.store_fetch[OF assms(1) w]
    and fresh = np.store_fresh[OF assms(1) w] and valid = np.store_valid[OF assms(1) w]
  have "fetch_item api db1 (pmap, slot) = Some (PhysMap r)" using assms(3,5) by (simp add: f1)
  from overwrite_map_at[OF ok1 this, of "r \<lparr> pm_a_itemptr := t \<rparr>"] obtain db2
    where o: "np_overwrite_physmap_in_page api db1 pmap slot (r \<lparr> pm_a_itemptr := t \<rparr>) = Inr db2"
    "store_ok api db2" and f2: "fetch_item api db2 = (fetch_item api db1)((pmap, slot) \<mapsto> PhysMap (r \<lparr> pm_a_itemptr := t \<rparr>))"
    by blast
  note rest = np_write_other[OF w] modify_item_other[OF o(1)[unfolded np_overwrite_physmap_in_page_def]]
  show ?thesis
  proof (cases "ItemPointerIsValid ?o")
    case False
    have "fetch_item api db2 = (\<lambda>a.
        if a = (annot, t) then Some ?new else if a = (pmap, slot) then Some (PhysMap (r \<lparr> pm_a_itemptr := t \<rparr>))
        else if ItemPointerIsValid ?o \<and> a = (annot, ?o)
        then Some (Entity (old \<lparr> mv_xmax := fxid, mv_cmax := cid \<rparr>)) else fetch_item api db a)"
      using False assms(3) by (auto simp: f1 f2 fun_eq_iff)
    moreover have "end_bitset api fxid cid db2 annot ?o = Inr db2" using False by (simp add: end_bitset_def)
    moreover have "\<forall>rel. rel \<noteq> annot \<longrightarrow> rel \<noteq> pmap \<longrightarrow> db2 rel = db rel" using rest by simp
    ultimately show ?thesis using w o valid fresh unfolding write_bitset_def by blast
  next
    case True
    note old = assms(6)[OF True]
    have ne: "t \<noteq> ?o" using fresh old by auto
    have "fetch_item api db2 (annot, ?o) = Some (Entity old)" using old assms(3) ne by (simp add: f1 f2)
    from end_version_at[OF o(2) this, of fxid cid] obtain db'
      where e: "modify_item api (end_version fxid cid) db2 annot ?o = Inr db'" "store_ok api db'"
      "fetch_item api db' = (fetch_item api db2)((annot, ?o) \<mapsto> Entity (old \<lparr> mv_xmax := fxid, mv_cmax := cid \<rparr>))"
      by blast
    have "fetch_item api db' = (\<lambda>a.
        if a = (annot, t) then Some ?new else if a = (pmap, slot) then Some (PhysMap (r \<lparr> pm_a_itemptr := t \<rparr>))
        else if ItemPointerIsValid ?o \<and> a = (annot, ?o)
        then Some (Entity (old \<lparr> mv_xmax := fxid, mv_cmax := cid \<rparr>)) else fetch_item api db a)"
      using True assms(3) ne by (auto simp: f1 f2 e(3) fun_eq_iff)
    moreover have "end_bitset api fxid cid db2 annot ?o = Inr db'" using True e(1) by (simp add: end_bitset_def)
    moreover have "\<forall>rel. rel \<noteq> annot \<longrightarrow> rel \<noteq> pmap \<longrightarrow> db' rel = db rel"
      using rest modify_item_other[OF e(1)] by simp
    ultimately show ?thesis using w o valid fresh e(2) unfolding write_bitset_def by blast
  qed
qed

text \<open>The map in force is read from other relations.\<close>

lemma checked_of_schema:
  assumes "schema_annotation_map api array_of sg db g l = Inr m"
    "\<And>gc. sg g = Some gc \<Longrightarrow> db' (gc_annot_schema_phys_map gc) = db (gc_annot_schema_phys_map gc)
       \<and> db' (gc_annot_schema_tbl gc) = db (gc_annot_schema_tbl gc)"
  shows "checked_annotation_map api array_of sg db' g l = Inr m"
proof (cases "sg g")
  case None
  then show ?thesis using assms(1) by (simp add: schema_annotation_map_def checked_annotation_map_def)
next
  case (Some gc)
  have same: "read_item api db' (gc_annot_schema_phys_map gc) tid = read_item api db (gc_annot_schema_phys_map gc) tid"
    "read_item api db' (gc_annot_schema_tbl gc) tid = read_item api db (gc_annot_schema_tbl gc) tid" for tid
    using assms(2)[OF Some] by (simp_all add: read_item_def ReadBuffer_def)
  have "\<not> RelationGetNumberOfBlocks db' (gc_annot_schema_phys_map gc) \<le> unat (ip_blkid tid)"
    if "read_item api db (gc_annot_schema_phys_map gc) tid = Inr x" for tid x
    using that assms(2)[OF Some]
    by (simp add: read_item_def ReadBuffer_def RelationGetNumberOfBlocks_def split: if_splits)
  then show ?thesis using assms(1) Some
    by (auto simp: schema_annotation_map_def checked_annotation_map_def latest_schema_def Let_def same
        split: if_splits)
qed

subsection \<open>A changed annotation\<close>

definition map_in_force ::
  "'p page_api \<Rightarrow> (bytes \<Rightarrow> string option list) \<Rightarrow> (32 word \<Rightarrow> graph_cache_data option) \<Rightarrow> 'p db
    \<Rightarrow> label_cache_data \<Rightarrow> 32 word \<Rightarrow> 32 word \<Rightarrow> string option list \<Rightarrow> bool" where
  "map_in_force api array_of sg db lab g l ms \<longleftrightarrow>
     (\<exists>m. schema_annotation_map api array_of sg db g l = Inr m
        \<and> (case m of None \<Rightarrow> lc_annotation_map lab | Some m \<Rightarrow> Some m) = Some ms)
     \<and> (\<forall>gc. sg g = Some gc \<longrightarrow> {gc_annot_schema_phys_map gc, gc_annot_schema_tbl gc}
           \<inter> {lc_annotations_tbl lab, lc_phys_map lab} = {})"

text \<open>A vertex with its bit set, if it has one.\<close>

definition vertex_annotated ::
  "'p page_api \<Rightarrow> xact_env \<Rightarrow> 'p db \<Rightarrow> label_cache_data \<Rightarrow> 64 word \<Rightarrow> NeoPhysMapRecord
    \<Rightarrow> NPEntityTupleHeaderData option \<Rightarrow> bool" where
  "vertex_annotated api env db lab i r old \<longleftrightarrow>
     OidIsValid (lc_annotations_tbl lab) \<and> lc_annotations_tbl lab \<noteq> lc_phys_map lab
     \<and> fetch_item api db (lc_phys_map lab, vertex_slot i) = Some (PhysMap r)
     \<and> (case old of
          None \<Rightarrow> \<not> ItemPointerIsValid (pm_a_itemptr r)
        | Some old \<Rightarrow> ItemPointerIsValid (pm_a_itemptr r)
            \<and> fetch_item api db (lc_annotations_tbl lab, pm_a_itemptr r) = Some (Entity old)
            \<and> np_entity_tuple_is_live env old \<and> \<not> np_entity_tuple_xmax_other env old
            \<and> 4 \<le> VARSIZE (en_serialized_entity old))"

definition names_of :: "string list option \<Rightarrow> string set" where
  "names_of extracted = (case extracted of None \<Rightarrow> {} | Some names \<Rightarrow> set names)"

text \<open>What is ported, on a store that has the same schema.\<close>

lemma ported_annotations_at:
  assumes "map_in_force api array_of sg db lab g l ms" "OidIsValid (lc_annotations_tbl lab)"
    "\<And>rel. rel \<noteq> lc_annotations_tbl lab \<Longrightarrow> rel \<noteq> lc_phys_map lab \<Longrightarrow> db' rel = db rel"
    "ItemPointerIsValid (pm_a_itemptr r)"
    "fetch_item api db' (lc_annotations_tbl lab, pm_a_itemptr r) = Some (Entity hdr)"
  shows "ported_annotations api array_of sg db' g l lab r =
    sum_bind (extract_annotations ms 0 (bitset_bits hdr))
      (\<lambda>extracted. Inr (if extracted = [] then None else Some extracted))"
proof -
  obtain m where m: "schema_annotation_map api array_of sg db g l = Inr m"
    "(case m of None \<Rightarrow> lc_annotation_map lab | Some m \<Rightarrow> Some m) = Some ms"
    and apart: "\<forall>gc. sg g = Some gc \<longrightarrow> {gc_annot_schema_phys_map gc, gc_annot_schema_tbl gc}
           \<inter> {lc_annotations_tbl lab, lc_phys_map lab} = {}"
    using assms(1) by (auto simp: map_in_force_def)
  have "checked_annotation_map api array_of sg db' g l = Inr m"
    by (rule checked_of_schema[OF m(1)]) (use apart assms(3) in auto)
  then show ?thesis
    using assms(2,4) m(2) by (simp add: ported_annotations_def read_item_fetch[OF assms(5)] Let_def bitset_bits_def)
qed

lemma extracted_names:
  assumes "covers ms bits"
  shows "\<exists>ported. sum_bind (extract_annotations ms 0 bits)
      (\<lambda>extracted. Inr (if extracted = [] then None else Some extracted)) = (Inr ported :: store_error + string list option)
    \<and> names_of ported = annotated ms bits"
proof -
  obtain names where "extract_annotations ms 0 bits = Inr names" "set names = annotated ms bits"
    using extract_annotations_iff[of ms bits] assms by blast
  then show ?thesis by (auto simp: names_of_def)
qed

text \<open>The bits a change starts from stand for the annotations the vertex has.\<close>

lemma start_bits:
  assumes "map_in_force api array_of sg db lab g l ms" "vertex_annotated api env db lab i r old"
    "ported_annotations api array_of sg db g l lab r = Inr ported"
  shows "\<exists>bits. existing_bits api env db (lc_annotations_tbl lab) ((length ms + 7) div 8) (pm_a_itemptr r) = Inr bits
    \<and> length bits = (length ms + 7) div 8 \<and> annotated ms bits = names_of ported"
proof (cases old)
  case None
  then have "\<not> ItemPointerIsValid (pm_a_itemptr r)" using assms(2) by (simp add: vertex_annotated_def)
  moreover have "annotated ms (zeros ((length ms + 7) div 8)) = {}"
    using no_bits by (auto simp: annotated_def)
  ultimately show ?thesis using assms(3)
    by (auto simp: existing_bits_def ported_annotations_def names_of_def zeros_def)
next
  case (Some hdr)
  then have valid: "ItemPointerIsValid (pm_a_itemptr r)" "OidIsValid (lc_annotations_tbl lab)"
    and old: "fetch_item api db (lc_annotations_tbl lab, pm_a_itemptr r) = Some (Entity hdr)"
    and live: "np_entity_tuple_is_live env hdr" "\<not> np_entity_tuple_xmax_other env hdr"
      "4 \<le> VARSIZE (en_serialized_entity hdr)"
    using assms(2) by (simp_all add: vertex_annotated_def)
  let ?n = "(length ms + 7) div 8" and ?old = "bitset_bits hdr"
  obtain names where names: "extract_annotations ms 0 ?old = Inr names" "names_of ported = set names"
    using assms(3) ported_annotations_at[OF assms(1) valid(2) _ valid(1) old]
    by (auto simp: names_of_def split: if_splits)
  note cov = extract_annotations_Inr[OF names(1)]
  have "annotation_bit (poke (zeros ?n) 0 (take ?n ?old)) j = annotation_bit ?old j"
    if "j < length ms" "ms ! j \<noteq> None" for j
    using kept_bits(2)[of j ?n ?old] that cov by (simp add: covers_def)
  then have "annotated ms (poke (zeros ?n) 0 (take ?n ?old)) = annotated ms ?old"
    by (auto simp: annotated_def)
  then show ?thesis
    using existing_bits_live[OF valid(1) old live, of ?n] kept_bits(1)[of ?n ?old] names(2) cov by simp
qed

lemma change_vertex_annotation_runs:
  assumes "store_ok api db" "cat_vertex_label cat g l = Some lab" "has_room db (lc_annotations_tbl lab)"
    "length ms \<le> 64928" "map_in_force api array_of sg db lab g l ms" "vertex_annotated api env db lab i r old"
    "ported_annotations api array_of sg db g l lab r = Inr ported"
    "annotation_position s ms = Some q" "\<And>bits. length (change q bits) = length bits"
  shows "\<exists>db' t bits. change_vertex_annotation change api cat array_of sg env fxid cid db i l g s = Inr db'
    \<and> store_ok api db' \<and> fetch_item api db (lc_annotations_tbl lab, t) = None
    \<and> (\<forall>a. a \<noteq> (lc_annotations_tbl lab, t) \<longrightarrow> a \<noteq> (lc_phys_map lab, vertex_slot i)
          \<longrightarrow> a \<noteq> (lc_annotations_tbl lab, pm_a_itemptr r) \<longrightarrow> fetch_item api db' a = fetch_item api db a)
    \<and> (\<forall>hdr. old = Some hdr \<longrightarrow> fetch_item api db' (lc_annotations_tbl lab, pm_a_itemptr r) =
          Some (Entity (hdr \<lparr> mv_xmax := fxid, mv_cmax := cid \<rparr>)))
    \<and> fetch_item api db' (lc_phys_map lab, vertex_slot i) = Some (PhysMap (r \<lparr> pm_a_itemptr := t \<rparr>))
    \<and> length bits = (length ms + 7) div 8 \<and> annotated ms bits = names_of ported
    \<and> (covers ms (change q bits) \<longrightarrow> (\<exists>ported'. ported_annotations api array_of sg db' g l lab (r \<lparr> pm_a_itemptr := t \<rparr>) = Inr ported'
          \<and> names_of ported' = annotated ms (change q bits)))"
proof -
  let ?annot = "lc_annotations_tbl lab" and ?pmap = "lc_phys_map lab"
  obtain bits where bits: "existing_bits api env db ?annot ((length ms + 7) div 8) (pm_a_itemptr r) = Inr bits"
    "length bits = (length ms + 7) div 8" "annotated ms bits = names_of ported"
    using start_bits[OF assms(5,6,7)] by blast
  have len: "length (change q bits) \<le> 8116" using assms(4,9) bits(2) by simp
  have apart: "?annot \<noteq> ?pmap" and valid: "OidIsValid ?annot"
    and slot: "fetch_item api db (?pmap, vertex_slot i) = Some (PhysMap r)"
    using assms(6) by (simp_all add: vertex_annotated_def)
  define hdr where "hdr = the old"
  have old: "fetch_item api db (?annot, pm_a_itemptr r) = Some (Entity hdr)" if "ItemPointerIsValid (pm_a_itemptr r)"
    using assms(6) that by (cases old) (auto simp: vertex_annotated_def hdr_def)
  obtain t db1 db2 db' where w: "write_bitset api fxid cid db ?annot (pm_a_itemptr r) i (change q bits) = Inr (t, db1)"
    "np_overwrite_physmap_in_page api db1 ?pmap (vertex_slot i) (r \<lparr> pm_a_itemptr := t \<rparr>) = Inr db2"
    "end_bitset api fxid cid db2 ?annot (pm_a_itemptr r) = Inr db'"
    and ok: "store_ok api db'" and t: "ItemPointerIsValid t" "fetch_item api db (?annot, t) = None"
    and f: "fetch_item api db' = (\<lambda>a.
        if a = (?annot, t) then Some (Entity (new_entity fxid cid (pm_a_itemptr r) i (varlena_header (4 + length (change q bits)) @ change q bits) None))
        else if a = (?pmap, vertex_slot i) then Some (PhysMap (r \<lparr> pm_a_itemptr := t \<rparr>))
        else if ItemPointerIsValid (pm_a_itemptr r) \<and> a = (?annot, pm_a_itemptr r)
        then Some (Entity (hdr \<lparr> mv_xmax := fxid, mv_cmax := cid \<rparr>)) else fetch_item api db a)"
    and rest: "\<forall>rel. rel \<noteq> ?annot \<longrightarrow> rel \<noteq> ?pmap \<longrightarrow> db' rel = db rel"
    using change_writes[OF assms(1,3) apart len slot old, of fxid cid i] by blast
  obtain m where m: "schema_annotation_map api array_of sg db g l = Inr m"
    "(case m of None \<Rightarrow> lc_annotation_map lab | Some m \<Rightarrow> Some m) = Some ms"
    using assms(5) by (auto simp: map_in_force_def)
  have run: "change_vertex_annotation change api cat array_of sg env fxid cid db i l g s = Inr db'"
    using assms(2,8) valid m bits(1) w
    by (simp add: change_vertex_annotation_def read_map_entry_fetch[OF slot] flip: vertex_slot_def)
  have ser: "bitset_bits (new_entity fxid cid (pm_a_itemptr r) i (varlena_header (4 + length (change q bits)) @ change q bits) None) = change q bits"
    using bitset_stored(1)[OF len] by (simp add: bitset_bits_def new_entity_def)
  have ported: "ported_annotations api array_of sg db' g l lab (r \<lparr> pm_a_itemptr := t \<rparr>) =
      sum_bind (extract_annotations ms 0 (change q bits)) (\<lambda>extracted. Inr (if extracted = [] then None else Some extracted))"
    using ported_annotations_at[OF assms(5) valid _ _ _, of db' "r \<lparr> pm_a_itemptr := t \<rparr>"] rest t(1) f ser by simp
  have "t \<noteq> pm_a_itemptr r" if "old \<noteq> None"
    using t(2) assms(6) that by (auto simp: vertex_annotated_def)
  then have ended: "old = Some x \<longrightarrow> fetch_item api db' (?annot, pm_a_itemptr r) = Some (Entity (x \<lparr> mv_xmax := fxid, mv_cmax := cid \<rparr>))" for x
    using assms(6) apart by (auto simp: f hdr_def vertex_annotated_def)
  have "fetch_item api db' (?pmap, vertex_slot i) = Some (PhysMap (r \<lparr> pm_a_itemptr := t \<rparr>))"
    using apart by (simp add: f)
  moreover have "\<forall>a. a \<noteq> (?annot, t) \<longrightarrow> a \<noteq> (?pmap, vertex_slot i) \<longrightarrow> a \<noteq> (?annot, pm_a_itemptr r)
      \<longrightarrow> fetch_item api db' a = fetch_item api db a" by (simp add: f)
  moreover have "covers ms (change q bits) \<longrightarrow> (\<exists>ported'. ported_annotations api array_of sg db' g l lab (r \<lparr> pm_a_itemptr := t \<rparr>) = Inr ported'
          \<and> names_of ported' = annotated ms (change q bits))"
    using extracted_names[of ms "change q bits"] by (simp add: ported)
  ultimately show ?thesis using run ok t(2) bits(2,3) ended by blast
qed

text \<open>The vertex has exactly the annotations \<open>names\<close>: its entry leads to a new bit set, the old one is ended,
  and nothing else has changed.\<close>

definition annotations_become ::
  "'p page_api \<Rightarrow> (bytes \<Rightarrow> string option list) \<Rightarrow> (32 word \<Rightarrow> graph_cache_data option) \<Rightarrow> full_xid
    \<Rightarrow> command_id \<Rightarrow> 'p db \<Rightarrow> 32 word \<Rightarrow> 32 word \<Rightarrow> label_cache_data \<Rightarrow> 64 word \<Rightarrow> NeoPhysMapRecord
    \<Rightarrow> NPEntityTupleHeaderData option \<Rightarrow> string set \<Rightarrow> 'p db \<Rightarrow> bool" where
  "annotations_become api array_of sg fxid cid db g l lab i r old names db' \<longleftrightarrow>
     (\<exists>t ported. ported_annotations api array_of sg db' g l lab (r \<lparr> pm_a_itemptr := t \<rparr>) = Inr ported
        \<and> names_of ported = names
        \<and> fetch_item api db' (lc_phys_map lab, vertex_slot i) = Some (PhysMap (r \<lparr> pm_a_itemptr := t \<rparr>))
        \<and> (\<forall>hdr. old = Some hdr \<longrightarrow> fetch_item api db' (lc_annotations_tbl lab, pm_a_itemptr r) =
              Some (Entity (hdr \<lparr> mv_xmax := fxid, mv_cmax := cid \<rparr>)))
        \<and> fetch_item api db (lc_annotations_tbl lab, t) = None
        \<and> (\<forall>a. a \<noteq> (lc_annotations_tbl lab, t) \<longrightarrow> a \<noteq> (lc_phys_map lab, vertex_slot i)
              \<longrightarrow> a \<noteq> (lc_annotations_tbl lab, pm_a_itemptr r) \<longrightarrow> fetch_item api db' a = fetch_item api db a))
     \<and> store_ok api db'"

lemma annotation_change:
  assumes "store_ok api db" "cat_vertex_label cat g l = Some lab" "has_room db (lc_annotations_tbl lab)"
    "length ms \<le> 64928" "map_in_force api array_of sg db lab g l ms" "vertex_annotated api env db lab i r old"
    "ported_annotations api array_of sg db g l lab r = Inr ported" "annotation_position s ms = Some q"
    "\<And>bits. length (change q bits) = length bits"
    "\<And>bits. q div 8 < length bits \<Longrightarrow> annotated ms (change q bits) = names (annotated ms bits)"
  shows "\<exists>db'. change_vertex_annotation change api cat array_of sg env fxid cid db i l g s = Inr db'
    \<and> annotations_become api array_of sg fxid cid db g l lab i r old (names (names_of ported)) db'"
proof -
  obtain db' t bits where run: "change_vertex_annotation change api cat array_of sg env fxid cid db i l g s = Inr db'"
    and bits: "length bits = (length ms + 7) div 8" "annotated ms bits = names_of ported"
    and rest: "store_ok api db'" "fetch_item api db (lc_annotations_tbl lab, t) = None"
      "\<forall>a. a \<noteq> (lc_annotations_tbl lab, t) \<longrightarrow> a \<noteq> (lc_phys_map lab, vertex_slot i)
          \<longrightarrow> a \<noteq> (lc_annotations_tbl lab, pm_a_itemptr r) \<longrightarrow> fetch_item api db' a = fetch_item api db a"
      "\<forall>hdr. old = Some hdr \<longrightarrow> fetch_item api db' (lc_annotations_tbl lab, pm_a_itemptr r) =
          Some (Entity (hdr \<lparr> mv_xmax := fxid, mv_cmax := cid \<rparr>))"
      "fetch_item api db' (lc_phys_map lab, vertex_slot i) = Some (PhysMap (r \<lparr> pm_a_itemptr := t \<rparr>))"
    and ported: "covers ms (change q bits) \<longrightarrow> (\<exists>ported'. ported_annotations api array_of sg db' g l lab (r \<lparr> pm_a_itemptr := t \<rparr>) = Inr ported'
          \<and> names_of ported' = annotated ms (change q bits))"
    using change_vertex_annotation_runs[where change = change, OF assms(1-9), of fxid cid] by blast
  have bytes: "j div 8 < (length ms + 7) div 8" if "j < length ms" for j using that by linarith
  then have "covers ms (change q bits)" using bits(1) assms(9) by (simp add: covers_def)
  moreover have "annotated ms (change q bits) = names (names_of ported)"
    using assms(10)[of bits] bytes annotation_position_Some[OF assms(8)] bits by simp
  ultimately show ?thesis using run rest ported unfolding annotations_become_def by blast
qed


text \<open>A vertex with one of two annotations.\<close>

definition example_map_names :: "string option list" where
  "example_map_names = [Some ''admin'', None, Some ''staff'']"

definition example_annotated_label :: label_cache_data where
  "example_annotated_label = example_vertex_label \<lparr> lc_annotations_tbl := 20,
     lc_annotation_map := Some example_map_names \<rparr>"

definition example_bits :: NPEntityTupleHeaderData where
  "example_bits = new_entity 900 0 InvalidItemPointer 1 (varlena_header 5 @ [1]) None"

definition example_annotated :: "list_page db" where
  "example_annotated = (\<lambda>_. [])(20 := [Some [Entity example_bits]],
     11 := [Some [PhysMap (empty_pad \<lparr> pm_a_itemptr := \<lparr> ip_blkid = 0, ip_posid = 1 \<rparr> \<rparr>)]])"

lemma example_bits_eq:
  "example_bits = new_entity 900 0 InvalidItemPointer 1 (varlena_header (4 + length [1 :: byte]) @ [1]) None"
  by (simp add: example_bits_def)

lemma example_bits_stored:
  "bitset_bits example_bits = [1]" "item_fits (Entity example_bits)"
  "4 \<le> VARSIZE (en_serialized_entity example_bits)"
proof -
  show "bitset_bits example_bits = [1]"
    unfolding example_bits_eq bitset_bits_def new_entity_def using bitset_stored(1)[of "[1]"] by simp
  then show "4 \<le> VARSIZE (en_serialized_entity example_bits)"
    by (metis bitset_bits_def diff_is_0_eq linorder_le_cases list.distinct(1) take_eq_Nil)
  show "item_fits (Entity example_bits)"
    unfolding example_bits_eq by (rule bitset_stored(2)) simp
qed

lemma example_annotated_ok: "store_ok list_page_api example_annotated"
proof -
  have "db_ok list_page_api example_annotated"
    using example_bits_stored(2)
    by (auto simp: db_ok_def page_ok_def dense_def example_annotated_def list_page_api_def used_space_def
        item_fits_def maxalign_def SizeOfNeoPhysMapRecord_def SizeOfNPEntityTupleHeader_def split: if_splits)
  then show ?thesis by (simp add: store_ok_def)
qed


end
