(* ===== verification/Np_Label_Annot.thy ===== *)
theory Np_Label_Annot
  imports Np_Annotation
begin

text \<open>
  The annotations that a label offers (\<open>add_annotation_label\<close> and \<open>drop_annotation_label\<close> in
  \<open>src/src/backend/catalog/np_label.c\<close>): a change of a structural label reaches all labels below it,
  each of which has its own map of annotations in the entity store of the graph and in its row of the
  catalog.  The \<open>ltree\<close> extension is a parameter: \<open>isparent\<close> is its operator \<open>@>\<close> on paths in their
  text form, and two paths compare equal when their texts are equal.
\<close>

subsection \<open>Paths\<close>

text \<open>\<open>strtok\<close> with the separator \<open>.\<close>: runs of characters between dots, empty ones skipped.\<close>

fun strtok_from :: "string \<Rightarrow> string \<Rightarrow> string list" where
  "strtok_from token [] = (if token = [] then [] else [rev token])"
| "strtok_from token (c # cs) =
     (if c = CHR ''.'' then (if token = [] then strtok_from [] cs else rev token # strtok_from [] cs)
      else strtok_from (c # token) cs)"

definition strtok_dots :: "string \<Rightarrow> string list" where
  "strtok_dots path = strtok_from [] path"

text \<open>The text of a path without its root.\<close>

definition strip_root :: "string \<Rightarrow> string" where
  "strip_root path = (if take 2 path = ''_.'' then drop 2 path else if path = ''_'' then [] else path)"

definition np_find_struct_ltree :: "label_row list \<Rightarrow> string \<Rightarrow> string option" where
  "np_find_struct_ltree rows struct_label_str =
     map_option lb_label (find (\<lambda>row. strip_root (lb_label row) = struct_label_str) rows)"

definition np_collect_ltree_descendants ::
  "(string \<Rightarrow> string \<Rightarrow> bool) \<Rightarrow> label_row list \<Rightarrow> string \<Rightarrow> label_row list" where
  "np_collect_ltree_descendants isparent rows target_ltree =
     filter (\<lambda>row. isparent target_ltree (lb_label row)) rows"

subsection \<open>The catalog of label names\<close>

text \<open>The rows of \<open>np_label_catalog_<graph>\<close>: a name, and \<open>s\<close> for structural or \<open>a\<close> for annotation.\<close>

type_synonym label_catalog = "(string \<times> char) list"

definition enforce_and_insert_label_catalog ::
  "label_catalog \<Rightarrow> string \<Rightarrow> char \<Rightarrow> store_error + label_catalog" where
  "enforce_and_insert_label_catalog cat_rel label_name expected_type =
     (case find (\<lambda>row. fst row = label_name) cat_rel of
        Some row \<Rightarrow>
          if snd row \<noteq> expected_type then Inl (Raised ''Label is already registered with another type'')
          else Inr cat_rel
      | None \<Rightarrow> Inr (cat_rel @ [(label_name, expected_type)]))"

definition remove_from_label_catalog :: "label_catalog \<Rightarrow> string \<Rightarrow> char \<Rightarrow> label_catalog" where
  "remove_from_label_catalog cat_rel label_str label_type =
     filter (\<lambda>row. \<not> (fst row = label_str \<and> snd row = label_type)) cat_rel"

subsection \<open>One label\<close>

text \<open>What the routines need of their surroundings: the pages, the text arrays of PostgreSQL, the id of the
  transaction and of the command, and the table that the statement which creates the annotation table of
  a label makes.\<close>

record 'p schema_env =
  se_api :: "'p page_api"
  se_array_of :: "bytes \<Rightarrow> string option list"
  se_array_bytes :: "string option list \<Rightarrow> bytes"
  se_fxid :: full_xid
  se_cid :: command_id
  se_new_tbl :: "32 word \<Rightarrow> oid"

definition current_map ::
  "'p schema_env \<Rightarrow> graph_cache_data \<Rightarrow> 'p db \<Rightarrow> label_row \<Rightarrow> store_error + string option list option" where
  "current_map se graph_entry db row =
     sum_bind (latest_schema (se_api se) (se_array_of se) db (gc_annot_schema_phys_map graph_entry)
         (gc_annot_schema_tbl graph_entry) (lb_id row)) (\<lambda>old_array.
       Inr (case old_array of None \<Rightarrow> lb_annotation_map row | Some m \<Rightarrow> Some m))"

text \<open>No row when the label has the annotation already.  The new array is made of the elements without
  their null flags; for a null element it would follow a null pointer.\<close>

definition np_apply_add_annotation_to_tuple ::
  "'p schema_env \<Rightarrow> graph_cache_data \<Rightarrow> 'p db \<Rightarrow> label_row \<Rightarrow> string
    \<Rightarrow> store_error + (label_row option \<times> 'p db)" where
  "np_apply_add_annotation_to_tuple se graph_entry db row new_annot_str =
     sum_bind (current_map se graph_entry db row) (\<lambda>old_array.
       let d_old = (case old_array of None \<Rightarrow> [] | Some m \<Rightarrow> m) in
       if Some new_annot_str \<in> set d_old then Inr (None, db)
       else if None \<in> set d_old then Inl WildItem
       else
         let new_array = d_old @ [Some new_annot_str] in
         sum_bind (insert_annotation_schema (se_api se) (se_array_bytes se) (se_fxid se) (se_cid se) db (lb_id row)
             new_array (gc_annot_schema_tbl graph_entry) (gc_annot_schema_phys_map graph_entry)) (\<lambda>db.
           Inr (Some (row \<lparr> lb_annotation_map := Some new_array,
               lb_annotations_tbl :=
                 (case lb_annotations_tbl row of
                    None \<Rightarrow> Some (se_new_tbl se (lb_id row))
                  | Some t \<Rightarrow> if OidIsValid t then Some t else Some (se_new_tbl se (lb_id row))) \<rparr>), db)))"

text \<open>The other labels on the path of a row, which are looked up as labels right below the root.\<close>

definition owns_annotation :: "label_row list \<Rightarrow> string \<Rightarrow> string \<Rightarrow> bool" where
  "owns_annotation rows annot_str token =
     (case find (\<lambda>row. lb_label row = ''_.'' @ token) rows of
        None \<Rightarrow> False
      | Some row \<Rightarrow> (case lb_annotation_map row of None \<Rightarrow> False | Some m \<Rightarrow> Some annot_str \<in> set m))"

definition np_other_parent_owns_annotation :: "label_row list \<Rightarrow> string \<Rightarrow> string \<Rightarrow> string \<Rightarrow> bool" where
  "np_other_parent_owns_annotation rows row_ltree struct_label_str annot_str =
     (let path = strip_root row_ltree
      in CHR ''.'' \<in> set path
       \<and> list_ex (owns_annotation rows annot_str) (filter (\<lambda>token. token \<noteq> struct_label_str) (strtok_dots path)))"

text \<open>The elements that are left: null elements go as well.\<close>

definition without_annotation :: "string \<Rightarrow> string option list \<Rightarrow> string option list" where
  "without_annotation drop_annot_str d_old = filter (\<lambda>m. m \<noteq> None \<and> m \<noteq> Some drop_annot_str) d_old"

definition np_apply_drop_annotation_to_tuple ::
  "'p schema_env \<Rightarrow> graph_cache_data \<Rightarrow> label_row list \<Rightarrow> string \<Rightarrow> string \<Rightarrow> 'p db \<Rightarrow> label_row \<Rightarrow> string
    \<Rightarrow> store_error + (label_row option \<times> 'p db)" where
  "np_apply_drop_annotation_to_tuple se graph_entry rows target_ltree struct_label_str db row drop_annot_str =
     (if target_ltree \<noteq> lb_label row
         \<and> np_other_parent_owns_annotation rows (lb_label row) struct_label_str drop_annot_str
      then Inr (None, db)
      else sum_bind (current_map se graph_entry db row) (\<lambda>old_array.
        case old_array of
          None \<Rightarrow> Inr (None, db)
        | Some d_old \<Rightarrow>
            if Some drop_annot_str \<notin> set d_old then Inr (None, db)
            else
              let new_array = without_annotation drop_annot_str d_old in
              sum_bind (insert_annotation_schema (se_api se) (se_array_bytes se) (se_fxid se) (se_cid se) db
                  (lb_id row) new_array (gc_annot_schema_tbl graph_entry) (gc_annot_schema_phys_map graph_entry))
                (\<lambda>db. Inr (Some (row \<lparr> lb_annotation_map := Some new_array \<rparr>), db))))"

subsection \<open>The labels below\<close>

text \<open>\<open>np_catalog_update\<close> of a row, which the id of the label tells from the others.  The scans of a command
  see the rows as they were before it.\<close>

definition update_row :: "label_row list \<Rightarrow> label_row \<Rightarrow> label_row list" where
  "update_row rows row = map (\<lambda>old. if lb_id old = lb_id row then row else old) rows"

fun update_rows ::
  "('p db \<Rightarrow> label_row \<Rightarrow> store_error + (label_row option \<times> 'p db)) \<Rightarrow> label_row list \<Rightarrow> label_row list
    \<Rightarrow> 'p db \<Rightarrow> store_error + (label_row list \<times> 'p db)" where
  "update_rows apply_to [] rows db = Inr (rows, db)"
| "update_rows apply_to (row # tups) rows db =
     sum_bind (apply_to db row) (\<lambda>(updated, db).
       update_rows apply_to tups (case updated of None \<Rightarrow> rows | Some row' \<Rightarrow> update_row rows row') db)"

definition cascade ::
  "(string \<Rightarrow> string \<Rightarrow> bool) \<Rightarrow> (string \<Rightarrow> 'p db \<Rightarrow> label_row \<Rightarrow> store_error + (label_row option \<times> 'p db))
    \<Rightarrow> string \<Rightarrow> label_row list \<Rightarrow> 'p db \<Rightarrow> store_error + (bool \<times> label_row list \<times> 'p db)" where
  "cascade isparent apply_to struct_label_str rows db =
     (case np_find_struct_ltree rows struct_label_str of
        None \<Rightarrow> Inr (False, rows, db)
      | Some target \<Rightarrow>
          sum_bind (update_rows (apply_to target) (np_collect_ltree_descendants isparent rows target) rows db)
            (\<lambda>(rows, db). Inr (True, rows, db)))"

record 'p label_tables =
  lt_db :: "'p db"
  lt_vertex :: "label_row list"
  lt_edge :: "label_row list"
  lt_catalog :: label_catalog

definition change_annotation_label ::
  "(string \<Rightarrow> string \<Rightarrow> bool)
    \<Rightarrow> (label_row list \<Rightarrow> string \<Rightarrow> 'p db \<Rightarrow> label_row \<Rightarrow> store_error + (label_row option \<times> 'p db))
    \<Rightarrow> (label_catalog \<Rightarrow> store_error + label_catalog) \<Rightarrow> string \<Rightarrow> 'p label_tables
    \<Rightarrow> store_error + 'p label_tables" where
  "change_annotation_label isparent apply_to register struct_label_str lt =
     sum_bind (cascade isparent (apply_to (lt_vertex lt)) struct_label_str (lt_vertex lt) (lt_db lt)) (\<lambda>(v_found, v_rows, db).
     sum_bind (cascade isparent (apply_to (lt_edge lt)) struct_label_str (lt_edge lt) db) (\<lambda>(e_found, e_rows, db).
       if \<not> v_found \<and> \<not> e_found then Inl (Raised ''Structural label not found'')
       else sum_bind (register (lt_catalog lt)) (\<lambda>cat_rel.
         Inr \<lparr> lt_db = db, lt_vertex = v_rows, lt_edge = e_rows, lt_catalog = cat_rel \<rparr>)))"

definition add_annotation_label ::
  "'p schema_env \<Rightarrow> (string \<Rightarrow> string \<Rightarrow> bool) \<Rightarrow> graph_cache_data option \<Rightarrow> string \<Rightarrow> string
    \<Rightarrow> 'p label_tables \<Rightarrow> store_error + 'p label_tables" where
  "add_annotation_label se isparent graph struct_label_str new_annot_str lt =
     (if CHR ''.'' \<in> set new_annot_str then Inl (Raised ''Annotation labels cannot contain dots.'')
      else (case graph of
        None \<Rightarrow> Inl (Raised ''graph does not exist'')
      | Some graph_entry \<Rightarrow>
          change_annotation_label isparent
            (\<lambda>_ _ db row. np_apply_add_annotation_to_tuple se graph_entry db row new_annot_str)
            (\<lambda>cat_rel. enforce_and_insert_label_catalog cat_rel new_annot_str CHR ''a'') struct_label_str lt))"

definition drop_annotation_label ::
  "'p schema_env \<Rightarrow> (string \<Rightarrow> string \<Rightarrow> bool) \<Rightarrow> graph_cache_data option \<Rightarrow> string \<Rightarrow> string
    \<Rightarrow> 'p label_tables \<Rightarrow> store_error + 'p label_tables" where
  "drop_annotation_label se isparent graph struct_label_str drop_annot_str lt =
     (case graph of
        None \<Rightarrow> Inl (Raised ''graph does not exist'')
      | Some graph_entry \<Rightarrow>
          change_annotation_label isparent
            (\<lambda>rows target db row.
              np_apply_drop_annotation_to_tuple se graph_entry rows target struct_label_str db row drop_annot_str)
            (\<lambda>cat_rel. Inr (remove_from_label_catalog cat_rel drop_annot_str CHR ''a'')) struct_label_str lt)"

subsection \<open>The schema store as a map\<close>

text \<open>PostgreSQL's text arrays are values with a length word, and padding behind them is not looked at.\<close>

definition arrays_ok :: "'p schema_env \<Rightarrow> bool" where
  "arrays_ok se \<longleftrightarrow> (\<forall>m. length (se_array_bytes se m) \<le> 8000 \<longrightarrow>
     is_varlena (se_array_bytes se m) \<and> se_array_of se (packed_entity (se_array_bytes se m) None) = m)"

text \<open>What a label id leads to.\<close>

definition schema_of ::
  "(bytes \<Rightarrow> string option list) \<Rightarrow> (oid \<times> item_pointer \<Rightarrow> item option) \<Rightarrow> oid \<Rightarrow> oid \<Rightarrow> 32 word
    \<Rightarrow> string option list option" where
  "schema_of array_of F pmap tbl l =
     (case F (pmap, vertex_slot (scast l)) of
        Some (PhysMap r) \<Rightarrow>
          if ItemPointerIsValid (pm_v_itemptr r)
          then (case F (tbl, pm_v_itemptr r) of Some (Entity h) \<Rightarrow> Some (array_of (en_serialized_entity h)) | _ \<Rightarrow> None)
          else None
      | _ \<Rightarrow> None)"

definition schema_store :: "'p page_api \<Rightarrow> 'p db \<Rightarrow> oid \<Rightarrow> oid \<Rightarrow> bool" where
  "schema_store api db pmap tbl \<longleftrightarrow> store_ok api db \<and> pmap \<noteq> tbl \<and> map_relation api SizeOfNeoPhysMapRecord db pmap
     \<and> (\<forall>tid r. fetch_item api db (pmap, tid) = Some (PhysMap r) \<longrightarrow> ItemPointerIsValid (pm_v_itemptr r)
          \<longrightarrow> (\<exists>h. fetch_item api db (tbl, pm_v_itemptr r) = Some (Entity h)))"

lemma map_item:
  assumes "map_relation api SizeOfNeoPhysMapRecord db pmap" "fetch_item api db (pmap, tid) = Some y"
  shows "\<exists>r. y = PhysMap r"
proof -
  have "item_size y = SizeOfNeoPhysMapRecord" using assms by (simp add: map_relation_def)
  then show ?thesis
    by (cases y) (auto simp: SizeOfNeoPhysMapRecord_def SizeOfNPEntityTupleHeader_def SizeOfNeoArrayListRecord_def
        SizeOfNeoEdgePhysMapRecord_def SizeOfNPCatalogItemHeader_def)
qed

lemma latest_schema_of:
  assumes "schema_store api db pmap tbl"
  shows "latest_schema api array_of db pmap tbl l = Inr (schema_of array_of (fetch_item api db) pmap tbl l)"
proof (cases "fetch_item api db (pmap, vertex_slot (scast l))")
  case None
  show ?thesis
  proof (cases "unat (ip_blkid (vertex_slot (scast l))) < length (db pmap)")
    case True
    then have "read_item api db pmap (vertex_slot (scast l)) = Inr None"
      using None by (simp add: read_item_def ReadBuffer_def fetch_item_def)
    then show ?thesis using None True
      by (simp add: latest_schema_def schema_of_def RelationGetNumberOfBlocks_def flip: vertex_slot_def)
  next
    case False
    then show ?thesis using None
      by (simp add: latest_schema_def schema_of_def RelationGetNumberOfBlocks_def flip: vertex_slot_def)
  qed
next
  case (Some y)
  obtain r where y: "y = PhysMap r" using map_item[OF _ Some] assms by (auto simp: schema_store_def)
  have blk: "unat (ip_blkid (vertex_slot (scast l))) < length (db pmap)"
    using Some by (simp add: fetch_item_def split: if_splits)
  show ?thesis
  proof (cases "ItemPointerIsValid (pm_v_itemptr r)")
    case True
    then obtain h where "fetch_item api db (tbl, pm_v_itemptr r) = Some (Entity h)"
      using assms Some y by (auto simp: schema_store_def)
    then show ?thesis using True Some y blk read_item_fetch[OF Some] read_item_fetch[of api db tbl]
      by (simp add: latest_schema_def schema_of_def RelationGetNumberOfBlocks_def flip: vertex_slot_def)
  next
    case False
    then show ?thesis using Some y blk read_item_fetch[OF Some]
      by (simp add: latest_schema_def schema_of_def RelationGetNumberOfBlocks_def flip: vertex_slot_def)
  qed
qed

lemma array_fits:
  assumes "is_varlena bs" "length bs \<le> 8000"
  shows "item_fits (Entity (new_entity fxid cid prev i bs None))"
proof -
  have v: "VARSIZE bs = length bs" using assms(1) by (simp add: is_varlena_def)
  have "length (packed_entity bs None) = maxalign (40 + length bs) - 40"
    using maxalign_ge[of "40 + length bs"]
    by (simp add: packed_entity_def v Let_def SizeOfNPEntityTupleHeader_def poke_def zeros_def)
  moreover have "maxalign (40 + (maxalign (40 + length bs) - 40)) \<le> 8160"
    using assms(2) by (simp add: maxalign_def)
  ultimately show ?thesis by (simp add: item_fits_def new_entity_def SizeOfNPEntityTupleHeader_def)
qed

lemma scast_inject:
  fixes l l' :: "32 word"
  assumes "(scast l :: 64 word) = scast l'"
  shows "l = l'"
proof (rule bit_word_eqI)
  fix n
  assume "n < LENGTH(32)"
  then have "bit (scast l :: 64 word) n = bit l n" "bit (scast l' :: 64 word) n = bit l' n"
    by (cases "n = 31"; simp add: bit_simps min_def)+
  with assms show "bit l n = bit l' n" by simp
qed

text \<open>A label id that has a slot on a page of the map.\<close>

definition label_slot_ok :: "32 word \<Rightarrow> bool" where
  "label_slot_ok l \<longleftrightarrow> id_ok (scast l) \<and> slot_on_page (scast l)"

lemma extend_to_other:
  "extend_to api db rel n = Inr db' \<Longrightarrow> rel' \<noteq> rel \<Longrightarrow> db' rel' = db rel'"
proof (induction api db rel n rule: extend_to.induct)
  case (1 api db rel n)
  show ?case
  proof (cases "n < RelationGetNumberOfBlocks db rel")
    case True
    then show ?thesis using 1(2) by (simp add: extend_to.simps[of api db rel n])
  next
    case False
    then have "RelationGetNumberOfBlocks db rel < 0xFFFFFFFF"
      "extend_to api (db(rel := db rel @ [pg_init api])) rel n = Inr db'"
      using 1(2) by (simp_all add: extend_to.simps[of api db rel n] split: if_splits)
    from 1(1)[OF False this 1(3)] show ?thesis using 1(3) by simp
  qed
qed

lemma place_record_other:
  assumes "place_record api pad db rel tid x = Inr db'" "rel' \<noteq> rel"
  shows "db' rel' = db rel'"
  using assms extend_to_other by (fastforce simp: place_record_def put_page_def)

lemma insert_annotation_schema_at:
  assumes "schema_store (se_api se) db pmap tbl" "arrays_ok se" "has_room db tbl" "label_slot_ok l"
    "length (se_array_bytes se a) \<le> 8000"
  shows "\<exists>db'. insert_annotation_schema (se_api se) (se_array_bytes se) fxid cid db l a tbl pmap = Inr db'
    \<and> schema_store (se_api se) db' pmap tbl \<and> length (db' tbl) \<le> Suc (length (db tbl))
    \<and> (\<forall>l'. id_ok (scast l') \<longrightarrow> schema_of (se_array_of se) (fetch_item (se_api se) db') pmap tbl l' =
          (if l' = l then Some a else schema_of (se_array_of se) (fetch_item (se_api se) db) pmap tbl l'))"
proof -
  let ?api = "se_api se" and ?slot = "vertex_slot (scast l)"
  have ok: "store_ok ?api db" and ne: "pmap \<noteq> tbl" and map: "map_relation ?api SizeOfNeoPhysMapRecord db pmap"
    and leads: "\<And>tid r. \<lbrakk>fetch_item ?api db (pmap, tid) = Some (PhysMap r); ItemPointerIsValid (pm_v_itemptr r)\<rbrakk>
      \<Longrightarrow> \<exists>h. fetch_item ?api db (tbl, pm_v_itemptr r) = Some (Entity h)"
    using assms(1) unfolding schema_store_def by blast+
  have arr: "is_varlena (se_array_bytes se a)" "se_array_of se (packed_entity (se_array_bytes se a) None) = a"
    using assms(2,5) by (simp_all add: arrays_ok_def)
  define new where "new = new_entity fxid cid InvalidItemPointer (scast l) (se_array_bytes se a) None"
  have fits: "item_fits (Entity new)" unfolding new_def by (rule array_fits[OF arr(1) assms(5)])
  obtain t db1 where w: "np_write_record_to_page ?api db tbl (Entity new) = Inr (t, db1)"
    using np.store_total[OF ok fits assms(3)] by (metis prod.exhaust)
  note ok1 = np.store_ok[OF ok w] and f1 = np.store_fetch[OF ok w] and fresh = np.store_fresh[OF ok w]
    and valid = np.store_valid[OF ok w]
  define rec where "rec = \<lparr> pm_v_itemptr = t, pm_e_tbl_id = InvalidOid, pm_e_itemptr = InvalidItemPointer,
             pm_a_itemptr = InvalidItemPointer \<rparr>"
  have map1: "map_relation ?api (item_size (PhysMap rec)) db1 pmap"
    using map_relation_other[where db = db and db' = db1, OF map np_write_other[OF w ne]] by simp
  have id: "id_ok (scast l)" "slot_on_page (scast l)" using assms(4) by (simp_all add: label_slot_ok_def)
  obtain db' where p: "place_record ?api (PhysMap empty_pad) db1 pmap ?slot (PhysMap rec) = Inr db'"
    "store_ok ?api db'" "map_relation ?api SizeOfNeoPhysMapRecord db' pmap"
    "fetch_item ?api db' = padded ?api (PhysMap empty_pad) db1 pmap ?slot (PhysMap rec)"
    using place_record_room[OF ok1 map1, of "PhysMap empty_pad" ?slot] vertex_slot_fits[OF id(1)] id(2) by auto
  have run: "insert_annotation_schema ?api (se_array_bytes se) fxid cid db l a tbl pmap = Inr db'"
    using w p(1) by (simp add: insert_annotation_schema_def np_place_physmap_record_def rec_def new_def
        flip: vertex_slot_def)
  have tbl: "fetch_item ?api db' (tbl, x) = (if x = t then Some (Entity new) else fetch_item ?api db (tbl, x))" for x
    using ne by (simp add: p(4) padded_def f1)
  have slot: "fetch_item ?api db' (pmap, ?slot) = Some (PhysMap rec)" by (simp add: p(4) padded_def)
  have other: "fetch_item ?api db' (pmap, x) = fetch_item ?api db (pmap, x)
      \<or> fetch_item ?api db' (pmap, x) = Some (PhysMap empty_pad) \<and> fetch_item ?api db (pmap, x) = None"
    if "x \<noteq> ?slot" for x
    using that ne by (simp add: p(4) padded_def f1)
  have "\<exists>h. fetch_item ?api db' (tbl, pm_v_itemptr r) = Some (Entity h)"
    if "fetch_item ?api db' (pmap, x) = Some (PhysMap r)" "ItemPointerIsValid (pm_v_itemptr r)" for x r
  proof (cases "x = ?slot")
    case True
    then have "r = rec" using that(1) slot by simp
    then show ?thesis by (simp add: tbl rec_def)
  next
    case False
    then have "fetch_item ?api db (pmap, x) = Some (PhysMap r)"
      using that other[OF False] by (auto simp: empty_pad_def)
    then show ?thesis using leads that(2) by (auto simp: tbl)
  qed
  then have store: "schema_store ?api db' pmap tbl" using p(2,3) ne by (simp add: schema_store_def)
  have len: "length (db' tbl) \<le> Suc (length (db tbl))"
  proof -
    have "db' tbl = db1 tbl" by (rule place_record_other[OF p(1)]) (use ne in simp)
    moreover have "page_laws ?api" using ok by (simp add: store_ok_def)
    ultimately show ?thesis using np_write_length[OF _ w, of tbl] by simp
  qed
  have "schema_of (se_array_of se) (fetch_item ?api db') pmap tbl l' =
      (if l' = l then Some a else schema_of (se_array_of se) (fetch_item ?api db) pmap tbl l')"
    if "id_ok (scast l')" for l'
  proof (cases "l' = l")
    case True
    then show ?thesis using slot valid arr(2)
      by (simp add: schema_of_def rec_def tbl new_def new_entity_def)
  next
    case False
    have "vertex_slot (scast l') \<noteq> ?slot"
      using vertex_slot_inj[OF that id(1)] scast_inject[of l' l] False by blast
    from other[OF this] have "fetch_item ?api db' (pmap, vertex_slot (scast l')) = fetch_item ?api db (pmap, vertex_slot (scast l'))
      \<or> fetch_item ?api db' (pmap, vertex_slot (scast l')) = Some (PhysMap empty_pad)
        \<and> fetch_item ?api db (pmap, vertex_slot (scast l')) = None" .
    moreover have "fetch_item ?api db' (tbl, pm_v_itemptr r) = fetch_item ?api db (tbl, pm_v_itemptr r)"
      if "fetch_item ?api db (pmap, vertex_slot (scast l')) = Some (PhysMap r)" "ItemPointerIsValid (pm_v_itemptr r)" for r
      using leads[OF that] fresh by (auto simp: tbl)
    ultimately show ?thesis using False
      by (cases "fetch_item ?api db (pmap, vertex_slot (scast l'))")
        (auto simp: schema_of_def empty_pad_def split: option.split item.split)
  qed
  then show ?thesis using run store len by blast
qed

lemma insert_annotation_schema_other:
  assumes "insert_annotation_schema api array_bytes fxid cid db l a tbl pmap = Inr db'" "rel \<noteq> tbl" "rel \<noteq> pmap"
  shows "db' rel = db rel"
proof -
  obtain t db1 where w: "np_write_record_to_page api db tbl
      (Entity (new_entity fxid cid InvalidItemPointer (scast l) (array_bytes a) None)) = Inr (t, db1)"
    and p: "np_place_physmap_record api db1 pmap (np_id_to_tid (scast l) (pmap_tuples_per_page SizeOfNeoPhysMapRecord))
           \<lparr> pm_v_itemptr = t, pm_e_tbl_id = InvalidOid, pm_e_itemptr = InvalidItemPointer,
             pm_a_itemptr = InvalidItemPointer \<rparr> = Inr db'"
    using assms(1) by (auto simp: insert_annotation_schema_def)
  show ?thesis
    using np_write_other[OF w assms(2)] place_record_other[OF p[unfolded np_place_physmap_record_def] assms(3)] by simp
qed

subsection \<open>The map of one label\<close>

definition map_of_row :: "'p schema_env \<Rightarrow> graph_cache_data \<Rightarrow> 'p db \<Rightarrow> label_row \<Rightarrow> string option list option" where
  "map_of_row se ge db row =
     (case schema_of (se_array_of se) (fetch_item (se_api se) db) (gc_annot_schema_phys_map ge) (gc_annot_schema_tbl ge)
         (lb_id row) of None \<Rightarrow> lb_annotation_map row | Some m \<Rightarrow> Some m)"

definition schema_ready :: "'p schema_env \<Rightarrow> graph_cache_data \<Rightarrow> 'p db \<Rightarrow> bool" where
  "schema_ready se ge db \<longleftrightarrow> schema_store (se_api se) db (gc_annot_schema_phys_map ge) (gc_annot_schema_tbl ge)"

lemma current_map_of_row:
  "schema_ready se ge db \<Longrightarrow> current_map se ge db row = Inr (map_of_row se ge db row)"
  by (simp add: current_map_def latest_schema_of schema_ready_def map_of_row_def)

text \<open>The map with the name in it: a new name comes last.\<close>

definition offer :: "string \<Rightarrow> string option list option \<Rightarrow> string option list" where
  "offer s m = (let d = (case m of None \<Rightarrow> [] | Some d \<Rightarrow> d) in if Some s \<in> set d then d else d @ [Some s])"

definition lacks :: "string \<Rightarrow> string option list option \<Rightarrow> bool" where
  "lacks s m \<longleftrightarrow> (case m of None \<Rightarrow> True | Some d \<Rightarrow> Some s \<notin> set d)"

text \<open>A map that can be extended: without null elements, and not too long for a page.\<close>

definition can_offer :: "'p schema_env \<Rightarrow> string \<Rightarrow> string option list option \<Rightarrow> bool" where
  "can_offer se s m \<longleftrightarrow> None \<notin> set (offer s m) \<and> length (se_array_bytes se (offer s m)) \<le> 8000"

lemma np_apply_add_at:
  assumes "schema_ready se ge db" "arrays_ok se" "has_room db (gc_annot_schema_tbl ge)"
    "label_slot_ok (lb_id row)" "can_offer se s (map_of_row se ge db row)"
  shows "\<exists>updated db' row'. np_apply_add_annotation_to_tuple se ge db row s = Inr (updated, db')
    \<and> schema_ready se ge db' \<and> length (db' (gc_annot_schema_tbl ge)) \<le> Suc (length (db (gc_annot_schema_tbl ge)))
    \<and> row' = (case updated of None \<Rightarrow> row | Some r \<Rightarrow> r) \<and> lb_id row' = lb_id row \<and> lb_label row' = lb_label row
    \<and> map_of_row se ge db' row' = Some (offer s (map_of_row se ge db row))
    \<and> (\<forall>r. id_ok (scast (lb_id r)) \<longrightarrow> map_of_row se ge db' r =
          (if lb_id r = lb_id row \<and> lacks s (map_of_row se ge db row)
           then Some (offer s (map_of_row se ge db row)) else map_of_row se ge db r))"
proof -
  let ?m = "map_of_row se ge db row"
  define d where "d = (case ?m of None \<Rightarrow> [] | Some m \<Rightarrow> m)"
  note start = np_apply_add_annotation_to_tuple_def current_map_of_row[OF assms(1)] Let_def
  show ?thesis
  proof (cases "Some s \<in> set d")
    case True
    then have "offer s ?m = d" "?m = Some d" "\<not> lacks s ?m"
      by (cases ?m; simp add: offer_def d_def Let_def lacks_def)+
    then show ?thesis using True assms(1) by (auto simp: start simp flip: d_def)
  next
    case False
    then have o: "offer s ?m = d @ [Some s]" by (simp add: offer_def Let_def flip: d_def)
    then have "None \<notin> set d" "length (se_array_bytes se (d @ [Some s])) \<le> 8000"
      using assms(5) by (simp_all add: can_offer_def)
    with insert_annotation_schema_at[OF assms(1)[unfolded schema_ready_def] assms(2,3,4) this(2), of "se_fxid se" "se_cid se"]
    obtain db' where db': "insert_annotation_schema (se_api se) (se_array_bytes se) (se_fxid se) (se_cid se) db (lb_id row)
        (d @ [Some s]) (gc_annot_schema_tbl ge) (gc_annot_schema_phys_map ge) = Inr db'"
      "schema_ready se ge db'" "length (db' (gc_annot_schema_tbl ge)) \<le> Suc (length (db (gc_annot_schema_tbl ge)))"
      "\<forall>l'. id_ok (scast l') \<longrightarrow> schema_of (se_array_of se) (fetch_item (se_api se) db') (gc_annot_schema_phys_map ge)
          (gc_annot_schema_tbl ge) l' = (if l' = lb_id row then Some (d @ [Some s]) else
            schema_of (se_array_of se) (fetch_item (se_api se) db) (gc_annot_schema_phys_map ge) (gc_annot_schema_tbl ge) l')"
      unfolding schema_ready_def by blast
    have id: "id_ok (scast (lb_id row))" using assms(4) by (simp add: label_slot_ok_def)
    define row' where "row' = row \<lparr> lb_annotation_map := Some (d @ [Some s]),
               lb_annotations_tbl :=
                 (case lb_annotations_tbl row of
                    None \<Rightarrow> Some (se_new_tbl se (lb_id row))
                  | Some t \<Rightarrow> if OidIsValid t then Some t else Some (se_new_tbl se (lb_id row))) \<rparr>"
    have run: "np_apply_add_annotation_to_tuple se ge db row s = Inr (Some row', db')"
      using False \<open>None \<notin> set d\<close> db'(1) unfolding start sum_bind.simps d_def[symmetric] by (simp add: row'_def)
    have row': "lb_id row' = lb_id row" "lb_label row' = lb_label row" by (simp_all add: row'_def)
    have "map_of_row se ge db' row' = Some (offer s ?m)"
      unfolding map_of_row_def[of se ge db' row'] using db'(4) id row' o by simp
    moreover have "lacks s ?m" using False by (simp add: lacks_def d_def split: option.split)
    then have "map_of_row se ge db' r = (if lb_id r = lb_id row \<and> lacks s ?m then Some (offer s ?m)
        else map_of_row se ge db r)" if "id_ok (scast (lb_id r))" for r
      unfolding map_of_row_def[of se ge db' r] using db'(4) that o by (simp add: map_of_row_def[of se ge db r])
    ultimately show ?thesis using run db'(2,3) row'
      by (intro exI[of _ "Some row'"] exI[of _ db'] exI[of _ row']) simp
  qed
qed

subsection \<open>All labels below\<close>

lemma update_row_same:
  assumes "distinct (map lb_id rows)" "row \<in> set rows"
  shows "update_row rows row = rows"
proof -
  have "(if lb_id old = lb_id row then row else old) = old" if "old \<in> set rows" for old
    using assms that by (simp add: distinct_map inj_on_def)
  then show ?thesis by (simp add: update_row_def map_idI)
qed

lemma update_row_id:
  assumes "lb_id row' = lb_id row" "lb_label row' = lb_label row" "row \<in> set rows" "distinct (map lb_id rows)"
  shows "map lb_id (update_row rows row') = map lb_id rows"
    "map lb_label (update_row rows row') = map lb_label rows"
proof -
  show "map lb_id (update_row rows row') = map lb_id rows"
    by (simp add: update_row_def)
  have "lb_label old = lb_label row'" if "old \<in> set rows" "lb_id old = lb_id row'" for old
    using that assms by (metis distinct_map inj_on_def)
  then show "map lb_label (update_row rows row') = map lb_label rows"
    by (simp add: update_row_def)
qed

text \<open>What the changes of the rows \<open>tups\<close> do to the map of any label, whatever its kind: the maps are kept
  by label id.\<close>

definition spreads :: "'p schema_env \<Rightarrow> graph_cache_data \<Rightarrow> string \<Rightarrow> 'p db \<Rightarrow> label_row list \<Rightarrow> 'p db \<Rightarrow> bool" where
  "spreads se ge s db tups db' \<longleftrightarrow> (\<forall>r. id_ok (scast (lb_id r)) \<longrightarrow>
     (\<forall>v \<in> set tups. lb_id v = lb_id r \<longrightarrow> lacks s (map_of_row se ge db v) \<longrightarrow>
        map_of_row se ge db' r = Some (offer s (map_of_row se ge db v)))
     \<and> ((\<forall>v \<in> set tups. lb_id v = lb_id r \<longrightarrow> \<not> lacks s (map_of_row se ge db v)) \<longrightarrow>
        map_of_row se ge db' r = map_of_row se ge db r))"

lemma update_rows_add:
  assumes "schema_ready se ge db" "arrays_ok se"
    "length (db (gc_annot_schema_tbl ge)) + length tups < 0xFFFFFFFF" "distinct (map lb_id rows)"
    "\<forall>row \<in> set rows. id_ok (scast (lb_id row))" "distinct (map lb_id tups)" "set tups \<subseteq> set rows"
    "\<forall>row \<in> set tups. label_slot_ok (lb_id row) \<and> can_offer se s (map_of_row se ge db row)"
  shows "\<exists>rows' db'. update_rows (\<lambda>db row. np_apply_add_annotation_to_tuple se ge db row s) tups rows db = Inr (rows', db')
    \<and> schema_ready se ge db' \<and> map lb_id rows' = map lb_id rows \<and> map lb_label rows' = map lb_label rows
    \<and> (\<forall>k < length rows. map_of_row se ge db' (rows' ! k) =
          (if rows ! k \<in> set tups then Some (offer s (map_of_row se ge db (rows ! k))) else map_of_row se ge db (rows ! k)))
    \<and> spreads se ge s db tups db'"
  using assms
proof (induction tups arbitrary: rows db)
  case Nil
  then show ?case by (simp add: spreads_def)
next
  case (Cons row tups)
  let ?tbl = "gc_annot_schema_tbl ge"
  have row: "row \<in> set rows" "label_slot_ok (lb_id row)" "can_offer se s (map_of_row se ge db row)"
    and room: "has_room db ?tbl"
    using Cons.prems by (simp_all add: has_room_def)
  obtain updated db1 row' where one: "np_apply_add_annotation_to_tuple se ge db row s = Inr (updated, db1)"
    "schema_ready se ge db1" "length (db1 ?tbl) \<le> Suc (length (db ?tbl))"
    "row' = (case updated of None \<Rightarrow> row | Some r \<Rightarrow> r)" "lb_id row' = lb_id row" "lb_label row' = lb_label row"
    "map_of_row se ge db1 row' = Some (offer s (map_of_row se ge db row))"
    and any: "\<And>r. id_ok (scast (lb_id r)) \<Longrightarrow> map_of_row se ge db1 r =
          (if lb_id r = lb_id row \<and> lacks s (map_of_row se ge db row)
           then Some (offer s (map_of_row se ge db row)) else map_of_row se ge db r)"
    using np_apply_add_at[OF Cons.prems(1,2) room row(2,3)] by blast
  have same: "map_of_row se ge db1 r = map_of_row se ge db r" if "id_ok (scast (lb_id r))" "lb_id r \<noteq> lb_id row" for r
    using any[OF that(1)] that(2) by simp
  define rows1 where "rows1 = update_row rows row'"
  have rows1: "(case updated of None \<Rightarrow> rows | Some row' \<Rightarrow> update_row rows row') = rows1"
    using one(4) update_row_same[OF Cons.prems(4) row(1)] by (simp add: rows1_def split: option.split)
  note ids = update_row_id[OF one(5,6) row(1) Cons.prems(4), folded rows1_def]
  have fresh: "lb_id r \<noteq> lb_id row" if "r \<in> set tups" for r
    using that Cons.prems(6) by (auto simp: image_iff)
  have tups: "set tups \<subseteq> set rows1"
  proof
    fix r assume r: "r \<in> set tups"
    then have "r \<in> set rows" "lb_id r \<noteq> lb_id row'" using Cons.prems(7) fresh one(5) by auto
    then show "r \<in> set rows1" unfolding rows1_def update_row_def by force
  qed
  have "set (map lb_id rows1) = set (map lb_id rows)" by (simp only: ids(1))
  moreover have "\<forall>l \<in> set (map lb_id rows). id_ok (scast l)" using Cons.prems(5) by simp
  ultimately have "\<forall>l \<in> set (map lb_id rows1). id_ok (scast l)" by (simp only:)
  then have ok1: "\<forall>r \<in> set rows1. id_ok (scast (lb_id r))" by simp
  have kept: "map_of_row se ge db1 r = map_of_row se ge db r" if "r \<in> set tups" for r
    using same[of r] fresh[OF that] that Cons.prems(5,7) by auto
  have next_prems: "length (db1 ?tbl) + length tups < 0xFFFFFFFF" "distinct (map lb_id rows1)" "distinct (map lb_id tups)"
    using Cons.prems(3,4,6) one(3) ids(1) by simp_all
  have able: "\<forall>r \<in> set tups. label_slot_ok (lb_id r) \<and> can_offer se s (map_of_row se ge db1 r)"
    using Cons.prems(8) kept by simp
  obtain rows' db' where rest:
    "update_rows (\<lambda>db row. np_apply_add_annotation_to_tuple se ge db row s) tups rows1 db1 = Inr (rows', db')"
    "schema_ready se ge db'" "map lb_id rows' = map lb_id rows1" "map lb_label rows' = map lb_label rows1"
    "\<forall>k < length rows1. map_of_row se ge db' (rows' ! k) =
          (if rows1 ! k \<in> set tups then Some (offer s (map_of_row se ge db1 (rows1 ! k))) else map_of_row se ge db1 (rows1 ! k))"
    "spreads se ge s db1 tups db'"
    using Cons.IH[OF one(2) Cons.prems(2) next_prems(1,2) ok1 next_prems(3) tups able] by blast
  have "map_of_row se ge db' (rows' ! k) = (if rows ! k \<in> set (row # tups)
      then Some (offer s (map_of_row se ge db (rows ! k))) else map_of_row se ge db (rows ! k))"
    if k: "k < length rows" for k
  proof (cases "lb_id (rows ! k) = lb_id row")
    case True
    then have "rows ! k = row"
      using Cons.prems(4) row(1) k by (metis distinct_map inj_on_def nth_mem)
    moreover have "rows1 ! k = row'" using k True one(5) by (simp add: rows1_def update_row_def)
    moreover have "row' \<notin> set tups" using fresh one(5) by metis
    moreover have "k < length rows1" using k by (simp add: rows1_def update_row_def)
    ultimately show ?thesis using rest(5)[rule_format, of k] one(7) by simp
  next
    case False
    then have "rows1 ! k = rows ! k" using k one(5) by (simp add: rows1_def update_row_def)
    moreover have "map_of_row se ge db1 (rows ! k) = map_of_row se ge db (rows ! k)"
      using same[of "rows ! k"] False Cons.prems(5) k by simp
    moreover have "rows ! k \<noteq> row" using False by auto
    moreover have "k < length rows1" using k by (simp add: rows1_def update_row_def)
    ultimately show ?thesis using rest(5)[rule_format, of k] by simp
  qed
  moreover have "update_rows (\<lambda>db row. np_apply_add_annotation_to_tuple se ge db row s) (row # tups) rows db = Inr (rows', db')"
    using one(1) rest(1) by (simp only: update_rows.simps sum_bind.simps prod.case rows1)
  moreover have "spreads se ge s db (row # tups) db'"
    unfolding spreads_def
  proof (intro allI impI conjI ballI)
    fix r v :: label_row assume r: "id_ok (scast (lb_id r))" and v: "v \<in> set (row # tups)" "lb_id v = lb_id r"
      "lacks s (map_of_row se ge db v)"
    show "map_of_row se ge db' r = Some (offer s (map_of_row se ge db v))"
    proof (cases "v = row")
      case True
      then have "\<forall>w \<in> set tups. lb_id w \<noteq> lb_id r" using fresh v(2) by metis
      then have "map_of_row se ge db' r = map_of_row se ge db1 r" using rest(6) r by (simp add: spreads_def)
      then show ?thesis using any[OF r] v True by simp
    next
      case False
      then have v: "v \<in> set tups" "lb_id v = lb_id r" "lacks s (map_of_row se ge db1 v)"
        using v kept[of v] by simp_all
      then show ?thesis using rest(6) r kept[of v] by (simp add: spreads_def)
    qed
  next
    fix r :: label_row assume r: "id_ok (scast (lb_id r))"
      and none: "\<forall>v \<in> set (row # tups). lb_id v = lb_id r \<longrightarrow> \<not> lacks s (map_of_row se ge db v)"
    then have "\<forall>v \<in> set tups. lb_id v = lb_id r \<longrightarrow> \<not> lacks s (map_of_row se ge db1 v)" using kept by simp
    then have "map_of_row se ge db' r = map_of_row se ge db1 r" using rest(6) r by (simp add: spreads_def)
    also have "\<dots> = map_of_row se ge db r" using any[OF r] none by (auto split: if_splits)
    finally show "map_of_row se ge db' r = map_of_row se ge db r" .
  qed
  ultimately show ?case using rest(2-4) ids by (intro exI[of _ rows'] exI[of _ db']) simp
qed

text \<open>C16. Adding an annotation to a structural label that only vertex labels
  carry adds it to the map of each vertex label at or below it, behind the names that are there, so the
  bits of the vertices keep their meaning; a vertex label that has the name already keeps its map, and
  so do all other vertex labels.  The rows of the edge labels stay, but not all of their maps:
  the newest maps of both kinds are kept in one table by label id, and an edge label whose id is that of a
  vertex label that got the name has that label's new map afterwards, whatever its own was; the other
  edge labels keep theirs.  The name is in the catalog of names as an annotation.\<close>
theorem annotation_offered_below:
  assumes "schema_ready se ge (lt_db lt)" "arrays_ok se"
    "length (lt_db lt (gc_annot_schema_tbl ge)) + length (lt_vertex lt) < 0xFFFFFFFF"
    "distinct (map lb_id (lt_vertex lt))" "\<forall>row \<in> set (lt_vertex lt). label_slot_ok (lb_id row)"
    "CHR ''.'' \<notin> set s" "np_find_struct_ltree (lt_vertex lt) label = Some target"
    "np_find_struct_ltree (lt_edge lt) label = None"
    "\<forall>row \<in> set (lt_catalog lt). fst row = s \<longrightarrow> snd row = CHR ''a''"
    "\<forall>row \<in> set (lt_vertex lt). isparent target (lb_label row) \<longrightarrow>
       (\<forall>m. current_map se ge (lt_db lt) row = Inr m \<longrightarrow> can_offer se s m)"
    "\<forall>row \<in> set (lt_edge lt). id_ok (scast (lb_id row))"
  shows "\<exists>lt'. add_annotation_label se isparent (Some ge) label s lt = Inr lt'
    \<and> lt_edge lt' = lt_edge lt \<and> (s, CHR ''a'') \<in> set (lt_catalog lt')
    \<and> map lb_id (lt_vertex lt') = map lb_id (lt_vertex lt) \<and> map lb_label (lt_vertex lt') = map lb_label (lt_vertex lt)
    \<and> (\<forall>k < length (lt_vertex lt). \<exists>m. current_map se ge (lt_db lt) (lt_vertex lt ! k) = Inr m
        \<and> current_map se ge (lt_db lt') (lt_vertex lt' ! k) =
            Inr (if isparent target (lb_label (lt_vertex lt ! k)) then Some (offer s m) else m))
    \<and> (\<forall>e \<in> set (lt_edge lt).
        (\<forall>v \<in> set (lt_vertex lt). \<forall>m. lb_id v = lb_id e \<longrightarrow> isparent target (lb_label v) \<longrightarrow>
           current_map se ge (lt_db lt) v = Inr m \<longrightarrow> lacks s m \<longrightarrow>
           current_map se ge (lt_db lt') e = Inr (Some (offer s m)))
      \<and> ((\<forall>v \<in> set (lt_vertex lt). \<forall>m. lb_id v = lb_id e \<longrightarrow> isparent target (lb_label v) \<longrightarrow>
           current_map se ge (lt_db lt) v = Inr m \<longrightarrow> \<not> lacks s m) \<longrightarrow>
           current_map se ge (lt_db lt') e = current_map se ge (lt_db lt) e))"
proof -
  let ?rows = "lt_vertex lt" and ?tups = "np_collect_ltree_descendants isparent (lt_vertex lt) target"
  have tups: "set ?tups = {row \<in> set ?rows. isparent target (lb_label row)}"
    by (simp add: np_collect_ltree_descendants_def)
  have "length ?tups \<le> length ?rows" by (simp add: np_collect_ltree_descendants_def)
  then have room: "length (lt_db lt (gc_annot_schema_tbl ge)) + length ?tups < 0xFFFFFFFF" using assms(3) by linarith
  have dist: "distinct (map lb_id ?tups)"
    using assms(4) by (simp add: np_collect_ltree_descendants_def distinct_map_filter)
  have ids: "\<forall>row \<in> set ?rows. id_ok (scast (lb_id row))" using assms(5) by (simp add: label_slot_ok_def)
  have able: "\<forall>row \<in> set ?tups. label_slot_ok (lb_id row) \<and> can_offer se s (map_of_row se ge (lt_db lt) row)"
    using assms(5,10) tups by (simp add: current_map_of_row[OF assms(1)])
  obtain rows' db' where up: "update_rows (\<lambda>db row. np_apply_add_annotation_to_tuple se ge db row s) ?tups ?rows (lt_db lt) = Inr (rows', db')"
    "schema_ready se ge db'" "map lb_id rows' = map lb_id ?rows" "map lb_label rows' = map lb_label ?rows"
    "\<forall>k < length ?rows. map_of_row se ge db' (rows' ! k) = (if ?rows ! k \<in> set ?tups
        then Some (offer s (map_of_row se ge (lt_db lt) (?rows ! k))) else map_of_row se ge (lt_db lt) (?rows ! k))"
    "spreads se ge s (lt_db lt) ?tups db'"
    using update_rows_add[OF assms(1,2) room assms(4) ids dist _ able] tups by blast
  obtain cat' where cat: "enforce_and_insert_label_catalog (lt_catalog lt) s CHR ''a'' = Inr cat'" "(s, CHR ''a'') \<in> set cat'"
  proof (cases "find (\<lambda>row. fst row = s) (lt_catalog lt)")
    case None
    then show ?thesis using that by (simp add: enforce_and_insert_label_catalog_def)
  next
    case (Some row)
    then have "row \<in> set (lt_catalog lt)" "fst row = s" by (auto simp: find_Some_iff)
    moreover from this assms(9) have "row = (s, CHR ''a'')" by (simp add: prod_eq_iff)
    ultimately show ?thesis using that Some by (simp add: enforce_and_insert_label_catalog_def)
  qed
  have "add_annotation_label se isparent (Some ge) label s lt =
      Inr \<lparr> lt_db = db', lt_vertex = rows', lt_edge = lt_edge lt, lt_catalog = cat' \<rparr>"
    using assms(6-8) up(1) cat(1) by (simp add: add_annotation_label_def change_annotation_label_def cascade_def)
  moreover have "\<forall>k < length ?rows. map_of_row se ge db' (rows' ! k) =
      (if isparent target (lb_label (?rows ! k)) then Some (offer s (map_of_row se ge (lt_db lt) (?rows ! k)))
       else map_of_row se ge (lt_db lt) (?rows ! k))"
    using up(5) tups by simp
  moreover have "(\<forall>v \<in> set ?rows. \<forall>m. lb_id v = lb_id e \<longrightarrow> isparent target (lb_label v) \<longrightarrow>
           map_of_row se ge (lt_db lt) v = m \<longrightarrow> lacks s m \<longrightarrow> map_of_row se ge db' e = Some (offer s m))
      \<and> ((\<forall>v \<in> set ?rows. \<forall>m. lb_id v = lb_id e \<longrightarrow> isparent target (lb_label v) \<longrightarrow>
           map_of_row se ge (lt_db lt) v = m \<longrightarrow> \<not> lacks s m) \<longrightarrow>
           map_of_row se ge db' e = map_of_row se ge (lt_db lt) e)" if "e \<in> set (lt_edge lt)" for e
    using up(6) assms(11) that tups by (auto simp: spreads_def)
  ultimately show ?thesis using cat(2) up(3,4)
    by (simp add: current_map_of_row[OF assms(1)] current_map_of_row[OF up(2)])
qed

subsection \<open>Text arrays\<close>

text \<open>Text arrays, for the examples: a null element is a zero, a text its characters with a two before
  each, and a one.\<close>

definition enc_name :: "string option \<Rightarrow> bytes" where
  "enc_name m = (case m of None \<Rightarrow> [0] | Some s \<Rightarrow> concat (map (\<lambda>c. [2, of_nat (of_char c)]) s) @ [1])"

fun dec_names :: "string \<Rightarrow> bytes \<Rightarrow> string option list" where
  "dec_names acc [] = []"
| "dec_names acc [b] = (if b = 0 then [None] else if b = 1 then [Some (rev acc)] else [])"
| "dec_names acc (b # c # bs) =
     (if b = 0 then None # dec_names [] (c # bs)
      else if b = 1 then Some (rev acc) # dec_names [] (c # bs)
      else dec_names (char_of (unat c) # acc) bs)"

lemma dec_name:
  "dec_names acc (0 # rest) = None # dec_names [] rest" "dec_names acc (1 # rest) = Some (rev acc) # dec_names [] rest"
  by (cases rest; simp)+

lemma dec_text:
  "dec_names acc (concat (map (\<lambda>c. [2, of_nat (of_char c)]) s) @ 1 # rest) = Some (rev acc @ s) # dec_names [] rest"
proof (induction s arbitrary: acc)
  case (Cons c s)
  have "unat (of_nat (of_char c) :: byte) = of_char c"
    using of_char_of[of "of_char c :: nat"] by (simp add: unat_of_nat)
  then show ?case using Cons by simp
qed (simp add: dec_name)

lemma dec_enc: "dec_names [] (concat (map enc_name m)) = m"
  by (induction m) (auto simp: enc_name_def dec_name dec_text split: option.split)

definition example_array_bytes :: "string option list \<Rightarrow> bytes" where
  "example_array_bytes m = (let bs = concat (map enc_name m) in varlena_header (4 + length bs) @ bs)"

definition example_array_of :: "bytes \<Rightarrow> string option list" where
  "example_array_of bs = dec_names [] (take (VARSIZE bs - 4) (drop 4 bs))"

definition example_schema_env :: "list_page schema_env" where
  "example_schema_env = \<lparr> se_api = list_page_api, se_array_of = example_array_of,
     se_array_bytes = example_array_bytes, se_fxid = 1005, se_cid = 0, se_new_tbl = (\<lambda>l. 40 + l) \<rparr>"

lemma example_arrays_ok: "arrays_ok example_schema_env"
proof -
  have "is_varlena (example_array_bytes m) \<and> example_array_of (packed_entity (example_array_bytes m) None) = m"
    if "length (example_array_bytes m) \<le> 8000" for m
  proof -
    define bs where "bs = concat (map enc_name m)"
    have b: "example_array_bytes m = varlena_header (4 + length bs) @ bs"
      by (simp add: example_array_bytes_def bs_def Let_def)
    then have len: "length bs \<le> 8116" using that by simp
    have "is_varlena (example_array_bytes m)" using len by (simp add: b is_varlena_def VARSIZE_header)
    moreover have "example_array_of (packed_entity (example_array_bytes m) None) = m"
      unfolding example_array_of_def b bitset_stored(1)[OF len] by (simp add: bs_def dec_enc)
    ultimately show ?thesis by simp
  qed
  then show ?thesis by (simp add: arrays_ok_def example_schema_env_def)
qed

text \<open>Three vertex and two edge labels, none with annotations; an edge label has the id of a vertex label.\<close>

definition example_row :: "32 word \<Rightarrow> string \<Rightarrow> label_row" where
  "example_row l path = example_label_row \<lparr> lb_id := l, lb_label := path \<rparr>"

definition example_labels :: "list_page label_tables" where
  "example_labels = \<lparr> lt_db = (\<lambda>_. []), lt_vertex =
       [example_row 1 ''_.person'', example_row 2 ''_.person.boss'', example_row 3 ''_.firm''],
     lt_edge = [example_row 2 ''_.knows'', example_row 7 ''_.likes''], lt_catalog = [(''person'', CHR ''s''), (''boss'', CHR ''s''), (''firm'', CHR ''s'')] \<rparr>"

definition example_isparent :: "string \<Rightarrow> string \<Rightarrow> bool" where
  "example_isparent p c \<longleftrightarrow> take (length p) c = p"

lemma example_schema_ready: "schema_ready example_schema_env example_graph_row (\<lambda>_. [])"
  by (simp add: schema_ready_def schema_store_def example_schema_env_def example_graph_row_def empty_db_ok
      empty_map_relation fetch_item_def)

lemma annotation_offered_below_witness:
  "\<exists>lt. add_annotation_label example_schema_env example_isparent (Some example_graph_row) ''person'' ''vip'' example_labels = Inr lt
    \<and> current_map example_schema_env example_graph_row (lt_db lt) (lt_vertex lt ! 1) = Inr (Some [Some ''vip''])
    \<and> current_map example_schema_env example_graph_row (lt_db lt) (lt_vertex lt ! 2) = Inr None
    \<and> current_map example_schema_env example_graph_row (lt_db lt) (lt_edge lt ! 0) = Inr (Some [Some ''vip''])
    \<and> current_map example_schema_env example_graph_row (lt_db lt) (lt_edge lt ! 1) = Inr None"
proof -
  let ?se = example_schema_env and ?ge = example_graph_row and ?lt = example_labels
  have db: "lt_db ?lt = (\<lambda>_. [])" by (simp add: example_labels_def)
  have cur: "current_map ?se ?ge (lt_db ?lt) row = Inr None" if "row \<in> set (lt_vertex ?lt) \<union> set (lt_edge ?lt)" for row
    using that current_map_of_row[OF example_schema_ready, of row]
    by (auto simp: map_of_row_def schema_of_def fetch_item_def db example_labels_def example_row_def example_label_row_def
        split: option.split_asm item.split_asm)
  have slots: "\<forall>row \<in> set (lt_vertex ?lt). label_slot_ok (lb_id row)"
    by (simp add: example_labels_def example_row_def label_slot_ok_def id_ok_def slot_on_page_def)
  have able: "can_offer ?se ''vip'' None"
    by (simp add: can_offer_def offer_def example_schema_env_def example_array_bytes_def enc_name_def)
  have t: "np_find_struct_ltree (lt_vertex ?lt) ''person'' = Some ''_.person''"
    by (simp add: np_find_struct_ltree_def example_labels_def example_row_def strip_root_def)
  have "length (lt_db ?lt (gc_annot_schema_tbl ?ge)) + length (lt_vertex ?lt) < 0xFFFFFFFF"
    "distinct (map lb_id (lt_vertex ?lt))" "CHR ''.'' \<notin> set ''vip''" "np_find_struct_ltree (lt_edge ?lt) ''person'' = None"
    "\<forall>row \<in> set (lt_catalog ?lt). fst row = ''vip'' \<longrightarrow> snd row = CHR ''a''"
    by (simp_all add: example_labels_def example_row_def np_find_struct_ltree_def strip_root_def)
  note hyps = example_schema_ready[folded db] example_arrays_ok this(1,2) slots this(3) t this(4,5)
  have eids: "\<forall>row \<in> set (lt_edge ?lt). id_ok (scast (lb_id row))"
    by (simp add: example_labels_def example_row_def id_ok_def)
  have able': "\<forall>row \<in> set (lt_vertex ?lt). example_isparent ''_.person'' (lb_label row) \<longrightarrow>
       (\<forall>m. current_map ?se ?ge (lt_db ?lt) row = Inr m \<longrightarrow> can_offer ?se ''vip'' m)"
    using cur able by auto
  obtain lt where lt: "add_annotation_label ?se example_isparent (Some ?ge) ''person'' ''vip'' ?lt = Inr lt"
    and edges: "lt_edge lt = lt_edge ?lt"
    and v: "\<forall>k < length (lt_vertex ?lt). \<exists>m. current_map ?se ?ge (lt_db ?lt) (lt_vertex ?lt ! k) = Inr m
        \<and> current_map ?se ?ge (lt_db lt) (lt_vertex lt ! k) =
            Inr (if example_isparent ''_.person'' (lb_label (lt_vertex ?lt ! k)) then Some (offer ''vip'' m) else m)"
    and e: "\<forall>e \<in> set (lt_edge ?lt).
        (\<forall>v \<in> set (lt_vertex ?lt). \<forall>m. lb_id v = lb_id e \<longrightarrow> example_isparent ''_.person'' (lb_label v) \<longrightarrow>
           current_map ?se ?ge (lt_db ?lt) v = Inr m \<longrightarrow> lacks ''vip'' m \<longrightarrow>
           current_map ?se ?ge (lt_db lt) e = Inr (Some (offer ''vip'' m)))
      \<and> ((\<forall>v \<in> set (lt_vertex ?lt). \<forall>m. lb_id v = lb_id e \<longrightarrow> example_isparent ''_.person'' (lb_label v) \<longrightarrow>
           current_map ?se ?ge (lt_db ?lt) v = Inr m \<longrightarrow> \<not> lacks ''vip'' m) \<longrightarrow>
           current_map ?se ?ge (lt_db lt) e = current_map ?se ?ge (lt_db ?lt) e)"
    using annotation_offered_below[where isparent = example_isparent, OF hyps able' eids] by blast
  have n: "length (lt_vertex ?lt) = 3" by (simp add: example_labels_def)
  have vs: "current_map ?se ?ge (lt_db lt) (lt_vertex lt ! k) =
            Inr (if example_isparent ''_.person'' (lb_label (lt_vertex ?lt ! k)) then Some (offer ''vip'' None) else None)"
    if "k < 3" for k
    using v[rule_format, of k] cur[OF UnI1, OF nth_mem, of k] that n by auto
  have rows: "set (lt_edge ?lt) = {example_row 2 ''_.knows'', example_row 7 ''_.likes''}"
    "set (lt_vertex ?lt) = {example_row 1 ''_.person'', example_row 2 ''_.person.boss'', example_row 3 ''_.firm''}"
    by (simp_all add: example_labels_def)
  have ids: "lb_id (example_row l p) = l" "lb_label (example_row l p) = p" for l p by (simp_all add: example_row_def)
  have "current_map ?se ?ge (lt_db lt) (example_row 2 ''_.knows'') = Inr (Some (offer ''vip'' None))"
    using e cur[of "example_row 2 ''_.person.boss''"] unfolding rows
    by (simp add: ids lacks_def example_isparent_def)
  moreover have "current_map ?se ?ge (lt_db lt) (example_row 7 ''_.likes'') = Inr None"
    using e cur[of "example_row 7 ''_.likes''"] unfolding rows by (simp add: ids)
  ultimately show ?thesis using vs[of 1] vs[of 2] lt edges
    by (auto simp: example_labels_def example_row_def example_isparent_def offer_def)
qed

subsection \<open>Dropping an annotation\<close>

lemma without_annotation_at:
  assumes "distinct ms" "None \<notin> set ms" "k < length ms" "ms ! k = Some d"
  shows "without_annotation d ms = take k ms @ drop (Suc k) ms"
proof -
  have "ms = take k ms @ Some d # drop (Suc k) ms" using assms(3,4) by (metis id_take_nth_drop)
  moreover from this assms(1) have "Some d \<notin> set (take k ms)" "Some d \<notin> set (drop (Suc k) ms)"
    by (metis distinct_append disjoint_iff list.set_intros(1), metis distinct_append distinct.simps(2))
  moreover have "None \<notin> set (take k ms)" "None \<notin> set (drop (Suc k) ms)"
    using assms(2) by (meson in_set_takeD, meson in_set_dropD)
  ultimately have "filter (\<lambda>m. m \<noteq> None \<and> m \<noteq> Some d) (take k ms) = take k ms"
    "filter (\<lambda>m. m \<noteq> None \<and> m \<noteq> Some d) (drop (Suc k) ms) = drop (Suc k) ms"
    "without_annotation d ms = filter (\<lambda>m. m \<noteq> None \<and> m \<noteq> Some d) (take k ms @ Some d # drop (Suc k) ms)"
    by (simp_all add: without_annotation_def filter_id_conv) (metis not_None_eq)+
  then show ?thesis by simp
qed

lemma covers_without:
  assumes "distinct ms" "None \<notin> set ms" "k < length ms" "ms ! k = Some d" "covers ms bits"
  shows "covers (without_annotation d ms) bits"
proof -
  have "j div 8 < length bits" if "j < length ms - 1" for j
  proof (cases "j < k")
    case True
    then have "ms ! j \<noteq> None" using assms(2,3) by (metis nth_mem order.strict_trans)
    then show ?thesis using assms(5) True assms(3) by (simp add: covers_def)
  next
    case False
    have s: "Suc j < length ms" using that by simp
    then have "ms ! Suc j \<noteq> None" using assms(2) by (metis nth_mem)
    then have "Suc j div 8 < length bits" using assms(5) s by (simp add: covers_def)
    moreover have "j div 8 \<le> Suc j div 8" by (simp add: div_le_mono)
    ultimately show ?thesis by linarith
  qed
  then show ?thesis unfolding covers_def without_annotation_at[OF assms(1-4)] using assms(3) by simp
qed

text \<open>What the names read back of a bit set are, once the map in force is known.\<close>

lemma ported_with_map:
  assumes "sg g = Some ge" "OidIsValid (gc_annot_schema_phys_map ge)" "OidIsValid (gc_annot_schema_tbl ge)"
    "schema_ready se ge db" "map_of_row se ge db row = Some ms" "lc_annotation_map lab = lb_annotation_map row"
    "OidIsValid (lc_annotations_tbl lab)" "ItemPointerIsValid (pm_a_itemptr r)"
    "fetch_item (se_api se) db (lc_annotations_tbl lab, pm_a_itemptr r) = Some (Entity h)" "covers ms (bitset_bits h)"
  shows "\<exists>ported. ported_annotations (se_api se) (se_array_of se) sg db g (lb_id row) lab r = Inr ported
    \<and> names_of ported = annotated ms (bitset_bits h)"
proof -
  let ?m = "schema_of (se_array_of se) (fetch_item (se_api se) db) (gc_annot_schema_phys_map ge) (gc_annot_schema_tbl ge) (lb_id row)"
  have "checked_annotation_map (se_api se) (se_array_of se) sg db g (lb_id row) = Inr ?m"
    using assms(1-4) by (simp add: checked_annotation_map_def schema_ready_def latest_schema_of)
  moreover have "(case ?m of None \<Rightarrow> lc_annotation_map lab | Some m \<Rightarrow> Some m) = Some ms"
    using assms(5,6) by (simp add: map_of_row_def split: option.splits)
  ultimately have "ported_annotations (se_api se) (se_array_of se) sg db g (lb_id row) lab r =
      sum_bind (extract_annotations ms 0 (bitset_bits h)) (\<lambda>extracted. Inr (if extracted = [] then None else Some extracted))"
    using assms(7,8) by (simp add: ported_annotations_def read_item_fetch[OF assms(9)] Let_def bitset_bits_def)
  then show ?thesis using extracted_names[OF assms(10)] by simp
qed

text \<open>C17. Dropping the annotation at position \<open>k\<close> from a label moves the names behind it one
  position down.  Nothing outside the two relations of the schema changes; the bit sets of the vertices
  in particular stay byte for byte.  So for every vertex of the label with a stored bit set, the
  annotations read from it before are the names whose bits are set, and those read from the same bit
  set afterwards are shifted: a set bit at \<open>k\<close>, which stood for the dropped name, stands for the next
  name, and so on, so vertices have annotations that nobody gave them.  The reader is that of
  \<open>set_vertex_label\<close>; the bit set has a byte for every name of the old map, and the label cache has the
  row of the label as it is before, or after, the drop.\<close>
theorem dropped_annotation_shifts:
  assumes "schema_ready se ge db" "arrays_ok se" "has_room db (gc_annot_schema_tbl ge)" "label_slot_ok (lb_id row)"
    "current_map se ge db row = Inr (Some ms)" "distinct ms" "None \<notin> set ms" "k < length ms" "ms ! k = Some d"
    "length (se_array_bytes se (without_annotation d ms)) \<le> 8000"
    "target = lb_label row \<or> \<not> np_other_parent_owns_annotation rows (lb_label row) label d"
    "sg g = Some ge" "OidIsValid (gc_annot_schema_phys_map ge)" "OidIsValid (gc_annot_schema_tbl ge)"
    "OidIsValid (lc_annotations_tbl lab)" "lc_annotations_tbl lab \<noteq> gc_annot_schema_phys_map ge"
    "lc_annotations_tbl lab \<noteq> gc_annot_schema_tbl ge" "lc_annotation_map lab = lb_annotation_map row"
  shows "\<exists>row' db' ms'. np_apply_drop_annotation_to_tuple se ge rows target label db row d = Inr (Some row', db')
    \<and> lb_id row' = lb_id row \<and> current_map se ge db' row' = Inr (Some ms')
    \<and> (\<forall>rel. rel \<noteq> gc_annot_schema_phys_map ge \<longrightarrow> rel \<noteq> gc_annot_schema_tbl ge \<longrightarrow> db' rel = db rel)
    \<and> (\<forall>r h. ItemPointerIsValid (pm_a_itemptr r) \<longrightarrow>
        fetch_item (se_api se) db (lc_annotations_tbl lab, pm_a_itemptr r) = Some (Entity h) \<longrightarrow>
        covers ms (bitset_bits h) \<longrightarrow>
        fetch_item (se_api se) db' (lc_annotations_tbl lab, pm_a_itemptr r) = Some (Entity h)
        \<and> (\<exists>before after.
            ported_annotations (se_api se) (se_array_of se) sg db g (lb_id row) lab r = Inr before
          \<and> ported_annotations (se_api se) (se_array_of se) sg db' g (lb_id row)
              (lab \<lparr> lc_annotation_map := lb_annotation_map row' \<rparr>) r = Inr after
          \<and> names_of before = {s. \<exists>j < length ms. ms ! j = Some s \<and> annotation_bit (bitset_bits h) j}
          \<and> names_of after = {s. \<exists>j. annotation_bit (bitset_bits h) j
              \<and> (j < k \<and> ms ! j = Some s \<or> k \<le> j \<and> Suc j < length ms \<and> ms ! Suc j = Some s)}))"
proof -
  let ?ms = "without_annotation d ms"
  have m: "map_of_row se ge db row = Some ms" using assms(5) current_map_of_row[OF assms(1)] by simp
  have "Some d \<in> set ms" using assms(8,9) by (metis nth_mem)
  have id: "id_ok (scast (lb_id row))" using assms(4) by (simp add: label_slot_ok_def)
  from insert_annotation_schema_at[OF assms(1)[unfolded schema_ready_def] assms(2,3,4,10), of "se_fxid se" "se_cid se"]
  obtain db' where db': "insert_annotation_schema (se_api se) (se_array_bytes se) (se_fxid se) (se_cid se) db (lb_id row)
        ?ms (gc_annot_schema_tbl ge) (gc_annot_schema_phys_map ge) = Inr db'" "schema_ready se ge db'"
      "schema_of (se_array_of se) (fetch_item (se_api se) db') (gc_annot_schema_phys_map ge) (gc_annot_schema_tbl ge)
        (lb_id row) = Some ?ms"
    using id unfolding schema_ready_def by auto
  define row' where "row' = row \<lparr> lb_annotation_map := Some ?ms \<rparr>"
  have run: "np_apply_drop_annotation_to_tuple se ge rows target label db row d = Inr (Some row', db')"
    using assms(5,11) \<open>Some d \<in> set ms\<close> db'(1) by (auto simp: np_apply_drop_annotation_to_tuple_def row'_def Let_def)
  have row': "lb_id row' = lb_id row" by (simp add: row'_def)
  have m': "map_of_row se ge db' row' = Some ?ms" using db'(3) row' by (simp add: map_of_row_def)
  have other: "db' rel = db rel" if "rel \<noteq> gc_annot_schema_phys_map ge" "rel \<noteq> gc_annot_schema_tbl ge" for rel
    by (rule insert_annotation_schema_other[OF db'(1) that(2,1)])
  have "j < length ?ms \<and> ?ms ! j = Some s \<longleftrightarrow>
      j < k \<and> ms ! j = Some s \<or> k \<le> j \<and> Suc j < length ms \<and> ms ! Suc j = Some s" for j s
    unfolding without_annotation_at[OF assms(6-9)] using assms(8) by (auto simp: nth_append)
  then have shifted: "annotated ?ms bits =
      {s. \<exists>j. annotation_bit bits j \<and> (j < k \<and> ms ! j = Some s \<or> k \<le> j \<and> Suc j < length ms \<and> ms ! Suc j = Some s)}" for bits
    by (auto simp: annotated_def)
  have read: "fetch_item (se_api se) db' (lc_annotations_tbl lab, pm_a_itemptr r) = Some (Entity h)
      \<and> (\<exists>before after.
          ported_annotations (se_api se) (se_array_of se) sg db g (lb_id row) lab r = Inr before
        \<and> ported_annotations (se_api se) (se_array_of se) sg db' g (lb_id row)
              (lab \<lparr> lc_annotation_map := lb_annotation_map row' \<rparr>) r = Inr after
        \<and> names_of before = annotated ms (bitset_bits h) \<and> names_of after = annotated ?ms (bitset_bits h))"
    if ptr: "ItemPointerIsValid (pm_a_itemptr r)" and cov: "covers ms (bitset_bits h)"
      and h: "fetch_item (se_api se) db (lc_annotations_tbl lab, pm_a_itemptr r) = Some (Entity h)" for r h
  proof -
    have h': "fetch_item (se_api se) db' (lc_annotations_tbl lab, pm_a_itemptr r) = Some (Entity h)"
      using h other[OF assms(16,17)] by (simp add: fetch_item_def split: if_splits)
    let ?lab = "lab \<lparr> lc_annotation_map := lb_annotation_map row' \<rparr>"
    have lab: "lc_annotation_map ?lab = lb_annotation_map row'" "OidIsValid (lc_annotations_tbl ?lab)"
      using assms(15) by simp_all
    have "fetch_item (se_api se) db' (lc_annotations_tbl ?lab, pm_a_itemptr r) = Some (Entity h)" using h' by simp
    from ported_with_map[where sg = sg and g = g, OF assms(12-14) db'(2) m' lab ptr this covers_without[OF assms(6-9) cov]]
    have "\<exists>after. ported_annotations (se_api se) (se_array_of se) sg db' g (lb_id row) ?lab r = Inr after
        \<and> names_of after = annotated ?ms (bitset_bits h)" unfolding row' .
    then show ?thesis
      using ported_with_map[where sg = sg and g = g, OF assms(12-14,1) m assms(18,15) ptr h cov] h' by blast
  qed
  have before: "annotated ms bits = {s. \<exists>j < length ms. ms ! j = Some s \<and> annotation_bit bits j}" for bits
    by (auto simp: annotated_def)
  show ?thesis
    using run row' other read by (intro exI[of _ row'] exI[of _ db'] exI[of _ ?ms])
      (simp add: current_map_of_row[OF db'(2)] m' shifted before)
qed

text \<open>A vertex with a bit set of one byte, in which the first bit is set.\<close>

definition example_bitset :: NPEntityTupleHeaderData where
  "example_bitset = new_entity 900 0 InvalidItemPointer 1 (varlena_header (4 + length [1 :: byte]) @ [1]) None"

definition example_bitsets :: "list_page db" where
  "example_bitsets = (\<lambda>_. [])(30 := [Some [Entity example_bitset]])"

lemma example_bitset_bits: "bitset_bits example_bitset = [1]"
  using bitset_stored(1)[of "[1]"] by (simp add: bitset_bits_def example_bitset_def new_entity_def)

lemma example_bitset_size: "item_fits (Entity example_bitset)"
  unfolding example_bitset_def by (rule bitset_stored(2)) simp

lemma example_bitsets_ready: "schema_ready example_schema_env example_graph_row example_bitsets"
proof -
  have "db_ok list_page_api example_bitsets"
    using example_bitset_size maxalign_ge[of "SizeOfNPEntityTupleHeader + length (en_serialized_entity example_bitset)"]
    by (auto simp: db_ok_def page_ok_def dense_def list_page_api_def used_space_def item_fits_def
        SizeOfNPEntityTupleHeader_def example_bitsets_def split: if_splits)
  then have "store_ok list_page_api example_bitsets" by (simp add: store_ok_def)
  then show ?thesis
    by (simp add: schema_ready_def schema_store_def example_schema_env_def example_graph_row_def
        map_relation_def slot_relation_def fetch_item_def flip: example_bitsets_def)
      (simp add: example_bitsets_def)
qed

lemma dropped_annotation_shifts_witness:
  "\<exists>row db before after. np_apply_drop_annotation_to_tuple example_schema_env example_graph_row [] ''_.person'' ''person''
      example_bitsets (example_row 1 ''_.person'' \<lparr> lb_annotation_map := Some [Some ''vip'', Some ''fired''] \<rparr>) ''vip'' =
      Inr (Some row, db)
    \<and> ported_annotations list_page_api example_array_of (\<lambda>_. Some example_graph_row) example_bitsets 1 1
        (example_vertex_label \<lparr> lc_annotations_tbl := 30, lc_annotation_map := Some [Some ''vip'', Some ''fired''] \<rparr>)
        (empty_pad \<lparr> pm_a_itemptr := \<lparr> ip_blkid = 0, ip_posid = 1 \<rparr> \<rparr>) = Inr before
    \<and> ported_annotations list_page_api example_array_of (\<lambda>_. Some example_graph_row) db 1 1
        (example_vertex_label \<lparr> lc_annotations_tbl := 30, lc_annotation_map := lb_annotation_map row \<rparr>)
        (empty_pad \<lparr> pm_a_itemptr := \<lparr> ip_blkid = 0, ip_posid = 1 \<rparr> \<rparr>) = Inr after
    \<and> names_of before = {''vip''} \<and> names_of after = {''fired''}"
proof -
  let ?ms = "[Some ''vip'', Some ''fired'']" and ?r = "empty_pad \<lparr> pm_a_itemptr := \<lparr> ip_blkid = 0, ip_posid = 1 \<rparr> \<rparr>"
  let ?row = "example_row 1 ''_.person'' \<lparr> lb_annotation_map := Some ?ms \<rparr>"
  let ?lab = "example_vertex_label \<lparr> lc_annotations_tbl := 30, lc_annotation_map := Some ?ms \<rparr>"
  let ?se = example_schema_env and ?ge = example_graph_row
  have se: "se_api ?se = list_page_api" "se_array_of ?se = example_array_of" by (simp_all add: example_schema_env_def)
  have id: "lb_id ?row = 1" by (simp add: example_row_def)
  have cur: "current_map ?se ?ge example_bitsets ?row = Inr (Some ?ms)"
    unfolding current_map_of_row[OF example_bitsets_ready]
    by (simp add: map_of_row_def schema_of_def fetch_item_def example_bitsets_def example_graph_row_def)
  have room: "has_room example_bitsets (gc_annot_schema_tbl ?ge)"
    by (simp add: has_room_def example_bitsets_def example_graph_row_def)
  have slot: "label_slot_ok (lb_id ?row)"
    by (simp add: example_row_def label_slot_ok_def id_ok_def slot_on_page_def)
  have small: "length (se_array_bytes ?se (without_annotation ''vip'' ?ms)) \<le> 8000"
    by (simp add: without_annotation_def example_schema_env_def example_array_bytes_def enc_name_def)
  have dist: "distinct ?ms" "None \<notin> set ?ms" "(0 :: nat) < length ?ms" "?ms ! 0 = Some ''vip''" by simp_all
  have top: "''_.person'' = lb_label ?row \<or> \<not> np_other_parent_owns_annotation [] (lb_label ?row) ''person'' ''vip''"
    by (simp add: example_row_def)
  have rels: "OidIsValid (gc_annot_schema_phys_map ?ge)" "OidIsValid (gc_annot_schema_tbl ?ge)"
    "OidIsValid (lc_annotations_tbl ?lab)" "lc_annotations_tbl ?lab \<noteq> gc_annot_schema_phys_map ?ge"
    "lc_annotations_tbl ?lab \<noteq> gc_annot_schema_tbl ?ge" "lc_annotation_map ?lab = lb_annotation_map ?row"
    by (simp_all add: example_graph_row_def example_vertex_label_def OidIsValid_def InvalidOid_def)
  have h: "ItemPointerIsValid (pm_a_itemptr ?r)"
    "fetch_item list_page_api example_bitsets (lc_annotations_tbl ?lab, pm_a_itemptr ?r) = Some (Entity example_bitset)"
    "covers ?ms (bitset_bits example_bitset)"
    by (simp_all add: ItemPointerIsValid_def fetch_item_def example_bitsets_def list_page_api_def covers_def
        example_bitset_bits)
  have set: "{s :: string. \<exists>j < length ?ms. ?ms ! j = Some s \<and> annotation_bit [1] j} = {''vip''}"
    "{s :: string. \<exists>j. annotation_bit [1] j \<and> (j < 0 \<and> ?ms ! j = Some s
      \<or> 0 \<le> j \<and> Suc j < length ?ms \<and> ?ms ! Suc j = Some s)} = {''fired''}"
    by (auto simp: annotation_bit_def less_Suc_eq intro!: exI[of _ 0])
  obtain row' db' ms' where run: "np_apply_drop_annotation_to_tuple ?se ?ge [] ''_.person'' ''person''
      example_bitsets ?row ''vip'' = Inr (Some row', db')"
    and all: "\<forall>r h. ItemPointerIsValid (pm_a_itemptr r) \<longrightarrow>
        fetch_item (se_api ?se) example_bitsets (lc_annotations_tbl ?lab, pm_a_itemptr r) = Some (Entity h) \<longrightarrow>
        covers ?ms (bitset_bits h) \<longrightarrow>
        fetch_item (se_api ?se) db' (lc_annotations_tbl ?lab, pm_a_itemptr r) = Some (Entity h)
        \<and> (\<exists>before after.
            ported_annotations (se_api ?se) (se_array_of ?se) (\<lambda>_. Some ?ge) example_bitsets 1 (lb_id ?row) ?lab r = Inr before
          \<and> ported_annotations (se_api ?se) (se_array_of ?se) (\<lambda>_. Some ?ge) db' 1 (lb_id ?row)
              (?lab \<lparr> lc_annotation_map := lb_annotation_map row' \<rparr>) r = Inr after
          \<and> names_of before = {s. \<exists>j < length ?ms. ?ms ! j = Some s \<and> annotation_bit (bitset_bits h) j}
          \<and> names_of after = {s. \<exists>j. annotation_bit (bitset_bits h) j
              \<and> (j < 0 \<and> ?ms ! j = Some s \<or> 0 \<le> j \<and> Suc j < length ?ms \<and> ?ms ! Suc j = Some s)})"
    using dropped_annotation_shifts[where sg = "\<lambda>_. Some ?ge" and g = 1,
        OF example_bitsets_ready example_arrays_ok room slot cur dist small top refl rels]
    by (elim exE conjE) (rule that)
  from all[unfolded se id, rule_format, OF h] obtain before after where
    p: "ported_annotations list_page_api example_array_of (\<lambda>_. Some ?ge) example_bitsets 1 1 ?lab ?r = Inr before"
      "ported_annotations list_page_api example_array_of (\<lambda>_. Some ?ge) db' 1 1
         (?lab \<lparr> lc_annotation_map := lb_annotation_map row' \<rparr>) ?r = Inr after"
    and n: "names_of before = {s. \<exists>j < length ?ms. ?ms ! j = Some s \<and> annotation_bit [1] j}"
      "names_of after = {s. \<exists>j. annotation_bit [1] j \<and> (j < 0 \<and> ?ms ! j = Some s
        \<or> 0 \<le> j \<and> Suc j < length ?ms \<and> ?ms ! Suc j = Some s)}"
    unfolding example_bitset_bits by (elim exE conjE) (rule that)
  have lab: "?lab \<lparr> lc_annotation_map := m \<rparr> = example_vertex_label \<lparr> lc_annotations_tbl := 30, lc_annotation_map := m \<rparr>" for m
    by simp
  show ?thesis using run p[unfolded lab] n[unfolded set] by blast
qed

end
