(* ===== verification/Np_Label_Path.thy ===== *)
theory Np_Label_Path
  imports Np_Label_Annot
begin

text \<open>
  Renaming and dropping structural labels and finding the label that an entity moves to
  (\<open>src/src/backend/dml/dml_labels.c\<close>).  A label is a path of names from the root \<open>_\<close>; a rename or a
  drop rewrites the paths of the catalog and leaves the tables of the entities where they are.  The
  parser of the \<open>ltree\<close> extension is a parameter, \<open>ltree_ok\<close>, the texts it accepts.
\<close>

subsection \<open>Rewriting a path\<close>

definition path_tokens :: "string \<Rightarrow> string list" where
  "path_tokens path = take 256 (strtok_dots path)"

definition append_piece :: "string \<Rightarrow> string \<Rightarrow> string" where
  "append_piece new_path piece = (if new_path \<noteq> [] then new_path @ ''.'' else new_path) @ piece"

text \<open>Only the first token that matches is left out; the flag tells that it was the last of all.\<close>

fun drop_loop :: "string \<Rightarrow> string list \<Rightarrow> bool \<times> bool \<times> string \<Rightarrow> bool \<times> bool \<times> string" where
  "drop_loop label_str [] st = st"
| "drop_loop label_str (token # tokens) (modified, is_exact, new_path) =
     (if token = label_str \<and> \<not> modified then drop_loop label_str tokens (True, tokens = [], new_path)
      else drop_loop label_str tokens (modified, is_exact, append_piece new_path token))"

definition drop_token_of_row :: "string \<Rightarrow> label_row \<Rightarrow> label_row" where
  "drop_token_of_row label_str row =
     (case drop_loop label_str (path_tokens (lb_label row)) (False, False, []) of
        (modified, is_exact, new_path) \<Rightarrow>
          let new_path = (if new_path = [] then ''_'' else new_path)
          in if modified
             then row \<lparr> lb_label := new_path, lb_is_primary := (if is_exact then False else lb_is_primary row) \<rparr>
             else row)"

definition rename_path :: "string \<Rightarrow> string \<Rightarrow> string \<Rightarrow> string" where
  "rename_path old_label new_label path =
     foldl (\<lambda>new_path piece. append_piece new_path (if piece = old_label then new_label else piece)) []
       (path_tokens path)"

definition np_ltree_path_has_token :: "string \<Rightarrow> string \<Rightarrow> bool" where
  "np_ltree_path_has_token path token \<longleftrightarrow> token \<in> set (strtok_dots path)"

subsection \<open>Dropping a label\<close>

text \<open>Neither routine tells the caches.\<close>

definition drop_vlabel :: "graph_cache_data option \<Rightarrow> string \<Rightarrow> 'p label_tables \<Rightarrow> store_error + 'p label_tables" where
  "drop_vlabel graph label_str lt = (case graph of
     None \<Rightarrow> Inl (Raised ''Graph not found'')
   | Some _ \<Rightarrow> Inr (lt \<lparr> lt_vertex := map (drop_token_of_row label_str) (lt_vertex lt),
       lt_catalog := remove_from_label_catalog (lt_catalog lt) label_str CHR ''s'' \<rparr>))"

definition drop_elabel :: "graph_cache_data option \<Rightarrow> string \<Rightarrow> 'p label_tables \<Rightarrow> store_error + 'p label_tables" where
  "drop_elabel graph label_str lt = (case graph of
     None \<Rightarrow> Inl (Raised ''Graph not found'')
   | Some _ \<Rightarrow> Inr (lt \<lparr> lt_edge := map (drop_token_of_row label_str) (lt_edge lt),
       lt_catalog := remove_from_label_catalog (lt_catalog lt) label_str CHR ''s'' \<rparr>))"

subsection \<open>Renaming a label\<close>

text \<open>The scan that rewrites the rows; \<open>invalidate\<close> is told the id of each row that changes.\<close>

fun rename_rows ::
  "(string \<Rightarrow> bool) \<Rightarrow> string \<Rightarrow> string \<Rightarrow> (32 word \<Rightarrow> 'c \<Rightarrow> 'c) \<Rightarrow> label_row list \<Rightarrow> 'c
    \<Rightarrow> store_error + (label_row list \<times> 'c)" where
  "rename_rows ltree_ok old_label new_label invalidate [] ca = Inr ([], ca)"
| "rename_rows ltree_ok old_label new_label invalidate (row # rows) ca =
     (if old_label \<in> set (path_tokens (lb_label row)) then
        let new_path = rename_path old_label new_label (lb_label row)
        in if \<not> ltree_ok new_path then Inl (Raised ''ltree syntax error'')
           else sum_bind (rename_rows ltree_ok old_label new_label invalidate rows (invalidate (lb_id row) ca))
             (\<lambda>(rows, ca). Inr (row \<lparr> lb_label := new_path \<rparr> # rows, ca))
      else sum_bind (rename_rows ltree_ok old_label new_label invalidate rows ca)
        (\<lambda>(rows, ca). Inr (row # rows, ca)))"

text \<open>The row of the name, the first one that matches.\<close>

fun rename_in_catalog :: "string \<Rightarrow> string \<Rightarrow> label_catalog \<Rightarrow> label_catalog" where
  "rename_in_catalog old_label new_label [] = []"
| "rename_in_catalog old_label new_label (row # rows) =
     (if fst row = old_label then (new_label, snd row) # rows
      else row # rename_in_catalog old_label new_label rows)"

definition label_arguments :: "string \<Rightarrow> string \<Rightarrow> store_error option" where
  "label_arguments old_label new_label =
     (if old_label = [] \<or> new_label = [] then Some (Raised ''label must not be empty'')
      else if CHR ''.'' \<in> set old_label \<or> CHR ''.'' \<in> set new_label then Some (Raised ''labels cannot contain dots'')
      else if old_label = ''_'' \<or> new_label = ''_'' then Some (Raised ''cannot rename the root label'')
      else None)"

definition rename_vlabel ::
  "(string \<Rightarrow> bool) \<Rightarrow> graph_cache_data option \<Rightarrow> string \<Rightarrow> string \<Rightarrow> 'p label_tables \<times> 'd caches
    \<Rightarrow> store_error + ('p label_tables \<times> 'd caches)" where
  "rename_vlabel ltree_ok graph old_label new_label st =
     (case label_arguments old_label new_label of
        Some e \<Rightarrow> Inl e
      | None \<Rightarrow> (case graph of
          None \<Rightarrow> Inl (Raised ''graph does not exist'')
        | Some graph \<Rightarrow>
            let lt = fst st in
            if old_label = new_label then Inr st
            else if new_label \<in> fst ` set (lt_catalog lt) then Inl (Raised ''label already exists'')
            else (case find (\<lambda>row. fst row = old_label) (lt_catalog lt) of
                None \<Rightarrow> Inl (Raised ''vlabel does not exist'')
              | Some row \<Rightarrow>
                  if snd row \<noteq> CHR ''s'' then Inl (Raised ''vlabel does not exist'')
                  else sum_bind (rename_rows ltree_ok old_label new_label
                      (invalidate_vertex_label_graph_id_label_id_cache_entry (gc_id graph)) (lt_vertex lt) (snd st))
                    (\<lambda>(rows, ca). Inr (lt \<lparr> lt_vertex := rows,
                        lt_catalog := rename_in_catalog old_label new_label (lt_catalog lt) \<rparr>, ca)))))"

text \<open>An edge label need not be in the catalog of names: its paths are searched.\<close>

definition rename_elabel ::
  "(string \<Rightarrow> bool) \<Rightarrow> graph_cache_data option \<Rightarrow> string \<Rightarrow> string \<Rightarrow> 'p label_tables \<times> 'd caches
    \<Rightarrow> store_error + ('p label_tables \<times> 'd caches)" where
  "rename_elabel ltree_ok graph old_label new_label st =
     (case label_arguments old_label new_label of
        Some e \<Rightarrow> Inl e
      | None \<Rightarrow> (case graph of
          None \<Rightarrow> Inl (Raised ''graph does not exist'')
        | Some graph \<Rightarrow>
            let lt = fst st in
            if old_label = new_label then Inr st
            else if \<not> list_ex (\<lambda>row. np_ltree_path_has_token (lb_label row) old_label) (lt_edge lt)
            then Inl (Raised ''elabel does not exist'')
            else if list_ex (\<lambda>row. np_ltree_path_has_token (lb_label row) new_label) (lt_edge lt)
            then Inl (Raised ''label already exists'')
            else sum_bind (rename_rows ltree_ok old_label new_label
                (invalidate_edge_label_graph_id_label_id_cache_entry (gc_id graph)) (lt_edge lt) (snd st))
              (\<lambda>(rows, ca). Inr (lt \<lparr> lt_edge := rows,
                  lt_catalog := rename_in_catalog old_label new_label (lt_catalog lt) \<rparr>, ca))))"

subsection \<open>The label an entity moves to\<close>

definition merge_and_dedupe_text_arrays ::
  "string option list option \<Rightarrow> string option list option \<Rightarrow> string option list option" where
  "merge_and_dedupe_text_arrays arr1 arr2 = (case (arr1, arr2) of
     (None, _) \<Rightarrow> arr2
   | (_, None) \<Rightarrow> arr1
   | (Some d1, Some d2) \<Rightarrow>
       let d_out = foldl (\<lambda>d_out s2. if s2 \<in> set d_out then d_out else d_out @ [s2])
             (filter (\<lambda>m. m \<noteq> None) d1) (filter (\<lambda>m. m \<noteq> None) d2)
       in if d_out = [] then None else Some d_out)"

text \<open>The scan for a path: the id of the first row, or \<open>-1\<close>.\<close>

definition find_label_id :: "label_row list \<Rightarrow> string \<Rightarrow> 32 word" where
  "find_label_id rows path = (case find (\<lambda>row. lb_label row = path) rows of None \<Rightarrow> -1 | Some row \<Rightarrow> lb_id row)"

text \<open>The statements that create a label, by name or by merging two, are parameters that give the new rows.\<close>

definition resolve_or_create_target_label ::
  "(string \<Rightarrow> label_row list \<Rightarrow> label_row list) \<Rightarrow> (32 word \<Rightarrow> 32 word \<Rightarrow> label_row list \<Rightarrow> label_row list)
    \<Rightarrow> 32 word \<Rightarrow> string \<Rightarrow> string \<Rightarrow> label_row list \<Rightarrow> 32 word \<times> label_row list" where
  "resolve_or_create_target_label create_vlabel_internal merge_vlabels_internal current_label_id new_label_str
      raw_current_ltree rows =
     (let base_ltree_str = ''_.'' @ new_label_str;
          rows = (if find_label_id rows base_ltree_str = -1 then create_vlabel_internal new_label_str rows else rows);
          base_label_id = find_label_id rows base_ltree_str
      in if raw_current_ltree \<noteq> ''_'' \<and> new_label_str \<in> set (strtok_dots raw_current_ltree)
         then (current_label_id, rows)
         else
           let merged_ltree_str = (if raw_current_ltree = ''_'' then base_ltree_str
                 else raw_current_ltree @ ''.'' @ new_label_str);
               rows = (if find_label_id rows merged_ltree_str = -1
                 then merge_vlabels_internal current_label_id base_label_id rows else rows)
           in (find_label_id rows merged_ltree_str, rows))"

definition resolve_reduced_target_label ::
  "(string \<Rightarrow> label_row list \<Rightarrow> 32 word \<times> label_row list) \<Rightarrow> 32 word \<Rightarrow> string \<Rightarrow> string \<Rightarrow> label_row list
    \<Rightarrow> 32 word \<times> label_row list" where
  "resolve_reduced_target_label create_vlabel_from_path_internal current_label_id label_to_remove raw_current_ltree rows =
     (case drop_loop label_to_remove (strtok_dots raw_current_ltree) (False, False, []) of
        (removed, _, new_path) \<Rightarrow>
          if \<not> removed then (current_label_id, rows)
          else
            let new_path = (if new_path = [] then ''_'' else new_path)
            in if find_label_id rows new_path = -1 then create_vlabel_from_path_internal new_path rows
               else (find_label_id rows new_path, rows))"

text \<open>The edge labels: the target is made here, with the annotations of both labels.  \<open>forge\<close> stands for the
  statements that create its tables and enter it; it is given the path and the annotations.\<close>

definition resolve_or_create_target_edge_label ::
  "(string \<Rightarrow> label_row list \<Rightarrow> 32 word \<times> label_row list)
    \<Rightarrow> (string \<Rightarrow> string option list option \<Rightarrow> label_row list \<Rightarrow> 32 word \<times> label_row list)
    \<Rightarrow> (32 word \<Rightarrow> label_row list \<Rightarrow> string option list option) \<Rightarrow> 32 word \<Rightarrow> string \<Rightarrow> string \<Rightarrow> label_row list
    \<Rightarrow> 32 word \<times> label_row list" where
  "resolve_or_create_target_edge_label create_elabel_internal forge annotation_map current_label_id new_label_str
      raw_current_ltree rows =
     (let base_ltree_str = ''_.'' @ new_label_str;
          (base_label_id, rows) =
            (if find_label_id rows base_ltree_str = -1 then create_elabel_internal new_label_str rows
             else (find_label_id rows base_ltree_str, rows))
      in if raw_current_ltree \<noteq> ''_'' \<and> new_label_str \<in> set (strtok_dots raw_current_ltree)
         then (current_label_id, rows)
         else
           let merged_ltree_str = (if raw_current_ltree = ''_'' then base_ltree_str
                 else raw_current_ltree @ ''.'' @ new_label_str)
           in if find_label_id rows merged_ltree_str = -1
              then forge merged_ltree_str (merge_and_dedupe_text_arrays (annotation_map current_label_id rows)
                (annotation_map base_label_id rows)) rows
              else (find_label_id rows merged_ltree_str, rows))"

text \<open>Here every token that matches is left out.\<close>

definition resolve_target_edge_label_for_removal ::
  "(string \<Rightarrow> string option list option \<Rightarrow> label_row list \<Rightarrow> 32 word \<times> label_row list)
    \<Rightarrow> (32 word \<Rightarrow> label_row list \<Rightarrow> string option list option) \<Rightarrow> 32 word \<Rightarrow> string \<Rightarrow> string \<Rightarrow> label_row list
    \<Rightarrow> store_error + (32 word \<times> label_row list)" where
  "resolve_target_edge_label_for_removal forge annotation_map current_label_id label_to_remove raw_current_ltree rows =
     (let tokens = strtok_dots raw_current_ltree;
          new_path = foldl append_piece [] (filter (\<lambda>token. token \<noteq> label_to_remove) tokens)
      in if label_to_remove \<notin> set tokens then Inr (current_label_id, rows)
         else if new_path = ''_'' then Inl (Raised ''Cannot remove the base structural label of an edge'')
         else if find_label_id rows new_path = -1
         then Inr (forge new_path (merge_and_dedupe_text_arrays (annotation_map current_label_id rows) None) rows)
         else Inr (find_label_id rows new_path, rows))"

subsection \<open>Identifiers of slots\<close>

definition np_tid_to_id :: "item_pointer \<Rightarrow> 32 word \<Rightarrow> 64 word" where
  "np_tid_to_id tid tuples_per_page =
     ucast (ip_blkid tid) * ucast tuples_per_page + (ucast (ip_posid tid) - 1) + 1"

lemma np_tid_to_id_inverse:
  assumes "0 < i" "0 < t" "t < 2 ^ 16" "unat i \<le> unat t * 2 ^ 32"
  shows "np_tid_to_id (np_id_to_tid i t) t = i"
proof -
  let ?b = "ip_blkid (np_id_to_tid i t)" and ?p = "ip_posid (np_id_to_tid i t)"
  have n: "unat ?b * unat t + unat ?p = unat i" by (rule id_of_slot[OF assms])
  have "np_tid_to_id (np_id_to_tid i t) t = of_nat (unat ?b * unat t + unat ?p)"
    by (simp add: np_tid_to_id_def)
  then show ?thesis by (simp only: n) simp
qed

subsection \<open>Tokens and paths\<close>

definition token_ok :: "string \<Rightarrow> bool" where
  "token_ok t \<longleftrightarrow> t \<noteq> [] \<and> CHR ''.'' \<notin> set t"

lemma strtok_from_dot:
  "CHR ''.'' \<notin> set t \<Longrightarrow> strtok_from acc (t @ CHR ''.'' # rest) =
    (if rev acc @ t = [] then strtok_from [] rest else (rev acc @ t) # strtok_from [] rest)"
  by (induction t arbitrary: acc) auto

lemma strtok_from_end:
  "CHR ''.'' \<notin> set t \<Longrightarrow> strtok_from acc t = (if rev acc @ t = [] then [] else [rev acc @ t])"
  by (induction t arbitrary: acc) auto

lemma strtok_from_tokens:
  "CHR ''.'' \<notin> set acc \<Longrightarrow> t \<in> set (strtok_from acc path) \<Longrightarrow> token_ok t"
  by (induction acc path rule: strtok_from.induct) (auto simp: token_ok_def split: if_splits)

lemma strtok_dots_tokens: "t \<in> set (strtok_dots path) \<Longrightarrow> token_ok t"
  unfolding strtok_dots_def by (rule strtok_from_tokens[of "[]"]) auto

fun join :: "string list \<Rightarrow> string" where
  "join [] = []"
| "join [t] = t"
| "join (t # u # ts) = t @ ''.'' @ join (u # ts)"

lemma strtok_join: "\<forall>t \<in> set ts. token_ok t \<Longrightarrow> strtok_dots (join ts) = ts"
  by (induction ts rule: join.induct)
    (auto simp: strtok_dots_def strtok_from_dot strtok_from_end token_ok_def)

lemma append_pieces:
  assumes "\<forall>t \<in> set ts. token_ok t"
  shows "foldl append_piece acc ts = (if ts = [] then acc else if acc = [] then join ts else acc @ ''.'' @ join ts)"
  using assms
proof (induction ts arbitrary: acc)
  case (Cons t ts)
  then have "append_piece acc t \<noteq> []" by (auto simp: append_piece_def token_ok_def)
  then have "foldl append_piece acc (t # ts) = (if ts = [] then append_piece acc t else append_piece acc t @ ''.'' @ join ts)"
    using Cons by simp
  moreover have "append_piece acc t = (if acc = [] then t else acc @ ''.'' @ t)" by (simp add: append_piece_def)
  ultimately show ?case by (cases ts; cases "acc = []") (simp_all del: foldl_Cons)
qed simp

text \<open>A path as \<open>ltree_out\<close> writes it, with no more names than the loops look at.\<close>

definition canonical :: "string \<Rightarrow> bool" where
  "canonical path \<longleftrightarrow> join (strtok_dots path) = path \<and> length (strtok_dots path) \<le> 256"

lemma canonical_tokens: "canonical path \<Longrightarrow> path_tokens path = strtok_dots path"
  by (simp add: canonical_def path_tokens_def)

definition renamed :: "string \<Rightarrow> string \<Rightarrow> string \<Rightarrow> string" where
  "renamed old_label new_label t = (if t = old_label then new_label else t)"

lemma rename_path_join:
  assumes "canonical path" "token_ok new_label"
  shows "rename_path old_label new_label path = join (map (renamed old_label new_label) (strtok_dots path))"
    "strtok_dots (rename_path old_label new_label path) = map (renamed old_label new_label) (strtok_dots path)"
    "canonical (rename_path old_label new_label path)"
proof -
  let ?ts = "map (renamed old_label new_label) (strtok_dots path)"
  have ok: "\<forall>t \<in> set ?ts. token_ok t" using assms(2) strtok_dots_tokens by (auto simp: renamed_def)
  have f: "foldl (\<lambda>new_path piece. append_piece new_path (if piece = old_label then new_label else piece)) acc ts =
      foldl append_piece acc (map (renamed old_label new_label) ts)" for acc ts
    by (simp add: foldl_map renamed_def)
  show j: "rename_path old_label new_label path = join ?ts"
    using append_pieces[OF ok, of "[]"] by (cases "?ts = []") (auto simp: rename_path_def canonical_tokens[OF assms(1)] f)
  show t: "strtok_dots (rename_path old_label new_label path) = ?ts" unfolding j by (rule strtok_join[OF ok])
  show "canonical (rename_path old_label new_label path)"
    using assms(1) by (simp add: canonical_def t) (simp add: j)
qed

lemma rename_path_fresh:
  assumes "canonical path" "old_label \<notin> set (strtok_dots path)" "token_ok new_label"
  shows "rename_path old_label new_label path = path"
proof -
  have "map (renamed old_label new_label) (strtok_dots path) = strtok_dots path"
    using assms(2) by (intro map_idI) (auto simp: renamed_def)
  then show ?thesis using assms(1) by (simp add: rename_path_join(1)[OF assms(1,3)] canonical_def)
qed

lemma rename_path_back:
  assumes "canonical path" "new_label \<notin> set (strtok_dots path)" "token_ok old_label" "token_ok new_label"
  shows "rename_path new_label old_label (rename_path old_label new_label path) = path"
proof -
  note r = rename_path_join[OF assms(1,4), of old_label]
  have "map (renamed new_label old_label) (map (renamed old_label new_label) (strtok_dots path)) = strtok_dots path"
    using assms(2) by (auto simp: renamed_def intro!: map_idI)
  then show ?thesis using assms(1) by (simp add: rename_path_join(1)[OF r(3) assms(3)] r(2) canonical_def)
qed

subsection \<open>A rename and the rename back\<close>

definition rename_row :: "string \<Rightarrow> string \<Rightarrow> label_row \<Rightarrow> label_row" where
  "rename_row old_label new_label row = row \<lparr> lb_label := rename_path old_label new_label (lb_label row) \<rparr>"

lemma rename_rows_map:
  assumes "\<forall>row \<in> set rows. canonical (lb_label row)" "token_ok new_label"
    "rename_rows ltree_ok old_label new_label invalidate rows ca = Inr (rows', ca')"
  shows "rows' = map (rename_row old_label new_label) rows"
  using assms
proof (induction rows arbitrary: ca rows')
  case (Cons row rows)
  have same: "rename_row old_label new_label row = row" if "old_label \<notin> set (path_tokens (lb_label row))"
    using that Cons.prems(1,2) by (simp add: rename_row_def rename_path_fresh canonical_tokens)
  show ?case using Cons same by (auto simp: Let_def rename_row_def split: if_splits)
qed simp

lemma rename_rows_total:
  assumes "\<forall>row \<in> set rows. ltree_ok (rename_path old_label new_label (lb_label row))"
  shows "\<exists>r. rename_rows ltree_ok old_label new_label invalidate rows ca = Inr r"
  using assms by (induction rows arbitrary: ca) (fastforce simp: Let_def)+

lemma rename_in_catalog_back:
  assumes "new_label \<notin> fst ` set cat"
  shows "rename_in_catalog new_label old_label (rename_in_catalog old_label new_label cat) = cat"
    "fst ` set (rename_in_catalog old_label new_label cat) \<subseteq> insert new_label (fst ` set cat)"
  using assms by (induction cat) auto

lemma rename_in_catalog_names:
  assumes "new_label \<noteq> old_label" "distinct (map fst cat)"
  shows "old_label \<notin> fst ` set (rename_in_catalog old_label new_label cat)"
  using assms by (induction cat) (auto simp: image_iff)

lemma rename_in_catalog_find:
  assumes "find (\<lambda>row. fst row = old_label) cat = Some row" "new_label \<notin> fst ` set cat"
  shows "find (\<lambda>row. fst row = new_label) (rename_in_catalog old_label new_label cat) = Some (new_label, snd row)"
  using assms by (induction cat) (auto split: if_splits)

text \<open>C18. A rename that succeeds replaces the name by the new one in the path of every vertex label
  and leaves everything else of the rows alone; and renaming it back restores the rows and the
  catalog of names, when the paths use registered names only and no name is registered twice.\<close>
theorem rename_vlabel_back:
  assumes "rename_vlabel ltree_ok (Some g) old_label new_label (lt, ca) = Inr (lt', ca')"
    "\<forall>row \<in> set (lt_vertex lt). canonical (lb_label row) \<and> ltree_ok (lb_label row)
       \<and> set (strtok_dots (lb_label row)) \<subseteq> insert ''_'' (fst ` set (lt_catalog lt))"
    "distinct (map fst (lt_catalog lt))"
  shows "(\<forall>k < length (lt_vertex lt). lt_vertex lt' ! k = (lt_vertex lt ! k) \<lparr> lb_label := lb_label (lt_vertex lt' ! k) \<rparr>
        \<and> strtok_dots (lb_label (lt_vertex lt' ! k)) =
            map (\<lambda>t. if t = old_label then new_label else t) (strtok_dots (lb_label (lt_vertex lt ! k))))
    \<and> (\<exists>ca''. rename_vlabel ltree_ok (Some g) new_label old_label (lt', ca') = Inr (lt, ca''))"
proof (cases "old_label = new_label")
  case True
  have "label_arguments new_label new_label = None" "lt' = lt"
    using assms(1) True by (auto simp: rename_vlabel_def split: option.split_asm)
  then show ?thesis using True by (simp add: rename_vlabel_def)
next
  case False
  let ?cat = "lt_catalog lt"
  have args: "label_arguments old_label new_label = None" "label_arguments new_label old_label = None"
    using assms(1) by (auto simp: rename_vlabel_def label_arguments_def split: if_splits)
  then have tok: "token_ok old_label" "token_ok new_label" and root: "new_label \<noteq> ''_''"
    by (auto simp: label_arguments_def token_ok_def split: if_splits)
  have new: "new_label \<notin> fst ` set ?cat"
    using assms(1) args False by (auto simp: rename_vlabel_def split: if_splits)
  obtain row where row: "find (\<lambda>row. fst row = old_label) ?cat = Some row" "snd row = CHR ''s''"
    using assms(1) args False new
    by (cases "find (\<lambda>row. fst row = old_label) ?cat") (auto simp: rename_vlabel_def split: if_splits)
  obtain rows' where r: "rename_rows ltree_ok old_label new_label
      (invalidate_vertex_label_graph_id_label_id_cache_entry (gc_id g)) (lt_vertex lt) ca = Inr (rows', ca')"
    and lt': "lt' = lt \<lparr> lt_vertex := rows', lt_catalog := rename_in_catalog old_label new_label ?cat \<rparr>"
    using assms(1) args False new row by (auto simp: rename_vlabel_def Let_def)
  have can: "\<forall>row \<in> set (lt_vertex lt). canonical (lb_label row)" using assms(2) by simp
  note rows' = rename_rows_map[OF can tok(2) r]
  have free: "\<forall>row \<in> set (lt_vertex lt). new_label \<notin> set (strtok_dots (lb_label row))"
    using assms(2) new root by blast
  have undo: "rename_row new_label old_label (rename_row old_label new_label row) = row" if "row \<in> set (lt_vertex lt)" for row
    using that can free tok by (simp add: rename_row_def rename_path_back)
  have can': "\<forall>row \<in> set rows'. canonical (lb_label row)"
    using can tok by (auto simp: rows' rename_row_def rename_path_join(3))
  have "\<forall>row \<in> set rows'. ltree_ok (rename_path new_label old_label (lb_label row))"
    using assms(2) free tok by (auto simp: rows' rename_row_def rename_path_back)
  then obtain rows'' ca'' where r': "rename_rows ltree_ok new_label old_label
      (invalidate_vertex_label_graph_id_label_id_cache_entry (gc_id g)) rows' ca' = Inr (rows'', ca'')"
    using rename_rows_total[of rows' ltree_ok new_label old_label] by (metis surj_pair)
  have "rows'' = lt_vertex lt"
    using rename_rows_map[OF can' tok(1) r'] undo by (simp add: rows' map_idI)
  moreover have "old_label \<notin> fst ` set (rename_in_catalog old_label new_label ?cat)"
    using False assms(3) by (intro rename_in_catalog_names) auto
  ultimately have "rename_vlabel ltree_ok (Some g) new_label old_label (lt', ca') = Inr (lt, ca'')"
    using args False r' row rename_in_catalog_find[OF row(1) new] rename_in_catalog_back(1)[OF new, of old_label]
    by (auto simp: rename_vlabel_def lt' Let_def)
  moreover have "lt_vertex lt' ! k = (lt_vertex lt ! k) \<lparr> lb_label := lb_label (lt_vertex lt' ! k) \<rparr>
        \<and> strtok_dots (lb_label (lt_vertex lt' ! k)) =
            map (\<lambda>t. if t = old_label then new_label else t) (strtok_dots (lb_label (lt_vertex lt ! k)))"
    if "k < length (lt_vertex lt)" for k
    using that can tok by (simp add: lt' rows' rename_row_def rename_path_join(2) renamed_def[abs_def])
  ultimately show ?thesis by blast
qed

lemma rename_vlabel_back_witness:
  "\<exists>lt ca ca'. rename_vlabel (\<lambda>_. True) (Some example_graph_row) ''person'' ''human'' (example_labels, no_caches :: unit caches) = Inr (lt, ca)
    \<and> strtok_dots (lb_label (lt_vertex lt ! 1)) = [''_'', ''human'', ''boss'']
    \<and> rename_vlabel (\<lambda>_. True) (Some example_graph_row) ''human'' ''person'' (lt, ca) = Inr (example_labels, ca')"
proof -
  have "\<exists>lt ca. rename_vlabel (\<lambda>_. True) (Some example_graph_row) ''person'' ''human'' (example_labels, no_caches :: unit caches) = Inr (lt, ca)"
    by (simp add: rename_vlabel_def label_arguments_def example_labels_def example_row_def path_tokens_def strtok_dots_def)
  then obtain lt and ca :: "unit caches"
    where run: "rename_vlabel (\<lambda>_. True) (Some example_graph_row) ''person'' ''human'' (example_labels, no_caches) = Inr (lt, ca)"
    by blast
  have paths: "\<forall>row \<in> set (lt_vertex example_labels). canonical (lb_label row) \<and> True
       \<and> set (strtok_dots (lb_label row)) \<subseteq> insert ''_'' (fst ` set (lt_catalog example_labels))"
    by (simp add: example_labels_def example_row_def canonical_def strtok_dots_def)
  have once: "distinct (map fst (lt_catalog example_labels))" by (simp add: example_labels_def)
  have rows: "1 < length (lt_vertex example_labels)" "strtok_dots (lb_label (lt_vertex example_labels ! 1)) = [''_'', ''person'', ''boss'']"
    by (simp_all add: example_labels_def example_row_def strtok_dots_def)
  have "strtok_dots (lb_label (lt_vertex lt ! 1)) =
      map (\<lambda>t. if t = ''person'' then ''human'' else t) (strtok_dots (lb_label (lt_vertex example_labels ! 1)))"
    "\<exists>ca'. rename_vlabel (\<lambda>_. True) (Some example_graph_row) ''human'' ''person'' (lt, ca) = Inr (example_labels, ca')"
    using rename_vlabel_back[OF run paths once] rows(1) by blast+
  then show ?thesis using run rows(2) by auto
qed

subsection \<open>A label dropped from the middle\<close>

lemma drop_loop_dropped:
  "drop_loop label_str tokens (True, is_exact, new_path) = (True, is_exact, foldl append_piece new_path tokens)"
  by (induction tokens arbitrary: new_path) auto

lemma drop_loop_absent:
  "label_str \<notin> set tokens \<Longrightarrow>
    drop_loop label_str tokens (False, is_exact, new_path) = (False, is_exact, foldl append_piece new_path tokens)"
  by (induction tokens arbitrary: new_path) auto

lemma drop_loop_first:
  "label_str \<notin> set pre \<Longrightarrow> drop_loop label_str (pre @ label_str # post) (False, is_exact, new_path) =
    (True, post = [], foldl append_piece new_path (pre @ post))"
  by (induction pre arbitrary: new_path) (auto simp: drop_loop_dropped)

text \<open>The effect of a drop on a row, in terms of the names of its path.\<close>

lemma drop_token_of_row_names:
  assumes "canonical (lb_label row)"
  shows "label_str \<notin> set (strtok_dots (lb_label row)) \<Longrightarrow> drop_token_of_row label_str row = row"
    "\<lbrakk>strtok_dots (lb_label row) = pre @ label_str # post; label_str \<notin> set pre; pre \<noteq> []\<rbrakk> \<Longrightarrow>
      drop_token_of_row label_str row = row \<lparr> lb_label := join (pre @ post),
        lb_is_primary := (lb_is_primary row \<and> post \<noteq> []) \<rparr>"
proof -
  show "label_str \<notin> set (strtok_dots (lb_label row)) \<Longrightarrow> drop_token_of_row label_str row = row"
    by (simp add: drop_token_of_row_def canonical_tokens[OF assms] drop_loop_absent)
  assume ts: "strtok_dots (lb_label row) = pre @ label_str # post" "label_str \<notin> set pre" "pre \<noteq> []"
  have ok: "\<forall>t \<in> set (pre @ post). token_ok t" using strtok_dots_tokens[of _ "lb_label row"] ts(1) by auto
  have "foldl append_piece [] (pre @ post) = join (pre @ post)"
    using append_pieces[OF ok, of "[]"] ts(3) by simp
  moreover have "join (pre @ post) \<noteq> []"
    using strtok_join[OF ok] ts(3) by (auto simp: strtok_dots_def)
  ultimately show "drop_token_of_row label_str row = row \<lparr> lb_label := join (pre @ post),
        lb_is_primary := (lb_is_primary row \<and> post \<noteq> []) \<rparr>"
    by (cases "post = []") (simp_all add: drop_token_of_row_def canonical_tokens[OF assms] ts(1,2) drop_loop_first)
qed

text \<open>C19. Dropping a name that stands last in the path of a label takes the name off and makes its table
  secondary.  Dropping one that stands in the middle leaves the table primary: when there is a label
  whose path is what remains, two primary tables share one path afterwards.  Nothing prevents that: the
  index on the paths of primary tables is an ordinary one.\<close>
theorem drop_vlabel_merges_paths:
  assumes "i < length (lt_vertex lt)" "j < length (lt_vertex lt)" "canonical (lb_label (lt_vertex lt ! i))"
    "canonical (lb_label (lt_vertex lt ! j))"
    "strtok_dots (lb_label (lt_vertex lt ! i)) = pre @ label # post" "label \<notin> set (pre @ post)" "pre \<noteq> []"
    "strtok_dots (lb_label (lt_vertex lt ! j)) = pre @ post"
    "lb_is_primary (lt_vertex lt ! i)" "lb_is_primary (lt_vertex lt ! j)"
  shows "\<exists>lt'. drop_vlabel (Some g) label lt = Inr lt'
    \<and> lb_label (lt_vertex lt' ! i) = lb_label (lt_vertex lt' ! j)
    \<and> lb_label (lt_vertex lt' ! j) = lb_label (lt_vertex lt ! j)
    \<and> (lb_is_primary (lt_vertex lt' ! i) \<longleftrightarrow> post \<noteq> []) \<and> lb_is_primary (lt_vertex lt' ! j)"
proof -
  have "drop_token_of_row label (lt_vertex lt ! j) = lt_vertex lt ! j"
    using drop_token_of_row_names(1)[OF assms(4)] assms(6,8) by simp
  moreover have "drop_token_of_row label (lt_vertex lt ! i) = (lt_vertex lt ! i)
      \<lparr> lb_label := join (pre @ post), lb_is_primary := (lb_is_primary (lt_vertex lt ! i) \<and> post \<noteq> []) \<rparr>"
    using drop_token_of_row_names(2)[OF assms(3,5)] assms(6,7) by simp
  moreover have "join (pre @ post) = lb_label (lt_vertex lt ! j)"
    using assms(4,8) by (simp add: canonical_def)
  ultimately show ?thesis using assms(1,2,9,10) by (simp add: drop_vlabel_def)
qed

lemma drop_vlabel_merges_paths_witness:
  "\<exists>lt. drop_vlabel (Some example_graph_row) ''person''
      (example_labels \<lparr> lt_vertex := [example_row 1 ''_.person.boss'', example_row 2 ''_.boss''] \<rparr>) = Inr lt
    \<and> lb_label (lt_vertex lt ! 0) = ''_.boss'' \<and> lb_label (lt_vertex lt ! 1) = ''_.boss''
    \<and> lb_is_primary (lt_vertex lt ! 0) \<and> lb_is_primary (lt_vertex lt ! 1)"
  using drop_vlabel_merges_paths[of 0 "example_labels \<lparr> lt_vertex := [example_row 1 ''_.person.boss'', example_row 2 ''_.boss''] \<rparr>"
      1 "[''_'']" "''person''" "[''boss'']" example_graph_row]
  by (auto simp: example_row_def example_label_row_def canonical_def strtok_dots_def)

end
