(* ===== verification/Np_Graph.thy ===== *)
theory Np_Graph
  imports Np_Label_Path
begin

text \<open>
  Moving, renaming and dropping graphs (\<open>src/src/backend/catalog/np_graph.c\<close>): the row of a
  graph in \<open>np_graph\<close> and the relations that belong to it.  The relations of PostgreSQL are a list of
  their ids, names and namespaces; what depends on a relation and goes with it is a parameter.
\<close>

subsection \<open>Relations\<close>

record pg_relation =
  rl_oid :: oid
  rl_name :: string
  rl_namespace :: oid

definition get_relname_relid :: "pg_relation list \<Rightarrow> string \<Rightarrow> oid \<Rightarrow> oid" where
  "get_relname_relid rels name nsp =
     (case find (\<lambda>r. rl_name r = name \<and> rl_namespace r = nsp) rels of None \<Rightarrow> InvalidOid | Some r \<Rightarrow> rl_oid r)"

definition get_rel_namespace :: "pg_relation list \<Rightarrow> oid \<Rightarrow> oid" where
  "get_rel_namespace rels relid =
     (case find (\<lambda>r. rl_oid r = relid) rels of None \<Rightarrow> InvalidOid | Some r \<Rightarrow> rl_namespace r)"

text \<open>\<open>%d\<close> of \<open>psprintf\<close>.\<close>

fun decimal_digits :: "nat \<Rightarrow> string" where
  "decimal_digits n = (if n < 10 then [char_of (48 + n)] else decimal_digits (n div 10) @ [char_of (48 + n mod 10)])"

declare decimal_digits.simps [simp del]

definition print_int :: "32 word \<Rightarrow> string" where
  "print_int w = (if sint w < 0 then CHR ''-'' # decimal_digits (nat (- sint w)) else decimal_digits (nat (sint w)))"

definition label_relation_name :: "string \<Rightarrow> 32 word \<Rightarrow> 32 word \<Rightarrow> string" where
  "label_relation_name prefix graph_id label_id = prefix @ print_int graph_id @ ''_'' @ print_int label_id"

subsection \<open>The state\<close>

text \<open>\<open>gs_links\<close> are the rows of the tables that list the linked lists of a vertex label.\<close>

record 'd graph_state =
  gs_tables :: "'d np_tables"
  gs_rels :: "pg_relation list"
  gs_links :: "oid \<Rightarrow> meta_row list"
  gs_caches :: "'d caches"

text \<open>The surroundings: the search path and the namespaces, the one of the extension, the objects that
  depend on a relation, and the memory that a search of the caches stores as its key.\<close>

record graph_env =
  gv_search_path :: "oid list"
  gv_namespaces :: "string \<Rightarrow> oid"
  gv_np_namespace :: oid
  gv_dependents :: "oid \<Rightarrow> oid list"
  gv_stack_key :: graph_key
  gv_old_namespace :: oid

definition resolve_namespace :: "graph_env \<Rightarrow> string option \<Rightarrow> store_error + oid" where
  "resolve_namespace gv nsp_arg = (case nsp_arg of
     None \<Rightarrow> (case gv_search_path gv of
         [] \<Rightarrow> Inl (Raised ''requires a search path when namespace is not specified'')
       | nsp # _ \<Rightarrow> Inr nsp)
   | Some nsp_str \<Rightarrow>
       if OidIsValid (gv_namespaces gv nsp_str) then Inr (gv_namespaces gv nsp_str)
       else Inl (Raised ''namespace does not exist''))"

definition search_graph ::
  "graph_env \<Rightarrow> string \<Rightarrow> oid \<Rightarrow> 'd graph_state \<Rightarrow> graph_cache_data option \<times> 'd graph_state" where
  "search_graph gv name nsp gs =
     (case search_graph_name_namespace_cache (gs_tables gs) (gv_old_namespace gv) (gv_stack_key gv) name nsp (gs_caches gs) of
        (found, ca) \<Rightarrow> (found, gs \<lparr> gs_caches := ca \<rparr>))"

subsection \<open>The relations of a graph\<close>

definition np_append_oid :: "oid list \<Rightarrow> oid \<Rightarrow> oid list" where
  "np_append_oid oids d = (if OidIsValid d then oids @ [d] else oids)"

definition np_append_named_rel :: "pg_relation list \<Rightarrow> oid \<Rightarrow> oid list \<Rightarrow> string \<Rightarrow> oid list" where
  "np_append_named_rel rels nsp oids name = np_append_oid oids (get_relname_relid rels name nsp)"

definition np_collect_linked_list_tables :: "(oid \<Rightarrow> meta_row list) \<Rightarrow> oid \<Rightarrow> oid list \<Rightarrow> oid list" where
  "np_collect_linked_list_tables meta_rows meta_oid oids =
     (if OidIsValid meta_oid then foldl np_append_oid oids (map mr_tbl (meta_rows meta_oid)) else oids)"

definition vertex_label_names :: "32 word \<Rightarrow> 32 word \<Rightarrow> string list" where
  "vertex_label_names graph_id label_id =
     [label_relation_name ''np_vertex_id_seq_'' graph_id label_id,
      label_relation_name ''np_vertex_property_dictionary_'' graph_id label_id,
      label_relation_name ''np_vertex_property_dictionary_seq_'' graph_id label_id]"

definition collect_vertex_label ::
  "graph_env \<Rightarrow> 'd graph_state \<Rightarrow> 32 word \<Rightarrow> oid list \<Rightarrow> label_row \<Rightarrow> oid list" where
  "collect_vertex_label gv gs graph_id oids row =
     (let oids = foldl np_append_oid oids [lb_tbl row, lb_phys_map row, lb_linked_list_meta row,
            lb_linked_list_seq row, lb_arraylist row];
          oids = (case lb_annotations_tbl row of None \<Rightarrow> oids | Some t \<Rightarrow> np_append_oid oids t);
          oids = np_collect_linked_list_tables (gs_links gs) (lb_linked_list_meta row) oids
      in foldl (np_append_named_rel (gs_rels gs) (gv_np_namespace gv)) oids (vertex_label_names graph_id (lb_id row)))"

definition collect_edge_label ::
  "graph_env \<Rightarrow> 'd graph_state \<Rightarrow> 32 word \<Rightarrow> oid list \<Rightarrow> label_row \<Rightarrow> oid list" where
  "collect_edge_label gv gs graph_id oids row =
     (let oids = foldl np_append_oid oids [lb_tbl row, lb_phys_map row];
          oids = (case lb_annotations_tbl row of None \<Rightarrow> oids | Some t \<Rightarrow> np_append_oid oids t)
      in np_append_named_rel (gs_rels gs) (gv_np_namespace gv) oids
           (label_relation_name ''np_edge_id_seq_'' graph_id (lb_id row)))"

text \<open>The catalogs of labels are those of the graph; a graph without them cannot be collected.\<close>

definition np_collect_graph_namespace_rels ::
  "graph_env \<Rightarrow> 'd graph_state \<Rightarrow> graph_cache_data \<Rightarrow> store_error + oid list" where
  "np_collect_graph_namespace_rels gv gs graph =
     (case (nt_vertex_label (gs_tables gs) (gc_id graph), nt_edge_label (gs_tables gs) (gc_id graph)) of
        (Some v_rows, Some e_rows) \<Rightarrow>
          let oids = foldl np_append_oid [] [gc_vertex_id_seq graph, gc_edge_id_seq graph,
                gc_annot_schema_tbl graph, gc_annot_schema_phys_map graph];
              oids = foldl (collect_vertex_label gv gs (gc_id graph)) oids v_rows;
              oids = foldl (collect_edge_label gv gs (gc_id graph)) oids e_rows;
              oids = foldl np_append_oid oids [gc_vertex_labels graph, gc_edge_labels graph]
          in Inr (np_append_named_rel (gs_rels gs) (gv_np_namespace gv) oids
               (''np_label_catalog_'' @ print_int (gc_id graph)))
      | _ \<Rightarrow> Inl (Raised ''could not open relation''))"

subsection \<open>Dropping and moving a relation\<close>

definition np_drop_rel :: "graph_env \<Rightarrow> pg_relation list \<Rightarrow> oid \<Rightarrow> pg_relation list" where
  "np_drop_rel gv rels relid =
     (if \<not> OidIsValid relid then rels
      else if \<not> list_ex (\<lambda>r. rl_oid r = relid) rels then rels
      else filter (\<lambda>r. rl_oid r \<noteq> relid \<and> rl_oid r \<notin> set (gv_dependents gv relid)) rels)"

definition np_move_rel_to_namespace :: "oid \<Rightarrow> oid \<Rightarrow> pg_relation list \<Rightarrow> oid \<Rightarrow> pg_relation list" where
  "np_move_rel_to_namespace old_nsp new_nsp rels relid =
     (if \<not> OidIsValid relid \<or> get_rel_namespace rels relid \<noteq> old_nsp then rels
      else map (\<lambda>r. if rl_oid r = relid then r \<lparr> rl_namespace := new_nsp \<rparr> else r) rels)"

text \<open>The rows of the label catalogs and the dictionaries go with their relations.\<close>

definition forget_tables :: "32 word \<Rightarrow> 'd np_tables \<Rightarrow> 'd np_tables" where
  "forget_tables graph_id nt = nt \<lparr> nt_vertex_label := (nt_vertex_label nt)(graph_id := None),
     nt_edge_label := (nt_edge_label nt)(graph_id := None),
     nt_dictionary := (nt_dictionary nt)(graph_id := (\<lambda>_. None)) \<rparr>"

subsection \<open>The row of a graph\<close>

definition graph_row :: "string \<Rightarrow> oid \<Rightarrow> graph_cache_data \<Rightarrow> bool" where
  "graph_row name nsp row \<longleftrightarrow> gc_name row = namestrcpy name \<and> gc_namespace row = nsp"

text \<open>The first row of the index on name and namespace is changed.\<close>

fun change_first :: "('a \<Rightarrow> bool) \<Rightarrow> ('a \<Rightarrow> 'a list) \<Rightarrow> 'a list \<Rightarrow> 'a list" where
  "change_first P f [] = []"
| "change_first P f (x # xs) = (if P x then f x @ xs else x # change_first P f xs)"

definition change_graph_row ::
  "string \<Rightarrow> oid \<Rightarrow> (graph_cache_data \<Rightarrow> graph_cache_data list) \<Rightarrow> 'd graph_state \<Rightarrow> store_error + 'd graph_state" where
  "change_graph_row name nsp f gs =
     (let rows = nt_graphs (gs_tables gs)
      in if \<not> list_ex (graph_row name nsp) rows then Inl (Raised ''graph catalog row not found'')
         else Inr (gs \<lparr> gs_tables := (gs_tables gs) \<lparr> nt_graphs := change_first (graph_row name nsp) f rows \<rparr>,
           gs_caches := invalidate_graph_name_namespace_cache_entry name nsp (gs_caches gs) \<rparr>))"

text \<open>The index on name and namespace is unique.\<close>

definition insert_graph :: "graph_cache_data \<Rightarrow> 'd graph_state \<Rightarrow> store_error + 'd graph_state" where
  "insert_graph row gs =
     (if list_ex (graph_row (gc_name row) (gc_namespace row)) (nt_graphs (gs_tables gs))
      then Inl (Raised ''duplicate key value violates unique constraint'')
      else Inr (gs \<lparr> gs_tables := (gs_tables gs) \<lparr> nt_graphs := nt_graphs (gs_tables gs) @ [row] \<rparr> \<rparr>))"

subsection \<open>The routines\<close>

text \<open>\<open>create_namespace\<close> creates a namespace.\<close>

definition alter_graph ::
  "graph_env \<Rightarrow> (string \<Rightarrow> oid) \<Rightarrow> string option \<Rightarrow> string option \<Rightarrow> string option \<Rightarrow> 'd graph_state
    \<Rightarrow> store_error + 'd graph_state" where
  "alter_graph gv create_namespace graph_name new_nsp_arg nsp_arg gs =
     (case (graph_name, new_nsp_arg) of
        (Some graph_name, Some new_nsp_str) \<Rightarrow>
          sum_bind (resolve_namespace gv nsp_arg) (\<lambda>old_nsp.
          case search_graph gv graph_name old_nsp gs of (None, gs) \<Rightarrow> Inl (Raised ''graph does not exist in the namespace'')
          | (Some graph, gs) \<Rightarrow>
              let new_nsp = (if OidIsValid (gv_namespaces gv new_nsp_str) then gv_namespaces gv new_nsp_str
                    else create_namespace new_nsp_str)
              in if new_nsp = old_nsp then Inr gs
                 else (case search_graph gv graph_name new_nsp gs of
                     (Some _, gs) \<Rightarrow> Inl (Raised ''graph already exists in the namespace'')
                   | (None, gs) \<Rightarrow>
                       sum_bind (np_collect_graph_namespace_rels gv gs graph) (\<lambda>oids.
                         change_graph_row graph_name old_nsp (\<lambda>row. [row \<lparr> gc_namespace := new_nsp \<rparr>])
                           (gs \<lparr> gs_rels := foldl (np_move_rel_to_namespace old_nsp new_nsp) (gs_rels gs) oids \<rparr>))))
      | (None, _) \<Rightarrow> Inl (Raised ''graph name must not be NULL'')
      | (_, None) \<Rightarrow> Inl (Raised ''new namespace must not be NULL''))"

definition rename_graph ::
  "graph_env \<Rightarrow> string option \<Rightarrow> string option \<Rightarrow> string option \<Rightarrow> 'd graph_state
    \<Rightarrow> store_error + 'd graph_state" where
  "rename_graph gv graph_name new_name nsp_arg gs =
     (case (graph_name, new_name) of
        (Some graph_name, Some new_name) \<Rightarrow>
          sum_bind (resolve_namespace gv nsp_arg) (\<lambda>nsp.
          case search_graph gv graph_name nsp gs of (None, gs) \<Rightarrow> Inl (Raised ''graph does not exist in the namespace'')
          | (Some graph, gs) \<Rightarrow>
              if graph_name = new_name then Inr gs
              else (case search_graph gv new_name nsp gs of
                  (Some _, gs) \<Rightarrow> Inl (Raised ''graph already exists in the namespace'')
                | (None, gs) \<Rightarrow>
                    change_graph_row graph_name nsp (\<lambda>row. [row \<lparr> gc_name := namestrcpy new_name \<rparr>]) gs))
      | (None, _) \<Rightarrow> Inl (Raised ''graph name must not be NULL'')
      | (_, None) \<Rightarrow> Inl (Raised ''new graph name must not be NULL''))"

definition drop_graph ::
  "graph_env \<Rightarrow> string option \<Rightarrow> string option \<Rightarrow> 'd graph_state \<Rightarrow> store_error + 'd graph_state" where
  "drop_graph gv graph_name nsp_arg gs =
     (case graph_name of
        None \<Rightarrow> Inl (Raised ''graph name must not be NULL'')
      | Some graph_name \<Rightarrow>
          sum_bind (resolve_namespace gv nsp_arg) (\<lambda>nsp.
          case search_graph gv graph_name nsp gs of (None, gs) \<Rightarrow> Inl (Raised ''graph does not exist in the namespace'')
          | (Some graph, gs) \<Rightarrow>
              sum_bind (np_collect_graph_namespace_rels gv gs graph) (\<lambda>oids.
                change_graph_row graph_name nsp (\<lambda>_. [])
                  (gs \<lparr> gs_rels := foldl (np_drop_rel gv) (gs_rels gs) oids,
                    gs_tables := forget_tables (gc_id graph) (gs_tables gs) \<rparr>))))"

subsection \<open>What is collected\<close>

lemma set_append_oids: "set (foldl np_append_oid oids ds) = set oids \<union> {d \<in> set ds. OidIsValid d}"
  by (induction ds arbitrary: oids) (auto simp: np_append_oid_def)

lemma set_append_named:
  "set (foldl (np_append_named_rel rels nsp) oids names) =
    set oids \<union> {d \<in> (\<lambda>name. get_relname_relid rels name nsp) ` set names. OidIsValid d}"
  by (induction names arbitrary: oids) (auto simp: np_append_named_rel_def np_append_oid_def)

text \<open>The relations of one label.\<close>

definition option_oid :: "oid option \<Rightarrow> oid set" where
  "option_oid t = (case t of None \<Rightarrow> {} | Some t \<Rightarrow> {t})"

definition vertex_label_rels :: "graph_env \<Rightarrow> 'd graph_state \<Rightarrow> 32 word \<Rightarrow> label_row \<Rightarrow> oid set" where
  "vertex_label_rels gv gs graph_id row =
     {lb_tbl row, lb_phys_map row, lb_linked_list_meta row, lb_linked_list_seq row, lb_arraylist row}
     \<union> option_oid (lb_annotations_tbl row)
     \<union> (if OidIsValid (lb_linked_list_meta row) then mr_tbl ` set (gs_links gs (lb_linked_list_meta row)) else {})
     \<union> (\<lambda>name. get_relname_relid (gs_rels gs) name (gv_np_namespace gv)) ` set (vertex_label_names graph_id (lb_id row))"

definition edge_label_rels :: "graph_env \<Rightarrow> 'd graph_state \<Rightarrow> 32 word \<Rightarrow> label_row \<Rightarrow> oid set" where
  "edge_label_rels gv gs graph_id row = {lb_tbl row, lb_phys_map row} \<union> option_oid (lb_annotations_tbl row)
     \<union> {get_relname_relid (gs_rels gs) (label_relation_name ''np_edge_id_seq_'' graph_id (lb_id row)) (gv_np_namespace gv)}"

lemma set_collect_vertex_label:
  "set (collect_vertex_label gv gs g oids row) = set oids \<union> {d \<in> vertex_label_rels gv gs g row. OidIsValid d}"
  unfolding collect_vertex_label_def Let_def np_collect_linked_list_tables_def vertex_label_rels_def option_oid_def
  by (cases "lb_annotations_tbl row"; cases "OidIsValid (lb_linked_list_meta row)")
    (auto simp: set_append_oids set_append_named np_append_oid_def)

lemma set_collect_edge_label:
  "set (collect_edge_label gv gs g oids row) = set oids \<union> {d \<in> edge_label_rels gv gs g row. OidIsValid d}"
  by (cases "lb_annotations_tbl row")
    (auto simp: collect_edge_label_def Let_def edge_label_rels_def option_oid_def set_append_oids np_append_oid_def
      np_append_named_rel_def)

lemma set_foldl_collect:
  assumes "\<And>oids row. set (f oids row) = set oids \<union> A row"
  shows "set (foldl f oids rows) = set oids \<union> (\<Union>row \<in> set rows. A row)"
  using assms by (induction rows arbitrary: oids) auto

text \<open>All relations of a graph.\<close>

definition graph_rels ::
  "graph_env \<Rightarrow> 'd graph_state \<Rightarrow> graph_cache_data \<Rightarrow> label_row list \<Rightarrow> label_row list \<Rightarrow> oid set" where
  "graph_rels gv gs graph v_rows e_rows =
     {gc_vertex_id_seq graph, gc_edge_id_seq graph, gc_annot_schema_tbl graph, gc_annot_schema_phys_map graph,
      gc_vertex_labels graph, gc_edge_labels graph,
      get_relname_relid (gs_rels gs) (''np_label_catalog_'' @ print_int (gc_id graph)) (gv_np_namespace gv)}
     \<union> (\<Union>row \<in> set v_rows. vertex_label_rels gv gs (gc_id graph) row)
     \<union> (\<Union>row \<in> set e_rows. edge_label_rels gv gs (gc_id graph) row)"

lemma collected_rels:
  assumes "nt_vertex_label (gs_tables gs) (gc_id graph) = Some v_rows"
    "nt_edge_label (gs_tables gs) (gc_id graph) = Some e_rows"
  shows "\<exists>oids. np_collect_graph_namespace_rels gv gs graph = Inr oids
    \<and> set oids = {d \<in> graph_rels gv gs graph v_rows e_rows. OidIsValid d}"
proof -
  have v: "set (foldl (collect_vertex_label gv gs (gc_id graph)) oids v_rows) =
      set oids \<union> (\<Union>row \<in> set v_rows. {d \<in> vertex_label_rels gv gs (gc_id graph) row. OidIsValid d})" for oids
    by (rule set_foldl_collect) (rule set_collect_vertex_label)
  have e: "set (foldl (collect_edge_label gv gs (gc_id graph)) oids e_rows) =
      set oids \<union> (\<Union>row \<in> set e_rows. {d \<in> edge_label_rels gv gs (gc_id graph) row. OidIsValid d})" for oids
    by (rule set_foldl_collect) (rule set_collect_edge_label)
  show ?thesis
    using assms by (auto simp: np_collect_graph_namespace_rels_def Let_def np_append_named_rel_def np_append_oid_def
        v e set_append_oids graph_rels_def)
qed

subsection \<open>Dropping a graph\<close>

lemma dropped_rels:
  "set (foldl (np_drop_rel gv) rels oids) \<subseteq> {r \<in> set rels. OidIsValid (rl_oid r) \<longrightarrow> rl_oid r \<notin> set oids}"
proof (induction oids arbitrary: rels)
  case (Cons relid oids)
  have "set (np_drop_rel gv rels relid) \<subseteq> {r \<in> set rels. OidIsValid (rl_oid r) \<longrightarrow> rl_oid r \<noteq> relid}"
    by (auto simp: np_drop_rel_def list_ex_iff)
  then show ?case using Cons[of "np_drop_rel gv rels relid"] by auto
qed auto

lemma kept_rels:
  "r \<in> set rels \<Longrightarrow> rl_oid r \<notin> set oids \<Longrightarrow> \<forall>relid \<in> set oids. rl_oid r \<notin> set (gv_dependents gv relid) \<Longrightarrow>
    r \<in> set (foldl (np_drop_rel gv) rels oids)"
  by (induction oids arbitrary: rels) (auto simp: np_drop_rel_def)

lemma change_first_removes:
  assumes "distinct (map key xs)" "\<And>x. P x \<longleftrightarrow> key x = k"
  shows "change_first P (\<lambda>_. []) xs = filter (\<lambda>x. \<not> P x) xs"
  using assms(1)
proof (induction xs)
  case (Cons x xs)
  have "\<not> P y" if "P x" "y \<in> set xs" for y
  proof -
    have "key y \<noteq> key x" using Cons.prems that(2) by (auto simp: image_iff)
    then show ?thesis using that(1) by (simp add: assms(2))
  qed
  then have "P x \<Longrightarrow> filter (\<lambda>x. \<not> P x) xs = xs" by (simp add: filter_id_conv)
  then show ?case using Cons by simp
qed simp

text \<open>C20. Dropping a graph removes its row and no other from the catalog of graphs, and every relation of the
  graph: its sequences, schema relations and label catalogs, and of each label the tables of its
  entities, maps, lists and annotations and the sequences that are found by their names.  A relation that
  neither belongs to the graph nor depends on one of its relations stays.\<close>
theorem drop_graph_complete:
  assumes "drop_graph gv (Some name) nsp_arg gs = Inr gs'"
    "distinct (map (\<lambda>row. (gc_name row, gc_namespace row)) (nt_graphs (gs_tables gs)))"
  shows "\<exists>nsp graph v_rows e_rows. resolve_namespace gv nsp_arg = Inr nsp
    \<and> fst (search_graph gv name nsp gs) = Some graph
    \<and> nt_vertex_label (gs_tables gs) (gc_id graph) = Some v_rows \<and> nt_edge_label (gs_tables gs) (gc_id graph) = Some e_rows
    \<and> nt_graphs (gs_tables gs') = filter (\<lambda>row. \<not> graph_row name nsp row) (nt_graphs (gs_tables gs))
    \<and> (\<forall>r \<in> set (gs_rels gs'). r \<in> set (gs_rels gs) \<and> (OidIsValid (rl_oid r) \<longrightarrow> rl_oid r \<notin> graph_rels gv gs graph v_rows e_rows))
    \<and> (\<forall>r \<in> set (gs_rels gs). rl_oid r \<notin> graph_rels gv gs graph v_rows e_rows
        \<longrightarrow> (\<forall>relid \<in> graph_rels gv gs graph v_rows e_rows. rl_oid r \<notin> set (gv_dependents gv relid)) \<longrightarrow> r \<in> set (gs_rels gs'))"
proof -
  obtain nsp where nsp: "resolve_namespace gv nsp_arg = Inr nsp" using assms(1) by (auto simp: drop_graph_def)
  obtain found gs1 where s: "search_graph gv name nsp gs = (found, gs1)" by fastforce
  then have same: "gs_tables gs1 = gs_tables gs" "gs_rels gs1 = gs_rels gs" "gs_links gs1 = gs_links gs"
    by (auto simp: search_graph_def split: prod.split_asm)
  obtain graph where graph: "found = Some graph" using assms(1) nsp s by (auto simp: drop_graph_def split: option.split_asm)
  obtain v_rows e_rows where rows: "nt_vertex_label (gs_tables gs1) (gc_id graph) = Some v_rows"
    "nt_edge_label (gs_tables gs1) (gc_id graph) = Some e_rows"
    using assms(1) nsp s graph by (auto simp: drop_graph_def np_collect_graph_namespace_rels_def split: option.split_asm)
  obtain oids where oids: "np_collect_graph_namespace_rels gv gs1 graph = Inr oids"
    "set oids = {d \<in> graph_rels gv gs1 graph v_rows e_rows. OidIsValid d}"
    using collected_rels[OF rows] by blast
  have "vertex_label_rels gv gs1 = vertex_label_rels gv gs" "edge_label_rels gv gs1 = edge_label_rels gv gs"
    by (intro ext; simp only: vertex_label_rels_def edge_label_rels_def same)+
  then have gr: "graph_rels gv gs1 graph v_rows e_rows = graph_rels gv gs graph v_rows e_rows"
    by (simp only: graph_rels_def same)
  have ch: "change_graph_row name nsp (\<lambda>_. []) (gs1 \<lparr> gs_rels := foldl (np_drop_rel gv) (gs_rels gs1) oids,
      gs_tables := forget_tables (gc_id graph) (gs_tables gs1) \<rparr>) = Inr gs'"
    using assms(1) nsp s graph oids(1) by (simp add: drop_graph_def)
  have "graph_row name nsp row \<longleftrightarrow> (gc_name row, gc_namespace row) = (namestrcpy name, nsp)" for row
    by (simp add: graph_row_def)
  from change_first_removes[OF assms(2) this]
  have "nt_graphs (gs_tables gs') = filter (\<lambda>row. \<not> graph_row name nsp row) (nt_graphs (gs_tables gs))"
    using ch by (auto simp: change_graph_row_def forget_tables_def same Let_def split: if_splits)
  moreover have rels: "gs_rels gs' = foldl (np_drop_rel gv) (gs_rels gs) oids"
    using ch by (auto simp: change_graph_row_def forget_tables_def same Let_def split: if_splits)
  moreover have "\<forall>r \<in> set (gs_rels gs'). r \<in> set (gs_rels gs) \<and> (OidIsValid (rl_oid r) \<longrightarrow> rl_oid r \<notin> graph_rels gv gs graph v_rows e_rows)"
    unfolding rels using dropped_rels[of gv "gs_rels gs" oids] oids(2) gr by auto
  moreover have "r \<in> set (gs_rels gs')" if "r \<in> set (gs_rels gs)" "rl_oid r \<notin> graph_rels gv gs graph v_rows e_rows"
    "\<forall>relid \<in> graph_rels gv gs graph v_rows e_rows. rl_oid r \<notin> set (gv_dependents gv relid)" for r
    unfolding rels using kept_rels[OF that(1), of oids gv] that(2,3) oids(2) gr by auto
  ultimately show ?thesis using nsp s graph rows
    by (intro exI[of _ nsp] exI[of _ graph] exI[of _ v_rows] exI[of _ e_rows]) (simp add: same)
qed

definition example_graph_env :: graph_env where
  "example_graph_env = \<lparr> gv_search_path = [2200], gv_namespaces = (\<lambda>_. 0), gv_np_namespace = 3000,
     gv_dependents = (\<lambda>_. []), gv_stack_key = (''stack'', 0), gv_old_namespace = 0 \<rparr>"

definition example_graph_state :: "unit graph_state" where
  "example_graph_state = \<lparr> gs_tables = example_tables,
     gs_rels = [\<lparr> rl_oid = 10, rl_name = ''np_vertex_1_1'', rl_namespace = 2200 \<rparr>,
       \<lparr> rl_oid = 99, rl_name = ''other'', rl_namespace = 2200 \<rparr>],
     gs_links = (\<lambda>_. []), gs_caches = no_caches \<rparr>"

lemma drop_graph_complete_witness:
  "\<exists>gs. drop_graph example_graph_env (Some ''g'') None example_graph_state = Inr gs
    \<and> nt_graphs (gs_tables gs) = [] \<and> 10 \<notin> rl_oid ` set (gs_rels gs)"
proof -
  have s: "fst (search_graph example_graph_env ''g'' 2200 example_graph_state) = Some example_graph_row"
    by (simp add: search_graph_def search_graph_name_namespace_cache_def search_graph_name_namespace_cache_miss_def
        example_graph_state_def example_graph_env_def example_tables_def example_graph_row_def no_caches_def Let_def
        initialize_caches_def hash_find_def namestrcpy_def fill_graph_cache_data_def)
  obtain gs1 where s1: "search_graph example_graph_env ''g'' 2200 example_graph_state = (Some example_graph_row, gs1)"
    using s by (metis prod.collapse)
  then have same: "gs_tables gs1 = example_tables"
    by (auto simp: search_graph_def example_graph_state_def split: prod.split_asm)
  have n: "resolve_namespace example_graph_env None = Inr 2200" by (simp add: resolve_namespace_def example_graph_env_def)
  have rows: "nt_vertex_label example_tables (gc_id example_graph_row) = Some [example_label_row]"
    "nt_edge_label example_tables (gc_id example_graph_row) = Some []"
    by (simp_all add: example_tables_def example_graph_row_def)
  obtain oids where "np_collect_graph_namespace_rels example_graph_env gs1 example_graph_row = Inr oids"
    using collected_rels[OF rows[folded same]] by blast
  moreover have "list_ex (graph_row ''g'' 2200) (nt_graphs (gs_tables gs1))"
    by (simp add: same example_tables_def graph_row_def example_graph_row_def namestrcpy_def)
  ultimately obtain gs where run: "drop_graph example_graph_env (Some ''g'') None example_graph_state = Inr gs"
    using n s1 by (auto simp: drop_graph_def change_graph_row_def forget_tables_def Let_def)
  have one: "distinct (map (\<lambda>row. (gc_name row, gc_namespace row)) (nt_graphs (gs_tables example_graph_state)))"
    by (simp add: example_graph_state_def example_tables_def)
  obtain v_rows e_rows where d: "nt_vertex_label example_tables (gc_id example_graph_row) = Some v_rows"
    "nt_graphs (gs_tables gs) = filter (\<lambda>row. \<not> graph_row ''g'' 2200 row) (nt_graphs example_tables)"
    "\<forall>r \<in> set (gs_rels gs). OidIsValid (rl_oid r) \<longrightarrow>
       rl_oid r \<notin> graph_rels example_graph_env example_graph_state example_graph_row v_rows e_rows"
    using drop_graph_complete[OF run one] n s by (auto simp: example_graph_state_def)
  have "v_rows = [example_label_row]" using d(1) rows(1) by simp
  moreover have "10 \<in> vertex_label_rels example_graph_env example_graph_state (gc_id example_graph_row) example_label_row"
    unfolding vertex_label_rels_def by (simp add: example_label_row_def)
  ultimately have "10 \<in> graph_rels example_graph_env example_graph_state example_graph_row v_rows e_rows"
    unfolding graph_rels_def by auto
  then have "10 \<notin> rl_oid ` set (gs_rels gs)" using d(3) by (auto simp: OidIsValid_def InvalidOid_def)
  moreover have "nt_graphs (gs_tables gs) = []"
    unfolding d(2) by (simp add: example_tables_def graph_row_def example_graph_row_def namestrcpy_def)
  ultimately show ?thesis using run by blast
qed

end
