(* ===== verification/Np_Label_Create.thy ===== *)
theory Np_Label_Create
  imports Np_Graph
begin

text \<open>
  Creating labels and graphs (\<open>src/src/backend/commands/label_commands.c\<close>, the statements in
  \<open>src/src/backend/catalog/np_label.c\<close> and \<open>create_graph\<close> in \<open>src/src/backend/catalog/np_graph.c\<close>).
  The code builds statements and has PostgreSQL execute them; here a statement is a value, and
  executing it a parameter that adds a relation.
\<close>

subsection \<open>Statements\<close>

record column =
  cd_name :: string
  cd_type :: string
  cd_typmod :: int
  cd_not_null :: bool
  cd_default :: "string option"

definition makeColumnDef :: "string \<Rightarrow> string \<Rightarrow> int \<Rightarrow> column" where
  "makeColumnDef name type typmod =
     \<lparr> cd_name = name, cd_type = type, cd_typmod = typmod, cd_not_null = False, cd_default = None \<rparr>"

definition not_null :: "column \<Rightarrow> column" where
  "not_null c = c \<lparr> cd_not_null := True \<rparr>"

text \<open>A table has a namespace, a name, columns and, when one is given, an access method; an index is on one
  column of a table: its name, the table, the column and the method, whether it is unique and whether
  primary, and the condition of a partial index.\<close>

datatype statement =
    CreateTable oid string "column list" "string option"
  | CreateSequence oid string
  | CreateIndex oid string string string string bool bool "string option"

fun statement_namespace :: "statement \<Rightarrow> oid" where
  "statement_namespace (CreateTable nsp tbl_name cols am) = nsp"
| "statement_namespace (CreateSequence nsp seq_name) = nsp"
| "statement_namespace (CreateIndex nsp idx_name tbl_name col am is_unique is_primary condition) = nsp"

fun statement_name :: "statement \<Rightarrow> string" where
  "statement_name (CreateTable nsp tbl_name cols am) = tbl_name"
| "statement_name (CreateSequence nsp seq_name) = seq_name"
| "statement_name (CreateIndex nsp idx_name tbl_name col am is_unique is_primary condition) = idx_name"

subsection \<open>State and surroundings\<close>

text \<open>The state of the graphs, the pages, the catalogs of label names, and the last value that was taken from
  a sequence, 0 when there is none.\<close>

record ('d, 'p) label_state =
  ls_graph :: "'d graph_state"
  ls_db :: "'p db"
  ls_label_catalog :: "32 word \<Rightarrow> label_catalog option"
  ls_last :: "oid \<Rightarrow> 64 word"

record 'p label_env =
  dv_graph :: graph_env
  dv_schema :: "'p schema_env"
  dv_execute :: "statement \<Rightarrow> pg_relation list \<Rightarrow> store_error + pg_relation list"
  dv_ltree_ok :: "string \<Rightarrow> bool"
  dv_label_key :: label_key

definition np_namespace :: "'p label_env \<Rightarrow> oid" where
  "np_namespace dv = gv_np_namespace (dv_graph dv)"

definition rels :: "('d, 'p) label_state \<Rightarrow> pg_relation list" where
  "rels st = gs_rels (ls_graph st)"

definition with_rels :: "pg_relation list \<Rightarrow> ('d, 'p) label_state \<Rightarrow> ('d, 'p) label_state" where
  "with_rels rs st = st \<lparr> ls_graph := (ls_graph st) \<lparr> gs_rels := rs \<rparr> \<rparr>"

definition tables :: "('d, 'p) label_state \<Rightarrow> 'd np_tables" where
  "tables st = gs_tables (ls_graph st)"

definition with_tables :: "'d np_tables \<Rightarrow> ('d, 'p) label_state \<Rightarrow> ('d, 'p) label_state" where
  "with_tables nt st = st \<lparr> ls_graph := (ls_graph st) \<lparr> gs_tables := nt \<rparr> \<rparr>"

definition links_of :: "('d, 'p) label_state \<Rightarrow> oid \<Rightarrow> meta_row list" where
  "links_of st = gs_links (ls_graph st)"

definition with_links :: "(oid \<Rightarrow> meta_row list) \<Rightarrow> ('d, 'p) label_state \<Rightarrow> ('d, 'p) label_state" where
  "with_links ls st = st \<lparr> ls_graph := (ls_graph st) \<lparr> gs_links := ls \<rparr> \<rparr>"

text \<open>A new relation holds nothing.\<close>

definition run_statement ::
  "'p label_env \<Rightarrow> statement \<Rightarrow> ('d, 'p) label_state \<Rightarrow> store_error + (oid \<times> ('d, 'p) label_state)" where
  "run_statement dv stmt st =
     sum_bind (dv_execute dv stmt (rels st)) (\<lambda>rs.
       let d = get_relname_relid rs (statement_name stmt) (statement_namespace stmt); st = with_rels rs st in
       Inr (d, with_links ((links_of st)(d := [])) (st \<lparr> ls_db := (ls_db st)(d := []), ls_last := (ls_last st)(d := 0) \<rparr>)))"

definition execute_internal_create_table ::
  "'p label_env \<Rightarrow> oid \<Rightarrow> string \<Rightarrow> column list \<Rightarrow> string option \<Rightarrow> ('d, 'p) label_state
    \<Rightarrow> store_error + (oid \<times> ('d, 'p) label_state)" where
  "execute_internal_create_table dv nsp tbl_name table_elts access_method =
     run_statement dv (CreateTable nsp tbl_name table_elts access_method)"

definition execute_internal_create_index ::
  "'p label_env \<Rightarrow> oid \<Rightarrow> string \<Rightarrow> string \<Rightarrow> string \<Rightarrow> string \<Rightarrow> bool \<Rightarrow> bool \<Rightarrow> string option \<Rightarrow> ('d, 'p) label_state
    \<Rightarrow> store_error + ('d, 'p) label_state" where
  "execute_internal_create_index dv nsp tbl_name idx_name col_name access_method is_unique is_primary condition st =
     sum_bind (run_statement dv (CreateIndex nsp idx_name tbl_name col_name access_method is_unique is_primary condition) st)
       (\<lambda>(_, st). Inr st)"

definition nextval :: "oid \<Rightarrow> ('d, 'p) label_state \<Rightarrow> store_error + (64 word \<times> ('d, 'p) label_state)" where
  "nextval seq st =
     (if \<not> list_ex (\<lambda>r. rl_oid r = seq) (rels st) then Inl (Raised ''could not open relation'')
      else if ls_last st seq = 0x7FFFFFFFFFFFFFFF then Inl (Raised ''nextval: reached maximum value of sequence'')
      else Inr (ls_last st seq + 1, st \<lparr> ls_last := (ls_last st)(seq := ls_last st seq + 1) \<rparr>))"

definition np_relation_id :: "'p label_env \<Rightarrow> string \<Rightarrow> ('d, 'p) label_state \<Rightarrow> store_error + oid" where
  "np_relation_id dv name st =
     (let d = get_relname_relid (rels st) name (np_namespace dv)
      in if OidIsValid d then Inr d else Inl (Raised ''relation does not exist''))"

subsection \<open>The relations of a label\<close>

definition create_entity_table ::
  "'p label_env \<Rightarrow> oid \<Rightarrow> string \<Rightarrow> column \<Rightarrow> ('d, 'p) label_state \<Rightarrow> store_error + (oid \<times> ('d, 'p) label_state)" where
  "create_entity_table dv nsp tbl_name entity =
     execute_internal_create_table dv nsp tbl_name
       [not_null (makeColumnDef ''id'' ''int8'' (-1)), not_null entity,
        not_null (makeColumnDef ''properties'' ''gtype'' (-1))] (Some ''entity_store'')"

definition create_vertex_tables ::
  "'p label_env \<Rightarrow> 32 word \<Rightarrow> 32 word \<Rightarrow> oid \<Rightarrow> ('d, 'p) label_state \<Rightarrow> store_error + (oid \<times> ('d, 'p) label_state)" where
  "create_vertex_tables dv graph_id label_id nsp =
     create_entity_table dv nsp (label_relation_name ''np_vertex_'' graph_id label_id) (makeColumnDef ''vertex'' ''vertex'' (-1))"

definition create_edge_tables ::
  "'p label_env \<Rightarrow> 32 word \<Rightarrow> 32 word \<Rightarrow> oid \<Rightarrow> ('d, 'p) label_state \<Rightarrow> store_error + (oid \<times> ('d, 'p) label_state)" where
  "create_edge_tables dv graph_id label_id nsp =
     create_entity_table dv nsp (label_relation_name ''np_edge_'' graph_id label_id) (makeColumnDef ''edge'' ''edge'' (-1))"

definition vertex_map_columns :: "column list" where
  "vertex_map_columns = [makeColumnDef ''v_itemptr'' ''tid'' (-1), makeColumnDef ''e_tbl_id'' ''regclass'' (-1),
     makeColumnDef ''e_itemptr'' ''tid'' (-1), makeColumnDef ''a_itemptr'' ''tid'' (-1)]"

definition create_label_vertex_physical_mapping_table ::
  "'p label_env \<Rightarrow> string \<Rightarrow> oid \<Rightarrow> ('d, 'p) label_state \<Rightarrow> store_error + (oid \<times> ('d, 'p) label_state)" where
  "create_label_vertex_physical_mapping_table dv tbl_name nsp =
     execute_internal_create_table dv nsp tbl_name vertex_map_columns (Some ''np_mutable'')"

definition create_label_edge_physical_mapping_table ::
  "'p label_env \<Rightarrow> string \<Rightarrow> oid \<Rightarrow> ('d, 'p) label_state \<Rightarrow> store_error + (oid \<times> ('d, 'p) label_state)" where
  "create_label_edge_physical_mapping_table dv tbl_name nsp =
     run_statement dv (CreateTable nsp tbl_name [makeColumnDef ''e_itemptr'' ''tid'' (-1)] (Some ''np_mutable''))"

definition create_vertex_label_arraylist_table ::
  "'p label_env \<Rightarrow> string \<Rightarrow> oid \<Rightarrow> ('d, 'p) label_state \<Rightarrow> store_error + (oid \<times> ('d, 'p) label_state)" where
  "create_vertex_label_arraylist_table dv tbl_name nsp =
     run_statement dv (CreateTable nsp tbl_name
       [makeColumnDef ''id'' ''int8'' (-1), makeColumnDef ''prev_table'' ''regclass'' 4,
        makeColumnDef ''prev_itemptr'' ''tid'' (-1), makeColumnDef ''adj_list'' ''adj_list'' (-1),
        makeColumnDef ''next_itemptr'' ''tid'' (-1)] (Some ''nparraylist''))"

definition create_vertex_label_linked_list_table ::
  "'p label_env \<Rightarrow> string \<Rightarrow> oid \<Rightarrow> ('d, 'p) label_state \<Rightarrow> store_error + (oid \<times> ('d, 'p) label_state)" where
  "create_vertex_label_linked_list_table dv tbl_name nsp =
     run_statement dv (CreateTable nsp tbl_name
       [makeColumnDef ''id'' ''int8'' (-1), makeColumnDef ''edge_lid'' ''int4'' (-1), makeColumnDef ''dir'' ''char'' (-1),
        makeColumnDef ''owner_id'' ''int8'' (-1), makeColumnDef ''other_id'' ''int8'' (-1),
        makeColumnDef ''other_lid'' ''int4'' (-1), makeColumnDef ''next_tbl'' ''regclass'' (-1),
        makeColumnDef ''next_itemptr'' ''tid'' (-1), makeColumnDef ''prev_tbl'' ''regclass'' (-1),
        makeColumnDef ''prev_itemptr'' ''tid'' (-1)] (Some ''nplinkedlist''))"

definition create_vertex_label_linked_list_metadata_table ::
  "'p label_env \<Rightarrow> string \<Rightarrow> oid \<Rightarrow> ('d, 'p) label_state \<Rightarrow> store_error + (oid \<times> ('d, 'p) label_state)" where
  "create_vertex_label_linked_list_metadata_table dv tbl_name nsp =
     run_statement dv (CreateTable nsp tbl_name
       [makeColumnDef ''id'' ''int4'' (-1), makeColumnDef ''tbl'' ''regclass'' (-1),
        makeColumnDef ''active'' ''bool'' (-1), makeColumnDef ''compacted'' ''bool'' (-1)] None)"

definition create_vertex_label_annotation_table ::
  "'p label_env \<Rightarrow> string \<Rightarrow> oid \<Rightarrow> nat \<Rightarrow> ('d, 'p) label_state \<Rightarrow> store_error + (oid \<times> ('d, 'p) label_state)" where
  "create_vertex_label_annotation_table dv tbl_name nsp byte_allocation_size =
     run_statement dv (CreateTable nsp tbl_name
       [not_null (makeColumnDef ''id'' ''int8'' (-1)),
        makeColumnDef ''annotations'' ''bytea'' (int byte_allocation_size)] (Some ''entity_store''))"

definition create_linked_list_table_sequence ::
  "'p label_env \<Rightarrow> string \<Rightarrow> ('d, 'p) label_state \<Rightarrow> store_error + (oid \<times> ('d, 'p) label_state)" where
  "create_linked_list_table_sequence dv seq_name = run_statement dv (CreateSequence (np_namespace dv) seq_name)"

text \<open>The sequence of the ids of the entities of a label.\<close>

definition create_entity_id_sequence ::
  "'p label_env \<Rightarrow> string \<Rightarrow> 32 word \<Rightarrow> 32 word \<Rightarrow> ('d, 'p) label_state \<Rightarrow> store_error + ('d, 'p) label_state" where
  "create_entity_id_sequence dv prefix graph_id label_id st =
     sum_bind (run_statement dv (CreateSequence (np_namespace dv) (label_relation_name prefix graph_id label_id)) st)
       (\<lambda>(_, st). Inr st)"

definition create_vertex_property_dictionary ::
  "'p label_env \<Rightarrow> 32 word \<Rightarrow> 32 word \<Rightarrow> ('d, 'p) label_state \<Rightarrow> store_error + (oid \<times> ('d, 'p) label_state)" where
  "create_vertex_property_dictionary dv graph_id label_id st =
     sum_bind (run_statement dv (CreateTable (np_namespace dv) (label_relation_name ''np_vertex_property_dictionary_'' graph_id label_id)
         [not_null (makeColumnDef ''id'' ''int4'' (-1)), not_null (makeColumnDef ''dict'' ''dictionary'' (-1))] None) st) (\<lambda>(d, st).
     sum_bind (run_statement dv (CreateSequence (np_namespace dv)
         (label_relation_name ''np_vertex_property_dictionary_seq_'' graph_id label_id)) st) (\<lambda>(_, st).
     let nt = tables st in
     Inr (d, with_tables (nt \<lparr> nt_dictionary := (nt_dictionary nt)(graph_id := (nt_dictionary nt graph_id)(label_id := Some [])) \<rparr>) st)))"

definition create_vertex_dictionary_metadata_btree_index ::
  "'p label_env \<Rightarrow> 32 word \<Rightarrow> 32 word \<Rightarrow> ('d, 'p) label_state \<Rightarrow> store_error + ('d, 'p) label_state" where
  "create_vertex_dictionary_metadata_btree_index dv graph_id label_id =
     execute_internal_create_index dv (np_namespace dv) (label_relation_name ''np_vertex_property_dictionary_'' graph_id label_id)
       (label_relation_name ''np_vertex_property_dictionary_index_'' graph_id label_id) ''id'' ''btree'' True True None"

subsection \<open>The rows of a label\<close>

definition insert_vertex_ll_meta ::
  "string \<Rightarrow> oid \<Rightarrow> 32 word \<Rightarrow> oid \<Rightarrow> ('d, 'p) label_state \<Rightarrow> store_error + ('d, 'p) label_state" where
  "insert_vertex_ll_meta table_name nsp ll_seq tbl st =
     (let meta = get_relname_relid (rels st) table_name nsp
      in if \<not> OidIsValid meta then Inl (Raised ''could not open relation'')
         else Inr (with_links ((links_of st)(meta := links_of st meta @
           [\<lparr> mr_id = scast ll_seq, mr_tbl = tbl, mr_active = Some True, mr_compacted = Some False \<rparr>])) st))"

text \<open>The index on the ids is unique.\<close>

definition append_label_row :: "label_row \<Rightarrow> label_row list option \<Rightarrow> store_error + label_row list option" where
  "append_label_row row rows = (case rows of
     None \<Rightarrow> Inl (Raised ''relation does not exist'')
   | Some rows \<Rightarrow>
       if lb_id row \<in> lb_id ` set rows then Inl (Raised ''duplicate key value violates unique constraint'')
       else Inr (Some (rows @ [row])))"

definition insert_vertex_label :: "32 word \<Rightarrow> label_row \<Rightarrow> ('d, 'p) label_state \<Rightarrow> store_error + ('d, 'p) label_state" where
  "insert_vertex_label graph_id row st =
     (let nt = tables st in sum_bind (append_label_row row (nt_vertex_label nt graph_id)) (\<lambda>rows.
        Inr (with_tables (nt \<lparr> nt_vertex_label := (nt_vertex_label nt)(graph_id := rows) \<rparr>) st)))"

text \<open>An edge label has no lists.\<close>

definition edge_label_row :: "32 word \<Rightarrow> string \<Rightarrow> oid \<Rightarrow> oid \<Rightarrow> oid \<Rightarrow> string option list option \<Rightarrow> label_row" where
  "edge_label_row label_id label tbl phys_map annot_tbl annot_map =
     \<lparr> lb_id = label_id, lb_label = label, lb_tbl = tbl, lb_phys_map = phys_map, lb_linked_list_meta = InvalidOid,
       lb_linked_list_seq = InvalidOid, lb_arraylist = InvalidOid,
       lb_annotations_tbl = (if OidIsValid annot_tbl then Some annot_tbl else None),
       lb_annotation_map = annot_map, lb_is_primary = True \<rparr>"

definition insert_label :: "32 word \<Rightarrow> label_row \<Rightarrow> ('d, 'p) label_state \<Rightarrow> store_error + ('d, 'p) label_state" where
  "insert_label graph_id row st =
     (let nt = tables st in sum_bind (append_label_row row (nt_edge_label nt graph_id)) (\<lambda>rows.
        Inr (with_tables (nt \<lparr> nt_edge_label := (nt_edge_label nt)(graph_id := rows) \<rparr>) st)))"

definition insert_schema ::
  "'p label_env \<Rightarrow> 32 word \<Rightarrow> string option list \<Rightarrow> oid \<Rightarrow> oid \<Rightarrow> ('d, 'p) label_state
    \<Rightarrow> store_error + ('d, 'p) label_state" where
  "insert_schema dv label_id annot_array schema_tbl schema_pmap st =
     (let se = dv_schema dv in
      sum_bind (insert_annotation_schema (se_api se) (se_array_bytes se) (se_fxid se) (se_cid se) (ls_db st) label_id
        annot_array schema_tbl schema_pmap) (\<lambda>db. Inr (st \<lparr> ls_db := db \<rparr>)))"

definition byte_allocation :: "string option list \<Rightarrow> nat" where
  "byte_allocation annot_array = (length annot_array + 7) div 8"

subsection \<open>Building a vertex label\<close>

text \<open>The result of the code is the table of the vertices; the row is given as well.\<close>

definition build_vertex_label_infrastructure ::
  "'p label_env \<Rightarrow> 32 word \<Rightarrow> 32 word \<Rightarrow> oid \<Rightarrow> string \<Rightarrow> nat \<Rightarrow> string option list option \<Rightarrow> oid \<Rightarrow> oid
    \<Rightarrow> ('d, 'p) label_state \<Rightarrow> store_error + (label_row \<times> ('d, 'p) label_state)" where
  "build_vertex_label_infrastructure dv graph_id label_id nsp label_ltree byte_allocation_size annot_array
      annot_schema_tbl annot_schema_phys_map st =
     (let name = label_relation_name ''np_vertex_'' graph_id label_id in
     sum_bind (create_vertex_tables dv graph_id label_id nsp st) (\<lambda>(vertex_tbl, st).
     sum_bind (create_label_vertex_physical_mapping_table dv (name @ ''_phys_map'') nsp st) (\<lambda>(phys_map, st).
     sum_bind (create_vertex_label_arraylist_table dv (name @ ''_arraylist'') nsp st) (\<lambda>(arraylist, st).
     sum_bind (create_linked_list_table_sequence dv (name @ ''_linked_list_seq'') st) (\<lambda>(ll_seq, st).
     sum_bind (nextval ll_seq st) (\<lambda>(ll_val, st).
     sum_bind (create_vertex_label_linked_list_table dv (name @ ''_'' @ print_int (ucast ll_val) @ ''_linked_list'') nsp st) (\<lambda>(ll_table, st).
     sum_bind (create_vertex_label_linked_list_metadata_table dv (name @ ''_linked_list_meta'') nsp st) (\<lambda>(ll_meta, st).
     sum_bind (insert_vertex_ll_meta (name @ ''_linked_list_meta'') nsp (ucast ll_val) ll_table st) (\<lambda>st.
     sum_bind (create_vertex_label_annotation_table dv (name @ ''_annotations'') nsp byte_allocation_size st) (\<lambda>(annotations_tbl, st).
     let row = \<lparr> lb_id = label_id, lb_label = label_ltree, lb_tbl = vertex_tbl, lb_phys_map = phys_map,
           lb_linked_list_meta = ll_meta, lb_linked_list_seq = ll_seq, lb_arraylist = arraylist,
           lb_annotations_tbl = Some annotations_tbl, lb_annotation_map = annot_array, lb_is_primary = True \<rparr> in
     sum_bind (insert_vertex_label graph_id row st) (\<lambda>st.
     sum_bind (case annot_array of
         Some m \<Rightarrow> if OidIsValid annot_schema_tbl then insert_schema dv label_id m annot_schema_tbl annot_schema_phys_map st else Inr st
       | None \<Rightarrow> Inr st) (\<lambda>st.
     sum_bind (create_entity_id_sequence dv ''np_vertex_id_seq_'' graph_id label_id st) (\<lambda>st.
     sum_bind (create_vertex_property_dictionary dv graph_id label_id st) (\<lambda>(_, st).
     sum_bind (create_vertex_dictionary_metadata_btree_index dv graph_id label_id st) (\<lambda>st.
     Inr (row, st))))))))))))))))"

text \<open>The text of a label that is added to the root; an empty text adds nothing.\<close>

definition below_root :: "string \<Rightarrow> string" where
  "below_root label_str = (if label_str = [] then ''_'' else ''_.'' @ label_str)"

text \<open>A later call in the same command looks for rows among those from before the command; the unique index
  has the new ones.\<close>

definition enforce_and_insert_again ::
  "label_catalog \<Rightarrow> string \<Rightarrow> char \<Rightarrow> label_catalog \<Rightarrow> store_error + label_catalog" where
  "enforce_and_insert_again before label_name expected_type cat_rel =
     (case find (\<lambda>row. fst row = label_name) before of
        Some row \<Rightarrow>
          if snd row \<noteq> expected_type then Inl (Raised ''Label is already registered with another type'')
          else Inr cat_rel
      | None \<Rightarrow>
          if label_name \<in> fst ` set cat_rel then Inl (Raised ''duplicate key value violates unique constraint'')
          else Inr (cat_rel @ [(label_name, expected_type)]))"

fun register_annotations ::
  "label_catalog \<Rightarrow> string \<Rightarrow> string option list \<Rightarrow> label_catalog \<Rightarrow> store_error + label_catalog" where
  "register_annotations before struct_label [] cat_rel = Inr cat_rel"
| "register_annotations before struct_label (None # annots) cat_rel =
     register_annotations before struct_label annots cat_rel"
| "register_annotations before struct_label (Some annot_str # annots) cat_rel =
     (if annot_str = struct_label
      then Inl (Raised ''Label cannot be passed as both structural and annotation'')
      else sum_bind (enforce_and_insert_again before annot_str CHR ''a'' cat_rel)
        (register_annotations before struct_label annots))"

definition register_and_validate_labels ::
  "32 word \<Rightarrow> string \<Rightarrow> string option list option \<Rightarrow> ('d, 'p) label_state \<Rightarrow> store_error + ('d, 'p) label_state" where
  "register_and_validate_labels graph_id struct_label annot_array st =
     (case ls_label_catalog st graph_id of
        None \<Rightarrow> Inl (Raised ''relation does not exist'')
      | Some before \<Rightarrow>
          sum_bind (enforce_and_insert_label_catalog before struct_label CHR ''s'') (\<lambda>cat_rel.
          sum_bind (case annot_array of
              None \<Rightarrow> Inr cat_rel
            | Some annots \<Rightarrow> register_annotations before struct_label annots cat_rel) (\<lambda>cat_rel.
          Inr (st \<lparr> ls_label_catalog := (ls_label_catalog st)(graph_id := Some cat_rel) \<rparr>))))"

definition search_graph_in ::
  "'p label_env \<Rightarrow> string \<Rightarrow> oid \<Rightarrow> ('d, 'p) label_state \<Rightarrow> store_error + (graph_cache_data \<times> ('d, 'p) label_state)" where
  "search_graph_in dv graph_name nsp st =
     (case search_graph (dv_graph dv) graph_name nsp (ls_graph st) of
        (None, gs) \<Rightarrow> Inl (Raised ''graph does not exist'')
      | (Some entry, gs) \<Rightarrow> Inr (entry, st \<lparr> ls_graph := gs \<rparr>))"

definition create_vlabel_internal ::
  "'p label_env \<Rightarrow> string \<Rightarrow> string \<Rightarrow> string option list option \<Rightarrow> string option \<Rightarrow> ('d, 'p) label_state
    \<Rightarrow> store_error + (label_row \<times> ('d, 'p) label_state)" where
  "create_vlabel_internal dv graph_name label_str annot_array namespace_name st =
     sum_bind (resolve_namespace (dv_graph dv) namespace_name) (\<lambda>nsp.
     if CHR ''.'' \<in> set label_str then Inl (Raised ''Base labels cannot contain dots.'')
     else sum_bind (search_graph_in dv graph_name nsp st) (\<lambda>(entry, st).
     sum_bind (register_and_validate_labels (gc_id entry) label_str annot_array st) (\<lambda>st.
     if \<not> dv_ltree_ok dv label_str then Inl (Raised ''ltree syntax error'')
     else sum_bind (nextval (gc_vertex_id_seq entry) st) (\<lambda>(label_val, st).
     build_vertex_label_infrastructure dv (gc_id entry) (ucast label_val) nsp (below_root label_str)
       (case annot_array of None \<Rightarrow> 0 | Some m \<Rightarrow> byte_allocation m) annot_array
       (gc_annot_schema_tbl entry) (gc_annot_schema_phys_map entry) st))))"

definition create_vlabel ::
  "'p label_env \<Rightarrow> string option \<Rightarrow> string \<Rightarrow> string option list option \<Rightarrow> string option \<Rightarrow> ('d, 'p) label_state
    \<Rightarrow> store_error + ('d, 'p) label_state" where
  "create_vlabel dv graph_name label_str annot_array namespace_name st =
     (case graph_name of
        None \<Rightarrow> Inl (Raised ''graph name must not be NULL'')
      | Some graph_name \<Rightarrow>
          sum_bind (create_vlabel_internal dv graph_name label_str annot_array namespace_name st) (\<lambda>(_, st). Inr st))"

subsection \<open>Merging two vertex labels\<close>

text \<open>The scan for the two labels; the last row that matches counts.  A row is the parent's before it is the
  child's.\<close>

definition find_last :: "('a \<Rightarrow> bool) \<Rightarrow> 'a list \<Rightarrow> 'a option" where
  "find_last P xs = find P (rev xs)"

definition merged_path :: "string \<Rightarrow> string \<Rightarrow> string" where
  "merged_path parent_ltree child_ltree =
     (let parent_str = strip_root parent_ltree; child_str = strip_root child_ltree
      in if parent_str = [] \<and> child_str = [] then ''_''
         else if parent_str = [] then ''_.'' @ child_str
         else if child_str = [] then ''_.'' @ parent_str
         else ''_.'' @ parent_str @ ''.'' @ child_str)"

definition merge_vlabels_internal ::
  "'p label_env \<Rightarrow> string \<Rightarrow> 32 word \<Rightarrow> 32 word \<Rightarrow> string option \<Rightarrow> ('d, 'p) label_state
    \<Rightarrow> store_error + (label_row \<times> ('d, 'p) label_state)" where
  "merge_vlabels_internal dv graph_name parent_id child_id namespace_name st =
     sum_bind (resolve_namespace (dv_graph dv) namespace_name) (\<lambda>nsp.
     sum_bind (search_graph_in dv graph_name nsp st) (\<lambda>(entry, st).
     case nt_vertex_label (tables st) (gc_id entry) of
       None \<Rightarrow> Inl (Raised ''relation does not exist'')
     | Some rows \<Rightarrow>
         (case (find_last (\<lambda>row. lb_id row = parent_id) rows,
                find_last (\<lambda>row. lb_id row = child_id \<and> lb_id row \<noteq> parent_id) rows) of
            (Some parent_row, Some child_row) \<Rightarrow>
              let merged_ltree_str = merged_path (lb_label parent_row) (lb_label child_row);
                  merged_array = merge_and_dedupe_text_arrays (lb_annotation_map parent_row) (lb_annotation_map child_row)
              in if \<not> dv_ltree_ok dv merged_ltree_str then Inl (Raised ''ltree syntax error'')
                 else sum_bind (nextval (gc_vertex_id_seq entry) st) (\<lambda>(label_val, st).
                   build_vertex_label_infrastructure dv (gc_id entry) (ucast label_val) nsp merged_ltree_str
                     (case merged_array of None \<Rightarrow> 0 | Some m \<Rightarrow> byte_allocation m) merged_array
                     (gc_annot_schema_tbl entry) (gc_annot_schema_phys_map entry) st)
          | _ \<Rightarrow> Inl (Raised ''Failed to find parent or child label in metadata catalog''))))"

definition merge_vlabels ::
  "'p label_env \<Rightarrow> string option \<Rightarrow> 32 word \<Rightarrow> 32 word \<Rightarrow> string option \<Rightarrow> ('d, 'p) label_state
    \<Rightarrow> store_error + ('d, 'p) label_state" where
  "merge_vlabels dv graph_name parent_id child_id namespace_name st =
     (case graph_name of
        None \<Rightarrow> Inl (Raised ''graph name must not be NULL'')
      | Some graph_name \<Rightarrow>
          sum_bind (merge_vlabels_internal dv graph_name parent_id child_id namespace_name st) (\<lambda>(_, st). Inr st))"

subsection \<open>Edge labels\<close>

text \<open>The part that \<open>create_elabel_internal\<close> and \<open>merge_elabels_internal\<close> share; \<open>annot_array\<close> is what an
  annotation table is made for.\<close>

definition build_edge_label ::
  "'p label_env \<Rightarrow> 32 word \<Rightarrow> 32 word \<Rightarrow> oid \<Rightarrow> string \<Rightarrow> string option list option \<Rightarrow> string option list option
    \<Rightarrow> oid \<Rightarrow> oid \<Rightarrow> ('d, 'p) label_state \<Rightarrow> store_error + (label_row \<times> ('d, 'p) label_state)" where
  "build_edge_label dv graph_id label_id nsp label annot_array annot_map schema_tbl schema_pmap st =
     sum_bind (create_edge_tables dv graph_id label_id nsp st) (\<lambda>(edge_tbl, st).
     sum_bind (create_label_edge_physical_mapping_table dv
         (label_relation_name ''np_edge_'' graph_id label_id @ ''_phys_map'') nsp st) (\<lambda>(phys_map, st).
     sum_bind (case annot_array of
         None \<Rightarrow> Inr (InvalidOid, st)
       | Some m \<Rightarrow>
           sum_bind (create_vertex_label_annotation_table dv (label_relation_name ''np_edge_annotations_'' graph_id label_id)
               nsp (byte_allocation m) st) (\<lambda>(annot_tbl_oid, st).
           sum_bind (insert_schema dv label_id m schema_tbl schema_pmap st) (\<lambda>st. Inr (annot_tbl_oid, st))))
       (\<lambda>(annot_tbl_oid, st).
     let row = edge_label_row label_id label edge_tbl phys_map annot_tbl_oid annot_map in
     sum_bind (insert_label graph_id row st) (\<lambda>st.
     sum_bind (create_entity_id_sequence dv ''np_edge_id_seq_'' graph_id label_id st) (\<lambda>st.
     Inr (row, st))))))"

text \<open>The label is not entered into the catalog of names, and its text may have dots.\<close>

definition create_elabel_internal ::
  "'p label_env \<Rightarrow> string \<Rightarrow> string \<Rightarrow> string option \<Rightarrow> string option list option \<Rightarrow> ('d, 'p) label_state
    \<Rightarrow> store_error + (label_row \<times> ('d, 'p) label_state)" where
  "create_elabel_internal dv graph_name new_label_str namespace_name annotations st =
     sum_bind (resolve_namespace (dv_graph dv) namespace_name) (\<lambda>nsp.
     sum_bind (search_graph_in dv graph_name nsp st) (\<lambda>(entry, st).
     sum_bind (nextval (gc_edge_id_seq entry) st) (\<lambda>(label_val, st).
     if \<not> dv_ltree_ok dv new_label_str then Inl (Raised ''ltree syntax error'')
     else build_edge_label dv (gc_id entry) (ucast label_val) nsp (below_root new_label_str)
       (if annotations = Some [] then None else annotations) annotations
       (gc_annot_schema_tbl entry) (gc_annot_schema_phys_map entry) st)))"

definition create_elabel ::
  "'p label_env \<Rightarrow> string option \<Rightarrow> string option \<Rightarrow> string option \<Rightarrow> string option list option \<Rightarrow> ('d, 'p) label_state
    \<Rightarrow> store_error + ('d, 'p) label_state" where
  "create_elabel dv graph_name new_label_str namespace_name annotations st =
     (case (graph_name, new_label_str) of
        (None, _) \<Rightarrow> Inl (Raised ''graph name must not be NULL'')
      | (_, None) \<Rightarrow> Inl (Raised ''label string must not be NULL'')
      | (Some graph_name, Some new_label_str) \<Rightarrow>
          sum_bind (create_elabel_internal dv graph_name new_label_str namespace_name annotations st) (\<lambda>(_, st). Inr st))"

text \<open>\<open>strstr\<close> for the root and a dot, wherever they stand.\<close>

fun after_root :: "string \<Rightarrow> string option" where
  "after_root [] = None"
| "after_root (c # cs) = (if take 2 (c # cs) = ''_.'' then Some (drop 2 (c # cs)) else after_root cs)"

definition merged_edge_path :: "string \<Rightarrow> string \<Rightarrow> string" where
  "merged_edge_path current_path base_path =
     current_path @ ''.'' @ (case after_root base_path of None \<Rightarrow> base_path | Some clean_base \<Rightarrow> clean_base)"

text \<open>Both labels are looked up in the caches.  Without a search path and a namespace the code follows a null
  pointer.\<close>

definition merge_elabels_internal ::
  "'p label_env \<Rightarrow> string \<Rightarrow> 32 word \<Rightarrow> 32 word \<Rightarrow> string option \<Rightarrow> ('d, 'p) label_state
    \<Rightarrow> store_error + (label_row \<times> ('d, 'p) label_state)" where
  "merge_elabels_internal dv graph_name current_label_id base_label_id namespace_name st =
     sum_bind (if namespace_name = None \<and> gv_search_path (dv_graph dv) = [] then Inl NullPointer
         else resolve_namespace (dv_graph dv) namespace_name) (\<lambda>nsp.
     sum_bind (search_graph_in dv graph_name nsp st) (\<lambda>(graph_cache, st).
     case search_edge_label_graph_id_label_id_cache (tables st) (dv_label_key dv) (gc_id graph_cache) current_label_id
         (gs_caches (ls_graph st)) of (current_label, ca) \<Rightarrow>
     (case search_edge_label_graph_id_label_id_cache (tables st) (dv_label_key dv) (gc_id graph_cache) base_label_id ca of
        (base_label, ca) \<Rightarrow>
     let st = st \<lparr> ls_graph := (ls_graph st) \<lparr> gs_caches := ca \<rparr> \<rparr> in
     sum_bind current_label (\<lambda>current_label.
     sum_bind base_label (\<lambda>base_label.
     case (current_label, base_label) of
       (Some current_label, Some base_label) \<Rightarrow>
         let merged_path_str = merged_edge_path (le_label current_label) (le_label base_label);
             merged_array = merge_and_dedupe_text_arrays (lc_annotation_map current_label) (lc_annotation_map base_label)
         in if \<not> dv_ltree_ok dv merged_path_str then Inl (Raised ''ltree syntax error'')
            else sum_bind (nextval (gc_edge_id_seq graph_cache) st) (\<lambda>(label_val, st).
              build_edge_label dv (gc_id graph_cache) (ucast label_val) nsp merged_path_str merged_array merged_array
                (gc_annot_schema_tbl graph_cache) (gc_annot_schema_phys_map graph_cache) st)
     | _ \<Rightarrow> Inl (Raised ''One or more edge labels do not exist for merge''))))))"

definition merge_elabels ::
  "'p label_env \<Rightarrow> string option \<Rightarrow> 32 word option \<Rightarrow> 32 word option \<Rightarrow> string option \<Rightarrow> ('d, 'p) label_state
    \<Rightarrow> store_error + ('d, 'p) label_state" where
  "merge_elabels dv graph_name current_label_id base_label_id namespace_name st =
     (case (graph_name, current_label_id, base_label_id) of
        (None, _) \<Rightarrow> Inl (Raised ''graph name must not be NULL'')
      | (Some graph_name, Some current_label_id, Some base_label_id) \<Rightarrow>
          sum_bind (merge_elabels_internal dv graph_name current_label_id base_label_id namespace_name st) (\<lambda>(_, st). Inr st)
      | _ \<Rightarrow> Inl (Raised ''label IDs must not be NULL''))"

subsection \<open>Labels by their names\<close>

text \<open>The text of a query on paths.  The names are not quoted.\<close>

definition lxtquery_text :: "string \<Rightarrow> string option list \<Rightarrow> string" where
  "lxtquery_text operator label_array =
     foldl (\<lambda>buf label. case label of None \<Rightarrow> buf | Some label \<Rightarrow> (if buf \<noteq> [] then buf @ operator else buf) @ label)
       [] label_array"

definition text_array_to_lxtquery :: "(string \<Rightarrow> store_error + 'q) \<Rightarrow> string option list \<Rightarrow> store_error + 'q" where
  "text_array_to_lxtquery ltxtq_in label_array =
     (if label_array = [] then Inl (Raised ''label array must not be empty'')
      else ltxtq_in (lxtquery_text '' & '' label_array))"

definition text_array_to_lxtquery_or :: "(string \<Rightarrow> store_error + 'q) \<Rightarrow> string option list \<Rightarrow> store_error + 'q" where
  "text_array_to_lxtquery_or ltxtq_in label_array =
     (if label_array = [] then Inl (Raised ''label array must not be empty'')
      else ltxtq_in (lxtquery_text '' | '' label_array))"

text \<open>What is common to the four functions: \<open>rows_of\<close> says which catalog, \<open>to_query\<close> how the names are combined.
  The index holds the rows that are primary; \<open>visit\<close> is its order, \<open>ltxtq_exec\<close> the test of a path.\<close>

definition get_label_ids_by_path ::
  "'p label_env \<Rightarrow> ('q \<Rightarrow> string \<Rightarrow> bool) \<Rightarrow> (label_row list \<Rightarrow> label_row list)
    \<Rightarrow> ('d np_tables \<Rightarrow> 32 word \<Rightarrow> label_row list option) \<Rightarrow> (string option list \<Rightarrow> store_error + 'q)
    \<Rightarrow> string option \<Rightarrow> string option list option \<Rightarrow> string option \<Rightarrow> ('d, 'p) label_state
    \<Rightarrow> store_error + (32 word list \<times> ('d, 'p) label_state)" where
  "get_label_ids_by_path dv ltxtq_exec visit rows_of to_query graph_name label_array namespace_name st =
     sum_bind (resolve_namespace (dv_graph dv) namespace_name) (\<lambda>nsp.
     case graph_name of
       None \<Rightarrow> Inl (Raised ''graph name must not be NULL'')
     | Some graph_name \<Rightarrow>
         sum_bind (search_graph_in dv graph_name nsp st) (\<lambda>(entry, st).
         case label_array of
           None \<Rightarrow> Inl (Raised ''label array must not be NULL'')
         | Some label_array \<Rightarrow>
             (case rows_of (tables st) (gc_id entry) of
                None \<Rightarrow> Inl (Raised ''relation does not exist'')
              | Some rows \<Rightarrow> sum_bind (to_query label_array) (\<lambda>query.
                  Inr (map lb_id (filter (\<lambda>row. ltxtq_exec query (lb_label row)) (visit (filter lb_is_primary rows))), st)))))"

definition get_vlabel_ids_by_path ::
  "'p label_env \<Rightarrow> (string \<Rightarrow> store_error + 'q) \<Rightarrow> ('q \<Rightarrow> string \<Rightarrow> bool) \<Rightarrow> (label_row list \<Rightarrow> label_row list)
    \<Rightarrow> string option \<Rightarrow> string option list option \<Rightarrow> string option \<Rightarrow> ('d, 'p) label_state
    \<Rightarrow> store_error + (32 word list \<times> ('d, 'p) label_state)" where
  "get_vlabel_ids_by_path dv ltxtq_in ltxtq_exec visit =
     get_label_ids_by_path dv ltxtq_exec visit nt_vertex_label (text_array_to_lxtquery ltxtq_in)"

definition get_or_vlabel_ids_by_path ::
  "'p label_env \<Rightarrow> (string \<Rightarrow> store_error + 'q) \<Rightarrow> ('q \<Rightarrow> string \<Rightarrow> bool) \<Rightarrow> (label_row list \<Rightarrow> label_row list)
    \<Rightarrow> string option \<Rightarrow> string option list option \<Rightarrow> string option \<Rightarrow> ('d, 'p) label_state
    \<Rightarrow> store_error + (32 word list \<times> ('d, 'p) label_state)" where
  "get_or_vlabel_ids_by_path dv ltxtq_in ltxtq_exec visit =
     get_label_ids_by_path dv ltxtq_exec visit nt_vertex_label (text_array_to_lxtquery_or ltxtq_in)"

definition get_elabel_ids_by_path ::
  "'p label_env \<Rightarrow> (string \<Rightarrow> store_error + 'q) \<Rightarrow> ('q \<Rightarrow> string \<Rightarrow> bool) \<Rightarrow> (label_row list \<Rightarrow> label_row list)
    \<Rightarrow> string option \<Rightarrow> string option list option \<Rightarrow> string option \<Rightarrow> ('d, 'p) label_state
    \<Rightarrow> store_error + (32 word list \<times> ('d, 'p) label_state)" where
  "get_elabel_ids_by_path dv ltxtq_in ltxtq_exec visit =
     get_label_ids_by_path dv ltxtq_exec visit nt_edge_label (text_array_to_lxtquery ltxtq_in)"

definition get_or_elabel_ids_by_path ::
  "'p label_env \<Rightarrow> (string \<Rightarrow> store_error + 'q) \<Rightarrow> ('q \<Rightarrow> string \<Rightarrow> bool) \<Rightarrow> (label_row list \<Rightarrow> label_row list)
    \<Rightarrow> string option \<Rightarrow> string option list option \<Rightarrow> string option \<Rightarrow> ('d, 'p) label_state
    \<Rightarrow> store_error + (32 word list \<times> ('d, 'p) label_state)" where
  "get_or_elabel_ids_by_path dv ltxtq_in ltxtq_exec visit =
     get_label_ids_by_path dv ltxtq_exec visit nt_edge_label (text_array_to_lxtquery_or ltxtq_in)"

subsection \<open>The catalogs of a graph\<close>

definition create_label_sequence ::
  "'p label_env \<Rightarrow> string \<Rightarrow> oid \<Rightarrow> ('d, 'p) label_state \<Rightarrow> store_error + (oid \<times> ('d, 'p) label_state)" where
  "create_label_sequence dv seq_name nsp = run_statement dv (CreateSequence nsp seq_name)"

definition create_vertex_label_metadata_table ::
  "'p label_env \<Rightarrow> string \<Rightarrow> ('d, 'p) label_state \<Rightarrow> store_error + (oid \<times> ('d, 'p) label_state)" where
  "create_vertex_label_metadata_table dv meta_tbl_name =
     run_statement dv (CreateTable (np_namespace dv) meta_tbl_name
       [not_null (makeColumnDef ''id'' ''int4'' (-1)), not_null (makeColumnDef ''ltree'' ''ltree'' (-1)),
        not_null (makeColumnDef ''tbl'' ''regclass'' (-1)), not_null (makeColumnDef ''phys_map'' ''regclass'' (-1)),
        not_null (makeColumnDef ''linked_list_meta'' ''regclass'' (-1)),
        not_null (makeColumnDef ''linked_list_seq'' ''regclass'' (-1)),
        not_null (makeColumnDef ''arraylist'' ''regclass'' (-1)),
        not_null (makeColumnDef ''annotations_tbl'' ''regclass'' (-1)),
        makeColumnDef ''annotation_map'' ''text[]'' (-1), not_null (makeColumnDef ''is_primary'' ''bool'' (-1))]
       (Some ''np_catalog''))"

definition create_label_metadata_table ::
  "'p label_env \<Rightarrow> string \<Rightarrow> ('d, 'p) label_state \<Rightarrow> store_error + (oid \<times> ('d, 'p) label_state)" where
  "create_label_metadata_table dv meta_tbl_name =
     execute_internal_create_table dv (np_namespace dv) meta_tbl_name
       [not_null (makeColumnDef ''id'' ''int4'' (-1)), not_null (makeColumnDef ''ltree'' ''ltree'' (-1)),
        not_null (makeColumnDef ''tbl'' ''regclass'' (-1)), not_null (makeColumnDef ''phys_map'' ''regclass'' (-1)),
        makeColumnDef ''annotations_tbl'' ''regclass'' (-1), makeColumnDef ''annotation_map'' ''text[]'' (-1),
        (makeColumnDef ''is_primary'' ''bool'' (-1)) \<lparr> cd_default := Some ''true'' \<rparr>] (Some ''np_catalog'')"

definition create_metadata_btree_index ::
  "'p label_env \<Rightarrow> string \<Rightarrow> ('d, 'p) label_state \<Rightarrow> store_error + ('d, 'p) label_state" where
  "create_metadata_btree_index dv tbl_name =
     execute_internal_create_index dv (np_namespace dv) tbl_name (tbl_name @ ''_btree_idx'') ''id'' ''btree'' True True None"

definition create_metadata_gist_index ::
  "'p label_env \<Rightarrow> string \<Rightarrow> ('d, 'p) label_state \<Rightarrow> store_error + ('d, 'p) label_state" where
  "create_metadata_gist_index dv tbl_name =
     execute_internal_create_index dv (np_namespace dv) tbl_name (tbl_name @ ''_gist_idx'') ''ltree'' ''gist'' False False
       (Some ''is_primary'')"

definition create_default_vlabel ::
  "'p label_env \<Rightarrow> 32 word \<Rightarrow> oid \<Rightarrow> oid \<Rightarrow> ('d, 'p) label_state \<Rightarrow> store_error + (label_row \<times> ('d, 'p) label_state)" where
  "create_default_vlabel dv graph_id vertex_id_seq nsp st =
     sum_bind (nextval vertex_id_seq st) (\<lambda>(label_val, st).
     build_vertex_label_infrastructure dv graph_id (ucast label_val) nsp ''_'' 0 None InvalidOid InvalidOid st)"

definition create_default_elabel ::
  "'p label_env \<Rightarrow> 32 word \<Rightarrow> oid \<Rightarrow> oid \<Rightarrow> ('d, 'p) label_state \<Rightarrow> store_error + (label_row \<times> ('d, 'p) label_state)" where
  "create_default_elabel dv graph_id edge_id_seq nsp st =
     sum_bind (nextval edge_id_seq st) (\<lambda>(label_val, st).
     build_edge_label dv graph_id (ucast label_val) nsp ''_'' None None InvalidOid InvalidOid st)"

text \<open>The new catalog of the labels is empty.\<close>

definition setup_vertex_label_catalog ::
  "'p label_env \<Rightarrow> 32 word \<Rightarrow> oid \<Rightarrow> ('d, 'p) label_state
    \<Rightarrow> store_error + ((oid \<times> oid) \<times> ('d, 'p) label_state)" where
  "setup_vertex_label_catalog dv graph_id nsp st =
     (let meta_tbl_name = ''np_vertex_label_'' @ print_int graph_id in
     sum_bind (create_label_sequence dv (''vertex_label_id_seq_'' @ print_int graph_id) nsp st) (\<lambda>(out_seq, st).
     sum_bind (create_vertex_label_metadata_table dv meta_tbl_name st) (\<lambda>(out_meta, st).
     let nt = tables st; st = with_tables (nt \<lparr> nt_vertex_label := (nt_vertex_label nt)(graph_id := Some []) \<rparr>) st in
     sum_bind (create_metadata_btree_index dv meta_tbl_name st) (\<lambda>st.
     sum_bind (create_metadata_gist_index dv meta_tbl_name st) (\<lambda>st.
     sum_bind (create_default_vlabel dv graph_id out_seq nsp st) (\<lambda>(_, st).
     Inr ((out_seq, out_meta), st)))))))"

definition setup_edge_label_catalog ::
  "'p label_env \<Rightarrow> 32 word \<Rightarrow> oid \<Rightarrow> ('d, 'p) label_state
    \<Rightarrow> store_error + ((oid \<times> oid) \<times> ('d, 'p) label_state)" where
  "setup_edge_label_catalog dv graph_id nsp st =
     (let meta_tbl_name = ''np_edge_label_'' @ print_int graph_id in
     sum_bind (create_label_sequence dv (''edge_label_id_seq_'' @ print_int graph_id) nsp st) (\<lambda>(out_seq, st).
     sum_bind (create_label_metadata_table dv meta_tbl_name st) (\<lambda>(out_meta, st).
     let nt = tables st; st = with_tables (nt \<lparr> nt_edge_label := (nt_edge_label nt)(graph_id := Some []) \<rparr>) st in
     sum_bind (create_metadata_btree_index dv meta_tbl_name st) (\<lambda>st.
     sum_bind (create_metadata_gist_index dv meta_tbl_name st) (\<lambda>st.
     sum_bind (create_default_elabel dv graph_id out_seq nsp st) (\<lambda>(_, st).
     Inr ((out_seq, out_meta), st)))))))"

definition create_annotation_schema_table ::
  "'p label_env \<Rightarrow> 32 word \<Rightarrow> oid \<Rightarrow> ('d, 'p) label_state \<Rightarrow> store_error + (oid \<times> ('d, 'p) label_state)" where
  "create_annotation_schema_table dv graph_id nsp =
     execute_internal_create_table dv nsp (''np_annotation_schema_'' @ print_int graph_id)
       [not_null (makeColumnDef ''id'' ''int4'' (-1)), makeColumnDef ''schema'' ''text[]'' (-1)] (Some ''entity_store'')"

definition create_annotation_schema_phys_map_table ::
  "'p label_env \<Rightarrow> 32 word \<Rightarrow> oid \<Rightarrow> ('d, 'p) label_state \<Rightarrow> store_error + (oid \<times> ('d, 'p) label_state)" where
  "create_annotation_schema_phys_map_table dv graph_id nsp =
     execute_internal_create_table dv nsp (''np_annotation_schema_phys_map_'' @ print_int graph_id)
       vertex_map_columns (Some ''np_mutable'')"

definition create_label_catalog_table ::
  "'p label_env \<Rightarrow> 32 word \<Rightarrow> ('d, 'p) label_state \<Rightarrow> store_error + (oid \<times> ('d, 'p) label_state)" where
  "create_label_catalog_table dv graph_id st =
     (let tbl_name = ''np_label_catalog_'' @ print_int graph_id in
     sum_bind (execute_internal_create_table dv (np_namespace dv) tbl_name
         [not_null (makeColumnDef ''label_name'' ''text'' (-1)), not_null (makeColumnDef ''label_type'' ''char'' (-1))]
         (Some ''np_catalog'') st) (\<lambda>(catalog_oid, st).
     sum_bind (execute_internal_create_index dv (np_namespace dv) tbl_name (tbl_name @ ''_idx'') ''label_name'' ''btree''
         True True None (st \<lparr> ls_label_catalog := (ls_label_catalog st)(graph_id := Some []) \<rparr>)) (\<lambda>st.
     Inr (catalog_oid, st))))"

text \<open>\<open>create_namespace\<close> creates a namespace.  A graph name is a \<open>name\<close> of PostgreSQL.\<close>

definition create_graph ::
  "'p label_env \<Rightarrow> (string \<Rightarrow> oid) \<Rightarrow> string option \<Rightarrow> string option \<Rightarrow> ('d, 'p) label_state
    \<Rightarrow> store_error + ('d, 'p) label_state" where
  "create_graph dv create_namespace graph_name nsp_arg st =
     sum_bind (case nsp_arg of
         None \<Rightarrow> resolve_namespace (dv_graph dv) None
       | Some nsp_str \<Rightarrow> Inr (if OidIsValid (gv_namespaces (dv_graph dv) nsp_str) then gv_namespaces (dv_graph dv) nsp_str
           else create_namespace nsp_str)) (\<lambda>nsp.
     case graph_name of
       None \<Rightarrow> Inl (Raised ''graph name must not be NULL'')
     | Some graph_name \<Rightarrow>
     (case search_graph (dv_graph dv) graph_name nsp (ls_graph st) of
        (Some _, gs) \<Rightarrow> Inl (Raised ''graph already exists in the namespace'')
      | (None, gs) \<Rightarrow>
     let st = st \<lparr> ls_graph := gs \<rparr> in
     sum_bind (nextval (get_relname_relid (rels st) ''np_graph_id_seq'' (np_namespace dv)) st) (\<lambda>(graph_val, st).
     let graph_id = ucast graph_val in
     sum_bind (setup_vertex_label_catalog dv graph_id nsp st) (\<lambda>((vertex_id_seq, vertex_label), st).
     sum_bind (setup_edge_label_catalog dv graph_id nsp st) (\<lambda>((edge_id_seq, edge_label), st).
     sum_bind (create_annotation_schema_table dv graph_id nsp st) (\<lambda>(schema_tbl, st).
     sum_bind (create_annotation_schema_phys_map_table dv graph_id nsp st) (\<lambda>(schema_pmap, st).
     sum_bind (create_label_catalog_table dv graph_id st) (\<lambda>(_, st).
     sum_bind (insert_graph \<lparr> gc_id = graph_id, gc_name = namestrcpy graph_name, gc_namespace = nsp,
         gc_vertex_labels = vertex_label, gc_vertex_id_seq = vertex_id_seq, gc_edge_labels = edge_label,
         gc_edge_id_seq = edge_id_seq, gc_annot_schema_tbl = schema_tbl, gc_annot_schema_phys_map = schema_pmap \<rparr>
         (ls_graph st)) (\<lambda>gs. Inr (st \<lparr> ls_graph := gs \<rparr>))))))))))"

end
