(* ===== verification/Np_Graph_Cycle.thy ===== *)
theory Np_Graph_Cycle
  imports Np_Label_Create
begin

text \<open>
  What creating labels and graphs promises (\<open>src/src/backend/commands/label_commands.c\<close> and
  \<open>src/src/backend/catalog/np_graph.c\<close>): every relation that is created belongs to a label or a graph, so
  that dropping the graph leaves nothing behind.
\<close>

subsection \<open>What PostgreSQL promises\<close>

text \<open>A statement that succeeds adds one relation with a new id, under a name that was free.  An index depends
  on its table, which exists.\<close>

definition execute_ok :: "'p label_env \<Rightarrow> bool" where
  "execute_ok dv \<longleftrightarrow> (\<forall>stmt rs rs'. dv_execute dv stmt rs = Inr rs' \<longrightarrow>
     (\<exists>d. rs' = rs @ [\<lparr> rl_oid = d, rl_name = statement_name stmt, rl_namespace = statement_namespace stmt \<rparr>]
       \<and> OidIsValid d \<and> d \<notin> rl_oid ` set rs
       \<and> (\<forall>r \<in> set rs. \<not> (rl_name r = statement_name stmt \<and> rl_namespace r = statement_namespace stmt))
       \<and> (case stmt of
            CreateIndex nsp idx_name tbl_name col am is_unique is_primary condition \<Rightarrow>
              OidIsValid (get_relname_relid rs tbl_name nsp)
              \<and> d \<in> set (gv_dependents (dv_graph dv) (get_relname_relid rs tbl_name nsp))
          | _ \<Rightarrow> True)))"

text \<open>The dependents of a relation are all that goes with it, and nothing depends on what does not exist yet.\<close>

definition dependents_ok :: "graph_env \<Rightarrow> pg_relation list \<Rightarrow> bool" where
  "dependents_ok gv rs \<longleftrightarrow>
     (\<forall>t u x. t \<in> set (gv_dependents gv u) \<longrightarrow> x \<in> set (gv_dependents gv t) \<longrightarrow> x \<in> set (gv_dependents gv u))
   \<and> (\<forall>d. d \<notin> rl_oid ` set rs \<longrightarrow> set (gv_dependents gv d) \<inter> rl_oid ` set rs = {})"

subsection \<open>Growing\<close>

definition oids :: "('d, 'p) label_state \<Rightarrow> oid set" where
  "oids st = rl_oid ` set (rels st)"

text \<open>Relations are added that are in \<open>S\<close> or depend on one in \<open>S\<close>.  The lists of linked lists stay, but for the
  tables in \<open>M\<close>.\<close>

definition grows :: "'p label_env \<Rightarrow> oid set \<Rightarrow> oid set \<Rightarrow> ('d, 'p) label_state \<Rightarrow> ('d, 'p) label_state \<Rightarrow> bool" where
  "grows dv S M st st' \<longleftrightarrow> (\<exists>new. rels st' = rels st @ new
     \<and> (\<forall>r \<in> set new. OidIsValid (rl_oid r) \<and> rl_oid r \<notin> oids st
         \<and> (rl_oid r \<in> S \<or> (\<exists>t \<in> {t \<in> S. OidIsValid t} \<inter> oids st'. rl_oid r \<in> set (gv_dependents (dv_graph dv) t)))))
   \<and> (\<forall>d \<in> oids st - M. links_of st' d = links_of st d)
   \<and> gs_caches (ls_graph st') = gs_caches (ls_graph st)"

lemma grows_refl: "grows dv {} {} st st"
  by (simp add: grows_def)

lemma grows_oids: "grows dv S M st st' \<Longrightarrow> oids st \<subseteq> oids st'"
  by (auto simp: grows_def oids_def)

lemma grows_trans:
  assumes "grows dv S M st st1" "grows dv T N st1 st2"
  shows "grows dv (S \<union> T) (M \<union> N) st st2"
proof -
  obtain new where n: "rels st1 = rels st @ new" "\<forall>r \<in> set new. OidIsValid (rl_oid r) \<and> rl_oid r \<notin> oids st
         \<and> (rl_oid r \<in> S \<or> (\<exists>t \<in> {t \<in> S. OidIsValid t} \<inter> oids st1. rl_oid r \<in> set (gv_dependents (dv_graph dv) t)))"
    using assms(1) by (auto simp: grows_def)
  obtain new' where n': "rels st2 = rels st1 @ new'" "\<forall>r \<in> set new'. OidIsValid (rl_oid r) \<and> rl_oid r \<notin> oids st1
         \<and> (rl_oid r \<in> T \<or> (\<exists>t \<in> {t \<in> T. OidIsValid t} \<inter> oids st2. rl_oid r \<in> set (gv_dependents (dv_graph dv) t)))"
    using assms(2) by (auto simp: grows_def)
  have "\<forall>d \<in> oids st - (M \<union> N). links_of st2 d = links_of st d"
  proof
    fix d
    assume d: "d \<in> oids st - (M \<union> N)"
    then have "d \<in> oids st1 - N" using grows_oids[OF assms(1)] by blast
    then have "links_of st2 d = links_of st1 d" using assms(2) by (simp add: grows_def)
    also have "\<dots> = links_of st d" using assms(1) d by (simp add: grows_def)
    finally show "links_of st2 d = links_of st d" .
  qed
  moreover have "gs_caches (ls_graph st2) = gs_caches (ls_graph st)" using assms by (simp add: grows_def)
  moreover have "rels st2 = rels st @ (new @ new')" using n(1) n'(1) by simp
  moreover have "OidIsValid (rl_oid r) \<and> rl_oid r \<notin> oids st
      \<and> (rl_oid r \<in> S \<union> T \<or> (\<exists>t \<in> {t \<in> S \<union> T. OidIsValid t} \<inter> oids st2. rl_oid r \<in> set (gv_dependents (dv_graph dv) t)))"
    if "r \<in> set (new @ new')" for r
    using that n(2) n'(2) grows_oids[OF assms(1)] grows_oids[OF assms(2)] by (simp, blast)
  ultimately show ?thesis unfolding grows_def by blast
qed

lemma grows_new_links: "grows dv S M st st' \<Longrightarrow> M \<inter> oids st = {} \<Longrightarrow> grows dv S {} st st'"
  by (auto simp: grows_def)

lemma grows_mono: "grows dv S M st st' \<Longrightarrow> S \<subseteq> T \<Longrightarrow> M \<subseteq> N \<Longrightarrow> grows dv T N st st'"
  unfolding grows_def by blast

text \<open>A name that is found stays.\<close>

lemma relname_append:
  "OidIsValid (get_relname_relid rs name nsp) \<Longrightarrow> get_relname_relid (rs @ new) name nsp = get_relname_relid rs name nsp"
  by (induction rs) (auto simp: get_relname_relid_def OidIsValid_def split: option.splits)

lemma grows_relname:
  "grows dv S M st st' \<Longrightarrow> OidIsValid (get_relname_relid (rels st) name nsp) \<Longrightarrow>
    get_relname_relid (rels st') name nsp = get_relname_relid (rels st) name nsp"
  by (auto simp: grows_def relname_append)

lemma relname_oid:
  assumes "OidIsValid (get_relname_relid (rels st) name nsp)"
  shows "get_relname_relid (rels st) name nsp \<in> oids st"
proof (cases "find (\<lambda>r. rl_name r = name \<and> rl_namespace r = nsp) (rels st)")
  case None
  then show ?thesis using assms by (simp add: get_relname_relid_def OidIsValid_def)
next
  case (Some r)
  then have "r \<in> set (rels st)" by (auto simp: find_Some_iff)
  then show ?thesis using Some by (simp add: get_relname_relid_def oids_def)
qed

subsection \<open>Single statements\<close>

lemma state_simps [simp]:
  "rels (with_rels rs st) = rs" "tables (with_rels rs st) = tables st" "links_of (with_rels rs st) = links_of st"
  "rels (with_links ls st) = rels st" "tables (with_links ls st) = tables st" "links_of (with_links ls st) = ls"
  "rels (with_tables nt st) = rels st" "tables (with_tables nt st) = nt" "links_of (with_tables nt st) = links_of st"
  "gs_caches (ls_graph (with_rels rs st)) = gs_caches (ls_graph st)"
  "gs_caches (ls_graph (with_links ls st)) = gs_caches (ls_graph st)"
  "gs_caches (ls_graph (with_tables nt st)) = gs_caches (ls_graph st)"
  "rels (ls_db_update f st) = rels st" "tables (ls_db_update f st) = tables st" "links_of (ls_db_update f st) = links_of st"
  "rels (ls_last_update g st) = rels st" "tables (ls_last_update g st) = tables st"
  "links_of (ls_last_update g st) = links_of st"
  "rels (ls_label_catalog_update h st) = rels st" "tables (ls_label_catalog_update h st) = tables st"
  "links_of (ls_label_catalog_update h st) = links_of st"
  by (simp_all add: rels_def with_rels_def tables_def links_of_def with_links_def with_tables_def)

lemma relname_new:
  "\<forall>r \<in> set rs. \<not> (rl_name r = name \<and> rl_namespace r = nsp) \<Longrightarrow>
    get_relname_relid (rs @ [\<lparr> rl_oid = d, rl_name = name, rl_namespace = nsp \<rparr>]) name nsp = d"
  by (induction rs) (auto simp: get_relname_relid_def)

lemma run_statement_effect:
  assumes "run_statement dv stmt st = Inr (d, st')" "execute_ok dv"
  shows "\<exists>r. rels st' = rels st @ [r] \<and> rl_oid r = d \<and> OidIsValid d \<and> d \<notin> oids st
    \<and> get_relname_relid (rels st') (statement_name stmt) (statement_namespace stmt) = d
    \<and> (case stmt of
         CreateIndex nsp idx_name tbl_name col am is_unique is_primary condition \<Rightarrow>
           OidIsValid (get_relname_relid (rels st) tbl_name nsp)
           \<and> d \<in> set (gv_dependents (dv_graph dv) (get_relname_relid (rels st) tbl_name nsp))
       | _ \<Rightarrow> True)
    \<and> tables st' = tables st \<and> links_of st' = (links_of st)(d := []) \<and> gs_caches (ls_graph st') = gs_caches (ls_graph st)"
proof -
  obtain rs where rs: "dv_execute dv stmt (rels st) = Inr rs"
    "d = get_relname_relid rs (statement_name stmt) (statement_namespace stmt)"
    "st' = with_links ((links_of (with_rels rs st))(d := [])) (with_rels rs st
       \<lparr> ls_db := (ls_db (with_rels rs st))(d := []), ls_last := (ls_last (with_rels rs st))(d := 0) \<rparr>)"
    using assms(1) by (auto simp: run_statement_def Let_def)
  obtain e where e: "rs = rels st @ [\<lparr> rl_oid = e, rl_name = statement_name stmt, rl_namespace = statement_namespace stmt \<rparr>]"
    "OidIsValid e" "e \<notin> rl_oid ` set (rels st)"
    "\<forall>r \<in> set (rels st). \<not> (rl_name r = statement_name stmt \<and> rl_namespace r = statement_namespace stmt)"
    "case stmt of
       CreateIndex nsp idx_name tbl_name col am is_unique is_primary condition \<Rightarrow>
         OidIsValid (get_relname_relid (rels st) tbl_name nsp)
         \<and> e \<in> set (gv_dependents (dv_graph dv) (get_relname_relid (rels st) tbl_name nsp))
     | _ \<Rightarrow> True"
    using assms(2) rs(1) unfolding execute_ok_def by blast
  have d: "d = e" unfolding rs(2) e(1) by (rule relname_new[OF e(4)])
  show ?thesis unfolding d using rs(2,3) e unfolding d by (simp add: oids_def)
qed

lemma run_statement_grows:
  assumes "run_statement dv stmt st = Inr (d, st')" "execute_ok dv"
  shows "grows dv {d} {} st st'" "tables st' = tables st" "OidIsValid d" "d \<notin> oids st" "d \<in> oids st'"
    "get_relname_relid (rels st') (statement_name stmt) (statement_namespace stmt) = d" "links_of st' d = []"
  using run_statement_effect[OF assms] by (auto simp: grows_def oids_def image_iff)

lemma create_index_grows:
  assumes "execute_internal_create_index dv nsp tbl_name idx_name col am is_unique is_primary condition st = Inr st'"
    "execute_ok dv"
  shows "grows dv {get_relname_relid (rels st) tbl_name nsp} {} st st'" "tables st' = tables st"
proof -
  obtain d where "run_statement dv (CreateIndex nsp idx_name tbl_name col am is_unique is_primary condition) st = Inr (d, st')"
    using assms(1) by (auto simp: execute_internal_create_index_def)
  note e = run_statement_effect[OF this assms(2)]
  then have "get_relname_relid (rels st) tbl_name nsp \<in> oids st" by (intro relname_oid) auto
  then have "get_relname_relid (rels st) tbl_name nsp \<in> oids st'" using e by (auto simp: oids_def)
  then show "grows dv {get_relname_relid (rels st) tbl_name nsp} {} st st'" "tables st' = tables st"
    using e by (auto simp: grows_def oids_def image_iff)
qed

subsection \<open>A vertex label\<close>

lemma nextval_effect:
  assumes "nextval seq st = Inr (v, st')"
  shows "rels st' = rels st" "tables st' = tables st" "links_of st' = links_of st" "ls_graph st' = ls_graph st"
    "v = ls_last st seq + 1" "grows dv {} {} st st'"
  using assms by (auto simp: nextval_def grows_def split: if_splits)

lemma insert_ll_meta_grows:
  assumes "insert_vertex_ll_meta name nsp ll_seq tbl st = Inr st'" "get_relname_relid (rels st) name nsp = meta"
  shows "grows dv {} {meta} st st'" "tables st' = tables st" "rels st' = rels st"
    "map mr_tbl (links_of st' meta) = map mr_tbl (links_of st meta) @ [tbl]"
  using assms by (auto simp: insert_vertex_ll_meta_def Let_def grows_def oids_def split: if_splits)

lemma insert_vertex_label_effect:
  assumes "insert_vertex_label g row st = Inr st'"
  shows "grows dv {} {} st st'"
    "\<exists>rows. nt_vertex_label (tables st) g = Some rows \<and> lb_id row \<notin> lb_id ` set rows
       \<and> tables st' = (tables st) \<lparr> nt_vertex_label := (nt_vertex_label (tables st))(g := Some (rows @ [row])) \<rparr>"
  using assms
  by (auto simp: insert_vertex_label_def append_label_row_def Let_def grows_def split: if_splits option.split_asm)

lemma insert_label_effect:
  assumes "insert_label g row st = Inr st'"
  shows "grows dv {} {} st st'"
    "\<exists>rows. nt_edge_label (tables st) g = Some rows \<and> lb_id row \<notin> lb_id ` set rows
       \<and> tables st' = (tables st) \<lparr> nt_edge_label := (nt_edge_label (tables st))(g := Some (rows @ [row])) \<rparr>"
  using assms
  by (auto simp: insert_label_def append_label_row_def Let_def grows_def split: if_splits option.split_asm)

lemma insert_schema_effect:
  assumes "insert_schema dv l m tbl pmap st = Inr st'"
  shows "grows dv {} {} st st'" "tables st' = tables st" "ls_graph st' = ls_graph st"
  using assms by (auto simp: insert_schema_def Let_def grows_def)

lemma id_sequence_grows:
  assumes "create_entity_id_sequence dv prefix g l st = Inr st'" "execute_ok dv"
  shows "\<exists>d. get_relname_relid (rels st') (label_relation_name prefix g l) (np_namespace dv) = d \<and> OidIsValid d
    \<and> d \<notin> oids st \<and> grows dv {d} {} st st'" "tables st' = tables st"
proof -
  obtain d where run: "run_statement dv (CreateSequence (np_namespace dv) (label_relation_name prefix g l)) st = Inr (d, st')"
    using assms(1) by (auto simp: create_entity_id_sequence_def)
  show "\<exists>d. get_relname_relid (rels st') (label_relation_name prefix g l) (np_namespace dv) = d \<and> OidIsValid d
    \<and> d \<notin> oids st \<and> grows dv {d} {} st st'" "tables st' = tables st"
    using run_statement_grows[OF run assms(2)] by simp_all
qed

lemma dictionary_grows:
  assumes "create_vertex_property_dictionary dv g l st = Inr (d, st')" "execute_ok dv"
  shows "\<exists>e. get_relname_relid (rels st') (label_relation_name ''np_vertex_property_dictionary_'' g l) (np_namespace dv) = d
    \<and> get_relname_relid (rels st') (label_relation_name ''np_vertex_property_dictionary_seq_'' g l) (np_namespace dv) = e
    \<and> OidIsValid d \<and> OidIsValid e \<and> d \<notin> oids st \<and> e \<notin> oids st \<and> grows dv {d, e} {} st st'
    \<and> tables st' = (tables st) \<lparr> nt_dictionary := (nt_dictionary (tables st))(g := (nt_dictionary (tables st) g)(l := Some [])) \<rparr>"
proof -
  obtain cols st1 e st2 where s1: "run_statement dv (CreateTable (np_namespace dv)
      (label_relation_name ''np_vertex_property_dictionary_'' g l) cols None) st = Inr (d, st1)"
    and s2: "run_statement dv (CreateSequence (np_namespace dv)
      (label_relation_name ''np_vertex_property_dictionary_seq_'' g l)) st1 = Inr (e, st2)"
    and s3: "st' = with_tables ((tables st2) \<lparr> nt_dictionary := (nt_dictionary (tables st2))(g :=
      (nt_dictionary (tables st2) g)(l := Some [])) \<rparr>) st2"
    using assms(1) by (auto simp: create_vertex_property_dictionary_def Let_def)
  note g1 = run_statement_grows[OF s1 assms(2)] and g2 = run_statement_grows[OF s2 assms(2)]
  have "grows dv {d, e} {} st st2" using grows_trans[OF g1(1) g2(1)] by (simp add: insert_commute)
  moreover have "grows dv {} {} st2 st'" by (simp add: s3 grows_def)
  ultimately have "grows dv {d, e} {} st st'" using grows_trans by fastforce
  then show ?thesis using g1 g2 s3 grows_relname[OF g2(1)] grows_oids[OF g1(1)] by auto
qed

text \<open>What the pieces of a label are.\<close>

lemma build_vertex_labelE:
  assumes "build_vertex_label_infrastructure dv g l nsp path n annots schema_tbl schema_pmap st = Inr (row, st')"
  obtains name vertex_tbl s1 phys_map s2 arraylist s3 ll_seq s4 ll_val s5 ll_table s6 ll_meta s7 s8 annotations_tbl s9 s10 s11
    s12 dict s13
  where "name = label_relation_name ''np_vertex_'' g l"
    "create_vertex_tables dv g l nsp st = Inr (vertex_tbl, s1)"
    "create_label_vertex_physical_mapping_table dv (name @ ''_phys_map'') nsp s1 = Inr (phys_map, s2)"
    "create_vertex_label_arraylist_table dv (name @ ''_arraylist'') nsp s2 = Inr (arraylist, s3)"
    "create_linked_list_table_sequence dv (name @ ''_linked_list_seq'') s3 = Inr (ll_seq, s4)"
    "nextval ll_seq s4 = Inr (ll_val, s5)"
    "create_vertex_label_linked_list_table dv (name @ ''_'' @ print_int (ucast ll_val) @ ''_linked_list'') nsp s5 = Inr (ll_table, s6)"
    "create_vertex_label_linked_list_metadata_table dv (name @ ''_linked_list_meta'') nsp s6 = Inr (ll_meta, s7)"
    "insert_vertex_ll_meta (name @ ''_linked_list_meta'') nsp (ucast ll_val) ll_table s7 = Inr s8"
    "create_vertex_label_annotation_table dv (name @ ''_annotations'') nsp n s8 = Inr (annotations_tbl, s9)"
    "row = \<lparr> lb_id = l, lb_label = path, lb_tbl = vertex_tbl, lb_phys_map = phys_map, lb_linked_list_meta = ll_meta,
       lb_linked_list_seq = ll_seq, lb_arraylist = arraylist, lb_annotations_tbl = Some annotations_tbl,
       lb_annotation_map = annots, lb_is_primary = True \<rparr>"
    "insert_vertex_label g row s9 = Inr s10"
    "(case annots of Some m \<Rightarrow> if OidIsValid schema_tbl then insert_schema dv l m schema_tbl schema_pmap s10 else Inr s10
      | None \<Rightarrow> Inr s10) = Inr s11"
    "create_entity_id_sequence dv ''np_vertex_id_seq_'' g l s11 = Inr s12"
    "create_vertex_property_dictionary dv g l s12 = Inr (dict, s13)"
    "create_vertex_dictionary_metadata_btree_index dv g l s13 = Inr st'"
  using assms unfolding build_vertex_label_infrastructure_def Let_def sum_bind_eq_Inr split_paired_Ex case_prod_conv
  by (elim exE conjE) (auto intro: that)

lemmas create_defs = create_vertex_tables_def create_edge_tables_def create_entity_table_def
  execute_internal_create_table_def create_label_vertex_physical_mapping_table_def
  create_label_edge_physical_mapping_table_def create_vertex_label_arraylist_table_def
  create_vertex_label_linked_list_table_def create_vertex_label_linked_list_metadata_table_def
  create_vertex_label_annotation_table_def create_linked_list_table_sequence_def create_label_sequence_def
  create_vertex_label_metadata_table_def create_label_metadata_table_def create_annotation_schema_table_def
  create_annotation_schema_phys_map_table_def

text \<open>The relations of a label as they can be found in a state.\<close>

definition found_rels :: "'p label_env \<Rightarrow> 32 word \<Rightarrow> label_row \<Rightarrow> ('d, 'p) label_state \<Rightarrow> oid set" where
  "found_rels dv g row st = vertex_label_rels (dv_graph dv) (ls_graph st) g row"

definition names_found :: "'p label_env \<Rightarrow> 32 word \<Rightarrow> label_row \<Rightarrow> ('d, 'p) label_state \<Rightarrow> bool" where
  "names_found dv g row st \<longleftrightarrow>
     (\<forall>name \<in> set (vertex_label_names g (lb_id row)). OidIsValid (get_relname_relid (rels st) name (np_namespace dv)))
   \<and> lb_linked_list_meta row \<in> oids st"

lemma found_rels_grow:
  assumes "grows dv S M st st'" "names_found dv g row st" "lb_linked_list_meta row \<notin> M"
  shows "found_rels dv g row st' = found_rels dv g row st" "names_found dv g row st'"
proof -
  have same: "get_relname_relid (rels st') name (np_namespace dv) = get_relname_relid (rels st) name (np_namespace dv)"
    if "name \<in> set (vertex_label_names g (lb_id row))" for name
    using that assms(2) by (intro grows_relname[OF assms(1)]) (simp add: names_found_def)
  have "links_of st' (lb_linked_list_meta row) = links_of st (lb_linked_list_meta row)"
    using assms by (simp add: grows_def names_found_def)
  moreover have "(\<lambda>name. get_relname_relid (gs_rels (ls_graph st')) name (gv_np_namespace (dv_graph dv))) ` set (vertex_label_names g (lb_id row)) =
      (\<lambda>name. get_relname_relid (gs_rels (ls_graph st)) name (gv_np_namespace (dv_graph dv))) ` set (vertex_label_names g (lb_id row))"
    by (rule image_cong[OF refl]) (use same in \<open>simp add: rels_def np_namespace_def\<close>)
  ultimately show "found_rels dv g row st' = found_rels dv g row st"
    by (simp only: found_rels_def vertex_label_rels_def links_of_def)
  show "names_found dv g row st'"
    using assms(2) same grows_oids[OF assms(1)] by (auto simp: names_found_def)
qed

lemma build_vertex_label_grows:
  assumes "build_vertex_label_infrastructure dv g l nsp path n annots schema_tbl schema_pmap st = Inr (row, st')"
    "execute_ok dv"
  shows "grows dv (found_rels dv g row st') {} st st'" "names_found dv g row st'" "found_rels dv g row st' \<inter> oids st = {}"
    "lb_id row = l \<and> lb_label row = path \<and> lb_annotation_map row = annots \<and> lb_is_primary row"
    "\<exists>rows. nt_vertex_label (tables st) g = Some rows \<and> lb_id row \<notin> lb_id ` set rows
       \<and> tables st' = (tables st) \<lparr> nt_vertex_label := (nt_vertex_label (tables st))(g := Some (rows @ [row])),
           nt_dictionary := (nt_dictionary (tables st))(g := (nt_dictionary (tables st) g)(l := Some [])) \<rparr>"
proof -
  obtain name vertex_tbl s1 phys_map s2 arraylist s3 ll_seq s4 ll_val s5 ll_table s6 ll_meta s7 s8 annotations_tbl s9 s10 s11
      s12 dict s13 where
    t: "create_vertex_tables dv g l nsp st = Inr (vertex_tbl, s1)"
      "create_label_vertex_physical_mapping_table dv (name @ ''_phys_map'') nsp s1 = Inr (phys_map, s2)"
      "create_vertex_label_arraylist_table dv (name @ ''_arraylist'') nsp s2 = Inr (arraylist, s3)"
      "create_linked_list_table_sequence dv (name @ ''_linked_list_seq'') s3 = Inr (ll_seq, s4)"
      "nextval ll_seq s4 = Inr (ll_val, s5)"
      "create_vertex_label_linked_list_table dv (name @ ''_'' @ print_int (ucast ll_val) @ ''_linked_list'') nsp s5 = Inr (ll_table, s6)"
      "create_vertex_label_linked_list_metadata_table dv (name @ ''_linked_list_meta'') nsp s6 = Inr (ll_meta, s7)"
      "insert_vertex_ll_meta (name @ ''_linked_list_meta'') nsp (ucast ll_val) ll_table s7 = Inr s8"
      "create_vertex_label_annotation_table dv (name @ ''_annotations'') nsp n s8 = Inr (annotations_tbl, s9)"
    and row: "row = \<lparr> lb_id = l, lb_label = path, lb_tbl = vertex_tbl, lb_phys_map = phys_map, lb_linked_list_meta = ll_meta,
       lb_linked_list_seq = ll_seq, lb_arraylist = arraylist, lb_annotations_tbl = Some annotations_tbl,
       lb_annotation_map = annots, lb_is_primary = True \<rparr>"
    and u: "insert_vertex_label g row s9 = Inr s10"
      "(case annots of Some m \<Rightarrow> if OidIsValid schema_tbl then insert_schema dv l m schema_tbl schema_pmap s10 else Inr s10
        | None \<Rightarrow> Inr s10) = Inr s11"
      "create_entity_id_sequence dv ''np_vertex_id_seq_'' g l s11 = Inr s12"
      "create_vertex_property_dictionary dv g l s12 = Inr (dict, s13)"
      "create_vertex_dictionary_metadata_btree_index dv g l s13 = Inr st'"
    by (rule build_vertex_labelE[OF assms(1)])
  note g1 = run_statement_grows[OF t(1)[unfolded create_defs] assms(2)]
    and g2 = run_statement_grows[OF t(2)[unfolded create_defs] assms(2)]
    and g3 = run_statement_grows[OF t(3)[unfolded create_defs] assms(2)]
    and g4 = run_statement_grows[OF t(4)[unfolded create_defs] assms(2)]
    and g5 = nextval_effect[OF t(5)]
    and g6 = run_statement_grows[OF t(6)[unfolded create_defs] assms(2)]
    and g7 = run_statement_grows[OF t(7)[unfolded create_defs] assms(2)]
    and g9 = run_statement_grows[OF t(9)[unfolded create_defs] assms(2)]
    and g10 = insert_vertex_label_effect[OF u(1)]
    and g13 = dictionary_grows[OF u(4) assms(2)]
  have g8: "grows dv {} {ll_meta} s7 s8" "tables s8 = tables s7" "rels s8 = rels s7"
    "map mr_tbl (links_of s8 ll_meta) = map mr_tbl (links_of s7 ll_meta) @ [ll_table]"
    using insert_ll_meta_grows[OF t(8)] g7(6) by simp_all
  have g11: "grows dv {} {} s10 s11" "tables s11 = tables s10"
    using u(2) insert_schema_effect[of dv l _ schema_tbl schema_pmap s10 s11] grows_refl[of dv s10]
    by (auto split: option.split_asm if_splits)
  obtain id_seq where g12: "get_relname_relid (rels s12) (label_relation_name ''np_vertex_id_seq_'' g l) (np_namespace dv) = id_seq"
    "OidIsValid id_seq" "grows dv {id_seq} {} s11 s12" "tables s12 = tables s11" "id_seq \<notin> oids s11"
    using id_sequence_grows[OF u(3) assms(2)] by blast
  obtain dict_seq where g13: "get_relname_relid (rels s13) (label_relation_name ''np_vertex_property_dictionary_'' g l) (np_namespace dv) = dict"
    "get_relname_relid (rels s13) (label_relation_name ''np_vertex_property_dictionary_seq_'' g l) (np_namespace dv) = dict_seq"
    "OidIsValid dict" "OidIsValid dict_seq" "grows dv {dict, dict_seq} {} s12 s13"
    "tables s13 = (tables s12) \<lparr> nt_dictionary := (nt_dictionary (tables s12))(g := (nt_dictionary (tables s12) g)(l := Some [])) \<rparr>"
    "dict \<notin> oids s12" "dict_seq \<notin> oids s12"
    using g13 by blast
  have g14: "grows dv {dict} {} s13 st'" "tables st' = tables s13"
    using create_index_grows[OF u(5)[unfolded create_vertex_dictionary_metadata_btree_index_def] assms(2)] g13(1) by simp_all
  have to7: "grows dv {vertex_tbl, phys_map, arraylist, ll_seq, ll_table, ll_meta} {} st s7"
    by (rule grows_mono[OF grows_trans[OF g1(1) grows_trans[OF g2(1) grows_trans[OF g3(1) grows_trans[OF g4(1)
      grows_trans[OF g5(6) grows_trans[OF g6(1) g7(1)]]]]]]]) auto
  have from8: "grows dv {annotations_tbl, id_seq, dict, dict_seq} {} s8 st'"
    by (rule grows_mono[OF grows_trans[OF g9(1) grows_trans[OF g10(1) grows_trans[OF g11(1) grows_trans[OF g12(3)
      grows_trans[OF g13(5) g14(1)]]]]]]) auto
  have meta: "ll_meta \<notin> oids st" "ll_meta \<in> oids s8" "OidIsValid ll_meta"
    using g7(3-5) g8(3) grows_oids[OF grows_trans[OF g1(1) grows_trans[OF g2(1) grows_trans[OF g3(1) grows_trans[OF g4(1) grows_trans[OF g5(6)
      g6(1)]]]]]] by (auto simp: oids_def)
  have all: "grows dv ({vertex_tbl, phys_map, arraylist, ll_seq, ll_table, ll_meta} \<union> {annotations_tbl, id_seq, dict, dict_seq}) {ll_meta} st st'"
    by (rule grows_mono[OF grows_trans[OF grows_trans[OF to7 g8(1)] from8]]) auto
  have names: "get_relname_relid (rels st') (label_relation_name ''np_vertex_id_seq_'' g l) (np_namespace dv) = id_seq"
    "get_relname_relid (rels st') (label_relation_name ''np_vertex_property_dictionary_'' g l) (np_namespace dv) = dict"
    "get_relname_relid (rels st') (label_relation_name ''np_vertex_property_dictionary_seq_'' g l) (np_namespace dv) = dict_seq"
    using g12 g13 grows_relname[OF g13(5), of "label_relation_name ''np_vertex_id_seq_'' g l"]
      grows_relname[OF g14(1), of "label_relation_name ''np_vertex_id_seq_'' g l"]
      grows_relname[OF g14(1), of "label_relation_name ''np_vertex_property_dictionary_'' g l"]
      grows_relname[OF g14(1), of "label_relation_name ''np_vertex_property_dictionary_seq_'' g l"] by simp_all
  have "links_of st' ll_meta = links_of s8 ll_meta" using from8 meta(2) by (simp add: grows_def)
  then have "set (map mr_tbl (links_of st' ll_meta)) = {ll_table}" using g8(4) g7(7) by simp
  then have ten: "found_rels dv g row st' = {vertex_tbl, phys_map, arraylist, ll_seq, ll_table, ll_meta} \<union> {annotations_tbl, id_seq, dict, dict_seq}"
    using meta(3) names by (auto simp: found_rels_def vertex_label_rels_def row option_oid_def links_of_def
        vertex_label_names_def rels_def np_namespace_def)
  then have found: "{vertex_tbl, phys_map, arraylist, ll_seq, ll_table, ll_meta} \<union> {annotations_tbl, id_seq, dict, dict_seq} \<subseteq> found_rels dv g row st'"
    by simp
  show "grows dv (found_rels dv g row st') {} st st'"
    by (rule grows_mono[OF grows_new_links[OF all] found]) (use meta(1) in simp_all)
  show "names_found dv g row st'"
    using names g12(2) g13(3,4) meta(2) grows_oids[OF from8] by (auto simp: names_found_def vertex_label_names_def row)
  have sub: "oids st \<subseteq> oids s1" "oids s1 \<subseteq> oids s2" "oids s2 \<subseteq> oids s3" "oids s3 \<subseteq> oids s4" "oids s4 \<subseteq> oids s5"
    "oids s5 \<subseteq> oids s6" "oids s6 \<subseteq> oids s7" "oids s7 \<subseteq> oids s8" "oids s8 \<subseteq> oids s9" "oids s9 \<subseteq> oids s10" "oids s10 \<subseteq> oids s11"
    "oids s11 \<subseteq> oids s12"
    using grows_oids[OF g1(1)] grows_oids[OF g2(1)] grows_oids[OF g3(1)] grows_oids[OF g4(1)] grows_oids[OF g5(6)]
      grows_oids[OF g6(1)] grows_oids[OF g7(1)] grows_oids[OF g8(1)] grows_oids[OF g9(1)] grows_oids[OF g10(1)]
      grows_oids[OF g11(1)] grows_oids[OF g12(3)] by simp_all
  have "id_seq \<notin> oids st" "dict \<notin> oids st" "dict_seq \<notin> oids st"
    using g12(5) g13(7,8) sub by blast+
  then show "found_rels dv g row st' \<inter> oids st = {}"
    unfolding ten using g1(4) g2(4) g3(4) g4(4) g6(4) g7(4) g9(4) sub by blast
  show "lb_id row = l \<and> lb_label row = path \<and> lb_annotation_map row = annots \<and> lb_is_primary row" by (simp add: row)
  obtain rows where "nt_vertex_label (tables s9) g = Some rows" "lb_id row \<notin> lb_id ` set rows"
    "tables s10 = (tables s9) \<lparr> nt_vertex_label := (nt_vertex_label (tables s9))(g := Some (rows @ [row])) \<rparr>"
    using g10(2) by blast
  moreover have "tables s9 = tables st"
    using g1(2) g2(2) g3(2) g4(2) g5(2) g6(2) g7(2) g8(2) g9(2) by simp
  ultimately show "\<exists>rows. nt_vertex_label (tables st) g = Some rows \<and> lb_id row \<notin> lb_id ` set rows
       \<and> tables st' = (tables st) \<lparr> nt_vertex_label := (nt_vertex_label (tables st))(g := Some (rows @ [row])),
           nt_dictionary := (nt_dictionary (tables st))(g := (nt_dictionary (tables st) g)(l := Some [])) \<rparr>"
    using g11(2) g12(4) g13(6) g14(2) by (intro exI[of _ rows]) simp
qed

subsection \<open>An edge label\<close>

definition found_edge_rels :: "'p label_env \<Rightarrow> 32 word \<Rightarrow> label_row \<Rightarrow> ('d, 'p) label_state \<Rightarrow> oid set" where
  "found_edge_rels dv g row st = edge_label_rels (dv_graph dv) (ls_graph st) g row"

definition edge_name_found :: "'p label_env \<Rightarrow> 32 word \<Rightarrow> label_row \<Rightarrow> ('d, 'p) label_state \<Rightarrow> bool" where
  "edge_name_found dv g row st \<longleftrightarrow>
     OidIsValid (get_relname_relid (rels st) (label_relation_name ''np_edge_id_seq_'' g (lb_id row)) (np_namespace dv))"

lemma found_edge_rels_grow:
  assumes "grows dv S M st st'" "edge_name_found dv g row st"
  shows "found_edge_rels dv g row st' = found_edge_rels dv g row st" "edge_name_found dv g row st'"
  using grows_relname[OF assms(1) assms(2)[unfolded edge_name_found_def]] assms(2)
  by (simp_all add: found_edge_rels_def edge_label_rels_def edge_name_found_def rels_def np_namespace_def)

lemma build_edge_label_grows:
  assumes "build_edge_label dv g l nsp path annots annot_map schema_tbl schema_pmap st = Inr (row, st')" "execute_ok dv"
  shows "grows dv (found_edge_rels dv g row st') {} st st'" "edge_name_found dv g row st'"
    "found_edge_rels dv g row st' \<inter> oids st = {}"
    "lb_id row = l \<and> lb_label row = path \<and> lb_annotation_map row = annot_map \<and> lb_is_primary row"
    "\<exists>rows. nt_edge_label (tables st) g = Some rows \<and> lb_id row \<notin> lb_id ` set rows
       \<and> tables st' = (tables st) \<lparr> nt_edge_label := (nt_edge_label (tables st))(g := Some (rows @ [row])) \<rparr>"
proof -
  obtain edge_tbl s1 phys_map s2 annot_tbl s3 s4 where
    t: "create_edge_tables dv g l nsp st = Inr (edge_tbl, s1)"
      "create_label_edge_physical_mapping_table dv (label_relation_name ''np_edge_'' g l @ ''_phys_map'') nsp s1 = Inr (phys_map, s2)"
    and a: "(case annots of
         None \<Rightarrow> Inr (InvalidOid, s2)
       | Some m \<Rightarrow>
           sum_bind (create_vertex_label_annotation_table dv (label_relation_name ''np_edge_annotations_'' g l)
               nsp (byte_allocation m) s2) (\<lambda>(annot_tbl_oid, st).
           sum_bind (insert_schema dv l m schema_tbl schema_pmap st) (\<lambda>st. Inr (annot_tbl_oid, st)))) = Inr (annot_tbl, s3)"
    and row: "row = edge_label_row l path edge_tbl phys_map annot_tbl annot_map"
    and u: "insert_label g row s3 = Inr s4" "create_entity_id_sequence dv ''np_edge_id_seq_'' g l s4 = Inr st'"
    using assms(1) unfolding build_edge_label_def Let_def sum_bind_eq_Inr split_paired_Ex case_prod_conv
    by (elim exE conjE) (auto intro: that)
  note g1 = run_statement_grows[OF t(1)[unfolded create_defs] assms(2)]
    and g2 = run_statement_grows[OF t(2)[unfolded create_defs] assms(2)]
    and g4 = insert_label_effect[OF u(1)]
  have g3: "grows dv ({annot_tbl} - {InvalidOid}) {} s2 s3" "tables s3 = tables s2" "annot_tbl \<notin> oids s2 \<or> annot_tbl = InvalidOid"
  proof -
    show "annot_tbl \<notin> oids s2 \<or> annot_tbl = InvalidOid"
      using a run_statement_grows(4)[OF _ assms(2)] by (auto simp: create_defs split: option.split_asm)
    show "grows dv ({annot_tbl} - {InvalidOid}) {} s2 s3"
    proof (cases annots)
      case None
      then show ?thesis using a by (auto simp: grows_refl)
    next
      case (Some m)
      then obtain sa where s: "create_vertex_label_annotation_table dv (label_relation_name ''np_edge_annotations_'' g l)
          nsp (byte_allocation m) s2 = Inr (annot_tbl, sa)" "insert_schema dv l m schema_tbl schema_pmap sa = Inr s3"
        using a by auto
      note ga = run_statement_grows[OF s(1)[unfolded create_defs] assms(2)]
      show ?thesis
        by (rule grows_mono[OF grows_trans[OF ga(1) insert_schema_effect(1)[OF s(2)]]])
          (use ga(3) in \<open>auto simp: OidIsValid_def InvalidOid_def\<close>)
    qed
    show "tables s3 = tables s2"
    proof (cases annots)
      case (Some m)
      then obtain sa where s: "create_vertex_label_annotation_table dv (label_relation_name ''np_edge_annotations_'' g l)
          nsp (byte_allocation m) s2 = Inr (annot_tbl, sa)" "insert_schema dv l m schema_tbl schema_pmap sa = Inr s3"
        using a by auto
      then show ?thesis
        using run_statement_grows(2)[OF s(1)[unfolded create_defs] assms(2)] insert_schema_effect(2)[OF s(2)] by simp
    qed (use a in auto)
  qed
  obtain id_seq where g5: "get_relname_relid (rels st') (label_relation_name ''np_edge_id_seq_'' g l) (np_namespace dv) = id_seq"
    "OidIsValid id_seq" "grows dv {id_seq} {} s4 st'" "tables st' = tables s4" "id_seq \<notin> oids s4"
    using id_sequence_grows[OF u(2) assms(2)] by blast
  have four: "found_edge_rels dv g row st' = {edge_tbl, phys_map, id_seq} \<union> ({annot_tbl} - {InvalidOid})"
    using g5(1) by (auto simp: found_edge_rels_def edge_label_rels_def row edge_label_row_def option_oid_def OidIsValid_def
        InvalidOid_def rels_def np_namespace_def)
  then show "grows dv (found_edge_rels dv g row st') {} st st'"
    by (intro grows_mono[OF grows_trans[OF g1(1) grows_trans[OF g2(1) grows_trans[OF g3(1) grows_trans[OF g4(1) g5(3)]]]]]) auto
  have "oids st \<subseteq> oids s1" "oids s1 \<subseteq> oids s2" "oids s2 \<subseteq> oids s3" "oids s3 \<subseteq> oids s4"
    using grows_oids[OF g1(1)] grows_oids[OF g2(1)] grows_oids[OF g3(1)] grows_oids[OF g4(1)] by simp_all
  then show "found_edge_rels dv g row st' \<inter> oids st = {}"
    unfolding four using g1(4) g2(4) g3(3) g5(5) by blast
  show "edge_name_found dv g row st'" using g5(1,2) by (simp add: edge_name_found_def row edge_label_row_def)
  show "lb_id row = l \<and> lb_label row = path \<and> lb_annotation_map row = annot_map \<and> lb_is_primary row"
    by (simp add: row edge_label_row_def)
  show "\<exists>rows. nt_edge_label (tables st) g = Some rows \<and> lb_id row \<notin> lb_id ` set rows
       \<and> tables st' = (tables st) \<lparr> nt_edge_label := (nt_edge_label (tables st))(g := Some (rows @ [row])) \<rparr>"
    using g4(2) g5(4) g3(2) g1(2) g2(2) by simp
qed

subsection \<open>The catalogs of a graph\<close>

lemma setup_vertex_grows:
  assumes "setup_vertex_label_catalog dv g nsp st = Inr ((seq, meta), st')" "execute_ok dv"
  shows "\<exists>row. grows dv ({seq, meta} \<union> found_rels dv g row st') {} st st' \<and> names_found dv g row st'
    \<and> ({seq, meta} \<union> found_rels dv g row st') \<inter> oids st = {} \<and> OidIsValid seq \<and> OidIsValid meta
    \<and> tables st' = (tables st) \<lparr> nt_vertex_label := (nt_vertex_label (tables st))(g := Some [row]),
        nt_dictionary := (nt_dictionary (tables st))(g := (nt_dictionary (tables st) g)(lb_id row := Some [])) \<rparr>"
proof -
  let ?name = "''np_vertex_label_'' @ print_int g"
  obtain s1 s2 s3 s4 v s5 row where
    t: "create_label_sequence dv (''vertex_label_id_seq_'' @ print_int g) nsp st = Inr (seq, s1)"
      "create_vertex_label_metadata_table dv ?name s1 = Inr (meta, s2)"
    and u: "create_metadata_btree_index dv ?name (with_tables ((tables s2)
        \<lparr> nt_vertex_label := (nt_vertex_label (tables s2))(g := Some []) \<rparr>) s2) = Inr s3"
      "create_metadata_gist_index dv ?name s3 = Inr s4" "nextval seq s4 = Inr (v, s5)"
      "build_vertex_label_infrastructure dv g (ucast v) nsp ''_'' 0 None InvalidOid InvalidOid s5 = Inr (row, st')"
    using assms(1) unfolding setup_vertex_label_catalog_def create_default_vlabel_def Let_def sum_bind_eq_Inr
      split_paired_Ex case_prod_conv
    by (elim exE conjE) (auto intro: that)
  let ?s = "with_tables ((tables s2) \<lparr> nt_vertex_label := (nt_vertex_label (tables s2))(g := Some []) \<rparr>) s2"
  note g1 = run_statement_grows[OF t(1)[unfolded create_defs] assms(2)]
    and g2 = run_statement_grows[OF t(2)[unfolded create_defs] assms(2)]
    and g3 = create_index_grows[OF u(1)[unfolded create_metadata_btree_index_def] assms(2)]
    and g4 = create_index_grows[OF u(2)[unfolded create_metadata_gist_index_def] assms(2)]
    and g5 = nextval_effect[OF u(3)]
    and g6 = build_vertex_label_grows[OF u(4) assms(2)]
  have g2': "grows dv {} {} s2 ?s" by (simp add: grows_def)
  have m: "get_relname_relid (rels ?s) ?name (np_namespace dv) = meta" using g2(6) by simp
  then have m': "get_relname_relid (rels s3) ?name (np_namespace dv) = meta"
    using grows_relname[OF g3(1)] g2(3) by simp
  have "oids st \<subseteq> oids s1" "oids s1 \<subseteq> oids s2" "oids s2 \<subseteq> oids s3" "oids s3 \<subseteq> oids s4" "oids s4 \<subseteq> oids s5"
    using grows_oids[OF g1(1)] grows_oids[OF g2(1)] grows_oids[OF g3(1)] grows_oids[OF g4(1)] grows_oids[OF g5(6)]
    by (simp_all add: oids_def)
  then have "({seq, meta} \<union> found_rels dv g row st') \<inter> oids st = {}"
    using g1(4) g2(4) g6(3) by blast
  moreover have "grows dv ({seq, meta} \<union> found_rels dv g row st') {} st st'"
    by (rule grows_mono[OF grows_trans[OF g1(1) grows_trans[OF g2(1) grows_trans[OF g2' grows_trans[OF g3(1) grows_trans[OF g4(1)
      grows_trans[OF g5(6) g6(1)]]]]]]]) (use m m' in auto)
  moreover have "tables s5 = (tables st) \<lparr> nt_vertex_label := (nt_vertex_label (tables st))(g := Some []) \<rparr>"
    using g1(2) g2(2) g3(2) g4(2) g5(2) by simp
  then have "tables st' = (tables st) \<lparr> nt_vertex_label := (nt_vertex_label (tables st))(g := Some [row]),
        nt_dictionary := (nt_dictionary (tables st))(g := (nt_dictionary (tables st) g)(lb_id row := Some [])) \<rparr>"
    using g6(4,5) by auto
  ultimately show ?thesis using g6(2) g1(3) g2(3) by blast
qed

lemma setup_edge_grows:
  assumes "setup_edge_label_catalog dv g nsp st = Inr ((seq, meta), st')" "execute_ok dv"
  shows "\<exists>row. grows dv ({seq, meta} \<union> found_edge_rels dv g row st') {} st st' \<and> edge_name_found dv g row st'
    \<and> ({seq, meta} \<union> found_edge_rels dv g row st') \<inter> oids st = {} \<and> OidIsValid seq \<and> OidIsValid meta
    \<and> tables st' = (tables st) \<lparr> nt_edge_label := (nt_edge_label (tables st))(g := Some [row]) \<rparr>"
proof -
  let ?name = "''np_edge_label_'' @ print_int g"
  obtain s1 s2 s3 s4 v s5 row where
    t: "create_label_sequence dv (''edge_label_id_seq_'' @ print_int g) nsp st = Inr (seq, s1)"
      "create_label_metadata_table dv ?name s1 = Inr (meta, s2)"
    and u: "create_metadata_btree_index dv ?name (with_tables ((tables s2)
        \<lparr> nt_edge_label := (nt_edge_label (tables s2))(g := Some []) \<rparr>) s2) = Inr s3"
      "create_metadata_gist_index dv ?name s3 = Inr s4" "nextval seq s4 = Inr (v, s5)"
      "build_edge_label dv g (ucast v) nsp ''_'' None None InvalidOid InvalidOid s5 = Inr (row, st')"
    using assms(1) unfolding setup_edge_label_catalog_def create_default_elabel_def Let_def sum_bind_eq_Inr
      split_paired_Ex case_prod_conv
    by (elim exE conjE) (auto intro: that)
  let ?s = "with_tables ((tables s2) \<lparr> nt_edge_label := (nt_edge_label (tables s2))(g := Some []) \<rparr>) s2"
  note g1 = run_statement_grows[OF t(1)[unfolded create_defs] assms(2)]
    and g2 = run_statement_grows[OF t(2)[unfolded create_defs] assms(2)]
    and g3 = create_index_grows[OF u(1)[unfolded create_metadata_btree_index_def] assms(2)]
    and g4 = create_index_grows[OF u(2)[unfolded create_metadata_gist_index_def] assms(2)]
    and g5 = nextval_effect[OF u(3)]
    and g6 = build_edge_label_grows[OF u(4) assms(2)]
  have g2': "grows dv {} {} s2 ?s" by (simp add: grows_def)
  have m: "get_relname_relid (rels ?s) ?name (np_namespace dv) = meta" using g2(6) by simp
  then have m': "get_relname_relid (rels s3) ?name (np_namespace dv) = meta"
    using grows_relname[OF g3(1)] g2(3) by simp
  have "oids st \<subseteq> oids s1" "oids s1 \<subseteq> oids s2" "oids s2 \<subseteq> oids s3" "oids s3 \<subseteq> oids s4" "oids s4 \<subseteq> oids s5"
    using grows_oids[OF g1(1)] grows_oids[OF g2(1)] grows_oids[OF g3(1)] grows_oids[OF g4(1)] grows_oids[OF g5(6)]
    by (simp_all add: oids_def)
  then have "({seq, meta} \<union> found_edge_rels dv g row st') \<inter> oids st = {}"
    using g1(4) g2(4) g6(3) by blast
  moreover have "grows dv ({seq, meta} \<union> found_edge_rels dv g row st') {} st st'"
    by (rule grows_mono[OF grows_trans[OF g1(1) grows_trans[OF g2(1) grows_trans[OF g2' grows_trans[OF g3(1) grows_trans[OF g4(1)
      grows_trans[OF g5(6) g6(1)]]]]]]]) (use m m' in auto)
  moreover have "tables s5 = (tables st) \<lparr> nt_edge_label := (nt_edge_label (tables st))(g := Some []) \<rparr>"
    using g1(2) g2(2) g3(2) g4(2) g5(2) by simp
  then have "tables st' = (tables st) \<lparr> nt_edge_label := (nt_edge_label (tables st))(g := Some [row]) \<rparr>"
    using g6(5) by auto
  ultimately show ?thesis using g6(2) g1(3) g2(3) by blast
qed

subsection \<open>Dropping what was created\<close>

lemma drop_rel_filter: "\<exists>P. np_drop_rel gv rs relid = filter P rs"
  by (auto simp: np_drop_rel_def intro: exI[of _ "\<lambda>_. True"])

lemma drop_rels_filter: "\<exists>P. foldl (np_drop_rel gv) rs ds = filter P rs"
proof (induction ds arbitrary: rs)
  case Nil
  show ?case by (auto intro: exI[of _ "\<lambda>_. True"])
next
  case (Cons d ds)
  obtain P where "np_drop_rel gv rs d = filter P rs" using drop_rel_filter by blast
  moreover obtain Q where "foldl (np_drop_rel gv) (np_drop_rel gv rs d) ds = filter Q (np_drop_rel gv rs d)"
    using Cons by blast
  ultimately show ?case by auto
qed

lemma drop_rels_subset: "set (foldl (np_drop_rel gv) rs ds) \<subseteq> set rs"
  using drop_rels_filter[of gv rs ds] by auto

lemma dropped_dependents:
  assumes "\<forall>t u x. t \<in> set (gv_dependents gv u) \<longrightarrow> x \<in> set (gv_dependents gv t) \<longrightarrow> x \<in> set (gv_dependents gv u)"
    "t \<in> set ds" "OidIsValid t"
    "t \<in> rl_oid ` set rs \<or> (\<forall>r \<in> set rs. rl_oid r \<notin> set (gv_dependents gv t))"
    "r \<in> set (foldl (np_drop_rel gv) rs ds)"
  shows "rl_oid r \<notin> set (gv_dependents gv t)"
  using assms(2,4,5)
proof (induction ds arbitrary: rs)
  case (Cons d ds)
  let ?rs = "np_drop_rel gv rs d"
  have sub: "set ?rs \<subseteq> set rs" by (auto simp: np_drop_rel_def)
  show ?case
  proof (cases "d = t")
    case True
    then have "\<forall>r \<in> set ?rs. rl_oid r \<notin> set (gv_dependents gv t)"
      using Cons.prems(2) assms(3) by (auto simp: np_drop_rel_def list_ex_iff)
    then show ?thesis using Cons.prems(3) drop_rels_subset[of gv ?rs ds] by auto
  next
    case False
    then have "t \<in> set ds" using Cons.prems(1) by simp
    moreover have "t \<in> rl_oid ` set ?rs \<or> (\<forall>r \<in> set ?rs. rl_oid r \<notin> set (gv_dependents gv t))"
    proof (cases "t \<in> rl_oid ` set rs \<and> t \<notin> rl_oid ` set ?rs")
      case True
      then have "t \<in> set (gv_dependents gv d)" "?rs = filter (\<lambda>r. rl_oid r \<noteq> d \<and> rl_oid r \<notin> set (gv_dependents gv d)) rs"
        using False by (auto simp: np_drop_rel_def split: if_splits)
      then show ?thesis using assms(1) by auto
    next
      case False
      then show ?thesis using Cons.prems(2) sub by blast
    qed
    moreover have "r \<in> set (foldl (np_drop_rel gv) ?rs ds)" using Cons.prems(3) by simp
    ultimately show ?thesis by (rule Cons.IH)
  qed
qed simp

lemma drop_grown:
  assumes "grows dv S M st st'" "dependents_ok (dv_graph dv) (rels st)" "{d \<in> S. OidIsValid d} \<subseteq> set ds"
    "set ds \<inter> oids st = {}" "\<forall>d \<in> set ds. OidIsValid d"
  shows "foldl (np_drop_rel (dv_graph dv)) (rels st') ds = rels st"
proof -
  obtain new where new: "rels st' = rels st @ new" "\<forall>r \<in> set new. OidIsValid (rl_oid r) \<and> rl_oid r \<notin> oids st
         \<and> (rl_oid r \<in> S \<or> (\<exists>t \<in> {t \<in> S. OidIsValid t} \<inter> oids st'. rl_oid r \<in> set (gv_dependents (dv_graph dv) t)))"
    using assms(1) by (auto simp: grows_def)
  obtain P where P: "foldl (np_drop_rel (dv_graph dv)) (rels st') ds = filter P (rels st @ new)"
    using drop_rels_filter[of "dv_graph dv" "rels st'" ds] new(1) by auto
  have "P r" if "r \<in> set (rels st)" for r
  proof -
    have "\<forall>relid \<in> set ds. rl_oid r \<notin> set (gv_dependents (dv_graph dv) relid)"
      using assms(2,4) that unfolding dependents_ok_def oids_def by blast
    then have "r \<in> set (foldl (np_drop_rel (dv_graph dv)) (rels st') ds)"
      using that assms(4) new(1) by (intro kept_rels) (auto simp: oids_def)
    then show ?thesis using that unfolding P by auto
  qed
  moreover have "\<not> P r" if r: "r \<in> set new" for r
  proof
    assume "P r"
    then have kept: "r \<in> set (foldl (np_drop_rel (dv_graph dv)) (rels st') ds)" using r unfolding P by simp
    then have "rl_oid r \<notin> set ds" using dropped_rels[of "dv_graph dv" "rels st'" ds] new(2) r by auto
    then obtain t where t: "t \<in> S" "OidIsValid t" "t \<in> oids st'" "rl_oid r \<in> set (gv_dependents (dv_graph dv) t)"
      using new(2) r assms(3) by blast
    show False
      using dropped_dependents[of "dv_graph dv" t ds "rels st'" r] kept t assms(2,3) by (auto simp: dependents_ok_def oids_def)
  qed
  ultimately show ?thesis using P by (simp add: filter_id_conv filter_empty_conv)
qed

subsection \<open>A graph from beginning to end\<close>

lemma search_graph_none:
  assumes "search_graph gv name nsp gs = (None, gs')"
  shows "gs' = gs \<lparr> gs_caches := initialize_caches (gs_caches gs) \<rparr>"
    "hash_find (ca_graph (gs_caches gs)) (namestrcpy name, nsp) = None"
    "\<forall>row \<in> set (nt_graphs (gs_tables gs)). \<not> graph_row name nsp row"
  using assms
  by (auto simp: search_graph_def search_graph_name_namespace_cache_def search_graph_name_namespace_cache_miss_def Let_def
      initialize_caches_def graph_row_def find_None_iff split: option.split_asm)

lemma search_graph_last:
  assumes "\<forall>row \<in> set rows. \<not> graph_row name nsp row" "graph_row name nsp new"
    "nt_graphs (gs_tables gs) = rows @ [new]" "hash_find (ca_graph (gs_caches gs)) (namestrcpy name, nsp) = None"
  shows "\<exists>ca. search_graph gv name nsp gs = (Some (fill_graph_cache_data new), gs \<lparr> gs_caches := ca \<rparr>)"
proof -
  have "find (\<lambda>row. gc_name row = namestrcpy name \<and> gc_namespace row = nsp) (rows @ [new]) = Some new"
    using assms(1,2) by (induction rows) (auto simp: graph_row_def)
  then show ?thesis using assms(3,4)
    by (simp add: search_graph_def search_graph_name_namespace_cache_def search_graph_name_namespace_cache_miss_def Let_def
        initialize_caches_def) (rule exI, rule refl)
qed

lemma label_catalog_grows:
  assumes "create_label_catalog_table dv g st = Inr (d, st')" "execute_ok dv"
  shows "grows dv {d} {} st st'" "tables st' = tables st" "d \<notin> oids st" "OidIsValid d"
    "get_relname_relid (rels st') (''np_label_catalog_'' @ print_int g) (np_namespace dv) = d"
proof -
  let ?name = "''np_label_catalog_'' @ print_int g"
  obtain cols s1 where t: "run_statement dv (CreateTable (np_namespace dv) ?name cols (Some ''np_catalog'')) st = Inr (d, s1)"
    and u: "execute_internal_create_index dv (np_namespace dv) ?name (?name @ ''_idx'') ''label_name'' ''btree'' True True None
      (s1 \<lparr> ls_label_catalog := (ls_label_catalog s1)(g := Some []) \<rparr>) = Inr st'"
    using assms(1) unfolding create_label_catalog_table_def execute_internal_create_table_def Let_def sum_bind_eq_Inr
      split_paired_Ex case_prod_conv
    by (elim exE conjE) (auto intro: that)
  let ?s = "s1 \<lparr> ls_label_catalog := (ls_label_catalog s1)(g := Some []) \<rparr>"
  note g1 = run_statement_grows[OF t assms(2)] and g2 = create_index_grows[OF u assms(2)]
  have m: "get_relname_relid (rels ?s) ?name (np_namespace dv) = d" using g1(6) by simp
  have "grows dv {} {} s1 ?s" by (simp add: grows_def oids_def)
  then show "grows dv {d} {} st st'"
    by (intro grows_mono[OF grows_trans[OF g1(1) grows_trans[OF _ g2(1)]]]) (use m in auto)
  show "tables st' = tables st" "d \<notin> oids st" "OidIsValid d" using g1 g2(2) by simp_all
  show "get_relname_relid (rels st') ?name (np_namespace dv) = d" using grows_relname[OF g2(1)] m g1(3) by simp
qed

text \<open>The relations of a new graph.\<close>

lemma create_graph_grows:
  assumes "create_graph dv create_namespace (Some name) nsp_arg st = Inr st'" "execute_ok dv"
    "resolve_namespace (dv_graph dv) nsp_arg = Inr nsp"
    "g = ucast (ls_last st (get_relname_relid (rels st) ''np_graph_id_seq'' (np_namespace dv)) + 1)"
  shows "\<exists>new v_row e_row. grows dv (graph_rels (dv_graph dv) (ls_graph st') new [v_row] [e_row]) {}
       (st \<lparr> ls_graph := (ls_graph st) \<lparr> gs_caches := initialize_caches (gs_caches (ls_graph st)) \<rparr> \<rparr>) st'
    \<and> graph_rels (dv_graph dv) (ls_graph st') new [v_row] [e_row] \<inter> oids st = {} \<and> rels st' \<noteq> rels st
    \<and> graph_row name nsp new \<and> gc_id new = g \<and> fill_graph_cache_data new = new
    \<and> hash_find (ca_graph (gs_caches (ls_graph st))) (namestrcpy name, nsp) = None
    \<and> (\<forall>row \<in> set (nt_graphs (tables st)). \<not> graph_row name nsp row)
    \<and> (\<exists>l. tables st' = (tables st) \<lparr> nt_graphs := nt_graphs (tables st) @ [new],
        nt_vertex_label := (nt_vertex_label (tables st))(g := Some [v_row]),
        nt_edge_label := (nt_edge_label (tables st))(g := Some [e_row]),
        nt_dictionary := (nt_dictionary (tables st))(g := (nt_dictionary (tables st) g)(l := Some [])) \<rparr>)"
proof -
  have nsp: "(case nsp_arg of None \<Rightarrow> resolve_namespace (dv_graph dv) None
       | Some nsp_str \<Rightarrow> Inr (if OidIsValid (gv_namespaces (dv_graph dv) nsp_str) then gv_namespaces (dv_graph dv) nsp_str
           else create_namespace nsp_str)) = Inr nsp"
    using assms(3) by (auto simp: resolve_namespace_def split: option.split_asm if_splits)
  obtain found gs0 where search: "search_graph (dv_graph dv) name nsp (ls_graph st) = (found, gs0)" by fastforce
  have none: "found = None" using assms(1) nsp search by (auto simp: create_graph_def split: option.split_asm)
  let ?st0 = "st \<lparr> ls_graph := gs0 \<rparr>"
  note s = search_graph_none[OF search[unfolded none]]
  obtain v s1 vseq vmeta s2 eseq emeta s3 schema_tbl s4 schema_pmap s5 cat s6 gs where
    t: "nextval (get_relname_relid (rels ?st0) ''np_graph_id_seq'' (np_namespace dv)) ?st0 = Inr (v, s1)"
      "setup_vertex_label_catalog dv (ucast v) nsp s1 = Inr ((vseq, vmeta), s2)"
      "setup_edge_label_catalog dv (ucast v) nsp s2 = Inr ((eseq, emeta), s3)"
      "create_annotation_schema_table dv (ucast v) nsp s3 = Inr (schema_tbl, s4)"
      "create_annotation_schema_phys_map_table dv (ucast v) nsp s4 = Inr (schema_pmap, s5)"
      "create_label_catalog_table dv (ucast v) s5 = Inr (cat, s6)"
    and ins: "insert_graph \<lparr> gc_id = ucast v, gc_name = namestrcpy name, gc_namespace = nsp,
         gc_vertex_labels = vmeta, gc_vertex_id_seq = vseq, gc_edge_labels = emeta,
         gc_edge_id_seq = eseq, gc_annot_schema_tbl = schema_tbl, gc_annot_schema_phys_map = schema_pmap \<rparr>
         (ls_graph s6) = Inr gs" and st': "st' = s6 \<lparr> ls_graph := gs \<rparr>"
    using assms(1) search none unfolding create_graph_def nsp sum_bind.simps option.case prod.case Let_def sum_bind_eq_Inr
      split_paired_Ex case_prod_conv
    by (simp only: option.case prod.case sum_bind_eq_Inr split_paired_Ex case_prod_conv, elim exE conjE) (auto intro: that)
  let ?new = "\<lparr> gc_id = g, gc_name = namestrcpy name, gc_namespace = nsp,
         gc_vertex_labels = vmeta, gc_vertex_id_seq = vseq, gc_edge_labels = emeta,
         gc_edge_id_seq = eseq, gc_annot_schema_tbl = schema_tbl, gc_annot_schema_phys_map = schema_pmap \<rparr>"
  have r0: "rels ?st0 = rels st" "tables ?st0 = tables st" "oids ?st0 = oids st"
    using s(1) by (simp_all add: rels_def tables_def oids_def)
  note n = nextval_effect[OF t(1)]
  have g: "ucast v = g" using n(5) r0(1) assms(4) by simp
  obtain v_row where g2: "grows dv ({vseq, vmeta} \<union> found_rels dv g v_row s2) {} s1 s2" "names_found dv g v_row s2"
    "({vseq, vmeta} \<union> found_rels dv g v_row s2) \<inter> oids s1 = {}" "OidIsValid vseq" "OidIsValid vmeta"
    "tables s2 = (tables s1) \<lparr> nt_vertex_label := (nt_vertex_label (tables s1))(g := Some [v_row]),
        nt_dictionary := (nt_dictionary (tables s1))(g := (nt_dictionary (tables s1) g)(lb_id v_row := Some [])) \<rparr>"
    using setup_vertex_grows[OF t(2)[unfolded g] assms(2)] by blast
  obtain e_row where g3: "grows dv ({eseq, emeta} \<union> found_edge_rels dv g e_row s3) {} s2 s3" "edge_name_found dv g e_row s3"
    "({eseq, emeta} \<union> found_edge_rels dv g e_row s3) \<inter> oids s2 = {}" "OidIsValid eseq" "OidIsValid emeta"
    "tables s3 = (tables s2) \<lparr> nt_edge_label := (nt_edge_label (tables s2))(g := Some [e_row]) \<rparr>"
    using setup_edge_grows[OF t(3)[unfolded g] assms(2)] by blast
  note g4 = run_statement_grows[OF t(4)[unfolded create_defs g] assms(2)]
    and g5 = run_statement_grows[OF t(5)[unfolded create_defs g] assms(2)]
    and g6 = label_catalog_grows[OF t(6)[unfolded g] assms(2)]
  have gs: "gs = (ls_graph s6) \<lparr> gs_tables := (tables s6) \<lparr> nt_graphs := nt_graphs (tables s6) @ [?new] \<rparr> \<rparr>"
    using ins g by (auto simp: insert_graph_def tables_def Let_def split: if_splits)
  then have g7: "grows dv {} {} s6 st'" "rels st' = rels s6"
    by (simp_all add: st' grows_def oids_def rels_def links_of_def)
  note from3 = grows_trans[OF g4(1) grows_trans[OF g5(1) grows_trans[OF g6(1) g7(1)]]]
  note from2 = grows_trans[OF g3(1) from3]
  have fr: "found_rels dv g v_row st' = found_rels dv g v_row s2" "found_edge_rels dv g e_row st' = found_edge_rels dv g e_row s3"
    using found_rels_grow(1)[OF from2 g2(2)] found_edge_rels_grow(1)[OF from3 g3(2)] by simp_all
  have cat: "get_relname_relid (gs_rels (ls_graph st')) (''np_label_catalog_'' @ print_int g) (gv_np_namespace (dv_graph dv)) = cat"
    using g6(5) g7(2) by (simp add: rels_def np_namespace_def)
  have gr: "graph_rels (dv_graph dv) (ls_graph st') ?new [v_row] [e_row] =
      {vseq, vmeta, eseq, emeta, schema_tbl, schema_pmap, cat} \<union> found_rels dv g v_row s2 \<union> found_edge_rels dv g e_row s3"
    unfolding fr[symmetric] using cat by (auto simp: graph_rels_def found_rels_def found_edge_rels_def)
  have "grows dv (graph_rels (dv_graph dv) (ls_graph st') ?new [v_row] [e_row]) {} ?st0 st'"
    unfolding gr by (rule grows_mono[OF grows_trans[OF n(6) grows_trans[OF g2(1) from2]]]) auto
  moreover have sub: "oids st \<subseteq> oids s1" "oids s1 \<subseteq> oids s2" "oids s2 \<subseteq> oids s3" "oids s3 \<subseteq> oids s4" "oids s4 \<subseteq> oids s5"
    using n(1) r0(1) grows_oids[OF g2(1)] grows_oids[OF g3(1)] grows_oids[OF g4(1)] grows_oids[OF g5(1)]
    by (simp_all add: oids_def)
  moreover have "graph_rels (dv_graph dv) (ls_graph st') ?new [v_row] [e_row] \<inter> oids st = {}"
    unfolding gr using sub g2(3) g3(3) g4(4) g5(4) g6(3) by blast
  moreover have "rels st' \<noteq> rels st"
  proof
    assume "rels st' = rels st"
    moreover have "cat \<in> oids s6"
      using relname_oid[of s6 "''np_label_catalog_'' @ print_int g" "np_namespace dv"] g6(4,5) by simp
    ultimately have "cat \<in> oids st" using g7(2) by (simp add: oids_def)
    then show False using sub g6(3) by blast
  qed
  moreover have "tables st' = (tables st) \<lparr> nt_graphs := nt_graphs (tables st) @ [?new],
        nt_vertex_label := (nt_vertex_label (tables st))(g := Some [v_row]),
        nt_edge_label := (nt_edge_label (tables st))(g := Some [e_row]),
        nt_dictionary := (nt_dictionary (tables st))(g := (nt_dictionary (tables st) g)(lb_id v_row := Some [])) \<rparr>"
    using g2(6) g3(6) g4(2) g5(2) g6(2) n(2) r0(2) by (simp add: st' gs tables_def)
  moreover have "graph_row name nsp ?new" "gc_id ?new = g" "fill_graph_cache_data ?new = ?new"
    by (simp_all add: graph_row_def fill_graph_cache_data_def namestrcpy_def)
  ultimately show ?thesis using s by (metis tables_def)
qed


text \<open>The id that the next graph takes names no tables.\<close>

definition next_graph_id :: "'p label_env \<Rightarrow> ('d, 'p) label_state \<Rightarrow> 32 word" where
  "next_graph_id dv st = ucast (ls_last st (get_relname_relid (rels st) ''np_graph_id_seq'' (np_namespace dv)) + 1)"

definition graph_id_unused :: "32 word \<Rightarrow> 'd np_tables \<Rightarrow> bool" where
  "graph_id_unused g nt \<longleftrightarrow> nt_vertex_label nt g = None \<and> nt_edge_label nt g = None \<and> nt_dictionary nt g = (\<lambda>_. None)"

text \<open>Creating a graph makes its catalogs, its default labels and all their relations; dropping the
  graph afterwards succeeds and removes exactly these: the relations and the rows of the catalogs are
  what they were before.  No table, sequence or index is left behind.\<close>
theorem create_then_drop_graph:
  assumes "create_graph dv create_namespace (Some name) nsp_arg st = Inr st'"
    "resolve_namespace (dv_graph dv) nsp_arg = Inr nsp"
    "execute_ok dv" "dependents_ok (dv_graph dv) (rels st)" "graph_id_unused (next_graph_id dv st) (tables st)"
  shows "rels st' \<noteq> rels st \<and> (\<exists>gs. drop_graph (dv_graph dv) (Some name) nsp_arg (ls_graph st') = Inr gs
    \<and> gs_rels gs = rels st \<and> gs_tables gs = tables st)"
proof -
  define g where "g = next_graph_id dv st"
  let ?st0 = "st \<lparr> ls_graph := (ls_graph st) \<lparr> gs_caches := initialize_caches (gs_caches (ls_graph st)) \<rparr> \<rparr>"
  obtain new v_row e_row l where
    c: "grows dv (graph_rels (dv_graph dv) (ls_graph st') new [v_row] [e_row]) {} ?st0 st'"
      "graph_rels (dv_graph dv) (ls_graph st') new [v_row] [e_row] \<inter> oids st = {}"
      "graph_row name nsp new" "gc_id new = g" "fill_graph_cache_data new = new"
      "hash_find (ca_graph (gs_caches (ls_graph st))) (namestrcpy name, nsp) = None"
      "\<forall>row \<in> set (nt_graphs (tables st)). \<not> graph_row name nsp row"
    and differ: "rels st' \<noteq> rels st"
    and nt: "tables st' = (tables st) \<lparr> nt_graphs := nt_graphs (tables st) @ [new],
        nt_vertex_label := (nt_vertex_label (tables st))(g := Some [v_row]),
        nt_edge_label := (nt_edge_label (tables st))(g := Some [e_row]),
        nt_dictionary := (nt_dictionary (tables st))(g := (nt_dictionary (tables st) g)(l := Some [])) \<rparr>"
    using create_graph_grows[OF assms(1,3,2) g_def[unfolded next_graph_id_def]] by blast
  have r0: "rels ?st0 = rels st" "oids ?st0 = oids st" by (simp_all add: rels_def oids_def)
  have "gs_caches (ls_graph st') = initialize_caches (gs_caches (ls_graph st))" using c(1) by (simp add: grows_def)
  then have h: "hash_find (ca_graph (gs_caches (ls_graph st'))) (namestrcpy name, nsp) = None"
    using c(6) by (simp add: initialize_caches_def)
  have n: "nt_graphs (gs_tables (ls_graph st')) = nt_graphs (tables st) @ [new]" using nt by (simp add: tables_def)
  obtain ca where s: "search_graph (dv_graph dv) name nsp (ls_graph st') = (Some new, (ls_graph st') \<lparr> gs_caches := ca \<rparr>)"
    using search_graph_last[OF c(7,3) n h] c(5) by auto
  let ?gs = "(ls_graph st') \<lparr> gs_caches := ca \<rparr>"
  have "nt_vertex_label (gs_tables ?gs) (gc_id new) = Some [v_row]" "nt_edge_label (gs_tables ?gs) (gc_id new) = Some [e_row]"
    using nt c(4) by (simp_all add: tables_def)
  from collected_rels[OF this] obtain ds where ds: "np_collect_graph_namespace_rels (dv_graph dv) ?gs new = Inr ds"
    "set ds = {d \<in> graph_rels (dv_graph dv) ?gs new [v_row] [e_row]. OidIsValid d}" by blast
  have same: "graph_rels (dv_graph dv) ?gs new [v_row] [e_row] = graph_rels (dv_graph dv) (ls_graph st') new [v_row] [e_row]"
    by (simp add: graph_rels_def vertex_label_rels_def edge_label_rels_def)
  have dropped: "foldl (np_drop_rel (dv_graph dv)) (rels st') ds = rels st"
    unfolding r0(1)[symmetric] by (rule drop_grown[OF c(1)]) (use assms(4) ds(2) same c(2) r0 in auto)
  have "change_first (graph_row name nsp) (\<lambda>_. []) (rows @ [new]) = rows" if "\<forall>row \<in> set rows. \<not> graph_row name nsp row" for rows
    using that c(3) by (induction rows) auto
  then have cf: "change_first (graph_row name nsp) (\<lambda>_. []) (nt_graphs (tables st) @ [new]) = nt_graphs (tables st)" using c(7) by blast
  let ?nt = "(forget_tables g (gs_tables ?gs)) \<lparr> nt_graphs := nt_graphs (tables st) \<rparr>"
  have "?nt = tables st"
    using nt assms(5) by (intro np_tables.equality) (auto simp: forget_tables_def tables_def graph_id_unused_def g_def fun_eq_iff)
  moreover have "drop_graph (dv_graph dv) (Some name) nsp_arg (ls_graph st') =
    Inr (?gs \<lparr> gs_rels := rels st, gs_tables := ?nt,
      gs_caches := invalidate_graph_name_namespace_cache_entry name nsp ca \<rparr>)"
    using assms(2) s ds(1) dropped c(3,4) n cf
    by (simp add: drop_graph_def change_graph_row_def Let_def forget_tables_def rels_def tables_def)
  ultimately show ?thesis using differ by simp
qed

text \<open>An instance: every fourth id is a table or a sequence, the two behind it are its indexes.\<close>

definition example_execute :: "statement \<Rightarrow> pg_relation list \<Rightarrow> store_error + pg_relation list" where
  "example_execute stmt rs =
     (let name = statement_name stmt; nsp = statement_namespace stmt;
          d = (case stmt of
            CreateIndex nsp idx_name tbl_name col am is_unique is_primary condition \<Rightarrow>
              let t = get_relname_relid rs tbl_name nsp
              in if \<not> OidIsValid t \<or> t AND 3 \<noteq> 0 then InvalidOid else if list_ex (\<lambda>r. rl_oid r = t + 1) rs then t + 2 else t + 1
          | _ \<Rightarrow> 4 * of_nat (length rs + 1))
      in if \<not> OidIsValid d \<or> list_ex (\<lambda>r. rl_oid r = d \<or> (rl_name r = name \<and> rl_namespace r = nsp)) rs
         then Inl (Raised ''relation already exists'')
         else Inr (rs @ [\<lparr> rl_oid = d, rl_name = name, rl_namespace = nsp \<rparr>]))"

definition example_cycle_env :: "list_page label_env" where
  "example_cycle_env = \<lparr> dv_graph = example_graph_env \<lparr> gv_dependents := (\<lambda>t. if t AND 3 = 0 then [t + 1, t + 2] else []) \<rparr>,
     dv_schema = example_schema_env, dv_execute = example_execute, dv_ltree_ok = (\<lambda>_. True), dv_label_key = (0x7FFC1000, 0x7F) \<rparr>"

definition example_rels :: "(oid \<times> string \<times> oid) list \<Rightarrow> pg_relation list" where
  "example_rels = map (\<lambda>(d, name, nsp). \<lparr> rl_oid = d, rl_name = name, rl_namespace = nsp \<rparr>)"

definition example_cycle_state :: "(unit, list_page) label_state" where
  "example_cycle_state = \<lparr> ls_graph = \<lparr> gs_tables = \<lparr> nt_graphs = [], nt_vertex_label = (\<lambda>_. None),
       nt_edge_label = (\<lambda>_. None), nt_dictionary = (\<lambda>_ _. None) \<rparr>,
       gs_rels = example_rels [(4, ''np_graph_id_seq'', 3000)], gs_links = (\<lambda>_. []), gs_caches = no_caches \<rparr>,
     ls_db = (\<lambda>_. []), ls_label_catalog = (\<lambda>_. None), ls_last = (\<lambda>_. 0) \<rparr>"

lemma behind_fourth:
  fixes u :: oid
  assumes "u AND 3 = 0"
  shows "(u + 1) AND 3 \<noteq> 0" "(u + 2) AND 3 \<noteq> 0"
proof -
  have z: "x AND 3 = 0 \<longleftrightarrow> unat x mod 4 = 0" for x :: oid
  proof -
    have "x mod 4 = x AND 3" using take_bit_eq_mask[of 2 x] by (simp add: mask_eq_exp_minus_1 take_bit_eq_mod)
    then have "unat (x AND 3) = unat x mod 4" using unat_mod[of x 4] by simp
    then show ?thesis by (metis unat_0 unsigned_eq_0_iff)
  qed
  have "unat (u + 1) mod 4 = (unat u + 1) mod 4" "unat (u + 2) mod 4 = (unat u + 2) mod 4"
    by (simp_all add: unat_word_ariths mod_mod_cancel)
  with assms show "(u + 1) AND 3 \<noteq> 0" "(u + 2) AND 3 \<noteq> 0" unfolding z by presburger+
qed
text \<open>What is promised of PostgreSQL holds of the instance.\<close>

lemma example_execute_ok: "execute_ok example_cycle_env"
  by (auto simp: execute_ok_def example_cycle_env_def example_execute_def Let_def list_ex_iff image_iff
      split: statement.splits if_splits)
lemma example_dependents_ok: "dependents_ok (dv_graph example_cycle_env) (rels example_cycle_state)"
  by (auto simp: dependents_ok_def example_cycle_env_def example_cycle_state_def rels_def example_rels_def behind_fourth
      split: if_splits)

end
