(* ===== verification/Spec2Isabelle.thy ===== *)
theory Spec2Isabelle
  imports Np_Compaction Np_Delete Np_Catalog_Complete Np_Graph_Cycle
begin

text \<open>
  A model of NeoPostGraph, a PostgreSQL extension that stores property graphs.  All paths below are
  relative to \<open>src/src/backend\<close>, header files to \<open>src/src/include\<close>.

  \<^bold>\<open>The program.\<close>  A property is a value of the data type \<open>gtype\<close> (\<open>utils/adt\<close>), a binary JSON with
  further scalars.  A vertex or an edge is a row of an entity store (\<open>access/np_entity_store.c\<close>): a
  version header, the fixed part of the entity and the serialised properties.  A physical map
  (\<open>access/np_phys_map.c\<close>) leads from the id of a vertex to its newest version and to the head of its
  adjacency list, which is a doubly linked chain of linked-list records (\<open>access/np_linked_list.c\<close>),
  newest first, and then of array-list blocks (\<open>access/np_arraylist.c\<close>) into which old records are
  compacted.  The data manipulation routines (\<open>dml\<close>) work on these relations; the catalog (\<open>catalog\<close>)
  says which relations belong to a label.

  \<^bold>\<open>Theories on \<open>gtype\<close>.\<close>
  \<^item> \<open>GType_Bits\<close>: the entry words and container headers (\<open>utils/gtype.h\<close>), on 32-bit words.
  \<^item> \<open>GType_Value\<close>: the tagged union \<open>gtype_value\<close> as a datatype and the serialiser's growing buffer as
    a byte list (\<open>utils/adt/gtype_util.c\<close>).
  \<^item> \<open>GType_Ext\<close>: the extended scalars (\<open>gtype_ext.c\<close>).
  \<^item> \<open>GType_Convert\<close>: the serialiser \<open>convert_to_gtype\<close> as the code has it; \<open>GType_Layout\<close>: the layout as
    a function of the value, and that the serialiser implements it.
  \<^item> \<open>GType_Offsets\<close>: \<open>get_gtype_offset\<close> and \<open>get_gtype_length\<close>; \<open>GType_Iterator\<close>: \<open>gtype_iterator_next\<close>
    with its stack of containers as a list; \<open>GType_Object\<close>: sorting and removing duplicate keys;
    \<open>GType_Push\<close>: \<open>push_gtype_value\<close>; \<open>GType_Roundtrip\<close>: what holds across these.
  \<^item> \<open>GType_Lex\<close> and \<open>GType_Parse\<close>: \<open>gtype_parser.c\<close>; \<open>GType_In\<close> and \<open>GType_Out\<close>: the semantic actions
    and the printer of \<open>gtype.c\<close>; \<open>GType_Text\<close>: escaping and lexing, termination of the parser.

  \<^bold>\<open>Theories on storage.\<close>
  \<^item> \<open>Np_Visibility\<close>: the three tests on version headers; \<open>mvcc\<close> is the header shared by the records.
  \<^item> \<open>Np_Page\<close>: the records, item pointers, pages, relations.  The state is a \<open>db\<close>, a map from relation
    ids to lists of pages; \<open>fetch_item\<close> reads it as a partial map from addresses to records.
  \<^item> \<open>Np_Store\<close>: \<open>np_write_record_to_page\<close>, by which every access method inserts; the locale
    \<open>record_store\<close> is the contract of the store for its clients and \<open>np\<close> its interpretation.
  \<^item> \<open>Np_Access\<close>: the operations and scans of linked lists, array lists and physical maps.
  \<^item> \<open>Np_Phys_Map\<close>: the physical map as an array; \<open>Np_Entity\<close>: packing, updating, scanning and fetching
    entities.
  \<^item> \<open>Np_Adjacency\<close>: adjacency chains and the insertion of an edge on one side; \<open>Np_Insert\<close>: inserting
    vertices with their annotations, and edges (\<open>dml/dml_insert.c\<close>).
  \<^item> \<open>Np_Adj_List\<close>: the compaction of the oldest linked list of a label into array-list blocks
    (\<open>access/np_adj_list.c\<close>) with its hash table as an association list; \<open>Np_Compact\<close> and
    \<open>Np_Compaction\<close>: the lists of all vertices keep their members, for one vertex and as a whole.
  \<^item> \<open>Np_Update\<close> and \<open>Np_Delete\<close>: updating and deleting vertices and edges (\<open>dml/dml_update.c\<close>,
    \<open>dml/dml_delete.c\<close>).

  \<^bold>\<open>Theories on the catalog.\<close>
  \<^item> \<open>Np_Catalog_Heap\<close>: the operations of the catalog's access method on single tuples;
    \<open>Np_Catalog_Scan\<close>: its scans, statistics and index support (\<open>access/np_catalog_heap.c\<close>);
    \<open>Np_Catalog_Update\<close> and \<open>Np_Catalog_Complete\<close>: visibility of versions and completeness of scans.
  \<^item> \<open>Np_Cache\<close>: the caches (\<open>utils/np_cache.c\<close>).  A hash table is the list of its entries.
  \<^item> \<open>Np_Annotation\<close>: the annotations of a vertex or an edge as a bit set; \<open>Np_Label_Annot\<close>: the
    annotations a label offers, and how they reach the labels below it (\<open>catalog/np_label.c\<close>).
  \<^item> \<open>Np_Label_Path\<close>: renaming and dropping labels and finding the label an entity moves to
    (\<open>dml/dml_labels.c\<close>).
  \<^item> \<open>Np_Graph\<close>: moving, renaming and dropping graphs (\<open>catalog/np_graph.c\<close>); \<open>Np_Label_Create\<close>:
    creating and merging labels (\<open>commands/label_commands.c\<close>, \<open>catalog/np_label.c\<close>), finding them by
    their names, and creating graphs; \<open>Np_Graph_Cycle\<close>: what is created is what dropping removes.

  \<^bold>\<open>How the parts interact.\<close>  A statement on an entity finds the label in the caches, which read the
  catalog; the label names the relations.  Inserting an edge writes the entity store, then the adjacency
  lists of both ends through the physical maps; deleting and updating find the newest version through
  the same maps.  The functions of these theories call each other as the C functions do and thread the
  \<open>db\<close> through.  The commands on labels and graphs change rows of the catalog; the rows of a table are a
  list in which an updated row keeps its place, and the scan of a command sees the rows as they were
  when it began, which \<open>catalog_update_switches\<close> shows of the catalog's access method.

  \<^bold>\<open>What the lemmas show.\<close>  Serialising is a refinement of a layout function; iterating, random access,
  unpacking and printing invert it.  Reading text is total: it ends in an error message or a container.
  Visibility agrees with a history of transactions under a proviso, and errs without it.  A store is a
  partial map, a physical map an array, a scan the list of visible records in physical order.
  Inserting keeps the chains of all vertices intact, compaction their members, and deleting ends exactly
  the records it has to.  The caches give what the catalog says, except for what they fail to
  invalidate.  A change of annotations changes one name of one entity, or the maps of exactly the labels
  below, with the edge labels that share an id; the theorems on dropping show where stored bits change
  their meaning.

  \<^bold>\<open>Parameters.\<close>  PostgreSQL is not part of the repository.  Its page routines are the record
  \<open>page_api\<close>, constrained by \<open>page_laws\<close>, which a list-based instance satisfies; its transaction
  status is \<open>xact_env\<close>; its input and output functions are \<open>scalar_in\<close> and \<open>scalar_out\<close>; its sort and
  its encoding conversions are parameters as well.  So are the order in which it visits a hash table
  (\<open>traverse\<close>), its bitmaps, sampling methods, predicates and indexes, the form in which it stores text
  arrays, the \<open>ltree\<close> extension (\<open>isparent\<close>, \<open>ltree_ok\<close>), the execution of the statements that create
  tables, sequences and indexes (\<open>dv_execute\<close>), and \<open>heap_deform_tuple\<close>, through which
  \<open>delete_vertex\<close> reads array-list blocks (\<open>deform\<close>).  For the data manipulation the rows of the
  system catalogs and the labels are the record \<open>catalog\<close>.  Uninitialised memory is an arbitrary
  \<open>junk\<close>.

  \<^bold>\<open>Bounds.\<close>  The parser takes a bound on calls and loop rounds; \<open>3 * length + 5\<close> suffices for every
  input (\<open>parser_terminates\<close>).  The printer takes the number of tokens.  Walks along adjacency lists,
  whose links may form a cycle, are partial functions; the theorems about them show that they return.
  All other loops are structural or have a measure.  Words have the width of the source; file sizes
  (\<open>has_room\<close>) and page sizes (\<open>item_fits\<close>) are hypotheses where running out of them is an error.

  \<^bold>\<open>Not modelled.\<close>  Locks, buffers and the write-ahead log: a routine that holds a page lock is one step;
  where an update locks the page it already holds, the model has the error \<open>SelfDeadlock\<close>.
  Callbacks of the access methods that only raise an error or do nothing.  The debug assertions of the
  serialiser on raw scalars, and that of the compaction on the order of its lists.
  \<open>np_update_inplace\<close>, which overwrites tuples of PostgreSQL's heap.  Of the statement trees for
  \<open>CREATE TABLE\<close> and its relatives, only what differs between them.  Moving a vertex or an edge with its adjacency list to another label
  (\<open>set_vertex_label\<close> and its relatives in \<open>dml/dml_labels.c\<close>).  The plugin for logical decoding
  (\<open>access/np_logical.c\<close>), which prints messages of the write-ahead log.  The text forms of vertices,
  edges and dictionaries.  The test driver \<open>src/regress\<close>.
\<close>

end
